(* ===== verification/Prelude.thy ===== *)
theory Prelude
  imports Main "HOL-Library.Word" "HOL-Library.Char_ord" "HOL-Library.List_Lexorder" "HOL-Library.Code_Target_Numeral"
begin

text \<open>
  Shared vocabulary of the development: the collections the component proofs feed to the
  simplifier, the outcome type of a Go call, the small state-passing combinators the
  stateful components are written with, and the machine integers.

  A Go function of type \<open>func(...) (T, error)\<close> that touches the outside world (database,
  clock, object store) is a function \<open>'w \<Rightarrow> (goerr, T) res \<times> 'w\<close> of an abstract world.
  \<open>Ok\<close> is a nil error, \<open>Err\<close> a non-nil one, and \<open>Panic\<close> a run-time panic (nil
  dereference, index out of range), which unwinds every caller.
\<close>

named_theorems go_simps \<open>unfolding of the state-passing combinators\<close>
named_theorems srv_simps \<open>unfolding of the database wrappers\<close>

section \<open>Outcomes and the state-passing combinators\<close>

datatype ('e, 'a) res = Ok 'a | Err 'e | Panic

type_synonym ('w, 'e, 'a) go = "'w \<Rightarrow> ('e, 'a) res \<times> 'w"

definition gret :: "'a \<Rightarrow> ('w, 'e, 'a) go" where
  [go_simps]: "gret a = (\<lambda>w. (Ok a, w))"

definition gerr :: "'e \<Rightarrow> ('w, 'e, 'a) go" where
  [go_simps]: "gerr e = (\<lambda>w. (Err e, w))"

definition gpanic :: "('w, 'e, 'a) go" where
  [go_simps]: "gpanic = (\<lambda>w. (Panic, w))"

text \<open>
  \<open>gbind f k\<close> is \<open>x, err := f(); if err != nil { return err }; k(x)\<close>.
  \<open>gtry f k\<close> is \<open>x, err := f(); k(x, err)\<close>: the continuation looks at the error itself.
  Both let a panic through.
\<close>

definition gbind :: "('w, 'e, 'a) go \<Rightarrow> ('a \<Rightarrow> ('w, 'e, 'b) go) \<Rightarrow> ('w, 'e, 'b) go" where
  [go_simps]: "gbind f k = (\<lambda>w. case f w of
     (Ok a, w') \<Rightarrow> k a w' | (Err e, w') \<Rightarrow> (Err e, w') | (Panic, w') \<Rightarrow> (Panic, w'))"

definition gtry :: "('w, 'e, 'a) go \<Rightarrow> ('e + 'a \<Rightarrow> ('w, 'f, 'b) go) \<Rightarrow> ('w, 'f, 'b) go" where
  [go_simps]: "gtry f k = (\<lambda>w. case f w of
     (Ok a, w') \<Rightarrow> k (Inr a) w' | (Err e, w') \<Rightarrow> k (Inl e) w' | (Panic, w') \<Rightarrow> (Panic, w'))"

text \<open>\<open>gseq f k\<close> is \<open>f(); k\<close>: the error of \<open>f\<close> is dropped.\<close>

definition gseq :: "('w, 'e, 'a) go \<Rightarrow> ('w, 'f, 'b) go \<Rightarrow> ('w, 'f, 'b) go" where
  [go_simps]: "gseq f k = gtry f (\<lambda>_. k)"

text \<open>A value read from the world, and the loop \<open>for _, x := range xs\<close> that returns at the
  first error.\<close>

definition gget :: "('w \<Rightarrow> 'a) \<Rightarrow> ('w, 'e, 'a) go" where
  [go_simps]: "gget f = (\<lambda>w. (Ok (f w), w))"

fun gfold :: "('b \<Rightarrow> 'a \<Rightarrow> ('w, 'e, 'a) go) \<Rightarrow> 'b list \<Rightarrow> 'a \<Rightarrow> ('w, 'e, 'a) go" where
  "gfold f [] a = gret a"
| "gfold f (x # xs) a = gbind (f x a) (gfold f xs)"

definition geach :: "('b \<Rightarrow> ('w, 'e, unit) go) \<Rightarrow> 'b list \<Rightarrow> ('w, 'e, unit) go" where
  "geach f xs = gfold (\<lambda>x _. f x) xs ()"

lemma geach_Nil [simp]: "geach f [] = gret ()"
  by (simp add: geach_def)

lemma geach_Cons [simp]: "geach f (x # xs) = gbind (f x) (\<lambda>_. geach f xs)"
  by (simp add: geach_def)

lemma gbind_gret [simp]: "gbind (gret a) k = k a"
  by (simp add: go_simps)

lemma gbind_gerr [simp]: "gbind (gerr e) k = gerr e"
  by (simp add: go_simps)

lemma gtry_gret [simp]: "gtry (gret a) k = k (Inr a)"
  by (simp add: go_simps)

lemma gtry_gerr [simp]: "gtry (gerr e) k = k (Inl e)"
  by (simp add: go_simps)

lemma gbind_assoc: "gbind (gbind f k) h = gbind f (\<lambda>a. gbind (k a) h)"
  by (auto simp: gbind_def fun_eq_iff split: prod.splits res.splits)

lemma gfold_append: "gfold f (xs @ ys) a = gbind (gfold f xs a) (gfold f ys)"
proof (induction xs arbitrary: a)
  case Nil
  then show ?case by simp
next
  case (Cons x xs)
  then have "gfold f (xs @ ys) = (\<lambda>a. gbind (gfold f xs a) (gfold f ys))" by blast
  then show ?case by (simp add: gbind_assoc)
qed

lemma gret_app: "gret a w = (Ok a, w)"
  by (simp add: gret_def)

lemma gerr_app: "gerr e w = (Err e, w)"
  by (simp add: gerr_def)

lemma gpanic_app: "gpanic w = (Panic, w)"
  by (simp add: gpanic_def)

lemma gget_app [simp]: "gget f w = (Ok (f w), w)"
  by (simp add: gget_def)

text \<open>The outcome of a sequenced call, for splitting a run into its steps.\<close>

lemma gbind_OkD:
  assumes "gbind f k w = (Ok b, w'')"
  obtains a w' where "f w = (Ok a, w')" and "k a w' = (Ok b, w'')"
  using assms by (auto simp: gbind_def split: prod.splits res.splits)

lemma gtry_OkD:
  assumes "gtry f k w = (Ok b, w'')"
  obtains (ok) a w' where "f w = (Ok a, w')" and "k (Inr a) w' = (Ok b, w'')"
    | (err) e w' where "f w = (Err e, w')" and "k (Inl e) w' = (Ok b, w'')"
  using assms by (auto simp: gtry_def split: prod.splits res.splits)

text \<open>A run that ends with a nil error, as a test a concrete run can be evaluated for.\<close>

definition run_ok :: "('w, 'e, 'a) go \<Rightarrow> 'w \<Rightarrow> bool" where
  "run_ok f w \<longleftrightarrow> (case fst (f w) of Ok _ \<Rightarrow> True | _ \<Rightarrow> False)"

lemma run_okE:
  assumes "run_ok f w"
  obtains a w' where "f w = (Ok a, w')"
  using assms by (cases "f w"; cases "fst (f w)") (auto simp: run_ok_def)

lemma run_ok_gbindE:
  assumes "run_ok (gbind f k) w"
  obtains a w1 b w' where "f w = (Ok a, w1)" and "k a w1 = (Ok b, w')"
  using assms by (elim run_okE) (elim gbind_OkD)

section \<open>Weakest preconditions\<close>

text \<open>\<open>wp f Q w\<close>: the run of \<open>f\<close> in world \<open>w\<close> ends with an outcome and a world satisfying
  \<open>Q\<close>. The equations push it through the combinators; the components add one introduction
  rule per primitive to \<open>wp_intros\<close>, and a proof about a handler applies them in turn.\<close>

named_theorems wp_simps \<open>weakest preconditions of the combinators\<close>
named_theorems wp_intros \<open>introduction rules for the primitives\<close>

definition wp :: "('w, 'e, 'a) go \<Rightarrow> (('e, 'a) res \<Rightarrow> 'w \<Rightarrow> bool) \<Rightarrow> 'w \<Rightarrow> bool" where
  "wp f Q w \<longleftrightarrow> (case f w of (r, w') \<Rightarrow> Q r w')"

definition on_ok :: "('a \<Rightarrow> 'w \<Rightarrow> bool) \<Rightarrow> (('e, 'b) res \<Rightarrow> 'w \<Rightarrow> bool) \<Rightarrow> ('e, 'a) res \<Rightarrow> 'w \<Rightarrow> bool" where
  "on_ok P Q r w = (case r of Ok a \<Rightarrow> P a w | Err e \<Rightarrow> Q (Err e) w | Panic \<Rightarrow> Q Panic w)"

definition on_any :: "('e + 'a \<Rightarrow> 'w \<Rightarrow> bool) \<Rightarrow> (('f, 'b) res \<Rightarrow> 'w \<Rightarrow> bool) \<Rightarrow> ('e, 'a) res \<Rightarrow> 'w \<Rightarrow> bool" where
  "on_any P Q r w = (case r of Ok a \<Rightarrow> P (Inr a) w | Err e \<Rightarrow> P (Inl e) w | Panic \<Rightarrow> Q Panic w)"

lemma on_ok_simps [simp]:
  "on_ok P Q (Ok a) w = P a w" "on_ok P Q (Err e) w = Q (Err e) w" "on_ok P Q Panic w = Q Panic w"
  by (simp_all add: on_ok_def)

lemma on_any_simps [simp]:
  "on_any P Q (Ok a) w = P (Inr a) w" "on_any P Q (Err e) w = P (Inl e) w" "on_any P Q Panic w = Q Panic w"
  by (simp_all add: on_any_def)

lemma wp_gret [wp_simps]: "wp (gret a) Q w = Q (Ok a) w"
  by (simp add: wp_def gret_def)

lemma on_ok_gret [simp]: "on_ok (\<lambda>a. wp (gret a) Q) Q = Q"
  by (simp add: fun_eq_iff on_ok_def wp_gret split: res.splits)

lemma wp_gerr [wp_simps]: "wp (gerr e) Q w = Q (Err e) w"
  by (simp add: wp_def gerr_def)

lemma wp_gpanic [wp_simps]: "wp gpanic Q w = Q Panic w"
  by (simp add: wp_def gpanic_def)

lemma wp_gget [wp_simps]: "wp (gget f) Q w = Q (Ok (f w)) w"
  by (simp add: wp_def gget_def)

lemma wp_gbind [wp_simps]: "wp (gbind f k) Q w = wp f (on_ok (\<lambda>a. wp (k a) Q) Q) w"
  by (simp add: wp_def gbind_def on_ok_def split: prod.splits res.splits)

lemma wp_gtry [wp_simps]: "wp (gtry f k) Q w = wp f (on_any (\<lambda>a. wp (k a) Q) Q) w"
  by (simp add: wp_def gtry_def on_any_def split: prod.splits res.splits)

lemma wp_gseq [wp_simps]: "wp (gseq f k) Q w = wp f (on_any (\<lambda>_. wp k Q) Q) w"
  by (simp add: gseq_def wp_gtry)

lemma wp_mono: "wp f Q w \<Longrightarrow> (\<And>r w'. Q r w' \<Longrightarrow> Q' r w') \<Longrightarrow> wp f Q' w"
  by (auto simp: wp_def)

lemma wpD: "wp f Q w \<Longrightarrow> f w = (r, w') \<Longrightarrow> Q r w'"
  by (simp add: wp_def)

lemma wpI: "(\<And>r w'. f w = (r, w') \<Longrightarrow> Q r w') \<Longrightarrow> wp f Q w"
  by (cases "f w") (simp add: wp_def)

lemma wp_conj: "wp f Q w \<Longrightarrow> wp f Q' w \<Longrightarrow> wp f (\<lambda>r w'. Q r w' \<and> Q' r w') w"
  by (auto simp: wp_def)

text \<open>A loop keeps an invariant of the rest of the list, the accumulator and the world.\<close>

lemma wp_gfold:
  assumes "I xs a w"
    and step: "\<And>x xs a w. I (x # xs) a w \<Longrightarrow> wp (f x a) (on_ok (I xs) Q) w"
    and "\<And>a w. I [] a w \<Longrightarrow> Q (Ok a) w"
  shows "wp (gfold f xs a) Q w"
  using assms(1)
proof (induction xs arbitrary: a w)
  case Nil
  then show ?case using assms(3) by (simp add: wp_gret)
next
  case (Cons x xs)
  have "wp (f x a) (on_ok (\<lambda>a. wp (gfold f xs a) Q) Q) w"
    using step [OF Cons.prems] by (rule wp_mono) (auto simp: on_ok_def Cons.IH split: res.splits)
  then show ?case by (simp add: wp_gbind)
qed

lemma wp_geach:
  assumes "I xs w"
    and "\<And>x xs w. I (x # xs) w \<Longrightarrow> wp (f x) (on_ok (\<lambda>_. I xs) Q) w"
    and "\<And>w. I [] w \<Longrightarrow> Q (Ok ()) w"
  shows "wp (geach f xs) Q w"
  unfolding geach_def
  by (rule wp_gfold [where I = "\<lambda>xs _ w. I xs w"]) (use assms in auto)

section \<open>Machine integers\<close>

text \<open>Go's \<open>int\<close> and \<open>int64\<close> are 64 bits wide and wrap around; \<open>int64_of\<close> is the value an
  unbounded result has after the store into such a variable.\<close>

definition int64_of :: "int \<Rightarrow> int" where
  "int64_of x = (x + 2 ^ 63) mod 2 ^ 64 - 2 ^ 63"

definition MaxInt64 :: int where "MaxInt64 = 2 ^ 63 - 1"
definition MinInt64 :: int where "MinInt64 = - (2 ^ 63)"

definition in_int64 :: "int \<Rightarrow> bool" where
  "in_int64 x \<longleftrightarrow> MinInt64 \<le> x \<and> x \<le> MaxInt64"

text \<open>The conversion \<open>uint(x)\<close>.\<close>

definition uint_of :: "int \<Rightarrow> int" where
  "uint_of x = x mod 2 ^ 64"

lemmas int64_bounds = MaxInt64_def MinInt64_def in_int64_def

lemma int64_of_id [simp]: "in_int64 x \<Longrightarrow> int64_of x = x"
  by (simp add: int64_bounds int64_of_def)

lemma in_int64_int64_of [simp]: "in_int64 (int64_of x)"
  by (simp add: int64_bounds int64_of_def)

end
