(* ===== verification/Ratelimit.thy ===== *)
theory Ratelimit
  imports Prelude
begin

text \<open>
  The token bucket of \<open>src/common/ratelimit/rl.go\<close>, used by the gate, the proxies and the
  S3 service to bound call rates. Instants and durations are nanoseconds. \<open>Get\<close> returns
  \<open>None\<close> where the Go code divides by a zero \<open>base\<close> and panics.
\<close>

record RL =
  rl_bts :: "64 word"
  rl_t :: int
  rl_eps :: "64 word"
  rl_burst :: "64 word"
  rl_base :: int

definition Put :: "RL \<Rightarrow> RL" where
  "Put rl = (if rl_bts rl < rl_burst rl then rl\<lparr>rl_bts := rl_bts rl + 1\<rparr> else rl)"

definition If :: "RL \<Rightarrow> 64 word list" where
  "If rl = [rl_bts rl, rl_eps rl, rl_burst rl]"

text \<open>\<open>t.Sub(u)\<close> saturates to the range of \<open>time.Duration\<close>; integer division of a
  \<open>time.Duration\<close> truncates towards zero.\<close>

definition time_sub :: "int \<Rightarrow> int \<Rightarrow> int" where
  "time_sub t u = max MinInt64 (min MaxInt64 (t - u))"

definition quot64 :: "int \<Rightarrow> int \<Rightarrow> int" where
  "quot64 a b = int64_of (sgn a * sgn b * (\<bar>a\<bar> div \<bar>b\<bar>))"

definition refill_bts :: "int \<Rightarrow> 64 word \<Rightarrow> int \<Rightarrow> 64 word" where
  "refill_bts d eps base = (word_of_int d * eps) div word_of_int base"

definition Get :: "int \<Rightarrow> RL \<Rightarrow> (bool \<times> RL) option" where
  "Get now rl =
     (if rl_bts rl = 0 then
        (let d = time_sub now (rl_t rl)
         in if d \<ge> rl_base rl then
              Some (True, rl\<lparr>rl_bts := rl_burst rl - 1, rl_t := now\<rparr>)
            else if (word_of_int (rl_base rl) :: 64 word) = 0 then None
            else let nb = refill_bts d (rl_eps rl) (rl_base rl)
                 in if nb = 0 then Some (False, rl)
                    else Some (True, rl\<lparr>rl_bts := (if nb > rl_burst rl then rl_burst rl else nb) - 1,
                           rl_t := rl_t rl + quot64 (int64_of (rl_base rl * sint nb)) (sint (rl_eps rl))\<rparr>))
      else Some (True, rl\<lparr>rl_bts := rl_bts rl - 1\<rparr>))"

definition Update :: "64 word \<Rightarrow> 64 word \<Rightarrow> int \<Rightarrow> RL \<Rightarrow> RL" where
  "Update burst eps now rl =
     rl\<lparr>rl_burst := burst + 1, rl_bts := burst + 1, rl_eps := eps, rl_t := now\<rparr>"

definition MakeRLBase :: "64 word \<Rightarrow> 64 word \<Rightarrow> int \<Rightarrow> int \<Rightarrow> RL" where
  "MakeRLBase burst eps base now =
     \<lparr>rl_bts = burst + 1, rl_t = now, rl_eps = eps, rl_burst = burst + 1, rl_base = base\<rparr>"

definition MakeRL :: "64 word \<Rightarrow> 64 word \<Rightarrow> int \<Rightarrow> RL" where
  "MakeRL burst eps now = MakeRLBase burst eps 1000000000 now"

text \<open>A client that calls \<open>Get\<close> at the given instants, and how many calls were let through.\<close>

fun Gets :: "int list \<Rightarrow> RL \<Rightarrow> (nat \<times> RL) option" where
  "Gets [] rl = Some (0, rl)"
| "Gets (now # ts) rl =
     (case Get now rl of
        None \<Rightarrow> None
      | Some (g, rl') \<Rightarrow> map_option (\<lambda>(n, r). (n + of_bool g, r)) (Gets ts rl'))"

section \<open>The well-formed buckets\<close>

text \<open>Configured rates and periods are small enough for the 64-bit products of \<open>Get\<close>.\<close>

definition rl_wf :: "RL \<Rightarrow> bool" where
  "rl_wf rl \<longleftrightarrow> 0 < rl_base rl \<and> rl_base rl * uint (rl_eps rl) < 2 ^ 63 \<and> 0 < rl_eps rl
     \<and> 0 < rl_burst rl \<and> rl_bts rl \<le> rl_burst rl \<and> rl_base rl \<le> MaxInt64"

lemma uint_minus_one: "(x :: 64 word) \<noteq> 0 \<Longrightarrow> uint (x - 1) = uint x - 1"
proof -
  assume "x \<noteq> 0"
  then have "uint x \<noteq> 0" by (metis uint_0_iff)
  then have "1 \<le> uint x" using uint_ge_0 [of x] by linarith
  then show ?thesis by (subst uint_sub_lem [THEN iffD1]) auto
qed

lemma sint_small: "uint (x :: 64 word) < 2 ^ 63 \<Longrightarrow> sint x = uint x"
  by (simp add: sint_uint signed_take_bit_int_eq_self order.trans [OF _ uint_ge_0])

lemma int_div_le: "0 \<le> (a :: int) \<Longrightarrow> 0 < e \<Longrightarrow> a div e \<le> a"
  using int_div_less_self [of a e] by (cases "a = 0"; cases "e = 1") auto

lemma refill_bts_value:
  assumes "rl_wf rl" and "0 \<le> d" and "d < rl_base rl"
  shows "uint (refill_bts d (rl_eps rl) (rl_base rl)) = d * uint (rl_eps rl) div rl_base rl"
proof -
  have b: "rl_base rl < 2 ^ 63" using assms(1) by (simp add: rl_wf_def MaxInt64_def)
  have "d * uint (rl_eps rl) \<le> rl_base rl * uint (rl_eps rl)"
    using assms by (intro mult_right_mono) auto
  then have lt: "d * uint (rl_eps rl) < 2 ^ 64" using assms(1) by (simp add: rl_wf_def)
  have ud: "uint (word_of_int d :: 64 word) = d"
    using assms b by (simp add: uint_word_of_int)
  have ub: "uint (word_of_int (rl_base rl) :: 64 word) = rl_base rl"
    using assms b by (simp add: uint_word_of_int)
  have "uint (word_of_int d * rl_eps rl) = d * uint (rl_eps rl)"
    using lt ud by (subst uint_mult_lem [THEN iffD1]) auto
  then show ?thesis by (simp add: refill_bts_def uint_div ub)
qed

text \<open>What a call of \<open>Get\<close> on an empty bucket does before \<open>base\<close> has passed, with the machine
  arithmetic resolved.\<close>

lemma Get_refill:
  assumes wf: "rl_wf rl" and bts: "rl_bts rl = 0" and d: "0 \<le> now - rl_t rl" "now - rl_t rl < rl_base rl"
  defines "n \<equiv> (now - rl_t rl) * uint (rl_eps rl) div rl_base rl"
  shows "n = 0 \<Longrightarrow> Get now rl = Some (False, rl)"
    and "0 < n \<Longrightarrow> \<exists>k. Get now rl = Some (True, rl\<lparr>rl_bts := k,
           rl_t := rl_t rl + rl_base rl * n div uint (rl_eps rl)\<rparr>)
           \<and> uint k + 1 \<le> n \<and> uint k + 1 \<le> uint (rl_burst rl)"
proof -
  let ?d = "now - rl_t rl" and ?e = "uint (rl_eps rl)" and ?b = "rl_base rl"
  define nb where "nb = refill_bts ?d (rl_eps rl) ?b"
  have pos: "0 < ?b" "0 < ?e" "?b * ?e < 2 ^ 63" "?b < 2 ^ 63"
    using wf by (auto simp: rl_wf_def word_less_def MaxInt64_def)
  have sub: "time_sub now (rl_t rl) = ?d"
    using d pos by (simp add: time_sub_def int64_bounds)
  have nb: "uint nb = n" unfolding nb_def n_def by (rule refill_bts_value [OF wf d])
  have bn: "?b * n \<le> ?d * ?e"
    unfolding n_def using pos(1) by (metis minus_mult_div_eq_mod diff_ge_0_iff_ge pos_mod_sign)
  have de: "?d * ?e \<le> ?b * ?e" using d pos by (intro mult_right_mono) auto
  have n0: "0 \<le> n" unfolding n_def using d pos by (simp add: pos_imp_zdiv_nonneg_iff)
  have "n \<le> ?b * n" using n0 pos(1) by (simp add: mult_le_cancel_right1)
  then have nlt: "n < 2 ^ 63" using bn de pos(3) by linarith
  have "1 * ?e \<le> ?b * ?e" using pos by (intro mult_right_mono) auto
  then have elt: "?e < 2 ^ 63" using pos(3) by linarith
  have nz: "(word_of_int ?b :: 64 word) \<noteq> 0"
  proof
    assume "(word_of_int ?b :: 64 word) = 0"
    then have "uint (word_of_int ?b :: 64 word) = 0" by simp
    then show False using pos by (simp add: uint_word_of_int)
  qed
  have G: "Get now rl = (if nb = 0 then Some (False, rl)
      else Some (True, rl\<lparr>rl_bts := (if nb > rl_burst rl then rl_burst rl else nb) - 1,
            rl_t := rl_t rl + quot64 (int64_of (?b * sint nb)) (sint (rl_eps rl))\<rparr>))"
    using bts d nz unfolding Get_def Let_def sub nb_def by (simp add: not_le)
  have z: "nb = 0 \<longleftrightarrow> n = 0" using nb by (metis uint_0_iff)
  show "n = 0 \<Longrightarrow> Get now rl = Some (False, rl)" using G z by simp
  assume np: "0 < n"
  have bn63: "?b * n < 2 ^ 63" using bn de pos(3) by linarith
  have "0 \<le> ?b * n" using n0 pos by simp
  then have i: "int64_of (?b * n) = ?b * n"
    using bn63 by (intro int64_of_id) (simp add: int64_bounds)
  have "?b * n div ?e \<le> ?b * n" using \<open>0 \<le> ?b * n\<close> pos(2) by (rule int_div_le)
  then have "in_int64 (?b * n div ?e)"
    using bn63 \<open>0 \<le> ?b * n\<close> pos(2) pos_imp_zdiv_nonneg_iff [of ?e "?b * n"]
    by (simp add: int64_bounds)
  then have q: "quot64 (?b * n) ?e = ?b * n div ?e"
    using np pos n0 by (simp add: quot64_def sgn_mult) (simp add: int64_of_def)
  define k where "k = (if nb > rl_burst rl then rl_burst rl else nb) - 1"
  have burst: "rl_burst rl \<noteq> 0" using wf by (auto simp: rl_wf_def)
  have "nb \<noteq> 0" using z np by simp
  then have "uint k + 1 \<le> n \<and> uint k + 1 \<le> uint (rl_burst rl)"
    using burst by (auto simp: k_def uint_minus_one nb word_less_def not_less)
  moreover have "Get now rl = Some (True, rl\<lparr>rl_bts := k, rl_t := rl_t rl + ?b * n div ?e\<rparr>)"
    using G z np nb nlt elt by (simp add: k_def sint_small i q)
  ultimately show "\<exists>k. Get now rl = Some (True, rl\<lparr>rl_bts := k,
           rl_t := rl_t rl + ?b * n div ?e\<rparr>) \<and> uint k + 1 \<le> n \<and> uint k + 1 \<le> uint (rl_burst rl)"
    by blast
qed

section \<open>The rate bound\<close>

text \<open>
  Granted calls, paid for: every token a bucket ever held costs \<open>base + 1 - eps\<close> units of
  credit, the initial fill brings \<open>burst\<close> tokens' worth, and each nanosecond that
  \<open>rl.t\<close> advances brings at most \<open>max burst eps\<close>. The slack \<open>eps - 1\<close> covers the rounding
  of the integer division that moves \<open>rl.t\<close>.
\<close>

definition rl_rate :: "RL \<Rightarrow> int" where
  "rl_rate rl = max (uint (rl_burst rl)) (uint (rl_eps rl))"

definition rl_cost :: "RL \<Rightarrow> int" where
  "rl_cost rl = rl_base rl + 1 - uint (rl_eps rl)"

lemma Get_step:
  assumes wf: "rl_wf rl" and le: "rl_t rl \<le> now" "now - rl_t rl \<le> MaxInt64"
    and c: "0 \<le> rl_cost rl"
  obtains g rl' where "Get now rl = Some (g, rl')" and "rl_wf rl'"
    and "rl_base rl' = rl_base rl" and "rl_eps rl' = rl_eps rl" and "rl_burst rl' = rl_burst rl"
    and "rl_t rl \<le> rl_t rl'" and "rl_t rl' \<le> now"
    and "(uint (rl_bts rl') + of_bool g) * rl_cost rl
           \<le> uint (rl_bts rl) * rl_cost rl + (rl_t rl' - rl_t rl) * rl_rate rl"
proof -
  let ?d = "now - rl_t rl" and ?e = "uint (rl_eps rl)" and ?b = "rl_base rl" and ?B = "uint (rl_burst rl)"
  have pos: "0 < ?b" "0 < ?e" "0 < ?B" "rl_burst rl \<noteq> 0" "rl_bts rl \<le> rl_burst rl"
    using wf by (auto simp: rl_wf_def word_less_def)
  consider (full) "rl_bts rl \<noteq> 0" | (idle) "rl_bts rl = 0" "?b \<le> ?d" | (partial) "rl_bts rl = 0" "?d < ?b"
    by linarith
  then show thesis
  proof cases
    case full
    then have "rl_wf (rl\<lparr>rl_bts := rl_bts rl - 1\<rparr>)"
      using wf pos(5) by (auto simp: rl_wf_def word_le_def uint_minus_one)
    then show thesis using full le
      by (intro that [of True "rl\<lparr>rl_bts := rl_bts rl - 1\<rparr>"])
         (simp_all add: Get_def uint_minus_one)
  next
    case idle
    let ?rl = "rl\<lparr>rl_bts := rl_burst rl - 1, rl_t := now\<rparr>"
    have "rl_wf ?rl" using wf pos(4) by (auto simp: rl_wf_def word_le_def uint_minus_one)
    moreover have "Get now rl = Some (True, ?rl)"
      using idle le by (simp add: Get_def Let_def time_sub_def int64_bounds)
    moreover have "?B * rl_cost rl \<le> ?d * rl_rate rl"
    proof -
      have "?B * rl_cost rl \<le> ?B * ?b" using pos by (simp add: rl_cost_def)
      also have "\<dots> \<le> rl_rate rl * ?d"
        using idle pos by (intro mult_mono) (auto simp: rl_rate_def)
      finally show ?thesis by (simp add: mult.commute)
    qed
    ultimately show thesis using idle le pos
      by (intro that [of True ?rl]) (simp_all add: uint_minus_one)
  next
    case partial
    define n where "n = ?d * ?e div ?b"
    have d0: "0 \<le> ?d" using le by simp
    note R = Get_refill [OF wf partial(1) d0 partial(2), folded n_def]
    have n0: "0 \<le> n" unfolding n_def using d0 pos by (simp add: pos_imp_zdiv_nonneg_iff)
    show thesis
    proof (cases "n = 0")
      case True
      then show thesis using R(1) wf le partial by (intro that [of False rl]) simp_all
    next
      case False
      then obtain k where k: "Get now rl = Some (True, rl\<lparr>rl_bts := k, rl_t := rl_t rl + ?b * n div ?e\<rparr>)"
          "uint k + 1 \<le> n" "uint k + 1 \<le> ?B"
        using R(2) n0 by fastforce
      let ?q = "?b * n div ?e"
      have bn: "?b * n \<le> ?d * ?e"
        unfolding n_def using pos(1) by (metis minus_mult_div_eq_mod diff_ge_0_iff_ge pos_mod_sign)
      have "?q \<le> ?d * ?e div ?e" using bn pos by (intro zdiv_mono1) auto
      then have qd: "?q \<le> ?d" using pos by simp
      have q0: "0 \<le> ?q" using n0 pos by (simp add: pos_imp_zdiv_nonneg_iff)
      have "?b * n - ?q * ?e \<le> ?e - 1"
        using pos(2) by (simp add: minus_div_mult_eq_mod)
      moreover have "?e - 1 \<le> n * (?e - 1)" using False n0 pos by (simp add: mult_le_cancel_right1)
      ultimately have "n * rl_cost rl \<le> ?q * ?e" by (simp add: rl_cost_def algebra_simps)
      also have "\<dots> \<le> ?q * rl_rate rl" using q0 by (intro mult_left_mono) (auto simp: rl_rate_def)
      finally have "(uint k + 1) * rl_cost rl \<le> ?q * rl_rate rl"
        using k(2) c by (meson mult_right_mono order.trans)
      moreover have "rl_wf (rl\<lparr>rl_bts := k, rl_t := rl_t rl + ?q\<rparr>)"
        using wf k(3) by (auto simp: rl_wf_def word_le_def)
      ultimately show thesis using k(1) q0 qd partial
        by (intro that [of True "rl\<lparr>rl_bts := k, rl_t := rl_t rl + ?q\<rparr>"]) simp_all
    qed
  qed
qed

lemma Gets_bound:
  assumes "rl_wf rl" and "0 \<le> rl_cost rl" and "sorted (rl_t rl # ts)"
    and "\<forall>t \<in> set ts. t - rl_t rl \<le> MaxInt64"
  shows "\<exists>n rl'. Gets ts rl = Some (n, rl')
    \<and> (int n + uint (rl_bts rl')) * rl_cost rl
       \<le> uint (rl_bts rl) * rl_cost rl + (last (rl_t rl # ts) - rl_t rl) * rl_rate rl"
  using assms
proof (induction ts arbitrary: rl)
  case Nil
  then show ?case by simp
next
  case (Cons now ts)
  from Cons.prems have pre: "rl_t rl \<le> now" "now - rl_t rl \<le> MaxInt64" by simp_all
  from Get_step [OF Cons.prems(1) pre Cons.prems(2)]
  obtain g rl1 where G: "Get now rl = Some (g, rl1)" and wf: "rl_wf rl1"
    and same: "rl_base rl1 = rl_base rl" "rl_eps rl1 = rl_eps rl" "rl_burst rl1 = rl_burst rl"
    and t: "rl_t rl \<le> rl_t rl1" "rl_t rl1 \<le> now"
    and credit: "(uint (rl_bts rl1) + of_bool g) * rl_cost rl
           \<le> uint (rl_bts rl) * rl_cost rl + (rl_t rl1 - rl_t rl) * rl_rate rl" by blast
  have cost: "rl_cost rl1 = rl_cost rl" and rate: "rl_rate rl1 = rl_rate rl"
    using same by (simp_all add: rl_cost_def rl_rate_def)
  have "sorted (rl_t rl1 # ts)" using Cons.prems(3) t by auto
  moreover have "\<forall>u \<in> set ts. u - rl_t rl1 \<le> MaxInt64" using Cons.prems(4) t by fastforce
  ultimately obtain n rl2 where IH: "Gets ts rl1 = Some (n, rl2)"
    "(int n + uint (rl_bts rl2)) * rl_cost rl
       \<le> uint (rl_bts rl1) * rl_cost rl + (last (rl_t rl1 # ts) - rl_t rl1) * rl_rate rl"
    using Cons.IH [OF wf] Cons.prems(2) cost rate by auto
  have "last (rl_t rl1 # ts) \<le> last (rl_t rl # now # ts)" using t by (cases ts) auto
  then have "(last (rl_t rl1 # ts) - rl_t rl1) * rl_rate rl
      \<le> (last (rl_t rl # now # ts) - rl_t rl1) * rl_rate rl"
    by (intro mult_right_mono) (auto simp: rl_rate_def le_max_iff_disj)
  with IH(2) credit show ?case
    using G IH(1) by (simp add: algebra_simps)
qed

text \<open>
  C25. A fresh token bucket bounds the rate of the calls it admits. For any non-decreasing
  sequence of call instants, \<open>Get\<close> always returns, and the number \<open>n\<close> of calls let through
  satisfies \<open>n * (base + 1 - eps) \<le> (burst + 1) * base + T * max (burst + 1) eps\<close>, where
  \<open>T\<close> is the time from the creation of the bucket to the last call.
\<close>

theorem RL_rate_bound:
  assumes "0 < base" and "base \<le> MaxInt64" and "0 < eps" and "uint eps \<le> base"
    and "base * uint eps < 2 ^ 63" and "uint burst < 2 ^ 64 - 1"
    and "sorted (t0 # ts)" and "\<forall>t \<in> set ts. t - t0 \<le> MaxInt64"
  shows "\<exists>n rl'. Gets ts (MakeRLBase burst eps base t0) = Some (n, rl')
    \<and> int n * (base + 1 - uint eps)
       \<le> (uint burst + 1) * base + (last (t0 # ts) - t0) * max (uint burst + 1) (uint eps)"
proof -
  let ?rl = "MakeRLBase burst eps base t0"
  have b: "uint (burst + 1) = uint burst + 1"
    using assms(6) by (subst uint_add_lem [THEN iffD1]) auto
  have "(0 :: 64 word) < burst + 1" using b uint_ge_0 [of burst] by (simp add: word_less_def)
  then have wf: "rl_wf ?rl" using assms by (auto simp: rl_wf_def MakeRLBase_def)
  have c: "rl_cost ?rl = base + 1 - uint eps" by (simp add: rl_cost_def MakeRLBase_def)
  from assms(4) c have "0 \<le> rl_cost ?rl" by simp
  then obtain n rl' where G: "Gets ts ?rl = Some (n, rl')"
    "(int n + uint (rl_bts rl')) * (base + 1 - uint eps)
      \<le> (uint burst + 1) * (base + 1 - uint eps) + (last (t0 # ts) - t0) * rl_rate ?rl"
    using Gets_bound [OF wf _, of ts] assms(7,8) c b by (auto simp: MakeRLBase_def)
  have "(uint burst + 1) * (base + 1 - uint eps) \<le> (uint burst + 1) * base"
    using assms(3) by (intro mult_left_mono) (auto simp: word_less_def)
  moreover have "int n * (base + 1 - uint eps) \<le> (int n + uint (rl_bts rl')) * (base + 1 - uint eps)"
    using assms(4) by (intro mult_right_mono) auto
  ultimately have "int n * (base + 1 - uint eps)
      \<le> (uint burst + 1) * base + (last (t0 # ts) - t0) * rl_rate ?rl"
    using G(2) by linarith
  moreover have "rl_rate ?rl = max (uint burst + 1) (uint eps)"
    by (simp add: rl_rate_def MakeRLBase_def b)
  ultimately show ?thesis using G(1) by auto
qed

theorem RL_rate_bound_witness:
  "\<exists>n rl'. Gets [0, 0, 300000000, 2000000000] (MakeRLBase 0 5 1000000000 0) = Some (n, rl')
    \<and> int n * 999999996 \<le> 1 * 1000000000 + 2000000000 * max 1 5"
  using RL_rate_bound [of 1000000000 5 0 0 "[0, 0, 300000000, 2000000000]"]
  by (simp add: MaxInt64_def)

text \<open>
  Idle clients are never starved: \<open>base\<close> or more nanoseconds after its last refill a
  well-formed bucket lets the next call through, and its token count stays within \<open>burst\<close>.
\<close>

theorem RL_idle_admits:
  assumes "rl_wf rl" and "rl_base rl \<le> now - rl_t rl" and "now - rl_t rl \<le> MaxInt64"
  shows "\<exists>rl'. Get now rl = Some (True, rl') \<and> rl_bts rl' \<le> rl_burst rl'"
proof (cases "rl_bts rl = 0")
  case True
  have "rl_burst rl \<noteq> 0" using assms by (auto simp: rl_wf_def)
  then have "rl_burst rl - 1 \<le> rl_burst rl" by (simp add: word_le_def uint_minus_one)
  with True assms show ?thesis
    by (auto simp: Get_def Let_def time_sub_def int64_bounds rl_wf_def)
next
  case False
  then have "rl_bts rl - 1 \<le> rl_burst rl"
    using assms by (auto simp: word_le_def uint_minus_one rl_wf_def)
  with False show ?thesis by (simp add: Get_def)
qed

theorem RL_idle_admits_witness:
  "\<exists>rl'. Get 7000000000 \<lparr>rl_bts = 0, rl_t = 5000000000, rl_eps = 2, rl_burst = 4, rl_base = 1000000000\<rparr>
      = Some (True, rl') \<and> rl_bts rl' \<le> rl_burst rl'"
  by (rule RL_idle_admits) (simp_all add: rl_wf_def MaxInt64_def)

end
