(* ===== verification/Xqueue.thy ===== *)
theory Xqueue
  imports Prelude
begin

text \<open>
  The message queue between the function runner and its watchdog,
  \<open>src/common/xqueue/queue.go\<close>: messages travel over a \<open>SOCK_SEQPACKET\<close> socket pair in
  packets of at most \<open>qChunk\<close> bytes, and a short packet ends a message. \<open>sk.Write\<close> and
  \<open>sk.Read\<close> are the system calls: the write is a parameter of \<open>SendBytes\<close>, and what the
  reads deliver is the list argument of \<open>recvBytes\<close>.
\<close>

type_synonym byte = "8 word"

definition qChunk :: nat where "qChunk = 1024"

text \<open>The chunk loop of \<open>split\<close>; the code calls it with the constant \<open>qChunk\<close> only.\<close>

function split :: "byte list \<Rightarrow> nat \<Rightarrow> byte list list" where
  "split buf cs =
     (if cs \<noteq> 0 \<and> length buf \<ge> cs then take cs buf # split (drop cs buf) cs
      else if length buf > 0 then [buf] else [])"
  by pat_completeness auto
termination
  by (relation "measure (\<lambda>(buf, cs). length buf)") auto

declare split.simps [simp del]

definition pad_bytes :: "byte list \<Rightarrow> byte list" where
  "pad_bytes bts = (if length bts mod qChunk = 0 then bts @ [0] else bts)"

definition SendBytes :: "(byte list \<Rightarrow> ('w, string, unit) go) \<Rightarrow> byte list \<Rightarrow> ('w, string, unit) go" where
  "SendBytes skWrite bts =
     geach (\<lambda>ch. gtry (skWrite ch)
              (\<lambda>r. case r of Inl e \<Rightarrow> gerr (''send message error: '' @ e) | Inr u \<Rightarrow> gret ()))
       (split (pad_bytes bts) qChunk)"

text \<open>What one \<open>q.sk.Read(bts)\<close> delivers: a packet (cut to the buffer's \<open>qChunk\<close> bytes by the
  socket, never empty, since an empty read is \<open>io.EOF\<close>), or an error.\<close>

datatype read_event = RdPacket "byte list" | RdEOF | RdTimeout | RdError string

datatype recv_error = EOF | TIMEOUT | RecvErr string

datatype recv_result =
    RecvMsg "byte list" "read_event list"   \<comment> \<open>the message and the events not yet read\<close>
  | RecvFail recv_error "read_event list"
  | RecvBlocked                             \<comment> \<open>the socket is empty: the call waits\<close>

fun recvBytes :: "byte list \<Rightarrow> read_event list \<Rightarrow> recv_result" where
  "recvBytes msg [] = RecvBlocked"
| "recvBytes msg (RdEOF # evs) = RecvFail EOF evs"
| "recvBytes msg (RdTimeout # evs) = RecvFail TIMEOUT evs"
| "recvBytes msg (RdError e # evs) = RecvFail (RecvErr (''3: recv gen error: '' @ e)) evs"
| "recvBytes msg (RdPacket p # evs) =
     (if p = [] then RecvFail EOF evs
      else let bts = take qChunk p
           in if length bts < qChunk then
                RecvMsg (msg @ (if last bts = 0 then butlast bts else bts)) evs
              else recvBytes (msg @ bts) evs)"

definition RecvStr :: "read_event list \<Rightarrow> recv_result" where
  "RecvStr evs = recvBytes [] evs"

text \<open>The socket pair: writes append packets, in order.\<close>

definition pair_write :: "byte list \<Rightarrow> (byte list list, string, unit) go" where
  "pair_write p = (\<lambda>q. (Ok (), q @ [p]))"

section \<open>Chunking\<close>

lemma concat_split: "cs \<noteq> 0 \<Longrightarrow> concat (split buf cs) = buf"
proof (induction buf cs rule: split.induct)
  case (1 buf cs)
  then show ?case
    by (cases "length buf \<ge> cs") (auto simp: split.simps [of buf cs])
qed

text \<open>Every chunk but the last is full, and the last one is not: that is what lets the
  receiver find the end of the message.\<close>

lemma split_shape:
  assumes "cs \<noteq> 0" and "length buf mod cs \<noteq> 0"
  shows "\<exists>fs r. split buf cs = fs @ [r] \<and> (\<forall>f \<in> set fs. length f = cs) \<and> r \<noteq> [] \<and> length r < cs"
  using assms
proof (induction buf cs rule: split.induct)
  case (1 buf cs)
  show ?case
  proof (cases "length buf \<ge> cs")
    case True
    with 1 have "length (drop cs buf) mod cs \<noteq> 0" by (simp add: le_mod_geq)
    with 1 True obtain fs r where "split (drop cs buf) cs = fs @ [r]"
      "\<forall>f \<in> set fs. length f = cs" "r \<noteq> []" "length r < cs" by auto
    with True 1 have "split buf cs = (take cs buf # fs) @ [r]" "\<forall>f \<in> set (take cs buf # fs). length f = cs"
      by (simp_all add: split.simps [of buf cs])
    then show ?thesis using \<open>r \<noteq> []\<close> \<open>length r < cs\<close> by blast
  next
    case False
    with 1 show ?thesis
      by (intro exI [of _ "[]"] exI [of _ buf]) (auto simp: split.simps [of buf cs])
  qed
qed

lemma pad_bytes_not_full: "length (pad_bytes bts) mod qChunk \<noteq> 0"
  by (simp add: pad_bytes_def qChunk_def mod_Suc)

lemma recvBytes_full:
  "\<forall>f \<in> set fs. length f = qChunk \<Longrightarrow>
   recvBytes msg (map RdPacket fs @ evs) = recvBytes (msg @ concat fs) evs"
proof (induction fs arbitrary: msg)
  case Nil
  then show ?case by simp
next
  case (Cons f fs)
  then have "f \<noteq> []" by (auto simp: qChunk_def)
  with Cons show ?case by simp
qed

lemma SendBytes_pair: "SendBytes pair_write bts q = (Ok (), q @ split (pad_bytes bts) qChunk)"
proof -
  have "geach (\<lambda>ch. gtry (pair_write ch)
          (\<lambda>r. case r of Inl e \<Rightarrow> gerr (''send message error: '' @ e) | Inr u \<Rightarrow> gret ())) cs q
        = (Ok (), q @ cs)" for cs
    by (induction cs arbitrary: q) (simp_all add: go_simps pair_write_def)
  then show ?thesis by (simp add: SendBytes_def)
qed

lemma queue_roundtrip_split:
  "RecvStr (map RdPacket (split (pad_bytes bts) qChunk) @ evs) =
     RecvMsg (if length bts mod qChunk \<noteq> 0 \<and> last bts = 0 then butlast bts else bts) evs"
proof -
  let ?p = "pad_bytes bts"
  obtain fs r where sp: "split ?p qChunk = fs @ [r]" "\<forall>f \<in> set fs. length f = qChunk"
      "r \<noteq> []" "length r < qChunk"
    using split_shape [OF _ pad_bytes_not_full [of bts]] by (auto simp: qChunk_def)
  have cat: "concat fs @ r = ?p"
    using concat_split [of qChunk ?p] sp(1) by (simp add: qChunk_def)
  have "recvBytes [] (map RdPacket (fs @ [r]) @ evs)
          = RecvMsg (concat fs @ (if last r = 0 then butlast r else r)) evs"
    using sp recvBytes_full [OF sp(2), of "[]" "RdPacket r # evs"] by simp
  also have "concat fs @ (if last r = 0 then butlast r else r) = (if last ?p = 0 then butlast ?p else ?p)"
    using sp(3) cat [symmetric] by (simp add: butlast_append)
  finally show ?thesis
    using sp(1) by (auto simp: RecvStr_def pad_bytes_def butlast_append split: if_splits)
qed

text \<open>
  Framing round trip. Over a reliable socket pair, a message sent with \<open>SendBytes\<close> is
  received whole by \<open>recvBytes\<close>, whatever follows it in the socket is left for the next
  call, and the only change is that a trailing zero byte is dropped when the length of the
  message is not a multiple of \<open>qChunk\<close>.
\<close>

theorem queue_roundtrip:
  "\<exists>packets. SendBytes pair_write bts [] = (Ok (), packets)
     \<and> RecvStr (map RdPacket packets @ evs) =
         RecvMsg (if length bts mod qChunk \<noteq> 0 \<and> last bts = 0 then butlast bts else bts) evs"
  using queue_roundtrip_split SendBytes_pair by auto

text \<open>
  Messages stay separate: two messages sent one after the other, each of a length that is
  a multiple of \<open>qChunk\<close> or with a non-zero last byte, are received one by one and unchanged.
\<close>

theorem queue_two_messages:
  assumes "length a mod qChunk = 0 \<or> last a \<noteq> 0" and "length b mod qChunk = 0 \<or> last b \<noteq> 0"
  shows "\<exists>packets rest. gbind (SendBytes pair_write a) (\<lambda>_. SendBytes pair_write b) [] = (Ok (), packets)
     \<and> RecvStr (map RdPacket packets) = RecvMsg a rest \<and> RecvStr rest = RecvMsg b []"
proof -
  let ?pa = "split (pad_bytes a) qChunk" and ?pb = "split (pad_bytes b) qChunk"
  have seq: "gbind (SendBytes pair_write a) (\<lambda>_. SendBytes pair_write b) [] = (Ok (), ?pa @ ?pb)"
    by (simp add: gbind_def SendBytes_pair)
  have recv: "RecvStr (map RdPacket (split (pad_bytes m) qChunk) @ evs) = RecvMsg m evs"
    if "length m mod qChunk = 0 \<or> last m \<noteq> 0" for m evs
    using queue_roundtrip_split [of m evs] that by auto
  have "RecvStr (map RdPacket (?pa @ ?pb)) = RecvMsg a (map RdPacket ?pb)"
    using recv [OF assms(1), of "map RdPacket ?pb"] by simp
  moreover have "RecvStr (map RdPacket ?pb) = RecvMsg b []"
    using recv [OF assms(2), of "[]"] by simp
  ultimately show ?thesis using seq by blast
qed

theorem queue_two_messages_witness:
  "\<exists>packets rest. gbind (SendBytes pair_write [1, 0, 7]) (\<lambda>_. SendBytes pair_write []) [] = (Ok (), packets)
     \<and> RecvStr (map RdPacket packets) = RecvMsg [1, 0, 7] rest \<and> RecvStr rest = RecvMsg [] []"
  by (rule queue_two_messages) simp_all

end
