(* ===== verification/Go_Strings.thy ===== *)
theory Go_Strings
  imports Prelude
begin

text \<open>
  The parts of Go's \<open>strings\<close> and \<open>strconv\<close> packages the services use. A Go string is a
  sequence of bytes, here a \<^typ>\<open>string\<close> (one \<^typ>\<open>char\<close> per byte). \<open>TrimSpace\<close>,
  \<open>Fields\<close> and \<open>ToLower\<close> are modelled on the ASCII range, which is what HTTP header
  values carry; every separator the services split on is a single ASCII character.
\<close>

section \<open>Package strings\<close>

definition HasPrefix :: "string \<Rightarrow> string \<Rightarrow> bool" where
  "HasPrefix s p \<longleftrightarrow> take (length p) s = p"

definition HasSuffix :: "string \<Rightarrow> string \<Rightarrow> bool" where
  "HasSuffix s p \<longleftrightarrow> length p \<le> length s \<and> drop (length s - length p) s = p"

definition TrimPrefix :: "string \<Rightarrow> string \<Rightarrow> string" where
  "TrimPrefix s p = (if HasPrefix s p then drop (length p) s else s)"

definition TrimSuffix :: "string \<Rightarrow> string \<Rightarrow> string" where
  "TrimSuffix s p = (if HasSuffix s p then take (length s - length p) s else s)"

text \<open>\<open>strings.Index(s, sub)\<close>: the least offset of \<open>sub\<close> in \<open>s\<close>; \<open>None\<close> is Go's -1.\<close>

fun Index :: "string \<Rightarrow> string \<Rightarrow> nat option" where
  "Index [] sub = (if sub = [] then Some 0 else None)"
| "Index (c # s) sub = (if HasPrefix (c # s) sub then Some 0 else map_option Suc (Index s sub))"

fun Split :: "string \<Rightarrow> char \<Rightarrow> string list" where
  "Split [] sep = [[]]"
| "Split (c # s) sep =
     (if c = sep then [] # Split s sep
      else (c # hd (Split s sep)) # tl (Split s sep))"

text \<open>\<open>strings.SplitN(s, sep, n)\<close> for \<open>n > 0\<close>: at most \<open>n\<close> pieces, the last one unsplit.\<close>

fun SplitN :: "string \<Rightarrow> char \<Rightarrow> nat \<Rightarrow> string list" where
  "SplitN s sep 0 = []"
| "SplitN s sep (Suc 0) = [s]"
| "SplitN [] sep (Suc (Suc n)) = [[]]"
| "SplitN (c # s) sep (Suc (Suc n)) =
     (if c = sep then [] # SplitN s sep (Suc n)
      else (c # hd (SplitN s sep (Suc (Suc n)))) # tl (SplitN s sep (Suc (Suc n))))"

lemma SplitN_code [code]:
  "SplitN s sep n = (if n = 0 then [] else if n = 1 then [s] else case s of
     [] \<Rightarrow> [[]]
   | c # t \<Rightarrow> if c = sep then [] # SplitN t sep (n - 1) else (c # hd (SplitN t sep n)) # tl (SplitN t sep n))"
proof -
  consider "n = 0" | "n = Suc 0" | m where "n = Suc (Suc m)" by (metis not0_implies_Suc)
  then show ?thesis by cases (auto split: list.split)
qed

fun Join :: "string list \<Rightarrow> string \<Rightarrow> string" where
  "Join [] sep = []"
| "Join [x] sep = x"
| "Join (x # y # xs) sep = x @ sep @ Join (y # xs) sep"

definition IsSpace :: "char \<Rightarrow> bool" where
  "IsSpace c \<longleftrightarrow> c \<in> {CHR 0x20, CHR 0x09, CHR 0x0A, CHR 0x0B, CHR 0x0C, CHR 0x0D}"

definition TrimSpace :: "string \<Rightarrow> string" where
  "TrimSpace s = rev (dropWhile IsSpace (rev (dropWhile IsSpace s)))"

text \<open>\<open>strings.Fields\<close>: the maximal runs of non-space characters.\<close>

fun Fields_acc :: "string \<Rightarrow> string \<Rightarrow> string list" where
  "Fields_acc [] acc = (if acc = [] then [] else [rev acc])"
| "Fields_acc (c # s) acc =
     (if IsSpace c then (if acc = [] then Fields_acc s [] else rev acc # Fields_acc s [])
      else Fields_acc s (c # acc))"

definition Fields :: "string \<Rightarrow> string list" where
  "Fields s = Fields_acc s []"

text \<open>\<open>strings.Replace(s, old, new, -1)\<close> with a one-character \<open>old\<close>.\<close>

definition ReplaceAll :: "string \<Rightarrow> char \<Rightarrow> string \<Rightarrow> string" where
  "ReplaceAll s old new = concat (map (\<lambda>c. if c = old then new else [c]) s)"

definition lower_char :: "char \<Rightarrow> char" where
  "lower_char c = (if CHR ''A'' \<le> c \<and> c \<le> CHR ''Z'' then char_of (of_char c + 32 :: nat) else c)"

definition ToLower :: "string \<Rightarrow> string" where
  "ToLower s = map lower_char s"

definition upper_char :: "char \<Rightarrow> char" where
  "upper_char c = (if CHR ''a'' \<le> c \<and> c \<le> CHR ''z'' then char_of (of_char c - 32 :: nat) else c)"

definition ToUpper :: "string \<Rightarrow> string" where
  "ToUpper s = map upper_char s"

lemma HasPrefix_append [simp]: "HasPrefix (p @ s) p"
  by (simp add: HasPrefix_def)

lemma HasPrefixE:
  assumes "HasPrefix s p"
  obtains t where "s = p @ t"
  using assms by (metis HasPrefix_def append_take_drop_id)

lemma TrimPrefix_append [simp]: "TrimPrefix (p @ s) p = s"
  by (simp add: TrimPrefix_def)

lemma HasSuffix_append [simp]: "HasSuffix (s @ p) p"
  by (simp add: HasSuffix_def)

lemma TrimSuffix_append [simp]: "TrimSuffix (s @ p) p = s"
  by (simp add: TrimSuffix_def)

lemma Index_Some: "Index s sub = Some i \<Longrightarrow> i + length sub \<le> length s \<and> take (length sub) (drop i s) = sub"
proof (induction s sub arbitrary: i rule: Index.induct)
  case (1 sub)
  then show ?case by (auto split: if_splits)
next
  case (2 c s sub)
  then show ?case
    by (fastforce simp: HasPrefix_def split: if_splits
        dest: arg_cong [where f = length])
qed

lemma Split_not_Nil [simp]: "Split s sep \<noteq> []"
  by (cases s) auto

lemma Join_Cons: "xs \<noteq> [] \<Longrightarrow> Join (x # xs) sep = x @ sep @ Join xs sep"
  by (cases xs) auto

text \<open>Splitting and joining are inverse.\<close>

lemma Join_Split: "Join (Split s c) [c] = s"
proof (induction s c rule: Split.induct)
  case (1 sep)
  then show ?case by simp
next
  case (2 x s sep)
  obtain y ys where eq: "Split s sep = y # ys"
    using Split_not_Nil by (cases "Split s sep") auto
  then show ?case
    using 2 by (cases ys) (auto simp: Join_Cons)
qed

lemma Split_no_sep: "sep \<notin> set s \<Longrightarrow> Split s sep = [s]"
  by (induction s) auto

lemma Split_append_sep: "sep \<notin> set s \<Longrightarrow> Split (s @ sep # t) sep = s # Split t sep"
  by (induction s) auto

lemma Split_pieces: "p \<in> set (Split s sep) \<Longrightarrow> sep \<notin> set p"
proof (induction s sep arbitrary: p rule: Split.induct)
  case (1 sep)
  then show ?case by simp
next
  case (2 c s sep)
  obtain y ys where eq: "Split s sep = y # ys"
    using Split_not_Nil by (cases "Split s sep") auto
  with 2 show ?case by (auto split: if_splits)
qed

lemma Split_Join:
  "xs \<noteq> [] \<Longrightarrow> \<forall>x \<in> set xs. c \<notin> set x \<Longrightarrow> Split (Join xs [c]) c = xs"
proof (induction xs)
  case Nil
  then show ?case by simp
next
  case (Cons x xs)
  then show ?case
    by (cases "xs = []") (auto simp: Join_Cons Split_no_sep Split_append_sep)
qed

section \<open>Package strconv\<close>

datatype numerr = ErrSyntax | ErrRange

definition is_digit :: "char \<Rightarrow> bool" where
  "is_digit c \<longleftrightarrow> CHR ''0'' \<le> c \<and> c \<le> CHR ''9''"

definition digit_val :: "char \<Rightarrow> int" where
  "digit_val c = int (of_char c) - 48"

fun digits_val :: "string \<Rightarrow> int \<Rightarrow> int" where
  "digits_val [] acc = acc"
| "digits_val (c # s) acc = digits_val s (10 * acc + digit_val c)"

text \<open>\<open>strconv.ParseUint(s, 10, 64)\<close>. On \<open>ErrRange\<close> the value is the maximum, on \<open>ErrSyntax\<close>
  it is 0: callers that drop the error still see it.\<close>

definition ParseUint :: "string \<Rightarrow> int \<times> numerr option" where
  "ParseUint s =
     (if s = [] \<or> \<not> list_all is_digit s then (0, Some ErrSyntax)
      else let n = digits_val s 0
           in if n \<ge> 2 ^ 64 then (2 ^ 64 - 1, Some ErrRange) else (n, None))"

text \<open>\<open>strconv.ParseInt(s, 10, 64)\<close> (and \<open>Atoi\<close>, which is the same on 64-bit \<open>int\<close>).\<close>

definition signed_of :: "bool \<Rightarrow> int \<times> numerr option \<Rightarrow> int \<times> numerr option" where
  "signed_of neg r =
     (if snd r = Some ErrSyntax then (0, Some ErrSyntax)
      else if \<not> neg \<and> fst r \<ge> 2 ^ 63 then (2 ^ 63 - 1, Some ErrRange)
      else if neg \<and> fst r > 2 ^ 63 then (- (2 ^ 63), Some ErrRange)
      else (if neg then - fst r else fst r, None))"

definition ParseInt :: "string \<Rightarrow> int \<times> numerr option" where
  "ParseInt s =
     (case s of
        [] \<Rightarrow> (0, Some ErrSyntax)
      | c # t \<Rightarrow> signed_of (c = CHR ''-'')
                  (ParseUint (if c = CHR ''+'' \<or> c = CHR ''-'' then t else s)))"

fun Itoa_nat :: "nat \<Rightarrow> string" where
  "Itoa_nat n = (if n < 10 then [char_of (48 + n)]
                 else Itoa_nat (n div 10) @ [char_of (48 + n mod 10)])"

declare Itoa_nat.simps [simp del]

definition Itoa :: "int \<Rightarrow> string" where
  "Itoa n = (if n < 0 then CHR ''-'' # Itoa_nat (nat (- n)) else Itoa_nat (nat n))"

lemma digits_val_append: "digits_val (s @ [c]) acc = 10 * digits_val s acc + digit_val c"
  by (induction s arbitrary: acc) auto

lemma digit_val_char_of [simp]: "n < 10 \<Longrightarrow> digit_val (char_of (48 + n :: nat)) = int n"
  by (simp add: digit_val_def)

lemma is_digit_char_of [simp]: "n < 10 \<Longrightarrow> is_digit (char_of (48 + n :: nat))"
  by (auto simp: is_digit_def less_eq_char_def)

lemma Itoa_nat_not_Nil [simp]: "Itoa_nat n \<noteq> []"
  by (subst Itoa_nat.simps) simp

lemma Itoa_nat_digits: "list_all is_digit (Itoa_nat n)"
proof (induction n rule: Itoa_nat.induct)
  case (1 n)
  then show ?case by (cases "n < 10") (simp_all add: Itoa_nat.simps [of n])
qed

lemma digits_val_Itoa_nat [simp]: "digits_val (Itoa_nat n) 0 = int n"
proof (induction n rule: Itoa_nat.induct)
  case (1 n)
  show ?case
  proof (cases "n < 10")
    case True
    then show ?thesis by (simp add: Itoa_nat.simps [of n])
  next
    case False
    then have "digits_val (Itoa_nat n) 0 = 10 * int (n div 10) + int (n mod 10)"
      using 1 by (simp add: Itoa_nat.simps [of n] digits_val_append del: of_nat_mod)
    then show ?thesis by presburger
  qed
qed

lemma Itoa_nat_hd: "c \<in> set (Itoa_nat n) \<Longrightarrow> c \<noteq> CHR ''-'' \<and> c \<noteq> CHR ''+''"
  using Itoa_nat_digits [of n] by (auto simp: list_all_iff is_digit_def less_eq_char_def)

lemma ParseUint_Itoa_nat: "int n < 2 ^ 64 \<Longrightarrow> ParseUint (Itoa_nat n) = (int n, None)"
  by (simp add: ParseUint_def Itoa_nat_digits)

text \<open>What \<open>strconv.Itoa\<close> prints, \<open>strconv.Atoi\<close> reads back.\<close>

lemma ParseInt_Itoa:
  assumes "in_int64 n"
  shows "ParseInt (Itoa n) = (n, None)"
proof (cases "n < 0")
  case True
  moreover have "int (nat (- n)) < 2 ^ 64" using assms True by (simp add: int64_bounds)
  ultimately show ?thesis
    using assms ParseUint_Itoa_nat [of "nat (- n)"]
    by (simp add: Itoa_def ParseInt_def signed_of_def int64_bounds)
next
  case False
  obtain c t where eq: "Itoa_nat (nat n) = c # t" by (cases "Itoa_nat (nat n)") auto
  have c: "c \<noteq> CHR ''-'' \<and> c \<noteq> CHR ''+''" using Itoa_nat_hd [of c "nat n"] eq by simp
  have "ParseUint (c # t) = (n, None)"
    using ParseUint_Itoa_nat [of "nat n"] eq assms False by (simp add: int64_bounds)
  then show ?thesis
    using False eq c assms by (simp add: Itoa_def ParseInt_def signed_of_def int64_bounds)
qed

lemma digits_val_nonneg: "list_all is_digit u \<Longrightarrow> 0 \<le> acc \<Longrightarrow> 0 \<le> digits_val u acc"
  by (induction u arbitrary: acc) (auto simp: digit_val_def is_digit_def less_eq_char_def)

lemma ParseUint_range: "0 \<le> fst (ParseUint s) \<and> fst (ParseUint s) < 2 ^ 64"
  by (simp add: ParseUint_def Let_def digits_val_nonneg)

lemma ParseInt_in_int64: "in_int64 (fst (ParseInt s))"
proof -
  have "in_int64 (fst (signed_of neg (ParseUint u)))" for neg u
    using ParseUint_range [of u] by (simp add: signed_of_def int64_bounds)
  then show ?thesis by (cases s) (simp_all add: ParseInt_def int64_bounds)
qed

end
