(* ===== verification/Xhttp.thy ===== *)
theory Xhttp
  imports Go_Strings
begin

text \<open>
  The HTTP helpers of \<open>src/common/http/main.go\<close> the services share, and the view of a
  request they work on: \<open>Header\<close> answers \<open>r.Header.Get\<close> by the lower-case key (header keys
  are case-insensitive, a missing header reads as the empty string), \<open>Query\<close> is
  \<open>r.URL.Query()\<close>, \<open>Body\<close> is what reading the body yields (\<open>None\<close> when it fails), and
  \<open>Vars\<close> is the router's \<open>mux.Vars\<close>.
\<close>

record request =
  Method :: string
  Path :: string
  Host :: string
  Query :: "(string \<times> string list) list"
  Header :: "string \<Rightarrow> string"
  Body :: "string option"
  Vars :: "string \<Rightarrow> string"

definition HGet :: "request \<Rightarrow> string \<Rightarrow> string" where
  "HGet r k = Header r (ToLower k)"

text \<open>What a handler wrote to its \<open>http.ResponseWriter\<close>.\<close>

record response =
  rw_headers :: "(string \<times> string) list"
  rw_status :: "int option"
  rw_body :: "string list"

definition rw_empty :: response where
  "rw_empty = \<lparr>rw_headers = [], rw_status = None, rw_body = []\<rparr>"

definition rw_set :: "string \<Rightarrow> string \<Rightarrow> response \<Rightarrow> response" where
  "rw_set k v w = w\<lparr>rw_headers := (k, v) # filter (\<lambda>(k', _). k' \<noteq> k) (rw_headers w)\<rparr>"

text \<open>Only the first \<open>WriteHeader\<close> of a response counts.\<close>

definition WriteHeader :: "int \<Rightarrow> response \<Rightarrow> response" where
  "WriteHeader code w = (case rw_status w of None \<Rightarrow> w\<lparr>rw_status := Some code\<rparr> | Some _ \<Rightarrow> w)"

definition rw_write :: "string \<Rightarrow> response \<Rightarrow> response" where
  "rw_write b w = (let w = WriteHeader 200 w in w\<lparr>rw_body := rw_body w @ [b]\<rparr>)"

definition http_Error :: "string \<Rightarrow> int \<Rightarrow> response \<Rightarrow> response" where
  "http_Error msg code w =
     rw_write (msg @ [CHR 0x0A]) (WriteHeader code (rw_set ''Content-Type'' ''text/plain; charset=utf-8'' w))"

section \<open>The helpers\<close>

definition SetCORS :: "string list \<Rightarrow> string list \<Rightarrow> response \<Rightarrow> response" where
  "SetCORS methods headers w =
     rw_set ''Access-Control-Expose-Headers'' (Join headers '','')
     (rw_set ''Access-Control-Allow-Headers'' (Join headers '','')
     (rw_set ''Access-Control-Allow-Methods'' (Join methods '','')
     (rw_set ''Access-Control-Allow-Origin'' ''*'' w)))"

definition HandleCORS :: "request \<Rightarrow> string list \<Rightarrow> string list \<Rightarrow> response \<Rightarrow> bool \<times> response" where
  "HandleCORS r methods headers w =
     (let w = SetCORS methods headers w
      in if Method r = ''OPTIONS'' then (True, WriteHeader 200 w) else (False, w))"

definition isLocal :: "string \<Rightarrow> bool" where
  "isLocal addr \<longleftrightarrow>
     HasPrefix addr ''localhost:'' \<or> HasPrefix addr ''127.0.0.1:'' \<or> HasPrefix addr ''::1:''"

datatype listen_mode = ListenTLS string string | ListenPlain | ListenRefused string

definition ListenAndServe :: "string \<Rightarrow> (string \<times> string) option \<Rightarrow> bool \<Rightarrow> listen_mode" where
  "ListenAndServe addr https devel =
     (case https of
        Some (cert, key) \<Rightarrow> ListenTLS cert key
      | None \<Rightarrow> if devel \<or> isLocal addr then ListenPlain
                else ListenRefused ''Can't go non-https in production mode'')"

definition query_Get :: "(string \<times> string list) list \<Rightarrow> string \<Rightarrow> string" where
  "query_Get q n = (case map_of q n of Some (v # _) \<Rightarrow> v | _ \<Rightarrow> [])"

definition ReqAtoi :: "(string \<times> string list) list \<Rightarrow> string \<Rightarrow> int \<Rightarrow> int \<times> numerr option" where
  "ReqAtoi q n def =
     (let aux = query_Get q n
      in if aux \<noteq> [] then
           (case ParseInt aux of (val, None) \<Rightarrow> (val, None) | (val, Some e) \<Rightarrow> (def, Some e))
         else (def, None))"

text \<open>\<open>int64(sz)\<close> of an unsigned 64-bit value keeps its bits, so sizes from \<open>2^63\<close> up come
  out negative.\<close>

definition BodySize :: "request \<Rightarrow> int" where
  "BodySize r =
     (let cl = HGet r ''Content-Length''
      in if cl = [] then 0
         else case ParseUint cl of (sz, Some _) \<Rightarrow> 0 | (sz, None) \<Rightarrow> int64_of sz)"

datatype range_err = RangeErr string | RangeNum numerr

definition range_ends :: "string \<Rightarrow> string \<Rightarrow> range_err + int \<times> int" where
  "range_ends a b =
     (case ParseInt a of
        (_, Some e) \<Rightarrow> Inl (RangeNum e)
      | (from, None) \<Rightarrow>
          (case (if b = [] then (MaxInt64 - 1, None) else ParseInt b) of
             (_, Some e) \<Rightarrow> Inl (RangeNum e)
           | (to, None) \<Rightarrow>
               if to < from \<or> to < 0 \<or> from < 0 then Inl (RangeErr ''Negative range'')
               else Inr (from, int64_of (to + 1))))"

definition ParseRange :: "string \<Rightarrow> range_err + int \<times> int" where
  "ParseRange rng =
     (if \<not> HasPrefix rng ''bytes='' then Inl (RangeErr ''Only bytes range supported'')
      else case Split (TrimPrefix rng ''bytes='') (CHR '','') of
        [rg] \<Rightarrow>
          (case Split (TrimSpace rg) (CHR ''-'') of
             [a, b] \<Rightarrow> range_ends a b
           | _ \<Rightarrow> Inl (RangeErr ''Bad range''))
      | _ \<Rightarrow> Inl (RangeErr ''Only one range supported''))"

section \<open>Properties\<close>

lemma TrimSpace_no_space: "\<forall>c \<in> set s. \<not> IsSpace c \<Longrightarrow> TrimSpace s = s"
proof -
  have "dropWhile IsSpace t = t" if "\<forall>c \<in> set t. \<not> IsSpace c" for t
    using that by (cases t) auto
  from this [of s] this [of "rev s"]
  show "\<forall>c \<in> set s. \<not> IsSpace c \<Longrightarrow> TrimSpace s = s" by (simp add: TrimSpace_def)
qed

lemma Itoa_nat_chars: "c \<in> set (Itoa_nat n) \<Longrightarrow> \<not> IsSpace c \<and> c \<noteq> CHR ''-'' \<and> c \<noteq> CHR '',''"
  using Itoa_nat_digits [of n]
  by (auto simp: list_all_iff is_digit_def IsSpace_def less_eq_char_def)

lemma ParseInt_Itoa_nat: "int n \<le> MaxInt64 \<Longrightarrow> ParseInt (Itoa_nat n) = (int n, None)"
  using ParseInt_Itoa [of "int n"] by (simp add: Itoa_def int64_bounds)

lemma ParseRange_split:
  assumes "c1 = Itoa_nat a" and "c2 = [] \<or> c2 = Itoa_nat b"
  shows "Split (TrimPrefix (''bytes='' @ c1 @ ''-'' @ c2) ''bytes='') (CHR '','') = [c1 @ ''-'' @ c2]"
    and "Split (TrimSpace (c1 @ ''-'' @ c2)) (CHR ''-'') = [c1, c2]"
proof -
  have chars: "\<not> IsSpace c \<and> c \<noteq> CHR '',''" if "c \<in> set (c1 @ ''-'' @ c2)" for c
    using that assms Itoa_nat_chars [of c a] Itoa_nat_chars [of c b]
    by (auto simp: IsSpace_def)
  show "Split (TrimPrefix (''bytes='' @ c1 @ ''-'' @ c2) ''bytes='') (CHR '','') = [c1 @ ''-'' @ c2]"
    using chars by (simp only: TrimPrefix_append) (rule Split_no_sep, blast)
  have "TrimSpace (c1 @ ''-'' @ c2) = c1 @ CHR ''-'' # c2"
    using chars by (subst TrimSpace_no_space) auto
  moreover have "CHR ''-'' \<notin> set c1" "CHR ''-'' \<notin> set c2"
    using assms Itoa_nat_chars by auto
  ultimately show "Split (TrimSpace (c1 @ ''-'' @ c2)) (CHR ''-'') = [c1, c2]"
    by (simp add: Split_append_sep Split_no_sep)
qed

lemma ParseRange_closed:
  assumes "a \<le> b" and "int b \<le> MaxInt64"
  shows "ParseRange (''bytes='' @ Itoa_nat a @ ''-'' @ Itoa_nat b) = Inr (int a, int64_of (int b + 1))"
proof -
  have "ParseInt (Itoa_nat a) = (int a, None)" "ParseInt (Itoa_nat b) = (int b, None)"
    using assms by (simp_all add: ParseInt_Itoa_nat)
  then show ?thesis
    using assms ParseRange_split [of "Itoa_nat a" a "Itoa_nat b" b]
    by (simp add: ParseRange_def range_ends_def del: TrimPrefix_append append_Cons)
qed

text \<open>
  A well-formed range header is read as the client means it: \<open>bytes=a-b\<close> with
  \<open>a \<le> b\<close> is the half-open interval from \<open>a\<close> to \<open>b + 1\<close>, as long as \<open>b\<close> is below the
  largest \<open>int64\<close>; and \<open>bytes=a-\<close> runs up to that largest value.
\<close>

theorem ParseRange_reads:
  assumes "a \<le> b" and "int b < MaxInt64"
  shows "ParseRange (''bytes='' @ Itoa_nat a @ ''-'' @ Itoa_nat b) = Inr (int a, int b + 1)
    \<and> ParseRange (''bytes='' @ Itoa_nat a @ ''-'') = Inr (int a, MaxInt64)"
proof -
  have pa: "ParseInt (Itoa_nat a) = (int a, None)" using assms by (simp add: ParseInt_Itoa_nat)
  have "int64_of (int b + 1) = int b + 1" using assms by (simp add: int64_bounds)
  then have "ParseRange (''bytes='' @ Itoa_nat a @ ''-'' @ Itoa_nat b) = Inr (int a, int b + 1)"
    using ParseRange_closed [of a b] assms by simp
  moreover have "int64_of MaxInt64 = MaxInt64" by (simp add: int64_bounds)
  then have "ParseRange (''bytes='' @ Itoa_nat a @ ''-'' @ []) = Inr (int a, MaxInt64)"
    using assms pa ParseRange_split [of "Itoa_nat a" a "[]" b]
    by (simp add: ParseRange_def range_ends_def MaxInt64_def del: TrimPrefix_append append_Cons)
  ultimately show ?thesis by simp
qed

theorem ParseRange_reads_witness:
  "ParseRange (''bytes='' @ Itoa_nat 10 @ ''-'' @ Itoa_nat 99) = Inr (10, 100)
    \<and> ParseRange (''bytes='' @ Itoa_nat 10 @ ''-'') = Inr (10, MaxInt64)"
  using ParseRange_reads [of 10 99] by (simp add: MaxInt64_def)

lemma range_ends_bounds:
  assumes "range_ends a b = Inr (from, to)"
  shows "0 \<le> from \<and> in_int64 from \<and> (from < to \<and> to \<le> MaxInt64 \<or> to = MinInt64)"
proof -
  define rb where "rb = (if b = [] then (MaxInt64 - 1, None) else ParseInt b)"
  have last: "in_int64 (fst rb)"
    using ParseInt_in_int64 [of b] by (simp add: rb_def int64_bounds)
  have fr: "in_int64 from" and p: "from \<le> fst rb" "0 \<le> from" "to = int64_of (fst rb + 1)"
    using assms ParseInt_in_int64 [of a]
    by (auto simp: range_ends_def rb_def not_less split: if_splits prod.splits option.splits)
  have "fst rb < MaxInt64 \<or> fst rb = MaxInt64" using last by (auto simp: int64_bounds)
  then show ?thesis
  proof
    assume "fst rb < MaxInt64"
    then have "to = fst rb + 1" using p last by (simp add: int64_bounds)
    with \<open>fst rb < MaxInt64\<close> p fr show ?thesis by simp
  next
    assume "fst rb = MaxInt64"
    then show ?thesis using p fr by (simp add: int64_of_def MaxInt64_def MinInt64_def)
  qed
qed

text \<open>
  The interval \<open>ParseRange\<close> returns is never inverted except at the very end of the
  \<open>int64\<close> range: \<open>from\<close> is non-negative, and either \<open>from < to\<close> or the requested last byte
  was the largest \<open>int64\<close>, whose successor wraps around to the smallest.
\<close>

theorem ParseRange_bounds:
  assumes "ParseRange rng = Inr (from, to)"
  shows "0 \<le> from \<and> in_int64 from \<and> (from < to \<and> to \<le> MaxInt64 \<or> to = MinInt64)"
  using assms
  by (auto simp: ParseRange_def dest!: range_ends_bounds split: if_splits list.splits)

theorem ParseRange_bounds_witness:
  "let rng = ''bytes='' @ Itoa_nat 0 @ ''-'' @ Itoa_nat 9223372036854775807 in
   ParseRange rng = Inr (0, MinInt64) \<and>
   (0 :: int) \<le> 0 \<and> in_int64 0 \<and> (0 < MinInt64 \<and> MinInt64 \<le> MaxInt64 \<or> MinInt64 = MinInt64)"
proof -
  have h: "ParseRange (''bytes='' @ Itoa_nat 0 @ ''-'' @ Itoa_nat 9223372036854775807) = Inr (0, MinInt64)"
    using ParseRange_closed [of 0 9223372036854775807] by (simp add: MaxInt64_def MinInt64_def int64_of_def)
  show ?thesis using h ParseRange_bounds [OF h] by (simp only: Let_def)
qed

text \<open>
  A production listener is never plain HTTP on a public address: without certificates the
  server starts only in development mode or on a loopback address.
\<close>

theorem ListenAndServe_secure:
  "ListenAndServe addr https devel = ListenPlain \<longleftrightarrow> https = None \<and> (devel \<or> isLocal addr)"
  by (auto simp: ListenAndServe_def split: option.splits)

end
