(* ===== verification/S3_Error.thy ===== *)
theory S3_Error
  imports Xhttp
begin

text \<open>
  The error codes of the S3 service and their HTTP rendering, \<open>src/s3/error.go\<close>: the
  internal codes, the table that gives each its HTTP status and S3 error name, and the
  two functions that write an error response. The XML encoder is Go's; the response body
  is represented by the \<open>swys3api.S3Error\<close> document it encodes.
\<close>

named_theorems s3err_defs \<open>the numeric values of the S3 error codes\<close>

definition S3ErrAccessDenied :: int where [s3err_defs]: "S3ErrAccessDenied = 1"
definition S3ErrAccountProblem :: int where [s3err_defs]: "S3ErrAccountProblem = 2"
definition S3ErrAmbiguousGrantByEmailAddress :: int where [s3err_defs]: "S3ErrAmbiguousGrantByEmailAddress = 3"
definition S3ErrBadDigest :: int where [s3err_defs]: "S3ErrBadDigest = 4"
definition S3ErrBucketAlreadyExists :: int where [s3err_defs]: "S3ErrBucketAlreadyExists = 5"
definition S3ErrBucketAlreadyOwnedByYou :: int where [s3err_defs]: "S3ErrBucketAlreadyOwnedByYou = 6"
definition S3ErrBucketNotEmpty :: int where [s3err_defs]: "S3ErrBucketNotEmpty = 7"
definition S3ErrCredentialsNotSupported :: int where [s3err_defs]: "S3ErrCredentialsNotSupported = 8"
definition S3ErrCrossLocationLoggingProhibited :: int where [s3err_defs]: "S3ErrCrossLocationLoggingProhibited = 9"
definition S3ErrEntityTooSmall :: int where [s3err_defs]: "S3ErrEntityTooSmall = 10"
definition S3ErrEntityTooLarge :: int where [s3err_defs]: "S3ErrEntityTooLarge = 11"
definition S3ErrExpiredToken :: int where [s3err_defs]: "S3ErrExpiredToken = 12"
definition S3ErrIllegalVersioningConfigurationException :: int where [s3err_defs]: "S3ErrIllegalVersioningConfigurationException = 13"
definition S3ErrIncompleteBody :: int where [s3err_defs]: "S3ErrIncompleteBody = 14"
definition S3ErrIncorrectNumberOfFilesInPostRequest :: int where [s3err_defs]: "S3ErrIncorrectNumberOfFilesInPostRequest = 15"
definition S3ErrInlineDataTooLarge :: int where [s3err_defs]: "S3ErrInlineDataTooLarge = 16"
definition S3ErrInternalError :: int where [s3err_defs]: "S3ErrInternalError = 17"
definition S3ErrInvalidAccessKeyId :: int where [s3err_defs]: "S3ErrInvalidAccessKeyId = 18"
definition S3ErrInvalidAddressingHeader :: int where [s3err_defs]: "S3ErrInvalidAddressingHeader = 19"
definition S3ErrInvalidArgument :: int where [s3err_defs]: "S3ErrInvalidArgument = 20"
definition S3ErrInvalidBucketName :: int where [s3err_defs]: "S3ErrInvalidBucketName = 21"
definition S3ErrInvalidBucketState :: int where [s3err_defs]: "S3ErrInvalidBucketState = 22"
definition S3ErrInvalidDigest :: int where [s3err_defs]: "S3ErrInvalidDigest = 23"
definition S3ErrInvalidEncryptionAlgorithmError :: int where [s3err_defs]: "S3ErrInvalidEncryptionAlgorithmError = 24"
definition S3ErrInvalidLocationConstraint :: int where [s3err_defs]: "S3ErrInvalidLocationConstraint = 25"
definition S3ErrInvalidObjectState :: int where [s3err_defs]: "S3ErrInvalidObjectState = 26"
definition S3ErrInvalidPart :: int where [s3err_defs]: "S3ErrInvalidPart = 27"
definition S3ErrInvalidPartOrder :: int where [s3err_defs]: "S3ErrInvalidPartOrder = 28"
definition S3ErrInvalidPayer :: int where [s3err_defs]: "S3ErrInvalidPayer = 29"
definition S3ErrInvalidPolicyDocument :: int where [s3err_defs]: "S3ErrInvalidPolicyDocument = 30"
definition S3ErrInvalidRange :: int where [s3err_defs]: "S3ErrInvalidRange = 31"
definition S3ErrInvalidRequest :: int where [s3err_defs]: "S3ErrInvalidRequest = 32"
definition S3ErrInvalidSecurity :: int where [s3err_defs]: "S3ErrInvalidSecurity = 33"
definition S3ErrInvalidSOAPRequest :: int where [s3err_defs]: "S3ErrInvalidSOAPRequest = 34"
definition S3ErrInvalidStorageClass :: int where [s3err_defs]: "S3ErrInvalidStorageClass = 35"
definition S3ErrInvalidTargetBucketForLogging :: int where [s3err_defs]: "S3ErrInvalidTargetBucketForLogging = 36"
definition S3ErrInvalidToken :: int where [s3err_defs]: "S3ErrInvalidToken = 37"
definition S3ErrInvalidURI :: int where [s3err_defs]: "S3ErrInvalidURI = 38"
definition S3ErrKeyTooLong :: int where [s3err_defs]: "S3ErrKeyTooLong = 39"
definition S3ErrMalformedACLError :: int where [s3err_defs]: "S3ErrMalformedACLError = 40"
definition S3ErrMalformedPOSTRequest :: int where [s3err_defs]: "S3ErrMalformedPOSTRequest = 41"
definition S3ErrMalformedXML :: int where [s3err_defs]: "S3ErrMalformedXML = 42"
definition S3ErrMaxMessageLengthExceeded :: int where [s3err_defs]: "S3ErrMaxMessageLengthExceeded = 43"
definition S3ErrMaxPostPreDataLengthExceededError :: int where [s3err_defs]: "S3ErrMaxPostPreDataLengthExceededError = 44"
definition S3ErrMetadataTooLarge :: int where [s3err_defs]: "S3ErrMetadataTooLarge = 45"
definition S3ErrMethodNotAllowed :: int where [s3err_defs]: "S3ErrMethodNotAllowed = 46"
definition S3ErrMissingAttachment :: int where [s3err_defs]: "S3ErrMissingAttachment = 47"
definition S3ErrMissingContentLength :: int where [s3err_defs]: "S3ErrMissingContentLength = 48"
definition S3ErrMissingRequestBodyError :: int where [s3err_defs]: "S3ErrMissingRequestBodyError = 49"
definition S3ErrMissingSecurityElement :: int where [s3err_defs]: "S3ErrMissingSecurityElement = 50"
definition S3ErrMissingSecurityHeader :: int where [s3err_defs]: "S3ErrMissingSecurityHeader = 51"
definition S3ErrNoLoggingStatusForKey :: int where [s3err_defs]: "S3ErrNoLoggingStatusForKey = 52"
definition S3ErrNoSuchBucket :: int where [s3err_defs]: "S3ErrNoSuchBucket = 53"
definition S3ErrNoSuchKey :: int where [s3err_defs]: "S3ErrNoSuchKey = 54"
definition S3ErrNoSuchLifecycleConfiguration :: int where [s3err_defs]: "S3ErrNoSuchLifecycleConfiguration = 55"
definition S3ErrNoSuchUpload :: int where [s3err_defs]: "S3ErrNoSuchUpload = 56"
definition S3ErrNoSuchVersion :: int where [s3err_defs]: "S3ErrNoSuchVersion = 57"
definition S3ErrNotImplemented :: int where [s3err_defs]: "S3ErrNotImplemented = 58"
definition S3ErrNotSignedUp :: int where [s3err_defs]: "S3ErrNotSignedUp = 59"
definition S3ErrNoSuchBucketPolicy :: int where [s3err_defs]: "S3ErrNoSuchBucketPolicy = 60"
definition S3ErrOperationAborted :: int where [s3err_defs]: "S3ErrOperationAborted = 61"
definition S3ErrPermanentRedirect :: int where [s3err_defs]: "S3ErrPermanentRedirect = 62"
definition S3ErrPreconditionFailed :: int where [s3err_defs]: "S3ErrPreconditionFailed = 63"
definition S3ErrRedirect :: int where [s3err_defs]: "S3ErrRedirect = 64"
definition S3ErrRestoreAlreadyInProgress :: int where [s3err_defs]: "S3ErrRestoreAlreadyInProgress = 65"
definition S3ErrRequestIsNotMultiPartContent :: int where [s3err_defs]: "S3ErrRequestIsNotMultiPartContent = 66"
definition S3ErrRequestTimeout :: int where [s3err_defs]: "S3ErrRequestTimeout = 67"
definition S3ErrRequestTimeTooSkewed :: int where [s3err_defs]: "S3ErrRequestTimeTooSkewed = 68"
definition S3ErrRequestTorrentOfBucketError :: int where [s3err_defs]: "S3ErrRequestTorrentOfBucketError = 69"
definition S3ErrSignatureDoesNotMatch :: int where [s3err_defs]: "S3ErrSignatureDoesNotMatch = 70"
definition S3ErrServiceUnavailable :: int where [s3err_defs]: "S3ErrServiceUnavailable = 71"
definition S3ErrSlowDown :: int where [s3err_defs]: "S3ErrSlowDown = 72"
definition S3ErrTemporaryRedirect :: int where [s3err_defs]: "S3ErrTemporaryRedirect = 73"
definition S3ErrTokenRefreshRequired :: int where [s3err_defs]: "S3ErrTokenRefreshRequired = 74"
definition S3ErrTooManyBuckets :: int where [s3err_defs]: "S3ErrTooManyBuckets = 75"
definition S3ErrUnexpectedContent :: int where [s3err_defs]: "S3ErrUnexpectedContent = 76"
definition S3ErrUnresolvableGrantByEmailAddress :: int where [s3err_defs]: "S3ErrUnresolvableGrantByEmailAddress = 77"
definition S3ErrUserKeyMustBeSpecified :: int where [s3err_defs]: "S3ErrUserKeyMustBeSpecified = 78"
definition S3ErrAccessDeniedException :: int where [s3err_defs]: "S3ErrAccessDeniedException = 79"
definition S3ErrIncompleteSignature :: int where [s3err_defs]: "S3ErrIncompleteSignature = 80"
definition S3ErrInternalFailure :: int where [s3err_defs]: "S3ErrInternalFailure = 81"
definition S3ErrInvalidAction :: int where [s3err_defs]: "S3ErrInvalidAction = 82"
definition S3ErrInvalidClientTokenId :: int where [s3err_defs]: "S3ErrInvalidClientTokenId = 83"
definition S3ErrInvalidParameterCombination :: int where [s3err_defs]: "S3ErrInvalidParameterCombination = 84"
definition S3ErrInvalidParameterValue :: int where [s3err_defs]: "S3ErrInvalidParameterValue = 85"
definition S3ErrInvalidQueryParameter :: int where [s3err_defs]: "S3ErrInvalidQueryParameter = 86"
definition S3ErrMalformedQueryString :: int where [s3err_defs]: "S3ErrMalformedQueryString = 87"
definition S3ErrMissingAction :: int where [s3err_defs]: "S3ErrMissingAction = 88"
definition S3ErrMissingAuthenticationToken :: int where [s3err_defs]: "S3ErrMissingAuthenticationToken = 89"
definition S3ErrMissingParameter :: int where [s3err_defs]: "S3ErrMissingParameter = 90"
definition S3ErrOptInRequired :: int where [s3err_defs]: "S3ErrOptInRequired = 91"
definition S3ErrRequestExpired :: int where [s3err_defs]: "S3ErrRequestExpired = 92"
definition S3ErrThrottlingException :: int where [s3err_defs]: "S3ErrThrottlingException = 93"
definition S3ErrValidationError :: int where [s3err_defs]: "S3ErrValidationError = 94"
definition S3ErrAuthorizationHeaderMalformed :: int where [s3err_defs]: "S3ErrAuthorizationHeaderMalformed = 95"
definition S3ErrSwyInvalidObjectName :: int where [s3err_defs]: "S3ErrSwyInvalidObjectName = 1024"

record S3Error =
  ErrorCode :: int
  Message :: string

definition s3error :: "int \<Rightarrow> S3Error" where
  "s3error c = \<lparr>ErrorCode = c, Message = []\<rparr>"

definition s3errorm :: "int \<Rightarrow> string \<Rightarrow> S3Error" where
  "s3errorm c m = \<lparr>ErrorCode = c, Message = m\<rparr>"

record s3RespErrorMap =
  HttpStatus :: int
  RespErrorCode :: string

definition respmap :: "int \<Rightarrow> string \<Rightarrow> s3RespErrorMap" where
  "respmap st name = \<lparr>HttpStatus = st, RespErrorCode = name\<rparr>"

definition s3RespErrorMapData_1 :: "(int \<times> s3RespErrorMap) list" where
  "s3RespErrorMapData_1 =
    [(S3ErrAccessDenied, respmap 403 ''AccessDenied''),
     (S3ErrAccountProblem, respmap 403 ''AccountProblem''),
     (S3ErrAmbiguousGrantByEmailAddress, respmap 400 ''AmbiguousGrantByEmailAddress''),
     (S3ErrBadDigest, respmap 400 ''BadDigest''),
     (S3ErrBucketAlreadyExists, respmap 400 ''BucketAlreadyExists''),
     (S3ErrBucketAlreadyOwnedByYou, respmap 409 ''BucketAlreadyOwnedByYou''),
     (S3ErrBucketNotEmpty, respmap 409 ''BucketNotEmpty''),
     (S3ErrCredentialsNotSupported, respmap 400 ''CredentialsNotSupported''),
     (S3ErrCrossLocationLoggingProhibited, respmap 403 ''CrossLocationLoggingProhibited''),
     (S3ErrEntityTooSmall, respmap 400 ''EntityTooSmall''),
     (S3ErrExpiredToken, respmap 400 ''ExpiredToken''),
     (S3ErrIllegalVersioningConfigurationException, respmap 400 ''IllegalVersioningConfigurationException''),
     (S3ErrEntityTooLarge, respmap 400 ''EntityTooLarge''),
     (S3ErrIncompleteBody, respmap 400 ''IncompleteBody''),
     (S3ErrIncorrectNumberOfFilesInPostRequest, respmap 400 ''IncorrectNumberOfFilesInPostRequest''),
     (S3ErrInlineDataTooLarge, respmap 400 ''InlineDataTooLarge''),
     (S3ErrInternalError, respmap 500 ''InternalError''),
     (S3ErrInvalidAccessKeyId, respmap 403 ''InvalidAccessKeyId''),
     (S3ErrInvalidAddressingHeader, respmap 400 ''InvalidAddressingHeader''),
     (S3ErrInvalidArgument, respmap 400 ''InvalidArgument''),
     (S3ErrInvalidBucketName, respmap 400 ''InvalidBucketName''),
     (S3ErrInvalidBucketState, respmap 409 ''InvalidBucketState''),
     (S3ErrInvalidDigest, respmap 400 ''InvalidDigest''),
     (S3ErrInvalidEncryptionAlgorithmError, respmap 400 ''InvalidEncryptionAlgorithmError''),
     (S3ErrInvalidLocationConstraint, respmap 400 ''InvalidLocationConstraint''),
     (S3ErrInvalidObjectState, respmap 403 ''InvalidObjectState'')]"

definition s3RespErrorMapData_2 :: "(int \<times> s3RespErrorMap) list" where
  "s3RespErrorMapData_2 =
    [(S3ErrInvalidPart, respmap 400 ''InvalidPart''),
     (S3ErrInvalidPartOrder, respmap 400 ''InvalidPartOrder''),
     (S3ErrInvalidPayer, respmap 403 ''InvalidPayer''),
     (S3ErrInvalidPolicyDocument, respmap 400 ''InvalidPolicyDocument''),
     (S3ErrInvalidRange, respmap 416 ''InvalidRange''),
     (S3ErrInvalidRequest, respmap 400 ''InvalidRequest''),
     (S3ErrInvalidSecurity, respmap 403 ''InvalidSecurity''),
     (S3ErrInvalidSOAPRequest, respmap 400 ''InvalidSOAPRequest''),
     (S3ErrInvalidStorageClass, respmap 400 ''InvalidStorageClass''),
     (S3ErrInvalidTargetBucketForLogging, respmap 400 ''InvalidTargetBucketForLogging''),
     (S3ErrInvalidToken, respmap 400 ''InvalidToken''),
     (S3ErrInvalidURI, respmap 400 ''InvalidURI''),
     (S3ErrKeyTooLong, respmap 400 ''KeyTooLong''),
     (S3ErrMalformedACLError, respmap 400 ''MalformedACLError''),
     (S3ErrMalformedPOSTRequest, respmap 400 ''MalformedPOSTRequest''),
     (S3ErrMalformedXML, respmap 400 ''MalformedXML''),
     (S3ErrMaxMessageLengthExceeded, respmap 400 ''MaxMessageLengthExceeded''),
     (S3ErrMaxPostPreDataLengthExceededError, respmap 400 ''MaxPostPreDataLengthExceededError''),
     (S3ErrMetadataTooLarge, respmap 400 ''MetadataTooLarge''),
     (S3ErrMethodNotAllowed, respmap 405 ''MethodNotAllowed''),
     (S3ErrMissingAttachment, respmap 400 ''MissingAttachment''),
     (S3ErrMissingContentLength, respmap 400 ''MissingContentLength''),
     (S3ErrMissingRequestBodyError, respmap 400 ''MissingRequestBodyError''),
     (S3ErrMissingSecurityElement, respmap 400 ''MissingSecurityElement''),
     (S3ErrMissingSecurityHeader, respmap 400 ''MissingSecurityHeader''),
     (S3ErrNoLoggingStatusForKey, respmap 400 ''NoLoggingStatusForKey'')]"

definition s3RespErrorMapData_3 :: "(int \<times> s3RespErrorMap) list" where
  "s3RespErrorMapData_3 =
    [(S3ErrNoSuchBucket, respmap 404 ''NoSuchBucket''),
     (S3ErrNoSuchKey, respmap 404 ''NoSuchKey''),
     (S3ErrNoSuchLifecycleConfiguration, respmap 404 ''NoSuchLifecycleConfiguration''),
     (S3ErrNoSuchUpload, respmap 404 ''NoSuchUpload''),
     (S3ErrNoSuchVersion, respmap 404 ''NoSuchVersion''),
     (S3ErrNotImplemented, respmap 501 ''NotImplemented''),
     (S3ErrNotSignedUp, respmap 403 ''NotSignedUp''),
     (S3ErrNoSuchBucketPolicy, respmap 404 ''NoSuchBucketPolicy''),
     (S3ErrOperationAborted, respmap 409 ''OperationAborted''),
     (S3ErrPermanentRedirect, respmap 301 ''PermanentRedirect''),
     (S3ErrPreconditionFailed, respmap 412 ''PreconditionFailed''),
     (S3ErrRedirect, respmap 307 ''Redirect''),
     (S3ErrRestoreAlreadyInProgress, respmap 409 ''RestoreAlreadyInProgress''),
     (S3ErrRequestIsNotMultiPartContent, respmap 400 ''RequestIsNotMultiPartContent''),
     (S3ErrRequestTimeout, respmap 400 ''RequestTimeout''),
     (S3ErrRequestTimeTooSkewed, respmap 403 ''RequestTimeTooSkewed''),
     (S3ErrRequestTorrentOfBucketError, respmap 400 ''RequestTorrentOfBucketError''),
     (S3ErrSignatureDoesNotMatch, respmap 403 ''SignatureDoesNotMatch''),
     (S3ErrServiceUnavailable, respmap 503 ''ServiceUnavailable''),
     (S3ErrSlowDown, respmap 503 ''SlowDown''),
     (S3ErrTemporaryRedirect, respmap 307 ''TemporaryRedirect''),
     (S3ErrTokenRefreshRequired, respmap 400 ''TokenRefreshRequired''),
     (S3ErrTooManyBuckets, respmap 400 ''TooManyBuckets''),
     (S3ErrUnexpectedContent, respmap 400 ''UnexpectedContent''),
     (S3ErrUnresolvableGrantByEmailAddress, respmap 400 ''UnresolvableGrantByEmailAddress''),
     (S3ErrUserKeyMustBeSpecified, respmap 400 ''UserKeyMustBeSpecified'')]"

definition s3RespErrorMapData_4 :: "(int \<times> s3RespErrorMap) list" where
  "s3RespErrorMapData_4 =
    [(S3ErrAccessDeniedException, respmap 400 ''AccessDeniedException''),
     (S3ErrIncompleteSignature, respmap 400 ''IncompleteSignature''),
     (S3ErrInternalFailure, respmap 500 ''InternalFailure''),
     (S3ErrInvalidAction, respmap 400 ''InvalidAction''),
     (S3ErrInvalidClientTokenId, respmap 403 ''InvalidClientTokenId''),
     (S3ErrInvalidParameterCombination, respmap 400 ''InvalidParameterCombination''),
     (S3ErrInvalidParameterValue, respmap 400 ''InvalidParameterValue''),
     (S3ErrInvalidQueryParameter, respmap 400 ''InvalidQueryParameter''),
     (S3ErrMalformedQueryString, respmap 404 ''MalformedQueryString''),
     (S3ErrMissingAction, respmap 400 ''MissingAction''),
     (S3ErrMissingAuthenticationToken, respmap 403 ''MissingAuthenticationToken''),
     (S3ErrMissingParameter, respmap 400 ''MissingParameter''),
     (S3ErrOptInRequired, respmap 403 ''OptInRequired''),
     (S3ErrRequestExpired, respmap 400 ''RequestExpired''),
     (S3ErrThrottlingException, respmap 400 ''ThrottlingException''),
     (S3ErrValidationError, respmap 400 ''ValidationError''),
     (S3ErrAuthorizationHeaderMalformed, respmap 400 ''AuthorizationHeaderMalformed''),
     (S3ErrSwyInvalidObjectName, respmap 400 ''InvalidObjectName'')]"

definition s3RespErrorMapData :: "int \<rightharpoonup> s3RespErrorMap" where
  "s3RespErrorMapData = map_of (s3RespErrorMapData_1 @ s3RespErrorMapData_2 @ s3RespErrorMapData_3 @ s3RespErrorMapData_4)"

lemmas s3RespErrorMapData_defs = s3RespErrorMapData_def s3RespErrorMapData_1_def s3RespErrorMapData_2_def s3RespErrorMapData_3_def s3RespErrorMapData_4_def

text \<open>All declared codes, for properties that range over them.\<close>

definition s3_error_codes :: "int list" where
  "s3_error_codes =
    [S3ErrAccessDenied, S3ErrAccountProblem, S3ErrAmbiguousGrantByEmailAddress,
     S3ErrBadDigest, S3ErrBucketAlreadyExists, S3ErrBucketAlreadyOwnedByYou,
     S3ErrBucketNotEmpty, S3ErrCredentialsNotSupported, S3ErrCrossLocationLoggingProhibited,
     S3ErrEntityTooSmall, S3ErrExpiredToken, S3ErrIllegalVersioningConfigurationException,
     S3ErrEntityTooLarge, S3ErrIncompleteBody, S3ErrIncorrectNumberOfFilesInPostRequest,
     S3ErrInlineDataTooLarge, S3ErrInternalError, S3ErrInvalidAccessKeyId,
     S3ErrInvalidAddressingHeader, S3ErrInvalidArgument, S3ErrInvalidBucketName,
     S3ErrInvalidBucketState, S3ErrInvalidDigest, S3ErrInvalidEncryptionAlgorithmError,
     S3ErrInvalidLocationConstraint, S3ErrInvalidObjectState, S3ErrInvalidPart,
     S3ErrInvalidPartOrder, S3ErrInvalidPayer, S3ErrInvalidPolicyDocument,
     S3ErrInvalidRange, S3ErrInvalidRequest, S3ErrInvalidSecurity,
     S3ErrInvalidSOAPRequest, S3ErrInvalidStorageClass, S3ErrInvalidTargetBucketForLogging,
     S3ErrInvalidToken, S3ErrInvalidURI, S3ErrKeyTooLong,
     S3ErrMalformedACLError, S3ErrMalformedPOSTRequest, S3ErrMalformedXML,
     S3ErrMaxMessageLengthExceeded, S3ErrMaxPostPreDataLengthExceededError, S3ErrMetadataTooLarge,
     S3ErrMethodNotAllowed, S3ErrMissingAttachment, S3ErrMissingContentLength,
     S3ErrMissingRequestBodyError, S3ErrMissingSecurityElement, S3ErrMissingSecurityHeader,
     S3ErrNoLoggingStatusForKey, S3ErrNoSuchBucket, S3ErrNoSuchKey,
     S3ErrNoSuchLifecycleConfiguration, S3ErrNoSuchUpload, S3ErrNoSuchVersion,
     S3ErrNotImplemented, S3ErrNotSignedUp, S3ErrNoSuchBucketPolicy,
     S3ErrOperationAborted, S3ErrPermanentRedirect, S3ErrPreconditionFailed,
     S3ErrRedirect, S3ErrRestoreAlreadyInProgress, S3ErrRequestIsNotMultiPartContent,
     S3ErrRequestTimeout, S3ErrRequestTimeTooSkewed, S3ErrRequestTorrentOfBucketError,
     S3ErrSignatureDoesNotMatch, S3ErrServiceUnavailable, S3ErrSlowDown,
     S3ErrTemporaryRedirect, S3ErrTokenRefreshRequired, S3ErrTooManyBuckets,
     S3ErrUnexpectedContent, S3ErrUnresolvableGrantByEmailAddress, S3ErrUserKeyMustBeSpecified,
     S3ErrAccessDeniedException, S3ErrIncompleteSignature, S3ErrInternalFailure,
     S3ErrInvalidAction, S3ErrInvalidClientTokenId, S3ErrInvalidParameterCombination,
     S3ErrInvalidParameterValue, S3ErrInvalidQueryParameter, S3ErrMalformedQueryString,
     S3ErrMissingAction, S3ErrMissingAuthenticationToken, S3ErrMissingParameter,
     S3ErrOptInRequired, S3ErrRequestExpired, S3ErrThrottlingException,
     S3ErrValidationError, S3ErrAuthorizationHeaderMalformed, S3ErrSwyInvalidObjectName]"

text \<open>The document \<open>swys3api.S3Error\<close> of an error response (\<open>src/apis/s3/s3api.go\<close>).\<close>

record S3ErrorDoc =
  Code :: string
  DocMessage :: string
  Resource :: string
  RequestID :: string

text \<open>What an error response carries: the XML document, or the plain text of \<open>http.Error\<close> for
  a code the table does not know.\<close>

datatype err_response = ErrXML int S3ErrorDoc | ErrPlain int string

definition HTTPRespS3Error :: "S3Error \<Rightarrow> err_response" where
  "HTTPRespS3Error e =
     (case s3RespErrorMapData (ErrorCode e) of
        Some m \<Rightarrow> ErrXML (HttpStatus m)
          \<lparr>Code = RespErrorCode m, DocMessage = Message e, Resource = [], RequestID = []\<rparr>
      | None \<Rightarrow> ErrPlain 500 (''Unknown error '' @ Itoa (ErrorCode e)))"

definition HTTPRespError :: "int \<Rightarrow> string list \<Rightarrow> err_response" where
  "HTTPRespError errcode params =
     (case s3RespErrorMapData errcode of
        Some m \<Rightarrow>
          (let e = \<lparr>Code = RespErrorCode m, DocMessage = [], Resource = [], RequestID = []\<rparr>
           in ErrXML (HttpStatus m)
                (case params of
                   [a] \<Rightarrow> e\<lparr>DocMessage := a\<rparr>
                 | [a, b] \<Rightarrow> e\<lparr>DocMessage := a, Resource := b\<rparr>
                 | [a, b, c] \<Rightarrow> e\<lparr>DocMessage := a, Resource := b, RequestID := c\<rparr>
                 | _ \<Rightarrow> e))
      | None \<Rightarrow> ErrPlain 500 (''Unknown error '' @ Itoa errcode))"

definition resp_status :: "err_response \<Rightarrow> int" where
  "resp_status r = (case r of ErrXML st _ \<Rightarrow> st | ErrPlain st _ \<Rightarrow> st)"

section \<open>Properties\<close>

lemma table_keys:
  "set (map fst (s3RespErrorMapData_1 @ s3RespErrorMapData_2 @ s3RespErrorMapData_3 @ s3RespErrorMapData_4))
     = set s3_error_codes"
  unfolding s3_error_codes_def s3RespErrorMapData_1_def s3RespErrorMapData_2_def
    s3RespErrorMapData_3_def s3RespErrorMapData_4_def
  by (simp only: list.map append.simps fst_conv)

definition is_error_status :: "int \<times> s3RespErrorMap \<Rightarrow> bool" where
  "is_error_status p \<longleftrightarrow> 300 \<le> HttpStatus (snd p) \<and> HttpStatus (snd p) < 600"

lemma is_error_status_respmap: "is_error_status (c, respmap n name) \<longleftrightarrow> 300 \<le> n \<and> n < 600"
  by (simp add: is_error_status_def respmap_def)

lemma table_statuses:
  "list_all is_error_status s3RespErrorMapData_1" "list_all is_error_status s3RespErrorMapData_2"
  "list_all is_error_status s3RespErrorMapData_3" "list_all is_error_status s3RespErrorMapData_4"
  by (simp_all only: s3RespErrorMapData_1_def s3RespErrorMapData_2_def s3RespErrorMapData_3_def
      s3RespErrorMapData_4_def list.pred_inject is_error_status_respmap) simp_all

text \<open>
  Every error code the service declares has an entry in the response table, and none
  else has: an S3 error document is sent exactly for the declared codes, the plain
  "Unknown error" page exactly for the others, and no error is ever sent with a
  success status.
\<close>

theorem error_table_total:
  "((\<exists>m. s3RespErrorMapData c = Some m) \<longleftrightarrow> c \<in> set s3_error_codes)
    \<and> 300 \<le> resp_status (HTTPRespS3Error e) \<and> resp_status (HTTPRespS3Error e) < 600
    \<and> 300 \<le> resp_status (HTTPRespError c ps) \<and> resp_status (HTTPRespError c ps) < 600"
proof -
  have dom: "(\<exists>m. s3RespErrorMapData c = Some m) \<longleftrightarrow> c \<in> set s3_error_codes" for c
    unfolding table_keys [symmetric] s3RespErrorMapData_def
    by (metis list.set_map map_of_eq_None_iff not_None_eq append_assoc)
  have st: "300 \<le> HttpStatus m \<and> HttpStatus m < 600" if "s3RespErrorMapData c = Some m" for c m
    using map_of_SomeD [OF that [unfolded s3RespErrorMapData_def]] table_statuses
    by (fastforce simp: list_all_iff is_error_status_def)
  have "300 \<le> resp_status (HTTPRespS3Error e) \<and> resp_status (HTTPRespS3Error e) < 600"
    by (auto simp: HTTPRespS3Error_def resp_status_def st split: option.splits)
  moreover have "300 \<le> resp_status (HTTPRespError c ps) \<and> resp_status (HTTPRespError c ps) < 600"
    by (auto simp: HTTPRespError_def resp_status_def st Let_def split: option.splits)
  ultimately show ?thesis using dom by blast
qed

end
