(* ===== verification/S3_Policy.thy ===== *)
theory S3_Policy
  imports Prelude
begin

unbundle bit_operations_syntax

text \<open>
  Access policies of the S3 service: \<open>src/s3/policy.go\<close> and the policy methods of
  \<open>src/s3/mgo/bits.go\<close>. A policy names the resources (buckets) it covers and the actions it
  allows, a set of bit numbers kept as two 64-bit words in the code and as sixteen
  little-endian bytes in the database.
\<close>

type_synonym ActionBits = "64 word \<times> 64 word"
type_synonym ActionBitsMgo = "8 word list"

record Policy =
  Effect :: string
  Action :: ActionBitsMgo
  Resource :: "string list"

definition Resourse_Any :: string where "Resourse_Any = ''*''"
definition Policy_Allow :: string where "Policy_Allow = ''Allow''"
definition Policy_Deny :: string where "Policy_Deny = ''Deny''"

named_theorems s3p_defs \<open>the bit numbers of the policy actions\<close>

definition S3P_HeadBucket :: int where [s3p_defs]: "S3P_HeadBucket = 0"
definition S3P_ListAllMyBuckets :: int where [s3p_defs]: "S3P_ListAllMyBuckets = 1"
definition S3P_ListBucket :: int where [s3p_defs]: "S3P_ListBucket = 2"
definition S3P_ListObjects :: int where [s3p_defs]: "S3P_ListObjects = 3"
definition S3P_GetAccelerateConfiguration :: int where [s3p_defs]: "S3P_GetAccelerateConfiguration = 16"
definition S3P_GetAnalyticsConfiguration :: int where [s3p_defs]: "S3P_GetAnalyticsConfiguration = 17"
definition S3P_GetBucketAcl :: int where [s3p_defs]: "S3P_GetBucketAcl = 18"
definition S3P_GetBucketCORS :: int where [s3p_defs]: "S3P_GetBucketCORS = 19"
definition S3P_GetBucketLocation :: int where [s3p_defs]: "S3P_GetBucketLocation = 20"
definition S3P_GetBucketLogging :: int where [s3p_defs]: "S3P_GetBucketLogging = 21"
definition S3P_GetBucketNotification :: int where [s3p_defs]: "S3P_GetBucketNotification = 22"
definition S3P_GetBucketPolicy :: int where [s3p_defs]: "S3P_GetBucketPolicy = 23"
definition S3P_GetBucketRequestPayment :: int where [s3p_defs]: "S3P_GetBucketRequestPayment = 24"
definition S3P_GetBucketTagging :: int where [s3p_defs]: "S3P_GetBucketTagging = 25"
definition S3P_GetBucketVersioning :: int where [s3p_defs]: "S3P_GetBucketVersioning = 26"
definition S3P_GetBucketWebsite :: int where [s3p_defs]: "S3P_GetBucketWebsite = 27"
definition S3P_GetInventoryConfiguration :: int where [s3p_defs]: "S3P_GetInventoryConfiguration = 28"
definition S3P_GetIpConfiguration :: int where [s3p_defs]: "S3P_GetIpConfiguration = 29"
definition S3P_GetLifecycleConfiguration :: int where [s3p_defs]: "S3P_GetLifecycleConfiguration = 30"
definition S3P_GetMetricsConfiguration :: int where [s3p_defs]: "S3P_GetMetricsConfiguration = 31"
definition S3P_GetObject :: int where [s3p_defs]: "S3P_GetObject = 32"
definition S3P_GetObjectAcl :: int where [s3p_defs]: "S3P_GetObjectAcl = 33"
definition S3P_GetObjectTagging :: int where [s3p_defs]: "S3P_GetObjectTagging = 34"
definition S3P_GetObjectTorrent :: int where [s3p_defs]: "S3P_GetObjectTorrent = 35"
definition S3P_GetObjectVersion :: int where [s3p_defs]: "S3P_GetObjectVersion = 36"
definition S3P_GetObjectVersionAcl :: int where [s3p_defs]: "S3P_GetObjectVersionAcl = 37"
definition S3P_GetObjectVersionForReplication :: int where [s3p_defs]: "S3P_GetObjectVersionForReplication = 38"
definition S3P_GetObjectVersionTagging :: int where [s3p_defs]: "S3P_GetObjectVersionTagging = 39"
definition S3P_GetObjectVersionTorrent :: int where [s3p_defs]: "S3P_GetObjectVersionTorrent = 40"
definition S3P_GetReplicationConfiguration :: int where [s3p_defs]: "S3P_GetReplicationConfiguration = 41"
definition S3P_ListBucketByTags :: int where [s3p_defs]: "S3P_ListBucketByTags = 42"
definition S3P_ListBucketMultipartUploads :: int where [s3p_defs]: "S3P_ListBucketMultipartUploads = 43"
definition S3P_ListBucketVersions :: int where [s3p_defs]: "S3P_ListBucketVersions = 44"
definition S3P_ListMultipartUploadParts :: int where [s3p_defs]: "S3P_ListMultipartUploadParts = 45"
definition S3P_AbortMultipartUpload :: int where [s3p_defs]: "S3P_AbortMultipartUpload = 64"
definition S3P_CreateBucket :: int where [s3p_defs]: "S3P_CreateBucket = 65"
definition S3P_DeleteBucket :: int where [s3p_defs]: "S3P_DeleteBucket = 66"
definition S3P_DeleteBucketWebsite :: int where [s3p_defs]: "S3P_DeleteBucketWebsite = 67"
definition S3P_DeleteObject :: int where [s3p_defs]: "S3P_DeleteObject = 68"
definition S3P_DeleteObjectTagging :: int where [s3p_defs]: "S3P_DeleteObjectTagging = 69"
definition S3P_DeleteObjectVersion :: int where [s3p_defs]: "S3P_DeleteObjectVersion = 70"
definition S3P_DeleteObjectVersionTagging :: int where [s3p_defs]: "S3P_DeleteObjectVersionTagging = 71"
definition S3P_PutAccelerateConfiguration :: int where [s3p_defs]: "S3P_PutAccelerateConfiguration = 72"
definition S3P_PutAnalyticsConfiguration :: int where [s3p_defs]: "S3P_PutAnalyticsConfiguration = 73"
definition S3P_PutBucketCORS :: int where [s3p_defs]: "S3P_PutBucketCORS = 74"
definition S3P_PutBucketLogging :: int where [s3p_defs]: "S3P_PutBucketLogging = 75"
definition S3P_PutBucketNotification :: int where [s3p_defs]: "S3P_PutBucketNotification = 76"
definition S3P_PutBucketRequestPayment :: int where [s3p_defs]: "S3P_PutBucketRequestPayment = 77"
definition S3P_PutBucketTagging :: int where [s3p_defs]: "S3P_PutBucketTagging = 78"
definition S3P_PutBucketVersioning :: int where [s3p_defs]: "S3P_PutBucketVersioning = 79"
definition S3P_PutBucketWebsite :: int where [s3p_defs]: "S3P_PutBucketWebsite = 80"
definition S3P_PutInventoryConfiguration :: int where [s3p_defs]: "S3P_PutInventoryConfiguration = 81"
definition S3P_PutIpConfiguration :: int where [s3p_defs]: "S3P_PutIpConfiguration = 82"
definition S3P_PutLifecycleConfiguration :: int where [s3p_defs]: "S3P_PutLifecycleConfiguration = 83"
definition S3P_PutMetricsConfiguration :: int where [s3p_defs]: "S3P_PutMetricsConfiguration = 84"
definition S3P_PutObject :: int where [s3p_defs]: "S3P_PutObject = 85"
definition S3P_PutObjectTagging :: int where [s3p_defs]: "S3P_PutObjectTagging = 86"
definition S3P_PutObjectVersionTagging :: int where [s3p_defs]: "S3P_PutObjectVersionTagging = 87"
definition S3P_PutReplicationConfiguration :: int where [s3p_defs]: "S3P_PutReplicationConfiguration = 88"
definition S3P_ReplicateDelete :: int where [s3p_defs]: "S3P_ReplicateDelete = 89"
definition S3P_ReplicateObject :: int where [s3p_defs]: "S3P_ReplicateObject = 90"
definition S3P_ReplicateTags :: int where [s3p_defs]: "S3P_ReplicateTags = 91"
definition S3P_RestoreObject :: int where [s3p_defs]: "S3P_RestoreObject = 92"
definition S3P_DeleteBucketPolicy :: int where [s3p_defs]: "S3P_DeleteBucketPolicy = 93"
definition S3P_ObjectOwnerOverrideToBucketOwner :: int where [s3p_defs]: "S3P_ObjectOwnerOverrideToBucketOwner = 94"
definition S3P_PutBucketAcl :: int where [s3p_defs]: "S3P_PutBucketAcl = 95"
definition S3P_PutBucketPolicy :: int where [s3p_defs]: "S3P_PutBucketPolicy = 96"
definition S3P_PutObjectAcl :: int where [s3p_defs]: "S3P_PutObjectAcl = 97"
definition S3P_PutObjectVersionAcl :: int where [s3p_defs]: "S3P_PutObjectVersionAcl = 98"
definition S3P_All :: int where [s3p_defs]: "S3P_All = 127"

definition S3PolicyAction_Map :: "(string \<times> int) list" where
  "S3PolicyAction_Map =
    [(''s3:HeadBucket'', S3P_HeadBucket),
     (''s3:ListAllMyBuckets'', S3P_ListAllMyBuckets),
     (''s3:ListBucket'', S3P_ListBucket),
     (''s3:ListObjects'', S3P_ListObjects),
     (''s3:GetAccelerateConfiguration'', S3P_GetAccelerateConfiguration),
     (''s3:GetAnalyticsConfiguration'', S3P_GetAnalyticsConfiguration),
     (''s3:GetBucketAcl'', S3P_GetBucketAcl),
     (''s3:GetBucketCORS'', S3P_GetBucketCORS),
     (''s3:GetBucketLocation'', S3P_GetBucketLocation),
     (''s3:GetBucketLogging'', S3P_GetBucketLogging),
     (''s3:GetBucketNotification'', S3P_GetBucketNotification),
     (''s3:GetBucketPolicy'', S3P_GetBucketPolicy),
     (''s3:GetBucketRequestPayment'', S3P_GetBucketRequestPayment),
     (''s3:GetBucketTagging'', S3P_GetBucketTagging),
     (''s3:GetBucketVersioning'', S3P_GetBucketVersioning),
     (''s3:GetBucketWebsite'', S3P_GetBucketWebsite),
     (''s3:GetInventoryConfiguration'', S3P_GetInventoryConfiguration),
     (''s3:GetIpConfiguration'', S3P_GetIpConfiguration),
     (''s3:GetLifecycleConfiguration'', S3P_GetLifecycleConfiguration),
     (''s3:GetMetricsConfiguration'', S3P_GetMetricsConfiguration),
     (''s3:GetObject'', S3P_GetObject),
     (''s3:GetObjectAcl'', S3P_GetObjectAcl),
     (''s3:GetObjectTagging'', S3P_GetObjectTagging),
     (''s3:GetObjectTorrent'', S3P_GetObjectTorrent),
     (''s3:GetObjectVersion'', S3P_GetObjectVersion),
     (''s3:GetObjectVersionAcl'', S3P_GetObjectVersionAcl),
     (''s3:GetObjectVersionForReplication'', S3P_GetObjectVersionForReplication),
     (''s3:GetObjectVersionTagging'', S3P_GetObjectVersionTagging),
     (''s3:GetObjectVersionTorrent'', S3P_GetObjectVersionTorrent),
     (''s3:GetReplicationConfiguration'', S3P_GetReplicationConfiguration),
     (''s3:ListBucketByTags'', S3P_ListBucketByTags),
     (''s3:ListBucketMultipartUploads'', S3P_ListBucketMultipartUploads),
     (''s3:ListBucketVersions'', S3P_ListBucketVersions),
     (''s3:ListMultipartUploadParts'', S3P_ListMultipartUploadParts),
     (''s3:AbortMultipartUpload'', S3P_AbortMultipartUpload),
     (''s3:CreateBucket'', S3P_CreateBucket),
     (''s3:DeleteBucket'', S3P_DeleteBucket),
     (''s3:DeleteBucketWebsite'', S3P_DeleteBucketWebsite),
     (''s3:DeleteObject'', S3P_DeleteObject),
     (''s3:DeleteObjectTagging'', S3P_DeleteObjectTagging),
     (''s3:DeleteObjectVersion'', S3P_DeleteObjectVersion),
     (''s3:DeleteObjectVersionTagging'', S3P_DeleteObjectVersionTagging),
     (''s3:PutAccelerateConfiguration'', S3P_PutAccelerateConfiguration),
     (''s3:PutAnalyticsConfiguration'', S3P_PutAnalyticsConfiguration),
     (''s3:PutBucketCORS'', S3P_PutBucketCORS),
     (''s3:PutBucketLogging'', S3P_PutBucketLogging),
     (''s3:PutBucketNotification'', S3P_PutBucketNotification),
     (''s3:PutBucketRequestPayment'', S3P_PutBucketRequestPayment),
     (''s3:PutBucketTagging'', S3P_PutBucketTagging),
     (''s3:PutBucketVersioning'', S3P_PutBucketVersioning),
     (''s3:PutBucketWebsite'', S3P_PutBucketWebsite),
     (''s3:PutInventoryConfiguration'', S3P_PutInventoryConfiguration),
     (''s3:PutIpConfiguration'', S3P_PutIpConfiguration),
     (''s3:PutLifecycleConfiguration'', S3P_PutLifecycleConfiguration),
     (''s3:PutMetricsConfiguration'', S3P_PutMetricsConfiguration),
     (''s3:PutObject'', S3P_PutObject),
     (''s3:PutObjectTagging'', S3P_PutObjectTagging),
     (''s3:PutObjectVersionTagging'', S3P_PutObjectVersionTagging),
     (''s3:PutReplicationConfiguration'', S3P_PutReplicationConfiguration),
     (''s3:ReplicateDelete'', S3P_ReplicateDelete),
     (''s3:ReplicateObject'', S3P_ReplicateObject),
     (''s3:ReplicateTags'', S3P_ReplicateTags),
     (''s3:RestoreObject'', S3P_RestoreObject),
     (''s3:DeleteBucketPolicy'', S3P_DeleteBucketPolicy),
     (''s3:ObjectOwnerOverrideToBucketOwner'', S3P_ObjectOwnerOverrideToBucketOwner),
     (''s3:PutBucketAcl'', S3P_PutBucketAcl),
     (''s3:PutBucketPolicy'', S3P_PutBucketPolicy),
     (''s3:PutObjectAcl'', S3P_PutObjectAcl),
     (''s3:PutObjectVersionAcl'', S3P_PutObjectVersionAcl),
     (''s3:*'', S3P_All)]"

section \<open>Bits\<close>

primrec PutUint64 :: "nat \<Rightarrow> 64 word \<Rightarrow> 8 word list" where
  "PutUint64 0 v = []"
| "PutUint64 (Suc k) v = ucast v # PutUint64 k (drop_bit 8 v)"

primrec Uint64 :: "8 word list \<Rightarrow> 64 word" where
  "Uint64 [] = 0"
| "Uint64 (b # bs) = ucast b OR push_bit 8 (Uint64 bs)"

definition ToMgo :: "ActionBits \<Rightarrow> ActionBitsMgo" where
  "ToMgo v = PutUint64 8 (fst v) @ PutUint64 8 (snd v)"

definition ToSwy :: "ActionBitsMgo \<Rightarrow> ActionBits" where
  "ToSwy v = (Uint64 (take 8 v), Uint64 (take 8 (drop 8 v)))"

definition all_ones :: "64 word" where "all_ones = 0xffffffffffffffff"

definition bit1 :: "int \<Rightarrow> 64 word" where
  "bit1 n = push_bit (nat (n mod 2 ^ 64)) 1"

definition S3PolicyActions_AllSet :: ActionBits where
  "S3PolicyActions_AllSet = (all_ones, all_ones)"

definition S3PolicyActions_PerBucket :: ActionBits where
  "S3PolicyActions_PerBucket =
     (all_ones XOR bit1 (S3P_ListAllMyBuckets - 0),
      all_ones XOR (bit1 (S3P_CreateBucket - 64) OR bit1 (S3P_DeleteBucket - 64)
        OR bit1 (S3P_DeleteBucketPolicy - 64) OR bit1 (S3P_ObjectOwnerOverrideToBucketOwner - 64)))"

definition S3PolicyActions_Web :: ActionBits where
  "S3PolicyActions_Web = (bit1 S3P_GetObject, 0)"

definition getRootPolicy :: Policy where
  "getRootPolicy = \<lparr>Effect = Policy_Allow, Action = ToMgo S3PolicyActions_AllSet, Resource = [Resourse_Any]\<rparr>"

definition getBucketPolicy :: "string \<Rightarrow> Policy" where
  "getBucketPolicy bname =
     \<lparr>Effect = Policy_Allow, Action = ToMgo S3PolicyActions_PerBucket, Resource = [bname]\<rparr>"

definition getWebPolicy :: "string \<Rightarrow> Policy" where
  "getWebPolicy bname =
     \<lparr>Effect = Policy_Allow, Action = ToMgo S3PolicyActions_Web, Resource = [bname]\<rparr>"

text \<open>A nil policy pointer is \<open>None\<close>.\<close>

definition isCanned :: "Policy option \<Rightarrow> bool" where
  "isCanned policy = (case policy of None \<Rightarrow> False
     | Some p \<Rightarrow> Effect p = Policy_Allow \<and> length (Resource p) > 0)"

definition isRoot :: "Policy option \<Rightarrow> bool" where
  "isRoot policy =
     (if isCanned policy then
        (let p = the policy
         in Action p = ToMgo S3PolicyActions_AllSet \<and> hd (Resource p) = Resourse_Any)
      else False)"

definition PolicyEqual :: "Policy \<Rightarrow> Policy \<Rightarrow> bool" where
  "PolicyEqual policy dst \<longleftrightarrow> policy = dst"

definition MayAccess :: "Policy \<Rightarrow> string \<Rightarrow> bool" where
  "MayAccess policy resource \<longleftrightarrow>
     (length (Resource policy) > 0 \<and> hd (Resource policy) = Resourse_Any)
     \<or> (\<exists>x \<in> set (Resource policy). x = resource)"

definition Allowed :: "Policy \<Rightarrow> int \<Rightarrow> bool" where
  "Allowed policy action =
     (let bits = ToSwy (Action policy)
      in if action < 64 then fst bits AND bit1 action \<noteq> 0
         else snd bits AND bit1 (action - 64) \<noteq> 0)"

section \<open>Properties\<close>

lemma length_PutUint64 [simp]: "length (PutUint64 k v) = k"
  by (induction k arbitrary: v) auto

lemma Uint64_PutUint64: "Uint64 (PutUint64 k v) = take_bit (8 * k) v"
proof (induction k arbitrary: v)
  case 0
  then show ?case by simp
next
  case (Suc k)
  show ?case
    by (rule bit_word_eqI) (auto simp: Suc bit_simps)
qed

lemma ToSwy_ToMgo [simp]: "ToSwy (ToMgo v) = v"
proof -
  have "take_bit 64 (x :: 64 word) = x" for x
    by (rule bit_word_eqI) (simp add: bit_simps)
  then show ?thesis by (simp add: ToSwy_def ToMgo_def Uint64_PutUint64)
qed

lemma ToMgo_inj: "ToMgo a = ToMgo b \<longleftrightarrow> a = b"
  by (metis ToSwy_ToMgo)

lemma and_bit1: "0 \<le> n \<Longrightarrow> n < 64 \<Longrightarrow> (w AND bit1 n \<noteq> 0) \<longleftrightarrow> bit w (nat n)"
  by (simp add: bit1_def push_bit_of_1 and_exp_eq_0_iff_not_bit)

lemma bit_all_ones: "bit all_ones n \<longleftrightarrow> n < 64"
proof -
  have "all_ones = - 1" by (simp add: all_ones_def)
  moreover have "bit (- 1 :: 64 word) n \<longleftrightarrow> n < 64"
    by (simp only: bit_minus_1_iff possible_bit_word) simp
  ultimately show ?thesis by (simp only:)
qed

lemma bit_bit1: "0 \<le> m \<Longrightarrow> m < 64 \<Longrightarrow> bit (bit1 m) n \<longleftrightarrow> n = nat m"
  by (auto simp: bit1_def bit_simps)

lemma Allowed_ToMgo:
  assumes "Action p = ToMgo bits" and "0 \<le> a" and "a < 128"
  shows "Allowed p a \<longleftrightarrow> (if a < 64 then bit (fst bits) (nat a) else bit (snd bits) (nat (a - 64)))"
  using assms by (simp add: Allowed_def and_bit1)

text \<open>
  The stored form of an action set loses nothing: decoding the sixteen bytes gives back
  the two words that were encoded, so two policies store the same bytes exactly when they
  allow the same actions.
\<close>

theorem action_bits_roundtrip:
  "ToSwy (ToMgo v) = v \<and> length (ToMgo v) = 16 \<and> (ToMgo v = ToMgo u \<longleftrightarrow> v = u)"
  by (metis ToSwy_ToMgo ToMgo_def length_append length_PutUint64 numeral_Bit0)

text \<open>
  C24. What each canned policy grants. The root policy allows every action on every bucket
  and is recognised by \<open>isRoot\<close>; a per-bucket policy covers its own bucket only, and allows
  everything but listing, creating and deleting buckets, deleting a bucket policy and
  overriding the object owner; a web policy allows nothing but reading objects of its
  bucket. Neither of the last two is ever taken for root.
\<close>

theorem canned_policies:
  assumes "0 \<le> a" and "a < 128" and "bname \<noteq> Resourse_Any"
  shows "Allowed getRootPolicy a \<and> MayAccess getRootPolicy r \<and> isRoot (Some getRootPolicy)
    \<and> (Allowed (getBucketPolicy bname) a \<longleftrightarrow>
         a \<notin> {S3P_ListAllMyBuckets, S3P_CreateBucket, S3P_DeleteBucket,
              S3P_DeleteBucketPolicy, S3P_ObjectOwnerOverrideToBucketOwner})
    \<and> (MayAccess (getBucketPolicy bname) r \<longleftrightarrow> r = bname) \<and> \<not> isRoot (Some (getBucketPolicy bname))
    \<and> (Allowed (getWebPolicy bname) a \<longleftrightarrow> a = S3P_GetObject)
    \<and> (MayAccess (getWebPolicy bname) r \<longleftrightarrow> r = bname) \<and> \<not> isRoot (Some (getWebPolicy bname))"
proof -
  have root: "Allowed getRootPolicy a"
    using assms(1,2) by (subst Allowed_ToMgo [where bits = S3PolicyActions_AllSet])
      (auto simp: getRootPolicy_def S3PolicyActions_AllSet_def bit_all_ones)
  have bucket: "Allowed (getBucketPolicy bname) a \<longleftrightarrow>
         a \<notin> {S3P_ListAllMyBuckets, S3P_CreateBucket, S3P_DeleteBucket,
              S3P_DeleteBucketPolicy, S3P_ObjectOwnerOverrideToBucketOwner}"
    using assms(1,2) by (subst Allowed_ToMgo [where bits = S3PolicyActions_PerBucket])
      (auto simp: getBucketPolicy_def S3PolicyActions_PerBucket_def bit_all_ones bit_bit1 s3p_defs
         bit_xor_iff bit_or_iff)
  have web: "Allowed (getWebPolicy bname) a \<longleftrightarrow> a = S3P_GetObject"
    using assms(1,2) by (subst Allowed_ToMgo [where bits = S3PolicyActions_Web])
      (auto simp: getWebPolicy_def S3PolicyActions_Web_def bit_bit1 s3p_defs)
  have "MayAccess getRootPolicy r \<and> isRoot (Some getRootPolicy)"
    "MayAccess (getBucketPolicy bname) r \<longleftrightarrow> r = bname" "\<not> isRoot (Some (getBucketPolicy bname))"
    "MayAccess (getWebPolicy bname) r \<longleftrightarrow> r = bname" "\<not> isRoot (Some (getWebPolicy bname))"
    using assms(3)
    by (auto simp: getRootPolicy_def getBucketPolicy_def getWebPolicy_def MayAccess_def isRoot_def isCanned_def)
  with root bucket web show ?thesis by blast
qed

theorem canned_policies_witness:
  "Allowed getRootPolicy 65 \<and> \<not> Allowed (getBucketPolicy ''b'') 65 \<and> Allowed (getBucketPolicy ''b'') 85
    \<and> \<not> Allowed (getWebPolicy ''b'') 85"
proof -
  have b: "''b'' \<noteq> Resourse_Any" by (simp add: Resourse_Any_def)
  show ?thesis
    using canned_policies [of 65 "''b''", OF _ _ b] canned_policies [of 85 "''b''", OF _ _ b]
    by (simp add: s3p_defs)
qed

end
