(* ===== verification/Crypt.thy ===== *)
theory Crypt
  imports Go_Strings
begin

text \<open>
  The string encryption the services keep secrets with, \<open>src/common/crypt.go\<close>: padding to
  the AES block, a random nonce in front, hexadecimal output. The block cipher in CFB mode is
  the parameter \<open>cfb\<close> (\<open>crypto/aes\<close> and \<open>crypto/cipher\<close>): \<open>cfb_new\<close> says whether a key is
  accepted, \<open>cfb_enc\<close> and \<open>cfb_dec\<close> run the key stream over a message.
\<close>

record cfb =
  cfb_new :: "string \<Rightarrow> bool"
  cfb_enc :: "string \<Rightarrow> string \<Rightarrow> string \<Rightarrow> string"
  cfb_dec :: "string \<Rightarrow> string \<Rightarrow> string \<Rightarrow> string"

text \<open>The documented behaviour of a cipher stream: it keeps the length, and decryption with the
  same key and nonce undoes encryption.\<close>

definition cfb_ok :: "cfb \<Rightarrow> bool" where
  "cfb_ok C \<longleftrightarrow> (\<forall>k n m. length (cfb_enc C k n m) = length m \<and> cfb_dec C k n (cfb_enc C k n m) = m)"

definition BlockSize :: nat where "BlockSize = 16"

section \<open>Package encoding/hex\<close>

definition hex_digit :: "nat \<Rightarrow> char" where
  "hex_digit n = char_of (if n < 10 then 48 + n else 87 + n)"

definition unhex_digit :: "char \<Rightarrow> nat option" where
  "unhex_digit c = (let n = of_char c :: nat in
     if 48 \<le> n \<and> n \<le> 57 then Some (n - 48)
     else if 97 \<le> n \<and> n \<le> 102 then Some (n - 87)
     else if 65 \<le> n \<and> n \<le> 70 then Some (n - 55) else None)"

definition hex_EncodeToString :: "string \<Rightarrow> string" where
  "hex_EncodeToString s = concat (map (\<lambda>c. [hex_digit (of_char c div 16), hex_digit (of_char c mod 16)]) s)"

fun hex_DecodeString :: "string \<Rightarrow> string option" where
  "hex_DecodeString [] = Some []"
| "hex_DecodeString [c] = None"
| "hex_DecodeString (a # b # s) =
     (case (unhex_digit a, unhex_digit b, hex_DecodeString s) of
        (Some x, Some y, Some t) \<Rightarrow> Some (char_of (16 * x + y) # t) | _ \<Rightarrow> None)"

lemma unhex_hex [simp]: "n < 16 \<Longrightarrow> unhex_digit (hex_digit n) = Some n"
  by (auto simp: unhex_digit_def hex_digit_def)

lemma hex_roundtrip [simp]: "hex_DecodeString (hex_EncodeToString s) = Some s"
proof (induction s)
  case Nil
  then show ?case by (simp add: hex_EncodeToString_def)
next
  case (Cons c s)
  have "(of_char c :: nat) div 16 < 16"
    using nat_of_char_less_256 [of c] by (simp add: less_mult_imp_div_less)
  moreover have "char_of (16 * (of_char c div 16) + of_char c mod 16 :: nat) = c" by simp
  ultimately show ?case using Cons by (simp add: hex_EncodeToString_def)
qed

section \<open>Padding and encryption\<close>

definition aesPad :: "string \<Rightarrow> string" where
  "aesPad buf = (let padsz = BlockSize - length buf mod BlockSize
                 in buf @ replicate padsz (char_of padsz))"

text \<open>\<open>aesUnpad\<close> indexes the last byte, which panics on an empty buffer; \<open>None\<close> is the nil it
  returns when the padding is longer than the buffer.\<close>

definition aesUnpad :: "string \<Rightarrow> (unit, string option) res" where
  "aesUnpad buf =
     (if buf = [] then Panic
      else let padsz = of_char (last buf)
           in Ok (if padsz > length buf then None else Some (take (length buf - padsz) buf)))"

datatype crypt_err =
  NonceErr | CipherErr | BadHex | BadSize | UnpadErr

definition EncryptString :: "cfb \<Rightarrow> string option \<Rightarrow> string \<Rightarrow> string \<Rightarrow> (crypt_err, string) res" where
  "EncryptString C rand key plain =
     (let msg = aesPad plain; key = take 16 key
      in case rand of
           None \<Rightarrow> Err NonceErr
         | Some nonce \<Rightarrow>
             if \<not> cfb_new C key then Err CipherErr
             else Ok (hex_EncodeToString (nonce @ cfb_enc C key nonce msg)))"

definition DecryptString :: "cfb \<Rightarrow> string \<Rightarrow> string \<Rightarrow> (crypt_err, string) res" where
  "DecryptString C key ciphertext =
     (let key = take 16 key
      in case hex_DecodeString ciphertext of
           None \<Rightarrow> Err BadHex
         | Some ciphermsg \<Rightarrow>
             if length ciphermsg mod BlockSize \<noteq> 0 then Err BadSize
             else if length ciphermsg < BlockSize then Panic
             else if \<not> cfb_new C key then Err CipherErr
             else (case aesUnpad (cfb_dec C key (take BlockSize ciphermsg) (drop BlockSize ciphermsg)) of
                     Panic \<Rightarrow> Panic
                   | Err _ \<Rightarrow> Panic
                   | Ok None \<Rightarrow> Err UnpadErr
                   | Ok (Some umsg) \<Rightarrow> Ok umsg))"

section \<open>Properties\<close>

lemma aesPad_length: "length (aesPad s) mod BlockSize = 0"
proof -
  have "length s + (16 - length s mod 16) = 16 * (length s div 16 + 1)" by presburger
  then have "length (aesPad s) = 16 * (length s div 16 + 1)"
    by (simp add: aesPad_def BlockSize_def Let_def)
  then show ?thesis by (simp add: BlockSize_def)
qed

lemma aesUnpad_aesPad: "aesUnpad (aesPad s) = Ok (Some s)"
proof -
  define k where "k = 16 - length s mod 16"
  have k: "0 < k" "k \<le> 16" by (auto simp: k_def)
  then have "of_char (char_of k :: char) = k" by simp
  with k show ?thesis
    by (simp add: aesUnpad_def aesPad_def BlockSize_def Let_def k_def [symmetric])
qed

lemma EncryptString_opens:
  assumes "cfb_ok C" and "length nonce = BlockSize" and "EncryptString C (Some nonce) key plain = Ok ct"
  shows "DecryptString C key ct = Ok plain"
proof -
  let ?m = "cfb_enc C (take 16 key) nonce (aesPad plain)"
  have new: "cfb_new C (take 16 key)" and ct: "ct = hex_EncodeToString (nonce @ ?m)"
    using assms(3) by (auto simp: EncryptString_def Let_def split: if_splits)
  have len: "length ?m = length (aesPad plain)" "cfb_dec C (take 16 key) nonce ?m = aesPad plain"
    using assms(1) by (auto simp: cfb_ok_def)
  have "length (nonce @ ?m) mod BlockSize = 0"
    using aesPad_length [of plain] by (simp add: len assms(2))
  then show ?thesis unfolding ct using assms(2) new by (simp add: DecryptString_def len aesUnpad_aesPad)
qed

text \<open>
  C33. What \<open>EncryptString\<close> seals, \<open>DecryptString\<close> opens: with a 16-byte nonce, a key the
  cipher accepts and a well-behaved cipher, encryption succeeds and decryption returns the
  original text, whatever its length.
\<close>

theorem crypt_roundtrip:
  assumes "cfb_ok C" and "length nonce = BlockSize" and "cfb_new C (take 16 key)"
  shows "\<exists>ct. EncryptString C (Some nonce) key plain = Ok ct \<and> DecryptString C key ct = Ok plain"
proof -
  obtain ct where "EncryptString C (Some nonce) key plain = Ok ct" using assms(3) by (simp add: EncryptString_def)
  then show ?thesis using EncryptString_opens [OF assms(1,2)] by blast
qed

theorem crypt_roundtrip_witness:
  "let C = \<lparr>cfb_new = (\<lambda>k. length k = 16), cfb_enc = (\<lambda>k n m. rev m), cfb_dec = (\<lambda>k n m. rev m)\<rparr>;
       nonce = replicate 16 (CHR ''n''); key = replicate 20 (CHR ''k'')
   in \<exists>ct. EncryptString C (Some nonce) key ''secret'' = Ok ct \<and> DecryptString C key ct = Ok ''secret''"
proof -
  let ?C = "\<lparr>cfb_new = (\<lambda>k. length k = 16), cfb_enc = (\<lambda>k n m. rev m), cfb_dec = (\<lambda>k n m. rev m)\<rparr>"
  have "cfb_ok ?C" by (simp add: cfb_ok_def)
  then have "\<exists>ct. EncryptString ?C (Some (replicate 16 (CHR ''n''))) (replicate 20 (CHR ''k'')) ''secret'' = Ok ct
     \<and> DecryptString ?C (replicate 20 (CHR ''k'')) ct = Ok ''secret''"
    by (rule crypt_roundtrip) (simp_all add: BlockSize_def)
  then show ?thesis by (simp only: Let_def)
qed

text \<open>
  Stored cipher texts without a payload crash the reader: \<open>DecryptString\<close> panics on an
  empty cipher text, and on one that holds the nonce alone, instead of returning an error.
\<close>

theorem DecryptString_short_panics:
  assumes "cfb_ok C" and "cfb_new C (take 16 key)" and "length nonce = BlockSize"
  shows "DecryptString C key [] = Panic \<and> DecryptString C key (hex_EncodeToString nonce) = Panic"
proof -
  have "cfb_dec C (take 16 key) nonce [] = []"
    using assms(1) by (metis cfb_ok_def length_0_conv)
  then show ?thesis using assms(2,3) by (simp add: DecryptString_def aesUnpad_def BlockSize_def)
qed

theorem DecryptString_short_panics_witness:
  "let C = \<lparr>cfb_new = (\<lambda>k. True), cfb_enc = (\<lambda>k n m. m), cfb_dec = (\<lambda>k n m. m)\<rparr>
   in DecryptString C ''k'' [] = Panic \<and> DecryptString C ''k'' (hex_EncodeToString (replicate 16 (CHR ''n''))) = Panic"
  unfolding Let_def
  by (rule DecryptString_short_panics) (simp_all add: cfb_ok_def BlockSize_def)

lemma hex_length: "length (hex_EncodeToString s) = 2 * length s"
  by (induction s) (simp_all add: hex_EncodeToString_def)

text \<open>A ciphertext is more than twice as long as the text.\<close>

lemma EncryptString_longer:
  assumes "cfb_ok C" and "EncryptString C rand key plain = Ok ct"
  shows "2 * length plain < length ct"
proof -
  have "length (cfb_enc C (take 16 key) n (aesPad plain)) = length (aesPad plain)" for n using assms(1) by (simp add: cfb_ok_def)
  moreover have "length plain < length (aesPad plain)" by (simp add: aesPad_def BlockSize_def Let_def)
  ultimately show ?thesis
    using assms(2) by (auto simp: EncryptString_def hex_length Let_def split: option.splits if_splits)
qed

end
