(* ===== verification/S3_Types.thy ===== *)
theory S3_Types
  imports S3_Policy S3_Error Crypt
begin

text \<open>
  The documents of the S3 service (\<open>src/s3/mgo/types.go\<close>, \<open>src/s3/upload.go\<close>,
  \<open>src/s3/bucket.go\<close>) and the outside world its handlers run in.

  Documents live in MongoDB collections and pass through the untyped \<open>interface{}\<close> of the
  database wrappers, here the datatype \<open>doc\<close>. Everything the service does not implement
  itself is a field of the environment \<open>env\<close>, an argument of every definition that uses it:
  the database server, object ids, the clock, random bytes, digests, the cipher, the RADOS
  store, the message broker, and the limits an
  administrator may change at run time. Field names carry the initials of their struct.
\<close>

type_synonym oid = string

datatype goerr = ErrNotFound | DbErr string | GoErr string

fun err_msg :: "goerr \<Rightarrow> string" where
  "err_msg ErrNotFound = ''not found''"
| "err_msg (DbErr e) = e"
| "err_msg (GoErr e) = e"

definition S3StateNone :: int where "S3StateNone = 0"
definition S3StateActive :: int where "S3StateActive = 1"
definition S3StateInactive :: int where "S3StateInactive = 2"

lemmas state_defs = S3StateNone_def S3StateActive_def S3StateInactive_def

section \<open>Documents\<close>

record Account =
  ac_ObjID :: oid
  ac_MTime :: int
  ac_State :: int
  ac_AwsID :: string
  ac_Namespace :: string
  ac_CreationTime :: string
  ac_User :: string
  ac_Email :: string

record AcctLimits =
  lim_CntBytes :: int
  lim_OutBytesTot :: int

record AcctStats =
  st_ObjID :: oid
  st_NamespaceID :: string
  st_CntObjects :: int
  st_CntBytes :: int
  st_OutBytes :: int
  st_OutBytesWeb :: int
  st_OutBytesTotOff :: int
  st_Dirty :: "oid option"
  st_Till :: "int option"
  st_Lim :: "AcctLimits option"

record Iam =
  iam_ObjID :: oid
  iam_MTime :: int
  iam_State :: int
  iam_AwsID :: string
  iam_AccountObjID :: oid
  iam_Policy :: Policy
  iam_CreationTime :: string
  iam_User :: string

definition TimeStampMax :: int where "TimeStampMax = 0x7fffffffffffffff"

record AccessKey =
  k_ObjID :: oid
  k_MTime :: int
  k_State :: int
  k_AccountObjID :: oid
  k_IamObjID :: oid
  k_CreationTimestamp :: int
  k_ExpirationTimestamp :: int
  k_AccessKeyID :: string
  k_AccessKeySecret :: string

record BucketNotify =
  n_Queue :: string
  n_Put :: int
  n_Delete :: int

record Tag =
  tag_Key :: string
  tag_Value :: string

record BucketEncrypt =
  enc_Algo :: string
  enc_MasterKeyID :: string

record Bucket =
  b_ObjID :: oid
  b_BCookie :: string
  b_MTime :: int
  b_State :: int
  b_NamespaceID :: string
  b_CreationTime :: string
  b_Versioning :: bool
  b_TagSet :: "Tag list"
  b_Encrypt :: BucketEncrypt
  b_Location :: string
  b_Policy :: string
  b_Logging :: bool
  b_Lifecycle :: string
  b_RequestPayment :: string
  b_Ref :: int
  b_CntObjects :: int
  b_CntBytes :: int
  b_Rover :: int
  b_Name :: string
  b_CannedAcl :: string
  b_BasicNotify :: "BucketNotify option"
  b_MaxObjects :: int
  b_MaxBytes :: int

record ObjectProps =
  op_CreationTime :: string
  op_Acl :: string
  op_Key :: string
  op_Meta :: "Tag list"
  op_TagSet :: "Tag list"
  op_Policy :: string

record Object =
  o_ObjID :: oid
  o_OCookie :: string
  o_MTime :: int
  o_State :: int
  o_BucketObjID :: oid
  o_Version :: int
  o_Rover :: int
  o_Size :: int
  o_ETag :: string
  o_Props :: ObjectProps

text \<open>\<open>p_Data\<close> is \<open>None\<close> for a nil slice: such a part keeps its bytes in chunks or in RADOS.\<close>

record ObjectPart =
  p_ObjID :: oid
  p_MTime :: int
  p_State :: int
  p_RefID :: oid
  p_BCookie :: string
  p_OCookie :: string
  p_CreationTime :: string
  p_Size :: int
  p_Part :: int
  p_ETag :: string
  p_Data :: "string option"
  p_Chunks :: "oid list"

record DataChunk =
  c_ObjID :: oid
  c_Bytes :: string

record S3Upload =
  u_ObjID :: oid
  u_IamObjID :: oid
  u_MTime :: int
  u_State :: int
  u_BucketObjID :: oid
  u_UploadID :: string
  u_Ref :: int
  u_Lock :: int
  u_Props :: ObjectProps

record S3Website =
  ws_ObjID :: oid
  ws_State :: int
  ws_BCookie :: string
  ws_IdxDoc :: string
  ws_ErrDoc :: string

text \<open>Zero values, from which struct literals and partial decodings start.\<close>

definition zero_Policy :: Policy where
  "zero_Policy = \<lparr>Effect = [], Action = replicate 16 0, Resource = []\<rparr>"

definition zero_Account :: Account where
  "zero_Account = \<lparr>ac_ObjID = [], ac_MTime = 0, ac_State = 0, ac_AwsID = [], ac_Namespace = [],
     ac_CreationTime = [], ac_User = [], ac_Email = []\<rparr>"

definition zero_AcctStats :: AcctStats where
  "zero_AcctStats = \<lparr>st_ObjID = [], st_NamespaceID = [], st_CntObjects = 0, st_CntBytes = 0, st_OutBytes = 0,
     st_OutBytesWeb = 0, st_OutBytesTotOff = 0, st_Dirty = None, st_Till = None, st_Lim = None\<rparr>"

definition zero_Iam :: Iam where
  "zero_Iam = \<lparr>iam_ObjID = [], iam_MTime = 0, iam_State = 0, iam_AwsID = [], iam_AccountObjID = [],
     iam_Policy = zero_Policy, iam_CreationTime = [], iam_User = []\<rparr>"

definition zero_AccessKey :: AccessKey where
  "zero_AccessKey = \<lparr>k_ObjID = [], k_MTime = 0, k_State = 0, k_AccountObjID = [], k_IamObjID = [],
     k_CreationTimestamp = 0, k_ExpirationTimestamp = 0, k_AccessKeyID = [], k_AccessKeySecret = []\<rparr>"

definition zero_Bucket :: Bucket where
  "zero_Bucket = \<lparr>b_ObjID = [], b_BCookie = [], b_MTime = 0, b_State = 0, b_NamespaceID = [],
     b_CreationTime = [], b_Versioning = False, b_TagSet = [],
     b_Encrypt = \<lparr>enc_Algo = [], enc_MasterKeyID = []\<rparr>, b_Location = [], b_Policy = [],
     b_Logging = False, b_Lifecycle = [], b_RequestPayment = [], b_Ref = 0, b_CntObjects = 0,
     b_CntBytes = 0, b_Rover = 0, b_Name = [], b_CannedAcl = [], b_BasicNotify = None,
     b_MaxObjects = 0, b_MaxBytes = 0\<rparr>"

definition zero_ObjectProps :: ObjectProps where
  "zero_ObjectProps = \<lparr>op_CreationTime = [], op_Acl = [], op_Key = [], op_Meta = [], op_TagSet = [],
     op_Policy = []\<rparr>"

definition zero_Object :: Object where
  "zero_Object = \<lparr>o_ObjID = [], o_OCookie = [], o_MTime = 0, o_State = 0, o_BucketObjID = [],
     o_Version = 0, o_Rover = 0, o_Size = 0, o_ETag = [], o_Props = zero_ObjectProps\<rparr>"

definition zero_ObjectPart :: ObjectPart where
  "zero_ObjectPart = \<lparr>p_ObjID = [], p_MTime = 0, p_State = 0, p_RefID = [], p_BCookie = [], p_OCookie = [],
     p_CreationTime = [], p_Size = 0, p_Part = 0, p_ETag = [], p_Data = None, p_Chunks = []\<rparr>"

definition zero_DataChunk :: DataChunk where
  "zero_DataChunk = \<lparr>c_ObjID = [], c_Bytes = []\<rparr>"

definition zero_S3Upload :: S3Upload where
  "zero_S3Upload = \<lparr>u_ObjID = [], u_IamObjID = [], u_MTime = 0, u_State = 0, u_BucketObjID = [],
     u_UploadID = [], u_Ref = 0, u_Lock = 0, u_Props = zero_ObjectProps\<rparr>"

definition zero_S3Website :: S3Website where
  "zero_S3Website = \<lparr>ws_ObjID = [], ws_State = 0, ws_BCookie = [], ws_IdxDoc = [], ws_ErrDoc = []\<rparr>"

datatype doc =
    DAccount Account | DIam Iam | DStats AcctStats | DKey AccessKey | DBucket Bucket
  | DObject Object | DPart ObjectPart | DChunk DataChunk | DUpload S3Upload | DWebsite S3Website

datatype coll =
    S3Iams | S3Stats | S3AccessKeys | S3Buckets | S3Objects | S3Uploads | S3ObjectData
  | S3DataChunks | S3Websites

text \<open>The collection of a document type (the table \<open>dbColMap\<close>); accounts and iams share one.\<close>

fun dbColl :: "doc \<Rightarrow> coll" where
  "dbColl (DAccount _) = S3Iams"
| "dbColl (DIam _) = S3Iams"
| "dbColl (DStats _) = S3Stats"
| "dbColl (DKey _) = S3AccessKeys"
| "dbColl (DBucket _) = S3Buckets"
| "dbColl (DObject _) = S3Objects"
| "dbColl (DPart _) = S3ObjectData"
| "dbColl (DChunk _) = S3DataChunks"
| "dbColl (DUpload _) = S3Uploads"
| "dbColl (DWebsite _) = S3Websites"

fun doc_id :: "doc \<Rightarrow> oid" where
  "doc_id (DAccount x) = ac_ObjID x"
| "doc_id (DIam x) = iam_ObjID x"
| "doc_id (DStats x) = st_ObjID x"
| "doc_id (DKey x) = k_ObjID x"
| "doc_id (DBucket x) = b_ObjID x"
| "doc_id (DObject x) = o_ObjID x"
| "doc_id (DPart x) = p_ObjID x"
| "doc_id (DChunk x) = c_ObjID x"
| "doc_id (DUpload x) = u_ObjID x"
| "doc_id (DWebsite x) = ws_ObjID x"

text \<open>The \<open>state\<close> field; chunks and stats have none.\<close>

fun doc_state :: "doc \<Rightarrow> int option" where
  "doc_state (DAccount x) = Some (ac_State x)"
| "doc_state (DIam x) = Some (iam_State x)"
| "doc_state (DStats x) = None"
| "doc_state (DKey x) = Some (k_State x)"
| "doc_state (DBucket x) = Some (b_State x)"
| "doc_state (DObject x) = Some (o_State x)"
| "doc_state (DPart x) = Some (p_State x)"
| "doc_state (DChunk x) = None"
| "doc_state (DUpload x) = Some (u_State x)"
| "doc_state (DWebsite x) = Some (ws_State x)"

fun set_state :: "int \<Rightarrow> doc \<Rightarrow> doc" where
  "set_state s (DAccount x) = DAccount (x\<lparr>ac_State := s\<rparr>)"
| "set_state s (DIam x) = DIam (x\<lparr>iam_State := s\<rparr>)"
| "set_state s (DStats x) = DStats x"
| "set_state s (DKey x) = DKey (x\<lparr>k_State := s\<rparr>)"
| "set_state s (DBucket x) = DBucket (x\<lparr>b_State := s\<rparr>)"
| "set_state s (DObject x) = DObject (x\<lparr>o_State := s\<rparr>)"
| "set_state s (DPart x) = DPart (x\<lparr>p_State := s\<rparr>)"
| "set_state s (DChunk x) = DChunk x"
| "set_state s (DUpload x) = DUpload (x\<lparr>u_State := s\<rparr>)"
| "set_state s (DWebsite x) = DWebsite (x\<lparr>ws_State := s\<rparr>)"

fun set_mtime :: "int \<Rightarrow> doc \<Rightarrow> doc" where
  "set_mtime t (DAccount x) = DAccount (x\<lparr>ac_MTime := t\<rparr>)"
| "set_mtime t (DIam x) = DIam (x\<lparr>iam_MTime := t\<rparr>)"
| "set_mtime t (DKey x) = DKey (x\<lparr>k_MTime := t\<rparr>)"
| "set_mtime t (DBucket x) = DBucket (x\<lparr>b_MTime := t\<rparr>)"
| "set_mtime t (DObject x) = DObject (x\<lparr>o_MTime := t\<rparr>)"
| "set_mtime t (DPart x) = DPart (x\<lparr>p_MTime := t\<rparr>)"
| "set_mtime t (DUpload x) = DUpload (x\<lparr>u_MTime := t\<rparr>)"
| "set_mtime t d = d"

text \<open>The server gives a document it upserts the \<open>_id\<close> of the update or a fresh one.\<close>

fun set_id :: "oid \<Rightarrow> doc \<Rightarrow> doc" where
  "set_id i (DAccount x) = DAccount (x\<lparr>ac_ObjID := i\<rparr>)"
| "set_id i (DIam x) = DIam (x\<lparr>iam_ObjID := i\<rparr>)"
| "set_id i (DStats x) = DStats (x\<lparr>st_ObjID := i\<rparr>)"
| "set_id i (DKey x) = DKey (x\<lparr>k_ObjID := i\<rparr>)"
| "set_id i (DBucket x) = DBucket (x\<lparr>b_ObjID := i\<rparr>)"
| "set_id i (DObject x) = DObject (x\<lparr>o_ObjID := i\<rparr>)"
| "set_id i (DPart x) = DPart (x\<lparr>p_ObjID := i\<rparr>)"
| "set_id i (DChunk x) = DChunk (x\<lparr>c_ObjID := i\<rparr>)"
| "set_id i (DUpload x) = DUpload (x\<lparr>u_ObjID := i\<rparr>)"
| "set_id i (DWebsite x) = DWebsite (x\<lparr>ws_ObjID := i\<rparr>)"

text \<open>The unique sparse indices \<open>dbConnect\<close> creates: the indexed values a document has. A field
  declared \<open>omitempty\<close> is absent when empty.\<close>

definition sparse :: "string \<Rightarrow> string \<Rightarrow> (string \<times> string) list" where
  "sparse f v = (if v = [] then [] else [(f, v)])"

fun unique_keys :: "doc \<Rightarrow> (string \<times> string) list" where
  "unique_keys (DAccount x) = sparse ''namespace'' (ac_Namespace x) @ sparse ''user'' (ac_User x)"
| "unique_keys (DIam x) = sparse ''user'' (iam_User x)"
| "unique_keys (DBucket x) = sparse ''bcookie'' (b_BCookie x)"
| "unique_keys (DWebsite x) = sparse ''bcookie'' (ws_BCookie x)"
| "unique_keys (DUpload x) = [(''uid'', u_UploadID x)]"
| "unique_keys (DKey x) = [(''access-key-id'', k_AccessKeyID x)]"
| "unique_keys _ = []"

text \<open>Decoding a found document into the struct the caller passed. An account read as an iam (or
  the reverse) fills the fields the two have in common.\<close>

fun as_Iam :: "doc \<Rightarrow> Iam" where
  "as_Iam (DIam x) = x"
| "as_Iam (DAccount a) = zero_Iam\<lparr>iam_ObjID := ac_ObjID a, iam_MTime := ac_MTime a, iam_State := ac_State a,
     iam_AwsID := ac_AwsID a, iam_CreationTime := ac_CreationTime a, iam_User := ac_User a\<rparr>"
| "as_Iam _ = zero_Iam"

fun as_Account :: "doc \<Rightarrow> Account" where
  "as_Account (DAccount x) = x"
| "as_Account (DIam i) = zero_Account\<lparr>ac_ObjID := iam_ObjID i, ac_MTime := iam_MTime i, ac_State := iam_State i,
     ac_AwsID := iam_AwsID i, ac_CreationTime := iam_CreationTime i, ac_User := iam_User i\<rparr>"
| "as_Account _ = zero_Account"

definition as_Stats :: "doc \<Rightarrow> AcctStats" where
  "as_Stats d = (case d of DStats x \<Rightarrow> x | _ \<Rightarrow> zero_AcctStats)"
definition as_Key :: "doc \<Rightarrow> AccessKey" where
  "as_Key d = (case d of DKey x \<Rightarrow> x | _ \<Rightarrow> zero_AccessKey)"
definition as_Bucket :: "doc \<Rightarrow> Bucket" where
  "as_Bucket d = (case d of DBucket x \<Rightarrow> x | _ \<Rightarrow> zero_Bucket)"
definition as_Object :: "doc \<Rightarrow> Object" where
  "as_Object d = (case d of DObject x \<Rightarrow> x | _ \<Rightarrow> zero_Object)"
definition as_Part :: "doc \<Rightarrow> ObjectPart" where
  "as_Part d = (case d of DPart x \<Rightarrow> x | _ \<Rightarrow> zero_ObjectPart)"
definition as_Chunk :: "doc \<Rightarrow> DataChunk" where
  "as_Chunk d = (case d of DChunk x \<Rightarrow> x | _ \<Rightarrow> zero_DataChunk)"
definition as_Upload :: "doc \<Rightarrow> S3Upload" where
  "as_Upload d = (case d of DUpload x \<Rightarrow> x | _ \<Rightarrow> zero_S3Upload)"
definition as_Website :: "doc \<Rightarrow> S3Website" where
  "as_Website d = (case d of DWebsite x \<Rightarrow> x | _ \<Rightarrow> zero_S3Website)"

lemma as_eqs [simp]:
  "as_Stats (DStats a) = a" "as_Key (DKey k) = k" "as_Bucket (DBucket b) = b" "as_Object (DObject x) = x"
  "as_Part (DPart p) = p" "as_Chunk (DChunk c) = c" "as_Upload (DUpload u) = u" "as_Website (DWebsite s) = s"
  by (simp_all add: as_Stats_def as_Key_def as_Bucket_def as_Object_def as_Part_def as_Chunk_def
      as_Upload_def as_Website_def)

section \<open>The outside world\<close>

text \<open>A call to the database server. A query is the predicate its \<open>bson.M\<close> denotes, an update the
  function its operators denote, a sort order the key documents are compared by.\<close>

type_synonym sortkey = "int list list"

datatype db_request =
    Insert doc
  | Apply coll "doc \<Rightarrow> bool" "doc \<Rightarrow> doc" bool
  | Upsert coll "doc \<Rightarrow> bool" "doc \<Rightarrow> doc" doc
  | RemoveOne coll "doc \<Rightarrow> bool"
  | FindOne coll "doc \<Rightarrow> bool" "doc \<Rightarrow> sortkey"
  | FindAll coll "doc \<Rightarrow> bool" "doc \<Rightarrow> sortkey"

datatype reply = RDone | RDoc doc | RDocs "doc list" | RNotFound | RFail string

text \<open>The RADOS client. An I/O context is the pool it was opened on; \<open>None\<close> is the nil pointer
  the program holds after a failed open, and what the client does with it is up to the client.\<close>

type_synonym ioctx = "string option"

datatype rados_request =
    OpenIOContext string | DestroyCtx ioctx | RWrite ioctx string string nat
  | RRead ioctx string nat nat | RDelete ioctx string
  | MakePool string | DeletePool string | MonCommand string string string

datatype rados_reply = RadosOk string | RadosErr string | RadosPanic

text \<open>The message sent for a change of an object; the broker gets its JSON form.\<close>

record Event =
  ev_Namespace :: string
  ev_Bucket :: string
  ev_Object :: string
  ev_Op :: string

record 'w env =
  srv :: "db_request \<Rightarrow> 'w \<Rightarrow> reply \<times> 'w"
  newid :: "'w \<Rightarrow> oid \<times> 'w"
  clock :: "'w \<Rightarrow> int \<times> 'w"
  clock_rfc3339 :: "'w \<Rightarrow> string \<times> 'w"
  rand_read :: "nat \<Rightarrow> 'w \<Rightarrow> nat list option \<times> 'w"
  Sha256sum :: "string \<Rightarrow> string"
  md5hex :: "string \<Rightarrow> string"
  oid_hex :: "oid \<Rightarrow> string"
  sha256 :: "string \<Rightarrow> string"
  hmac_sha256 :: "string \<Rightarrow> string \<Rightarrow> string"
  adminAccToken :: string
  cipher :: cfb
  s3SecKey :: string
  radosDisabled :: bool
  rados :: "rados_request \<Rightarrow> 'w \<Rightarrow> rados_reply \<times> 'w"
  S3StorageDefaultListObjects :: int
  S3InlineDataSize :: int
  S3MaxChunkSize :: int
  publish :: "string \<Rightarrow> Event \<Rightarrow> 'w \<Rightarrow> (goerr, unit) res \<times> 'w"

text \<open>Reading a value that the environment may advance over.\<close>

definition genv :: "('w \<Rightarrow> 'a \<times> 'w) \<Rightarrow> ('w, 'e, 'a) go" where
  [go_simps]: "genv f = (\<lambda>w. let (a, w') = f w in (Ok a, w'))"

definition current_timestamp :: "'w env \<Rightarrow> ('w, 'e, int) go" where
  "current_timestamp E = genv (clock E)"

end
