(* ===== verification/S3_DB.thy ===== *)
theory S3_DB
  imports S3_Types
begin

text \<open>
  The database wrappers of \<open>src/s3/db.go\<close>. Each adds the object's \<open>_id\<close> and, for \<open>$set\<close>
  updates, the modification time, sends one command to the server, and hands back the
  document the driver decoded. The laws below state what MongoDB documents of these
  commands: each acts on one collection, a find-and-modify picks one matching document and
  replaces it atomically, and a command that fails has changed nothing.
\<close>

datatype update = SetU "doc \<Rightarrow> doc" | IncU "doc \<Rightarrow> doc" | SetIncU "doc \<Rightarrow> doc"

fun upd_fun :: "update \<Rightarrow> doc \<Rightarrow> doc" where
  "upd_fun (SetU f) = f"
| "upd_fun (IncU f) = f"
| "upd_fun (SetIncU f) = f"

definition s3StateTransition :: "int \<Rightarrow> int list" where
  "s3StateTransition s =
     (if s = S3StateNone then [S3StateNone]
      else if s = S3StateActive then [S3StateNone]
      else if s = S3StateInactive then [S3StateActive] else [])"

definition dbNF :: "goerr \<Rightarrow> bool" where
  "dbNF e \<longleftrightarrow> e = ErrNotFound"

text \<open>One round trip to the server.\<close>

definition dcall :: "'w env \<Rightarrow> db_request \<Rightarrow> ('w, goerr, reply) go" where
  [go_simps]: "dcall E r = (\<lambda>w. case srv E r w of
     (RFail e, w') \<Rightarrow> (Err (DbErr e), w')
   | (RNotFound, w') \<Rightarrow> (Err ErrNotFound, w')
   | (a, w') \<Rightarrow> (Ok a, w'))"

definition gotdoc :: "reply \<Rightarrow> ('w, goerr, doc) go" where
  [go_simps]: "gotdoc r = (case r of RDoc d \<Rightarrow> gret d | _ \<Rightarrow> gpanic)"

definition gotdocs :: "reply \<Rightarrow> ('w, goerr, doc list) go" where
  [go_simps]: "gotdocs r = (case r of RDocs ds \<Rightarrow> gret ds | _ \<Rightarrow> gpanic)"

definition dbS3SetObjID :: "doc \<Rightarrow> (doc \<Rightarrow> bool) \<Rightarrow> doc \<Rightarrow> bool" where
  "dbS3SetObjID ob query = (\<lambda>d. query d \<and> (doc_id ob \<noteq> [] \<longrightarrow> doc_id d = doc_id ob))"

definition dbS3UpdateMTime :: "int \<Rightarrow> update \<Rightarrow> update" where
  "dbS3UpdateMTime t u = (case u of
      SetU f \<Rightarrow> SetU (\<lambda>d. set_mtime t (f d))
    | SetIncU f \<Rightarrow> SetIncU (\<lambda>d. set_mtime t (f d))
    | IncU f \<Rightarrow> IncU f)"

definition dbS3SetMTime :: "int \<Rightarrow> doc \<Rightarrow> doc" where
  "dbS3SetMTime t ob = set_mtime t ob"

text \<open>The insert stamps the caller's object, which is the value returned here.\<close>

definition dbS3Insert :: "'w env \<Rightarrow> doc \<Rightarrow> ('w, goerr, doc) go" where
  "dbS3Insert E ob =
     gbind (current_timestamp E) (\<lambda>t.
     gbind (dcall E (Insert (dbS3SetMTime t ob))) (\<lambda>_. gret (dbS3SetMTime t ob)))"

definition dbS3Update :: "'w env \<Rightarrow> (doc \<Rightarrow> bool) \<Rightarrow> update \<Rightarrow> bool \<Rightarrow> doc \<Rightarrow> ('w, goerr, doc) go" where
  "dbS3Update E query upd retnew ob =
     gbind (current_timestamp E) (\<lambda>t.
     gbind (dcall E (Apply (dbColl ob) (dbS3SetObjID ob query) (upd_fun (dbS3UpdateMTime t upd)) retnew)) gotdoc)"

definition dbS3Upsert :: "'w env \<Rightarrow> (doc \<Rightarrow> bool) \<Rightarrow> (doc \<Rightarrow> doc) \<Rightarrow> doc \<Rightarrow> ('w, goerr, doc) go" where
  "dbS3Upsert E query upd ins = gbind (dcall E (Upsert (dbColl ins) query upd ins)) gotdoc"

definition dbS3SetOnState :: "'w env \<Rightarrow> doc \<Rightarrow> int \<Rightarrow> (doc \<Rightarrow> bool) \<Rightarrow> (doc \<Rightarrow> doc) \<Rightarrow> ('w, goerr, doc) go" where
  "dbS3SetOnState E ob state query flds =
     dbS3Update E (\<lambda>d. query d \<and> (case doc_state d of None \<Rightarrow> False | Some s \<Rightarrow> s \<in> set (s3StateTransition state)))
       (SetU flds) True ob"

definition dbS3SetState :: "'w env \<Rightarrow> doc \<Rightarrow> int \<Rightarrow> (doc \<Rightarrow> bool) \<Rightarrow> ('w, goerr, doc) go" where
  "dbS3SetState E ob state query = dbS3SetOnState E ob state query (set_state state)"

definition dbS3SetState2 :: "'w env \<Rightarrow> doc \<Rightarrow> int \<Rightarrow> (doc \<Rightarrow> doc) \<Rightarrow> ('w, goerr, doc) go" where
  "dbS3SetState2 E ob state upd = dbS3SetOnState E ob state (\<lambda>_. True) (\<lambda>d. set_state state (upd d))"

definition dbS3RemoveCond :: "'w env \<Rightarrow> doc \<Rightarrow> (doc \<Rightarrow> bool) \<Rightarrow> ('w, goerr, unit) go" where
  "dbS3RemoveCond E ob query =
     gbind (dcall E (RemoveOne (dbColl ob) (dbS3SetObjID ob query))) (\<lambda>_. gret ())"

definition dbS3RemoveOnState :: "'w env \<Rightarrow> doc \<Rightarrow> int \<Rightarrow> (doc \<Rightarrow> bool) \<Rightarrow> ('w, goerr, unit) go" where
  "dbS3RemoveOnState E ob state query = dbS3RemoveCond E ob (\<lambda>d. query d \<and> doc_state d = Some state)"

definition dbS3Remove :: "'w env \<Rightarrow> doc \<Rightarrow> ('w, goerr, unit) go" where
  "dbS3Remove E ob = dbS3RemoveCond E ob (\<lambda>_. True)"

abbreviation any_order :: "doc \<Rightarrow> sortkey" where
  "any_order \<equiv> \<lambda>_. []"

definition dbS3FindOne :: "'w env \<Rightarrow> coll \<Rightarrow> (doc \<Rightarrow> bool) \<Rightarrow> ('w, goerr, doc) go" where
  "dbS3FindOne E c query = gbind (dcall E (FindOne c query any_order)) gotdoc"

definition dbS3FindOneTop :: "'w env \<Rightarrow> coll \<Rightarrow> (doc \<Rightarrow> bool) \<Rightarrow> (doc \<Rightarrow> sortkey) \<Rightarrow> ('w, goerr, doc) go" where
  "dbS3FindOneTop E c query ord = gbind (dcall E (FindOne c query ord)) gotdoc"

definition dbS3FindAllSorted :: "'w env \<Rightarrow> coll \<Rightarrow> (doc \<Rightarrow> bool) \<Rightarrow> (doc \<Rightarrow> sortkey) \<Rightarrow> ('w, goerr, doc list) go" where
  "dbS3FindAllSorted E c query ord = gbind (dcall E (FindAll c query ord)) gotdocs"

definition dbS3FindAll :: "'w env \<Rightarrow> coll \<Rightarrow> (doc \<Rightarrow> bool) \<Rightarrow> ('w, goerr, doc list) go" where
  "dbS3FindAll E c query = dbS3FindAllSorted E c query any_order"

definition dbS3FindAllFields :: "'w env \<Rightarrow> coll \<Rightarrow> (doc \<Rightarrow> bool) \<Rightarrow> (doc \<Rightarrow> doc) \<Rightarrow> ('w, goerr, doc list) go" where
  "dbS3FindAllFields E c query sel = gbind (dbS3FindAll E c query) (\<lambda>ds. gret (map sel ds))"

definition dbS3FindAllInactive :: "'w env \<Rightarrow> coll \<Rightarrow> ('w, goerr, doc list) go" where
  "dbS3FindAllInactive E c =
     dbS3FindAll E c (\<lambda>d. doc_state d = Some S3StateNone \<or> doc_state d = Some S3StateInactive)"

section \<open>The laws of the server\<close>

type_synonym dbview = "coll \<Rightarrow> oid \<rightharpoonup> doc"

definition put_doc :: "coll \<Rightarrow> oid \<Rightarrow> doc option \<Rightarrow> dbview \<Rightarrow> dbview" where
  "put_doc c i d V = V(c := (V c)(i := d))"

definition matching :: "dbview \<Rightarrow> coll \<Rightarrow> (doc \<Rightarrow> bool) \<Rightarrow> doc set" where
  "matching V c q = {d. \<exists>i. V c i = Some d \<and> q d}"

text \<open>A document is refused if its id or one of its uniquely indexed values is taken.\<close>

definition duplicate :: "dbview \<Rightarrow> doc \<Rightarrow> bool" where
  "duplicate V d \<longleftrightarrow> V (dbColl d) (doc_id d) \<noteq> None
     \<or> matching V (dbColl d) (\<lambda>d'. \<exists>k \<in> set (unique_keys d). k \<in> set (unique_keys d')) \<noteq> {}"

definition insert_law :: "'w env \<Rightarrow> ('w \<Rightarrow> dbview) \<Rightarrow> bool" where
  "insert_law E view \<longleftrightarrow> (\<forall>d w. case srv E (Insert d) w of
       (RDone, w') \<Rightarrow> \<not> duplicate (view w) d
                       \<and> view w' = put_doc (dbColl d) (doc_id d) (Some d) (view w)
     | (RFail _, w') \<Rightarrow> view w' = view w
     | _ \<Rightarrow> False)"

definition apply_law :: "'w env \<Rightarrow> ('w \<Rightarrow> dbview) \<Rightarrow> bool" where
  "apply_law E view \<longleftrightarrow> (\<forall>c q u rn w. case srv E (Apply c q u rn) w of
       (RDoc r, w') \<Rightarrow> (\<exists>i d. view w c i = Some d \<and> q d \<and> r = (if rn then u d else d)
                           \<and> view w' = put_doc c i (Some (u d)) (view w))
     | (RNotFound, w') \<Rightarrow> matching (view w) c q = {} \<and> view w' = view w
     | (RFail _, w') \<Rightarrow> view w' = view w
     | _ \<Rightarrow> False)"

definition upsert_law :: "'w env \<Rightarrow> ('w \<Rightarrow> dbview) \<Rightarrow> bool" where
  "upsert_law E view \<longleftrightarrow> (\<forall>c q u n w. dbColl n = c \<longrightarrow> (case srv E (Upsert c q u n) w of
       (RDoc r, w') \<Rightarrow>
         (\<exists>i d. view w c i = Some d \<and> q d \<and> r = u d \<and> view w' = put_doc c i (Some (u d)) (view w))
         \<or> (\<exists>i. matching (view w) c q = {} \<and> i \<noteq> [] \<and> (doc_id n \<noteq> [] \<longrightarrow> i = doc_id n) \<and> r = set_id i n
               \<and> \<not> duplicate (view w) r \<and> view w' = put_doc c i (Some r) (view w))
     | (RFail _, w') \<Rightarrow> view w' = view w
     | _ \<Rightarrow> False))"

definition remove_law :: "'w env \<Rightarrow> ('w \<Rightarrow> dbview) \<Rightarrow> bool" where
  "remove_law E view \<longleftrightarrow> (\<forall>c q w. case srv E (RemoveOne c q) w of
       (RDoc r, w') \<Rightarrow> (\<exists>i. view w c i = Some r \<and> q r \<and> view w' = put_doc c i None (view w))
     | (RNotFound, w') \<Rightarrow> matching (view w) c q = {} \<and> view w' = view w
     | (RFail _, w') \<Rightarrow> view w' = view w
     | _ \<Rightarrow> False)"

definition find_law :: "'w env \<Rightarrow> ('w \<Rightarrow> dbview) \<Rightarrow> bool" where
  "find_law E view \<longleftrightarrow>
     (\<forall>c q ord w. case srv E (FindOne c q ord) w of
       (RDoc r, w') \<Rightarrow> r \<in> matching (view w) c q \<and> (\<forall>d \<in> matching (view w) c q. ord r \<le> ord d)
                        \<and> view w' = view w
     | (RNotFound, w') \<Rightarrow> matching (view w) c q = {} \<and> view w' = view w
     | (RFail _, w') \<Rightarrow> view w' = view w
     | _ \<Rightarrow> False)
   \<and> (\<forall>c q ord w. case srv E (FindAll c q ord) w of
       (RDocs ds, w') \<Rightarrow> set ds = matching (view w) c q \<and> distinct ds \<and> sorted (map ord ds)
                          \<and> view w' = view w
     | (RFail _, w') \<Rightarrow> view w' = view w
     | _ \<Rightarrow> False)"

definition ambient_law :: "'w env \<Rightarrow> ('w \<Rightarrow> dbview) \<Rightarrow> bool" where
  "ambient_law E view \<longleftrightarrow>
     (\<forall>w. view (snd (clock E w)) = view w) \<and> (\<forall>w. view (snd (clock_rfc3339 E w)) = view w)
     \<and> (\<forall>n w. view (snd (rand_read E n w)) = view w) \<and> (\<forall>r w. view (snd (rados E r w)) = view w)
     \<and> (\<forall>q m w. view (snd (publish E q m w)) = view w)
     \<and> (\<forall>w. view (snd (newid E w)) = view w \<and> fst (newid E w) \<noteq> []
              \<and> (\<forall>c. view w c (fst (newid E w)) = None))"

definition mongo_ok :: "'w env \<Rightarrow> ('w \<Rightarrow> dbview) \<Rightarrow> bool" where
  "mongo_ok E view \<longleftrightarrow> insert_law E view \<and> apply_law E view \<and> upsert_law E view
     \<and> remove_law E view \<and> find_law E view \<and> ambient_law E view"

text \<open>A server that fails no command but an insert, or an upsert, of a duplicate.\<close>

definition no_faults :: "'w env \<Rightarrow> ('w \<Rightarrow> dbview) \<Rightarrow> bool" where
  "no_faults E view \<longleftrightarrow> (\<forall>r w e. fst (srv E r w) = RFail e \<longrightarrow>
     (\<exists>d. r = Insert d \<and> duplicate (view w) d)
     \<or> (\<exists>c q u n i. r = Upsert c q u n \<and> matching (view w) c q = {} \<and> duplicate (view w) (set_id i n)
          \<and> (if doc_id n = [] then view w c i = None else i = doc_id n)))"

text \<open>Every document is stored under its own id.\<close>

definition ids_ok :: "dbview \<Rightarrow> bool" where
  "ids_ok V \<longleftrightarrow> (\<forall>c i d. V c i = Some d \<longrightarrow> doc_id d = i \<and> dbColl d = c)"


section \<open>What the wrappers do\<close>

lemmas mongo_laws = insert_law_def apply_law_def upsert_law_def remove_law_def find_law_def ambient_law_def

lemma put_doc_same [simp]: "put_doc c i d V c i = d"
  by (simp add: put_doc_def)

lemma put_doc_other: "c' \<noteq> c \<or> i' \<noteq> i \<Longrightarrow> put_doc c i d V c' i' = V c' i'"
  by (auto simp: put_doc_def)

lemma put_doc_coll [simp]: "c' \<noteq> c \<Longrightarrow> put_doc c i d V c' = V c'"
  by (simp add: put_doc_def)

lemma put_doc_twice [simp]: "put_doc c i d (put_doc c i d' V) = put_doc c i d V"
  by (simp add: put_doc_def)

lemma put_doc_swap: "c \<noteq> c' \<Longrightarrow> put_doc c i d (put_doc c' i' d' V) = put_doc c' i' d' (put_doc c i d V)"
  by (auto simp: put_doc_def fun_eq_iff)

lemma put_doc_triv: "V c i = d \<Longrightarrow> put_doc c i d V = V"
  by (auto simp: put_doc_def)

lemma matchingI: "V c i = Some d \<Longrightarrow> q d \<Longrightarrow> d \<in> matching V c q"
  by (auto simp: matching_def)

lemma doc_state_set_mtime [simp]: "doc_state (set_mtime t d) = doc_state d"
  by (cases d) auto

lemma doc_id_set_mtime [simp]: "doc_id (set_mtime t d) = doc_id d"
  by (cases d) auto

lemma dbColl_set_mtime [simp]: "dbColl (set_mtime t d) = dbColl d"
  by (cases d) auto

lemma doc_id_set_state [simp]: "doc_id (set_state s d) = doc_id d"
  by (cases d) auto

lemma dbColl_set_state [simp]: "dbColl (set_state s d) = dbColl d"
  by (cases d) auto

lemma doc_state_set_state: "doc_state d \<noteq> None \<Longrightarrow> doc_state (set_state s d) = Some s"
  by (cases d) auto

lemma unique_keys_set_mtime [simp]: "unique_keys (set_mtime t d) = unique_keys d"
  by (cases d) auto

lemma duplicate_set_mtime [simp]: "duplicate V (set_mtime t d) = duplicate V d"
  by (simp add: duplicate_def)

lemma duplicate_nokeys [simp]: "unique_keys d = [] \<Longrightarrow> duplicate V d \<longleftrightarrow> V (dbColl d) (doc_id d) \<noteq> None"
  by (simp add: duplicate_def matching_def)

lemma doc_id_set_id [simp]: "doc_id (set_id i d) = i"
  by (cases d) auto

lemma dbColl_set_id [simp]: "dbColl (set_id i d) = dbColl d"
  by (cases d) auto

lemma unique_keys_set_id [simp]: "unique_keys (set_id i d) = unique_keys d"
  by (cases d) auto

lemma ids_ok_put [simp]: "ids_ok V \<Longrightarrow> doc_id d = i \<Longrightarrow> dbColl d = c \<Longrightarrow> ids_ok (put_doc c i (Some d) V)"
  by (auto simp: ids_ok_def put_doc_def)

lemma ids_ok_del [simp]: "ids_ok V \<Longrightarrow> ids_ok (put_doc c i None V)"
  by (auto simp: ids_ok_def put_doc_def)

lemma ids_okD: "ids_ok V \<Longrightarrow> V c i = Some d \<Longrightarrow> doc_id d = i \<and> dbColl d = c"
  by (auto simp: ids_ok_def)

lemma ambient:
  assumes "mongo_ok E view"
  shows "view (snd (clock E w)) = view w" and "view (snd (clock_rfc3339 E w)) = view w"
    and "view (snd (rand_read E n w)) = view w" and "view (snd (rados E r w)) = view w"
    and "view (snd (publish E q m w)) = view w" and "view (snd (newid E w)) = view w"
    and "fst (newid E w) \<noteq> []" and "view w c (fst (newid E w)) = None"
  using assms by (auto simp: mongo_ok_def ambient_law_def)

lemma current_timestamp_app [simp]:
  "current_timestamp E w = (Ok (fst (clock E w)), snd (clock E w))"
  by (simp add: current_timestamp_def go_simps split: prod.splits)

lemma genv_app [simp]: "genv f w = (Ok (fst (f w)), snd (f w))"
  by (simp add: go_simps split: prod.splits)

lemma no_faultsD:
  assumes "no_faults E view" and "fst (srv E r w) = RFail e"
  shows "case r of Insert d \<Rightarrow> duplicate (view w) d
       | Upsert c q u n \<Rightarrow> matching (view w) c q = {} \<and> (\<exists>i. duplicate (view w) (set_id i n)
           \<and> (if doc_id n = [] then view w c i = None else i = doc_id n))
       | _ \<Rightarrow> False"
  using assms by (cases r) (fastforce simp: no_faults_def)+

lemma dbS3Insert_cases:
  assumes "mongo_ok E view"
  obtains (ok) t w' where "dbS3Insert E ob w = (Ok (set_mtime t ob), w')" and "\<not> duplicate (view w) ob"
      and "view w' = put_doc (dbColl ob) (doc_id ob) (Some (set_mtime t ob)) (view w)"
    | (io) e w' where "dbS3Insert E ob w = (Err (DbErr e), w')" and "view w' = view w"
      and "no_faults E view \<Longrightarrow> duplicate (view w) ob"
proof -
  let ?t = "fst (clock E w)" and ?w = "snd (clock E w)"
  obtain r w1 where r: "srv E (Insert (set_mtime ?t ob)) ?w = (r, w1)" by fastforce
  have law: "insert_law E view" and v: "view ?w = view w"
    using assms ambient(1) [OF assms] by (auto simp: mongo_ok_def)
  note L = law [unfolded insert_law_def, rule_format, where d = "set_mtime ?t ob" and w = ?w, unfolded r]
  show thesis
  proof (cases r)
    case RDone
    then show thesis using L r v
      by (intro ok [of ?t w1]) (simp_all add: dbS3Insert_def dbS3SetMTime_def gbind_def gret_def dcall_def)
  next
    case (RFail e)
    then have "no_faults E view \<Longrightarrow> duplicate (view w) ob"
      using no_faultsD [of E view "Insert (set_mtime ?t ob)" ?w e] r v by simp
    then show thesis using RFail L r v
      by (intro io [of e w1]) (simp_all add: dbS3Insert_def dbS3SetMTime_def gbind_def gret_def dcall_def)
  qed (use L in auto)
qed

lemma dbS3Update_cases:
  assumes "mongo_ok E view"
  obtains (ok) t i d w' where
      "dbS3Update E q u rn ob w = (Ok (if rn then upd_fun (dbS3UpdateMTime t u) d else d), w')"
      and "view w (dbColl ob) i = Some d" and "dbS3SetObjID ob q d"
      and "view w' = put_doc (dbColl ob) i (Some (upd_fun (dbS3UpdateMTime t u) d)) (view w)"
    | (nf) w' where "dbS3Update E q u rn ob w = (Err ErrNotFound, w')"
      and "matching (view w) (dbColl ob) (dbS3SetObjID ob q) = {}" and "view w' = view w"
    | (io) e w' where "dbS3Update E q u rn ob w = (Err (DbErr e), w')"
      and "view w' = view w" and "\<not> no_faults E view"
proof -
  let ?t = "fst (clock E w)" and ?w = "snd (clock E w)"
  let ?r = "Apply (dbColl ob) (dbS3SetObjID ob q) (upd_fun (dbS3UpdateMTime ?t u)) rn"
  obtain r w1 where r: "srv E ?r ?w = (r, w1)" by fastforce
  have law: "apply_law E view" and v: "view ?w = view w"
    using assms ambient(1) [OF assms] by (auto simp: mongo_ok_def)
  note L = law [unfolded apply_law_def, rule_format, where c = "dbColl ob" and q = "dbS3SetObjID ob q"
      and u = "upd_fun (dbS3UpdateMTime ?t u)" and rn = rn and w = ?w, unfolded r]
  show thesis
  proof (cases r)
    case (RDoc d')
    then obtain i d where "view w (dbColl ob) i = Some d" "dbS3SetObjID ob q d"
        "d' = (if rn then upd_fun (dbS3UpdateMTime ?t u) d else d)"
        "view w1 = put_doc (dbColl ob) i (Some (upd_fun (dbS3UpdateMTime ?t u) d)) (view w)"
      using L v by auto
    then show thesis using r RDoc
      by (intro ok [of ?t d w1 i]) (simp_all add: dbS3Update_def gbind_def gret_def dcall_def gotdoc_def)
  next
    case RNotFound
    then show thesis using L r v
      by (intro nf [of w1]) (simp_all add: dbS3Update_def gbind_def gret_def dcall_def)
  next
    case (RFail e)
    then have "\<not> no_faults E view" using no_faultsD [of E view ?r ?w e] r by auto
    then show thesis using RFail L r v
      by (intro io [of e w1]) (simp_all add: dbS3Update_def gbind_def gret_def dcall_def)
  qed (use L in auto)
qed

lemma dcall_cases:
  obtains (reply) a w' where "dcall E r w = (Ok a, w')" and "srv E r w = (a, w')"
      and "a \<noteq> RNotFound" and "\<And>e. a \<noteq> RFail e"
    | (nf) w' where "dcall E r w = (Err ErrNotFound, w')" and "srv E r w = (RNotFound, w')"
    | (io) e w' where "dcall E r w = (Err (DbErr e), w')" and "srv E r w = (RFail e, w')"
      and "no_faults E view \<Longrightarrow> \<exists>d c q u n. r = Insert d \<or> r = Upsert c q u n"
proof (cases "srv E r w")
  case (Pair a w')
  show thesis
  proof (cases a)
    case (RFail e)
    then have "no_faults E view \<Longrightarrow> \<exists>d c q u n. r = Insert d \<or> r = Upsert c q u n"
      using no_faultsD [of E view r w e] Pair by (cases r) auto
    with RFail Pair show thesis by (intro io [of e w']) (simp_all add: dcall_def)
  qed (use Pair in \<open>auto simp: dcall_def intro: reply nf\<close>)
qed

lemma dbS3Upsert_cases:
  assumes "mongo_ok E view"
  obtains (upd) i d w' where "dbS3Upsert E q u n w = (Ok (u d), w')" and "view w (dbColl n) i = Some d"
      and "q d" and "view w' = put_doc (dbColl n) i (Some (u d)) (view w)"
    | (ins) i w' where "dbS3Upsert E q u n w = (Ok (set_id i n), w')" and "matching (view w) (dbColl n) q = {}"
      and "i \<noteq> []" and "doc_id n \<noteq> [] \<Longrightarrow> i = doc_id n" and "\<not> duplicate (view w) (set_id i n)"
      and "view w' = put_doc (dbColl n) i (Some (set_id i n)) (view w)"
    | (io) e w' where "dbS3Upsert E q u n w = (Err (DbErr e), w')" and "view w' = view w"
      and "no_faults E view \<Longrightarrow> matching (view w) (dbColl n) q = {} \<and> (unique_keys n \<noteq> [] \<or> doc_id n \<noteq> [])"
proof -
  have law: "upsert_law E view" using assms by (simp add: mongo_ok_def)
  note L = law [unfolded upsert_law_def, rule_format, where c = "dbColl n" and q = q and u = u and n = n and w = w, OF refl]
  show thesis
  proof (cases "srv E (Upsert (dbColl n) q u n) w")
    case (Pair a w')
    show thesis
    proof (cases a)
      case (RDoc r)
      have run: "dbS3Upsert E q u n w = (Ok r, w')"
        using Pair RDoc by (simp add: dbS3Upsert_def gbind_def gret_def gotdoc_def dcall_def)
      from L Pair RDoc have "(\<exists>i d. view w (dbColl n) i = Some d \<and> q d \<and> r = u d
            \<and> view w' = put_doc (dbColl n) i (Some (u d)) (view w))
          \<or> (\<exists>i. matching (view w) (dbColl n) q = {} \<and> i \<noteq> [] \<and> (doc_id n \<noteq> [] \<longrightarrow> i = doc_id n)
            \<and> r = set_id i n \<and> \<not> duplicate (view w) r \<and> view w' = put_doc (dbColl n) i (Some r) (view w))"
        by simp
      with run show thesis by (auto intro: upd ins)
    next
      case (RFail e)
      have "matching (view w) (dbColl n) q = {} \<and> (unique_keys n \<noteq> [] \<or> doc_id n \<noteq> [])" if "no_faults E view"
        using no_faultsD [OF that, of "Upsert (dbColl n) q u n" w e] Pair RFail
        by (auto simp: duplicate_def matching_def)
      with L Pair RFail show thesis
        by (intro io [of e w']) (simp_all add: dbS3Upsert_def gbind_def gret_def dcall_def)
    qed (use L Pair in auto)
  qed
qed

lemma dbS3RemoveCond_cases:
  assumes "mongo_ok E view"
  obtains (ok) i d w' where "dbS3RemoveCond E ob q w = (Ok (), w')" and "view w (dbColl ob) i = Some d"
      and "dbS3SetObjID ob q d" and "view w' = put_doc (dbColl ob) i None (view w)"
    | (nf) w' where "dbS3RemoveCond E ob q w = (Err ErrNotFound, w')"
      and "matching (view w) (dbColl ob) (dbS3SetObjID ob q) = {}" and "view w' = view w"
    | (io) e w' where "dbS3RemoveCond E ob q w = (Err (DbErr e), w')" and "view w' = view w" and "\<not> no_faults E view"
proof -
  have law: "remove_law E view" using assms by (simp add: mongo_ok_def)
  note L = law [unfolded remove_law_def, rule_format, where c = "dbColl ob" and q = "dbS3SetObjID ob q" and w = w]
  show thesis
  proof (cases rule: dcall_cases [where view = view and E = E and r = "RemoveOne (dbColl ob) (dbS3SetObjID ob q)" and w = w])
    case (reply a w')
    then obtain r where a: "a = RDoc r" using L by (cases a) auto
    with reply L obtain i where "view w (dbColl ob) i = Some r" "dbS3SetObjID ob q r"
        "view w' = put_doc (dbColl ob) i None (view w)" by auto
    then show thesis using reply a
      by (intro ok [of w' i r]) (simp_all add: dbS3RemoveCond_def gbind_def gret_def)
  next
    case (nf w')
    then show thesis using L by (intro that(2) [of w']) (simp_all add: dbS3RemoveCond_def gbind_def gret_def)
  next
    case (io e w')
    then show thesis using L by (intro that(3) [of e w']) (auto simp: dbS3RemoveCond_def gbind_def gret_def)
  qed
qed

lemma dbS3FindOneTop_cases:
  assumes "mongo_ok E view"
  obtains (ok) d w' where "dbS3FindOneTop E c q ord w = (Ok d, w')" and "d \<in> matching (view w) c q"
      and "\<And>d'. d' \<in> matching (view w) c q \<Longrightarrow> ord d \<le> ord d'" and "view w' = view w"
    | (nf) w' where "dbS3FindOneTop E c q ord w = (Err ErrNotFound, w')" and "matching (view w) c q = {}"
      and "view w' = view w"
    | (io) e w' where "dbS3FindOneTop E c q ord w = (Err (DbErr e), w')" and "view w' = view w" and "\<not> no_faults E view"
proof -
  have law: "find_law E view" using assms by (simp add: mongo_ok_def)
  note L = law [unfolded find_law_def, THEN conjunct1, rule_format, where c = c and q = q and ord = ord and w = w]
  show thesis
  proof (cases rule: dcall_cases [where view = view and E = E and r = "FindOne c q ord" and w = w])
    case (reply a w')
    then obtain r where a: "a = RDoc r" using L by (cases a) auto
    with reply L show thesis
      by (intro ok [of r w']) (simp_all add: dbS3FindOneTop_def gbind_def gret_def gotdoc_def)
  next
    case (nf w')
    then show thesis using L by (intro that(2) [of w']) (simp_all add: dbS3FindOneTop_def gbind_def)
  next
    case (io e w')
    then show thesis using L by (intro that(3) [of e w']) (auto simp: dbS3FindOneTop_def gbind_def)
  qed
qed

lemma dbS3FindOne_Top: "dbS3FindOne E c q = dbS3FindOneTop E c q any_order"
  by (simp add: dbS3FindOne_def dbS3FindOneTop_def)

lemmas dbS3FindOne_cases = dbS3FindOneTop_cases [where ord = any_order, folded dbS3FindOne_Top]

lemma dbS3FindAllSorted_cases:
  assumes "mongo_ok E view"
  obtains (ok) ds w' where "dbS3FindAllSorted E c q ord w = (Ok ds, w')" and "set ds = matching (view w) c q"
      and "distinct ds" and "sorted (map ord ds)" and "view w' = view w"
    | (io) e w' where "dbS3FindAllSorted E c q ord w = (Err (DbErr e), w')" and "view w' = view w"
      and "\<not> no_faults E view"
proof -
  have law: "find_law E view" using assms by (simp add: mongo_ok_def)
  note L = law [unfolded find_law_def, THEN conjunct2, rule_format, where c = c and q = q and ord = ord and w = w]
  show thesis
  proof (cases rule: dcall_cases [where view = view and E = E and r = "FindAll c q ord" and w = w])
    case (reply a w')
    then obtain ds where a: "a = RDocs ds" using L by (cases a) auto
    with reply L show thesis
      by (intro ok [of ds w']) (simp_all add: dbS3FindAllSorted_def gbind_def gret_def gotdocs_def)
  next
    case (nf w')
    then show thesis using L by simp
  next
    case (io e w')
    then show thesis using L by (intro that(2) [of e w']) (auto simp: dbS3FindAllSorted_def gbind_def)
  qed
qed

lemmas dbS3FindAll_cases = dbS3FindAllSorted_cases [where ord = any_order, folded dbS3FindAll_def]

section \<open>Rules for the wrappers\<close>

text \<open>Every command leaves the server's laws in force.\<close>

lemma wp_genv [wp_intros]: "(\<And>a w'. f w = (a, w') \<Longrightarrow> Q (Ok a) w') \<Longrightarrow> wp (genv f) Q w"
  by (simp add: wp_def split: prod.splits)

lemma wp_clock [wp_intros]:
  "mongo_ok E view \<Longrightarrow> (\<And>t w'. view w' = view w \<Longrightarrow> clock E w = (t, w') \<Longrightarrow> Q (Ok t) w') \<Longrightarrow> wp (current_timestamp E) Q w"
  using ambient(1) [of E view w] by (auto simp: wp_def prod_eq_iff)

lemma wp_now [wp_intros]:
  "mongo_ok E view \<Longrightarrow> (\<And>t w'. view w' = view w \<Longrightarrow> Q (Ok t) w') \<Longrightarrow> wp (genv (clock_rfc3339 E)) Q w"
  using ambient(2) [of E view w] by (auto simp: wp_def)

lemma wp_rand [wp_intros]:
  "mongo_ok E view \<Longrightarrow> (\<And>t w'. view w' = view w \<Longrightarrow> Q (Ok t) w') \<Longrightarrow> wp (genv (rand_read E n)) Q w"
  using ambient(3) [of E view n w] by (auto simp: wp_def)

lemma wp_newid [wp_intros]:
  "mongo_ok E view \<Longrightarrow> (\<And>i w'. view w' = view w \<Longrightarrow> i \<noteq> [] \<Longrightarrow> (\<And>c. view w c i = None) \<Longrightarrow> Q (Ok i) w')
    \<Longrightarrow> wp (genv (newid E)) Q w"
  using ambient(6-8) [of E view w] by (auto simp: wp_def)

lemma wp_Insert [wp_intros]:
  assumes "mongo_ok E view"
    and "\<And>t w'. \<not> duplicate (view w) ob \<Longrightarrow>
           view w' = put_doc (dbColl ob) (doc_id ob) (Some (set_mtime t ob)) (view w) \<Longrightarrow> Q (Ok (set_mtime t ob)) w'"
    and "\<And>e w'. view w' = view w \<Longrightarrow> (no_faults E view \<Longrightarrow> duplicate (view w) ob) \<Longrightarrow> Q (Err (DbErr e)) w'"
  shows "wp (dbS3Insert E ob) Q w"
  using assms(1) by (cases rule: dbS3Insert_cases [where ob = ob and w = w]) (use assms(2-) in \<open>auto simp: wp_def\<close>)

lemma wp_Update [wp_intros]:
  assumes "mongo_ok E view"
    and "\<And>t i d w'. view w (dbColl ob) i = Some d \<Longrightarrow> q d \<Longrightarrow> (doc_id ob \<noteq> [] \<Longrightarrow> doc_id d = doc_id ob) \<Longrightarrow>
           view w' = put_doc (dbColl ob) i (Some (upd_fun (dbS3UpdateMTime t u) d)) (view w) \<Longrightarrow>
           Q (Ok (if rn then upd_fun (dbS3UpdateMTime t u) d else d)) w'"
    and "\<And>w'. matching (view w) (dbColl ob) (dbS3SetObjID ob q) = {} \<Longrightarrow> view w' = view w \<Longrightarrow> Q (Err ErrNotFound) w'"
    and "\<And>e w'. view w' = view w \<Longrightarrow> \<not> no_faults E view \<Longrightarrow> Q (Err (DbErr e)) w'"
  shows "wp (dbS3Update E q u rn ob) Q w"
  using assms(1)
proof (cases rule: dbS3Update_cases [where q = q and u = u and rn = rn and ob = ob and w = w])
  case (ok t i d w')
  then show ?thesis using assms(2) [of i d w' t] by (auto simp: wp_def dbS3SetObjID_def)
qed (use assms(3-) in \<open>auto simp: wp_def\<close>)

lemma wp_Upsert [wp_intros]:
  assumes "mongo_ok E view"
    and "\<And>i d w'. view w (dbColl n) i = Some d \<Longrightarrow> q d \<Longrightarrow>
           view w' = put_doc (dbColl n) i (Some (u d)) (view w) \<Longrightarrow> Q (Ok (u d)) w'"
    and "\<And>i w'. matching (view w) (dbColl n) q = {} \<Longrightarrow> i \<noteq> [] \<Longrightarrow> (doc_id n \<noteq> [] \<Longrightarrow> i = doc_id n) \<Longrightarrow>
           \<not> duplicate (view w) (set_id i n) \<Longrightarrow>
           view w' = put_doc (dbColl n) i (Some (set_id i n)) (view w) \<Longrightarrow> Q (Ok (set_id i n)) w'"
    and "\<And>e w'. view w' = view w \<Longrightarrow>
           (no_faults E view \<Longrightarrow> matching (view w) (dbColl n) q = {} \<and> (unique_keys n \<noteq> [] \<or> doc_id n \<noteq> [])) \<Longrightarrow>
           Q (Err (DbErr e)) w'"
  shows "wp (dbS3Upsert E q u n) Q w"
  using assms(1) by (cases rule: dbS3Upsert_cases [where q = q and u = u and n = n and w = w])
    (use assms(2-) in \<open>auto simp: wp_def\<close>)

lemma wp_RemoveCond [wp_intros]:
  assumes "mongo_ok E view"
    and "\<And>i d w'. view w (dbColl ob) i = Some d \<Longrightarrow> q d \<Longrightarrow> (doc_id ob \<noteq> [] \<Longrightarrow> doc_id d = doc_id ob) \<Longrightarrow>
           view w' = put_doc (dbColl ob) i None (view w) \<Longrightarrow> Q (Ok ()) w'"
    and "\<And>w'. matching (view w) (dbColl ob) (dbS3SetObjID ob q) = {} \<Longrightarrow> view w' = view w \<Longrightarrow> Q (Err ErrNotFound) w'"
    and "\<And>e w'. view w' = view w \<Longrightarrow> \<not> no_faults E view \<Longrightarrow> Q (Err (DbErr e)) w'"
  shows "wp (dbS3RemoveCond E ob q) Q w"
  using assms(1)
proof (cases rule: dbS3RemoveCond_cases [where q = q and ob = ob and w = w])
  case (ok i d w')
  then show ?thesis using assms(2) [of i d w'] by (auto simp: wp_def dbS3SetObjID_def)
qed (use assms(3-) in \<open>auto simp: wp_def\<close>)

lemma wp_FindOneTop [wp_intros]:
  assumes "mongo_ok E view"
    and "\<And>i d w'. view w c i = Some d \<Longrightarrow> q d \<Longrightarrow> (\<And>d'. d' \<in> matching (view w) c q \<Longrightarrow> ord d \<le> ord d') \<Longrightarrow>
           view w' = view w \<Longrightarrow> Q (Ok d) w'"
    and "\<And>w'. matching (view w) c q = {} \<Longrightarrow> view w' = view w \<Longrightarrow> Q (Err ErrNotFound) w'"
    and "\<And>e w'. view w' = view w \<Longrightarrow> \<not> no_faults E view \<Longrightarrow> Q (Err (DbErr e)) w'"
  shows "wp (dbS3FindOneTop E c q ord) Q w"
  using assms(1)
proof (cases rule: dbS3FindOneTop_cases [where c = c and q = q and ord = ord and w = w])
  case (ok d w')
  then obtain i where "view w c i = Some d" "q d" by (auto simp: matching_def)
  then show ?thesis using assms(2) [of i d w'] ok by (auto simp: wp_def)
qed (use assms(3-) in \<open>auto simp: wp_def\<close>)

lemma wp_FindOne [wp_intros]:
  assumes "mongo_ok E view"
    and "\<And>i d w'. view w c i = Some d \<Longrightarrow> q d \<Longrightarrow> view w' = view w \<Longrightarrow> Q (Ok d) w'"
    and "\<And>w'. matching (view w) c q = {} \<Longrightarrow> view w' = view w \<Longrightarrow> Q (Err ErrNotFound) w'"
    and "\<And>e w'. view w' = view w \<Longrightarrow> \<not> no_faults E view \<Longrightarrow> Q (Err (DbErr e)) w'"
  shows "wp (dbS3FindOne E c q) Q w"
  unfolding dbS3FindOne_Top by (rule wp_FindOneTop [OF assms(1)]) (use assms(2-) in auto)

lemma wp_FindAllSorted [wp_intros]:
  assumes "mongo_ok E view"
    and "\<And>ds w'. set ds = matching (view w) c q \<Longrightarrow> distinct ds \<Longrightarrow> sorted (map ord ds) \<Longrightarrow>
           view w' = view w \<Longrightarrow> Q (Ok ds) w'"
    and "\<And>e w'. view w' = view w \<Longrightarrow> \<not> no_faults E view \<Longrightarrow> Q (Err (DbErr e)) w'"
  shows "wp (dbS3FindAllSorted E c q ord) Q w"
  using assms(1) by (cases rule: dbS3FindAllSorted_cases [where c = c and q = q and ord = ord and w = w])
    (use assms(2-) in \<open>auto simp: wp_def\<close>)

lemma wp_FindAll [wp_intros]:
  assumes "mongo_ok E view"
    and "\<And>ds w'. set ds = matching (view w) c q \<Longrightarrow> distinct ds \<Longrightarrow> view w' = view w \<Longrightarrow> Q (Ok ds) w'"
    and "\<And>e w'. view w' = view w \<Longrightarrow> \<not> no_faults E view \<Longrightarrow> Q (Err (DbErr e)) w'"
  shows "wp (dbS3FindAll E c q) Q w"
  unfolding dbS3FindAll_def by (rule wp_FindAllSorted [OF assms(1)]) (use assms(2-) in auto)

text \<open>The wrappers that add the state to the query.\<close>

definition in_trans :: "int \<Rightarrow> doc \<Rightarrow> bool" where
  "in_trans state d \<longleftrightarrow> (case doc_state d of None \<Rightarrow> False | Some s \<Rightarrow> s \<in> set (s3StateTransition state))"

lemma in_trans_inactive [simp]: "in_trans S3StateInactive d \<longleftrightarrow> doc_state d = Some S3StateActive"
  by (auto simp: in_trans_def s3StateTransition_def state_defs split: option.splits)

lemma in_trans_active [simp]: "in_trans S3StateActive d \<longleftrightarrow> doc_state d = Some S3StateNone"
  by (auto simp: in_trans_def s3StateTransition_def state_defs split: option.splits)

lemma wp_SetOnState:
  assumes "mongo_ok E view"
    and "\<And>t i d w'. view w (dbColl ob) i = Some d \<Longrightarrow> q d \<Longrightarrow> in_trans state d \<Longrightarrow>
           (doc_id ob \<noteq> [] \<Longrightarrow> doc_id d = doc_id ob) \<Longrightarrow>
           view w' = put_doc (dbColl ob) i (Some (set_mtime t (flds d))) (view w) \<Longrightarrow>
           Q (Ok (set_mtime t (flds d))) w'"
    and "\<And>w'. matching (view w) (dbColl ob) (dbS3SetObjID ob (\<lambda>d. q d \<and> in_trans state d)) = {} \<Longrightarrow>
           view w' = view w \<Longrightarrow> Q (Err ErrNotFound) w'"
    and "\<And>e w'. view w' = view w \<Longrightarrow> \<not> no_faults E view \<Longrightarrow> Q (Err (DbErr e)) w'"
  shows "wp (dbS3SetOnState E ob state q flds) Q w"
  unfolding dbS3SetOnState_def in_trans_def [symmetric]
  by (rule wp_Update [OF assms(1)]) (use assms(2-) in \<open>auto simp: dbS3UpdateMTime_def\<close>)

lemma wp_SetState [wp_intros]:
  assumes "mongo_ok E view"
    and "\<And>t i d w'. view w (dbColl ob) i = Some d \<Longrightarrow> q d \<Longrightarrow> in_trans state d \<Longrightarrow>
           (doc_id ob \<noteq> [] \<Longrightarrow> doc_id d = doc_id ob) \<Longrightarrow>
           view w' = put_doc (dbColl ob) i (Some (set_mtime t (set_state state d))) (view w) \<Longrightarrow>
           Q (Ok (set_mtime t (set_state state d))) w'"
    and "\<And>w'. matching (view w) (dbColl ob) (dbS3SetObjID ob (\<lambda>d. q d \<and> in_trans state d)) = {} \<Longrightarrow>
           view w' = view w \<Longrightarrow> Q (Err ErrNotFound) w'"
    and "\<And>e w'. view w' = view w \<Longrightarrow> \<not> no_faults E view \<Longrightarrow> Q (Err (DbErr e)) w'"
  shows "wp (dbS3SetState E ob state q) Q w"
  unfolding dbS3SetState_def by (rule wp_SetOnState [OF assms(1)]) (use assms(2-) in auto)

lemma wp_SetState2 [wp_intros]:
  assumes "mongo_ok E view"
    and "\<And>t i d w'. view w (dbColl ob) i = Some d \<Longrightarrow> in_trans state d \<Longrightarrow>
           (doc_id ob \<noteq> [] \<Longrightarrow> doc_id d = doc_id ob) \<Longrightarrow>
           view w' = put_doc (dbColl ob) i (Some (set_mtime t (set_state state (u d)))) (view w) \<Longrightarrow>
           Q (Ok (set_mtime t (set_state state (u d)))) w'"
    and "\<And>w'. matching (view w) (dbColl ob) (dbS3SetObjID ob (\<lambda>d. in_trans state d)) = {} \<Longrightarrow>
           view w' = view w \<Longrightarrow> Q (Err ErrNotFound) w'"
    and "\<And>e w'. view w' = view w \<Longrightarrow> \<not> no_faults E view \<Longrightarrow> Q (Err (DbErr e)) w'"
  shows "wp (dbS3SetState2 E ob state u) Q w"
  unfolding dbS3SetState2_def by (rule wp_SetOnState [OF assms(1)]) (use assms(2-) in auto)

lemma wp_Remove [wp_intros]:
  assumes "mongo_ok E view"
    and "\<And>i d w'. view w (dbColl ob) i = Some d \<Longrightarrow> (doc_id ob \<noteq> [] \<Longrightarrow> doc_id d = doc_id ob) \<Longrightarrow>
           view w' = put_doc (dbColl ob) i None (view w) \<Longrightarrow> Q (Ok ()) w'"
    and "\<And>w'. matching (view w) (dbColl ob) (dbS3SetObjID ob (\<lambda>_. True)) = {} \<Longrightarrow> view w' = view w \<Longrightarrow> Q (Err ErrNotFound) w'"
    and "\<And>e w'. view w' = view w \<Longrightarrow> \<not> no_faults E view \<Longrightarrow> Q (Err (DbErr e)) w'"
  shows "wp (dbS3Remove E ob) Q w"
  unfolding dbS3Remove_def by (rule wp_RemoveCond [OF assms(1)]) (use assms(2-) in auto)

lemma wp_RemoveOnState [wp_intros]:
  assumes "mongo_ok E view"
    and "\<And>i d w'. view w (dbColl ob) i = Some d \<Longrightarrow> q d \<Longrightarrow> doc_state d = Some state \<Longrightarrow>
           (doc_id ob \<noteq> [] \<Longrightarrow> doc_id d = doc_id ob) \<Longrightarrow>
           view w' = put_doc (dbColl ob) i None (view w) \<Longrightarrow> Q (Ok ()) w'"
    and "\<And>w'. matching (view w) (dbColl ob) (dbS3SetObjID ob (\<lambda>d. q d \<and> doc_state d = Some state)) = {} \<Longrightarrow>
           view w' = view w \<Longrightarrow> Q (Err ErrNotFound) w'"
    and "\<And>e w'. view w' = view w \<Longrightarrow> \<not> no_faults E view \<Longrightarrow> Q (Err (DbErr e)) w'"
  shows "wp (dbS3RemoveOnState E ob state q) Q w"
  unfolding dbS3RemoveOnState_def by (rule wp_RemoveCond [OF assms(1)]) (use assms(2-) in auto)

section \<open>Frames\<close>

text \<open>\<open>keeps view c f\<close>: whatever its outcome, \<open>f\<close> leaves collection \<open>c\<close> alone.\<close>

named_theorems keeps_intros \<open>collections an operation leaves alone\<close>

definition keeps :: "('w \<Rightarrow> dbview) \<Rightarrow> coll \<Rightarrow> ('w, 'e, 'a) go \<Rightarrow> bool" where
  "keeps view c f \<longleftrightarrow> (\<forall>w. view (snd (f w)) c = view w c)"

lemma keeps_wp: "keeps view c f \<Longrightarrow> (\<And>r w'. view w' c = view w c \<Longrightarrow> Q r w') \<Longrightarrow> wp f Q w"
  by (auto simp: keeps_def wp_def split: prod.splits) (metis snd_conv)

lemma keeps_wp_same: "keeps view c f \<Longrightarrow> view w c = V \<Longrightarrow> wp f (\<lambda>_ w'. view w' c = V) w"
  by (erule keeps_wp) simp

lemma quiet_wp:
  assumes "\<And>c. keeps view c f" and "\<And>r w'. view w' = view w \<Longrightarrow> Q r w'"
  shows "wp f Q w"
proof -
  have "view (snd (f w)) = view w" using assms(1) by (auto simp: keeps_def fun_eq_iff)
  then show ?thesis using assms(2) by (simp add: wp_def split_beta)
qed

lemma keepsI: "(\<And>w. wp f (\<lambda>_ w'. view w' c = view w c) w) \<Longrightarrow> keeps view c f"
  by (simp add: keeps_def wp_def split_beta)

lemma keeps_gret [keeps_intros]: "keeps view c (gret a)"
  by (simp add: keeps_def gret_app)

lemma keeps_gerr [keeps_intros]: "keeps view c (gerr e)"
  by (simp add: keeps_def gerr_app)

lemma keeps_gpanic [keeps_intros]: "keeps view c gpanic"
  by (simp add: keeps_def gpanic_app)

lemma keeps_gbind [keeps_intros]: "keeps view c f \<Longrightarrow> (\<And>a. keeps view c (k a)) \<Longrightarrow> keeps view c (gbind f k)"
  by (rule keepsI, unfold wp_gbind, rule keeps_wp, assumption)
     (auto simp: on_ok_def split: res.splits intro: keeps_wp_same)

lemma keeps_gtry [keeps_intros]: "keeps view c f \<Longrightarrow> (\<And>a. keeps view c (k a)) \<Longrightarrow> keeps view c (gtry f k)"
  by (rule keepsI, unfold wp_gtry, rule keeps_wp, assumption)
     (auto simp: on_any_def split: res.splits intro: keeps_wp_same)

lemma keeps_gseq [keeps_intros]: "keeps view c f \<Longrightarrow> keeps view c k \<Longrightarrow> keeps view c (gseq f k)"
  by (simp add: gseq_def keeps_gtry)

lemma keeps_gfold [keeps_intros]: "(\<And>x a. keeps view c (f x a)) \<Longrightarrow> keeps view c (gfold f xs a)"
  by (induction xs arbitrary: a) (auto intro: keeps_intros)

lemma keeps_geach [keeps_intros]: "(\<And>x. keeps view c (f x)) \<Longrightarrow> keeps view c (geach f xs)"
  by (simp add: geach_def keeps_gfold)

lemma keeps_primitives:
  assumes E: "mongo_ok E view"
  shows "keeps view c (current_timestamp E)" "keeps view c (genv (newid E))" "keeps view c (genv (clock_rfc3339 E))"
    "keeps view c (genv (rand_read E n))"
    "dbColl ob \<noteq> c \<Longrightarrow> keeps view c (dbS3Insert E ob)" "dbColl ob \<noteq> c \<Longrightarrow> keeps view c (dbS3Update E q u rn ob)"
    "dbColl ob \<noteq> c \<Longrightarrow> keeps view c (dbS3Upsert E q f ob)" "dbColl ob \<noteq> c \<Longrightarrow> keeps view c (dbS3RemoveCond E ob q)"
    "keeps view c (dbS3FindOne E k q)" "keeps view c (dbS3FindOneTop E k q ord)"
    "keeps view c (dbS3FindAllSorted E k q ord)" "keeps view c (dbS3FindAll E k q)"
  by (rule keepsI; auto intro!: wp_intros [OF E] simp: put_doc_coll)+

lemma keeps_wrappers:
  assumes E: "mongo_ok E view"
  shows "dbColl ob \<noteq> c \<Longrightarrow> keeps view c (dbS3SetState E ob st q)" "dbColl ob \<noteq> c \<Longrightarrow> keeps view c (dbS3SetState2 E ob st f)"
    "dbColl ob \<noteq> c \<Longrightarrow> keeps view c (dbS3SetOnState E ob st q f)"
    "dbColl ob \<noteq> c \<Longrightarrow> keeps view c (dbS3Remove E ob)" "dbColl ob \<noteq> c \<Longrightarrow> keeps view c (dbS3RemoveOnState E ob st q)"
    "keeps view c (dbS3FindAllFields E k q sel)"
  unfolding dbS3SetState_def dbS3SetState2_def dbS3SetOnState_def dbS3Remove_def dbS3RemoveOnState_def dbS3FindAllFields_def
  by (auto intro!: keeps_primitives [OF E] keeps_intros)

text \<open>\<open>calm f\<close>: the operation never panics.\<close>

named_theorems calm_intros \<open>operations that never panic\<close>

definition calm :: "('w, 'e, 'a) go \<Rightarrow> bool" where
  "calm f \<longleftrightarrow> (\<forall>w. fst (f w) \<noteq> Panic)"

lemma calmI: "(\<And>w. wp f (\<lambda>r _. r \<noteq> Panic) w) \<Longrightarrow> calm f"
  by (simp add: calm_def wp_def split_beta)

lemma wp_calm: "calm f \<Longrightarrow> wp f Q w \<Longrightarrow> wp f (\<lambda>r w'. r \<noteq> Panic \<and> Q r w') w"
  by (auto simp: calm_def wp_def split: prod.splits) (metis fst_conv)

lemma calm_basic [calm_intros]: "calm (gret a)" "calm (gerr e)"
  by (simp_all add: calm_def gret_app gerr_app)

lemma calm_gbind [calm_intros]: "calm f \<Longrightarrow> (\<And>a. calm (k a)) \<Longrightarrow> calm (gbind f k)"
  by (auto simp: calm_def gbind_def split: prod.splits res.splits) (metis fst_conv)

lemma calm_gtry [calm_intros]: "calm f \<Longrightarrow> (\<And>a. calm (k a)) \<Longrightarrow> calm (gtry f k)"
  by (auto simp: calm_def gtry_def split: prod.splits res.splits) (metis fst_conv)

lemma calm_gseq [calm_intros]: "calm f \<Longrightarrow> calm k \<Longrightarrow> calm (gseq f k)"
  by (simp add: gseq_def calm_gtry)

lemma calm_gfold [calm_intros]: "(\<And>x a. calm (f x a)) \<Longrightarrow> calm (gfold f xs a)"
  by (induction xs arbitrary: a) (auto intro: calm_intros)

lemma calm_geach [calm_intros]: "(\<And>x. calm (f x)) \<Longrightarrow> calm (geach f xs)"
  by (simp add: geach_def calm_gfold)

lemma calm_genv [calm_intros]: "calm (genv f)" "calm (current_timestamp E)"
  by (simp_all add: calm_def)

lemma calm_primitives:
  assumes E: "mongo_ok E view"
  shows "calm (dbS3Insert E ob)" "calm (dbS3Update E q u rn ob)" "calm (dbS3Upsert E q f ob)" "calm (dbS3RemoveCond E ob q)"
    "calm (dbS3FindOne E k q)" "calm (dbS3FindOneTop E k q ord)" "calm (dbS3FindAllSorted E k q ord)" "calm (dbS3FindAll E k q)"
    "calm (dbS3SetState E ob st q)" "calm (dbS3SetState2 E ob st g)" "calm (dbS3SetOnState E ob st q g)"
    "calm (dbS3Remove E ob)" "calm (dbS3RemoveOnState E ob st q)"
  by (rule calmI; auto intro!: wp_intros [OF E] wp_SetOnState [OF E])+

lemma calm_FindAllFields: "mongo_ok E view \<Longrightarrow> calm (dbS3FindAllFields E k q sel)"
  unfolding dbS3FindAllFields_def by (intro calm_intros calm_primitives)

section \<open>The life cycle of a document\<close>

text \<open>
  C26. Documents only move forward in their life cycle. Whatever the outcome of
  \<open>dbS3SetState\<close>, every stored document is still there, and its state is unchanged or it
  made the transition \<open>s3StateTransition\<close> allows to the requested state; a nil error means
  that a document of the requested collection did make it. In particular no call revives
  an inactive document.
\<close>

theorem state_transitions:
  assumes "mongo_ok E view" and "dbS3SetState E ob st q w = (r, w')"
  shows "(\<forall>c i d. view w c i = Some d \<longrightarrow> (\<exists>d'. view w' c i = Some d' \<and>
            (d' = d \<or> (\<exists>s. doc_state d = Some s \<and> s \<in> set (s3StateTransition st) \<and> doc_state d' = Some st
                    \<and> s \<noteq> S3StateInactive))))
       \<and> (\<forall>d. r = Ok d \<longrightarrow> doc_state d = Some st \<and> (\<exists>i. view w' (dbColl ob) i = Some d))"
proof -
  let ?q = "\<lambda>d. q d \<and> (case doc_state d of None \<Rightarrow> False | Some s \<Rightarrow> s \<in> set (s3StateTransition st))"
  have trans: "s \<noteq> S3StateInactive" if "s \<in> set (s3StateTransition st)" for s
    using that by (auto simp: s3StateTransition_def state_defs split: if_splits)
  show ?thesis
    using assms(1)
  proof (cases rule: dbS3Update_cases [where q = ?q and u = "SetU (set_state st)" and rn = True and ob = ob and w = w])
    case (ok t i d w1)
    define d' where "d' = set_mtime t (set_state st d)"
    from ok(3) obtain s where s: "doc_state d = Some s" "s \<in> set (s3StateTransition st)"
      by (auto simp: dbS3SetObjID_def split: option.splits)
    have d': "doc_state d' = Some st" using s by (simp add: d'_def doc_state_set_state)
    have r: "r = Ok d'" "w' = w1" "view w1 = put_doc (dbColl ob) i (Some d') (view w)"
      using ok assms(2)
      by (simp_all add: dbS3SetState_def dbS3SetOnState_def dbS3UpdateMTime_def d'_def)
    have "\<exists>d2. view w' c j = Some d2 \<and> (d2 = d1 \<or> (\<exists>s. doc_state d1 = Some s \<and>
        s \<in> set (s3StateTransition st) \<and> doc_state d2 = Some st \<and> s \<noteq> S3StateInactive))"
      if "view w c j = Some d1" for c j d1
    proof (cases "c = dbColl ob \<and> j = i")
      case True
      then show ?thesis using that ok(2) r d' s trans by auto
    next
      case False
      then show ?thesis using that r by (simp add: put_doc_other)
    qed
    moreover have "view w' (dbColl ob) i = Some d'" using r by simp
    ultimately show ?thesis using r d' by blast
  next
    case (nf w1)
    then show ?thesis using assms(2)
      by (auto simp: dbS3SetState_def dbS3SetOnState_def)
  next
    case (io e w1)
    then show ?thesis using assms(2)
      by (auto simp: dbS3SetState_def dbS3SetOnState_def)
  qed
qed

end
