(* ===== verification/S3_Mem.thy ===== *)
theory S3_Mem
  imports S3_DB
begin

text \<open>
  An in-memory database that satisfies the laws of \<open>S3_DB\<close>, with a clock that stands
  still and a counter for object ids. It instantiates the environment parameter in the
  witnesses of the properties that assume those laws.
\<close>

record mem =
  m_keys :: "(coll \<times> oid) list"
  m_docs :: "coll \<times> oid \<Rightarrow> doc option"
  m_next :: nat

definition mview :: "mem \<Rightarrow> dbview" where
  "mview w c i = (if (c, i) \<in> set (m_keys w) then m_docs w (c, i) else None)"

definition hit :: "mem \<Rightarrow> coll \<Rightarrow> (doc \<Rightarrow> bool) \<Rightarrow> coll \<times> oid \<Rightarrow> bool" where
  "hit w c q k \<longleftrightarrow> fst k = c \<and> (case m_docs w k of None \<Rightarrow> False | Some d \<Rightarrow> q d)"

definition mput :: "coll \<times> oid \<Rightarrow> doc option \<Rightarrow> mem \<Rightarrow> mem" where
  "mput k d w = w\<lparr>m_keys := k # m_keys w, m_docs := (m_docs w)(k := d)\<rparr>"

definition msorted :: "mem \<Rightarrow> coll \<Rightarrow> (doc \<Rightarrow> bool) \<Rightarrow> (doc \<Rightarrow> sortkey) \<Rightarrow> doc list" where
  "msorted w c q ord = sort_key ord (remdups (map (the \<circ> m_docs w) (filter (hit w c q) (m_keys w))))"

definition fresh_id :: "mem \<Rightarrow> oid" where
  "fresh_id w = replicate (Suc (m_next w + sum_list (map (length \<circ> snd) (m_keys w)))) (CHR ''i'')"

definition mdup :: "mem \<Rightarrow> doc \<Rightarrow> bool" where
  "mdup w d \<longleftrightarrow> mview w (dbColl d) (doc_id d) \<noteq> None
     \<or> list_ex (hit w (dbColl d) (\<lambda>d'. list_ex (\<lambda>k. list_ex ((=) k) (unique_keys d')) (unique_keys d))) (m_keys w)"

fun msrv :: "db_request \<Rightarrow> mem \<Rightarrow> reply \<times> mem" where
  "msrv (Insert d) w =
     (if \<not> mdup w d then (RDone, mput (dbColl d, doc_id d) (Some d) w)
      else (RFail ''duplicate key'', w))"
| "msrv (Apply c q u rn) w =
     (case List.find (hit w c q) (m_keys w) of
        None \<Rightarrow> (RNotFound, w)
      | Some k \<Rightarrow> let d = the (m_docs w k)
                  in (RDoc (if rn then u d else d), mput k (Some (u d)) w))"
| "msrv (Upsert c q u n) w =
     (case List.find (hit w c q) (m_keys w) of
        None \<Rightarrow> let n' = (if doc_id n = [] then set_id (fresh_id w) n else n)
                in if mdup w n' then (RFail ''duplicate key'', w) else (RDoc n', mput (c, doc_id n') (Some n') w)
      | Some k \<Rightarrow> let d = the (m_docs w k) in (RDoc (u d), mput k (Some (u d)) w))"
| "msrv (RemoveOne c q) w =
     (case List.find (hit w c q) (m_keys w) of
        None \<Rightarrow> (RNotFound, w)
      | Some k \<Rightarrow> (RDoc (the (m_docs w k)), mput k None w))"
| "msrv (FindOne c q ord) w =
     (case msorted w c q ord of [] \<Rightarrow> (RNotFound, w) | d # _ \<Rightarrow> (RDoc d, w))"
| "msrv (FindAll c q ord) w = (RDocs (msorted w c q ord), w)"

definition mem_env :: "mem env" where
  "mem_env = \<lparr>srv = msrv,
     newid = (\<lambda>w. (fresh_id w, w\<lparr>m_next := Suc (m_next w)\<rparr>)),
     clock = (\<lambda>w. (1000, w)), clock_rfc3339 = (\<lambda>w. (''2019-01-01T00:00:00Z'', w)),
     rand_read = (\<lambda>n w. (Some (replicate n 0), w)),
     Sha256sum = (\<lambda>s. s), md5hex = (\<lambda>s. s), oid_hex = (\<lambda>i. i),
     sha256 = (\<lambda>s. s), hmac_sha256 = (\<lambda>k s. k @ s), adminAccToken = ''0123456789abcdef'',
     cipher = \<lparr>cfb_new = (\<lambda>_. True), cfb_enc = (\<lambda>_ _ m. m), cfb_dec = (\<lambda>_ _ m. m)\<rparr>,
     s3SecKey = ''key'', radosDisabled = True, rados = (\<lambda>_ w. (RadosErr ''disabled'', w)),
     S3StorageDefaultListObjects = 1000, S3InlineDataSize = 4, S3MaxChunkSize = 8, publish = (\<lambda>_ _ w. (Ok (), w))\<rparr>"

definition mem_of :: "doc list \<Rightarrow> mem" where
  "mem_of ds = \<lparr>m_keys = map (\<lambda>d. (dbColl d, doc_id d)) ds,
     m_docs = map_of (map (\<lambda>d. ((dbColl d, doc_id d), d)) ds), m_next = 0\<rparr>"

lemma mview_mput: "mview (mput (c, i) d w) = put_doc c i d (mview w)"
  by (auto simp: mview_def mput_def put_doc_def fun_eq_iff)

lemma matching_mview: "matching (mview w) c q = {the (m_docs w k) |k. k \<in> set (m_keys w) \<and> hit w c q k}"
proof -
  have "mview w c (snd k) = Some d \<and> q d" if "k \<in> set (m_keys w)" "hit w c q k" "d = the (m_docs w k)" for k d
    using that by (auto simp: hit_def mview_def split: option.splits)
  moreover have "(c, i) \<in> set (m_keys w) \<and> hit w c q (c, i) \<and> the (m_docs w (c, i)) = d"
    if "mview w c i = Some d" "q d" for i d
    using that by (auto simp: hit_def mview_def split: if_splits)
  ultimately show ?thesis unfolding matching_def by blast
qed

lemma find_hit_None: "List.find (hit w c q) (m_keys w) = None \<Longrightarrow> matching (mview w) c q = {}"
  by (auto simp: matching_mview find_None_iff)

lemma find_hit_Some:
  assumes "List.find (hit w c q) (m_keys w) = Some k"
  obtains i d where "k = (c, i)" and "m_docs w k = Some d" and "mview w c i = Some d" and "q d"
proof -
  from assms have k: "k \<in> set (m_keys w)" "hit w c q k"
    by (auto simp: find_Some_iff in_set_conv_nth)
  then obtain d where "m_docs w k = Some d" "q d" "fst k = c"
    by (auto simp: hit_def split: option.splits)
  with k show thesis by (intro that [of "snd k" d]) (auto simp: mview_def)
qed

lemma set_msorted: "set (msorted w c q ord) = matching (mview w) c q"
  by (auto simp: msorted_def matching_mview)

lemma fresh_id_new: "mview w c (fresh_id w) = None"
proof -
  have "length (snd k) \<le> sum_list (map (length \<circ> snd) (m_keys w))" if "k \<in> set (m_keys w)" for k
    using that by (auto intro!: member_le_sum_list)
  then have "length i < length (fresh_id w)" if "(c, i) \<in> set (m_keys w)" for i
    using that by (fastforce simp: fresh_id_def)
  then show ?thesis by (auto simp: mview_def)
qed

lemma set_id_self: "set_id (doc_id d) d = d"
  by (cases d) auto

lemma mdup_iff: "mdup w d \<longleftrightarrow> duplicate (mview w) d"
  by (auto simp: mdup_def duplicate_def matching_mview list_ex_iff)

theorem mem_env_ok: "mongo_ok mem_env mview"
proof -
  have "insert_law mem_env mview"
    by (auto simp: insert_law_def mem_env_def mview_mput mdup_iff)
  moreover have "apply_law mem_env mview"
    unfolding apply_law_def
  proof (intro allI)
    fix c q u rn w
    show "case srv mem_env (Apply c q u rn) w of
       (RDoc r, w') \<Rightarrow> (\<exists>i d. mview w c i = Some d \<and> q d \<and> r = (if rn then u d else d)
                           \<and> mview w' = put_doc c i (Some (u d)) (mview w))
     | (RNotFound, w') \<Rightarrow> matching (mview w) c q = {} \<and> mview w' = mview w
     | (RFail _, w') \<Rightarrow> mview w' = mview w
     | _ \<Rightarrow> False"
    proof (cases "List.find (hit w c q) (m_keys w)")
      case None
      then show ?thesis using find_hit_None [OF None] by (simp add: mem_env_def)
    next
      case (Some k)
      then obtain i d where k: "k = (c, i)" "m_docs w k = Some d" "mview w c i = Some d" "q d"
        by (elim find_hit_Some)
      then have "srv mem_env (Apply c q u rn) w = (RDoc (if rn then u d else d), mput k (Some (u d)) w)"
        using Some by (simp add: mem_env_def Let_def)
      then show ?thesis using k mview_mput by fastforce
    qed
  qed
  moreover have "upsert_law mem_env mview"
    unfolding upsert_law_def
  proof (intro allI)
    fix c q u n w
    show "dbColl n = c \<longrightarrow> (case srv mem_env (Upsert c q u n) w of
       (RDoc r, w') \<Rightarrow>
         (\<exists>i d. mview w c i = Some d \<and> q d \<and> r = u d \<and> mview w' = put_doc c i (Some (u d)) (mview w))
         \<or> (\<exists>i. matching (mview w) c q = {} \<and> i \<noteq> [] \<and> (doc_id n \<noteq> [] \<longrightarrow> i = doc_id n) \<and> r = set_id i n
               \<and> \<not> duplicate (mview w) r \<and> mview w' = put_doc c i (Some r) (mview w))
     | (RFail _, w') \<Rightarrow> mview w' = mview w
     | _ \<Rightarrow> False)"
    proof (cases "List.find (hit w c q) (m_keys w)")
      case None
      then show ?thesis
        using find_hit_None [OF None] mview_mput
        by (auto simp: mem_env_def Let_def mdup_iff fresh_id_def set_id_self)
    next
      case (Some k)
      then obtain i d where k: "k = (c, i)" "m_docs w k = Some d" "mview w c i = Some d" "q d"
        by (elim find_hit_Some)
      then have "srv mem_env (Upsert c q u n) w = (RDoc (u d), mput k (Some (u d)) w)"
        using Some by (simp add: mem_env_def Let_def)
      then show ?thesis using k mview_mput by fastforce
    qed
  qed
  moreover have "remove_law mem_env mview"
    unfolding remove_law_def
  proof (intro allI)
    fix c q w
    show "case srv mem_env (RemoveOne c q) w of
       (RDoc r, w') \<Rightarrow> (\<exists>i. mview w c i = Some r \<and> q r \<and> mview w' = put_doc c i None (mview w))
     | (RNotFound, w') \<Rightarrow> matching (mview w) c q = {} \<and> mview w' = mview w
     | (RFail _, w') \<Rightarrow> mview w' = mview w
     | _ \<Rightarrow> False"
    proof (cases "List.find (hit w c q) (m_keys w)")
      case None
      then show ?thesis using find_hit_None [OF None] by (simp add: mem_env_def)
    next
      case (Some k)
      then obtain i d where k: "k = (c, i)" "m_docs w k = Some d" "mview w c i = Some d" "q d"
        by (elim find_hit_Some)
      then have "srv mem_env (RemoveOne c q) w = (RDoc d, mput k None w)"
        using Some by (simp add: mem_env_def)
      then show ?thesis using k mview_mput by fastforce
    qed
  qed
  moreover have "find_law mem_env mview"
  proof -
    have "sorted (map ord (msorted w c q ord)) \<and> distinct (msorted w c q ord)" for w c q ord
      by (simp add: msorted_def)
    then have least: "ord d \<le> ord d'" if "msorted w c q ord = d # ds" "d' \<in> matching (mview w) c q" for w c q ord d ds d'
      using that set_msorted [of w c q ord] by (metis set_ConsD list.simps(9) image_eqI list.set_map sorted_simps(2) order_refl)
    have mem: "d \<in> matching (mview w) c q" if "msorted w c q ord = d # ds" for w c q ord d ds
      using that set_msorted [of w c q ord] by auto
    have none: "matching (mview w) c q = {}" if "msorted w c q ord = []" for w c q ord
      using that set_msorted [of w c q ord] by auto
    show ?thesis
      unfolding find_law_def
      using least mem none
      by (auto simp: mem_env_def set_msorted split: list.splits) (simp_all add: msorted_def)
  qed
  moreover have "ambient_law mem_env mview"
    by (auto simp: ambient_law_def mem_env_def fresh_id_new) (simp_all add: mview_def fresh_id_def fun_eq_iff)
  ultimately show ?thesis by (simp add: mongo_ok_def)
qed

lemma mem_upsert_fail:
  assumes "fst (srv mem_env (Upsert c q u n) w) = RFail e"
  shows "matching (mview w) c q = {} \<and> (\<exists>i. duplicate (mview w) (set_id i n)
           \<and> (if doc_id n = [] then mview w c i = None else i = doc_id n))"
proof -
  let ?i = "if doc_id n = [] then fresh_id w else doc_id n"
  from assms have "List.find (hit w c q) (m_keys w) = None" "duplicate (mview w) (set_id ?i n)"
    by (auto simp: mem_env_def mdup_iff Let_def set_id_self split: option.splits if_splits)
  then show ?thesis using find_hit_None [of w c q] fresh_id_new [of w c] by (auto split: if_splits)
qed

lemma mem_no_faults: "no_faults mem_env mview"
proof -
  have "(\<exists>d. r = Insert d \<and> duplicate (mview w) d)
      \<or> (\<exists>c q u n i. r = Upsert c q u n \<and> matching (mview w) c q = {} \<and> duplicate (mview w) (set_id i n)
          \<and> (if doc_id n = [] then mview w c i = None else i = doc_id n))"
    if fail: "fst (srv mem_env r w) = RFail e" for r w e
  proof (cases r)
    case (Upsert c q u n)
    then show ?thesis using mem_upsert_fail [of c q u n w e] fail by blast
  qed (use fail in \<open>simp_all add: mem_env_def mdup_iff Let_def split: option.splits list.splits if_splits\<close>)
  then show ?thesis unfolding no_faults_def by blast
qed

lemma mview_mem_of: "mview (mem_of ds) c i = map_of (map (\<lambda>d. ((dbColl d, doc_id d), d)) ds) (c, i)"
proof (cases "map_of (map (\<lambda>d. ((dbColl d, doc_id d), d)) ds) (c, i)")
  case (Some d)
  then have "(c, i) \<in> set (m_keys (mem_of ds))"
    by (force simp: mem_of_def dest: map_of_SomeD)
  with Some show ?thesis by (simp add: mview_def mem_of_def)
qed (simp add: mview_def mem_of_def)

lemma ids_ok_mem_of [simp]: "ids_ok (mview (mem_of ds))"
  unfolding ids_ok_def mview_mem_of by (auto dest!: map_of_SomeD)

text \<open>A bucket made inactive, as the first step of its deletion.\<close>

theorem state_transitions_witness:
  "let b = zero_Bucket\<lparr>b_ObjID := ''b1'', b_State := S3StateActive\<rparr>; w = mem_of [DBucket b];
       p = dbS3SetState mem_env (DBucket b) S3StateInactive (\<lambda>_. True) w in
   mview w S3Buckets ''b1'' = Some (DBucket b)
   \<and> (\<exists>d. mview (snd p) S3Buckets ''b1'' = Some d \<and> doc_state d = Some S3StateInactive)"
proof -
  define b where "b = zero_Bucket\<lparr>b_ObjID := ''b1'', b_State := S3StateActive\<rparr>"
  define w where "w = mem_of [DBucket b]"
  obtain r w' where p: "dbS3SetState mem_env (DBucket b) S3StateInactive (\<lambda>_. True) w = (r, w')" by fastforce
  have v: "mview w S3Buckets ''b1'' = Some (DBucket b)" by (simp add: w_def b_def mem_of_def mview_def)
  have "\<exists>d. r = Ok d \<and> dbColl d = S3Buckets \<and> doc_id d = ''b1''"
    using p by (simp add: w_def b_def mem_of_def dbS3SetState_def dbS3SetOnState_def dbS3Update_def gbind_def
        dcall_def gotdoc_def gret_def mem_env_def hit_def dbS3SetObjID_def dbS3UpdateMTime_def s3StateTransition_def
        state_defs zero_Bucket_def) auto
  moreover have "mview w' c i = None" if "c \<noteq> S3Buckets \<or> i \<noteq> ''b1''" for c i
    using p that by (auto simp: w_def b_def mem_of_def dbS3SetState_def dbS3SetOnState_def dbS3Update_def gbind_def
        dcall_def gotdoc_def gret_def mem_env_def hit_def dbS3SetObjID_def dbS3UpdateMTime_def s3StateTransition_def
        state_defs zero_Bucket_def mview_def mput_def)
  ultimately have "\<exists>d. mview w' S3Buckets ''b1'' = Some d \<and> doc_state d = Some S3StateInactive"
    using state_transitions [OF mem_env_ok p] by (metis b_def dbColl.simps(5) option.distinct(1))
  then show ?thesis using p v unfolding b_def w_def by (simp add: Let_def)
qed

end
