(* ===== verification/S3_Keys.thy ===== *)
theory S3_Keys
  imports S3_Mem
begin

text \<open>
  Accounts, iams and access keys: \<open>src/s3/iam.go\<close>, \<open>src/s3/keys.go\<close>, the names of
  \<open>src/s3/mgo/nmap.go\<close> and \<open>src/s3/nmap.go\<close>, and the expiration of \<open>src/s3/mgo/bits.go\<close>.
  A handler's context is reduced to the iam it was authorised with.
\<close>

section \<open>Names\<close>

definition AccountUser :: "string \<Rightarrow> string \<Rightarrow> string" where
  "AccountUser namespace user = namespace @ '':'' @ user"

definition IamUser :: "Account \<Rightarrow> string \<Rightarrow> string" where
  "IamUser account user = ac_User account @ '':'' @ user"

definition NamespaceID :: "'w env \<Rightarrow> Account \<Rightarrow> string" where
  "NamespaceID E account = Sha256sum E (ac_Namespace account)"

definition BCookie :: "'w env \<Rightarrow> string \<Rightarrow> string \<Rightarrow> string" where
  "BCookie E namespace bucket = Sha256sum E (namespace @ bucket)"

definition account_BCookie :: "'w env \<Rightarrow> Account \<Rightarrow> string \<Rightarrow> string" where
  "account_BCookie E account bname = BCookie E (ac_Namespace account) bname"

definition UploadUID :: "'w env \<Rightarrow> Bucket \<Rightarrow> string \<Rightarrow> string" where
  "UploadUID E bucket oname = Sha256sum E (b_BCookie bucket @ oname)"

definition OCookie :: "'w env \<Rightarrow> Bucket \<Rightarrow> string \<Rightarrow> int \<Rightarrow> string" where
  "OCookie E bucket oname version =
     (let version = (if version \<noteq> 1 then 1 else version)
      in Sha256sum E (b_BCookie bucket @ oname @ Itoa version))"

definition UCookie :: "'w env \<Rightarrow> S3Upload \<Rightarrow> string \<Rightarrow> int \<Rightarrow> string" where
  "UCookie E upload oname part = Sha256sum E (u_UploadID upload @ oname @ Itoa part)"

text \<open>The \<open>String\<close> method of an object id.\<close>

definition oid_String :: "'w env \<Rightarrow> oid \<Rightarrow> string" where
  "oid_String E i = ''ObjectIdHex('' @ [CHR 0x22] @ oid_hex E i @ [CHR 0x22] @ '')''"

section \<open>Accounts and iams\<close>

definition is_active :: "doc \<Rightarrow> bool" where
  "is_active d \<longleftrightarrow> doc_state d = Some S3StateActive"

definition q_namespace :: "string \<Rightarrow> doc \<Rightarrow> bool" where
  "q_namespace ns d \<longleftrightarrow> (case d of DAccount a \<Rightarrow> ac_Namespace a = ns \<and> ac_State a = S3StateActive | _ \<Rightarrow> False)"

definition q_active_id :: "oid \<Rightarrow> doc \<Rightarrow> bool" where
  "q_active_id i d \<longleftrightarrow> doc_id d = i \<and> is_active d"

definition s3AccountInsert :: "'w env \<Rightarrow> string \<Rightarrow> string \<Rightarrow> ('w, goerr, Account) go" where
  "s3AccountInsert E namespace user =
     (if namespace = [] then gerr (GoErr ''s3: Empty namespace'')
      else gbind (genv (newid E)) (\<lambda>id.
           gbind (current_timestamp E) (\<lambda>timestamp.
           gbind (genv (clock_rfc3339 E)) (\<lambda>now.
           let account = \<lparr>ac_ObjID = id, ac_MTime = timestamp, ac_State = S3StateActive,
                 ac_AwsID = Sha256sum E (oid_String E id), ac_Namespace = namespace,
                 ac_CreationTime = now, ac_User = AccountUser namespace user, ac_Email = user @ ''@mail''\<rparr>
           in gbind (dbS3Upsert E (q_namespace namespace) (\<lambda>d. d) (DAccount account)) (\<lambda>d. gret (as_Account d))))))"

definition s3AccountLookup :: "'w env \<Rightarrow> Iam option \<Rightarrow> ('w, goerr, Account) go" where
  "s3AccountLookup E ctx_iam =
     (case ctx_iam of None \<Rightarrow> gpanic
      | Some iam \<Rightarrow> gbind (dbS3FindOne E S3Iams (q_active_id (iam_AccountObjID iam))) (\<lambda>d. gret (as_Account d)))"

definition s3AccountFind :: "'w env \<Rightarrow> string \<Rightarrow> ('w, goerr, Account) go" where
  "s3AccountFind E namespace =
     gbind (dbS3FindOne E S3Iams (q_namespace namespace)) (\<lambda>d. gret (as_Account d))"

definition q_account_iams :: "oid \<Rightarrow> doc \<Rightarrow> bool" where
  "q_account_iams acc d \<longleftrightarrow> (case d of DIam i \<Rightarrow> iam_AccountObjID i = acc \<and> iam_State i = S3StateActive | _ \<Rightarrow> False)"

definition s3FindFullAccessIam :: "'w env \<Rightarrow> string \<Rightarrow> ('w, goerr, Iam) go" where
  "s3FindFullAccessIam E namespace =
     (if namespace = [] then gerr (GoErr ''s3: Empty namespace'')
      else gbind (s3AccountFind E namespace) (\<lambda>account.
           gbind (dbS3FindAll E S3Iams (q_account_iams (ac_ObjID account))) (\<lambda>ds.
             case List.find (\<lambda>iam. isRoot (Some (iam_Policy iam))) (map as_Iam ds) of
               Some iam \<Rightarrow> gret iam
             | None \<Rightarrow> gerr (GoErr ''No root iam found''))))"

text \<open>Deactivate, then remove; a document that is gone already is no error. The removal names the
  caller's object with the id just decoded into it.\<close>

definition drop_doc :: "'w env \<Rightarrow> doc \<Rightarrow> ('w, goerr, unit) go" where
  "drop_doc E ob =
     gtry (dbS3SetState E ob S3StateInactive (\<lambda>_. True)) (\<lambda>r. case r of
       Inl e \<Rightarrow> if e = ErrNotFound then gret () else gerr e
     | Inr ob' \<Rightarrow> gseq (dbS3Remove E (set_id (doc_id ob') ob)) (gret ()))"

definition s3AccountDelete :: "'w env \<Rightarrow> Account \<Rightarrow> ('w, goerr, unit) go" where
  "s3AccountDelete E account = drop_doc E (DAccount account)"

definition s3IamNew :: "'w env \<Rightarrow> Account \<Rightarrow> Policy \<Rightarrow> ('w, goerr, Iam) go" where
  "s3IamNew E account policy =
     gbind (genv (newid E)) (\<lambda>id.
     gbind (current_timestamp E) (\<lambda>timestamp.
     gbind (genv (clock_rfc3339 E)) (\<lambda>now.
     let iam = \<lparr>iam_ObjID = id, iam_MTime = timestamp, iam_State = S3StateActive,
           iam_AwsID = Sha256sum E (oid_String E id), iam_AccountObjID = ac_ObjID account,
           iam_Policy = policy, iam_CreationTime = now, iam_User = IamUser account (oid_hex E id)\<rparr>
     in gbind (dbS3Insert E (DIam iam)) (\<lambda>d. gret (as_Iam d)))))"

definition s3IamDelete :: "'w env \<Rightarrow> Iam \<Rightarrow> ('w, goerr, unit) go" where
  "s3IamDelete E iam = drop_doc E (DIam iam)"

definition s3LookupIam :: "'w env \<Rightarrow> oid \<Rightarrow> ('w, goerr, Iam) go" where
  "s3LookupIam E i = gbind (dbS3FindOne E S3Iams (q_active_id i)) (\<lambda>d. gret (as_Iam d))"

definition s3IamFind :: "'w env \<Rightarrow> AccessKey \<Rightarrow> ('w, goerr, Iam) go" where
  "s3IamFind E akey = s3LookupIam E (k_IamObjID akey)"

section \<open>Access keys\<close>

definition AccessKeyLetters :: string where
  "AccessKeyLetters = ''ABCDEFGHIJKLMNOPQRSTUVWXYZ0123456789''"

definition SecretKeyLetters :: string where
  "SecretKeyLetters = ''ABCDEFGHIJKLMNOPQRSTUVWXYZabcdefghijklmnopqrstuvwxyz0123456789''"

definition genKey :: "'w env \<Rightarrow> nat \<Rightarrow> string \<Rightarrow> ('w, goerr, string) go" where
  "genKey E len dict =
     gbind (genv (rand_read E len)) (\<lambda>r. case r of
       None \<Rightarrow> gret []
     | Some idx \<Rightarrow> gret (map (\<lambda>j. dict ! (j mod length dict)) idx))"

definition q_endless :: "oid \<Rightarrow> doc \<Rightarrow> bool" where
  "q_endless acc d \<longleftrightarrow> (case d of DKey k \<Rightarrow> k_AccountObjID k = acc \<and> k_State k = S3StateActive
     \<and> k_ExpirationTimestamp k = TimeStampMax | _ \<Rightarrow> False)"

fun find_policy_key :: "'w env \<Rightarrow> Policy \<Rightarrow> AccessKey list \<Rightarrow> ('w, goerr, AccessKey) go" where
  "find_policy_key E policy [] = gerr (GoErr ''Not found'')"
| "find_policy_key E policy (key # ks) =
     gtry (dbS3FindOne E S3Iams (q_active_id (k_IamObjID key))) (\<lambda>r. case r of
       Inl _ \<Rightarrow> find_policy_key E policy ks
     | Inr d \<Rightarrow> if PolicyEqual policy (iam_Policy (as_Iam d)) then gret key else find_policy_key E policy ks)"

definition getEndlessKey :: "'w env \<Rightarrow> Account \<Rightarrow> Policy \<Rightarrow> ('w, goerr, AccessKey) go" where
  "getEndlessKey E account policy =
     gbind (dbS3FindAll E S3AccessKeys (q_endless (ac_ObjID account))) (\<lambda>ds.
     find_policy_key E policy (map as_Key ds))"

definition encrypt_secret :: "'w env \<Rightarrow> string \<Rightarrow> ('w, goerr, string) go" where
  "encrypt_secret E plain =
     gbind (genv (rand_read E BlockSize)) (\<lambda>nonce.
       case EncryptString (cipher E) (map_option (map char_of) nonce) (s3SecKey E) plain of
         Ok s \<Rightarrow> gret s | Err _ \<Rightarrow> gerr (GoErr ''encryption failed'') | Panic \<Rightarrow> gpanic)"

text \<open>The labels \<open>out_2\<close> and \<open>out_1\<close>: undo in reverse order and report the first error.\<close>

definition undo_key :: "'w env \<Rightarrow> Iam option \<Rightarrow> Account \<Rightarrow> goerr \<Rightarrow> ('w, goerr, AccessKey) go" where
  "undo_key E iam account err =
     (case iam of
        Some i \<Rightarrow> gseq (s3IamDelete E i) (gseq (s3AccountDelete E account) (gerr err))
      | None \<Rightarrow> gseq (s3AccountDelete E account) (gerr err))"

definition new_key :: "'w env \<Rightarrow> Account \<Rightarrow> Policy \<Rightarrow> int \<Rightarrow> int \<Rightarrow> ('w, goerr, AccessKey) go" where
  "new_key E account policy timestamp_now expired_when =
     gtry (s3IamNew E account policy) (\<lambda>r. case r of
       Inl e \<Rightarrow> undo_key E None account e
     | Inr iam \<Rightarrow>
         gbind (genv (newid E)) (\<lambda>id.
         gbind (genKey E 20 AccessKeyLetters) (\<lambda>akid.
         gbind (genKey E 40 SecretKeyLetters) (\<lambda>secret.
         if akid = [] \<or> secret = [] then undo_key E (Some iam) account (GoErr ''s3: Can't generate keys'')
         else gtry (encrypt_secret E secret) (\<lambda>r. case r of
           Inl e \<Rightarrow> undo_key E (Some iam) account e
         | Inr enc \<Rightarrow>
             let akey = \<lparr>k_ObjID = id, k_MTime = 0, k_State = S3StateActive, k_AccountObjID = ac_ObjID account,
                   k_IamObjID = iam_ObjID iam, k_CreationTimestamp = timestamp_now,
                   k_ExpirationTimestamp = expired_when, k_AccessKeyID = akid, k_AccessKeySecret = enc\<rparr>
             in gtry (dbS3Insert E (DKey akey)) (\<lambda>r. case r of
                  Inl e \<Rightarrow> undo_key E (Some iam) account e
                | Inr d \<Rightarrow> gret (as_Key d)))))))"

definition genNewAccessKey :: "'w env \<Rightarrow> string \<Rightarrow> string \<Rightarrow> int \<Rightarrow> ('w, goerr, AccessKey) go" where
  "genNewAccessKey E namespace bname lifetime =
     gbind (s3AccountInsert E namespace ''user'') (\<lambda>account.
     let policy = (if bname \<noteq> [] then getBucketPolicy bname else getRootPolicy)
     in gbind (current_timestamp E) (\<lambda>timestamp_now.
        if lifetime \<noteq> 0 then new_key E account policy timestamp_now (int64_of (timestamp_now + lifetime))
        else gtry (getEndlessKey E account policy) (\<lambda>r. case r of
               Inr akey \<Rightarrow> gret akey
             | Inl _ \<Rightarrow> new_key E account policy timestamp_now TimeStampMax)))"

definition FindBuckets :: "'w env \<Rightarrow> Iam option \<Rightarrow> ('w, goerr, Bucket list) go" where
  "FindBuckets E ctx_iam =
     gbind (s3AccountLookup E ctx_iam) (\<lambda>account.
     gbind (dbS3FindAll E S3Buckets (\<lambda>d. case d of DBucket b \<Rightarrow> b_NamespaceID b = NamespaceID E account | _ \<Rightarrow> False))
       (\<lambda>ds. gret (map as_Bucket ds)))"

definition s3DecryptAccessKeySecret :: "'w env \<Rightarrow> AccessKey \<Rightarrow> ('w, goerr, string) go" where
  "s3DecryptAccessKeySecret E akey =
     (case DecryptString (cipher E) (s3SecKey E) (k_AccessKeySecret akey) of
        Ok sec \<Rightarrow> gret sec | Err _ \<Rightarrow> gret [] | Panic \<Rightarrow> gpanic)"

definition Expired :: "int \<Rightarrow> AccessKey \<Rightarrow> bool" where
  "Expired now akey \<longleftrightarrow> (if k_ExpirationTimestamp akey < TimeStampMax then now > k_ExpirationTimestamp akey else False)"

definition q_key :: "string \<Rightarrow> doc \<Rightarrow> bool" where
  "q_key i d \<longleftrightarrow> (case d of DKey k \<Rightarrow> k_AccessKeyID k = i \<and> k_State k = S3StateActive | _ \<Rightarrow> False)"

definition dbLookupAccessKey :: "'w env \<Rightarrow> string \<Rightarrow> ('w, goerr, AccessKey) go" where
  "dbLookupAccessKey E i = gbind (dbS3FindOne E S3AccessKeys (q_key i)) (\<lambda>d. gret (as_Key d))"

definition LookupAccessKey :: "'w env \<Rightarrow> string \<Rightarrow> ('w, goerr, AccessKey) go" where
  "LookupAccessKey E i =
     gbind (dbLookupAccessKey E i) (\<lambda>akey.
     gbind (current_timestamp E) (\<lambda>now.
     if Expired now akey then gerr (GoErr ''Expired key'') else gret akey))"

definition drop_key :: "'w env \<Rightarrow> AccessKey \<Rightarrow> ('w, goerr, unit) go" where
  "drop_key E akey =
     gtry (s3IamFind E akey) (\<lambda>r. case r of
       Inr iam \<Rightarrow> gseq (s3IamDelete E iam) (dbS3Remove E (DKey akey))
     | Inl _ \<Rightarrow> dbS3Remove E (DKey akey))"

definition dbRemoveAccessKey :: "'w env \<Rightarrow> string \<Rightarrow> ('w, goerr, unit) go" where
  "dbRemoveAccessKey E i = gbind (dbLookupAccessKey E i) (drop_key E)"

text \<open>An expiration time of zero is not stored, so the collector never sees it; a failed query
  ends the round.\<close>

definition q_expired :: "int \<Rightarrow> doc \<Rightarrow> bool" where
  "q_expired now d \<longleftrightarrow> (case d of DKey k \<Rightarrow> k_ExpirationTimestamp k \<noteq> 0 \<and> k_ExpirationTimestamp k < now | _ \<Rightarrow> False)"

definition gc_keys :: "'w env \<Rightarrow> ('w, goerr, unit) go" where
  "gc_keys E =
     gbind (current_timestamp E) (\<lambda>now.
     gtry (dbS3FindAll E S3AccessKeys (q_expired now)) (\<lambda>r. case r of
       Inl _ \<Rightarrow> gret ()
     | Inr ds \<Rightarrow> geach (\<lambda>d. gseq (drop_key E (as_Key d)) (gret ())) ds))"

section \<open>Properties\<close>

lemma q_key_iff: "q_key i d \<longleftrightarrow> (\<exists>k. d = DKey k \<and> k_AccessKeyID k = i \<and> k_State k = S3StateActive)"
  by (auto simp: q_key_def split: doc.splits)

lemma q_namespace_iff:
  "q_namespace ns d \<longleftrightarrow> (\<exists>a. d = DAccount a \<and> ac_Namespace a = ns \<and> ac_State a = S3StateActive)"
  by (auto simp: q_namespace_def split: doc.splits)

lemma EncryptString_no_panic [simp]: "EncryptString C r k p \<noteq> Panic"
  by (simp add: EncryptString_def Let_def split: option.splits)

lemma wp_drop_doc:
  assumes E: "mongo_ok E view" and "no_faults E view" and ids: "ids_ok (view w)"
    and "dbColl ob = c" "doc_id ob = i" "i \<noteq> []"
    and d: "view w c i = Some d" "doc_state d = Some S3StateActive"
    and Q: "\<And>w'. view w' = put_doc c i None (view w) \<Longrightarrow> Q (Ok ()) w'"
  shows "wp (drop_doc E ob) Q w"
  unfolding drop_doc_def wp_simps
proof (rule wp_SetState [OF E], goal_cases set nf io)
  case (set t j d' w1)
  define d1 where "d1 = set_mtime t (set_state S3StateInactive d')"
  have j: "j = i" "d' = d" using set(1,4) assms(4-6) d(1) ids_okD [OF ids, of c j d'] by auto
  have d1: "doc_id d1 = i" "dbColl d1 = c" using j ids_okD [OF ids d(1)] by (auto simp: d1_def)
  have v1: "view w1 = put_doc c i (Some d1) (view w)" using set assms(4) j by (simp add: d1_def)
  have ids1: "ids_ok (view w1)" using ids d1 by (simp add: v1)
  have "wp (dbS3Remove E (set_id (doc_id d1) ob)) (on_any (\<lambda>_. wp (gret ()) Q) Q) w1"
  proof (rule wp_Remove [OF E], goal_cases gone nf io)
    case (gone k d2 w2)
    then have "k = i" using ids_okD [OF ids1] d1 assms(4) \<open>i \<noteq> []\<close> by auto
    then show ?case using gone v1 Q assms(4) by (simp add: wp_simps)
  next
    case (nf w2)
    then show ?case using matchingI [of "view w1" c i d1 "dbS3SetObjID (set_id (doc_id d1) ob) (\<lambda>_. True)"] d1 assms(4)
      by (simp add: v1 dbS3SetObjID_def)
  qed (use assms(2) in auto)
  then show ?case by (simp add: d1_def wp_simps)
next
  case (nf w1)
  then have "d \<notin> matching (view w) (dbColl ob) (dbS3SetObjID ob (\<lambda>d. True \<and> in_trans S3StateInactive d))" by simp
  then show ?case using matchingI [of "view w" c i d] assms ids_okD [OF ids d(1)] by (simp add: dbS3SetObjID_def)
qed (use assms in auto)

lemma wp_s3AccountInsert:
  assumes E: "mongo_ok E view"
    and "namespace = [] \<Longrightarrow> Q (Err (GoErr ''s3: Empty namespace'')) w"
    and "\<And>i a w'. view w' = view w \<Longrightarrow> view w S3Iams i = Some (DAccount a) \<Longrightarrow> ac_Namespace a = namespace \<Longrightarrow>
           ac_State a = S3StateActive \<Longrightarrow> Q (Ok a) w'"
    and "\<And>a w'. view w' = put_doc S3Iams (ac_ObjID a) (Some (DAccount a)) (view w) \<Longrightarrow> ac_ObjID a \<noteq> [] \<Longrightarrow>
           matching (view w) S3Iams (q_namespace namespace) = {} \<Longrightarrow> view w S3Iams (ac_ObjID a) = None \<Longrightarrow>
           ac_Namespace a = namespace \<Longrightarrow> ac_State a = S3StateActive \<Longrightarrow> Q (Ok a) w'"
    and "\<And>e w'. view w' = view w \<Longrightarrow> matching (view w) S3Iams (q_namespace namespace) = {} \<or> \<not> no_faults E view \<Longrightarrow>
           Q (Err (DbErr e)) w'"
  shows "wp (s3AccountInsert E namespace user) Q w"
proof (cases "namespace = []")
  case True
  then show ?thesis using assms(2) by (simp add: s3AccountInsert_def wp_simps)
next
  case False
  have up: "wp (dbS3Upsert E (q_namespace namespace) (\<lambda>d. d) (DAccount acc)) (on_ok (\<lambda>d. wp (gret (as_Account d)) Q) Q) w1"
    if "view w1 = view w" "ac_ObjID acc \<noteq> []" "ac_Namespace acc = namespace" "ac_State acc = S3StateActive" for acc w1
  proof (rule wp_Upsert [OF E], goal_cases upd ins io)
    case (upd i d w2)
    then obtain a where "d = DAccount a" "ac_Namespace a = namespace" "ac_State a = S3StateActive"
      by (auto simp: q_namespace_iff)
    with upd that show ?case by (simp add: wp_simps assms(3) put_doc_triv)
  next
    case (ins i w2)
    with that have "i = ac_ObjID acc" by simp
    with ins that show ?case by (simp add: wp_simps duplicate_def assms(4))
  next
    case (io e w2)
    with that show ?case by (auto intro!: assms(5))
  qed
  show ?thesis
    unfolding s3AccountInsert_def using False
    by (auto simp: wp_simps Let_def intro!: wp_newid [OF E] wp_clock [OF E] wp_now [OF E] up)
qed

lemma wp_s3IamNew:
  assumes E: "mongo_ok E view"
    and "\<And>iam w'. view w' = put_doc S3Iams (iam_ObjID iam) (Some (DIam iam)) (view w) \<Longrightarrow> iam_ObjID iam \<noteq> [] \<Longrightarrow>
           view w S3Iams (iam_ObjID iam) = None \<Longrightarrow> iam_State iam = S3StateActive \<Longrightarrow>
           iam_AccountObjID iam = ac_ObjID account \<Longrightarrow> iam_Policy iam = policy \<Longrightarrow> Q (Ok iam) w'"
    and "\<And>e w'. view w' = view w \<Longrightarrow> Q (Err (DbErr e)) w'"
  shows "wp (s3IamNew E account policy) Q w"
  unfolding s3IamNew_def
  by (auto simp: wp_simps Let_def duplicate_def
      intro!: wp_newid [OF E] wp_clock [OF E] wp_now [OF E] wp_Insert [OF E] assms(2-))

text \<open>What a key hands out: an active key of an active account of the namespace, bound to a
  stored iam that the request's policy equals.\<close>

definition key_grants :: "dbview \<Rightarrow> string \<Rightarrow> Policy \<Rightarrow> AccessKey \<Rightarrow> bool" where
  "key_grants V namespace policy k \<longleftrightarrow>
     (\<exists>i. V S3AccessKeys i = Some (DKey k)) \<and> k_State k = S3StateActive
     \<and> (\<exists>i a. V S3Iams i = Some (DAccount a) \<and> ac_Namespace a = namespace \<and> ac_State a = S3StateActive
          \<and> ac_ObjID a = k_AccountObjID k)
     \<and> (\<exists>i d. V S3Iams i = Some d \<and> doc_id d = k_IamObjID k \<and> is_active d \<and> PolicyEqual policy (iam_Policy (as_Iam d)))"

lemma PolicyEqual_refl [simp]: "PolicyEqual p p"
  by (simp add: PolicyEqual_def)

text \<open>\<open>new_key\<close>: a fresh key with its iam, or the undone attempt.\<close>

lemma wp_new_key:
  assumes E: "mongo_ok E view"
    and acc: "view w S3Iams i = Some (DAccount account)" "ac_Namespace account = namespace" "ac_State account = S3StateActive"
    and ok: "\<And>k w'. view w' S3AccessKeys = (view w S3AccessKeys)(k_ObjID k \<mapsto> DKey k) \<Longrightarrow>
           view w S3AccessKeys (k_ObjID k) = None \<Longrightarrow>
           key_grants (view w') namespace policy k \<Longrightarrow> k_ExpirationTimestamp k = expired_when \<Longrightarrow> Q (Ok k) w'"
    and err: "\<And>e iam w'. view w' = view w \<or> (iam_ObjID iam \<noteq> [] \<and> view w S3Iams (iam_ObjID iam) = None
             \<and> iam_State iam = S3StateActive
             \<and> view w' = put_doc S3Iams (iam_ObjID iam) (Some (DIam iam)) (view w)) \<Longrightarrow>
           wp (undo_key E (if view w' = view w then None else Some iam) account e) Q w'"
  shows "wp (new_key E account policy now expired_when) Q w"
  unfolding new_key_def wp_simps
proof (rule wp_s3IamNew [OF E], goal_cases iam io)
  case (iam im w1)
  have ne: "view w1 \<noteq> view w"
    using iam(1,3) put_doc_same [of S3Iams "iam_ObjID im" "Some (DIam im)" "view w"] by force
  have err': "wp (undo_key E (Some im) account e) Q w'" if "view w' = view w1" for e w'
    using err [where iam = im and w' = w' and e = e] iam ne that by auto
  have g: "key_grants (view w') namespace policy k"
    if "view w' = put_doc S3AccessKeys (k_ObjID k) (Some (DKey k)) (view w1)" "k_State k = S3StateActive"
      "k_AccountObjID k = ac_ObjID account" "k_IamObjID k = iam_ObjID im" for w' k
  proof -
    have v: "view w' S3Iams i = Some (DAccount account)" "view w' S3Iams (iam_ObjID im) = Some (DIam im)"
        "view w' S3AccessKeys (k_ObjID k) = Some (DKey k)"
      using that iam acc by (auto simp: put_doc_def)
    show ?thesis unfolding key_grants_def
      by (intro conjI exI [of _ i] exI [of _ account] exI [of _ "iam_ObjID im"] exI [of _ "DIam im"] exI [of _ "k_ObjID k"] v)
         (use that iam acc in \<open>auto simp: is_active_def\<close>)
  qed
  have ins: "wp (dbS3Insert E (DKey k)) (on_any (\<lambda>r. wp (case r of Inl e \<Rightarrow> undo_key E (Some im) account e
        | Inr d \<Rightarrow> gret (as_Key d)) Q) Q) w2"
    if "view w2 = view w1" "k_State k = S3StateActive" "k_AccountObjID k = ac_ObjID account"
      "k_IamObjID k = iam_ObjID im" "k_ExpirationTimestamp k = expired_when" for w2 k
  proof (rule wp_Insert [OF E], goal_cases ins io)
    case (ins t w3)
    with that show ?case
      by (auto simp: wp_simps duplicate_def iam put_doc_def intro!: ok g)
  qed (use err' that in \<open>simp add: wp_simps\<close>)
  show ?case
    by (auto simp: wp_simps genKey_def encrypt_secret_def Let_def split: option.splits res.splits
        intro!: wp_newid [OF E] wp_rand [OF E] err' ins)
next
  case (io e w1)
  then show ?case using err [where iam = zero_Iam and w' = w1 and e = "DbErr e"] by (simp)
qed

lemma wp_getEndlessKey:
  assumes E: "mongo_ok E view"
    and ok: "\<And>i j k d w'. view w' = view w \<Longrightarrow> view w S3AccessKeys i = Some (DKey k) \<Longrightarrow> k_State k = S3StateActive \<Longrightarrow>
           k_AccountObjID k = ac_ObjID account \<Longrightarrow> k_ExpirationTimestamp k = TimeStampMax \<Longrightarrow>
           view w S3Iams j = Some d \<Longrightarrow> doc_id d = k_IamObjID k \<Longrightarrow> is_active d \<Longrightarrow>
           PolicyEqual policy (iam_Policy (as_Iam d)) \<Longrightarrow> Q (Ok k) w'"
    and err: "\<And>e w'. view w' = view w \<Longrightarrow> Q (Err e) w'"
  shows "wp (getEndlessKey E account policy) Q w"
proof -
  have loop: "wp (find_policy_key E policy ks) Q w1"
    if "view w1 = view w" "\<forall>k \<in> set ks. \<exists>i. view w S3AccessKeys i = Some (DKey k) \<and> q_endless (ac_ObjID account) (DKey k)"
    for ks w1
    using that
  proof (induction ks arbitrary: w1)
    case (Cons k ks)
    then show ?case
      by (auto simp: wp_simps q_endless_def q_active_id_def intro!: wp_FindOne [OF E] ok)
  qed (simp add: wp_simps err)
  show ?thesis
    unfolding getEndlessKey_def wp_simps
  proof (rule wp_FindAll [OF E], goal_cases found io)
    case (found ds w1)
    have "\<exists>i. view w S3AccessKeys i = Some (DKey (as_Key d)) \<and> q_endless (ac_ObjID account) (DKey (as_Key d))"
      if "d \<in> set ds" for d
      using that found by (auto simp: matching_def q_endless_def split: doc.splits)
    with found show ?case by (auto intro!: loop)
  qed (simp add: err)
qed

text \<open>
  A generated access key grants what was asked for. When \<open>genNewAccessKey\<close> returns a key,
  the key is stored and active, belongs to an active account of the requested namespace, and
  the iam it is bound to carries the policy of the requested bucket, or the root policy when
  no bucket is named. A key asked for a lifetime is a new one; no key stored before the call
  is lost, whether it succeeds or fails.
\<close>

theorem genNewAccessKey_grants:
  assumes "mongo_ok E view" and "genNewAccessKey E namespace bname lifetime w = (r, w')"
  shows "(\<forall>k. r = Ok k \<longrightarrow> namespace \<noteq> []
            \<and> key_grants (view w') namespace (if bname = [] then getRootPolicy else getBucketPolicy bname) k
            \<and> (lifetime \<noteq> 0 \<longrightarrow> view w S3AccessKeys (k_ObjID k) = None)
            \<and> (lifetime = 0 \<longrightarrow> k_ExpirationTimestamp k = TimeStampMax))
       \<and> (\<forall>i d. view w S3AccessKeys i = Some d \<longrightarrow> view w' S3AccessKeys i = Some d) \<and> r \<noteq> Panic"
proof -
  let ?p = "if bname = [] then getRootPolicy else getBucketPolicy bname"
  define Q :: "(goerr, AccessKey) res \<Rightarrow> 'a \<Rightarrow> bool" where "Q = (\<lambda>r w'. (\<forall>k. r = Ok k \<longrightarrow> namespace \<noteq> []
            \<and> key_grants (view w') namespace ?p k
            \<and> (lifetime \<noteq> 0 \<longrightarrow> view w S3AccessKeys (k_ObjID k) = None)
            \<and> (lifetime = 0 \<longrightarrow> k_ExpirationTimestamp k = TimeStampMax))
       \<and> (\<forall>i d. view w S3AccessKeys i = Some d \<longrightarrow> view w' S3AccessKeys i = Some d) \<and> r \<noteq> Panic)"
  note E = assms(1)
  have Qerr: "Q (Err e) w1" if "view w1 S3AccessKeys = view w S3AccessKeys" for e w1
    using that by (simp add: Q_def)
  have drop: "wp (drop_doc E ob) (on_any (\<lambda>_. wp f Q) Q) w1"
    if "view w1 S3AccessKeys = view w S3AccessKeys" "dbColl ob \<noteq> S3AccessKeys"
      "\<And>w2. view w2 S3AccessKeys = view w S3AccessKeys \<Longrightarrow> wp f Q w2" for w1 ob f
    using that unfolding drop_doc_def wp_simps
    by (auto simp: wp_simps intro!: wp_SetState [OF E] wp_Remove [OF E])
  have undo: "wp (undo_key E io account e) Q w1" if "view w1 S3AccessKeys = view w S3AccessKeys" for io account e w1
    using that by (auto simp: undo_key_def s3IamDelete_def s3AccountDelete_def wp_simps
        split: option.splits intro!: drop Qerr)
  have new: "wp (new_key E a ?p now ex) Q w1"
    if "view w1 S3Iams i = Some (DAccount a)" "ac_Namespace a = namespace" "ac_State a = S3StateActive" "namespace \<noteq> []"
      "view w1 S3AccessKeys = view w S3AccessKeys" "lifetime = 0 \<longrightarrow> ex = TimeStampMax" for i a now ex w1
    using that by (intro wp_new_key [OF E that(1-3)] undo) (auto simp: Q_def)
  have endless: "Q (Ok k) w2"
    if "view w2 = view w1" "view w1 S3Iams i = Some (DAccount a)" "ac_Namespace a = namespace" "ac_State a = S3StateActive"
      "namespace \<noteq> []" "view w1 S3AccessKeys = view w S3AccessKeys" "lifetime = 0"
      "view w1 S3AccessKeys m = Some (DKey k)" "k_State k = S3StateActive"
      "k_AccountObjID k = ac_ObjID a" "k_ExpirationTimestamp k = TimeStampMax" "view w1 S3Iams j = Some d"
      "doc_id d = k_IamObjID k" "is_active d" "PolicyEqual ?p (iam_Policy (as_Iam d))" for a k d w1 w2 i j m
  proof -
    have "key_grants (view w2) namespace ?p k" unfolding key_grants_def
      using that by (intro conjI exI [of _ m] exI [of _ i] exI [of _ a] exI [of _ j] exI [of _ d]) auto
    then show ?thesis using that by (simp add: Q_def)
  qed
  have cont: "wp (current_timestamp E) (on_ok (\<lambda>now. wp (if lifetime \<noteq> 0 then new_key E a ?p now (int64_of (now + lifetime))
          else gtry (getEndlessKey E a ?p) (\<lambda>r. case r of Inr akey \<Rightarrow> gret akey
             | Inl _ \<Rightarrow> new_key E a ?p now TimeStampMax)) Q) Q) w1"
    if "view w1 S3Iams i = Some (DAccount a)" "ac_Namespace a = namespace" "ac_State a = S3StateActive" "namespace \<noteq> []"
      "view w1 S3AccessKeys = view w S3AccessKeys" for i a w1
  proof (rule wp_clock [OF E], goal_cases)
    case (1 now w2)
    show ?case
    proof (cases "lifetime = 0")
      case True
      have "wp (getEndlessKey E a ?p) (on_any (\<lambda>r. wp (case r of Inr akey \<Rightarrow> gret akey
             | Inl _ \<Rightarrow> new_key E a ?p now TimeStampMax) Q) Q) w2"
      proof (rule wp_getEndlessKey [OF E], goal_cases ok err)
        case (ok m j k d w3)
        then show ?case
          using endless [of w3 w2 i a m k j d] that 1 True by (simp add: wp_simps)
      next
        case (err e w3)
        then show ?case using new [of w3 i a] that 1 by simp
      qed
      with True show ?thesis by (simp add: wp_simps)
    qed (use new [of w2 i a] that 1 in simp)
  qed
  have "wp (genNewAccessKey E namespace bname lifetime) Q w"
  proof (cases "namespace = []")
    case True
    then show ?thesis by (simp add: genNewAccessKey_def s3AccountInsert_def wp_simps Q_def)
  next
    case False
    have sel: "(if bname \<noteq> [] then getBucketPolicy bname else getRootPolicy) = ?p" by simp
    show ?thesis
      unfolding genNewAccessKey_def wp_simps Let_def sel
    proof (rule wp_s3AccountInsert [OF E], goal_cases empty found fresh io)
      case (found i a w1)
      then show ?case using cont [of w1 i a] False by simp
    next
      case (fresh a w1)
      then show ?case using cont [of w1 "ac_ObjID a" a] False by simp
    qed (use False in \<open>auto simp: Q_def\<close>)
  qed
  from wpD [OF this assms(2)] show ?thesis unfolding Q_def .
qed


text \<open>A key made for a new namespace, and its lookup.\<close>

lemma key_run:
  "run_ok (gbind (genNewAccessKey mem_env ''acme'' ''photos'' 60) (\<lambda>k. LookupAccessKey mem_env (k_AccessKeyID k))) (mem_of [])"
  by code_simp

theorem genNewAccessKey_grants_witness:
  "\<exists>k w'. genNewAccessKey mem_env ''acme'' ''photos'' 60 (mem_of []) = (Ok k, w')
     \<and> key_grants (mview w') ''acme'' (getBucketPolicy ''photos'') k"
proof -
  obtain k w' where run: "genNewAccessKey mem_env ''acme'' ''photos'' 60 (mem_of []) = (Ok k, w')"
    using key_run by (elim run_ok_gbindE)
  show ?thesis using genNewAccessKey_grants [OF mem_env_ok run] run by auto
qed


end
