(* ===== verification/S3_Acct.thy ===== *)
theory S3_Acct
  imports S3_Keys
begin

text \<open>
  Accounting: the per-namespace statistics of \<open>src/s3/stats.go\<close> and the bucket counters of
  \<open>src/s3/acct.go\<close>. An \<open>$inc\<close> is the function that adds to the named fields; the counters of
  the documents are the integers the server keeps, and only the sum \<open>acctDownload\<close> forms itself
  is an \<open>int64\<close> of the program. \<open>requestFsck\<close> bumps a metric and is left out.
\<close>

definition q_nsid :: "string \<Rightarrow> doc \<Rightarrow> bool" where
  "q_nsid nsid d \<longleftrightarrow> (case d of DStats s \<Rightarrow> st_NamespaceID s = nsid | _ \<Rightarrow> False)"

definition upd_stats :: "(AcctStats \<Rightarrow> AcctStats) \<Rightarrow> doc \<Rightarrow> doc" where
  "upd_stats f d = (case d of DStats s \<Rightarrow> DStats (f s) | _ \<Rightarrow> d)"

definition upd_bucket :: "(Bucket \<Rightarrow> Bucket) \<Rightarrow> doc \<Rightarrow> doc" where
  "upd_bucket f d = (case d of DBucket b \<Rightarrow> DBucket (f b) | _ \<Rightarrow> d)"

lemma upd_stats_DStats [simp]: "upd_stats f (DStats s) = DStats (f s)"
  by (simp add: upd_stats_def)

lemma upd_bucket_DBucket [simp]: "upd_bucket f (DBucket b) = DBucket (f b)"
  by (simp add: upd_bucket_def)

definition StatsAcct :: "'w env \<Rightarrow> string \<Rightarrow> (AcctStats \<Rightarrow> AcctStats) \<Rightarrow> ('w, goerr, AcctStats) go" where
  "StatsAcct E nsid upd =
     gbind (dbS3Upsert E (q_nsid nsid) (upd_stats upd) (DStats (upd (zero_AcctStats\<lparr>st_NamespaceID := nsid\<rparr>))))
       (\<lambda>d. gret (as_Stats d))"

definition StatsUnacct :: "'w env \<Rightarrow> string \<Rightarrow> (AcctStats \<Rightarrow> AcctStats) \<Rightarrow> ('w, goerr, unit) go" where
  "StatsUnacct E nsid upd =
     gbind (dbS3Update E (q_nsid nsid) (IncU (upd_stats upd)) False (DStats zero_AcctStats)) (\<lambda>_. gret ())"

definition StatsFindFor :: "'w env \<Rightarrow> Account \<Rightarrow> ('w, goerr, AcctStats) go" where
  "StatsFindFor E act =
     gtry (dbS3FindOne E S3Stats (q_nsid (NamespaceID E act))) (\<lambda>r. case r of
       Inl e \<Rightarrow> if \<not> dbNF e then gerr e else gret zero_AcctStats
     | Inr d \<Rightarrow> gret (as_Stats d))"

definition LimitsSetFor :: "'w env \<Rightarrow> Account \<Rightarrow> AcctLimits \<Rightarrow> ('w, goerr, unit) go" where
  "LimitsSetFor E act lim =
     (let limits = \<lparr>lim_CntBytes = lim_CntBytes lim, lim_OutBytesTot = lim_OutBytesTot lim\<rparr>; nsid = NamespaceID E act
      in gbind (dbS3Upsert E (q_nsid nsid) (upd_stats (\<lambda>s. s\<lparr>st_Lim := Some limits\<rparr>))
                  (DStats (zero_AcctStats\<lparr>st_NamespaceID := nsid, st_Lim := Some limits\<rparr>)))
           (\<lambda>_. gret ()))"

definition rsLimited :: "AcctStats \<Rightarrow> goerr option" where
  "rsLimited st = (case st_Lim st of None \<Rightarrow> None
     | Some l \<Rightarrow> if lim_CntBytes l \<noteq> 0 \<and> st_CntBytes st > lim_CntBytes l
                then Some (GoErr ''Objects total size exceeded'') else None)"

text \<open>The increments the operations send.\<close>

definition inc_stats :: "int \<Rightarrow> int \<Rightarrow> AcctStats \<Rightarrow> AcctStats" where
  "inc_stats n sz s = s\<lparr>st_CntObjects := st_CntObjects s + n, st_CntBytes := st_CntBytes s + sz\<rparr>"

definition inc_bucket :: "int \<Rightarrow> int \<Rightarrow> int \<Rightarrow> int \<Rightarrow> Bucket \<Rightarrow> Bucket" where
  "inc_bucket n sz ref rover b = b\<lparr>b_CntObjects := b_CntObjects b + n, b_CntBytes := b_CntBytes b + sz,
     b_Ref := b_Ref b + ref, b_Rover := b_Rover b + rover\<rparr>"

definition inc_out :: "string \<Rightarrow> int \<Rightarrow> AcctStats \<Rightarrow> AcctStats" where
  "inc_out ctxid sz s =
     (if ctxid = ''web'' then s\<lparr>st_OutBytesWeb := st_OutBytesWeb s + sz\<rparr>
      else s\<lparr>st_OutBytes := st_OutBytes s + sz\<rparr>)"

definition bucketAcct :: "'w env \<Rightarrow> Bucket \<Rightarrow> (Bucket \<Rightarrow> Bucket) \<Rightarrow> ('w, goerr, Bucket) go" where
  "bucketAcct E b upd =
     gbind (dbS3Update E is_active (IncU (upd_bucket upd)) True (DBucket b)) (\<lambda>d. gret (as_Bucket d))"

definition commitObj :: "'w env \<Rightarrow> Bucket \<Rightarrow> int \<Rightarrow> ('w, goerr, Bucket) go" where
  "commitObj E bucket sz = bucketAcct E bucket (inc_bucket 0 0 (-1) 0)"

definition acctObj :: "'w env \<Rightarrow> Bucket \<Rightarrow> int \<Rightarrow> ('w, goerr, Bucket) go" where
  "acctObj E bucket sz =
     gbind (StatsAcct E (b_NamespaceID bucket) (inc_stats 1 sz)) (\<lambda>st.
       case rsLimited st of
         Some err \<Rightarrow> gseq (StatsUnacct E (b_NamespaceID bucket) (inc_stats (-1) (-sz))) (gerr err)
       | None \<Rightarrow>
           gtry (bucketAcct E bucket (inc_bucket 1 sz 1 1)) (\<lambda>r. case r of
             Inr bucket' \<Rightarrow> gret bucket'
           | Inl err \<Rightarrow> gseq (StatsUnacct E (b_NamespaceID bucket) (inc_stats (-1) (-sz))) (gerr err)))"

definition unacctObj :: "'w env \<Rightarrow> Bucket \<Rightarrow> int \<Rightarrow> bool \<Rightarrow> ('w, goerr, Bucket) go" where
  "unacctObj E bucket sz dropref =
     gbind (bucketAcct E bucket (inc_bucket (-1) (-sz) (if dropref then -1 else 0) 0)) (\<lambda>bucket'.
     gbind (StatsUnacct E (b_NamespaceID bucket') (inc_stats (-1) (-sz))) (\<lambda>_. gret bucket'))"

definition acctDownload :: "'w env \<Rightarrow> string \<Rightarrow> string \<Rightarrow> int \<Rightarrow> ('w, goerr, unit) go" where
  "acctDownload E ctxid nsid sz =
     gbind (StatsAcct E nsid (inc_out ctxid sz)) (\<lambda>nst.
       case st_Lim nst of
         None \<Rightarrow> gret ()
       | Some l \<Rightarrow>
           if lim_OutBytesTot l \<noteq> 0
              \<and> int64_of (st_OutBytes nst + st_OutBytesWeb nst + sz) > int64_of (lim_OutBytesTot l + st_OutBytesTotOff nst)
           then gseq (StatsUnacct E nsid (inc_out ctxid (-sz))) (gerr (GoErr ''Limit hit''))
           else gret ())"

section \<open>The statistics document of a namespace\<close>

text \<open>\<open>stats_at V nsid j s\<close>: the namespace's statistics are \<open>s\<close>, stored under \<open>j\<close> and nowhere else.\<close>

definition stats_at :: "dbview \<Rightarrow> string \<Rightarrow> oid \<Rightarrow> AcctStats \<Rightarrow> bool" where
  "stats_at V nsid j s \<longleftrightarrow> V S3Stats j = Some (DStats s) \<and> st_NamespaceID s = nsid
     \<and> (\<forall>i d. V S3Stats i = Some d \<and> q_nsid nsid d \<longrightarrow> i = j)"

lemma stats_at_hit: "stats_at V nsid j s \<Longrightarrow> V S3Stats i = Some d \<Longrightarrow> q_nsid nsid d \<Longrightarrow> i = j \<and> d = DStats s"
  unfolding stats_at_def by (metis option.inject)

lemma stats_at_matching: "stats_at V nsid j s \<Longrightarrow> DStats s \<in> matching V S3Stats (q_nsid nsid)"
  by (auto simp: stats_at_def matching_def q_nsid_def)

lemma stats_at_put:
  "stats_at V nsid j s \<Longrightarrow> st_NamespaceID s' = nsid \<Longrightarrow> stats_at (put_doc S3Stats j (Some (DStats s')) V) nsid j s'"
  by (auto simp: stats_at_def put_doc_def)

lemma stats_at_other [simp]: "c \<noteq> S3Stats \<Longrightarrow> stats_at (put_doc c i d V) nsid j s = stats_at V nsid j s"
  by (auto simp: stats_at_def)

lemma wp_StatsAcct:
  assumes "mongo_ok E view" "no_faults E view" "stats_at (view w) nsid j s"
    and "\<And>w'. view w' = put_doc S3Stats j (Some (DStats (upd s))) (view w) \<Longrightarrow> Q (Ok (upd s)) w'"
  shows "wp (StatsAcct E nsid upd) Q w"
  unfolding StatsAcct_def wp_simps
  by (rule wp_Upsert [OF assms(1)])
     (use assms(2-) stats_at_matching [OF assms(3)] in \<open>auto simp: wp_simps dest!: stats_at_hit [OF assms(3)]\<close>)

lemma wp_StatsUnacct:
  assumes "mongo_ok E view" "no_faults E view" "stats_at (view w) nsid j s"
    and "\<And>w'. view w' = put_doc S3Stats j (Some (DStats (upd s))) (view w) \<Longrightarrow> Q (Ok ()) w'"
  shows "wp (StatsUnacct E nsid upd) Q w"
  unfolding StatsUnacct_def wp_simps
  by (rule wp_Update [OF assms(1)])
     (use assms(2-) stats_at_matching [OF assms(3)] in
       \<open>auto simp: wp_simps dbS3UpdateMTime_def dbS3SetObjID_def zero_AcctStats_def dest!: stats_at_hit [OF assms(3)]\<close>)

lemma wp_bucketAcct:
  assumes "mongo_ok E view" "no_faults E view" "ids_ok (view w)"
    and b: "view w S3Buckets i = Some (DBucket b)" "b_ObjID bucket = i" "i \<noteq> []"
    and "\<And>w'. b_State b = S3StateActive \<Longrightarrow>
           view w' = put_doc S3Buckets i (Some (DBucket (upd b))) (view w) \<Longrightarrow> Q (Ok (upd b)) w'"
    and "\<And>w'. b_State b \<noteq> S3StateActive \<Longrightarrow> view w' = view w \<Longrightarrow> Q (Err ErrNotFound) w'"
  shows "wp (bucketAcct E bucket upd) Q w"
  unfolding bucketAcct_def wp_simps
proof (rule wp_Update [OF assms(1)], goal_cases hit nf io)
  case (hit t j d w1)
  then have "j = i" "d = DBucket b" using b ids_okD [OF assms(3), of S3Buckets j d] by auto
  then show ?case using hit assms(7) by (simp add: wp_simps is_active_def dbS3UpdateMTime_def)
next
  case (nf w1)
  then have "b_State b \<noteq> S3StateActive"
    using matchingI [of "view w" S3Buckets i "DBucket b" "dbS3SetObjID (DBucket bucket) is_active"] b
      ids_okD [OF assms(3) b(1)] by (auto simp: dbS3SetObjID_def is_active_def)
  then show ?case using nf assms(8) by simp
qed (use assms(2) in simp)

section \<open>Properties\<close>

lemma inc_stats_ns [simp]: "st_NamespaceID (inc_stats n z s) = st_NamespaceID s" "st_Lim (inc_stats n z s) = st_Lim s"
  by (simp_all add: inc_stats_def)

lemma inc_out_ns [simp]: "st_NamespaceID (inc_out x z s) = st_NamespaceID s" "st_Lim (inc_out x z s) = st_Lim s"
  by (simp_all add: inc_out_def)

lemma inc_out_off [simp]: "st_OutBytesTotOff (inc_out x z s) = st_OutBytesTotOff s"
  by (simp add: inc_out_def)

lemma inc_stats_undo [simp]: "inc_stats (- n) (- z) (inc_stats n z s) = s"
  by (simp add: inc_stats_def)

lemma inc_out_undo [simp]: "inc_out x (- z) (inc_out x z s) = s"
  by (simp add: inc_out_def)

lemma inc_bucket_id [simp]: "b_ObjID (inc_bucket n z r v b) = b_ObjID b" "b_State (inc_bucket n z r v b) = b_State b"
    "b_NamespaceID (inc_bucket n z r v b) = b_NamespaceID b" "b_BasicNotify (inc_bucket n z r v b) = b_BasicNotify b"
  by (simp_all add: inc_bucket_def)

lemma stats_at_id: "stats_at V nsid j s \<Longrightarrow> V S3Stats j = Some (DStats s)"
  by (simp add: stats_at_def)

lemma ids_ok_stats: "ids_ok V \<Longrightarrow> stats_at V nsid j s \<Longrightarrow> st_ObjID s = j"
  by (drule stats_at_id) (auto dest: ids_okD)

text \<open>The world in which a bucket and its namespace's statistics are what the operations expect.\<close>

definition acct_ready :: "dbview \<Rightarrow> Bucket \<Rightarrow> Bucket \<Rightarrow> oid \<Rightarrow> AcctStats \<Rightarrow> bool" where
  "acct_ready V bucket b j s \<longleftrightarrow> ids_ok V \<and> b_ObjID bucket \<noteq> [] \<and> V S3Buckets (b_ObjID bucket) = Some (DBucket b)
     \<and> b_NamespaceID b = b_NamespaceID bucket \<and> stats_at V (b_NamespaceID bucket) j s"

lemma acct_readyD:
  assumes "acct_ready V bucket b j s"
  shows "ids_ok V" "b_ObjID bucket \<noteq> []" "V S3Buckets (b_ObjID bucket) = Some (DBucket b)"
    "b_NamespaceID b = b_NamespaceID bucket" "stats_at V (b_NamespaceID bucket) j s" "b_ObjID b = b_ObjID bucket"
    "st_ObjID s = j" "st_NamespaceID s = b_NamespaceID bucket"
  using assms ids_okD [of V S3Buckets "b_ObjID bucket" "DBucket b"] ids_ok_stats [of V "b_NamespaceID bucket" j s]
  by (auto simp: acct_ready_def stats_at_def)

lemma acct_ready_stats:
  assumes "acct_ready V bucket b j s" "st_NamespaceID s' = st_NamespaceID s" "st_ObjID s' = st_ObjID s"
  shows "acct_ready (put_doc S3Stats j (Some (DStats s')) V) bucket b j s'"
    and "put_doc S3Stats j (Some (DStats s)) (put_doc S3Stats j (Some (DStats s')) V) = V"
  using acct_readyD [OF assms(1)] stats_at_put [of V "b_NamespaceID bucket" j s s'] stats_at_id [of V _ j s] assms(2,3)
  by (auto simp: acct_ready_def put_doc_triv)

lemma acct_ready_bucket:
  assumes "acct_ready V bucket b j s" "b_NamespaceID b' = b_NamespaceID b" "b_ObjID b' = b_ObjID b"
  shows "acct_ready (put_doc S3Buckets (b_ObjID bucket) (Some (DBucket b')) V) b' b' j s"
  using acct_readyD [OF assms(1)] assms(2,3) by (auto simp: acct_ready_def)

lemma inc_stats_oid [simp]: "st_ObjID (inc_stats n z s) = st_ObjID s"
  by (simp add: inc_stats_def)

lemma wp_StatsUnacct_ready:
  assumes "mongo_ok E view" "no_faults E view" "acct_ready (view w) bucket b j s"
    and "\<And>w'. view w' = put_doc S3Stats j (Some (DStats (upd s))) (view w) \<Longrightarrow> Q (Ok ()) w'"
  shows "wp (StatsUnacct E (b_NamespaceID bucket) upd) Q w"
  by (rule wp_StatsUnacct [OF assms(1,2) acct_readyD(5) [OF assms(3)]]) (rule assms(4))

lemma wp_bucketAcct_ready:
  assumes "mongo_ok E view" "no_faults E view" "acct_ready (view w) bucket b j s"
    and "\<And>w'. b_State b = S3StateActive \<Longrightarrow>
           view w' = put_doc S3Buckets (b_ObjID bucket) (Some (DBucket (upd b))) (view w) \<Longrightarrow> Q (Ok (upd b)) w'"
    and "\<And>w'. b_State b \<noteq> S3StateActive \<Longrightarrow> view w' = view w \<Longrightarrow> Q (Err ErrNotFound) w'"
  shows "wp (bucketAcct E bucket upd) Q w"
  by (rule wp_bucketAcct [OF assms(1,2) acct_readyD(1) [OF assms(3)] acct_readyD(3) [OF assms(3)] refl
        acct_readyD(2) [OF assms(3)]]) (use assms(4,5) in auto)

lemma wp_acctObj:
  assumes E: "mongo_ok E view" "no_faults E view" and rdy: "acct_ready (view w) bucket b j s"
    and lim: "\<And>err w'. rsLimited (inc_stats 1 sz s) = Some err \<Longrightarrow> view w' = view w \<Longrightarrow> Q (Err err) w'"
    and gone: "\<And>w'. rsLimited (inc_stats 1 sz s) = None \<Longrightarrow> b_State b \<noteq> S3StateActive \<Longrightarrow> view w' = view w \<Longrightarrow>
           Q (Err ErrNotFound) w'"
    and fin: "\<And>w'. rsLimited (inc_stats 1 sz s) = None \<Longrightarrow> b_State b = S3StateActive \<Longrightarrow>
           view w' = put_doc S3Buckets (b_ObjID bucket) (Some (DBucket (inc_bucket 1 sz 1 1 b)))
                       (put_doc S3Stats j (Some (DStats (inc_stats 1 sz s))) (view w)) \<Longrightarrow>
           Q (Ok (inc_bucket 1 sz 1 1 b)) w'"
  shows "wp (acctObj E bucket sz) Q w"
proof -
  let ?s = "inc_stats 1 sz s"
  note R = acct_ready_stats [OF rdy, of ?s, simplified]
  have undo: "wp (StatsUnacct E (b_NamespaceID bucket) (inc_stats (-1) (- sz))) (on_any (\<lambda>_. wp (gerr e) Q) Q) w1"
    if "view w1 = put_doc S3Stats j (Some (DStats ?s)) (view w)" "\<And>w2. view w2 = view w \<Longrightarrow> Q (Err e) w2" for w1 e
    by (rule wp_StatsUnacct_ready [OF E, of w1 bucket b j ?s])
       (use that R inc_stats_undo [of 1 sz s] in \<open>auto simp: wp_simps\<close>)
  have "wp (bucketAcct E bucket (inc_bucket 1 sz 1 1)) (on_any (\<lambda>r. wp (case r of Inr b \<Rightarrow> gret b
      | Inl err \<Rightarrow> gseq (StatsUnacct E (b_NamespaceID bucket) (inc_stats (-1) (- sz))) (gerr err)) Q) Q) w1"
    if "view w1 = put_doc S3Stats j (Some (DStats ?s)) (view w)" "rsLimited ?s = None" for w1
    by (rule wp_bucketAcct_ready [OF E, of w1 bucket b j ?s])
       (use that R in \<open>auto simp: wp_simps intro!: undo gone fin\<close>)
  then show ?thesis
    unfolding acctObj_def wp_simps
    by (intro wp_StatsAcct [OF E acct_readyD(5) [OF rdy]])
       (auto simp: wp_simps split: option.splits intro!: undo lim)
qed

lemma wp_unacctObj:
  assumes E: "mongo_ok E view" "no_faults E view" and rdy: "acct_ready (view w) bucket b j s"
    and "\<And>w'. b_State b \<noteq> S3StateActive \<Longrightarrow> view w' = view w \<Longrightarrow> Q (Err ErrNotFound) w'"
    and "\<And>w' b'. b_State b = S3StateActive \<Longrightarrow> b' = inc_bucket (-1) (-sz) (if dropref then -1 else 0) 0 b \<Longrightarrow>
           view w' = put_doc S3Stats j (Some (DStats (inc_stats (-1) (-sz) s)))
                       (put_doc S3Buckets (b_ObjID bucket) (Some (DBucket b')) (view w)) \<Longrightarrow>
           Q (Ok b') w'"
  shows "wp (unacctObj E bucket sz dropref) Q w"
  unfolding unacctObj_def wp_simps
proof (rule wp_bucketAcct_ready [OF E rdy], goal_cases ok gone)
  case (ok w1)
  let ?b = "inc_bucket (-1) (-sz) (if dropref then -1 else 0) 0 b"
  define b' where "b' = ?b"
  have rdy': "acct_ready (view w1) b' b' j s" using acct_ready_bucket [OF rdy, of b'] ok(2) by (simp add: b'_def)
  have "wp (StatsUnacct E (b_NamespaceID b') (inc_stats (-1) (-sz))) (on_ok (\<lambda>_. wp (gret b') Q) Q) w1"
    by (rule wp_StatsUnacct_ready [OF E rdy'])
       (use ok(2) assms(5) [OF ok(1) refl, folded b'_def] in \<open>simp add: wp_simps b'_def [symmetric]\<close>)
  then show ?case unfolding b'_def wp_simps by (simp only: on_ok_simps wp_simps)
qed (use assms(4) in auto)


text \<open>
  Removing an object undoes its accounting. After a successful \<open>acctObj\<close>, \<open>unacctObj\<close> with
  the same size succeeds and restores the statistics and the bucket, reference included; only
  the bucket's rover keeps its advance.
\<close>

theorem unacctObj_undoes:
  assumes "mongo_ok E view" and "no_faults E view" and "acct_ready (view w) bucket b j s"
    and "acctObj E bucket sz w = (Ok bucket', w1)" and "unacctObj E bucket' sz True w1 = (r, w2)"
  shows "r = Ok (b\<lparr>b_Rover := b_Rover b + 1\<rparr>)
       \<and> view w2 = put_doc S3Buckets (b_ObjID bucket) (Some (DBucket (b\<lparr>b_Rover := b_Rover b + 1\<rparr>))) (view w)"
proof -
  let ?b = "inc_bucket 1 sz 1 1 b" and ?s = "inc_stats 1 sz s"
  let ?V = "put_doc S3Buckets (b_ObjID bucket) (Some (DBucket ?b)) (put_doc S3Stats j (Some (DStats ?s)) (view w))"
  have "wp (acctObj E bucket sz) (\<lambda>r w'. \<forall>b'. r = Ok b' \<longrightarrow> b_State b = S3StateActive \<and> b' = ?b \<and> view w' = ?V) w"
    by (rule wp_acctObj [OF assms(1-3)]) auto
  from wpD [OF this assms(4)] have w1: "bucket' = ?b" "view w1 = ?V" "b_State b = S3StateActive" by auto
  have rdy: "acct_ready (view w1) ?b ?b j ?s"
    unfolding w1 by (rule acct_ready_bucket [OF acct_ready_stats(1) [OF assms(3)]]) simp_all
  have undo: "inc_bucket (-1) (- sz) (-1) 0 ?b = b\<lparr>b_Rover := b_Rover b + 1\<rparr>" by (simp add: inc_bucket_def)
  have "wp (unacctObj E ?b sz True) (\<lambda>r w'. r = Ok (b\<lparr>b_Rover := b_Rover b + 1\<rparr>)
      \<and> view w' = put_doc S3Stats j (Some (DStats s)) (put_doc S3Buckets (b_ObjID bucket)
                     (Some (DBucket (b\<lparr>b_Rover := b_Rover b + 1\<rparr>))) (view w1))) w1"
    by (rule wp_unacctObj [OF assms(1,2) rdy])
       (use undo w1 acct_readyD(6) [OF assms(3)] inc_stats_undo [of 1 sz s] in auto)
  from wpD [OF this assms(5) [unfolded w1]]
  show ?thesis using acct_ready_stats(2) [OF assms(3), of ?s]
    by (simp add: w1 put_doc_swap)
qed

definition download_refused :: "AcctStats \<Rightarrow> int \<Rightarrow> bool" where
  "download_refused s sz \<longleftrightarrow> (\<exists>l. st_Lim s = Some l \<and> lim_OutBytesTot l \<noteq> 0
     \<and> int64_of (st_OutBytes s + st_OutBytesWeb s + 2 * sz) > int64_of (lim_OutBytesTot l + st_OutBytesTotOff s))"

lemma wp_acctDownload:
  assumes E: "mongo_ok E view" "no_faults E view" and st: "stats_at (view w) nsid j s"
    and "\<And>w'. \<not> download_refused s sz \<Longrightarrow> view w' = put_doc S3Stats j (Some (DStats (inc_out ctxid sz s))) (view w) \<Longrightarrow> Q (Ok ()) w'"
    and "\<And>w'. download_refused s sz \<Longrightarrow> view w' = view w \<Longrightarrow> Q (Err (GoErr ''Limit hit'')) w'"
  shows "wp (acctDownload E ctxid nsid sz) Q w"
proof -
  have undo: "put_doc S3Stats j (Some (DStats s)) (view w) = view w"
    using stats_at_id [OF st] by (simp add: put_doc_triv)
  have sum: "st_OutBytes (inc_out ctxid sz s) + st_OutBytesWeb (inc_out ctxid sz s) + sz = st_OutBytes s + st_OutBytesWeb s + 2 * sz"
    by (simp add: inc_out_def)
  have at: "stats_at (put_doc S3Stats j (Some (DStats (inc_out ctxid sz s))) (view w)) nsid j (inc_out ctxid sz s)"
    using stats_at_put [OF st, of "inc_out ctxid sz s"] st by (simp add: stats_at_def)
  show ?thesis
    unfolding acctDownload_def wp_simps
    by (intro wp_StatsAcct [OF E st])
       (auto simp: wp_simps sum at undo inc_out_off download_refused_def split: option.splits
         intro!: assms(4,5) wp_StatsUnacct [OF E, where j = j and s = "inc_out ctxid sz s"])
qed

text \<open>
  The download limit counts the current download twice. \<open>acctDownload\<close> refuses exactly when
  the bytes already served, plus twice the size of this download, exceed the limit and its
  offset; a refused download leaves the statistics as they were, an admitted one is added once.
\<close>

theorem acctDownload_counts_twice:
  assumes "mongo_ok E view" and "no_faults E view" and "stats_at (view w) nsid j s"
    and "acctDownload E ctxid nsid sz w = (r, w')"
  shows "(let hit = (\<exists>l. st_Lim s = Some l \<and> lim_OutBytesTot l \<noteq> 0
                \<and> int64_of (st_OutBytes s + st_OutBytesWeb s + 2 * sz) > int64_of (lim_OutBytesTot l + st_OutBytesTotOff s))
          in (hit \<longrightarrow> r = Err (GoErr ''Limit hit'') \<and> view w' = view w)
           \<and> (\<not> hit \<longrightarrow> r = Ok () \<and> view w' = put_doc S3Stats j (Some (DStats (inc_out ctxid sz s))) (view w)))"
proof -
  have "wp (acctDownload E ctxid nsid sz) (\<lambda>r w'.
      (download_refused s sz \<longrightarrow> r = Err (GoErr ''Limit hit'') \<and> view w' = view w)
      \<and> (\<not> download_refused s sz \<longrightarrow> r = Ok () \<and> view w' = put_doc S3Stats j (Some (DStats (inc_out ctxid sz s))) (view w))) w"
    by (rule wp_acctDownload [OF assms(1-3)]) simp_all
  from wpD [OF this assms(4)] show ?thesis unfolding Let_def download_refused_def .
qed

text \<open>A bucket of a namespace with a limit of 100 bytes, 50 of them used.\<close>

definition demo_bucket :: Bucket where
  "demo_bucket = zero_Bucket\<lparr>b_ObjID := ''b1'', b_BCookie := ''bc'', b_State := 1, b_NamespaceID := ''ns'', b_Name := ''photos''\<rparr>"

definition demo_stats :: AcctStats where
  "demo_stats = zero_AcctStats\<lparr>st_ObjID := ''s1'', st_NamespaceID := ''ns'', st_CntBytes := 50,
     st_OutBytes := 50, st_Lim := Some \<lparr>lim_CntBytes = 100, lim_OutBytesTot = 100\<rparr>\<rparr>"

definition demo :: mem where "demo = mem_of [DBucket demo_bucket, DStats demo_stats]"

lemma demo_view: "mview demo c i = (if c = S3Buckets \<and> i = ''b1'' then Some (DBucket demo_bucket)
    else if c = S3Stats \<and> i = ''s1'' then Some (DStats demo_stats) else None)"
  by (simp add: demo_def mview_mem_of demo_bucket_def demo_stats_def)

lemma demo_stats_at: "stats_at (mview demo) ''ns'' ''s1'' demo_stats"
  by (auto simp: stats_at_def demo_view demo_stats_def)

lemma demo_ready: "acct_ready (mview demo) demo_bucket demo_bucket ''s1'' demo_stats"
  using demo_stats_at by (auto simp: acct_ready_def demo_view demo_bucket_def) (simp add: demo_def)


lemma demo_run: "run_ok (gbind (acctObj mem_env demo_bucket 40) (\<lambda>b. unacctObj mem_env b 40 True)) demo"
  by code_simp

theorem unacctObj_undoes_witness:
  "\<exists>b w1 w2. acctObj mem_env demo_bucket 40 demo = (Ok b, w1)
     \<and> unacctObj mem_env b 40 True w1 = (Ok (demo_bucket\<lparr>b_Rover := 1\<rparr>), w2)"
proof -
  obtain b w1 r w2 where run: "acctObj mem_env demo_bucket 40 demo = (Ok b, w1)" "unacctObj mem_env b 40 True w1 = (r, w2)"
    using demo_run by (elim run_ok_gbindE)
  then show ?thesis using unacctObj_undoes [OF mem_env_ok mem_no_faults demo_ready run]
    by (simp add: demo_bucket_def zero_Bucket_def)
qed

theorem acctDownload_counts_twice_witness:
  "fst (acctDownload mem_env ''api'' ''ns'' 26 demo) = Err (GoErr ''Limit hit'')
   \<and> fst (acctDownload mem_env ''api'' ''ns'' 25 demo) = Ok ()"
  using acctDownload_counts_twice [OF mem_env_ok mem_no_faults demo_stats_at surjective_pairing, of 26 "''api''"]
    acctDownload_counts_twice [OF mem_env_ok mem_no_faults demo_stats_at surjective_pairing, of 25 "''api''"]
  by (simp add: demo_stats_def zero_AcctStats_def int64_of_def Let_def)

end
