(* ===== verification/S3_Data.thy ===== *)
theory S3_Data
  imports S3_Acct
begin

text \<open>
  Object data: \<open>src/s3/data.go\<close> and the RADOS calls of \<open>src/s3/rados.go\<close> it makes. A part keeps
  its bytes inline, in chunk documents or in a RADOS object.

  The body of a request is a reader that delivers segments and then ends, with an error or
  without; the loops over \<open>ChunkReader.Next\<close> run over the list of chunks it produces.
\<close>

section \<open>Reading a request body\<close>

record Reader =
  rd_segs :: "string list"
  rd_err :: "goerr option"

record ChunkReader =
  cr_size :: int
  cr_read :: int
  cr_r :: Reader

text \<open>The inner loop of \<open>Next\<close>: read until the buffer of \<open>k\<close> bytes is full (a read into an empty
  buffer returns nothing), a read returns no bytes, or the reader ends (\<open>io.EOF\<close> is no error).\<close>

fun fill :: "goerr option \<Rightarrow> string list \<Rightarrow> nat \<Rightarrow> string \<times> string list \<times> goerr option" where
  "fill err [] k = ([], [], if k = 0 then None else err)"
| "fill err (s # ss) k =
     (if k = 0 then ([], s # ss, None)
      else if s = [] then ([], ss, None)
      else if length s \<le> k then (let (d, rest, e) = fill err ss (k - length s) in (s @ d, rest, e))
      else (take k s, drop k s # ss, None))"

definition pad_to :: "nat \<Rightarrow> string \<Rightarrow> string" where
  "pad_to n d = d @ replicate (n - length d) (CHR 0x00)"

definition Next :: "ChunkReader \<Rightarrow> int \<Rightarrow> (goerr, string option \<times> ChunkReader) res" where
  "Next cr max0 =
     (let left = int64_of (cr_size cr - cr_read cr);
          mx = (if max0 > left then left else max0)
      in if max0 > left \<and> mx = 0 then Ok (None, cr)
         else if mx < 0 then Panic
         else let (d, rest, e) = fill (rd_err (cr_r cr)) (rd_segs (cr_r cr)) (nat mx);
                  cr' = cr\<lparr>cr_read := cr_read cr + int (length d), cr_r := (cr_r cr)\<lparr>rd_segs := rest\<rparr>\<rparr>
              in case e of
                   Some err \<Rightarrow> Err err
                 | None \<Rightarrow> Ok (if d = [] then None else Some (pad_to (nat mx) d), cr'))"

lemma fill_bytes: "fill e ss k = (d, rest, e') \<Longrightarrow> concat ss = d @ concat rest \<and> length d \<le> k"
proof (induction e ss k arbitrary: d rest e' rule: fill.induct)
  case (2 err s ss k)
  show ?case
  proof (cases "k \<noteq> 0 \<and> s \<noteq> [] \<and> length s \<le> k")
    case True
    obtain d' r' x where f: "fill err ss (k - length s) = (d', r', x)" by (cases "fill err ss (k - length s)") auto
    then have "d = s @ d'" "rest = r'" using 2(2) True by auto
    then show ?thesis using 2(1) [OF _ _ _ f] True by auto
  qed (use 2(2) in \<open>auto split: if_splits\<close>)
qed (auto split: if_splits)

lemma Next_consumes:
  "Next cr mx = Ok (Some d, cr') \<Longrightarrow> length (concat (rd_segs (cr_r cr'))) < length (concat (rd_segs (cr_r cr)))"
  by (auto simp: Next_def Let_def split: if_splits prod.splits option.splits dest!: fill_bytes)

text \<open>What the loop \<open>for { chd, err := data.Next(max); ... }\<close> sees.\<close>

datatype stream_end = EndOk | EndErr goerr | EndPanic

function chunk_stream :: "int \<Rightarrow> ChunkReader \<Rightarrow> string list \<times> stream_end" where
  "chunk_stream mx cr =
     (case Next cr mx of
        Panic \<Rightarrow> ([], EndPanic)
      | Err e \<Rightarrow> ([], EndErr e)
      | Ok (None, _) \<Rightarrow> ([], EndOk)
      | Ok (Some d, cr') \<Rightarrow> (let (ds, e) = chunk_stream mx cr' in (d # ds, e)))"
  by pat_completeness auto

termination
  by (relation "measure (\<lambda>(_, cr). length (concat (rd_segs (cr_r cr))))") (auto dest: Next_consumes)

declare chunk_stream.simps [simp del]

section \<open>RADOS\<close>

definition rcall :: "'w env \<Rightarrow> rados_request \<Rightarrow> ('w, goerr, string) go" where
  "rcall E r = (\<lambda>w. case rados E r w of
     (RadosOk d, w') \<Rightarrow> (Ok d, w') | (RadosErr e, w') \<Rightarrow> (Err (GoErr e), w') | (RadosPanic, w') \<Rightarrow> (Panic, w'))"

definition CephPoolQuoteMaxObjects :: string where "CephPoolQuoteMaxObjects = ''max_objects''"
definition CephPoolQuoteMaxBytes :: string where "CephPoolQuoteMaxBytes = ''max_bytes''"

definition radosSetQuotaOnField :: "'w env \<Rightarrow> string \<Rightarrow> string \<Rightarrow> string \<Rightarrow> ('w, goerr, unit) go" where
  "radosSetQuotaOnField E pool field val =
     (if radosDisabled E then gret () else gbind (rcall E (MonCommand pool field val)) (\<lambda>_. gret ()))"

definition radosSetQuota :: "'w env \<Rightarrow> string \<Rightarrow> nat \<Rightarrow> nat \<Rightarrow> ('w, goerr, unit) go" where
  "radosSetQuota E pool max_objects max_bytes =
     (if radosDisabled E then gret ()
      else gbind (radosSetQuotaOnField E pool CephPoolQuoteMaxObjects (Itoa (int max_objects))) (\<lambda>_.
           radosSetQuotaOnField E pool CephPoolQuoteMaxBytes (Itoa (int max_bytes))))"

definition radosDeletePool :: "'w env \<Rightarrow> string \<Rightarrow> ('w, goerr, unit) go" where
  "radosDeletePool E pool =
     (if radosDisabled E then gret () else gbind (rcall E (DeletePool pool)) (\<lambda>_. gret ()))"

definition radosCreatePool :: "'w env \<Rightarrow> string \<Rightarrow> nat \<Rightarrow> nat \<Rightarrow> ('w, goerr, unit) go" where
  "radosCreatePool E pool max_objects max_bytes =
     (if radosDisabled E then gret ()
      else gbind (rcall E (MakePool pool)) (\<lambda>_.
           gtry (if max_objects \<noteq> 0 \<or> max_bytes \<noteq> 0 then radosSetQuota E pool max_objects max_bytes else gret ()) (\<lambda>r.
             case r of Inr _ \<Rightarrow> gret () | Inl err \<Rightarrow> gseq (radosDeletePool E pool) (gerr err))))"

text \<open>A failed open is only logged: the calls that follow get the nil context.\<close>

definition open_ioctx :: "'w env \<Rightarrow> string \<Rightarrow> ('w, goerr, ioctx) go" where
  "open_ioctx E pool = gtry (rcall E (OpenIOContext pool)) (\<lambda>r. gret (case r of Inr _ \<Rightarrow> Some pool | Inl _ \<Rightarrow> None))"

fun rados_write_loop :: "'w env \<Rightarrow> ioctx \<Rightarrow> string \<Rightarrow> string list \<Rightarrow> stream_end \<Rightarrow> nat \<Rightarrow> ('w, goerr, string) go" where
  "rados_write_loop E ioctx oname [] e offset = (case e of
     EndPanic \<Rightarrow> gpanic
   | EndErr err \<Rightarrow> gseq (rcall E (DestroyCtx ioctx)) (gerr err)
   | EndOk \<Rightarrow> gseq (rcall E (DestroyCtx ioctx)) (gret []))"
| "rados_write_loop E ioctx oname (bts # rest) e offset =
     gtry (rcall E (RWrite ioctx oname bts offset)) (\<lambda>r. case r of
       Inl err \<Rightarrow> gseq (rcall E (DestroyCtx ioctx)) (gerr err)
     | Inr _ \<Rightarrow> rados_write_loop E ioctx oname rest e (offset + length bts))"

definition radosWriteObject :: "'w env \<Rightarrow> string \<Rightarrow> string \<Rightarrow> ChunkReader \<Rightarrow> nat \<Rightarrow> ('w, goerr, string) go" where
  "radosWriteObject E pool oname data offset =
     (if radosDisabled E then gret []
      else gbind (open_ioctx E pool) (\<lambda>ioctx.
           let (ds, e) = chunk_stream (S3MaxChunkSize E) data in rados_write_loop E ioctx oname ds e offset))"

definition radosReadObject :: "'w env \<Rightarrow> string \<Rightarrow> string \<Rightarrow> int \<Rightarrow> nat \<Rightarrow> ('w, goerr, string) go" where
  "radosReadObject E pool oname sz offset =
     (if radosDisabled E then gret []
      else gbind (rcall E (OpenIOContext pool)) (\<lambda>_.
           if sz < 0 then gpanic
           else gtry (rcall E (RRead (Some pool) oname (nat sz) offset)) (\<lambda>r. case r of
                  Inl err \<Rightarrow> gseq (rcall E (DestroyCtx (Some pool))) (gerr err)
                | Inr d \<Rightarrow> gseq (rcall E (DestroyCtx (Some pool))) (gret (pad_to (nat sz) (take (nat sz) d))))))"

definition radosDeleteObject :: "'w env \<Rightarrow> string \<Rightarrow> string \<Rightarrow> ('w, goerr, unit) go" where
  "radosDeleteObject E pool oname =
     (if radosDisabled E then gret ()
      else gbind (open_ioctx E pool) (\<lambda>ioctx.
           gtry (rcall E (RDelete ioctx oname)) (\<lambda>r. case r of
             Inl err \<Rightarrow> gseq (rcall E (DestroyCtx ioctx)) (gerr err)
           | Inr _ \<Rightarrow> gseq (rcall E (DestroyCtx ioctx)) (gret ()))))"

section \<open>Chunks\<close>

definition q_id :: "oid \<Rightarrow> doc \<Rightarrow> bool" where
  "q_id i d \<longleftrightarrow> doc_id d = i"

definition find_chunk :: "'w env \<Rightarrow> oid \<Rightarrow> ('w, goerr, string) go" where
  "find_chunk E cid = gbind (dbS3FindOne E S3DataChunks (q_id cid)) (\<lambda>d. gret (c_Bytes (as_Chunk d)))"

definition ReadChunks :: "'w env \<Rightarrow> ObjectPart \<Rightarrow> ('w, goerr, string) go" where
  "ReadChunks E part =
     (case p_Data part of
        Some d \<Rightarrow> gret d
      | None \<Rightarrow>
          if p_Chunks part = [] then radosReadObject E (p_BCookie part) (p_OCookie part) (p_Size part) 0
          else gfold (\<lambda>cid res. gbind (find_chunk E cid) (\<lambda>b. gret (res @ b))) (p_Chunks part) [])"

text \<open>\<open>IterChunks\<close> hands each chunk's bytes to a callback that keeps its own state \<open>'s\<close>, which an error
  leaves as the callback last wrote it.\<close>

definition with_state :: "'s \<Rightarrow> ('w, goerr, 'a) go \<Rightarrow> ('w, goerr \<times> 's, 'a) go" where
  "with_state s m = gtry m (\<lambda>r. case r of Inl e \<Rightarrow> gerr (e, s) | Inr a \<Rightarrow> gret a)"

definition IterChunks :: "'w env \<Rightarrow> ObjectPart \<Rightarrow> (string \<Rightarrow> 's \<Rightarrow> ('w, goerr \<times> 's, 's) go) \<Rightarrow> 's \<Rightarrow> ('w, goerr \<times> 's, 's) go" where
  "IterChunks E part fn s =
     (case p_Data part of
        Some d \<Rightarrow> fn d s
      | None \<Rightarrow>
          if p_Chunks part = [] then gerr (GoErr ''Rados cannot iter chunks yet'', s)
          else gfold (\<lambda>cid s. gbind (with_state s (find_chunk E cid)) (\<lambda>b. fn b s)) (p_Chunks part) s)"

text \<open>The error of a removal is dropped: the source overwrites \<open>err\<close> only when it is set already.\<close>

definition DeleteChunks :: "'w env \<Rightarrow> ObjectPart \<Rightarrow> ('w, goerr, unit) go" where
  "DeleteChunks E part =
     (if p_Data part \<noteq> None then gret ()
      else if p_Chunks part = [] then radosDeleteObject E (p_BCookie part) (p_OCookie part)
      else geach (\<lambda>ch. gseq (dbS3Remove E (DChunk (zero_DataChunk\<lparr>c_ObjID := ch\<rparr>))) (gret ())) (p_Chunks part))"

definition upd_part :: "(ObjectPart \<Rightarrow> ObjectPart) \<Rightarrow> doc \<Rightarrow> doc" where
  "upd_part f d = (case d of DPart p \<Rightarrow> DPart (f p) | _ \<Rightarrow> d)"

lemma upd_part_DPart [simp]: "upd_part f (DPart p) = DPart (f p)"
  by (simp add: upd_part_def)

definition store_chunks :: "'w env \<Rightarrow> ObjectPart \<Rightarrow> ('w, goerr, unit) go" where
  "store_chunks E part =
     gbind (dbS3Update E (q_id (p_ObjID part)) (SetU (upd_part (\<lambda>p. p\<lparr>p_Chunks := p_Chunks part\<rparr>))) False (DPart zero_ObjectPart))
       (\<lambda>_. gret ())"

text \<open>The label \<open>out\<close> of the chunk writers. They return the part, whose chunk list they extend,
  with their result; a failing loop iteration jumps there with the outer \<open>err\<close> still nil, so that
  the call succeeds with an empty sum.\<close>

definition chunks_out :: "'w env \<Rightarrow> ObjectPart \<Rightarrow> ('w, goerr, 'a) go \<Rightarrow> ('w, goerr, 'a) go" where
  "chunks_out E part k = (if p_Chunks part \<noteq> [] then gseq (DeleteChunks E part) k else k)"

fun write_loop :: "'w env \<Rightarrow> ObjectPart \<Rightarrow> string list \<Rightarrow> stream_end \<Rightarrow> string \<Rightarrow> ('w, goerr, string \<times> ObjectPart) go" where
  "write_loop E part [] e hashed = (case e of
     EndPanic \<Rightarrow> gpanic
   | EndErr _ \<Rightarrow> chunks_out E part (gret ([], part))
   | EndOk \<Rightarrow> gtry (store_chunks E part) (\<lambda>r. case r of
         Inl err \<Rightarrow> chunks_out E part (gerr err)
       | Inr _ \<Rightarrow> gret (md5hex E hashed, part)))"
| "write_loop E part (chd # rest) e hashed =
     gbind (genv (newid E)) (\<lambda>cid.
     gtry (dbS3Insert E (DChunk \<lparr>c_ObjID = cid, c_Bytes = chd\<rparr>)) (\<lambda>r. case r of
       Inl _ \<Rightarrow> chunks_out E part (gret ([], part))
     | Inr _ \<Rightarrow> write_loop E (part\<lparr>p_Chunks := p_Chunks part @ [cid]\<rparr>) rest e (hashed @ chd)))"

definition WriteChunks :: "'w env \<Rightarrow> ObjectPart \<Rightarrow> ChunkReader \<Rightarrow> ('w, goerr, string \<times> ObjectPart) go" where
  "WriteChunks E part data =
     (if \<not> radosDisabled E \<and> p_Size part > S3MaxChunkSize E
      then gbind (radosWriteObject E (p_BCookie part) (p_OCookie part) data 0) (\<lambda>csum. gret (csum, part))
      else let (ds, e) = chunk_stream (S3MaxChunkSize E) data in write_loop E part ds e [])"

fun copy_loop :: "'w env \<Rightarrow> ObjectPart \<Rightarrow> oid list \<Rightarrow> ('w, goerr, ObjectPart) go" where
  "copy_loop E part [] =
     gtry (store_chunks E part) (\<lambda>r. case r of
       Inl err \<Rightarrow> chunks_out E part (gerr err)
     | Inr _ \<Rightarrow> gret part)"
| "copy_loop E part (cid # rest) =
     gbind (find_chunk E cid) (\<lambda>b.
     gbind (genv (newid E)) (\<lambda>i.
     gtry (dbS3Insert E (DChunk \<lparr>c_ObjID = i, c_Bytes = b\<rparr>)) (\<lambda>r. case r of
       Inl _ \<Rightarrow> chunks_out E part (gret part)
     | Inr _ \<Rightarrow> copy_loop E (part\<lparr>p_Chunks := p_Chunks part @ [i]\<rparr>) rest)))"

definition CopyChunks :: "'w env \<Rightarrow> ObjectPart \<Rightarrow> ObjectPart \<Rightarrow> ('w, goerr, ObjectPart) go" where
  "CopyChunks E part source =
     (if \<not> radosDisabled E \<and> p_Size part > S3MaxChunkSize E then gerr (GoErr ''Raos doesn't copy chunks'')
      else copy_loop E part (p_Chunks source))"

section \<open>Parts\<close>

definition q_ref_active :: "oid \<Rightarrow> doc \<Rightarrow> bool" where
  "q_ref_active i d \<longleftrightarrow> (case d of DPart p \<Rightarrow> p_RefID p = i \<and> p_State p = S3StateActive | _ \<Rightarrow> False)"

definition by_part :: "doc \<Rightarrow> sortkey" where
  "by_part d = [[p_Part (as_Part d)]]"

definition s3DeactivateObjectData :: "'w env \<Rightarrow> oid \<Rightarrow> ('w, goerr, unit) go" where
  "s3DeactivateObjectData E refID =
     gbind (dbS3Update E (\<lambda>d. case d of DPart p \<Rightarrow> p_RefID p = refID | _ \<Rightarrow> False)
              (SetU (set_state S3StateInactive)) False (DPart zero_ObjectPart)) (\<lambda>_. gret ())"

definition PartsFind :: "'w env \<Rightarrow> oid \<Rightarrow> ('w, goerr, ObjectPart list) go" where
  "PartsFind E refID =
     gbind (dbS3FindAllFields E S3ObjectData (q_ref_active refID) (upd_part (\<lambda>p. p\<lparr>p_Data := None\<rparr>)))
       (\<lambda>ds. gret (map as_Part ds))"

definition PartsFindForRead :: "'w env \<Rightarrow> oid \<Rightarrow> ('w, goerr, ObjectPart list) go" where
  "PartsFindForRead E refID =
     gbind (dbS3FindAllSorted E S3ObjectData (q_ref_active refID) by_part) (\<lambda>ds. gret (map as_Part ds))"

definition IterParts :: "'w env \<Rightarrow> oid \<Rightarrow> (ObjectPart \<Rightarrow> 's \<Rightarrow> ('w, goerr \<times> 's, 's) go) \<Rightarrow> 's \<Rightarrow> ('w, goerr \<times> 's, 's) go" where
  "IterParts E refID fn s =
     gbind (with_state s (dbS3FindAllSorted E S3ObjectData (q_ref_active refID) by_part)) (\<lambda>ds.
     gfold (\<lambda>d s. fn (as_Part d) s) ds s)"

text \<open>The end of \<open>AddPart\<close> and \<open>CopyPart\<close>: activate the part with its sum, or undo.\<close>

definition finish_part :: "'w env \<Rightarrow> ObjectPart \<Rightarrow> string \<Rightarrow> ('w, goerr, ObjectPart) go" where
  "finish_part E objp csum =
     gtry (dbS3SetState2 E (DPart objp) S3StateActive (upd_part (\<lambda>p. p\<lparr>p_ETag := csum\<rparr>))) (\<lambda>r. case r of
       Inr d \<Rightarrow> gret (as_Part d)
     | Inl err \<Rightarrow> gseq (DeleteChunks E objp) (gseq (dbS3Remove E (DPart objp)) (gerr err)))"

definition CopyPart :: "'w env \<Rightarrow> oid \<Rightarrow> string \<Rightarrow> string \<Rightarrow> ObjectPart \<Rightarrow> ('w, goerr, ObjectPart) go" where
  "CopyPart E refid bucket_bid object_bid source =
     gbind (genv (newid E)) (\<lambda>pid.
     gbind (genv (clock_rfc3339 E)) (\<lambda>now.
     let objp = zero_ObjectPart\<lparr>p_ObjID := pid, p_State := S3StateNone, p_RefID := refid, p_BCookie := bucket_bid,
                  p_OCookie := object_bid, p_Size := p_Size source, p_Part := p_Part source, p_CreationTime := now,
                  p_Data := p_Data source\<rparr>;
         out = (\<lambda>err. gseq (dbS3Remove E (DPart objp)) (gerr err))
     in gtry (dbS3Insert E (DPart objp)) (\<lambda>r. case r of
          Inl err \<Rightarrow> out err
        | Inr d \<Rightarrow>
            let objp = as_Part d
            in if p_Data objp = None
               then gtry (CopyChunks E objp source) (\<lambda>r. case r of
                      Inl err \<Rightarrow> out err
                    | Inr objp' \<Rightarrow> finish_part E objp' (p_ETag source))
               else finish_part E objp (p_ETag source))))"

text \<open>The reader's counter after \<open>n\<close> calls of \<open>Next\<close>. The chunk writer calls it once more than it has stored
  chunks, the RADOS one until it returns nothing.\<close>

fun read_after :: "int \<Rightarrow> nat \<Rightarrow> ChunkReader \<Rightarrow> int" where
  "read_after mx 0 cr = cr_read cr"
| "read_after mx (Suc n) cr = (case Next cr mx of
     Ok (_, cr') \<Rightarrow> read_after mx n cr'
   | _ \<Rightarrow> cr_read cr + int (length (fst (fill (rd_err (cr_r cr)) (rd_segs (cr_r cr)) (nat (min mx (int64_of (cr_size cr - cr_read cr))))))))"

definition next_calls :: "'w env \<Rightarrow> ObjectPart \<Rightarrow> ChunkReader \<Rightarrow> nat" where
  "next_calls E part data =
     (if \<not> radosDisabled E \<and> p_Size part > S3MaxChunkSize E then Suc (length (fst (chunk_stream (S3MaxChunkSize E) data)))
      else Suc (length (p_Chunks part)))"

text \<open>\<open>AddPart\<close> from its insert on: \<open>objp\<close> carries the inline bytes, if any, and \<open>csum\<close> their sum. The
  result is the part and what the caller finds in \<open>data.read\<close>.\<close>

definition store_part :: "'w env \<Rightarrow> ObjectPart \<Rightarrow> string \<Rightarrow> ChunkReader \<Rightarrow> ('w, goerr, ObjectPart \<times> int) go" where
  "store_part E objp csum data =
     (let out = (\<lambda>err. gseq (dbS3Remove E (DPart objp)) (gerr err))
      in gtry (dbS3Insert E (DPart objp)) (\<lambda>r. case r of
           Inl err \<Rightarrow> out err
         | Inr d \<Rightarrow>
             if p_Data objp = None
             then gtry (WriteChunks E (as_Part d) data) (\<lambda>r. case r of
                    Inl err \<Rightarrow> out err
                  | Inr (csum', objp') \<Rightarrow>
                      gbind (finish_part E objp' csum') (\<lambda>p. gret (p, read_after (S3MaxChunkSize E) (next_calls E objp' data) data)))
             else gbind (finish_part E (as_Part d) csum) (\<lambda>p. gret (p, cr_read data))))"

definition AddPart :: "'w env \<Rightarrow> oid \<Rightarrow> string \<Rightarrow> string \<Rightarrow> int \<Rightarrow> ChunkReader \<Rightarrow> ('w, goerr, ObjectPart \<times> int) go" where
  "AddPart E refid bucket_bid object_bid part data =
     gbind (genv (newid E)) (\<lambda>pid.
     gbind (genv (clock_rfc3339 E)) (\<lambda>now.
     let objp = zero_ObjectPart\<lparr>p_ObjID := pid, p_State := S3StateNone, p_RefID := refid, p_BCookie := bucket_bid,
                  p_OCookie := object_bid, p_Size := cr_size data, p_Part := uint_of part, p_CreationTime := now\<rparr>
     in if cr_size data \<le> S3InlineDataSize E
        then (case Next data (cr_size data) of
                Panic \<Rightarrow> gpanic
              | Err err \<Rightarrow> gseq (dbS3Remove E (DPart objp)) (gerr err)
              | Ok (d, data') \<Rightarrow>
                  store_part E (objp\<lparr>p_Data := d\<rparr>) (md5hex E (case d of None \<Rightarrow> [] | Some b \<Rightarrow> b)) data')
        else store_part E objp [] data))"

definition DeletePart :: "'w env \<Rightarrow> ObjectPart \<Rightarrow> ('w, goerr, unit) go" where
  "DeletePart E objp =
     gbind (dbS3SetState E (DPart objp) S3StateInactive (\<lambda>_. True)) (\<lambda>d.
     gbind (DeleteChunks E (as_Part d)) (\<lambda>_.
     dbS3RemoveOnState E (DPart (as_Part d)) S3StateInactive (\<lambda>_. True)))"

definition DeleteParts :: "'w env \<Rightarrow> Object \<Rightarrow> ('w, goerr, unit) go" where
  "DeleteParts E ob = gbind (PartsFind E (o_ObjID ob)) (geach (DeletePart E))"

definition ReadParts :: "'w env \<Rightarrow> ObjectPart list \<Rightarrow> ('w, goerr, string) go" where
  "ReadParts E objp = gfold (\<lambda>od res. gbind (ReadChunks E od) (\<lambda>x. gret (res @ x))) objp []"

definition resum_part :: "'w env \<Rightarrow> ObjectPart \<Rightarrow> int \<times> string \<Rightarrow> ('w, goerr, int \<times> string) go" where
  "resum_part E p a =
     (if p_State p \<noteq> S3StateActive then gret a
      else case p_Data p of
        Some d \<Rightarrow> gret (int64_of (fst a + p_Size p), snd a @ d)
      | None \<Rightarrow>
          if p_Chunks p = [] then gerr (GoErr ''Can't finish upload'')
          else gbind (gfold (\<lambda>cid h. gbind (find_chunk E cid) (\<lambda>b. gret (h @ b))) (p_Chunks p) (snd a)) (\<lambda>h.
               gret (int64_of (fst a + p_Size p), h)))"

definition ResumParts :: "'w env \<Rightarrow> S3Upload \<Rightarrow> ('w, goerr, int \<times> string) go" where
  "ResumParts E upload =
     gbind (dbS3FindAllSorted E S3ObjectData
              (\<lambda>d. case d of DPart p \<Rightarrow> p_RefID p = u_ObjID upload | _ \<Rightarrow> False) by_part) (\<lambda>ds.
     gbind (gfold (resum_part E) (map as_Part ds) (0, [])) (\<lambda>(sz, hashed). gret (sz, md5hex E hashed)))"

section \<open>A complete body is cut without loss\<close>

definition nonempty_segs :: "string list \<Rightarrow> bool" where
  "nonempty_segs ss \<longleftrightarrow> [] \<notin> set ss"

lemma fill_complete:
  assumes "nonempty_segs ss" and "k \<le> length (concat ss)"
  shows "\<exists>rest. fill e ss k = (take k (concat ss), rest, None) \<and> nonempty_segs rest
           \<and> concat rest = drop k (concat ss)"
  using assms
proof (induction e ss k rule: fill.induct)
  case (2 err s ss k)
  show ?case
  proof (cases "k \<noteq> 0 \<and> length s \<le> k")
    case True
    then obtain rest where "fill err ss (k - length s) = (take (k - length s) (concat ss), rest, None)"
        "nonempty_segs rest" "concat rest = drop (k - length s) (concat ss)"
      using 2(1) 2(2,3) by (force simp: nonempty_segs_def)
    then show ?thesis using True 2 by (auto simp: nonempty_segs_def)
  qed (use 2 in \<open>auto simp: nonempty_segs_def\<close>)
qed (auto simp: nonempty_segs_def)

text \<open>\<open>body_left cr b\<close>: the reader still has exactly the bytes \<open>b\<close> the request announced.\<close>

definition body_left :: "ChunkReader \<Rightarrow> string \<Rightarrow> bool" where
  "body_left cr b \<longleftrightarrow> nonempty_segs (rd_segs (cr_r cr)) \<and> concat (rd_segs (cr_r cr)) = b
     \<and> cr_size cr - cr_read cr = int (length b) \<and> int (length b) \<le> MaxInt64"

lemma body_left_len: "body_left cr b \<Longrightarrow> int64_of (cr_size cr - cr_read cr) = int (length b)"
  by (simp add: body_left_def int64_bounds)

lemma Next_complete:
  assumes "body_left cr b" and "mx > 0 \<or> (mx = 0 \<and> b = [])"
  shows "b = [] \<Longrightarrow> \<exists>cr'. Next cr mx = Ok (None, cr') \<and> body_left cr' []"
    and "b \<noteq> [] \<Longrightarrow> \<exists>cr'. Next cr mx = Ok (Some (take (nat mx) b), cr') \<and> body_left cr' (drop (nat mx) b)"
proof -
  let ?n = "nat (min mx (int (length b)))"
  have n: "?n \<le> length b" by linarith
  obtain rest where f: "fill (rd_err (cr_r cr)) (rd_segs (cr_r cr)) ?n = (take ?n b, rest, None)"
      "nonempty_segs rest" "concat rest = drop ?n b"
    using fill_complete [of "rd_segs (cr_r cr)" ?n "rd_err (cr_r cr)"] assms(1) n unfolding body_left_def by blast
  note L = body_left_len [OF assms(1)]
  show "\<exists>cr'. Next cr mx = Ok (None, cr') \<and> body_left cr' []" if "b = []"
    using that assms L f by (auto simp: Next_def Let_def body_left_def split: if_splits)
  show "\<exists>cr'. Next cr mx = Ok (Some (take (nat mx) b), cr') \<and> body_left cr' (drop (nat mx) b)" if "b \<noteq> []"
  proof (cases "mx > int (length b)")
    case True
    then have "?n = length b" by simp
    then show ?thesis using that assms L f True
      by (auto simp: Next_def Let_def body_left_def pad_to_def)
  next
    case False
    then have "?n = nat mx" "nat mx \<le> length b" by auto
    then show ?thesis using that assms L f False
      by (auto simp: Next_def Let_def body_left_def pad_to_def of_nat_diff)
  qed
qed

lemma chunk_stream_complete:
  assumes "body_left cr b" and "mx > 0"
  shows "\<exists>ds. chunk_stream mx cr = (ds, EndOk) \<and> concat ds = b"
  using assms(1)
proof (induction "length b" arbitrary: b cr rule: less_induct)
  case less
  show ?case
  proof (cases "b = []")
    case True
    then obtain cr' where "Next cr mx = Ok (None, cr')" using Next_complete(1) [OF less.prems, of mx] assms(2) by auto
    then show ?thesis using True by (simp add: chunk_stream.simps [of mx cr])
  next
    case False
    then obtain cr' where cr': "Next cr mx = Ok (Some (take (nat mx) b), cr')" "body_left cr' (drop (nat mx) b)"
      using Next_complete(2) [OF less.prems, of mx] assms(2) by auto
    then obtain ds where "chunk_stream mx cr' = (ds, EndOk)" "concat ds = drop (nat mx) b"
      using less.hyps [OF _ cr'(2)] assms(2) False by (cases b) auto
    then show ?thesis using cr' by (auto simp: chunk_stream.simps [of mx cr])
  qed
qed

section \<open>Stored chunks\<close>

definition chunk_at :: "dbview \<Rightarrow> oid \<Rightarrow> string \<Rightarrow> bool" where
  "chunk_at V i b \<longleftrightarrow> V S3DataChunks i = Some (DChunk \<lparr>c_ObjID = i, c_Bytes = b\<rparr>)"

lemma wp_find_chunk:
  assumes E: "mongo_ok E view" "no_faults E view" and "ids_ok (view w)" "chunk_at (view w) i b"
    and "\<And>w'. view w' = view w \<Longrightarrow> Q (Ok b) w'"
  shows "wp (find_chunk E i) Q w"
  unfolding find_chunk_def wp_simps
proof (rule wp_FindOne [OF E(1)], goal_cases found nf io)
  case (found j d w1)
  then have "j = i" using ids_okD [OF assms(3), of _ j d] by (auto simp: q_id_def)
  then show ?case using found assms(4,5) by (simp add: wp_simps chunk_at_def)
next
  case (nf w1)
  then show ?case
    using matchingI [of "view w" S3DataChunks i _ "q_id i"] assms(4) by (auto simp: chunk_at_def q_id_def)
qed (use E in simp)

lemma wp_gfold_chunks:
  assumes E: "mongo_ok E view" "no_faults E view" and "ids_ok (view w)" "list_all2 (chunk_at (view w)) ids bs"
    and "\<And>w'. view w' = view w \<Longrightarrow> Q (Ok (acc @ concat bs)) w'"
  shows "wp (gfold (\<lambda>cid res. gbind (find_chunk E cid) (\<lambda>b. gret (res @ b))) ids acc) Q w"
  using assms(3-)
proof (induction ids arbitrary: bs acc w)
  case Nil
  then show ?case by (simp add: wp_simps)
next
  case (Cons i ids)
  then obtain b bs' where bs: "bs = b # bs'" "chunk_at (view w) i b" "list_all2 (chunk_at (view w)) ids bs'"
    by (auto simp: list_all2_Cons1)
  show ?case
    unfolding gfold.simps wp_simps
    by (rule wp_find_chunk [OF E Cons.prems(1) bs(2)]) (use bs Cons in \<open>auto simp: wp_simps\<close>)
qed

lemma wp_ReadChunks:
  assumes E: "mongo_ok E view" "no_faults E view" "radosDisabled E" and "ids_ok (view w)"
    and "case p_Data part of Some d \<Rightarrow> b = d
         | None \<Rightarrow> \<exists>bs. list_all2 (chunk_at (view w)) (p_Chunks part) bs \<and> b = concat bs"
    and "\<And>w'. view w' = view w \<Longrightarrow> Q (Ok b) w'"
  shows "wp (ReadChunks E part) Q w"
  using assms(4-) unfolding ReadChunks_def
  by (auto simp: wp_simps radosReadObject_def E(3) split: option.splits intro!: wp_gfold_chunks [OF E(1,2)])

lemma wp_store_chunks:
  assumes E: "mongo_ok E view" "no_faults E view" and "ids_ok (view w)"
    and pz: "view w S3ObjectData i = Some (DPart pz)" "p_ObjID part = i"
    and "\<And>t w'. view w' = put_doc S3ObjectData i (Some (DPart (pz\<lparr>p_Chunks := p_Chunks part, p_MTime := t\<rparr>))) (view w) \<Longrightarrow> Q (Ok ()) w'"
  shows "wp (store_chunks E part) Q w"
  unfolding store_chunks_def wp_simps
proof (rule wp_Update [OF E(1)], goal_cases hit nf io)
  case (hit t j d w1)
  then have "j = i" "d = DPart pz" using ids_okD [OF assms(3), of _ j d] pz by (auto simp: q_id_def)
  then show ?case using hit pz assms(6) [of w1 t] by (simp add: wp_simps dbS3UpdateMTime_def)
next
  case (nf w1)
  then show ?case
    using matchingI [of "view w" S3ObjectData i "DPart pz" "dbS3SetObjID (DPart zero_ObjectPart) (q_id i)"] pz
      ids_okD [OF assms(3) pz(1)] by (simp add: q_id_def dbS3SetObjID_def zero_ObjectPart_def)
qed (use E in simp)

lemma chunk_at_put_part [simp]: "chunk_at (put_doc S3ObjectData i d V) = chunk_at V"
  by (auto simp: chunk_at_def fun_eq_iff)

lemma chunk_at_put_new:
  "V S3DataChunks j = None \<Longrightarrow> chunk_at V i b \<Longrightarrow> chunk_at (put_doc S3DataChunks j d V) i b"
  by (auto simp: chunk_at_def put_doc_def)

text \<open>Storing a part touches its own document and chunks only.\<close>

definition part_frame :: "oid \<Rightarrow> dbview \<Rightarrow> dbview \<Rightarrow> bool" where
  "part_frame pid V V' \<longleftrightarrow> (\<forall>c. c \<noteq> S3ObjectData \<and> c \<noteq> S3DataChunks \<longrightarrow> V' c = V c)
     \<and> (\<forall>i. i \<noteq> pid \<longrightarrow> V' S3ObjectData i = V S3ObjectData i)"

lemma part_frame_put [simp]:
  "part_frame pid V (put_doc S3ObjectData pid d V') = part_frame pid V V'"
  "part_frame pid (put_doc S3ObjectData pid d V) V' = part_frame pid V V'"
  "part_frame pid V (put_doc S3DataChunks i d V') = part_frame pid V V'"
  "part_frame pid (put_doc S3DataChunks i d V) V' = part_frame pid V V'"
  "part_frame pid V V"
  by (auto simp: part_frame_def put_doc_def)

lemma wp_write_loop:
  assumes E: "mongo_ok E view" "no_faults E view" and "ids_ok (view w)"
    and "view w S3ObjectData (p_ObjID part) = Some (DPart pz)" "p_ObjID pz = p_ObjID part"
    and "list_all2 (chunk_at (view w)) (p_Chunks part) bs" "hashed = concat bs"
    and "\<And>t ids w'. ids_ok (view w') \<Longrightarrow>
           view w' S3ObjectData (p_ObjID part) = Some (DPart (pz\<lparr>p_Chunks := ids, p_MTime := t\<rparr>)) \<Longrightarrow>
           list_all2 (chunk_at (view w')) ids (bs @ ds) \<Longrightarrow> part_frame (p_ObjID part) (view w) (view w') \<Longrightarrow>
           Q (Ok (md5hex E (concat (bs @ ds)), part\<lparr>p_Chunks := ids\<rparr>)) w'"
  shows "wp (write_loop E part ds EndOk hashed) Q w"
  using assms(3-)
proof (induction ds arbitrary: part bs hashed w)
  case Nil
  show ?case
    unfolding write_loop.simps stream_end.case wp_simps
  proof (rule wp_store_chunks [OF E Nil(1,2) refl], goal_cases)
    case (1 t w1)
    then show ?case using Nil(5) Nil(6) [where w' = w1 and t = t and ids = "p_Chunks part"] Nil(1,3,4) by (simp add: wp_simps)
  qed
next
  case (Cons d ds)
  show ?case
    unfolding write_loop.simps wp_simps
  proof (rule wp_newid [OF E(1)], goal_cases)
    case (1 cid w1)
    show ?case
      unfolding on_ok_simps wp_simps
    proof (rule wp_Insert [OF E(1)], goal_cases ins io)
      case (ins t w2)
      have v2: "view w2 = put_doc S3DataChunks cid (Some (DChunk \<lparr>c_ObjID = cid, c_Bytes = d\<rparr>)) (view w)"
        using ins 1 by simp
      have "list_all2 (chunk_at (view w2)) (p_Chunks part) bs"
        using Cons.prems(4) by (rule list_all2_mono) (simp add: v2 chunk_at_put_new 1(3))
      moreover have "chunk_at (view w2) cid d" by (simp add: v2 chunk_at_def)
      ultimately have all: "list_all2 (chunk_at (view w2)) (p_Chunks part @ [cid]) (bs @ [d])"
        by (simp add: list_all2_appendI)
      show ?case
        unfolding on_any_simps sum.case
      proof (rule Cons.IH [where bs = "bs @ [d]"], goal_cases)
        case (6 x1 x2 x3)
        then show ?case using Cons.prems(6) v2 by simp
      qed (use all v2 Cons.prems in auto)
    next
      case (io e w2)
      then show ?case using E(2) 1 by simp
    qed
  qed
qed

text \<open>Activating a stored part.\<close>

lemma wp_finish_part:
  assumes E: "mongo_ok E view" "no_faults E view" and ids: "ids_ok (view w)"
    and pz: "view w S3ObjectData (p_ObjID part) = Some (DPart pz)" "p_State pz = S3StateNone" "p_ObjID part \<noteq> []"
    and Q: "\<And>t p w'. p = pz\<lparr>p_ETag := csum, p_State := S3StateActive, p_MTime := t\<rparr> \<Longrightarrow>
           view w' = put_doc S3ObjectData (p_ObjID part) (Some (DPart p)) (view w) \<Longrightarrow> Q (Ok p) w'"
  shows "wp (finish_part E part csum) Q w"
  unfolding finish_part_def wp_simps
proof (rule wp_SetState2 [OF E(1)], goal_cases hit nf io)
  case (hit t j d w1)
  then have "j = p_ObjID part" "d = DPart pz" using ids_okD [OF ids, of _ j d] pz by auto
  then show ?case using hit Q by (simp add: wp_simps)
next
  case (nf w1)
  then show ?case
    using matchingI [of "view w" S3ObjectData "p_ObjID part" "DPart pz" "dbS3SetObjID (DPart part) (in_trans S3StateActive)"]
      pz ids_okD [OF ids pz(1)] by (simp add: dbS3SetObjID_def)
qed (use E in simp)

text \<open>What \<open>AddPart\<close> leaves behind: an active part that carries the sum and reads back as the body.\<close>

definition part_holds :: "'w env \<Rightarrow> dbview \<Rightarrow> ObjectPart \<Rightarrow> string \<Rightarrow> bool" where
  "part_holds E V p b \<longleftrightarrow> V S3ObjectData (p_ObjID p) = Some (DPart p) \<and> p_State p = S3StateActive
     \<and> p_ETag p = md5hex E b
     \<and> (case p_Data p of Some d \<Rightarrow> b = d | None \<Rightarrow> \<exists>bs. list_all2 (chunk_at V) (p_Chunks p) bs \<and> b = concat bs)"

lemma wp_WriteChunks:
  assumes E: "mongo_ok E view" "no_faults E view" "radosDisabled E" "0 < S3MaxChunkSize E" and "ids_ok (view w)"
    and "view w S3ObjectData (p_ObjID part) = Some (DPart part)" "p_Chunks part = []"
    and b: "body_left data b"
    and "\<And>t ids bs w'. ids_ok (view w') \<Longrightarrow>
           view w' S3ObjectData (p_ObjID part) = Some (DPart (part\<lparr>p_Chunks := ids, p_MTime := t\<rparr>)) \<Longrightarrow>
           list_all2 (chunk_at (view w')) ids bs \<Longrightarrow> b = concat bs \<Longrightarrow> part_frame (p_ObjID part) (view w) (view w') \<Longrightarrow>
           Q (Ok (md5hex E b, part\<lparr>p_Chunks := ids\<rparr>)) w'"
  shows "wp (WriteChunks E part data) Q w"
proof -
  obtain ds where ds: "chunk_stream (S3MaxChunkSize E) data = (ds, EndOk)" "concat ds = b"
    using chunk_stream_complete [OF b E(4)] by auto
  have "wp (write_loop E part ds EndOk []) Q w"
    by (rule wp_write_loop [OF E(1,2) assms(5,6) refl, where bs = "[]"]) (use assms ds in auto)
  then show ?thesis using ds E(3) by (simp add: WriteChunks_def)
qed

text \<open>The stored half of \<open>AddPart\<close>, with or without the bytes inline.\<close>

lemma wp_store_part:
  assumes E: "mongo_ok E view" "no_faults E view" "radosDisabled E" "0 < S3MaxChunkSize E" and "ids_ok (view w)"
    and p: "p_ObjID objp \<noteq> []" "p_State objp = S3StateNone" "p_Chunks objp = []" "view w S3ObjectData (p_ObjID objp) = None"
    and b: "case p_Data objp of Some d \<Rightarrow> d = b \<and> csum = md5hex E b | None \<Rightarrow> body_left data b"
    and Q: "\<And>p rd w'. ids_ok (view w') \<Longrightarrow> part_holds E (view w') p b \<Longrightarrow> p_Size p = p_Size objp \<Longrightarrow>
           p_RefID p = p_RefID objp \<Longrightarrow> p_Part p = p_Part objp \<Longrightarrow> p_ObjID p = p_ObjID objp \<Longrightarrow>
           part_frame (p_ObjID objp) (view w) (view w') \<Longrightarrow> Q (Ok (p, rd)) w'"
  shows "wp (store_part E objp csum data) Q w"
  unfolding store_part_def Let_def wp_simps
proof (rule wp_Insert [OF E(1)], goal_cases ins io)
  case (ins t w1)
  let ?p = "objp\<lparr>p_MTime := t\<rparr>"
  have v1: "view w1 = put_doc S3ObjectData (p_ObjID objp) (Some (DPart ?p)) (view w)" and ids1: "ids_ok (view w1)"
    using ins assms(5) by auto
  show ?case
  proof (cases "p_Data objp")
    case None
    have "wp (WriteChunks E ?p data) (on_any (\<lambda>r. wp (case r of Inl err \<Rightarrow> gseq (dbS3Remove E (DPart objp)) (gerr err)
        | Inr (csum', objp') \<Rightarrow> gbind (finish_part E objp' csum') (\<lambda>p. gret (p, read_after (S3MaxChunkSize E) (next_calls E objp' data) data))) Q) Q) w1"
    proof (rule wp_WriteChunks [OF E ids1, where b = b], goal_cases)
      case (4 t' ids bs w2)
      have "wp (finish_part E (?p\<lparr>p_Chunks := ids\<rparr>) (md5hex E b)) (on_ok (\<lambda>p. wp (gret (p, rd)) Q) Q) w2" for rd
        by (rule wp_finish_part [OF E(1,2) 4(1), where pz = "?p\<lparr>p_Chunks := ids, p_MTime := t'\<rparr>"])
           (use 4 p None v1 in \<open>auto simp: part_holds_def wp_simps intro!: Q\<close>)
      then show ?case by (simp add: wp_gbind)
    qed (use v1 p b None in auto)
    then show ?thesis using None by (simp add: wp_simps)
  next
    case (Some d)
    have "wp (finish_part E ?p csum) (on_ok (\<lambda>p. wp (gret (p, cr_read data)) Q) Q) w1"
      by (rule wp_finish_part [OF E(1,2) ids1, where pz = "?p"])
         (use v1 p b Some ids1 assms(5) in \<open>auto simp: part_holds_def wp_simps intro!: Q\<close>)
    then show ?thesis using Some by (simp add: wp_simps)
  qed
qed (use E p in simp)

lemma wp_AddPart:
  assumes E: "mongo_ok E view" "no_faults E view" "radosDisabled E" "0 < S3MaxChunkSize E" and ids: "ids_ok (view w)"
    and b: "body_left data b" "cr_read data = 0"
    and Q: "\<And>p rd w'. ids_ok (view w') \<Longrightarrow> part_holds E (view w') p b \<Longrightarrow> p_Size p = int (length b) \<Longrightarrow>
           p_RefID p = refid \<Longrightarrow> p_Part p = uint_of part \<Longrightarrow> view w S3ObjectData (p_ObjID p) = None \<Longrightarrow>
           p_ObjID p \<noteq> [] \<Longrightarrow> part_frame (p_ObjID p) (view w) (view w') \<Longrightarrow> Q (Ok (p, rd)) w'"
  shows "wp (AddPart E refid bid oid part data) Q w"
proof -
  have sz: "cr_size data = int (length b)" using b by (simp add: body_left_def)
  show ?thesis
    unfolding AddPart_def wp_simps Let_def
  proof (rule wp_newid [OF E(1)], goal_cases)
    case (1 pid w1)
    show ?case
      unfolding on_ok_simps wp_simps
    proof (rule wp_now [OF E(1)], goal_cases)
      case (1 now w2)
      note w2 = 1 \<open>view w1 = view w\<close> \<open>pid \<noteq> []\<close> \<open>\<And>c. view w c pid = None\<close>
      show ?case
      proof (cases "cr_size data \<le> S3InlineDataSize E")
        case True
        have "\<exists>d data'. Next data (int (length b)) = Ok (d, data') \<and>
            (case d of Some x \<Rightarrow> x = b | None \<Rightarrow> b = [] \<and> body_left data' b)"
          using Next_complete [OF b(1), of "int (length b)"] by (cases "b = []") auto
        then obtain d data' where nx: "Next data (int (length b)) = Ok (d, data')"
            "case d of Some x \<Rightarrow> x = b | None \<Rightarrow> b = [] \<and> body_left data' b" by auto
        then show ?thesis using True w2 ids
          by (auto simp: sz zero_ObjectPart_def split: option.splits intro!: wp_store_part [OF E, where b = b] Q)
      next
        case False
        then show ?thesis using w2 ids b
          by (auto simp: sz zero_ObjectPart_def intro!: wp_store_part [OF E, where b = b] Q)
      qed
    qed
  qed
qed

section \<open>Properties\<close>

text \<open>
  What is written is read. When the server answers and the request body arrives complete,
  \<open>AddPart\<close> returns an active part with the body's length and checksum, and \<open>ReadChunks\<close> gives
  back the body byte for byte, whether it was stored inline or cut into chunks.
\<close>

theorem AddPart_roundtrip:
  assumes "mongo_ok E view" and "no_faults E view" and "radosDisabled E" and "0 < S3MaxChunkSize E"
    and "ids_ok (view w)" and "body_left data body" and "cr_read data = 0"
    and "AddPart E refid bid oid part data w = (r, w1)"
  shows "\<exists>p rd. r = Ok (p, rd) \<and> p_State p = S3StateActive \<and> p_Size p = int (length body) \<and> p_ETag p = md5hex E body
           \<and> view w1 S3ObjectData (p_ObjID p) = Some (DPart p) \<and> fst (ReadChunks E p w1) = Ok body"
proof -
  have "fst (ReadChunks E p w1) = Ok body" if "ids_ok (view w1)" "part_holds E (view w1) p body" for p w1
  proof -
    have "wp (ReadChunks E p) (\<lambda>r _. r = Ok body) w1"
      by (rule wp_ReadChunks [OF assms(1-3) that(1)]) (use that in \<open>auto simp: part_holds_def\<close>)
    then show ?thesis by (simp add: wp_def split: prod.splits)
  qed
  then have "wp (AddPart E refid bid oid part data) (\<lambda>r w1. \<exists>p rd. r = Ok (p, rd) \<and> p_State p = S3StateActive
      \<and> p_Size p = int (length body) \<and> p_ETag p = md5hex E body
      \<and> view w1 S3ObjectData (p_ObjID p) = Some (DPart p) \<and> fst (ReadChunks E p w1) = Ok body) w"
    by (intro wp_AddPart [OF assms(1-7)]) (auto simp: part_holds_def)
  from wpD [OF this assms(8)] show ?thesis .
qed

text \<open>Seven bytes in three segments, cut into chunks of five by an environment that keeps two bytes inline.\<close>

definition small_env :: "mem env" where
  "small_env = mem_env\<lparr>S3InlineDataSize := 2, S3MaxChunkSize := 5\<rparr>"

lemma small_env_ok: "mongo_ok small_env mview" "no_faults small_env mview"
  using mem_env_ok mem_no_faults unfolding small_env_def mongo_ok_def no_faults_def mongo_laws by simp_all

definition seven :: ChunkReader where
  "seven = \<lparr>cr_size = 7, cr_read = 0, cr_r = \<lparr>rd_segs = [''abc'', ''de'', ''fg''], rd_err = None\<rparr>\<rparr>"

theorem AddPart_roundtrip_witness:
  "\<exists>p rd w1. AddPart small_env ''o1'' ''b'' ''o'' 0 seven (mem_of []) = (Ok (p, rd), w1) \<and> p_Size p = 7
     \<and> fst (ReadChunks small_env p w1) = Ok ''abcdefg''"
proof -
  obtain r w1 where run: "AddPart small_env ''o1'' ''b'' ''o'' 0 seven (mem_of []) = (r, w1)" by fastforce
  have "body_left seven ''abcdefg''" by (simp add: body_left_def seven_def nonempty_segs_def int64_bounds)
  from AddPart_roundtrip [OF small_env_ok _ _ _ this _ run] show ?thesis
    using run by (auto simp: small_env_def mem_env_def seven_def)
qed

text \<open>Deleting chunks touches nothing but chunks.\<close>

definition same_but_chunks :: "dbview \<Rightarrow> dbview \<Rightarrow> bool" where
  "same_but_chunks V V' \<longleftrightarrow> (ids_ok V \<longrightarrow> ids_ok V') \<and> (\<forall>c. c \<noteq> S3DataChunks \<longrightarrow> V' c = V c)"

lemma same_but_chunks_refl [simp]: "same_but_chunks V V"
  by (simp add: same_but_chunks_def)

lemma same_but_chunks_del: "same_but_chunks V V' \<Longrightarrow> same_but_chunks V (put_doc S3DataChunks i None V')"
  by (auto simp: same_but_chunks_def)

lemma same_but_chunks_ins:
  "same_but_chunks V V' \<Longrightarrow> doc_id d = i \<Longrightarrow> dbColl d = S3DataChunks \<Longrightarrow> same_but_chunks V (put_doc S3DataChunks i (Some d) V')"
  by (auto simp: same_but_chunks_def)

lemma wp_DeleteChunks:
  assumes E: "mongo_ok E view" "radosDisabled E" and V: "same_but_chunks V (view w)"
    and Q: "\<And>w'. same_but_chunks V (view w') \<Longrightarrow> Q (Ok ()) w'"
  shows "wp (DeleteChunks E part) Q w"
proof -
  have "wp (geach (\<lambda>ch. gseq (dbS3Remove E (DChunk (zero_DataChunk\<lparr>c_ObjID := ch\<rparr>))) (gret ())) (p_Chunks part)) Q w"
    using V
    by (intro wp_geach [where I = "\<lambda>_ w. same_but_chunks V (view w)"])
       (auto simp: wp_simps intro!: wp_Remove [OF E(1)] same_but_chunks_del Q)
  then show ?thesis unfolding DeleteChunks_def using Q V
    by (auto simp: wp_simps radosDeleteObject_def E(2))
qed

lemma wp_write_loop_err:
  assumes E: "mongo_ok E view" "no_faults E view" "radosDisabled E" and "same_but_chunks V (view w)"
    and Q: "\<And>ids w'. same_but_chunks V (view w') \<Longrightarrow> Q (Ok ([], part\<lparr>p_Chunks := ids\<rparr>)) w'"
  shows "wp (write_loop E part ds (EndErr e) hashed) Q w"
  using assms(4-)
proof (induction ds arbitrary: part hashed w)
  case Nil
  then show ?case using Nil(2) [of _ "p_Chunks part"]
    by (auto simp: wp_simps chunks_out_def intro!: wp_DeleteChunks [OF E(1,3) Nil(1)])
next
  case (Cons d ds)
  have rest: "wp (write_loop E (part\<lparr>p_Chunks := ids\<rparr>) ds (EndErr e) h) Q w1" if "same_but_chunks V (view w1)" for ids h w1
    by (rule Cons.IH [OF that]) (use Cons.prems(2) in simp)
  from Cons.prems(1) E(2) show ?case
    by (auto simp: wp_simps intro!: wp_newid [OF E(1)] wp_Insert [OF E(1)] rest) (auto intro!: same_but_chunks_ins)
qed

text \<open>
  C35. A body that breaks off is stored as a success. When reading a body too large to be kept
  inline ends with an error, \<open>AddPart\<close> still returns an active part of the announced size: it has
  neither data nor chunks and an empty checksum, since the error is lost in \<open>WriteChunks\<close>.
\<close>

theorem AddPart_loses_read_error:
  assumes "mongo_ok E view" and "no_faults E view" and "radosDisabled E" and "ids_ok (view w)"
    and "S3InlineDataSize E < cr_size data" and "chunk_stream (S3MaxChunkSize E) data = (ds, EndErr e)"
    and "AddPart E refid bid oid part data w = (r, w1)"
  shows "\<exists>p rd. r = Ok (p, rd) \<and> p_State p = S3StateActive \<and> p_Size p = cr_size data \<and> p_ETag p = []
           \<and> p_Data p = None \<and> p_Chunks p = []"
proof -
  let ?ok = "\<lambda>p. p_State p = S3StateActive \<and> p_Size p = cr_size data \<and> p_ETag p = [] \<and> p_Data p = None \<and> p_Chunks p = []"
  define P :: "(goerr, ObjectPart \<times> int) res \<Rightarrow> 'a \<Rightarrow> bool" where "P = (\<lambda>r _. \<exists>p rd. r = Ok (p, rd) \<and> ?ok p)"
  note E = assms(1-3)
  have fin: "wp (finish_part E (p\<lparr>p_Chunks := ids\<rparr>) []) (on_ok (\<lambda>p. wp (gret (p, rd)) P) P) w3"
    if "same_but_chunks (view w2) (view w3)" "ids_ok (view w2)" "view w2 S3ObjectData (p_ObjID p) = Some (DPart p)"
      "p_ObjID p \<noteq> []" "p_State p = S3StateNone" "p_Size p = cr_size data" "p_Data p = None" "p_Chunks p = []" for p ids w2 w3 rd
    by (rule wp_finish_part [OF E(1,2), where pz = p]) (use that in \<open>auto simp: same_but_chunks_def wp_simps P_def\<close>)
  have wrt: "wp (WriteChunks E p data) (on_any (\<lambda>r. wp (case r of
        Inl err \<Rightarrow> gseq (dbS3Remove E (DPart q)) (gerr err)
      | Inr (csum', objp') \<Rightarrow> gbind (finish_part E objp' csum') (\<lambda>p. gret (p, read_after (S3MaxChunkSize E) (next_calls E objp' data) data))) P) P) w2"
    if "ids_ok (view w2)" "view w2 S3ObjectData (p_ObjID p) = Some (DPart p)"
      "p_ObjID p \<noteq> []" "p_State p = S3StateNone" "p_Size p = cr_size data" "p_Data p = None" "p_Chunks p = []" for p q w2
    unfolding WriteChunks_def using E(3) assms(6) that
    by (auto simp: wp_gbind intro!: wp_write_loop_err [OF E same_but_chunks_refl] fin)
  have store: "wp (store_part E p [] data) P w2"
    if "ids_ok (view w2)" "view w2 S3ObjectData (p_ObjID p) = None"
      "p_ObjID p \<noteq> []" "p_State p = S3StateNone" "p_Size p = cr_size data" "p_Data p = None" "p_Chunks p = []" for p w2
    unfolding store_part_def wp_simps Let_def using that E(2)
    by (intro wp_Insert [OF E(1)]) (auto simp: wp_simps intro!: wrt)
  have "wp (AddPart E refid bid oid part data) P w"
    unfolding AddPart_def using assms(4,5)
    by (auto simp: wp_simps Let_def zero_ObjectPart_def intro!: wp_newid [OF E(1)] wp_now [OF E(1)] store)
  from wpD [OF this assms(7)] show ?thesis unfolding P_def .
qed

text \<open>Six bytes announced, four delivered before the connection breaks.\<close>

definition broken :: ChunkReader where
  "broken = \<lparr>cr_size = 6, cr_read = 0, cr_r = \<lparr>rd_segs = [''abcd''], rd_err = Some (GoErr ''unexpected EOF'')\<rparr>\<rparr>"

theorem AddPart_loses_read_error_witness:
  "\<exists>p rd w1. AddPart small_env ''o1'' ''b'' ''o'' 0 broken (mem_of []) = (Ok (p, rd), w1) \<and> p_Size p = 6
     \<and> p_Data p = None \<and> p_Chunks p = []"
proof -
  obtain r w1 where run: "AddPart small_env ''o1'' ''b'' ''o'' 0 broken (mem_of []) = (r, w1)" by fastforce
  have "chunk_stream (S3MaxChunkSize small_env) broken = ([], EndErr (GoErr ''unexpected EOF''))"
    by (subst chunk_stream.simps) (simp add: Next_def small_env_def broken_def Let_def int64_of_def)
  from AddPart_loses_read_error [OF small_env_ok _ _ _ this run] show ?thesis
    using run by (auto simp: small_env_def mem_env_def broken_def)
qed

end
