(* ===== verification/S3_Object.thy ===== *)
theory S3_Object
  imports S3_Data
begin

text \<open>
  Objects: \<open>src/s3/object.go\<close>, the notifications of \<open>src/s3/notify.go\<close> and the collector of
  old versions of \<open>src/s3/gc.go\<close>.

  A bucket is passed by pointer and refreshed by every accounting call, so the operations
  return it with their result. \<open>Activate\<close> starts \<open>gcOldVersions\<close> in a goroutine of its own: the
  arguments it is started with are the returned bucket, the object's key and the bucket's
  rover, and the collector is a separate operation that runs at some later time.
\<close>

section \<open>Notifications\<close>

record Subscribe =
  sub_Namespace :: string
  sub_Bucket :: string
  sub_Ops :: string
  sub_Queue :: string

definition q_bcookie :: "string \<Rightarrow> doc \<Rightarrow> bool" where
  "q_bcookie c d \<longleftrightarrow> (case d of DBucket b \<Rightarrow> b_BCookie b = c \<and> b_State b = S3StateActive | _ \<Rightarrow> False)"

definition notifyFindBucket :: "'w env \<Rightarrow> Subscribe \<Rightarrow> ('w, goerr, Bucket) go" where
  "notifyFindBucket E params =
     gbind (dbS3FindOne E S3Buckets (q_bcookie (BCookie E (sub_Namespace params) (sub_Bucket params))))
       (\<lambda>d. gret (as_Bucket d))"

text \<open>The keys \<open>notify.<op>\<close> of a document: operations other than \<open>put\<close> and \<open>delete\<close> set fields no
  struct reads. A key listed twice is one key of the map.\<close>

definition inc_notify :: "int \<Rightarrow> string \<Rightarrow> BucketNotify \<Rightarrow> BucketNotify" where
  "inc_notify k ops n = n\<lparr>n_Put := n_Put n + (if ''put'' \<in> set (Split ops (CHR '','')) then k else 0),
                          n_Delete := n_Delete n + (if ''delete'' \<in> set (Split ops (CHR '','')) then k else 0)\<rparr>"

definition notify_of :: "Bucket \<Rightarrow> BucketNotify" where
  "notify_of b = (case b_BasicNotify b of Some n \<Rightarrow> n | None \<Rightarrow> \<lparr>n_Queue = [], n_Put = 0, n_Delete = 0\<rparr>)"

definition s3Subscribe :: "'w env \<Rightarrow> Subscribe \<Rightarrow> ('w, goerr, unit) go" where
  "s3Subscribe E params =
     gbind (notifyFindBucket E params) (\<lambda>bucket.
     gbind (dbS3Update E is_active (SetIncU (upd_bucket (\<lambda>b.
              b\<lparr>b_BasicNotify := Some (inc_notify 1 (sub_Ops params) ((notify_of b)\<lparr>n_Queue := sub_Queue params\<rparr>))\<rparr>)))
              False (DBucket bucket)) (\<lambda>_. gret ()))"

definition s3Unsubscribe :: "'w env \<Rightarrow> Subscribe \<Rightarrow> ('w, goerr, unit) go" where
  "s3Unsubscribe E params =
     gbind (notifyFindBucket E params) (\<lambda>bucket.
     gbind (dbS3Update E is_active (IncU (upd_bucket (\<lambda>b.
              b\<lparr>b_BasicNotify := Some (inc_notify (-1) (sub_Ops params) (notify_of b))\<rparr>)))
              False (DBucket bucket)) (\<lambda>_. gret ()))"

text \<open>A failed lookup or delivery is only logged.\<close>

definition s3Notify :: "'w env \<Rightarrow> Iam option \<Rightarrow> Bucket \<Rightarrow> Object \<Rightarrow> string \<Rightarrow> ('w, goerr, unit) go" where
  "s3Notify E ctx bucket ob op =
     gtry (s3AccountLookup E ctx) (\<lambda>r. case r of
       Inl _ \<Rightarrow> gret ()
     | Inr account \<Rightarrow>
         (case b_BasicNotify bucket of
            None \<Rightarrow> gpanic
          | Some n \<Rightarrow>
              gseq (\<lambda>w. publish E (n_Queue n) \<lparr>ev_Namespace = ac_Namespace account, ev_Bucket = b_Name bucket,
                                               ev_Object = op_Key (o_Props ob), ev_Op = op\<rparr> w) (gret ())))"

section \<open>Objects\<close>

definition q_ocookie :: "string \<Rightarrow> doc \<Rightarrow> bool" where
  "q_ocookie c d \<longleftrightarrow> (case d of DObject o' \<Rightarrow> o_OCookie o' = c \<and> o_State o' = S3StateActive | _ \<Rightarrow> False)"

definition newest_first :: "doc \<Rightarrow> sortkey" where
  "newest_first d = [[- o_Rover (as_Object d)]]"

definition FindCurObject :: "'w env \<Rightarrow> Bucket \<Rightarrow> string \<Rightarrow> ('w, goerr, Object) go" where
  "FindCurObject E bucket oname =
     gbind (dbS3FindOneTop E S3Objects (q_ocookie (OCookie E bucket oname 1)) newest_first) (\<lambda>d. gret (as_Object d))"

definition upd_object :: "(Object \<Rightarrow> Object) \<Rightarrow> doc \<Rightarrow> doc" where
  "upd_object f d = (case d of DObject x \<Rightarrow> DObject (f x) | _ \<Rightarrow> d)"

lemma upd_object_DObject [simp]: "upd_object f (DObject x) = DObject (f x)"
  by (simp add: upd_object_def)

definition Activate :: "'w env \<Rightarrow> Bucket \<Rightarrow> Object \<Rightarrow> string \<Rightarrow> ('w, goerr, Bucket \<times> Object) go" where
  "Activate E b ob etag =
     gbind (dbS3SetOnState E (DObject ob) S3StateActive (\<lambda>_. True)
              (upd_object (\<lambda>x. x\<lparr>o_State := S3StateActive, o_ETag := etag, o_Rover := b_Rover b\<rparr>))) (\<lambda>d.
     gbind (commitObj E b (o_Size (as_Object d))) (\<lambda>b'. gret (b', as_Object d)))"

definition createObjectPre :: "'w env \<Rightarrow> Bucket \<Rightarrow> Object \<Rightarrow> ('w, goerr, Bucket \<times> Object) go" where
  "createObjectPre E bucket ob =
     gbind (genv (clock_rfc3339 E)) (\<lambda>now.
     let ob = ob\<lparr>o_State := S3StateNone, o_Props := (o_Props ob)\<lparr>op_CreationTime := now\<rparr>, o_Version := 1,
                 o_BucketObjID := b_ObjID bucket, o_OCookie := OCookie E bucket (op_Key (o_Props ob)) 1\<rparr>
     in gbind (dbS3Insert E (DObject ob)) (\<lambda>d.
        gtry (acctObj E bucket (o_Size ob)) (\<lambda>r. case r of
          Inl err \<Rightarrow> gseq (dbS3Remove E d) (gerr err)
        | Inr bucket' \<Rightarrow> gret (bucket', as_Object d))))"

definition createObjectPost :: "'w env \<Rightarrow> Iam option \<Rightarrow> Bucket \<Rightarrow> Object \<Rightarrow> ('w, goerr, Bucket \<times> Object) go" where
  "createObjectPost E ctx bucket ob =
     gbind (Activate E bucket ob (o_ETag ob)) (\<lambda>(bucket', ob').
       case b_BasicNotify bucket' of
         Some n \<Rightarrow> if n_Put n > 0 then gseq (s3Notify E ctx bucket' ob' ''put'') (gret (bucket', ob'))
                   else gret (bucket', ob')
       | None \<Rightarrow> gret (bucket', ob'))"

text \<open>The label \<open>out_acc\<close>.\<close>

definition undo_object :: "'w env \<Rightarrow> Bucket \<Rightarrow> Object \<Rightarrow> goerr \<Rightarrow> ('w, goerr, 'a) go" where
  "undo_object E bucket ob err =
     gseq (unacctObj E bucket (o_Size ob) True) (gseq (dbS3Remove E (DObject ob)) (gerr err))"

definition mk_object :: "oid \<Rightarrow> int \<Rightarrow> string \<Rightarrow> string \<Rightarrow> Object" where
  "mk_object i sz key acl =
     zero_Object\<lparr>o_ObjID := i, o_Size := sz, o_Props := zero_ObjectProps\<lparr>op_Key := key, op_Acl := acl\<rparr>\<rparr>"

definition UploadToObject :: "'w env \<Rightarrow> Iam option \<Rightarrow> Bucket \<Rightarrow> S3Upload \<Rightarrow> ('w, goerr, Bucket \<times> Object) go" where
  "UploadToObject E ctx bucket upload =
     gbind (ResumParts E upload) (\<lambda>(sz, etag).
     gbind (createObjectPre E bucket (mk_object (u_ObjID upload) sz (op_Key (u_Props upload)) (op_Acl (u_Props upload))))
       (\<lambda>(bucket', ob).
     gtry (createObjectPost E ctx bucket' (ob\<lparr>o_ETag := etag\<rparr>)) (\<lambda>r. case r of
       Inr res \<Rightarrow> gret res
     | Inl err \<Rightarrow> undo_object E bucket' ob err)))"

definition AddObject :: "'w env \<Rightarrow> Iam option \<Rightarrow> Bucket \<Rightarrow> string \<Rightarrow> string \<Rightarrow> ChunkReader \<Rightarrow> ('w, goerr, Bucket \<times> Object \<times> int) go" where
  "AddObject E ctx bucket oname acl data =
     gbind (genv (newid E)) (\<lambda>i.
     gbind (createObjectPre E bucket (mk_object i (cr_size data) oname acl)) (\<lambda>(bucket', ob).
     gtry (AddPart E (o_ObjID ob) (b_BCookie bucket') (o_OCookie ob) 0 data) (\<lambda>r. case r of
       Inl err \<Rightarrow> undo_object E bucket' ob err
     | Inr (objp, rd) \<Rightarrow>
         gtry (createObjectPost E ctx bucket' (ob\<lparr>o_ETag := p_ETag objp\<rparr>)) (\<lambda>r. case r of
           Inr (bucket', ob) \<Rightarrow> gret (bucket', ob, rd)
         | Inl err \<Rightarrow> gseq (DeletePart E objp) (undo_object E bucket' ob err)))))"

definition CopyObject :: "'w env \<Rightarrow> Iam option \<Rightarrow> Bucket \<Rightarrow> string \<Rightarrow> string \<Rightarrow> Bucket \<Rightarrow> string \<Rightarrow> ('w, goerr, Bucket \<times> Object) go" where
  "CopyObject E ctx bucket oname acl bucket_source oname_source =
     gbind (FindCurObject E bucket_source oname_source) (\<lambda>source.
     gbind (genv (newid E)) (\<lambda>i.
     gbind (createObjectPre E bucket (mk_object i (o_Size source) oname acl)) (\<lambda>(bucket', ob).
     gtry (IterParts E (o_ObjID source) (\<lambda>p _. gbind (with_state () (CopyPart E (o_ObjID ob) (b_BCookie bucket') (o_OCookie ob) p)) (\<lambda>_. gret ())) ())
       (\<lambda>r. case r of
          Inl (err, _) \<Rightarrow> undo_object E bucket' ob err
        | Inr _ \<Rightarrow>
            gtry (createObjectPost E ctx bucket' (ob\<lparr>o_ETag := o_ETag source\<rparr>)) (\<lambda>r. case r of
              Inr res \<Rightarrow> gret res
            | Inl err \<Rightarrow> gseq (DeleteParts E ob) (undo_object E bucket' ob err))))))"

definition DropObject :: "'w env \<Rightarrow> Bucket \<Rightarrow> Object \<Rightarrow> ('w, goerr, unit) go" where
  "DropObject E bucket ob =
     gbind (dbS3SetState E (DObject ob) S3StateInactive (\<lambda>_. True)) (\<lambda>d.
     let ob = as_Object d
     in gbind (DeleteParts E ob) (\<lambda>_.
        gbind (unacctObj E bucket (o_Size ob) False) (\<lambda>_.
        dbS3RemoveOnState E (DObject ob) S3StateInactive (\<lambda>_. True))))"

definition s3DeleteObject :: "'w env \<Rightarrow> Iam option \<Rightarrow> Bucket \<Rightarrow> string \<Rightarrow> ('w, goerr, unit) go" where
  "s3DeleteObject E ctx bucket oname =
     gtry (FindCurObject E bucket oname) (\<lambda>r. case r of
       Inl err \<Rightarrow> if err = ErrNotFound then gret () else gerr err
     | Inr ob \<Rightarrow>
         gtry (DropObject E bucket ob) (\<lambda>r. case r of
           Inl err \<Rightarrow> if err = ErrNotFound then gret () else gerr err
         | Inr _ \<Rightarrow>
             (case b_BasicNotify bucket of
                Some n \<Rightarrow> if n_Delete n > 0 then gseq (s3Notify E ctx bucket ob ''delete'') (gret ()) else gret ()
              | None \<Rightarrow> gret ())))"

definition q_old :: "Bucket \<Rightarrow> string \<Rightarrow> int \<Rightarrow> doc \<Rightarrow> bool" where
  "q_old b key rover d \<longleftrightarrow> (case d of DObject x \<Rightarrow> o_BucketObjID x = b_ObjID b \<and> o_State x = S3StateActive
     \<and> op_Key (o_Props x) = key \<and> o_Rover x < rover | _ \<Rightarrow> False)"

definition gcOldVersions :: "'w env \<Rightarrow> Bucket \<Rightarrow> string \<Rightarrow> int \<Rightarrow> ('w, goerr, unit) go" where
  "gcOldVersions E b key rover =
     gtry (dbS3FindAllSorted E S3Objects (q_old b key rover) newest_first) (\<lambda>r. case r of
       Inl _ \<Rightarrow> gret ()
     | Inr ds \<Rightarrow> geach (\<lambda>d. gseq (DropObject E b (as_Object d)) (gret ())) ds)"

definition ReadData :: "'w env \<Rightarrow> Object \<Rightarrow> ('w, goerr, string) go" where
  "ReadData E ob = gbind (PartsFindForRead E (o_ObjID ob)) (ReadParts E)"

definition ReadObject :: "'w env \<Rightarrow> Bucket \<Rightarrow> string \<Rightarrow> ('w, goerr, string) go" where
  "ReadObject E bucket oname = gbind (FindCurObject E bucket oname) (ReadData E)"

definition ObjectIterChunks :: "'w env \<Rightarrow> Bucket \<Rightarrow> string \<Rightarrow> (string \<Rightarrow> 's \<Rightarrow> ('w, goerr \<times> 's, 's) go) \<Rightarrow> 's \<Rightarrow> ('w, goerr \<times> 's, 's) go" where
  "ObjectIterChunks E bucket oname fn s =
     gbind (with_state s (FindCurObject E bucket oname)) (\<lambda>ob.
     IterParts E (o_ObjID ob) (\<lambda>p s. IterChunks E p fn s) s)"

section \<open>Storing an object\<close>

lemma acct_ready_object:
  "acct_ready V bucket b j s \<Longrightarrow> o_ObjID x = i \<Longrightarrow> acct_ready (put_doc S3Objects i (Some (DObject x)) V) bucket b j s"
  by (auto simp: acct_ready_def)

definition fresh_object :: "'w env \<Rightarrow> Bucket \<Rightarrow> Object \<Rightarrow> Object \<Rightarrow> bool" where
  "fresh_object E bucket ob x \<longleftrightarrow> o_ObjID x = o_ObjID ob \<and> o_State x = S3StateNone \<and> o_Size x = o_Size ob
     \<and> o_BucketObjID x = b_ObjID bucket \<and> op_Key (o_Props x) = op_Key (o_Props ob)
     \<and> o_OCookie x = OCookie E bucket (op_Key (o_Props ob)) 1"

lemma wp_createObjectPre:
  assumes E: "mongo_ok E view" "no_faults E view" and rdy: "acct_ready (view w) bucket b j s"
    and b: "b_State b = S3StateActive" "rsLimited (inc_stats 1 (o_Size ob) s) = None"
    and i: "view w S3Objects (o_ObjID ob) = None"
    and Q: "\<And>x w'. fresh_object E bucket ob x \<Longrightarrow>
           view w' = put_doc S3Buckets (b_ObjID bucket) (Some (DBucket (inc_bucket 1 (o_Size ob) 1 1 b)))
                       (put_doc S3Stats j (Some (DStats (inc_stats 1 (o_Size ob) s)))
                         (put_doc S3Objects (o_ObjID ob) (Some (DObject x)) (view w))) \<Longrightarrow>
           Q (Ok (inc_bucket 1 (o_Size ob) 1 1 b, x)) w'"
  shows "wp (createObjectPre E bucket ob) Q w"
proof -
  let ?ob = "\<lambda>now. ob\<lparr>o_State := S3StateNone, o_Props := (o_Props ob)\<lparr>op_CreationTime := now\<rparr>, o_Version := 1,
                 o_BucketObjID := b_ObjID bucket, o_OCookie := OCookie E bucket (op_Key (o_Props ob)) 1\<rparr>"
  have acct: "wp (acctObj E bucket (o_Size ob)) (on_any (\<lambda>r. wp (case r of
        Inl err \<Rightarrow> gseq (dbS3Remove E d) (gerr err) | Inr bucket' \<Rightarrow> gret (bucket', x)) Q) Q) w2"
    if "view w2 = put_doc S3Objects (o_ObjID ob) (Some (DObject x)) (view w)" "fresh_object E bucket ob x" for w2 d x
    by (rule wp_acctObj [OF E, where b = b and j = j and s = s])
       (use that b rdy in \<open>auto simp: wp_simps fresh_object_def intro!: acct_ready_object Q\<close>)
  have ins: "wp (dbS3Insert E (DObject (?ob now))) (on_ok (\<lambda>d. wp (gtry (acctObj E bucket (o_Size ob)) (\<lambda>r. case r of
          Inl err \<Rightarrow> gseq (dbS3Remove E d) (gerr err)
        | Inr bucket' \<Rightarrow> gret (bucket', as_Object d))) Q) Q) w1" if "view w1 = view w" for w1 now
  proof (rule wp_Insert [OF E(1)], goal_cases ok io)
    case (ok t w2)
    have "wp (acctObj E bucket (o_Size ob)) (on_any (\<lambda>r. wp (case r of
        Inl err \<Rightarrow> gseq (dbS3Remove E (DObject (?ob now\<lparr>o_MTime := t\<rparr>))) (gerr err)
      | Inr bucket' \<Rightarrow> gret (bucket', ?ob now\<lparr>o_MTime := t\<rparr>)) Q) Q) w2"
      by (rule acct) (use ok that in \<open>auto simp: fresh_object_def\<close>)
    then show ?case by (simp add: wp_gtry)
  qed (use E i that in auto)
  show ?thesis
    unfolding createObjectPre_def Let_def wp_gbind
    by (rule wp_now [OF E(1)]) (simp add: ins)
qed

lemma wp_Activate:
  assumes E: "mongo_ok E view" "no_faults E view" and ids: "ids_ok (view w)"
    and x: "view w S3Objects (o_ObjID ob) = Some (DObject x)" "o_State x = S3StateNone" "o_ObjID ob \<noteq> []"
    and b: "view w S3Buckets (b_ObjID bucket) = Some (DBucket b)" "b_State b = S3StateActive" "b_ObjID bucket \<noteq> []"
    and Q: "\<And>t x' w'. x' = x\<lparr>o_State := S3StateActive, o_ETag := etag, o_Rover := b_Rover bucket, o_MTime := t\<rparr> \<Longrightarrow>
           view w' = put_doc S3Buckets (b_ObjID bucket) (Some (DBucket (inc_bucket 0 0 (-1) 0 b)))
                       (put_doc S3Objects (o_ObjID ob) (Some (DObject x')) (view w)) \<Longrightarrow>
           Q (Ok (inc_bucket 0 0 (-1) 0 b, x')) w'"
  shows "wp (Activate E bucket ob etag) Q w"
  unfolding Activate_def wp_gbind
proof (rule wp_SetOnState [OF E(1)], goal_cases hit nf io)
  case (hit t i d w1)
  then have i: "i = o_ObjID ob" "d = DObject x" using ids_okD [OF ids, of _ i d] x by auto
  have xi: "o_ObjID x = o_ObjID ob" using ids_okD [OF ids x(1)] by simp
  let ?x = "x\<lparr>o_State := S3StateActive, o_ETag := etag, o_Rover := b_Rover bucket, o_MTime := t\<rparr>"
  have v1: "view w1 = put_doc S3Objects (o_ObjID ob) (Some (DObject ?x)) (view w)" using hit i by simp
  have "wp (commitObj E bucket (o_Size ?x)) (on_ok (\<lambda>b'. wp (gret (b', ?x)) Q) Q) w1"
    unfolding commitObj_def
    by (rule wp_bucketAcct [OF E, where i = "b_ObjID bucket" and b = b])
       (use v1 ids b xi in \<open>auto simp: wp_simps intro!: Q\<close>)
  then show ?case using i by simp
next
  case (nf w1)
  then show ?case
    using matchingI [of "view w" S3Objects "o_ObjID ob" "DObject x"
        "dbS3SetObjID (DObject ob) (\<lambda>d. True \<and> in_trans S3StateActive d)"] x ids_okD [OF ids x(1)]
    by (simp add: dbS3SetObjID_def)
qed (use E in simp)

section \<open>Reading it back\<close>

text \<open>Every stored part belongs to a stored object or upload.\<close>

definition parts_owned :: "dbview \<Rightarrow> bool" where
  "parts_owned V \<longleftrightarrow> (\<forall>i p. V S3ObjectData i = Some (DPart p) \<longrightarrow> V S3Objects (p_RefID p) \<noteq> None \<or> V S3Uploads (p_RefID p) \<noteq> None)"

text \<open>\<open>current V c x\<close>: \<open>x\<close> is the one newest active object with cookie \<open>c\<close>.\<close>

definition current :: "dbview \<Rightarrow> string \<Rightarrow> Object \<Rightarrow> bool" where
  "current V c x \<longleftrightarrow> (\<exists>i. V S3Objects i = Some (DObject x)) \<and> q_ocookie c (DObject x)
     \<and> (\<forall>i y. V S3Objects i = Some (DObject y) \<and> q_ocookie c (DObject y) \<and> y \<noteq> x \<longrightarrow> o_Rover y < o_Rover x)"

lemma q_ocookie_iff: "q_ocookie c d \<longleftrightarrow> (\<exists>x. d = DObject x \<and> o_OCookie x = c \<and> o_State x = S3StateActive)"
  by (auto simp: q_ocookie_def split: doc.splits)

lemma wp_FindCurObject:
  assumes E: "mongo_ok E view" "no_faults E view" and cur: "current (view w) (OCookie E bucket oname 1) x"
    and Q: "\<And>w'. view w' = view w \<Longrightarrow> Q (Ok x) w'"
  shows "wp (FindCurObject E bucket oname) Q w"
  unfolding FindCurObject_def wp_simps
proof (rule wp_FindOneTop [OF E(1)], goal_cases found nf io)
  case (found i d w1)
  from cur obtain k where k: "view w S3Objects k = Some (DObject x)" "q_ocookie (OCookie E bucket oname 1) (DObject x)"
    by (auto simp: current_def)
  have le: "newest_first d \<le> newest_first (DObject x)" by (rule found(3)) (auto simp: matching_def intro: k)
  from found obtain y where y: "d = DObject y" by (auto simp: q_ocookie_iff)
  have "o_Rover x \<le> o_Rover y" using le by (auto simp: y newest_first_def)
  then have "y = x" using cur found y unfolding current_def by force
  then show ?case using found y Q by (simp add: wp_simps)
next
  case (nf w1)
  then show ?case using cur by (auto simp: current_def matching_def)
qed (use E in simp)

lemma list_all2_chunk_at_cong: "V' S3DataChunks = V S3DataChunks \<Longrightarrow> chunk_at V' = chunk_at V"
  by (simp add: chunk_at_def fun_eq_iff)

lemma part_holds_cong:
  "V' S3DataChunks = V S3DataChunks \<Longrightarrow> V' S3ObjectData = V S3ObjectData \<Longrightarrow> part_holds E V' p b = part_holds E V p b"
  unfolding part_holds_def list_all2_chunk_at_cong [of V' V] by simp

lemma distinct_singleton: "set ds = {x} \<Longrightarrow> distinct ds \<Longrightarrow> ds = [x]"
proof (cases ds)
  case (Cons y ys)
  moreover assume "set ds = {x}" "distinct ds"
  ultimately show ?thesis by (cases ys) auto
qed simp

lemma wp_ReadData_one:
  assumes E: "mongo_ok E view" "no_faults E view" "radosDisabled E" and ids: "ids_ok (view w)"
    and one: "\<And>i p'. view w S3ObjectData i = Some (DPart p') \<Longrightarrow> p_RefID p' = o_ObjID x \<Longrightarrow> i = p_ObjID p"
    and p: "part_holds E (view w) p body" "p_RefID p = o_ObjID x"
    and Q: "\<And>w'. view w' = view w \<Longrightarrow> Q (Ok body) w'"
  shows "wp (ReadData E x) Q w"
  unfolding ReadData_def PartsFindForRead_def wp_simps
proof (rule wp_FindAllSorted [OF E(1)], goal_cases found io)
  case (found ds w1)
  have pv: "view w S3ObjectData (p_ObjID p) = Some (DPart p)" "q_ref_active (o_ObjID x) (DPart p)"
    using p by (auto simp: part_holds_def q_ref_active_def)
  have "d = DPart p" if "view w S3ObjectData i = Some d" "q_ref_active (o_ObjID x) d" for i d
  proof -
    from that(2) obtain p' where d: "d = DPart p'" "p_RefID p' = o_ObjID x" by (auto simp: q_ref_active_def split: doc.splits)
    with that one have "i = p_ObjID p" by simp
    with that pv d show ?thesis by simp
  qed
  then have "matching (view w) S3ObjectData (q_ref_active (o_ObjID x)) = {DPart p}"
    unfolding matching_def using pv by blast
  then have "set ds = {DPart p}" using found by simp
  then have ds: "ds = [DPart p]" using found(2) by (rule distinct_singleton)
  have "wp (ReadChunks E p) Q w1"
    by (rule wp_ReadChunks [OF E, where b = body])
       (use found ids Q p(1) [folded found(4), unfolded part_holds_def] in \<open>auto simp: wp_simps\<close>)
  then show ?case by (simp add: ds ReadParts_def wp_simps)
qed (use E in simp)

lemma wp_createObjectPost:
  assumes E: "mongo_ok E view" "no_faults E view" and ids: "ids_ok (view w)"
    and x: "view w S3Objects (o_ObjID ob) = Some (DObject x)" "o_State x = S3StateNone" "o_ObjID ob \<noteq> []"
    and b: "view w S3Buckets (b_ObjID bucket) = Some (DBucket b)" "b_State b = S3StateActive" "b_ObjID bucket \<noteq> []"
    and n: "b_BasicNotify b = None"
    and Q: "\<And>t x' w'. x' = x\<lparr>o_State := S3StateActive, o_ETag := o_ETag ob, o_Rover := b_Rover bucket, o_MTime := t\<rparr> \<Longrightarrow>
           view w' = put_doc S3Buckets (b_ObjID bucket) (Some (DBucket (inc_bucket 0 0 (-1) 0 b)))
                       (put_doc S3Objects (o_ObjID ob) (Some (DObject x')) (view w)) \<Longrightarrow>
           Q (Ok (inc_bucket 0 0 (-1) 0 b, x')) w'"
  shows "wp (createObjectPost E ctx bucket ob) Q w"
  unfolding createObjectPost_def wp_gbind
  by (rule wp_Activate [OF E ids x b]) (use n in \<open>auto simp: wp_simps intro!: Q\<close>)

text \<open>\<open>AddObject\<close> once the object and its accounting are stored.\<close>

lemma wp_AddObject_data:
  assumes E: "mongo_ok E view" "no_faults E view" "radosDisabled E" "0 < S3MaxChunkSize E" and ids: "ids_ok (view w)"
    and x: "view w S3Objects (o_ObjID x) = Some (DObject x)" "o_State x = S3StateNone" "o_ObjID x \<noteq> []"
    and b: "view w S3Buckets (b_ObjID b) = Some (DBucket b)" "b_State b = S3StateActive" "b_ObjID b \<noteq> []" "b_BasicNotify b = None"
    and own: "\<And>i p. view w S3ObjectData i = Some (DPart p) \<Longrightarrow> p_RefID p \<noteq> o_ObjID x"
    and body: "body_left data body" "cr_read data = 0"
    and Q: "\<And>t p x' rd w'. ids_ok (view w') \<Longrightarrow> part_holds E (view w') p body \<Longrightarrow> p_RefID p = o_ObjID x \<Longrightarrow>
           x' = x\<lparr>o_State := S3StateActive, o_ETag := md5hex E body, o_Rover := b_Rover b, o_MTime := t\<rparr> \<Longrightarrow>
           view w' S3Objects = (view w S3Objects)(o_ObjID x \<mapsto> DObject x') \<Longrightarrow>
           view w' S3Buckets = (view w S3Buckets)(b_ObjID b \<mapsto> DBucket (inc_bucket 0 0 (-1) 0 b)) \<Longrightarrow>
           (\<And>i p'. view w' S3ObjectData i = Some (DPart p') \<Longrightarrow> p_RefID p' = o_ObjID x \<Longrightarrow> i = p_ObjID p) \<Longrightarrow>
           Q (Ok (inc_bucket 0 0 (-1) 0 b, x', rd)) w'"
  shows "wp (gtry (AddPart E (o_ObjID x) (b_BCookie b) (o_OCookie x) 0 data) (\<lambda>r. case r of
           Inl err \<Rightarrow> undo_object E b x err
         | Inr (objp, rd) \<Rightarrow> gtry (createObjectPost E ctx b (x\<lparr>o_ETag := p_ETag objp\<rparr>)) (\<lambda>r. case r of
             Inr (bucket', ob) \<Rightarrow> gret (bucket', ob, rd) | Inl err \<Rightarrow> gseq (DeletePart E objp) (undo_object E b x err)))) Q w"
  unfolding wp_gtry
proof (rule wp_AddPart [OF E ids body], goal_cases)
  case (1 p rd w1)
  have fr: "view w1 S3Objects = view w S3Objects" "view w1 S3Buckets = view w S3Buckets"
    using 1 by (auto simp: part_frame_def)
  have one: "i = p_ObjID p" if "view w1 S3ObjectData i = Some (DPart p')" "p_RefID p' = o_ObjID x" for i p'
    using that own [of i p'] 1 by (auto simp: part_frame_def)
  have et: "p_ETag p = md5hex E body" using 1 by (simp add: part_holds_def)
  have "wp (createObjectPost E ctx b (x\<lparr>o_ETag := p_ETag p\<rparr>)) (on_any (\<lambda>r. wp (case r of
      Inr (bucket', ob) \<Rightarrow> gret (bucket', ob, rd) | Inl err \<Rightarrow> gseq (DeletePart E p) (undo_object E b x err)) Q) Q) w1"
  proof (rule wp_createObjectPost [OF E(1,2), where x = x and b = b], goal_cases)
    case (9 t x' w2)
    have "ids_ok (view w2)" unfolding 9(2) using 1(1) 9(1) ids_okD [OF ids b(1)] ids_okD [OF ids x(1)] by simp
    moreover have "part_holds E (view w2) p body"
      using 1(2) part_holds_cong [of "view w2" "view w1" E p body] 9(2) by simp
    moreover have "view w2 S3Objects = (view w S3Objects)(o_ObjID x \<mapsto> DObject x')"
        "view w2 S3Buckets = (view w S3Buckets)(b_ObjID b \<mapsto> DBucket (inc_bucket 0 0 (-1) 0 b))"
        "view w2 S3ObjectData = view w1 S3ObjectData"
      using 9(2) fr by (simp_all add: put_doc_def)
    ultimately show ?case using 9(1) et 1(4) one by (auto simp: wp_simps intro!: Q)
  qed (use 1 fr x b in auto)
  then show ?case by (simp add: wp_simps)
qed

lemma wp_AddObject:
  assumes E: "mongo_ok E view" "no_faults E view" "radosDisabled E" "0 < S3MaxChunkSize E"
    and rdy: "acct_ready (view w) bucket b j s" and b: "b_State b = S3StateActive" "b_BasicNotify b = None"
    and lim: "rsLimited (inc_stats 1 (int (length body)) s) = None"
    and own: "parts_owned (view w)" and body: "body_left data body" "cr_read data = 0"
    and Q: "\<And>x p rd w'. ids_ok (view w') \<Longrightarrow> part_holds E (view w') p body \<Longrightarrow> p_RefID p = o_ObjID x \<Longrightarrow>
           o_OCookie x = OCookie E bucket oname 1 \<Longrightarrow> o_State x = S3StateActive \<Longrightarrow> o_Rover x = b_Rover b + 1 \<Longrightarrow>
           o_Size x = int (length body) \<Longrightarrow> o_ETag x = md5hex E body \<Longrightarrow>
           view w S3Objects (o_ObjID x) = None \<Longrightarrow>
           view w' S3Objects = (view w S3Objects)(o_ObjID x \<mapsto> DObject x) \<Longrightarrow>
           view w' S3Buckets = (view w S3Buckets)(b_ObjID bucket \<mapsto> DBucket (inc_bucket 1 (o_Size x) 0 1 b)) \<Longrightarrow>
           (\<And>i p'. view w' S3ObjectData i = Some (DPart p') \<Longrightarrow> p_RefID p' = o_ObjID x \<Longrightarrow> i = p_ObjID p) \<Longrightarrow>
           Q (Ok (inc_bucket 1 (o_Size x) 0 1 b, x, rd)) w'"
  shows "wp (AddObject E ctx bucket oname acl data) Q w"
proof -
  have sz: "cr_size data = int (length body)" using body by (simp add: body_left_def)
  let ?b = "inc_bucket 1 (int (length body)) 1 1 b"
  note R = acct_readyD [OF rdy]
  show ?thesis
    unfolding AddObject_def wp_gbind
  proof (rule wp_newid [OF E(1)], goal_cases)
    case (1 i w1)
    let ?o = "mk_object i (int (length body)) oname acl"
    have v1: "view w1 = view w" and i: "i \<noteq> []" "\<And>c. view w c i = None" using 1 by auto
    have "wp (createObjectPre E bucket ?o) (on_ok (\<lambda>(bucket', ob). wp (gtry (AddPart E (o_ObjID ob) (b_BCookie bucket') (o_OCookie ob) 0 data)
        (\<lambda>r. case r of Inl err \<Rightarrow> undo_object E bucket' ob err
         | Inr (objp, rd) \<Rightarrow> gtry (createObjectPost E ctx bucket' (ob\<lparr>o_ETag := p_ETag objp\<rparr>)) (\<lambda>r. case r of
             Inr (bucket', ob) \<Rightarrow> gret (bucket', ob, rd) | Inl err \<Rightarrow> gseq (DeletePart E objp) (undo_object E bucket' ob err)))) Q) Q) w1"
    proof (rule wp_createObjectPre [OF E(1,2), where b = b and j = j and s = s], goal_cases)
      case (5 x w2)
      have x: "o_ObjID x = i" "o_State x = S3StateNone" "o_OCookie x = OCookie E bucket oname 1" "o_Size x = int (length body)"
        using 5 by (auto simp: fresh_object_def mk_object_def zero_ObjectProps_def)
      have V2: "view w2 S3Objects = (view w S3Objects)(i \<mapsto> DObject x)" "view w2 S3Buckets = (view w S3Buckets)(b_ObjID bucket \<mapsto> DBucket ?b)"
          "view w2 S3ObjectData = view w S3ObjectData" "ids_ok (view w2)"
        using 5 v1 x R by (auto simp: mk_object_def put_doc_def ids_ok_def)
      have none: "p_RefID p \<noteq> o_ObjID x" if "view w2 S3ObjectData k = Some (DPart p)" for k p
        using that own i(2) x(1) unfolding parts_owned_def V2 by metis
      have bb: "inc_bucket 0 0 (-1) 0 ?b = inc_bucket 1 (int (length body)) 0 1 b" by (simp add: inc_bucket_def)
      have rv: "b_Rover ?b = b_Rover b + 1" by (simp add: inc_bucket_def)
      have "wp (gtry (AddPart E (o_ObjID x) (b_BCookie ?b) (o_OCookie x) 0 data) (\<lambda>r. case r of
           Inl err \<Rightarrow> undo_object E ?b x err
         | Inr (objp, rd) \<Rightarrow> gtry (createObjectPost E ctx ?b (x\<lparr>o_ETag := p_ETag objp\<rparr>)) (\<lambda>r. case r of
             Inr (bucket', ob) \<Rightarrow> gret (bucket', ob, rd) | Inl err \<Rightarrow> gseq (DeletePart E objp) (undo_object E ?b x err)))) Q w2"
      proof (rule wp_AddObject_data [OF E V2(4), where body = body], goal_cases)
        case (11 t p x' rd w3)
        have x': "o_ObjID x' = i" "o_Size x' = int (length body)" using 11 x by simp_all
        have "Q (Ok (inc_bucket 1 (o_Size x') 0 1 b, x', rd)) w3"
          by (rule Q [of w3 p x']) (use 11 x x' V2 i R rv bb in \<open>simp_all add: fun_eq_iff\<close>)
        then show ?case by (simp add: bb x')
      qed (use V2 x i R b none body in auto)
      then show ?case by (simp add: mk_object_def)
    qed (use v1 rdy b lim i in \<open>auto simp: mk_object_def\<close>)
    then show ?case by (simp add: sz split_def)
  qed
qed

section \<open>Properties\<close>

text \<open>
  C2. An object that was put is the object that is got. With the server answering, an active
  bucket within its limits and a complete body, \<open>AddObject\<close> succeeds; the bucket counts one more
  object of the body's size and is left with its reference as before; and \<open>ReadObject\<close> of the same
  name returns exactly the body, whatever older versions of the name are stored.
\<close>

theorem put_get_roundtrip:
  assumes "mongo_ok E view" and "no_faults E view" and "radosDisabled E" and "0 < S3MaxChunkSize E"
    and "acct_ready (view w) bucket b j s" and "b_State b = S3StateActive" and "b_BasicNotify b = None"
    and "rsLimited (inc_stats 1 (int (length body)) s) = None"
    and "parts_owned (view w)" and "body_left data body" and "cr_read data = 0"
    and older: "\<forall>i x. view w S3Objects i = Some (DObject x) \<and> q_ocookie (OCookie E bucket oname 1) (DObject x) \<longrightarrow> o_Rover x \<le> b_Rover b"
    and "AddObject E ctx bucket oname acl data w = (r, w1)"
  shows "\<exists>x rd. r = Ok (inc_bucket 1 (int (length body)) 0 1 b, x, rd) \<and> o_ETag x = md5hex E body
           \<and> view w1 S3Buckets (b_ObjID bucket) = Some (DBucket (inc_bucket 1 (int (length body)) 0 1 b))
           \<and> fst (ReadObject E bucket oname w1) = Ok body"
proof -
  have "wp (AddObject E ctx bucket oname acl data) (\<lambda>r w1. \<exists>x rd. r = Ok (inc_bucket 1 (int (length body)) 0 1 b, x, rd)
      \<and> o_ETag x = md5hex E body
      \<and> view w1 S3Buckets (b_ObjID bucket) = Some (DBucket (inc_bucket 1 (int (length body)) 0 1 b))
      \<and> fst (ReadObject E bucket oname w1) = Ok body) w"
  proof (rule wp_AddObject [OF assms(1-11)], goal_cases)
    case (1 x p rd w1)
    have "current (view w1) (OCookie E bucket oname 1) x"
      using 1 older by (fastforce simp: current_def q_ocookie_iff split: if_splits)
    then have "wp (ReadObject E bucket oname) (\<lambda>r _. r = Ok body) w1"
      unfolding ReadObject_def wp_gbind
      by (intro wp_FindCurObject [OF assms(1,2)])
         (use 1 part_holds_cong in \<open>auto intro!: wp_ReadData_one [OF assms(1-3), where p = p]\<close>)
    then have "fst (ReadObject E bucket oname w1) = Ok body" by (simp add: wp_def split: prod.splits)
    with 1 show ?case by simp
  qed
  from wpD [OF this assms(13)] show ?thesis .
qed

text \<open>A world with the bucket and no objects.\<close>

theorem put_get_roundtrip_witness:
  "\<exists>b x rd w1. AddObject small_env None demo_bucket ''cat.jpg'' ''private'' seven demo = (Ok (b, x, rd), w1)
     \<and> fst (ReadObject small_env demo_bucket ''cat.jpg'' w1) = Ok ''abcdefg''"
proof -
  obtain r w1 where run: "AddObject small_env None demo_bucket ''cat.jpg'' ''private'' seven demo = (r, w1)" by fastforce
  have body: "body_left seven ''abcdefg''" by (simp add: body_left_def seven_def nonempty_segs_def int64_bounds)
  have env: "radosDisabled small_env" "0 < S3MaxChunkSize small_env" by (simp_all add: small_env_def mem_env_def)
  show ?thesis
    using put_get_roundtrip [OF small_env_ok env demo_ready _ _ _ _ body _ _ run] run
    by (auto simp: demo_view parts_owned_def rsLimited_def inc_stats_def demo_stats_def demo_bucket_def zero_Bucket_def
        state_defs seven_def)
qed

section \<open>The collector of old versions\<close>

lemma keeps_DeleteChunks:
  assumes E: "mongo_ok E view" and "radosDisabled E" "c \<noteq> S3DataChunks"
  shows "keeps view c (DeleteChunks E part)"
  unfolding DeleteChunks_def radosDeleteObject_def using assms(2,3)
  by (auto intro!: keeps_intros keeps_wrappers [OF E])

lemma keeps_DeleteParts:
  assumes E: "mongo_ok E view" and "radosDisabled E" "c \<noteq> S3DataChunks" "c \<noteq> S3ObjectData"
  shows "keeps view c (DeleteParts E ob)"
  unfolding DeleteParts_def PartsFind_def DeletePart_def using assms(2-)
  by (auto intro!: keeps_intros keeps_wrappers [OF E] keeps_DeleteChunks [OF E])

lemma keeps_unacctObj:
  assumes E: "mongo_ok E view" and "c \<noteq> S3Buckets" "c \<noteq> S3Stats"
  shows "keeps view c (unacctObj E b sz dr)"
  unfolding unacctObj_def bucketAcct_def StatsUnacct_def using assms(2-)
  by (auto intro!: keeps_intros keeps_primitives [OF E])

lemma calm_DropObject:
  assumes E: "mongo_ok E view" and "radosDisabled E"
  shows "calm (DropObject E bucket ob)"
  unfolding DropObject_def Let_def DeleteParts_def PartsFind_def DeletePart_def DeleteChunks_def radosDeleteObject_def
    unacctObj_def bucketAcct_def StatsUnacct_def using assms(2)
  by (auto intro!: calm_intros calm_primitives [OF E] calm_FindAllFields [OF E])

text \<open>Statements about the object collection: no active object under an id, and every document
  under its own id. \<open>dropped m m' i\<close>: from \<open>m\<close> to \<open>m'\<close> the object \<open>i\<close> was retired and none revived.\<close>

definition not_active :: "(oid \<rightharpoonup> doc) \<Rightarrow> oid \<Rightarrow> bool" where
  "not_active m i \<longleftrightarrow> (\<forall>d. m i = Some d \<longrightarrow> \<not> is_active d)"

definition obj_ids :: "(oid \<rightharpoonup> doc) \<Rightarrow> bool" where
  "obj_ids m \<longleftrightarrow> (\<forall>i d. m i = Some d \<longrightarrow> doc_id d = i \<and> dbColl d = S3Objects)"

definition dropped :: "(oid \<rightharpoonup> doc) \<Rightarrow> (oid \<rightharpoonup> doc) \<Rightarrow> oid \<Rightarrow> bool" where
  "dropped m m' i \<longleftrightarrow> obj_ids m' \<and> not_active m' i \<and> (\<forall>k. not_active m k \<longrightarrow> not_active m' k)"

lemma dropped_del: "dropped m m' i \<Longrightarrow> dropped m (m'(k := None)) i"
  by (auto simp: dropped_def not_active_def obj_ids_def)

lemma wp_DropObject:
  assumes E: "mongo_ok E view" "no_faults E view" "radosDisabled E" and ids: "obj_ids (view w S3Objects)"
    and i: "o_ObjID ob = i" "i \<noteq> []"
  shows "wp (DropObject E bucket ob) (\<lambda>_ w'. dropped (view w S3Objects) (view w' S3Objects) i) w"
proof -
  define Q :: "(goerr, unit) res \<Rightarrow> 'a \<Rightarrow> bool" where "Q = (\<lambda>_ w'. dropped (view w S3Objects) (view w' S3Objects) i)"
  have rem: "wp (dbS3RemoveOnState E (DObject x) S3StateInactive (\<lambda>_. True)) Q w1"
    if "dropped (view w S3Objects) (view w1 S3Objects) i" for x w1
    by (rule wp_RemoveOnState [OF E(1)]) (use that in \<open>auto simp: Q_def put_doc_def intro: dropped_del\<close>)
  have rest: "wp (gbind (DeleteParts E x) (\<lambda>_. gbind (unacctObj E bucket (o_Size x) False) (\<lambda>_.
        dbS3RemoveOnState E (DObject x) S3StateInactive (\<lambda>_. True)))) Q w1"
    if "dropped (view w S3Objects) (view w1 S3Objects) i" for x w1
  proof -
    have "wp (gbind (unacctObj E bucket (o_Size x) False) (\<lambda>_. dbS3RemoveOnState E (DObject x) S3StateInactive (\<lambda>_. True))) Q w2"
      if "dropped (view w S3Objects) (view w2 S3Objects) i" for w2
      unfolding wp_gbind using that
      by (intro keeps_wp [OF keeps_unacctObj [OF E(1)], of S3Objects]) (auto simp: on_ok_def Q_def split: res.splits intro!: rem [unfolded Q_def])
    with that show ?thesis
      unfolding wp_gbind [of "DeleteParts E x"]
      by (intro keeps_wp [OF keeps_DeleteParts [OF E(1,3)], of S3Objects]) (auto simp: on_ok_def Q_def split: res.splits)
  qed
  have "wp (DropObject E bucket ob) Q w"
    unfolding DropObject_def Let_def wp_gbind [of "dbS3SetState E (DObject ob) S3StateInactive (\<lambda>_. True)"]
  proof (rule wp_SetState [OF E(1)], goal_cases hit nf io)
    case (hit t k d w1)
    then have d: "k = i" "doc_id d = i" "dbColl d = S3Objects" "doc_state d = Some S3StateActive"
      using ids i by (auto simp: obj_ids_def)
    have "dropped (view w S3Objects) (view w1 S3Objects) i"
      using hit d ids by (auto simp: dropped_def not_active_def obj_ids_def is_active_def doc_state_set_state state_defs put_doc_def)
    then show ?case by (simp add: rest)
  next
    case (nf w1)
    have "not_active (view w S3Objects) i"
      using nf(1) ids i by (auto simp: not_active_def obj_ids_def matching_def dbS3SetObjID_def is_active_def)
    then show ?case using nf ids by (simp add: Q_def dropped_def)
  qed (use E in simp)
  then show ?thesis by (simp add: Q_def)
qed

text \<open>The collector retires every object its query matches.\<close>

lemma wp_gcOldVersions:
  assumes E: "mongo_ok E view" "no_faults E view" "radosDisabled E" and ids: "ids_ok (view w)" "view w S3Objects [] = None"
  shows "wp (gcOldVersions E b key rover) (\<lambda>_ w'. \<forall>i d. view w S3Objects i = Some d \<and> q_old b key rover d \<longrightarrow>
           not_active (view w' S3Objects) i) w"
  unfolding gcOldVersions_def wp_simps
proof (rule wp_FindAllSorted [OF E(1)], goal_cases found io)
  case (found ds w1)
  let ?I = "\<lambda>ds w'. obj_ids (view w' S3Objects) \<and> (\<forall>i d. view w S3Objects i = Some d \<and> q_old b key rover d \<and> i \<notin> doc_id ` set ds \<longrightarrow>
           not_active (view w' S3Objects) i) \<and> (\<forall>d \<in> set ds. o_ObjID (as_Object d) = doc_id d \<and> doc_id d \<noteq> []
             \<and> view w S3Objects (doc_id d) = Some d)"
  have ids1: "obj_ids (view w S3Objects)" using ids by (auto simp: obj_ids_def ids_ok_def)
  have ds: "o_ObjID (as_Object d) = doc_id d \<and> doc_id d \<noteq> [] \<and> view w S3Objects (doc_id d) = Some d" if "d \<in> set ds" for d
  proof -
    from that found obtain k where k: "view w S3Objects k = Some d" "q_old b key rover d" by (auto simp: matching_def)
    then obtain x where "d = DObject x" by (auto simp: q_old_def split: doc.splits)
    then show ?thesis using k ids ids_okD [OF ids(1) k(1)] by auto
  qed
  have "wp (geach (\<lambda>d. gseq (DropObject E b (as_Object d)) (gret ())) ds) (\<lambda>_ w'. \<forall>i d. view w S3Objects i = Some d \<and> q_old b key rover d \<longrightarrow>
           not_active (view w' S3Objects) i) w1"
  proof (rule wp_geach [where I = ?I], goal_cases init step fin)
    case init
    have "i \<in> doc_id ` set ds" if "view w S3Objects i = Some d" "q_old b key rover d" for i d
      using that found(1) ids_okD [OF ids(1), of S3Objects i d] by (force simp: matching_def)
    then show ?case using found ds ids1 by auto
  next
    case (step d ds w2)
    then show ?case
      unfolding wp_gseq
      by (intro wp_mono [OF wp_calm [OF calm_DropObject [OF E(1,3)] wp_DropObject [OF E, where i = "doc_id d"]]])
         (auto simp: on_any_def wp_simps dropped_def split: res.splits)
  qed auto
  then show ?case by simp
qed (use E in simp)

text \<open>
  C34. A concurrent upload to the same bucket can cost an object its data. If the bucket's stored
  rover is ahead of the copy \<open>Activate\<close> works with, because another object was accounted in between,
  then the object is activated with the old rover, but the collector is started with the new one:
  the object just stored matches the collector's query for outdated versions, and once the
  collector has run the object is no longer active.
\<close>

theorem activate_then_collected:
  assumes "mongo_ok E view" and "no_faults E view" and "radosDisabled E" and "ids_ok (view w)" and "view w S3Objects [] = None"
    and "view w S3Objects (o_ObjID ob) = Some (DObject x)" and "o_State x = S3StateNone" and "o_ObjID ob \<noteq> []"
    and "view w S3Buckets (b_ObjID bucket) = Some (DBucket b)" and "b_State b = S3StateActive" and "b_ObjID bucket \<noteq> []"
    and "o_BucketObjID x = b_ObjID bucket" and "b_Rover bucket < b_Rover b"
    and "Activate E bucket ob etag w = (r, w1)"
  shows "\<exists>b' x'. r = Ok (b', x') \<and> view w1 S3Objects (o_ObjID ob) = Some (DObject x') \<and> o_State x' = S3StateActive
           \<and> (\<forall>r2 w2. gcOldVersions E b' (op_Key (o_Props x')) (b_Rover b') w1 = (r2, w2) \<longrightarrow>
                not_active (view w2 S3Objects) (o_ObjID ob))"
proof -
  note E = assms(1-3)
  have bi: "b_ObjID b = b_ObjID bucket" "o_ObjID x = o_ObjID ob" using ids_okD [OF assms(4)] assms(6,9) by fastforce+
  have "wp (Activate E bucket ob etag) (\<lambda>r w1. \<exists>b' x'. r = Ok (b', x') \<and> ids_ok (view w1) \<and> view w1 S3Objects [] = None
      \<and> view w1 S3Objects (o_ObjID ob) = Some (DObject x') \<and> o_State x' = S3StateActive
      \<and> q_old b' (op_Key (o_Props x')) (b_Rover b') (DObject x')) w"
    by (rule wp_Activate [OF E(1,2) assms(4,6-11)])
       (use assms bi in \<open>auto simp: q_old_def inc_bucket_def put_doc_def [of S3Objects] put_doc_def [of S3Buckets] ids_ok_def\<close>)
  from wpD [OF this assms(14)] obtain b' x' where
    w1: "r = Ok (b', x')" "ids_ok (view w1)" "view w1 S3Objects [] = None"
      "view w1 S3Objects (o_ObjID ob) = Some (DObject x')" "o_State x' = S3StateActive"
      "q_old b' (op_Key (o_Props x')) (b_Rover b') (DObject x')" by blast
  from wp_gcOldVersions [OF E w1(2,3)] w1 show ?thesis unfolding wp_def by fastforce
qed

text \<open>The interleaving: the object was accounted at rover 1, then another object at rover 2.\<close>

definition late_object :: Object where
  "late_object = zero_Object\<lparr>o_ObjID := ''o1'', o_BucketObjID := ''b1'', o_OCookie := ''oc''\<rparr>"

definition late_world :: mem where
  "late_world = mem_of [DObject late_object, DBucket (demo_bucket\<lparr>b_Rover := 2\<rparr>)]"

lemma late_view: "mview late_world c i = (if c = S3Objects \<and> i = ''o1'' then Some (DObject late_object)
    else if c = S3Buckets \<and> i = ''b1'' then Some (DBucket (demo_bucket\<lparr>b_Rover := 2\<rparr>)) else None)"
  by (simp add: late_world_def mview_mem_of late_object_def demo_bucket_def)

theorem activate_then_collected_witness:
  "\<exists>b x w1. Activate mem_env (demo_bucket\<lparr>b_Rover := 1\<rparr>) late_object ''sum'' late_world = (Ok (b, x), w1)
     \<and> o_State x = S3StateActive
     \<and> not_active (mview (snd (gcOldVersions mem_env b (op_Key (o_Props x)) (b_Rover b) w1)) S3Objects) ''o1''"
proof -
  obtain r w1 where run: "Activate mem_env (demo_bucket\<lparr>b_Rover := 1\<rparr>) late_object ''sum'' late_world = (r, w1)" by fastforce
  have ids: "ids_ok (mview late_world)" by (simp add: late_world_def)
  have facts: "o_ObjID late_object = ''o1''" "o_State late_object = S3StateNone" "b_ObjID demo_bucket = ''b1''"
      "b_State demo_bucket = S3StateActive" "o_BucketObjID late_object = ''b1''" "radosDisabled mem_env"
    by (simp_all add: late_object_def demo_bucket_def zero_Object_def state_defs mem_env_def)
  from activate_then_collected [OF mem_env_ok mem_no_faults facts(6) ids _ _ _ _ _ _ _ _ _ run,
      where x = late_object and b = "demo_bucket\<lparr>b_Rover := 2\<rparr>"]
  obtain b x where "r = Ok (b, x)" "o_State x = S3StateActive"
      "\<And>r2 w2. gcOldVersions mem_env b (op_Key (o_Props x)) (b_Rover b) w1 = (r2, w2) \<Longrightarrow> not_active (mview w2 S3Objects) ''o1''"
    by (auto simp: late_view facts)
  then show ?thesis using run by (metis prod.collapse)
qed

end
