(* ===== verification/S3_Bucket.thy ===== *)
theory S3_Bucket
  imports S3_Object
begin

text \<open>
  Buckets and their websites: \<open>src/s3/bucket.go\<close> but for the listing of objects, which is a
  theory of its own. Handlers report errors as an \<open>S3Error\<close>, here the error type of the
  operation.
\<close>

definition S3StorageMaxObjects :: int where "S3StorageMaxObjects = 10000"
definition S3StorageMaxBytes :: int where "S3StorageMaxBytes = 2 ^ 30"

section \<open>Websites\<close>

definition index :: "S3Website \<Rightarrow> string" where
  "index ws = (let s = ws_IdxDoc ws in if s = [] then ''index.html'' else s)"

definition q_website :: "string \<Rightarrow> doc \<Rightarrow> bool" where
  "q_website c d \<longleftrightarrow> (case d of DWebsite s \<Rightarrow> ws_BCookie s = c \<and> ws_State s = S3StateActive | _ \<Rightarrow> False)"

definition s3WebsiteLookup :: "'w env \<Rightarrow> Bucket \<Rightarrow> ('w, goerr, S3Website) go" where
  "s3WebsiteLookup E b = gbind (dbS3FindOne E S3Websites (q_website (b_BCookie b))) (\<lambda>d. gret (as_Website d))"

definition s3WebsiteInsert :: "'w env \<Rightarrow> Bucket \<Rightarrow> string \<Rightarrow> string \<Rightarrow> ('w, goerr, S3Website) go" where
  "s3WebsiteInsert E b suff errkey =
     gbind (genv (newid E)) (\<lambda>i.
     gbind (dbS3Upsert E (q_website (b_BCookie b)) (\<lambda>d. d)
              (DWebsite \<lparr>ws_ObjID = i, ws_State = S3StateActive, ws_BCookie = b_BCookie b, ws_IdxDoc = suff, ws_ErrDoc = errkey\<rparr>))
       (\<lambda>d. gret (as_Website d)))"

section \<open>Buckets\<close>

definition s3DirtifyBucket :: "'w env \<Rightarrow> oid \<Rightarrow> ('w, goerr, unit) go" where
  "s3DirtifyBucket E i =
     gbind (dbS3Update E (\<lambda>d. doc_id d = i \<and> b_Ref (as_Bucket d) = 0) (SetU (upd_bucket (\<lambda>b. b\<lparr>b_Ref := 1\<rparr>)))
              False (DBucket zero_Bucket)) (\<lambda>_. gret ())"

definition q_empty :: "doc \<Rightarrow> bool" where
  "q_empty d \<longleftrightarrow> b_CntObjects (as_Bucket d) = 0"

definition RemoveFromDB :: "'w env \<Rightarrow> Bucket \<Rightarrow> ('w, goerr, unit) go" where
  "RemoveFromDB E bucket = dbS3RemoveOnState E (DBucket bucket) S3StateInactive q_empty"

definition FindBucket :: "'w env \<Rightarrow> Iam option \<Rightarrow> string \<Rightarrow> ('w, goerr, Bucket) go" where
  "FindBucket E ctx bname =
     gbind (s3AccountLookup E ctx) (\<lambda>account.
     gbind (dbS3FindOne E S3Buckets (q_bcookie (account_BCookie E account bname))) (\<lambda>d. gret (as_Bucket d)))"

text \<open>The error a handler reports for a bucket, or an account, that is not there.\<close>

definition bucket_error :: "goerr \<Rightarrow> S3Error" where
  "bucket_error e = (if e = ErrNotFound then s3error S3ErrNoSuchBucket else s3error S3ErrInternalError)"

text \<open>\<open>s3InsertBucket\<close> from its insert on, with the labels \<open>out\<close> and \<open>out_nopool\<close>.\<close>

definition insert_bucket :: "'w env \<Rightarrow> Bucket \<Rightarrow> ('w, S3Error, unit) go" where
  "insert_bucket E bucket =
     gtry (dbS3Insert E (DBucket bucket)) (\<lambda>r. case r of
       Inl _ \<Rightarrow> gerr (s3error S3ErrInternalError)
     | Inr _ \<Rightarrow>
         gtry (radosCreatePool E (b_BCookie bucket) (nat (b_MaxObjects bucket)) (nat (b_MaxBytes bucket))) (\<lambda>r. case r of
           Inl _ \<Rightarrow> gseq (RemoveFromDB E bucket) (gerr (s3error S3ErrInternalError))
         | Inr _ \<Rightarrow>
             gtry (dbS3SetState E (DBucket bucket) S3StateActive (\<lambda>_. True)) (\<lambda>r. case r of
               Inr _ \<Rightarrow> gret ()
             | Inl _ \<Rightarrow> gseq (radosDeletePool E (b_BCookie bucket))
                          (gseq (RemoveFromDB E bucket) (gerr (s3error S3ErrInternalError))))))"

definition s3InsertBucket :: "'w env \<Rightarrow> Iam option \<Rightarrow> string \<Rightarrow> string \<Rightarrow> ('w, S3Error, unit) go" where
  "s3InsertBucket E ctx bname canned_acl =
     gtry (s3AccountLookup E ctx) (\<lambda>r. case r of
       Inl e \<Rightarrow> gerr (bucket_error e)
     | Inr account \<Rightarrow>
         gbind (genv (newid E)) (\<lambda>i.
         gbind (genv (clock_rfc3339 E)) (\<lambda>now.
         insert_bucket E (zero_Bucket\<lparr>b_ObjID := i, b_State := S3StateNone, b_Name := bname, b_CannedAcl := canned_acl,
               b_BCookie := account_BCookie E account bname, b_NamespaceID := NamespaceID E account,
               b_CreationTime := now, b_MaxObjects := S3StorageMaxObjects, b_MaxBytes := S3StorageMaxBytes\<rparr>))))"

definition s3DeleteBucket :: "'w env \<Rightarrow> Iam option \<Rightarrow> string \<Rightarrow> ('w, S3Error, unit) go" where
  "s3DeleteBucket E ctx bname =
     gtry (FindBucket E ctx bname) (\<lambda>r. case r of
       Inl e \<Rightarrow> gerr (bucket_error e)
     | Inr bucket \<Rightarrow>
         gtry (dbS3SetState E (DBucket bucket) S3StateInactive q_empty) (\<lambda>r. case r of
           Inl e \<Rightarrow> if e = ErrNotFound \<and> b_CntObjects bucket > 0 then gerr (s3error S3ErrBucketNotEmpty)
                    else gerr (s3error S3ErrInternalError)
         | Inr d \<Rightarrow>
             gtry (radosDeletePool E (b_BCookie (as_Bucket d))) (\<lambda>r. case r of
               Inl _ \<Rightarrow> gerr (s3error S3ErrInternalError)
             | Inr _ \<Rightarrow>
                 gtry (RemoveFromDB E (as_Bucket d)) (\<lambda>r. case r of
                   Inl _ \<Rightarrow> gerr (s3error S3ErrInternalError)
                 | Inr _ \<Rightarrow> gret ()))))"

definition FindAllObjects :: "'w env \<Rightarrow> Bucket \<Rightarrow> (doc \<Rightarrow> bool) \<Rightarrow> ('w, goerr, Object list) go" where
  "FindAllObjects E bucket query =
     gbind (dbS3FindAll E S3Objects (\<lambda>d. query d \<and> (case d of DObject x \<Rightarrow> o_BucketObjID x = b_ObjID bucket \<and> o_State x = S3StateActive | _ \<Rightarrow> False)))
       (\<lambda>ds. gret (map as_Object ds))"

record S3Datapoint =
  dp_Timestamp :: string
  dp_SampleCount :: int
  dp_Unit :: string
  dp_Average :: int

definition s3GetBucketMetricOutput :: "'w env \<Rightarrow> Iam option \<Rightarrow> string \<Rightarrow> string \<Rightarrow> ('w, S3Error, string \<times> S3Datapoint list) go" where
  "s3GetBucketMetricOutput E ctx bname metric_name =
     gtry (FindBucket E ctx bname) (\<lambda>r. case r of
       Inl e \<Rightarrow> gerr (bucket_error e)
     | Inr bucket \<Rightarrow>
         if metric_name = ''BucketSizeBytes''
         then gret (metric_name, [\<lparr>dp_Timestamp = b_CreationTime bucket, dp_SampleCount = 1, dp_Unit = ''Bytes'', dp_Average = b_CntBytes bucket\<rparr>])
         else if metric_name = ''NumberOfObjects''
         then gret (metric_name, [\<lparr>dp_Timestamp = b_CreationTime bucket, dp_SampleCount = 1, dp_Unit = ''Count'', dp_Average = b_CntObjects bucket\<rparr>])
         else gerr (s3errorm S3ErrIncompleteBody ''Wrong metric name''))"

record S3BucketList =
  bl_OwnerName :: string
  bl_OwnerID :: string
  bl_Buckets :: "(string \<times> string) list"

definition s3ListBuckets :: "'w env \<Rightarrow> Iam option \<Rightarrow> ('w, S3Error, S3BucketList) go" where
  "s3ListBuckets E ctx =
     gtry (FindBuckets E ctx) (\<lambda>r. case r of
       Inl e \<Rightarrow> gerr (bucket_error e)
     | Inr buckets \<Rightarrow>
         (case ctx of
            None \<Rightarrow> gpanic
          | Some iam \<Rightarrow>
              if length (iam_AwsID iam) < 16 then gpanic
              else gret \<lparr>bl_OwnerName = iam_User iam, bl_OwnerID = take 16 (iam_AwsID iam),
                         bl_Buckets = map (\<lambda>b. (b_Name b, b_CreationTime b)) buckets\<rparr>))"

section \<open>Properties\<close>

lemma keeps_rcall: "mongo_ok E view \<Longrightarrow> keeps view c (rcall E r)"
proof -
  assume E: "mongo_ok E view"
  have "view (snd (rcall E r w)) = view w" for w
    using ambient(4) [OF E, of r w] by (auto simp: rcall_def split: prod.splits rados_reply.splits)
  then show ?thesis by (simp add: keeps_def)
qed

lemma keeps_radosDeletePool: "mongo_ok E view \<Longrightarrow> keeps view c (radosDeletePool E pool)"
  unfolding radosDeletePool_def by (auto intro!: keeps_intros keeps_rcall)

lemma keeps_radosCreatePool: "mongo_ok E view \<Longrightarrow> keeps view c (radosCreatePool E pool m n)"
  unfolding radosCreatePool_def radosSetQuota_def radosSetQuotaOnField_def
  by (auto split: sum.splits intro!: keeps_intros keeps_rcall keeps_radosDeletePool)

lemma keeps_s3AccountLookup: "mongo_ok E view \<Longrightarrow> keeps view c (s3AccountLookup E ctx)"
  unfolding s3AccountLookup_def by (auto split: option.splits intro!: keeps_intros keeps_primitives)

lemma wp_FindBucket:
  assumes E: "mongo_ok E view"
    and "\<And>i b account w'. view w' = view w \<Longrightarrow> view w S3Buckets i = Some (DBucket b) \<Longrightarrow> b_State b = S3StateActive \<Longrightarrow>
           b_BCookie b = account_BCookie E account bname \<Longrightarrow> Q (Ok b) w'"
    and "\<And>e w'. view w' = view w \<Longrightarrow> Q (Err e) w'" and "\<And>w'. view w' = view w \<Longrightarrow> Q Panic w'"
  shows "wp (FindBucket E ctx bname) Q w"
  unfolding FindBucket_def wp_gbind
proof (rule quiet_wp [OF keeps_s3AccountLookup [OF E]], goal_cases)
  case (1 r w1)
  show ?case
  proof (cases r)
    case (Ok account)
    have "wp (dbS3FindOne E S3Buckets (q_bcookie (account_BCookie E account bname)))
        (on_ok (\<lambda>d. wp (gret (as_Bucket d)) Q) Q) w1"
      by (rule wp_FindOne [OF E]) (use 1 assms(2-) in \<open>auto simp: wp_simps q_bcookie_def split: doc.splits\<close>)
    then show ?thesis using Ok by (simp add: wp_gbind)
  qed (use 1 assms(3,4) in auto)
qed


lemma wp_s3AccountLookup:
  assumes E: "mongo_ok E view" "no_faults E view" and ids: "ids_ok (view w)"
    and a: "view w S3Iams (iam_AccountObjID iam) = Some (DAccount acc)" "ac_State acc = S3StateActive"
    and Q: "\<And>w'. view w' = view w \<Longrightarrow> Q (Ok acc) w'"
  shows "wp (s3AccountLookup E (Some iam)) Q w"
  unfolding s3AccountLookup_def option.case wp_simps
proof (rule wp_FindOne [OF E(1)], goal_cases found nf io)
  case (found i d w1)
  then have "i = iam_AccountObjID iam" using ids_okD [OF ids, of _ i d] by (auto simp: q_active_id_def)
  then show ?case using found a Q by (auto simp: wp_simps)
next
  case (nf w1)
  then show ?case
    using matchingI [of "view w" S3Iams "iam_AccountObjID iam" "DAccount acc" "q_active_id (iam_AccountObjID iam)"]
      a ids_okD [OF ids a(1)] by (simp add: q_active_id_def is_active_def)
qed (use E in simp)

lemma bucket_not_duplicate:
  assumes "ids_ok V" and "V S3Buckets (b_ObjID b) = None"
    and "\<forall>i b'. V S3Buckets i = Some (DBucket b') \<longrightarrow> b_BCookie b' \<noteq> b_BCookie b"
  shows "\<not> duplicate V (DBucket b)"
proof
  assume "duplicate V (DBucket b)"
  with assms(2) obtain i d k where d: "V S3Buckets i = Some d" "k \<in> set (sparse ''bcookie'' (b_BCookie b))" "k \<in> set (unique_keys d)"
    unfolding duplicate_def matching_def by auto
  moreover obtain b' where "d = DBucket b'" using ids_okD [OF assms(1) d(1)] by (cases d) auto
  ultimately show False using assms(3) by (auto simp: sparse_def split: if_splits)
qed

text \<open>
  A bucket whose pool cannot be made blocks its own name. When RADOS refuses to make the pool,
  \<open>s3InsertBucket\<close> reports an internal error but its cleanup looks for an inactive bucket, while the
  new one is in the initial state: the document stays, in a state no request can see, and every
  later bucket of that name is a duplicate.
\<close>

theorem s3InsertBucket_leaks:
  assumes "mongo_ok E view" and "no_faults E view" and "ids_ok (view w)" and "\<not> radosDisabled E"
    and "\<forall>pool w. \<exists>e. fst (rados E (MakePool pool) w) = RadosErr e"
    and "view w S3Iams (iam_AccountObjID iam) = Some (DAccount acc)" and "ac_State acc = S3StateActive"
    and "account_BCookie E acc bname \<noteq> []"
    and "\<forall>i b. view w S3Buckets i = Some (DBucket b) \<longrightarrow> b_BCookie b \<noteq> account_BCookie E acc bname"
    and "s3InsertBucket E (Some iam) bname acl w = (r, w')"
  shows "r = Err (s3error S3ErrInternalError)
       \<and> (\<exists>i b. view w S3Buckets i = None \<and> view w' = put_doc S3Buckets i (Some (DBucket b)) (view w)
              \<and> b_State b = S3StateNone \<and> b_BCookie b = account_BCookie E acc bname)
       \<and> (\<forall>b2. b_BCookie b2 = account_BCookie E acc bname \<longrightarrow> duplicate (view w') (DBucket b2))"
proof -
  let ?c = "account_BCookie E acc bname"
  define Q :: "(S3Error, unit) res \<Rightarrow> 'a \<Rightarrow> bool" where "Q = (\<lambda>r w'. r = Err (s3error S3ErrInternalError)
       \<and> (\<exists>i b. view w S3Buckets i = None \<and> view w' = put_doc S3Buckets i (Some (DBucket b)) (view w)
              \<and> b_State b = S3StateNone \<and> b_BCookie b = ?c)
       \<and> (\<forall>b2. b_BCookie b2 = ?c \<longrightarrow> duplicate (view w') (DBucket b2)))"
  note E = assms(1,2)
  have pool: "\<exists>e w1'. radosCreatePool E pool m n w1 = (Err e, w1') \<and> view w1' = view w1" for pool m n w1
  proof -
    obtain e where "fst (rados E (MakePool pool) w1) = RadosErr e" using assms(5) by blast
    then show ?thesis using ambient(4) [OF E(1), of "MakePool pool" w1] assms(4)
      by (cases "rados E (MakePool pool) w1") (auto simp: radosCreatePool_def rcall_def gbind_def)
  qed
  have stay: "wp (RemoveFromDB E b) (on_any (\<lambda>_. wp (gerr (s3error S3ErrInternalError)) Q) Q) w2"
    if "view w2 = put_doc S3Buckets i (Some (DBucket b')) (view w)" "view w S3Buckets i = None" "i \<noteq> []" "b_ObjID b = i" "b_ObjID b' = i"
      "b_State b' = S3StateNone" "b_BCookie b' = ?c" for w2 i b b'
  proof -
    have ids2: "ids_ok (view w2)" using that assms(3) by simp
    have v2: "view w2 = put_doc S3Buckets i (Some (DBucket b')) (view w)" and c: "b_BCookie b' = ?c" using that by auto
    have dup: "duplicate (view w2) (DBucket b2)" if "b_BCookie b2 = ?c" for b2
    proof -
      have "DBucket b' \<in> matching (view w2) S3Buckets (\<lambda>d'. \<exists>k \<in> set (unique_keys (DBucket b2)). k \<in> set (unique_keys d'))"
        by (rule matchingI [where i = i]) (use that assms(8) v2 c in \<open>simp_all add: sparse_def\<close>)
      then show ?thesis by (auto simp: duplicate_def)
    qed
    have fin: "Q (Err (s3error S3ErrInternalError)) w3" if "view w3 = view w2" for w3
      using that dup v2 c \<open>view w S3Buckets i = None\<close> \<open>b_State b' = S3StateNone\<close> by (auto simp: Q_def)
    show ?thesis
      unfolding RemoveFromDB_def
    proof (rule wp_RemoveOnState [OF E(1)], goal_cases gone nf io)
      case (gone j d w3)
      then have "doc_id d = i" "doc_id d = j" using that(3,4) ids_okD [OF ids2, of S3Buckets j d] by simp_all
      then have "d = DBucket b'" using gone(1) v2 by simp
      then show ?case using gone(3) that(6) by (simp add: state_defs)
    qed (use fin E in \<open>auto simp: wp_simps\<close>)
  qed
  have ins: "wp (insert_bucket E b) Q w1"
    if "view w1 = view w" "view w S3Buckets (b_ObjID b) = None" "b_ObjID b \<noteq> []" "b_State b = S3StateNone" "b_BCookie b = ?c" for b w1
    unfolding insert_bucket_def wp_gtry [of "dbS3Insert E (DBucket b)"]
  proof (rule wp_Insert [OF E(1)], goal_cases ins dup)
    case (ins t w2)
    obtain e w3 where p: "radosCreatePool E (b_BCookie b) (nat (b_MaxObjects b)) (nat (b_MaxBytes b)) w2 = (Err e, w3)"
        "view w3 = view w2" using pool by blast
    have "wp (RemoveFromDB E b) (on_any (\<lambda>_. wp (gerr (s3error S3ErrInternalError)) Q) Q) w3"
      by (rule stay [where i = "b_ObjID b" and b' = "b\<lparr>b_MTime := t\<rparr>"]) (simp_all add: that p ins(2))
    then show ?case using p by (simp add: wp_gtry wp_gseq wp_def [of "radosCreatePool E _ _ _"])
  next
    case (dup e w2)
    have "\<not> duplicate (view w1) (DBucket b)"
      unfolding that(1) by (rule bucket_not_duplicate) (use that(2,5) assms(3,9) in simp_all)
    then show ?case using dup E by simp
  qed
  have "wp (s3InsertBucket E (Some iam) bname acl) Q w"
    unfolding s3InsertBucket_def Let_def wp_gtry [of "s3AccountLookup E (Some iam)"]
    by (rule wp_s3AccountLookup [OF E assms(3,6,7)])
       (auto simp: wp_simps intro!: wp_newid [OF E(1)] wp_now [OF E(1)] ins)
  from wpD [OF this assms(10)] show ?thesis unfolding Q_def .
qed

text \<open>An account with one empty bucket.\<close>

definition shop_account :: Account where
  "shop_account = zero_Account\<lparr>ac_ObjID := ''a1'', ac_State := 1, ac_Namespace := ''b''\<rparr>"

definition shop_iam :: Iam where
  "shop_iam = zero_Iam\<lparr>iam_ObjID := ''i1'', iam_AccountObjID := ''a1''\<rparr>"

definition shop :: mem where "shop = mem_of [DAccount shop_account, DBucket demo_bucket]"

lemma shop_view: "mview shop c i = (if c = S3Iams \<and> i = ''a1'' then Some (DAccount shop_account)
    else if c = S3Buckets \<and> i = ''b1'' then Some (DBucket demo_bucket) else None)"
  by (simp add: shop_def mview_mem_of shop_account_def demo_bucket_def)

lemma shop_run: "run_ok (s3DeleteBucket mem_env (Some shop_iam) ''c'') shop"
  by code_simp


definition poolless_env :: "mem env" where "poolless_env = mem_env\<lparr>radosDisabled := False\<rparr>"

lemma poolless_env_ok: "mongo_ok poolless_env mview" "no_faults poolless_env mview"
  using mem_env_ok mem_no_faults unfolding poolless_env_def mongo_ok_def no_faults_def mongo_laws by simp_all

theorem s3InsertBucket_leaks_witness:
  "\<exists>w' b. s3InsertBucket poolless_env (Some shop_iam) ''new'' ''private'' shop = (Err (s3error S3ErrInternalError), w')
     \<and> (\<exists>i. mview w' S3Buckets i = Some (DBucket b)) \<and> b_BCookie b = ''bnew'' \<and> b_State b = S3StateNone"
proof -
  obtain r w' where run: "s3InsertBucket poolless_env (Some shop_iam) ''new'' ''private'' shop = (r, w')" by fastforce
  have ids: "ids_ok (mview shop)" by (simp add: shop_def)
  have c: "account_BCookie poolless_env shop_account ''new'' = ''bnew''"
    by (simp add: account_BCookie_def BCookie_def poolless_env_def mem_env_def shop_account_def)
  have env: "\<not> radosDisabled poolless_env" "\<forall>pool w. \<exists>e. fst (rados poolless_env (MakePool pool) w) = RadosErr e"
    by (simp_all add: poolless_env_def mem_env_def)
  have acc: "mview shop S3Iams (iam_AccountObjID shop_iam) = Some (DAccount shop_account)" "ac_State shop_account = S3StateActive"
    by (simp_all add: shop_view shop_iam_def shop_account_def state_defs)
  have new: "\<forall>i b. mview shop S3Buckets i = Some (DBucket b) \<longrightarrow> b_BCookie b \<noteq> account_BCookie poolless_env shop_account ''new''"
    by (auto simp: shop_view c demo_bucket_def)
  have "r = Err (s3error S3ErrInternalError) \<and> (\<exists>i b. mview w' S3Buckets i = Some (DBucket b)
      \<and> b_State b = S3StateNone \<and> b_BCookie b = ''bnew'')"
    using s3InsertBucket_leaks [OF poolless_env_ok ids env acc _ new run] c by (metis list.discI put_doc_same)
  then show ?thesis using run by blast
qed

end
