(* ===== verification/S3_Upload.thy ===== *)
theory S3_Upload
  imports S3_Bucket
begin

text \<open>
  Multipart uploads: \<open>src/s3/upload.go\<close>. An upload document carries a reference count, taken while a
  part is being stored, and a lock, taken while the upload is completed or aborted. Each of the
  four operations on them is one conditional update of the database; requests interleave between
  them. The start-up repair of uploads is in the theory on repairs.
\<close>

section \<open>The lock and the reference count\<close>

text \<open>A lock with a count of users: the contract the operations on an upload keep, whatever the
  representation. Every operation is refused (\<open>None\<close>) when its condition does not hold.\<close>

locale counted_lock =
  fixes inc dec lock unlock :: "'s \<Rightarrow> 's option" and users :: "'s \<Rightarrow> int" and locked :: "'s \<Rightarrow> bool"
  assumes inc: "inc s = Some s' \<Longrightarrow> \<not> locked s \<and> \<not> locked s' \<and> users s' = users s + 1"
    and dec: "dec s = Some s' \<Longrightarrow> \<not> locked s \<and> \<not> locked s' \<and> users s' = users s - 1"
    and lock: "lock s = Some s' \<Longrightarrow> \<not> locked s \<and> locked s' \<and> users s = 0 \<and> users s' = 0"
    and unlock: "unlock s = Some s' \<Longrightarrow> locked s \<and> \<not> locked s' \<and> users s' = users s"
begin

text \<open>\<open>held s W L\<close>: the clients \<open>W\<close> hold a reference and \<open>L\<close> holds the lock.\<close>

definition held :: "'s \<Rightarrow> 'c set \<Rightarrow> 'c set \<Rightarrow> bool" where
  "held s W L \<longleftrightarrow> finite W \<and> finite L \<and> users s = int (card W) \<and> int (card L) = (if locked s then 1 else 0)
     \<and> (L \<noteq> {} \<longrightarrow> W = {})"

lemma held_exclusive: "held s W L \<Longrightarrow> L \<noteq> {} \<Longrightarrow> W = {} \<and> (\<exists>c. L = {c}) \<and> locked s"
  by (auto simp: held_def card_1_singleton_iff split: if_splits)

lemma held_inc: "held s W L \<Longrightarrow> inc s = Some s' \<Longrightarrow> c \<notin> W \<Longrightarrow> held s' (insert c W) L"
  by (auto simp: held_def dest: inc)

lemma held_dec:
  assumes "held s W L" and "dec s = Some s'" and c: "c \<in> W"
  shows "held s' (W - {c}) L"
proof -
  have W: "finite W" and L: "finite L" "L \<noteq> {} \<longrightarrow> W = {}" and n: "users s = int (card W)"
    using assms(1) by (simp_all add: held_def)
  have "card W = Suc (card (W - {c}))" using W c by (rule card_Suc_Diff1 [symmetric])
  then have "users s' = int (card (W - {c}))" using dec [OF assms(2)] n by simp
  moreover have "int (card L) = (if locked s' then 1 else 0)" using dec [OF assms(2)] assms(1) by (simp add: held_def)
  ultimately show ?thesis using W L c unfolding held_def by blast
qed

lemma held_lock: "held s W L \<Longrightarrow> lock s = Some s' \<Longrightarrow> held s' W {c}"
  by (auto simp: held_def dest: lock)

lemma held_cong: "held s W L \<Longrightarrow> users s' = users s \<Longrightarrow> locked s' = locked s \<Longrightarrow> held s' W L"
  by (simp add: held_def)

lemma held_unlock: "held s W L \<Longrightarrow> unlock s = Some s' \<Longrightarrow> held s' W {}"
  by (auto simp: held_def dest: unlock)

end

text \<open>The conditions and updates the requests send, on the document.\<close>

definition q_refs :: "S3Upload \<Rightarrow> bool" where
  "q_refs u \<longleftrightarrow> u_State u = S3StateActive \<and> u_Lock u = 0"

definition q_lock :: "S3Upload \<Rightarrow> bool" where
  "q_lock u \<longleftrightarrow> u_State u = S3StateActive \<and> u_Lock u = 0 \<and> u_Ref u = 0"

definition q_unlock :: "S3Upload \<Rightarrow> bool" where
  "q_unlock u \<longleftrightarrow> u_State u = S3StateActive \<and> u_Lock u = 1 \<and> u_Ref u = 0"

definition ref_inc :: "S3Upload \<Rightarrow> S3Upload option" where
  "ref_inc u = (if q_refs u then Some (u\<lparr>u_Ref := u_Ref u + 1\<rparr>) else None)"

definition ref_dec :: "S3Upload \<Rightarrow> S3Upload option" where
  "ref_dec u = (if q_refs u then Some (u\<lparr>u_Ref := u_Ref u - 1\<rparr>) else None)"

definition lock_inc :: "S3Upload \<Rightarrow> S3Upload option" where
  "lock_inc u = (if q_lock u then Some (u\<lparr>u_Lock := u_Lock u + 1\<rparr>) else None)"

definition lock_dec :: "S3Upload \<Rightarrow> S3Upload option" where
  "lock_dec u = (if q_unlock u then Some (u\<lparr>u_Lock := u_Lock u - 1\<rparr>) else None)"

lemmas upload_ops = ref_inc_def ref_dec_def lock_inc_def lock_dec_def q_refs_def q_lock_def q_unlock_def

interpretation ul: counted_lock ref_inc ref_dec lock_inc lock_dec u_Ref "\<lambda>u. u_Lock u \<noteq> 0"
  by unfold_locales (auto simp: upload_ops split: if_splits)

text \<open>One conditional update of the upload, decoded back into the caller's object.\<close>

definition on_upload :: "(S3Upload \<Rightarrow> S3Upload option) \<Rightarrow> doc \<Rightarrow> doc" where
  "on_upload f d = (case d of DUpload u \<Rightarrow> (case f u of Some u' \<Rightarrow> DUpload u' | None \<Rightarrow> d) | _ \<Rightarrow> d)"

definition upload_update :: "'w env \<Rightarrow> (S3Upload \<Rightarrow> S3Upload option) \<Rightarrow> S3Upload \<Rightarrow> ('w, goerr, S3Upload) go" where
  "upload_update E f upload =
     gbind (dbS3Update E (\<lambda>d. case d of DUpload u \<Rightarrow> f u \<noteq> None | _ \<Rightarrow> False) (IncU (on_upload f)) True (DUpload upload))
       (\<lambda>d. gret (as_Upload d))"

definition dbLock :: "'w env \<Rightarrow> S3Upload \<Rightarrow> ('w, goerr, S3Upload) go" where
  "dbLock E upload = upload_update E lock_inc upload"

definition dbUnlock :: "'w env \<Rightarrow> S3Upload \<Rightarrow> ('w, goerr, S3Upload) go" where
  "dbUnlock E upload = upload_update E lock_dec upload"

definition dbRefInc :: "'w env \<Rightarrow> S3Upload \<Rightarrow> ('w, goerr, S3Upload) go" where
  "dbRefInc E upload = upload_update E ref_inc upload"

definition dbRefDec :: "'w env \<Rightarrow> S3Upload \<Rightarrow> ('w, goerr, S3Upload) go" where
  "dbRefDec E upload = upload_update E ref_dec upload"

section \<open>The requests\<close>

definition VerifyUploadUID :: "'w env \<Rightarrow> Bucket \<Rightarrow> string \<Rightarrow> string \<Rightarrow> ('w, goerr, unit) go" where
  "VerifyUploadUID E bucket oname uid =
     (if UploadUID E bucket oname \<noteq> uid then gerr (GoErr ''uploadId mismatch'') else gret ())"

definition q_parts :: "oid \<Rightarrow> doc \<Rightarrow> bool" where
  "q_parts i d \<longleftrightarrow> (case d of DPart p \<Rightarrow> p_RefID p = i | _ \<Rightarrow> False)"

definition s3UploadRemoveLocked :: "'w env \<Rightarrow> S3Upload \<Rightarrow> bool \<Rightarrow> ('w, goerr, unit) go" where
  "s3UploadRemoveLocked E upload data =
     gbind (dbS3SetState E (DUpload upload) S3StateInactive (\<lambda>_. True)) (\<lambda>d.
     let upload = as_Upload d
     in gbind (if data
               then gtry (dbS3FindAll E S3ObjectData (q_parts (u_ObjID upload))) (\<lambda>r. case r of
                      Inl e \<Rightarrow> if e \<noteq> ErrNotFound then gerr e else gret ()
                    | Inr objp \<Rightarrow> geach (\<lambda>od. DeletePart E (as_Part od)) objp)
               else gret ()) (\<lambda>_.
        dbS3RemoveOnState E (DUpload upload) S3StateInactive (\<lambda>d. u_Ref (as_Upload d) = 0)))"

definition s3UploadInit :: "'w env \<Rightarrow> Iam option \<Rightarrow> Bucket \<Rightarrow> string \<Rightarrow> string \<Rightarrow> ('w, goerr, S3Upload) go" where
  "s3UploadInit E ctx bucket oname acl =
     gbind (genv (newid E)) (\<lambda>i.
       case ctx of None \<Rightarrow> gpanic | Some iam \<Rightarrow>
     gbind (genv (clock_rfc3339 E)) (\<lambda>now.
     gbind (dbS3Insert E (DUpload (zero_S3Upload\<lparr>u_ObjID := i, u_IamObjID := iam_ObjID iam, u_State := S3StateActive,
              u_Props := zero_ObjectProps\<lparr>op_Key := oname, op_Acl := acl, op_CreationTime := now\<rparr>,
              u_BucketObjID := b_ObjID bucket, u_UploadID := UploadUID E bucket oname\<rparr>)))
       (\<lambda>d. gret (as_Upload d))))"

definition q_uid :: "string \<Rightarrow> doc \<Rightarrow> bool" where
  "q_uid uid d \<longleftrightarrow> (case d of DUpload u \<Rightarrow> u_UploadID u = uid \<and> u_State u = S3StateActive | _ \<Rightarrow> False)"

text \<open>On the error path of \<open>s3UploadPart\<close> the log line dereferences the nil part \<open>AddPart\<close> returned.\<close>

definition s3UploadPart :: "'w env \<Rightarrow> Bucket \<Rightarrow> string \<Rightarrow> string \<Rightarrow> int \<Rightarrow> ChunkReader \<Rightarrow> ('w, goerr, string) go" where
  "s3UploadPart E bucket oname uid partno data =
     gbind (VerifyUploadUID E bucket oname uid) (\<lambda>_.
     gbind (dbS3FindOne E S3Uploads (q_uid uid)) (\<lambda>d.
     gbind (dbRefInc E (as_Upload d)) (\<lambda>upload.
     gtry (AddPart E (u_ObjID upload) (b_BCookie bucket) (UCookie E upload oname partno) partno data) (\<lambda>r. case r of
       Inl err \<Rightarrow> gseq (dbRefDec E upload) gpanic
     | Inr (objp, _) \<Rightarrow> gseq (dbRefDec E upload) (gret (p_ETag objp))))))"

definition s3UploadFini :: "'w env \<Rightarrow> Iam option \<Rightarrow> Bucket \<Rightarrow> string \<Rightarrow> ('w, goerr, string) go" where
  "s3UploadFini E ctx bucket uid =
     gbind (dbS3FindOne E S3Uploads (q_uid uid)) (\<lambda>d.
     gbind (dbLock E (as_Upload d)) (\<lambda>upload.
     gtry (UploadToObject E ctx bucket upload) (\<lambda>r. case r of
       Inl err \<Rightarrow> gseq (dbUnlock E upload) (gerr err)
     | Inr (_, ob) \<Rightarrow> gseq (s3UploadRemoveLocked E upload False) (gret (o_ETag ob)))))"

record S3MpuUpload =
  mu_UploadId :: string
  mu_Key :: string
  mu_Initiated :: string

definition s3Uploads :: "'w env \<Rightarrow> Iam option \<Rightarrow> string \<Rightarrow> ('w, S3Error, string \<times> S3MpuUpload list) go" where
  "s3Uploads E ctx bname =
     gtry (FindBucket E ctx bname) (\<lambda>r. case r of
       Inl e \<Rightarrow> gerr (bucket_error e)
     | Inr bucket \<Rightarrow>
         gtry (dbS3FindAll E S3Uploads (\<lambda>d. case d of DUpload u \<Rightarrow> u_BucketObjID u = b_ObjID bucket
                 \<and> u_State u = S3StateActive \<and> u_Lock u = 0 | _ \<Rightarrow> False)) (\<lambda>r. case r of
           Inl e \<Rightarrow> if e \<noteq> ErrNotFound then gerr (s3error S3ErrInternalError) else gret (b_Name bucket, [])
         | Inr ds \<Rightarrow> gret (b_Name bucket, map (\<lambda>d. let u = as_Upload d in
             \<lparr>mu_UploadId = u_UploadID u, mu_Key = op_Key (u_Props u), mu_Initiated = op_CreationTime (u_Props u)\<rparr>) ds)))"

record S3MpuPart =
  mp_PartNumber :: int
  mp_LastModified :: string
  mp_ETag :: string
  mp_Size :: int

definition s3UploadList :: "'w env \<Rightarrow> Bucket \<Rightarrow> string \<Rightarrow> string \<Rightarrow> ('w, goerr, S3MpuPart list) go" where
  "s3UploadList E bucket oname uid =
     gbind (VerifyUploadUID E bucket oname uid) (\<lambda>_.
     gbind (dbS3FindOne E S3Uploads (\<lambda>d. q_uid uid d \<and> u_Lock (as_Upload d) = 0)) (\<lambda>d.
     gtry (dbS3FindAll E S3ObjectData (q_ref_active (u_ObjID (as_Upload d)))) (\<lambda>r. case r of
       Inl e \<Rightarrow> if e = ErrNotFound then gret [] else gerr e
     | Inr ds \<Rightarrow> gret (map (\<lambda>d. let od = as_Part d in
         \<lparr>mp_PartNumber = int64_of (p_Part od), mp_LastModified = p_CreationTime od, mp_ETag = p_ETag od, mp_Size = p_Size od\<rparr>) ds))))"

definition s3UploadAbort :: "'w env \<Rightarrow> Bucket \<Rightarrow> string \<Rightarrow> string \<Rightarrow> ('w, goerr, unit) go" where
  "s3UploadAbort E bucket oname uid =
     gbind (VerifyUploadUID E bucket oname uid) (\<lambda>_.
     gtry (dbS3FindOne E S3Uploads (\<lambda>d. case d of DUpload u \<Rightarrow> u_UploadID u = uid | _ \<Rightarrow> False)) (\<lambda>r. case r of
       Inl _ \<Rightarrow> gret ()
     | Inr d \<Rightarrow>
         gbind (dbLock E (as_Upload d)) (\<lambda>upload.
         gtry (s3UploadRemoveLocked E upload True) (\<lambda>r. case r of
           Inl err \<Rightarrow> gseq (dbUnlock E upload) (gerr err)
         | Inr _ \<Rightarrow> gret ()))))"

section \<open>Requests that interleave\<close>

text \<open>
  Any number of requests work on the upload \<open>k\<close>. A request is idle, stores a part (between its
  \<open>dbRefInc\<close> and \<open>dbRefDec\<close>), completes or aborts the upload (after its \<open>dbLock\<close>), or removes it
  (after the state was set to inactive in \<open>s3UploadRemoveLocked\<close>). Everything else that happens in
  the world, the storing and deleting of parts and a failed database call included, is a step that
  leaves the upload's document alone.
\<close>

datatype phase = Idle | Writing | Finishing | Removing

inductive upload_step :: "'w env \<Rightarrow> ('w \<Rightarrow> dbview) \<Rightarrow> oid \<Rightarrow> 'w \<times> (nat \<Rightarrow> phase) \<Rightarrow> 'w \<times> (nat \<Rightarrow> phase) \<Rightarrow> bool"
  for E view k where
  part_begin: "ph c = Idle \<Longrightarrow> u_ObjID u = k \<Longrightarrow> dbRefInc E u w = (Ok u', w') \<Longrightarrow>
    upload_step E view k (w, ph) (w', ph(c := Writing))"
| part_end: "ph c = Writing \<Longrightarrow> u_ObjID u = k \<Longrightarrow> dbRefDec E u w = (Ok u', w') \<Longrightarrow>
    upload_step E view k (w, ph) (w', ph(c := Idle))"
| fini_begin: "ph c = Idle \<Longrightarrow> u_ObjID u = k \<Longrightarrow> dbLock E u w = (Ok u', w') \<Longrightarrow>
    upload_step E view k (w, ph) (w', ph(c := Finishing))"
| fini_cancel: "ph c = Finishing \<Longrightarrow> u_ObjID u = k \<Longrightarrow> dbUnlock E u w = (Ok u', w') \<Longrightarrow>
    upload_step E view k (w, ph) (w', ph(c := Idle))"
| deactivate: "ph c = Finishing \<Longrightarrow> u_ObjID u = k \<Longrightarrow>
    dbS3SetState E (DUpload u) S3StateInactive (\<lambda>_. True) w = (Ok d, w') \<Longrightarrow>
    upload_step E view k (w, ph) (w', ph(c := Removing))"
| remove: "ph c = Removing \<Longrightarrow> u_ObjID u = k \<Longrightarrow>
    dbS3RemoveOnState E (DUpload u) S3StateInactive (\<lambda>d. u_Ref (as_Upload d) = 0) w = (Ok (), w') \<Longrightarrow>
    upload_step E view k (w, ph) (w', ph(c := Idle))"
| elsewhere: "view w' S3Uploads k = view w S3Uploads k \<Longrightarrow> ids_ok (view w') \<Longrightarrow>
    upload_step E view k (w, ph) (w', ph)"

definition fresh_upload :: "dbview \<Rightarrow> oid \<Rightarrow> bool" where
  "fresh_upload V k \<longleftrightarrow> k \<noteq> [] \<and> ids_ok V \<and> (\<exists>u. V S3Uploads k = Some (DUpload u)
     \<and> u_State u = S3StateActive \<and> u_Ref u = 0 \<and> u_Lock u = 0)"

text \<open>The invariant: the document's counters say which requests hold it.\<close>

definition in_phase :: "(nat \<Rightarrow> phase) \<Rightarrow> phase \<Rightarrow> nat set" where
  "in_phase ph p = {c. ph c = p}"

abbreviation writers :: "(nat \<Rightarrow> phase) \<Rightarrow> nat set" where
  "writers ph \<equiv> in_phase ph Writing"

abbreviation lockers :: "(nat \<Rightarrow> phase) \<Rightarrow> nat set" where
  "lockers ph \<equiv> in_phase ph Finishing \<union> in_phase ph Removing"

definition upload_held :: "S3Upload \<Rightarrow> (nat \<Rightarrow> phase) \<Rightarrow> bool" where
  "upload_held u ph \<longleftrightarrow> ul.held u (writers ph) (lockers ph) \<and> (u_Lock u = 0 \<or> u_Lock u = 1)
     \<and> u_State u = (if in_phase ph Removing = {} then S3StateActive else S3StateInactive)"

definition upload_inv :: "dbview \<Rightarrow> oid \<Rightarrow> (nat \<Rightarrow> phase) \<Rightarrow> bool" where
  "upload_inv V k ph \<longleftrightarrow> k \<noteq> [] \<and> ids_ok V
     \<and> (case V S3Uploads k of Some (DUpload u) \<Rightarrow> upload_held u ph | None \<Rightarrow> \<forall>c. ph c = Idle | _ \<Rightarrow> False)"

text \<open>One conditional update of the upload \<open>k\<close>, through the database.\<close>

definition keeps_ids :: "(S3Upload \<Rightarrow> S3Upload option) \<Rightarrow> bool" where
  "keeps_ids f \<longleftrightarrow> (\<forall>u u'. f u = Some u' \<longrightarrow> u_ObjID u' = u_ObjID u)"

lemma keeps_ids_ops [simp]: "keeps_ids ref_inc" "keeps_ids ref_dec" "keeps_ids lock_inc" "keeps_ids lock_dec"
  by (auto simp: keeps_ids_def upload_ops split: if_splits)

lemma wp_upload_update:
  assumes db: "mongo_ok E view" and ids: "ids_ok (view w)" and k: "u_ObjID upload \<noteq> []" and f: "keeps_ids f"
    and ok: "\<And>u u' w'. view w S3Uploads (u_ObjID upload) = Some (DUpload u) \<Longrightarrow> f u = Some u' \<Longrightarrow>
      view w' = put_doc S3Uploads (u_ObjID upload) (Some (DUpload u')) (view w) \<Longrightarrow> ids_ok (view w') \<Longrightarrow> Q (Ok u') w'"
    and nf: "\<And>w'. (\<And>u. view w S3Uploads (u_ObjID upload) = Some (DUpload u) \<Longrightarrow> f u = None) \<Longrightarrow>
      view w' = view w \<Longrightarrow> Q (Err ErrNotFound) w'"
    and io: "\<And>e w'. view w' = view w \<Longrightarrow> \<not> no_faults E view \<Longrightarrow> Q (Err (DbErr e)) w'"
  shows "wp (upload_update E f upload) Q w"
  unfolding upload_update_def wp_simps
proof (rule wp_Update [OF db], goal_cases)
  case (1 t i d w')
  then obtain u u' where d: "d = DUpload u" "f u = Some u'" by (cases d) auto
  have i: "i = u_ObjID upload" and u': "u_ObjID u' = i"
    using 1 ids_okD [OF ids 1(1)] k f d by (auto simp: keeps_ids_def)
  have v: "view w' = put_doc S3Uploads (u_ObjID upload) (Some (DUpload u')) (view w)"
    using 1(4) d i by (simp add: dbS3UpdateMTime_def on_upload_def)
  have "Q (Ok u') w'" using 1(1) d i v u' ids by (intro ok) auto
  then show ?case using d by (simp add: wp_simps dbS3UpdateMTime_def on_upload_def)
next
  case (2 w')
  have "f u = None" if "view w S3Uploads (u_ObjID upload) = Some (DUpload u)" for u
  proof (rule ccontr)
    assume "f u \<noteq> None"
    then have "DUpload u \<in> matching (view w) (dbColl (DUpload upload)) (dbS3SetObjID (DUpload upload)
        (\<lambda>d. case d of DUpload u \<Rightarrow> f u \<noteq> None | _ \<Rightarrow> False))"
      using that ids_okD [OF ids that] by (auto simp: matching_def dbS3SetObjID_def)
    with 2(1) show False by blast
  qed
  then show ?case using 2(2) nf by simp
next
  case (3 e w')
  then show ?case using io by simp
qed

lemma in_phase_upd: "in_phase (ph(c := p)) q = (if p = q then insert c (in_phase ph q) else in_phase ph q - {c})"
  by (auto simp: in_phase_def)

lemma in_phase_mem [simp]: "c \<in> in_phase ph p \<longleftrightarrow> ph c = p"
  by (simp add: in_phase_def)

lemma in_phase_out: "ph c \<noteq> p \<Longrightarrow> in_phase ph p - {c} = in_phase ph p"
  by (simp add: in_phase_def)

text \<open>What the invariant says of a request in each phase.\<close>

lemma upload_held_Writing:
  assumes "upload_held u ph" and "ph c = Writing"
  shows "lockers ph = {}" and "u_Lock u = 0" and "u_State u = S3StateActive"
proof -
  have h: "ul.held u (writers ph) (lockers ph)" and s: "u_State u = (if in_phase ph Removing = {} then S3StateActive else S3StateInactive)"
    using assms(1) by (auto simp: upload_held_def)
  have "c \<in> writers ph" using assms(2) by simp
  then show L: "lockers ph = {}" using ul.held_exclusive [OF h] by blast
  then show "u_Lock u = 0" using h by (simp add: ul.held_def split: if_splits)
  show "u_State u = S3StateActive" using s L by simp
qed

lemma upload_held_locked:
  assumes "upload_held u ph" and "c \<in> lockers ph"
  shows "writers ph = {}" and "lockers ph = {c}" and "u_Lock u = 1" and "u_Ref u = 0"
    and "u_State u = (if ph c = Removing then S3StateInactive else S3StateActive)"
    and "in_phase ph Finishing = (if ph c = Removing then {} else {c})"
    and "in_phase ph Removing = (if ph c = Removing then {c} else {})"
proof -
  have h: "ul.held u (writers ph) (lockers ph)" and l: "u_Lock u = 0 \<or> u_Lock u = 1"
    using assms(1) by (auto simp: upload_held_def)
  have ne: "lockers ph \<noteq> {}" using assms(2) by blast
  then show W: "writers ph = {}" using ul.held_exclusive [OF h] by blast
  show L: "lockers ph = {c}" using ul.held_exclusive [OF h ne] assms(2) by (metis singletonD)
  show "u_Lock u = 1" using ul.held_exclusive [OF h ne] l by blast
  show "u_Ref u = 0" using h W by (simp add: ul.held_def)
  have "ph c = Removing \<or> ph c = Finishing" using assms(2) by auto
  moreover have "c' = c" if "ph c' = Removing \<or> ph c' = Finishing" for c'
    using that L by (metis Un_iff in_phase_mem singletonD)
  ultimately show "in_phase ph Finishing = (if ph c = Removing then {} else {c})"
    and r: "in_phase ph Removing = (if ph c = Removing then {c} else {})"
    by (metis (no_types, lifting) empty_iff in_phase_mem insertI1 phase.distinct(11) set_eqI singletonD)+
  show "u_State u = (if ph c = Removing then S3StateInactive else S3StateActive)"
    using assms(1) r by (simp add: upload_held_def split: if_splits)
qed

text \<open>Each step keeps the invariant.\<close>

lemma ref_inc_held:
  assumes "upload_held u ph" and "ref_inc u = Some u'" and "ph c = Idle"
  shows "upload_held u' (ph(c := Writing))"
proof -
  have "ul.held u' (insert c (writers ph)) (lockers ph)"
    using assms by (intro ul.held_inc) (auto simp: upload_held_def)
  moreover have "u_Lock u' = u_Lock u" "u_State u' = u_State u"
    using assms(2) by (auto simp: upload_ops split: if_splits)
  ultimately show ?thesis
    using assms(1,3) by (simp add: upload_held_def in_phase_upd in_phase_out)
qed

lemma ref_dec_held:
  assumes "upload_held u ph" and "ref_dec u = Some u'" and "ph c = Writing"
  shows "upload_held u' (ph(c := Idle))"
proof -
  have "ul.held u' (writers ph - {c}) (lockers ph)"
    using assms by (intro ul.held_dec) (auto simp: upload_held_def)
  moreover have "u_Lock u' = u_Lock u" "u_State u' = u_State u"
    using assms(2) by (auto simp: upload_ops split: if_splits)
  ultimately show ?thesis
    using assms(1,3) by (simp add: upload_held_def in_phase_upd in_phase_out)
qed

lemma lock_inc_held:
  assumes "upload_held u ph" and "lock_inc u = Some u'" and "ph c = Idle"
  shows "upload_held u' (ph(c := Finishing))"
proof -
  have u: "u_Lock u = 0" "u_Lock u' = 1" "u_State u' = u_State u"
    using assms(2) by (auto simp: upload_ops split: if_splits)
  have "ul.held u (writers ph) (lockers ph)" using assms(1) by (simp add: upload_held_def)
  then have L: "lockers ph = {}" using u by (auto simp: ul.held_def)
  have "ul.held u' (writers ph) {c}"
    using assms by (intro ul.held_lock [of u "writers ph" "lockers ph"]) (auto simp: upload_held_def)
  then show ?thesis
    using assms(1,3) L u by (simp add: upload_held_def in_phase_upd in_phase_out)
qed

lemma lock_dec_held:
  assumes "upload_held u ph" and "lock_dec u = Some u'" and "ph c = Finishing"
  shows "upload_held u' (ph(c := Idle))"
proof -
  have u: "u_Lock u' = 0" "u_State u' = u_State u" using assms(2) by (auto simp: upload_ops split: if_splits)
  have "ul.held u' (writers ph) {}"
    using assms by (intro ul.held_unlock [of u "writers ph" "lockers ph"]) (auto simp: upload_held_def)
  moreover have c: "c \<in> lockers ph" using assms(3) by simp
  ultimately show ?thesis
    using assms(1,3) u upload_held_locked(6,7) [OF assms(1) c] by (simp add: upload_held_def in_phase_upd in_phase_out)
qed

lemma set_inactive_held:
  assumes "upload_held u ph" and "ph c = Finishing"
  shows "upload_held (u\<lparr>u_State := S3StateInactive, u_MTime := t\<rparr>) (ph(c := Removing))"
proof -
  have c: "c \<in> lockers ph" using assms(2) by simp
  have "ul.held (u\<lparr>u_State := S3StateInactive, u_MTime := t\<rparr>) (writers ph) {c}"
    using assms(1) upload_held_locked(2) [OF assms(1) c] by - (rule ul.held_cong [of u], simp_all add: upload_held_def)
  then show ?thesis
    using assms upload_held_locked(3,6,7) [OF assms(1) c] by (simp add: upload_held_def in_phase_upd in_phase_out)
qed

lemma upload_invE:
  assumes "upload_inv V k ph" and "ph c \<noteq> Idle"
  obtains u where "V S3Uploads k = Some (DUpload u)" and "upload_held u ph"
  using assms by (auto simp: upload_inv_def split: option.splits doc.splits)

lemma upload_update_inv:
  assumes db: "mongo_ok E view" and inv: "upload_inv (view w) k ph" and k: "u_ObjID u = k" and f: "keeps_ids f"
    and run: "upload_update E f u w = (Ok u', w')"
    and held: "\<And>v v'. upload_held v ph \<Longrightarrow> f v = Some v' \<Longrightarrow> upload_held v' ph'"
  shows "upload_inv (view w') k ph'"
proof -
  have ids: "ids_ok (view w)" and ne: "k \<noteq> []" using inv by (auto simp: upload_inv_def)
  have "wp (upload_update E f u) (\<lambda>r w'. \<forall>u'. r = Ok u' \<longrightarrow> upload_inv (view w') k ph') w"
    by (rule wp_upload_update [OF db ids _ f])
      (use k ne inv held in \<open>auto simp: upload_inv_def split: option.splits doc.splits\<close>)
  from wpD [OF this run] show ?thesis by simp
qed

lemma deactivate_inv:
  assumes db: "mongo_ok E view" and inv: "upload_inv (view w) k ph" and k: "u_ObjID u = k" and c: "ph c = Finishing"
    and run: "dbS3SetState E (DUpload u) S3StateInactive (\<lambda>_. True) w = (Ok d, w')"
  shows "upload_inv (view w') k (ph(c := Removing))"
proof -
  have ids: "ids_ok (view w)" and ne: "k \<noteq> []" using inv by (auto simp: upload_inv_def)
  obtain v where v: "view w S3Uploads k = Some (DUpload v)" "upload_held v ph"
    using upload_invE [OF inv] c by (metis phase.distinct(3))
  have vk: "u_ObjID v = k" using ids_okD [OF ids v(1)] by simp
  have "wp (dbS3SetState E (DUpload u) S3StateInactive (\<lambda>_. True))
    (\<lambda>r w'. \<forall>d. r = Ok d \<longrightarrow> upload_inv (view w') k (ph(c := Removing))) w"
  proof (rule wp_SetState [OF db], goal_cases)
    case (1 t i d w')
    have i: "i = k" using 1(1,4) ids_okD [OF ids 1(1)] k ne by simp
    then have "d = DUpload v" using 1(1) v by simp
    then have "view w' S3Uploads k = Some (DUpload (v\<lparr>u_State := S3StateInactive, u_MTime := t\<rparr>))" "ids_ok (view w')"
      using 1(5) i vk ids by simp_all
    then show ?case using ne set_inactive_held [OF v(2) c] by (simp add: upload_inv_def)
  qed auto
  from wpD [OF this run] show ?thesis by simp
qed

lemma remove_inv:
  assumes db: "mongo_ok E view" and inv: "upload_inv (view w) k ph" and k: "u_ObjID u = k" and c: "ph c = Removing"
    and run: "dbS3RemoveOnState E (DUpload u) S3StateInactive q w = (Ok (), w')"
  shows "upload_inv (view w') k (ph(c := Idle))"
proof -
  have ids: "ids_ok (view w)" and ne: "k \<noteq> []" using inv by (auto simp: upload_inv_def)
  obtain v where v: "view w S3Uploads k = Some (DUpload v)" "upload_held v ph"
    using upload_invE [OF inv] c by (metis phase.distinct(5))
  have "c \<in> lockers ph" using c by simp
  note h = upload_held_locked(1,2) [OF v(2) this]
  have idle: "(ph(c := Idle)) c' = Idle" for c'
    using h by (cases "ph c'") (auto simp: set_eq_iff)
  have "wp (dbS3RemoveOnState E (DUpload u) S3StateInactive q)
    (\<lambda>r w'. \<forall>d. r = Ok d \<longrightarrow> upload_inv (view w') k (ph(c := Idle))) w"
  proof (rule wp_RemoveOnState [OF db], goal_cases)
    case (1 i d w')
    have "i = k" using 1(1,4) ids_okD [OF ids 1(1)] k ne by simp
    then show ?case using 1(5) ids ne idle by (simp add: upload_inv_def)
  qed auto
  from wpD [OF this run] show ?thesis by simp
qed

lemma upload_step_inv:
  assumes db: "mongo_ok E view" and "upload_step E view k (w, ph) (w', ph')" and inv: "upload_inv (view w) k ph"
  shows "upload_inv (view w') k ph'"
  using assms(2)
proof cases
  case part_begin
  then show ?thesis using upload_update_inv [OF db inv, where f = ref_inc] ref_inc_held by (simp add: dbRefInc_def)
next
  case part_end
  then show ?thesis using upload_update_inv [OF db inv, where f = ref_dec] ref_dec_held by (simp add: dbRefDec_def)
next
  case fini_begin
  then show ?thesis using upload_update_inv [OF db inv, where f = lock_inc] lock_inc_held by (simp add: dbLock_def)
next
  case fini_cancel
  then show ?thesis using upload_update_inv [OF db inv, where f = lock_dec] lock_dec_held by (simp add: dbUnlock_def)
next
  case deactivate
  then show ?thesis using deactivate_inv [OF db inv] by simp
next
  case remove
  then show ?thesis using remove_inv [OF db inv] by simp
next
  case elsewhere
  then show ?thesis using inv by (simp add: upload_inv_def)
qed

lemma upload_reach_inv:
  assumes "mongo_ok E view" and "(upload_step E view k)\<^sup>*\<^sup>* (w0, \<lambda>_. Idle) (w, ph)" and "fresh_upload (view w0) k"
  shows "upload_inv (view w) k ph"
  using assms(2)
proof (induction rule: rtranclp_induct2)
  case refl
  then show ?case
    using assms(3) by (auto simp: fresh_upload_def upload_inv_def upload_held_def ul.held_def in_phase_def)
next
  case (step w1 ph1 w2 ph2)
  then show ?case using upload_step_inv [OF assms(1)] by blast
qed

text \<open>
  C13. However the requests on an upload interleave, a request that completes or aborts it works alone:
  no other request is storing a part of it and no other one completes or aborts it; and the lock
  and the reference count of the document say so.
\<close>

theorem upload_exclusion:
  assumes "mongo_ok E view" and "fresh_upload (view w0) k"
    and "(upload_step E view k)\<^sup>*\<^sup>* (w0, \<lambda>_. Idle) (w, ph)"
    and "ph c = Finishing \<or> ph c = Removing"
  shows "(\<forall>c'. c' \<noteq> c \<longrightarrow> ph c' = Idle)
    \<and> (\<exists>u. view w S3Uploads k = Some (DUpload u) \<and> u_Lock u = 1 \<and> u_Ref u = 0)"
proof -
  have inv: "upload_inv (view w) k ph" using upload_reach_inv [OF assms(1,3,2)] .
  obtain u where u: "view w S3Uploads k = Some (DUpload u)" "upload_held u ph"
    using upload_invE [OF inv, of c] assms(4) by (metis phase.distinct(3,5))
  have c: "c \<in> lockers ph" using assms(4) by simp
  have "ph c' = Idle" if "c' \<noteq> c" for c'
    using upload_held_locked(1,2) [OF u(2) c] that by (cases "ph c'") (auto simp: set_eq_iff)
  then show ?thesis using u upload_held_locked(3,4) [OF u(2) c] by blast
qed

lemma run_ok_wp: "run_ok f w \<longleftrightarrow> wp f (\<lambda>r _. \<exists>a. r = Ok a) w"
  by (auto simp: run_ok_def wp_def split: res.splits prod.splits)

lemma upload_update_runs:
  assumes "mongo_ok E view" and "no_faults E view" and "ids_ok (view w)" and "u_ObjID u \<noteq> []" and "keeps_ids f"
    and "view w S3Uploads (u_ObjID u) = Some (DUpload v)" and "f v \<noteq> None"
  shows "run_ok (upload_update E f u) w"
  unfolding run_ok_wp by (rule wp_upload_update [OF assms(1,3,4,5)]) (use assms in auto)

lemma matching_id:
  assumes "V (dbColl ob) k = Some d" and "doc_id d = doc_id ob" and "q d"
  shows "matching V (dbColl ob) (dbS3SetObjID ob q) \<noteq> {}"
  using assms by (auto simp: matching_def dbS3SetObjID_def)

text \<open>
  C32. As long as the database answers, no request gets stuck holding an upload: one that stores a
  part can always drop its reference, one that holds the lock can release it or set the upload
  inactive, and one that set it inactive can remove it.
\<close>

theorem upload_never_stuck:
  assumes "mongo_ok E view" and "no_faults E view" and "fresh_upload (view w0) k"
    and "(upload_step E view k)\<^sup>*\<^sup>* (w0, \<lambda>_. Idle) (w, ph)" and "u_ObjID u = k"
  shows "(ph c = Writing \<longrightarrow> run_ok (dbRefDec E u) w)
    \<and> (ph c = Finishing \<longrightarrow> run_ok (dbUnlock E u) w \<and> run_ok (dbS3SetState E (DUpload u) S3StateInactive (\<lambda>_. True)) w)
    \<and> (ph c = Removing \<longrightarrow> run_ok (dbS3RemoveOnState E (DUpload u) S3StateInactive (\<lambda>d. u_Ref (as_Upload d) = 0)) w)"
proof (cases "ph c = Idle")
  case False
  have inv: "upload_inv (view w) k ph" using upload_reach_inv [OF assms(1,4,3)] .
  then have k: "ids_ok (view w)" "k \<noteq> []" by (auto simp: upload_inv_def)
  obtain v where v: "view w S3Uploads k = Some (DUpload v)" "upload_held v ph" using upload_invE [OF inv False] .
  have vk: "u_ObjID v = k" using ids_okD [OF k(1) v(1)] by simp
  note runs = upload_update_runs [OF assms(1,2) k(1), of u, unfolded assms(5), OF k(2) _ v(1)]
  have "run_ok (dbRefDec E u) w" if "ph c = Writing"
    using upload_held_Writing [OF v(2) that] unfolding dbRefDec_def by (intro runs) (simp_all add: upload_ops)
  moreover have "run_ok (dbUnlock E u) w" if "ph c = Finishing"
    using upload_held_locked(3-5) [OF v(2), of c] that unfolding dbUnlock_def by (intro runs) (simp_all add: upload_ops)
  moreover have "run_ok (dbS3SetState E (DUpload u) S3StateInactive (\<lambda>_. True)) w" if "ph c = Finishing"
  proof -
    have "in_trans S3StateInactive (DUpload v)"
      using upload_held_locked(5) [OF v(2), of c] that by simp
    then have "matching (view w) (dbColl (DUpload u)) (dbS3SetObjID (DUpload u) (\<lambda>d. True \<and> in_trans S3StateInactive d)) \<noteq> {}"
      using v(1) vk assms(5) by (intro matching_id) auto
    then show ?thesis unfolding run_ok_wp by (intro wp_SetState [OF assms(1)]) (use assms(2) in auto)
  qed
  moreover have "run_ok (dbS3RemoveOnState E (DUpload u) S3StateInactive (\<lambda>d. u_Ref (as_Upload d) = 0)) w" if "ph c = Removing"
  proof -
    have "matching (view w) (dbColl (DUpload u)) (dbS3SetObjID (DUpload u)
        (\<lambda>d. u_Ref (as_Upload d) = 0 \<and> doc_state d = Some S3StateInactive)) \<noteq> {}"
      using v(1) vk assms(5) upload_held_locked(4,5) [OF v(2), of c] that by (intro matching_id) auto
    then show ?thesis unfolding run_ok_wp by (intro wp_RemoveOnState [OF assms(1)]) (use assms(2) in auto)
  qed
  ultimately show ?thesis by blast
qed simp

section \<open>A run of two requests\<close>

text \<open>In the in-memory database: request 1 stores a part of the upload \<open>u1\<close> and ends, then request 2
  takes the lock.\<close>

definition demo_upload :: S3Upload where
  "demo_upload = zero_S3Upload\<lparr>u_ObjID := ''u1'', u_State := S3StateActive, u_UploadID := ''uid''\<rparr>"

definition up0 :: mem where "up0 = mem_of [DUpload demo_upload]"
definition up1 :: mem where "up1 = snd (dbRefInc mem_env demo_upload up0)"
definition up2 :: mem where "up2 = snd (dbRefDec mem_env demo_upload up1)"
definition up3 :: mem where "up3 = snd (dbLock mem_env demo_upload up2)"

lemma up_runs:
  "run_ok (dbRefInc mem_env demo_upload) up0" "run_ok (dbRefDec mem_env demo_upload) up1"
  "run_ok (dbLock mem_env demo_upload) up2"
  by code_simp+

lemma run_ok_snd: "run_ok f w \<Longrightarrow> \<exists>a. f w = (Ok a, snd (f w))"
  by (elim run_okE) simp

lemma up_reach1: "(upload_step mem_env mview ''u1'')\<^sup>*\<^sup>* (up0, \<lambda>_. Idle) (up1, (\<lambda>_. Idle)(1 := Writing))"
proof -
  obtain u where "dbRefInc mem_env demo_upload up0 = (Ok u, up1)"
    using run_ok_snd [OF up_runs(1)] unfolding up1_def by blast
  then have "upload_step mem_env mview ''u1'' (up0, \<lambda>_. Idle) (up1, (\<lambda>_. Idle)(1 := Writing))"
    by (intro upload_step.part_begin) (simp_all add: demo_upload_def)
  then show ?thesis ..
qed

lemma up_reach: "(upload_step mem_env mview ''u1'')\<^sup>*\<^sup>* (up0, \<lambda>_. Idle) (up3, (\<lambda>_. Idle)(2 := Finishing))"
proof -
  obtain u v where run: "dbRefDec mem_env demo_upload up1 = (Ok u, up2)" "dbLock mem_env demo_upload up2 = (Ok v, up3)"
    using run_ok_snd [OF up_runs(2)] run_ok_snd [OF up_runs(3)] unfolding up2_def up3_def by blast
  have k: "u_ObjID demo_upload = ''u1''" by (simp add: demo_upload_def)
  have "upload_step mem_env mview ''u1'' (up1, (\<lambda>_. Idle)(1 := Writing)) (up2, ((\<lambda>_. Idle)(1 := Writing))(1 := Idle))"
    by (rule upload_step.part_end [OF _ k run(1)]) simp
  moreover have "upload_step mem_env mview ''u1'' (up2, \<lambda>_. Idle) (up3, (\<lambda>_. Idle)(2 := Finishing))"
    by (rule upload_step.fini_begin [OF _ k run(2)]) simp
  moreover have "((\<lambda>_. Idle)(1 := Writing))(1 := Idle) = (\<lambda>_::nat. Idle)" by auto
  ultimately show ?thesis using up_reach1 by (metis rtranclp.rtrancl_into_rtrancl)
qed

lemma up0_fresh: "fresh_upload (mview up0) ''u1''"
  by (simp add: fresh_upload_def up0_def mview_mem_of ids_ok_mem_of demo_upload_def zero_S3Upload_def)

theorem upload_exclusion_witness:
  "\<exists>u. mview up3 S3Uploads ''u1'' = Some (DUpload u) \<and> u_Lock u = 1 \<and> u_Ref u = 0"
  using upload_exclusion [OF mem_env_ok up0_fresh up_reach, of 2] by simp

theorem upload_never_stuck_witness: "run_ok (dbRefDec mem_env demo_upload) up1"
  using upload_never_stuck [OF mem_env_ok mem_no_faults up0_fresh up_reach1, of demo_upload 1] by (simp add: demo_upload_def)

end
