(* ===== verification/Base64.thy ===== *)
theory Base64
  imports Go_Strings
begin

text \<open>
  The base64 codecs of Go's \<open>encoding/base64\<close> the services use: the URL-safe one of the gate's tokens
  and the standard one of the object store's continuation tokens.
\<close>

section \<open>URL-safe base64\<close>

definition b64_chr :: "nat \<Rightarrow> char" where
  "b64_chr n = char_of (if n < 26 then n + 65 else if n < 52 then n + 71 else if n < 62 then n - 4 else if n = 62 then 45 else (95 :: nat))"

definition b64_val :: "char \<Rightarrow> nat option" where
  "b64_val c = (let n = of_char c in
     if 65 \<le> n \<and> n \<le> 90 then Some (n - 65) else if 97 \<le> n \<and> n \<le> 122 then Some (n - 71)
     else if 48 \<le> n \<and> n \<le> 57 then Some (n + 4) else if n = 45 then Some 62 else if n = (95 :: nat) then Some 63 else None)"

definition b64_1 :: "char \<Rightarrow> nat" where "b64_1 a = of_char a div 4"
definition b64_2 :: "char \<Rightarrow> nat \<Rightarrow> nat" where "b64_2 a b = of_char a mod 4 * 16 + b div 16"
definition b64_3 :: "char \<Rightarrow> nat \<Rightarrow> nat" where "b64_3 b c = of_char b mod 16 * 4 + c div 64"
definition b64_4 :: "char \<Rightarrow> nat" where "b64_4 c = of_char c mod 64"

fun EncodeToString :: "string \<Rightarrow> string" where
  "EncodeToString [] = []"
| "EncodeToString [a] = [b64_chr (b64_1 a), b64_chr (b64_2 a 0), CHR ''='', CHR ''='']"
| "EncodeToString [a, b] = [b64_chr (b64_1 a), b64_chr (b64_2 a (of_char b)), b64_chr (b64_3 b 0), CHR ''='']"
| "EncodeToString (a # b # c # s) =
     b64_chr (b64_1 a) # b64_chr (b64_2 a (of_char b)) # b64_chr (b64_3 b (of_char c)) # b64_chr (b64_4 c) # EncodeToString s"

text \<open>Decoding of the input without line ends: padding only at its end, stray bits of the last group are ignored.\<close>

fun decode_groups :: "string \<Rightarrow> string option" where
  "decode_groups [] = Some []"
| "decode_groups (a # b # c # d # s) = (case (b64_val a, b64_val b) of
     (Some x, Some y) \<Rightarrow>
       if c = CHR ''='' then (if d = CHR ''='' \<and> s = [] then Some [char_of (x * 4 + y div 16)] else None)
       else (case b64_val c of None \<Rightarrow> None | Some z \<Rightarrow>
         if d = CHR ''='' then (if s = [] then Some [char_of (x * 4 + y div 16), char_of (y mod 16 * 16 + z div 4)] else None)
         else (case b64_val d of None \<Rightarrow> None | Some u \<Rightarrow>
           map_option (\<lambda>r. char_of (x * 4 + y div 16) # char_of (y mod 16 * 16 + z div 4) # char_of (z mod 4 * 64 + u) # r) (decode_groups s)))
   | _ \<Rightarrow> None)"
| "decode_groups _ = None"

definition DecodeString :: "string \<Rightarrow> string option" where
  "DecodeString s = decode_groups (filter (\<lambda>c. c \<noteq> CHR 0x0A \<and> c \<noteq> CHR 0x0D) s)"

subsection \<open>Decoding undoes encoding\<close>

lemma b64_val_chr: "n < 64 \<Longrightarrow> b64_val (b64_chr n) = Some n"
  by (auto simp: b64_val_def b64_chr_def Let_def)

lemma b64_chr_plain: "n < 64 \<Longrightarrow> b64_chr n \<noteq> CHR ''=''" "n < 64 \<Longrightarrow> b64_chr n \<noteq> CHR ''.''" "n < 64 \<Longrightarrow> b64_chr n \<noteq> CHR '' ''"
  "n < 64 \<Longrightarrow> b64_chr n \<noteq> CHR 0x0A" "n < 64 \<Longrightarrow> b64_chr n \<noteq> CHR 0x0D"
  using b64_val_chr [of n] by (auto simp: b64_val_def)

lemma of_char_256: "(of_char c :: nat) < 256"
  by simp

lemma b64_bounds: "b64_1 a < 64" "b < 256 \<Longrightarrow> b64_2 a b < 64" "c < 256 \<Longrightarrow> b64_3 a c < 64" "b64_4 a < 64"
proof -
  have "x div 16 < 16" "x div 4 < 64" "x div 64 < 4" if "x < 256" for x :: nat using that by (auto intro: less_mult_imp_div_less)
  moreover have "(of_char a :: nat) mod 4 < 4" "(of_char a :: nat) mod 16 < 16" by simp_all
  ultimately show "b64_1 a < 64" "b < 256 \<Longrightarrow> b64_2 a b < 64" "c < 256 \<Longrightarrow> b64_3 a c < 64" "b64_4 a < 64"
    unfolding b64_1_def b64_2_def b64_3_def b64_4_def using of_char_256 [of a] by fastforce+
qed

lemma b64_bytes:
  fixes x y z :: nat
  assumes "x < 256" and "y < 256" and "z < 256"
  shows "x div 4 * 4 + (x mod 4 * 16 + y div 16) div 16 = x"
    and "(x mod 4 * 16 + y div 16) mod 16 * 16 + (y mod 16 * 4 + z div 64) div 4 = y"
    and "(y mod 16 * 4 + z div 64) mod 4 * 64 + z mod 64 = z"
proof -
  have q: "y div 16 < 16" "z div 64 < 4" using assms by (auto intro: less_mult_imp_div_less)
  then have "(x mod 4 * 16 + y div 16) div 16 = x mod 4" "(x mod 4 * 16 + y div 16) mod 16 = y div 16"
    "(y mod 16 * 4 + z div 64) div 4 = y mod 16" "(y mod 16 * 4 + z div 64) mod 4 = z div 64"
    by (simp_all add: div_mult_self3 mod_mult_self3)
  then show "x div 4 * 4 + (x mod 4 * 16 + y div 16) div 16 = x"
    and "(x mod 4 * 16 + y div 16) mod 16 * 16 + (y mod 16 * 4 + z div 64) div 4 = y"
    and "(y mod 16 * 4 + z div 64) mod 4 * 64 + z mod 64 = z"
    by (simp_all add: div_mult_mod_eq)
qed

lemma decode_encode: "decode_groups (EncodeToString b) = Some b"
proof (induction b rule: EncodeToString.induct)
  case (2 a)
  have "char_of (b64_1 a * 4 + b64_2 a 0 div 16) = a"
    unfolding b64_1_def b64_2_def using b64_bytes(1) [OF of_char_256 [of a], of 0 0] by simp
  then show ?case using b64_bounds(1) [of a] b64_bounds(2) [of 0 a] by (simp add: b64_val_chr)
next
  case (3 a b)
  have "char_of (b64_1 a * 4 + b64_2 a (of_char b) div 16) = a" "char_of (b64_2 a (of_char b) mod 16 * 16 + b64_3 b 0 div 4) = b"
    unfolding b64_1_def b64_2_def b64_3_def using b64_bytes(1,2) [OF of_char_256 [of a] of_char_256 [of b], of 0] by simp_all
  then show ?case using b64_bounds(1) [of a] b64_bounds(2) [of "of_char b" a] b64_bounds(3) [of 0 b]
    by (simp add: b64_val_chr b64_chr_plain)
next
  case (4 a b c s)
  have "char_of (b64_1 a * 4 + b64_2 a (of_char b) div 16) = a" "char_of (b64_2 a (of_char b) mod 16 * 16 + b64_3 b (of_char c) div 4) = b"
    "char_of (b64_3 b (of_char c) mod 4 * 64 + b64_4 c) = c"
    unfolding b64_1_def b64_2_def b64_3_def b64_4_def
    using b64_bytes [OF of_char_256 [of a] of_char_256 [of b] of_char_256 [of c]] by simp_all
  then show ?case using 4 b64_bounds(1) [of a] b64_bounds(2) [of "of_char b" a] b64_bounds(3) [of "of_char c" b] b64_bounds(4) [of c]
    by (simp add: b64_val_chr b64_chr_plain)
qed simp

section \<open>Standard base64\<close>

text \<open>The standard alphabet has \<open>+\<close> and \<open>/\<close> where the other has \<open>-\<close> and \<open>_\<close>.\<close>

definition std_of_url :: "char \<Rightarrow> char" where
  "std_of_url c = (if c = CHR ''-'' then CHR ''+'' else if c = CHR ''_'' then CHR ''/'' else c)"

definition url_of_std :: "char \<Rightarrow> char" where
  "url_of_std c = (if c = CHR ''+'' then CHR ''-'' else if c = CHR ''/'' then CHR ''_''
     else if c = CHR ''-'' \<or> c = CHR ''_'' then CHR '' '' else c)"

text \<open>What a decoder has written when it stops: the bytes of the groups before the first bad one.\<close>

fun decoded_prefix :: "string \<Rightarrow> string" where
  "decoded_prefix (a # b # c # d # s) = (case (b64_val a, b64_val b) of
     (Some x, Some y) \<Rightarrow>
       if c = CHR ''='' then (if d = CHR ''='' then [char_of (x * 4 + y div 16)] else [])
       else (case b64_val c of None \<Rightarrow> [] | Some z \<Rightarrow>
         if d = CHR ''='' then [char_of (x * 4 + y div 16), char_of (y mod 16 * 16 + z div 4)]
         else (case b64_val d of None \<Rightarrow> [] | Some u \<Rightarrow>
           char_of (x * 4 + y div 16) # char_of (y mod 16 * 16 + z div 4) # char_of (z mod 4 * 64 + u) # decoded_prefix s))
   | _ \<Rightarrow> [])"
| "decoded_prefix _ = []"

lemma decoded_prefix_all: "decode_groups s = Some d \<Longrightarrow> decoded_prefix s = d"
  by (induction s arbitrary: d rule: decode_groups.induct) (auto split: option.splits if_splits)

lemma url_of_std_of_url: "b64_val c \<noteq> None \<or> c = CHR ''='' \<Longrightarrow> url_of_std (std_of_url c) = c"
  by (auto simp: b64_val_def url_of_std_def std_of_url_def Let_def split: if_splits)

lemma EncodeToString_alphabet: "c \<in> set (EncodeToString s) \<Longrightarrow> b64_val c \<noteq> None \<or> c = CHR ''=''"
  by (induction s rule: EncodeToString.induct) (auto simp: b64_val_chr b64_bounds)

lemma EncodeToString_no_newline: "c \<in> set (EncodeToString s) \<Longrightarrow> c \<noteq> CHR 0x0A \<and> c \<noteq> CHR 0x0D"
  using EncodeToString_alphabet [of c s] by (auto simp: b64_val_def)

end
