(* ===== verification/S3_List.thy ===== *)
theory S3_List
  imports S3_Upload Base64
begin

text \<open>
  Listing a bucket: \<open>S3ListObjectsRP.Validate\<close> and \<open>s3ListBucket\<close> of \<open>src/s3/bucket.go\<close>, with the base64
  helpers of \<open>src/s3/helpers.go\<close>. The server evaluates the prefix as a regular expression: \<open>rx p\<close> is the
  predicate of the pattern \<open>p\<close>, or \<open>None\<close> if the pattern does not compile. The sort order is given as a
  Go map of two keys, whose iteration order the language leaves open: \<open>kf\<close> says whether the encoder
  puts the name first.
\<close>

section \<open>The request\<close>

definition base64_encode :: "string \<Rightarrow> string" where
  "base64_encode s = map std_of_url (EncodeToString s)"

definition base64_decode :: "string \<Rightarrow> string" where
  "base64_decode s = decoded_prefix (map url_of_std (filter (\<lambda>c. c \<noteq> CHR 0x0A \<and> c \<noteq> CHR 0x0D) s))"

record S3ListObjectsRP =
  rp_Delimiter :: string
  rp_MaxKeys :: int
  rp_Prefix :: string
  rp_ContToken :: string
  rp_FetchOwner :: bool
  rp_StartAfter :: string
  rp_Marker :: string
  rp_ContTokenDecoded :: string
  rp_V2 :: bool

definition zero_RP :: S3ListObjectsRP where
  "zero_RP = \<lparr>rp_Delimiter = [], rp_MaxKeys = 0, rp_Prefix = [], rp_ContToken = [], rp_FetchOwner = False,
     rp_StartAfter = [], rp_Marker = [], rp_ContTokenDecoded = [], rp_V2 = False\<rparr>"

definition S3ObjectName_Letter :: "char \<Rightarrow> bool" where
  "S3ObjectName_Letter c \<longleftrightarrow> (CHR ''a'' \<le> c \<and> c \<le> CHR ''z'') \<or> (CHR ''A'' \<le> c \<and> c \<le> CHR ''Z'')
     \<or> (CHR ''0'' \<le> c \<and> c \<le> CHR ''9'') \<or> c \<in> set ''/!-_.*()'' \<or> c = CHR 0x27"

text \<open>The pattern is not anchored: one good character is a match.\<close>

definition MatchString :: "string \<Rightarrow> bool" where
  "MatchString s = list_ex S3ObjectName_Letter s"

definition cont_decoded :: "S3ListObjectsRP \<Rightarrow> string" where
  "cont_decoded params =
     (if rp_Marker params \<noteq> [] then rp_Marker params
      else if rp_ContToken params \<noteq> [] then base64_decode (rp_ContToken params)
      else rp_ContTokenDecoded params)"

definition Validate :: "'w env \<Rightarrow> S3ListObjectsRP \<Rightarrow> S3ListObjectsRP option" where
  "Validate E params =
     (if rp_Delimiter params \<noteq> [] \<and> \<not> MatchString (rp_Delimiter params) then None
      else if rp_Prefix params \<noteq> [] \<and> \<not> MatchString (rp_Prefix params) then None
      else if rp_StartAfter params \<noteq> [] \<and> \<not> MatchString (rp_StartAfter params) then None
      else if rp_ContToken params \<noteq> [] \<and> \<not> MatchString (base64_decode (rp_ContToken params)) then None
      else if length (rp_Delimiter params) > 1 then None
      else if rp_MaxKeys params \<le> 0
      then Some (params\<lparr>rp_ContTokenDecoded := cont_decoded params, rp_MaxKeys := S3StorageDefaultListObjects E\<rparr>)
      else if rp_MaxKeys params > S3StorageMaxObjects then None
      else Some (params\<lparr>rp_ContTokenDecoded := cont_decoded params\<rparr>))"

section \<open>The listing\<close>

abbreviation o_Key :: "Object \<Rightarrow> string" where "o_Key x \<equiv> op_Key (o_Props x)"
abbreviation o_CreationTime :: "Object \<Rightarrow> string" where "o_CreationTime x \<equiv> op_CreationTime (o_Props x)"

record S3Object =
  so_Key :: string
  so_Size :: int
  so_Owner :: "string \<times> string"
  so_LastModified :: string
  so_ETag :: string
  so_StorageClass :: string

record S3Bucket =
  lb_Name :: string
  lb_KeyCount :: int
  lb_MaxKeys :: int
  lb_IsTruncated :: bool
  lb_Contents :: "S3Object list"
  lb_CommonPrefixes :: "string list"
  lb_ContinuationToken :: string
  lb_NextContinuationToken :: string
  lb_Marker :: string
  lb_NextMarker :: string

definition zero_S3Bucket :: S3Bucket where
  "zero_S3Bucket = \<lparr>lb_Name = [], lb_KeyCount = 0, lb_MaxKeys = 0, lb_IsTruncated = False, lb_Contents = [],
     lb_CommonPrefixes = [], lb_ContinuationToken = [], lb_NextContinuationToken = [], lb_Marker = [], lb_NextMarker = []\<rparr>"

definition entry :: "string \<times> string \<Rightarrow> Object \<Rightarrow> S3Object" where
  "entry owner x = \<lparr>so_Key = o_Key x, so_Size = o_Size x, so_Owner = owner, so_LastModified = o_CreationTime x,
     so_ETag = o_ETag x, so_StorageClass = ''STANDARD''\<rparr>"

text \<open>The local variables of the loop.\<close>

record lstate =
  ls_pkey :: string
  ls_start :: bool
  ls_cont :: bool
  ls_pfx :: "string list"
  ls_list :: S3Bucket

definition add_entry :: "S3ListObjectsRP \<Rightarrow> Object \<Rightarrow> string \<times> string \<Rightarrow> S3Bucket \<Rightarrow> S3Bucket" where
  "add_entry params x owner l = l\<lparr>lb_Contents := lb_Contents l @ [entry owner x], lb_KeyCount := int64_of (lb_KeyCount l + 1)\<rparr>"

definition mark_truncated :: "S3ListObjectsRP \<Rightarrow> Object \<Rightarrow> S3Bucket \<Rightarrow> S3Bucket" where
  "mark_truncated params x l =
     (if rp_V2 params
      then l\<lparr>lb_IsTruncated := True, lb_ContinuationToken := rp_ContToken params, lb_NextContinuationToken := base64_encode (o_Key x)\<rparr>
      else l\<lparr>lb_IsTruncated := True, lb_Marker := rp_Marker params, lb_NextMarker := o_Key x\<rparr>)"

text \<open>What the delimiter makes of a key: a panic (the slice is out of range), a common prefix, nothing, or an entry.\<close>

datatype grouped = GPanic | GSkip | GPrefix string | GEntry

definition group_key :: "S3ListObjectsRP \<Rightarrow> string \<Rightarrow> grouped" where
  "group_key params key =
     (if rp_Delimiter params = [] then GEntry
      else let len_pfx = length (rp_Prefix params); len_dlm = length (rp_Delimiter params)
           in if length key < len_pfx then GPanic
              else case Index (drop len_pfx key) (rp_Delimiter params) of
                None \<Rightarrow> GEntry
              | Some pos \<Rightarrow>
                  if pos + len_pfx + len_dlm \<le> length key
                  then (if pos = 0 then GSkip else GPrefix (take (len_pfx + pos + len_dlm) key))
                  else GEntry)"

fun list_loop :: "S3ListObjectsRP \<Rightarrow> Iam option \<Rightarrow> Object list \<Rightarrow> lstate \<Rightarrow> lstate option" where
  "list_loop params ctx [] st = Some st"
| "list_loop params ctx (x # xs) st =
     (if o_Key x = ls_pkey st then list_loop params ctx xs st
      else
        let st = st\<lparr>ls_pkey := o_Key x\<rparr>
        in if ls_start st
           then list_loop params ctx xs (if o_Key x \<noteq> rp_StartAfter params then st else st\<lparr>ls_start := False\<rparr>)
           else if ls_cont st
           then list_loop params ctx xs (if o_Key x \<noteq> rp_ContTokenDecoded params then st else st\<lparr>ls_cont := False\<rparr>)
           else case group_key params (o_Key x) of
             GPanic \<Rightarrow> None
           | GSkip \<Rightarrow> list_loop params ctx xs st
           | GPrefix p \<Rightarrow> list_loop params ctx xs (st\<lparr>ls_pfx := List.insert p (ls_pfx st)\<rparr>)
           | GEntry \<Rightarrow>
               (case (if rp_FetchOwner params then map_option (\<lambda>iam. (iam_User iam, iam_AwsID iam)) ctx else Some ([], [])) of
                  None \<Rightarrow> None
                | Some owner \<Rightarrow>
                    let l = add_entry params x owner (ls_list st)
                    in if lb_KeyCount l \<ge> lb_MaxKeys l
                       then Some (st\<lparr>ls_list := mark_truncated params x l\<rparr>)
                       else list_loop params ctx xs (st\<lparr>ls_list := l\<rparr>)))"

definition q_listed :: "(string \<Rightarrow> bool) \<Rightarrow> Bucket \<Rightarrow> doc \<Rightarrow> bool" where
  "q_listed f b d \<longleftrightarrow> (case d of DObject x \<Rightarrow> o_BucketObjID x = b_ObjID b \<and> o_State x = S3StateActive \<and> f (o_Key x) | _ \<Rightarrow> False)"

definition key_order :: "string \<Rightarrow> int list" where
  "key_order k = map (\<lambda>c. int (of_char c)) k"

definition listing_order :: "bool \<Rightarrow> doc \<Rightarrow> sortkey" where
  "listing_order kf d = (let x = as_Object d in
     if kf then [key_order (o_Key x), [- o_Rover x]] else [[- o_Rover x], key_order (o_Key x)])"

definition prefix_pred :: "(string \<Rightarrow> (string \<Rightarrow> bool) option) \<Rightarrow> string \<Rightarrow> (string \<Rightarrow> bool) option" where
  "prefix_pred rx p = (if p \<noteq> [] then rx (CHR ''^'' # p) else Some (\<lambda>_. True))"

definition dbS3Pipe :: "'w env \<Rightarrow> coll \<Rightarrow> (doc \<Rightarrow> bool) option \<Rightarrow> (doc \<Rightarrow> sortkey) \<Rightarrow> ('w, goerr, doc list) go" where
  "dbS3Pipe E c query ord = (case query of
     None \<Rightarrow> gerr (DbErr ''Regular expression is invalid'')
   | Some q \<Rightarrow> gbind (dcall E (FindAll c q ord)) gotdocs)"

text \<open>The iterator's error is dropped: a failed query lists nothing.\<close>

definition list_objects :: "'w env \<Rightarrow> (string \<Rightarrow> (string \<Rightarrow> bool) option) \<Rightarrow> bool \<Rightarrow> Iam option \<Rightarrow> S3ListObjectsRP \<Rightarrow> Bucket \<Rightarrow> ('w, S3Error, S3Bucket) go" where
  "list_objects E rx kf ctx params bucket =
     gtry (dbS3Pipe E S3Objects (map_option (\<lambda>f. q_listed f bucket) (prefix_pred rx (rp_Prefix params))) (listing_order kf)) (\<lambda>r.
       let objs = (case r of Inl _ \<Rightarrow> [] | Inr ds \<Rightarrow> map as_Object ds);
           cont = rp_ContTokenDecoded params \<noteq> []
       in case list_loop params ctx objs
              \<lparr>ls_pkey = [], ls_start = (rp_StartAfter params \<noteq> [] \<and> \<not> cont), ls_cont = cont, ls_pfx = [],
               ls_list = zero_S3Bucket\<lparr>lb_Name := b_Name bucket, lb_MaxKeys := rp_MaxKeys params\<rparr>\<rparr> of
            None \<Rightarrow> gpanic
          | Some st \<Rightarrow> gret ((ls_list st)\<lparr>lb_CommonPrefixes := sort (ls_pfx st)\<rparr>))"

definition s3ListBucket :: "'w env \<Rightarrow> (string \<Rightarrow> (string \<Rightarrow> bool) option) \<Rightarrow> bool \<Rightarrow> Iam option \<Rightarrow> string \<Rightarrow> S3ListObjectsRP \<Rightarrow> ('w, S3Error, S3Bucket) go" where
  "s3ListBucket E rx kf ctx bname params = (case Validate E params of
     None \<Rightarrow> gerr (s3error S3ErrInvalidArgument)
   | Some params \<Rightarrow>
       gtry (FindBucket E ctx bname) (\<lambda>r. case r of
         Inl e \<Rightarrow> gerr (bucket_error e)
       | Inr bucket \<Rightarrow> list_objects E rx kf ctx params bucket))"

section \<open>The order of the listing\<close>

lemma base64_roundtrip [simp]: "base64_decode (base64_encode s) = s"
proof -
  have no_nl: "filter (\<lambda>c. c \<noteq> CHR 0x0A \<and> c \<noteq> CHR 0x0D) (map std_of_url (EncodeToString s)) = map std_of_url (EncodeToString s)"
    using EncodeToString_no_newline [of _ s] by (auto simp: filter_id_conv std_of_url_def)
  have "map url_of_std (map std_of_url (EncodeToString s)) = EncodeToString s"
    unfolding map_map comp_def by (rule map_idI) (use EncodeToString_alphabet url_of_std_of_url in blast)
  then show ?thesis
    unfolding base64_encode_def base64_decode_def no_nl by (simp add: decoded_prefix_all [OF decode_encode])
qed

lemma key_order_less: "key_order a < key_order b \<longleftrightarrow> a < b"
proof (induction a arbitrary: b)
  case Nil
  then show ?case by (cases b) (simp_all add: key_order_def)
next
  case (Cons c a)
  show ?case
  proof (cases b)
    case (Cons d b')
    then show ?thesis using Cons.IH [of b'] by (auto simp: key_order_def less_char_def)
  qed (simp add: key_order_def)
qed

lemma key_order_le: "key_order a \<le> key_order b \<longleftrightarrow> a \<le> b"
  using key_order_less [of b a] by (simp add: linorder_not_less [symmetric])

lemma key_order_eq [simp]: "key_order a = key_order b \<longleftrightarrow> a = b"
  by (metis key_order_le order.antisym order.refl)

text \<open>\<open>heads p xs\<close>: the objects the loop looks at, the first of each run of equal keys.\<close>

fun heads :: "string \<Rightarrow> Object list \<Rightarrow> Object list" where
  "heads p [] = []"
| "heads p (x # xs) = (if o_Key x = p then heads p xs else x # heads (o_Key x) xs)"

definition listed_before :: "Object \<Rightarrow> Object \<Rightarrow> bool" where
  "listed_before x y \<longleftrightarrow> o_Key x < o_Key y \<or> o_Key x = o_Key y \<and> o_Rover y \<le> o_Rover x"

definition ordered :: "Object list \<Rightarrow> bool" where
  "ordered xs \<longleftrightarrow> sorted_wrt listed_before xs"

lemma ordered_simps [simp]:
  "ordered []" "ordered (x # xs) \<longleftrightarrow> (\<forall>y \<in> set xs. o_Key x < o_Key y \<or> o_Key x = o_Key y \<and> o_Rover y \<le> o_Rover x) \<and> ordered xs"
  by (auto simp: ordered_def listed_before_def)

lemma listing_order_le: "listing_order True d \<le> listing_order True d' \<longleftrightarrow> listed_before (as_Object d) (as_Object d')"
  by (auto simp: listing_order_def listed_before_def Let_def key_order_less)

lemma ordered_listing: "sorted (map (listing_order True) ds) \<Longrightarrow> ordered (map as_Object ds)"
  by (simp add: ordered_def sorted_wrt_map listing_order_le sorted_map)

lemma heads_above: "ordered xs \<Longrightarrow> \<forall>x \<in> set xs. p \<le> o_Key x \<Longrightarrow> y \<in> set (heads p xs) \<Longrightarrow> p < o_Key y"
  by (induction p xs rule: heads.induct) (fastforce split: if_splits)+

lemma heads_strict: "ordered xs \<Longrightarrow> \<forall>x \<in> set xs. p \<le> o_Key x \<Longrightarrow> sorted_wrt (<) (map o_Key (heads p xs))"
proof (induction p xs rule: heads.induct)
  case (2 p x xs)
  have le: "\<forall>y \<in> set xs. o_Key x \<le> o_Key y" using 2(3) by (auto simp: order.order_iff_strict)
  show ?case using 2 le heads_above [of xs "o_Key x"] by auto
qed simp

definition newest :: "Object set \<Rightarrow> Object \<Rightarrow> bool" where
  "newest X x \<longleftrightarrow> x \<in> X \<and> (\<forall>y \<in> X. o_Key y = o_Key x \<longrightarrow> o_Rover y \<le> o_Rover x)"

definition one_version :: "Object set \<Rightarrow> bool" where
  "one_version X \<longleftrightarrow> inj_on (\<lambda>x. (o_Key x, o_Rover x)) X"

lemma heads_newest:
  "ordered xs \<Longrightarrow> \<forall>x \<in> set xs. p \<le> o_Key x \<Longrightarrow> one_version (set xs) \<Longrightarrow> distinct xs \<Longrightarrow>
     x \<in> set (heads p xs) \<longleftrightarrow> newest (set xs) x \<and> o_Key x \<noteq> p"
proof (induction p xs rule: heads.induct)
  case (2 p y xs)
  have le: "\<forall>z \<in> set xs. o_Key y \<le> o_Key z" using 2(3) by (auto simp: order.order_iff_strict)
  have one: "one_version (set xs)" using 2(5) by (auto simp: one_version_def inj_on_def)
  have cong: "o_Rover z < o_Rover y" if "z \<in> set xs" "o_Key z = o_Key y" for z
    using that 2(3,5,6) by (auto simp: one_version_def inj_on_def order.order_iff_strict)
  have "newest (set (y # xs)) x \<longleftrightarrow> x = y \<or> (newest (set xs) x \<and> o_Key x \<noteq> o_Key y)"
    using cong by (fastforce simp: newest_def)
  moreover have "o_Key y \<le> o_Key x" if "newest (set xs) x" using that le by (simp add: newest_def)
  ultimately show ?case using 2 le one by auto
qed (simp add: newest_def)

section \<open>One page\<close>

text \<open>The page that starts after the current objects listed so far.\<close>

definition page :: "S3ListObjectsRP \<Rightarrow> Object list \<Rightarrow> S3Bucket \<Rightarrow> S3Bucket" where
  "page params hs l =
     (let n = nat (lb_MaxKeys l - lb_KeyCount l);
          more = (\<lambda>k. l\<lparr>lb_Contents := lb_Contents l @ map (entry ([], [])) (take k hs), lb_KeyCount := lb_KeyCount l + int k\<rparr>)
      in if n \<le> length hs then mark_truncated params (hs ! (n - 1)) (more n) else more (length hs))"

definition plain_params :: "S3ListObjectsRP \<Rightarrow> bool" where
  "plain_params params \<longleftrightarrow> rp_Delimiter params = [] \<and> \<not> rp_FetchOwner params"

definition counting :: "S3Bucket \<Rightarrow> bool" where
  "counting l \<longleftrightarrow> 0 \<le> lb_KeyCount l \<and> lb_KeyCount l < lb_MaxKeys l \<and> lb_MaxKeys l \<le> MaxInt64"

lemma page_Cons:
  assumes "counting l" and "lb_KeyCount l + 1 < lb_MaxKeys l"
  shows "page params (x # hs) l
    = page params hs (l\<lparr>lb_Contents := lb_Contents l @ [entry ([], []) x], lb_KeyCount := lb_KeyCount l + 1\<rparr>)"
proof -
  obtain n where M: "lb_MaxKeys l = lb_KeyCount l + 1 + int n" and "0 < n"
    by (rule that [of "nat (lb_MaxKeys l - (lb_KeyCount l + 1))"]) (use assms(2) in auto)
  then have "(x # hs) ! n = hs ! (n - 1)" by (simp add: nth_Cons')
  moreover have "nat (1 + int n) = Suc n" by simp
  ultimately show ?thesis by (simp add: page_def Let_def M add.assoc)
qed

lemma loop_entries:
  assumes "plain_params params"
  shows "\<not> ls_start st \<Longrightarrow> \<not> ls_cont st \<Longrightarrow> counting (ls_list st) \<Longrightarrow>
    \<exists>st'. list_loop params ctx xs st = Some st' \<and> ls_list st' = page params (heads (ls_pkey st) xs) (ls_list st) \<and> ls_pfx st' = ls_pfx st"
proof (induction xs arbitrary: st)
  case Nil
  then show ?case by (simp add: page_def counting_def Let_def)
next
  case (Cons x xs)
  let ?l = "ls_list st"
  have cnt: "int64_of (lb_KeyCount ?l + 1) = lb_KeyCount ?l + 1"
    using Cons.prems(3) by (intro int64_of_id) (auto simp: counting_def int64_bounds)
  show ?case
  proof (cases "o_Key x = ls_pkey st")
    case True
    then show ?thesis using Cons by simp
  next
    case new: False
    show ?thesis
    proof (cases "lb_KeyCount ?l + 1 < lb_MaxKeys ?l")
      case True
      let ?st = "st\<lparr>ls_pkey := o_Key x, ls_list := add_entry params x ([], []) ?l\<rparr>"
      have "counting (ls_list ?st)" using True Cons.prems(3) cnt by (simp add: counting_def add_entry_def)
      then obtain st' where "list_loop params ctx xs ?st = Some st'"
        and "ls_list st' = page params (heads (o_Key x) xs) (ls_list ?st)" and "ls_pfx st' = ls_pfx st"
        using Cons.IH [of ?st] Cons.prems by auto
      then show ?thesis using assms new True Cons.prems cnt
        by (simp add: plain_params_def group_key_def Let_def add_entry_def page_Cons)
    next
      case False
      then have "nat (lb_MaxKeys ?l - lb_KeyCount ?l) = Suc 0" using Cons.prems(3) by (auto simp: counting_def)
      then show ?thesis using assms new False Cons.prems cnt
        by (simp add: plain_params_def group_key_def Let_def add_entry_def page_def)
    qed
  qed
qed

lemma loop_resumes:
  assumes "rp_ContTokenDecoded params = m"
  shows "\<not> ls_start st \<Longrightarrow> ls_cont st \<Longrightarrow> heads (ls_pkey st) xs = us @ u # vs \<Longrightarrow> o_Key u = m \<Longrightarrow> m \<notin> o_Key ` set us \<Longrightarrow>
    \<exists>xs'. heads m xs' = vs \<and> list_loop params ctx xs st = list_loop params ctx xs' (st\<lparr>ls_pkey := m, ls_cont := False\<rparr>)"
proof (induction xs arbitrary: st us)
  case (Cons x xs)
  consider (dup) "o_Key x = ls_pkey st" | (hit) "o_Key x \<noteq> ls_pkey st" "us = []" "u = x"
    | (miss) us' where "o_Key x \<noteq> ls_pkey st" "us = x # us'"
    using Cons.prems(3) by (cases us) (auto split: if_splits)
  then show ?case
  proof cases
    case hit
    then show ?thesis using Cons.prems assms by (intro exI [of _ xs]) simp
  next
    case miss
    have "o_Key x \<noteq> m" using miss(2) Cons.prems(5) by auto
    then show ?thesis using Cons.IH [of "st\<lparr>ls_pkey := o_Key x\<rparr>" us'] Cons.prems miss assms by simp
  qed (use Cons in auto)
qed simp

section \<open>Walking the pages\<close>

text \<open>A client that asks for page after page, by marker or by continuation token, until one is not truncated.\<close>

definition page_request :: "bool \<Rightarrow> string \<Rightarrow> int \<Rightarrow> string \<Rightarrow> S3ListObjectsRP" where
  "page_request v2 pfx n token = (let p = zero_RP\<lparr>rp_Prefix := pfx, rp_MaxKeys := n\<rparr>
     in if v2 then p\<lparr>rp_V2 := True, rp_ContToken := token\<rparr> else p\<lparr>rp_Marker := token\<rparr>)"

definition next_token :: "bool \<Rightarrow> S3Bucket \<Rightarrow> string" where
  "next_token v2 l = (if v2 then lb_NextContinuationToken l else lb_NextMarker l)"

fun all_pages :: "'w env \<Rightarrow> (string \<Rightarrow> (string \<Rightarrow> bool) option) \<Rightarrow> Iam option \<Rightarrow> string \<Rightarrow> bool \<Rightarrow> string \<Rightarrow> int \<Rightarrow> nat \<Rightarrow> string \<Rightarrow> ('w, S3Error, S3Object list) go" where
  "all_pages E rx ctx bname v2 pfx n 0 token = gpanic"
| "all_pages E rx ctx bname v2 pfx n (Suc k) token =
     gbind (s3ListBucket E rx True ctx bname (page_request v2 pfx n token)) (\<lambda>l.
       if lb_IsTruncated l
       then gbind (all_pages E rx ctx bname v2 pfx n k (next_token v2 l)) (\<lambda>rest. gret (lb_Contents l @ rest))
       else gret (lb_Contents l))"

definition token_for :: "bool \<Rightarrow> string \<Rightarrow> string" where
  "token_for v2 key = (if v2 then base64_encode key else key)"

definition listable :: "'w env \<Rightarrow> dbview \<Rightarrow> Iam \<Rightarrow> string \<Rightarrow> Bucket \<Rightarrow> bool" where
  "listable E V iam bname b \<longleftrightarrow> ids_ok V \<and> (\<exists>acc. V S3Iams (iam_AccountObjID iam) = Some (DAccount acc)
     \<and> ac_State acc = S3StateActive \<and> matching V S3Buckets (q_bcookie (account_BCookie E acc bname)) = {DBucket b})"

definition objects_of :: "dbview \<Rightarrow> (string \<Rightarrow> bool) \<Rightarrow> Bucket \<Rightarrow> Object set" where
  "objects_of V f b = {x. DObject x \<in> matching V S3Objects (q_listed f b)}"

lemma wp_FindBucket_known:
  assumes E: "mongo_ok E view" "no_faults E view" and "listable E (view w) iam bname b"
    and Q: "\<And>w'. view w' = view w \<Longrightarrow> Q (Ok b) w'"
  shows "wp (FindBucket E (Some iam) bname) Q w"
proof -
  obtain acc where ids: "ids_ok (view w)" and a: "view w S3Iams (iam_AccountObjID iam) = Some (DAccount acc)" "ac_State acc = S3StateActive"
    and m: "matching (view w) S3Buckets (q_bcookie (account_BCookie E acc bname)) = {DBucket b}"
    using assms(3) by (auto simp: listable_def)
  show ?thesis unfolding FindBucket_def wp_gbind
  proof (rule wp_s3AccountLookup [OF E ids a], simp only: on_ok_simps wp_gbind, rule wp_FindOne [OF E(1)], goal_cases)
    case (1 w1 i d w2)
    then have "d = DBucket b" using m matchingI [of "view w" S3Buckets i d] by auto
    then show ?case using 1 Q by (simp add: wp_simps)
  qed (use m E in auto)
qed

lemma strict_unique:
  assumes "sorted_wrt (<) (map o_Key xs)" and "sorted_wrt (<) (map o_Key ys)" and "set xs = set ys"
  shows "xs = ys"
  using assms map_sorted_distinct_set_unique [of o_Key xs ys]
  by (simp add: strict_sorted_iff distinct_map)

lemma listed_docs:
  assumes "set ds = matching V S3Objects (q_listed f b)"
  shows "set (map as_Object ds) = objects_of V f b" and "inj_on as_Object (set ds)"
proof -
  have docs: "\<forall>d \<in> set ds. \<exists>x. d = DObject x"
    unfolding assms by (auto simp: matching_def q_listed_def split: doc.splits)
  then show "set (map as_Object ds) = objects_of V f b"
    unfolding objects_of_def assms [symmetric] by force
  show "inj_on as_Object (set ds)"
  proof (rule inj_onI)
    fix d d' assume "d \<in> set ds" "d' \<in> set ds" "as_Object d = as_Object d'"
    moreover obtain x y where "d = DObject x" "d' = DObject y" using calculation docs by blast
    ultimately show "d = d'" by simp
  qed
qed

lemma listed_heads:
  assumes "set ds = matching V S3Objects (q_listed f b)" and "distinct ds" and "sorted (map (listing_order True) ds)"
    and "one_version (objects_of V f b)"
  shows "sorted_wrt (<) (map o_Key (heads [] (map as_Object ds)))"
    and "x \<in> set (heads [] (map as_Object ds)) \<longleftrightarrow> newest (objects_of V f b) x \<and> o_Key x \<noteq> []"
proof -
  note set = listed_docs(1) [OF assms(1)]
  have "distinct (map as_Object ds)" using assms(2) listed_docs(2) [OF assms(1)] by (simp add: distinct_map)
  with assms(4) ordered_listing [OF assms(3)] set
  show "sorted_wrt (<) (map o_Key (heads [] (map as_Object ds)))"
    and "x \<in> set (heads [] (map as_Object ds)) \<longleftrightarrow> newest (objects_of V f b) x \<and> o_Key x \<noteq> []"
    by (auto simp: heads_strict heads_newest)
qed

lemma base64_decode_Nil [simp]: "base64_decode [] = []"
  by (simp add: base64_decode_def)

lemma base64_encode_Nil [simp]: "base64_encode s = [] \<longleftrightarrow> s = []"
  by (cases s rule: EncodeToString.cases) (simp_all add: base64_encode_def)

lemma Validate_page:
  assumes "0 < n" and "n \<le> S3StorageMaxObjects" and "pfx = [] \<or> MatchString pfx"
    and "token = [] \<and> key = [] \<or> token = token_for v2 key \<and> key \<noteq> [] \<and> (v2 \<longrightarrow> MatchString key)"
  shows "Validate E (page_request v2 pfx n token) = Some ((page_request v2 pfx n token)\<lparr>rp_ContTokenDecoded := key\<rparr>)"
  using assms by (cases v2) (auto simp: Validate_def page_request_def Let_def zero_RP_def cont_decoded_def token_for_def)

definition the_page :: "bool \<Rightarrow> string \<Rightarrow> int \<Rightarrow> string \<Rightarrow> Bucket \<Rightarrow> Object list \<Rightarrow> S3Bucket" where
  "the_page v2 pfx n token b hs =
     page (page_request v2 pfx n token) hs (zero_S3Bucket\<lparr>lb_Name := b_Name b, lb_MaxKeys := n\<rparr>)"

definition resumes :: "bool \<Rightarrow> Object list \<Rightarrow> Object list \<Rightarrow> string \<Rightarrow> bool" where
  "resumes v2 L rest token \<longleftrightarrow> (token = [] \<and> rest = L)
     \<or> (\<exists>us u. L = us @ u # rest \<and> token = token_for v2 (o_Key u) \<and> (v2 \<longrightarrow> MatchString (o_Key u)))"

lemma page_prefixes [simp]: "lb_CommonPrefixes (page params hs l) = lb_CommonPrefixes l"
  by (simp add: page_def Let_def mark_truncated_def)

lemma no_prefixes: "lb_CommonPrefixes l = [] \<Longrightarrow> l\<lparr>lb_CommonPrefixes := []\<rparr> = l"
  by (cases l) simp

lemma page_params_cong:
  "rp_V2 p = rp_V2 p' \<Longrightarrow> rp_ContToken p = rp_ContToken p' \<Longrightarrow> rp_Marker p = rp_Marker p' \<Longrightarrow> page p hs l = page p' hs l"
  by (simp add: page_def Let_def mark_truncated_def)

lemma list_loop_page:
  assumes "heads [] xs = L" and "sorted_wrt (<) (map o_Key L)" and "resumes v2 L rest token"
    and "\<forall>x \<in> set L. o_Key x \<noteq> []" and "key = (if v2 then base64_decode token else token)"
    and "0 < n" and "n \<le> S3StorageMaxObjects"
  shows "\<exists>st. list_loop ((page_request v2 pfx n token)\<lparr>rp_ContTokenDecoded := key\<rparr>) ctx xs
      \<lparr>ls_pkey = [], ls_start = False, ls_cont = key \<noteq> [], ls_pfx = [],
       ls_list = zero_S3Bucket\<lparr>lb_Name := b_Name b, lb_MaxKeys := n\<rparr>\<rparr> = Some st
    \<and> ls_list st = the_page v2 pfx n token b rest \<and> ls_pfx st = []"
proof -
  let ?p = "(page_request v2 pfx n token)\<lparr>rp_ContTokenDecoded := key\<rparr>"
  let ?l = "zero_S3Bucket\<lparr>lb_Name := b_Name b, lb_MaxKeys := n\<rparr>"
  let ?st = "\<lparr>ls_pkey = [], ls_start = False, ls_cont = key \<noteq> [], ls_pfx = [], ls_list = ?l\<rparr>"
  have pl: "plain_params ?p" by (simp add: plain_params_def page_request_def Let_def zero_RP_def)
  have cnt: "counting ?l" using assms(6,7) by (simp add: counting_def zero_S3Bucket_def S3StorageMaxObjects_def int64_bounds)
  have pg: "page ?p rest ?l = the_page v2 pfx n token b rest" unfolding the_page_def by (rule page_params_cong) simp_all
  from assms(3) show ?thesis unfolding resumes_def
  proof (elim disjE conjE exE)
    assume "token = []" "rest = L"
    then have "key = []" using assms(5) by (simp add: base64_decode_def)
    then show ?thesis using loop_entries [OF pl, of ?st ctx xs] cnt pg assms(1) \<open>rest = L\<close> by simp
  next
    fix us u assume L: "L = us @ u # rest" and tok: "token = token_for v2 (o_Key u)"
    have key: "key = o_Key u" using assms(5) tok by (simp add: token_for_def)
    have "key \<noteq> []" using key L assms(4) by simp
    moreover have "key \<notin> o_Key ` set us" using assms(2) key unfolding L by (auto simp: sorted_wrt_append)
    ultimately have "\<exists>xs'. heads key xs' = rest
        \<and> list_loop ?p ctx xs ?st = list_loop ?p ctx xs' (?st\<lparr>ls_pkey := key, ls_cont := False\<rparr>)"
      by (intro loop_resumes [where us = us and u = u]) (simp_all add: assms(1) L key)
    then obtain xs' where "heads key xs' = rest"
      and "list_loop ?p ctx xs ?st = list_loop ?p ctx xs' (?st\<lparr>ls_pkey := key, ls_cont := False\<rparr>)" by blast
    then show ?thesis using loop_entries [OF pl, of "?st\<lparr>ls_pkey := key, ls_cont := False\<rparr>" ctx xs'] cnt pg by simp
  qed
qed

definition whole_listing :: "dbview \<Rightarrow> (string \<Rightarrow> bool) \<Rightarrow> Bucket \<Rightarrow> Object list \<Rightarrow> bool" where
  "whole_listing V f b L \<longleftrightarrow> one_version (objects_of V f b) \<and> (\<forall>x \<in> objects_of V f b. o_Key x \<noteq> [])
     \<and> sorted_wrt (<) (map o_Key L) \<and> set L = {x. newest (objects_of V f b) x}"

lemma wp_list_page:
  assumes E: "mongo_ok E view" "no_faults E view" and b: "listable E (view w) iam bname b"
    and f: "prefix_pred rx pfx = Some f" and L: "whole_listing (view w) f b L" and res: "resumes v2 L rest token"
    and n: "0 < n" "n \<le> S3StorageMaxObjects" and pfx: "pfx = [] \<or> MatchString pfx"
    and Q: "\<And>w'. view w' = view w \<Longrightarrow> Q (Ok (the_page v2 pfx n token b rest)) w'"
  shows "wp (s3ListBucket E rx True (Some iam) bname (page_request v2 pfx n token)) Q w"
proof -
  define key where "key = (if v2 then base64_decode token else token)"
  have ne: "\<forall>x \<in> set L. o_Key x \<noteq> []" using L by (auto simp: whole_listing_def newest_def)
  have "token = [] \<and> key = [] \<or> token = token_for v2 key \<and> key \<noteq> [] \<and> (v2 \<longrightarrow> MatchString key)"
    using res ne by (auto simp: resumes_def key_def token_for_def)
  note val = Validate_page [OF n pfx this]
  let ?p = "(page_request v2 pfx n token)\<lparr>rp_ContTokenDecoded := key\<rparr>"
  have fields: "rp_Prefix ?p = pfx" "rp_ContTokenDecoded ?p = key" "rp_StartAfter ?p = []" "rp_MaxKeys ?p = n"
    by (simp_all add: page_request_def Let_def zero_RP_def)
  have objs: "wp (list_objects E rx True (Some iam) ?p b) Q w1" if v: "view w1 = view w" for w1
    unfolding list_objects_def fields f option.map dbS3Pipe_def option.case dbS3FindAllSorted_def [symmetric] wp_gtry
  proof (rule wp_FindAllSorted [OF E(1)], goal_cases)
    case (1 ds w2)
    have "heads [] (map as_Object ds) = L"
      by (rule strict_unique) (use listed_heads [OF 1(1-3)] L v in \<open>auto simp: whole_listing_def newest_def\<close>)
    from list_loop_page [OF this _ res ne key_def n] L
    obtain st where "list_loop ?p (Some iam) (map as_Object ds)
        \<lparr>ls_pkey = [], ls_start = False, ls_cont = key \<noteq> [], ls_pfx = [],
         ls_list = zero_S3Bucket\<lparr>lb_Name := b_Name b, lb_MaxKeys := n\<rparr>\<rparr> = Some st"
      and st: "ls_list st = the_page v2 pfx n token b rest" "ls_pfx st = []"
      unfolding whole_listing_def by blast
    then show ?case using Q [of w2] 1(4) v by (simp add: wp_simps the_page_def zero_S3Bucket_def no_prefixes)
  qed (use E in simp)
  show ?thesis unfolding s3ListBucket_def val option.case wp_gtry
    by (rule wp_FindBucket_known [OF E b]) (simp add: objs)
qed

lemma the_page_truncated:
  assumes "nat n \<le> length rest" and "0 < n"
  shows "lb_IsTruncated (the_page v2 pfx n token b rest)"
    and "lb_Contents (the_page v2 pfx n token b rest) = map (entry ([], [])) (take (nat n) rest)"
    and "next_token v2 (the_page v2 pfx n token b rest) = token_for v2 (o_Key (rest ! (nat n - 1)))"
  using assms by (simp_all add: the_page_def page_def Let_def mark_truncated_def zero_S3Bucket_def next_token_def token_for_def page_request_def zero_RP_def)

lemma the_page_last:
  assumes "\<not> nat n \<le> length rest" and "0 < n"
  shows "\<not> lb_IsTruncated (the_page v2 pfx n token b rest)"
    and "lb_Contents (the_page v2 pfx n token b rest) = map (entry ([], [])) rest"
  using assms by (simp_all add: the_page_def page_def Let_def zero_S3Bucket_def)

lemma resumes_drop:
  assumes "resumes v2 L rest token" and "0 < m" and "m \<le> length rest" and "\<forall>x \<in> set L. v2 \<longrightarrow> MatchString (o_Key x)"
  shows "resumes v2 L (drop m rest) (token_for v2 (o_Key (rest ! (m - 1))))"
proof -
  obtain us where L: "L = us @ rest" using assms(1) by (auto simp: resumes_def)
  have "rest = take (m - 1) rest @ rest ! (m - 1) # drop m rest"
    using id_take_nth_drop [of "m - 1" rest] assms(2,3) by simp
  then have "L = (us @ take (m - 1) rest) @ rest ! (m - 1) # drop m rest" using L by simp
  moreover have "rest ! (m - 1) \<in> set L" using L assms(2,3) by simp
  ultimately show ?thesis using assms(4) unfolding resumes_def by blast
qed

lemma wp_all_pages:
  assumes E: "mongo_ok E view" "no_faults E view" and f: "prefix_pred rx pfx = Some f"
    and n: "0 < n" "n \<le> S3StorageMaxObjects" and pfx: "pfx = [] \<or> MatchString pfx"
    and names: "\<forall>x \<in> set L. v2 \<longrightarrow> MatchString (o_Key x)"
  shows "length rest < k \<Longrightarrow> listable E (view w) iam bname b \<Longrightarrow> whole_listing (view w) f b L \<Longrightarrow> resumes v2 L rest token \<Longrightarrow>
    wp (all_pages E rx (Some iam) bname v2 pfx n k token) (\<lambda>r w'. r = Ok (map (entry ([], [])) rest) \<and> view w' = view w) w"
proof (induction k arbitrary: rest token w)
  case (Suc k)
  show ?case unfolding all_pages.simps wp_gbind
  proof (rule wp_list_page [OF E Suc.prems(2) f Suc.prems(3,4) n pfx], goal_cases)
    case (1 w1)
    show ?case
    proof (cases "nat n \<le> length rest")
      case True
      note pg = the_page_truncated [OF True n(1)]
      have "wp (all_pages E rx (Some iam) bname v2 pfx n k (token_for v2 (o_Key (rest ! (nat n - 1)))))
          (\<lambda>r w'. r = Ok (map (entry ([], [])) (drop (nat n) rest)) \<and> view w' = view w1) w1"
        by (rule Suc.IH) (use Suc.prems n True 1 resumes_drop [OF Suc.prems(4) _ True names] in auto)
      then show ?thesis unfolding on_ok_simps if_P [OF pg(1)] pg(2,3) wp_gbind
        by (rule wp_mono) (auto simp: wp_simps 1 map_append [symmetric] simp del: map_append)
    next
      case False
      then show ?thesis using 1 the_page_last [OF False n(1)] by (simp add: wp_simps)
    qed
  qed
qed simp

lemma whole_listing_exists:
  assumes E: "mongo_ok E view" "no_faults E view"
    and "one_version (objects_of (view w) f b)" and "\<forall>x \<in> objects_of (view w) f b. o_Key x \<noteq> []"
  obtains L where "whole_listing (view w) f b L"
  using E(1)
proof (cases rule: dbS3FindAllSorted_cases [where c = S3Objects and q = "q_listed f b" and ord = "listing_order True" and w = w])
  case (ok ds w')
  have "x \<in> set (heads [] (map as_Object ds)) \<longleftrightarrow> newest (objects_of (view w) f b) x" for x
    using listed_heads(2) [OF ok(2-4) assms(3)] assms(4) by (auto simp: newest_def)
  then show ?thesis
    using listed_heads(1) [OF ok(2-4) assms(3)] assms(3,4) by (intro that) (auto simp: whole_listing_def)
qed (use E in auto)


section \<open>Grouping by a delimiter\<close>

lemma loop_groups:
  assumes "\<not> rp_FetchOwner params"
  shows "\<not> ls_start st \<Longrightarrow> \<not> ls_cont st \<Longrightarrow> 0 \<le> lb_KeyCount (ls_list st) \<Longrightarrow> lb_MaxKeys (ls_list st) \<le> MaxInt64 \<Longrightarrow>
    \<forall>x \<in> set (heads (ls_pkey st) xs). group_key params (o_Key x) \<noteq> GPanic \<Longrightarrow>
    hs = filter (\<lambda>x. group_key params (o_Key x) = GEntry) (heads (ls_pkey st) xs) \<Longrightarrow>
    lb_KeyCount (ls_list st) + int (length hs) < lb_MaxKeys (ls_list st) \<Longrightarrow> distinct (ls_pfx st) \<Longrightarrow>
    \<exists>st'. list_loop params ctx xs st = Some st' \<and> distinct (ls_pfx st')
      \<and> ls_list st' = (ls_list st)\<lparr>lb_Contents := lb_Contents (ls_list st) @ map (entry ([], [])) hs,
                                  lb_KeyCount := lb_KeyCount (ls_list st) + int (length hs)\<rparr>
      \<and> set (ls_pfx st') = set (ls_pfx st) \<union> {q. \<exists>x \<in> set (heads (ls_pkey st) xs). group_key params (o_Key x) = GPrefix q}"
proof (induction xs arbitrary: st hs)
  case (Cons x xs)
  let ?l = "ls_list st"
  show ?case
  proof (cases "o_Key x = ls_pkey st")
    case True
    then show ?thesis using Cons.IH [OF Cons.prems(1-4) _ _ Cons.prems(7,8)] Cons.prems(5,6) by simp
  next
    case new: False
    show ?thesis
    proof (cases "group_key params (o_Key x)")
      case GPanic
      then show ?thesis using Cons.prems(5) new by simp
    next
      case GSkip
      then show ?thesis using Cons.IH [of "st\<lparr>ls_pkey := o_Key x\<rparr>" hs] Cons.prems new by (auto simp: Let_def)
    next
      case (GPrefix p)
      then show ?thesis
        using Cons.IH [of "st\<lparr>ls_pkey := o_Key x, ls_pfx := List.insert p (ls_pfx st)\<rparr>" hs] Cons.prems new
        by (fastforce simp: Let_def)
    next
      case GEntry
      define hs' where "hs' = tl hs"
      have hs: "hs = x # hs'" "hs' = filter (\<lambda>x. group_key params (o_Key x) = GEntry) (heads (o_Key x) xs)"
        using Cons.prems(6) new GEntry by (simp_all add: hs'_def)
      have cnt: "int64_of (lb_KeyCount ?l + 1) = lb_KeyCount ?l + 1"
        using Cons.prems(3,4,7) hs by (intro int64_of_id) (auto simp: int64_bounds)
      let ?st = "st\<lparr>ls_pkey := o_Key x, ls_list := add_entry params x ([], []) ?l\<rparr>"
      have "\<exists>st'. list_loop params ctx xs ?st = Some st' \<and> distinct (ls_pfx st')
          \<and> ls_list st' = (ls_list ?st)\<lparr>lb_Contents := lb_Contents (ls_list ?st) @ map (entry ([], [])) hs',
                                  lb_KeyCount := lb_KeyCount (ls_list ?st) + int (length hs')\<rparr>
          \<and> set (ls_pfx st') = set (ls_pfx ?st) \<union> {q. \<exists>x \<in> set (heads (ls_pkey ?st) xs). group_key params (o_Key x) = GPrefix q}"
        by (rule Cons.IH) (use Cons.prems hs new cnt in \<open>auto simp: add_entry_def\<close>)
      moreover have "\<not> lb_MaxKeys ?l \<le> lb_KeyCount ?l + 1" using Cons.prems(7) hs by simp
      ultimately show ?thesis using assms Cons.prems(1,2) new GEntry hs cnt by (auto simp: Let_def add_entry_def add.assoc)
    qed
  qed
qed simp

lemma Index_char: "Index s [c] = (if c \<in> set s then Some (length (takeWhile (\<lambda>a. a \<noteq> c) s)) else None)"
  by (induction s) (auto simp: HasPrefix_def)

text \<open>With a literal prefix every listed key starts with it; the rest of the key decides.\<close>

lemma group_key_char:
  assumes "rp_Delimiter params = [c]" and "key = rp_Prefix params @ rest"
  shows "group_key params key =
    (if c \<notin> set rest then GEntry else if hd rest = c then GSkip
     else GPrefix (rp_Prefix params @ takeWhile (\<lambda>a. a \<noteq> c) rest @ [c]))"
proof (cases "c \<in> set rest")
  case True
  then obtain u v where rest: "rest = u @ c # v" "c \<notin> set u" by (meson split_list_first)
  then have u: "takeWhile (\<lambda>a. a \<noteq> c) (u @ c # v) = u" by (auto simp: takeWhile_append)
  have "length u = 0 \<longleftrightarrow> hd rest = c" using rest by (cases u) auto
  then show ?thesis using True assms(1) rest(1) unfolding assms(2) by (simp add: group_key_def Index_char u)
qed (use assms in \<open>simp add: group_key_def Index_char\<close>)

definition delim_request :: "string \<Rightarrow> char \<Rightarrow> int \<Rightarrow> S3ListObjectsRP" where
  "delim_request pfx c n = zero_RP\<lparr>rp_Prefix := pfx, rp_Delimiter := [c], rp_MaxKeys := n\<rparr>"

text \<open>The listing of the objects \<open>S\<close>, folded at the delimiter \<open>c\<close> after the prefix.\<close>

definition folded :: "char \<Rightarrow> string \<Rightarrow> Object set \<Rightarrow> S3Bucket \<Rightarrow> bool" where
  "folded c pfx S l \<longleftrightarrow> sorted_wrt (<) (map so_Key (lb_Contents l)) \<and> sorted_wrt (<) (lb_CommonPrefixes l)
     \<and> set (lb_Contents l) = entry ([], []) ` {x \<in> S. c \<notin> set (drop (length pfx) (o_Key x))}
     \<and> set (lb_CommonPrefixes l) = {pfx @ u @ [c] |u v x. x \<in> S \<and> o_Key x = pfx @ u @ c # v \<and> u \<noteq> [] \<and> c \<notin> set u}"

lemma group_prefix_iff:
  assumes "rp_Delimiter params = [c]" and "HasPrefix key (rp_Prefix params)"
  shows "group_key params key \<noteq> GPanic"
    and "group_key params key = GEntry \<longleftrightarrow> c \<notin> set (drop (length (rp_Prefix params)) key)"
    and "group_key params key = GPrefix q \<longleftrightarrow>
      (\<exists>u v. key = rp_Prefix params @ u @ c # v \<and> u \<noteq> [] \<and> c \<notin> set u \<and> q = rp_Prefix params @ u @ [c])"
proof -
  let ?pfx = "rp_Prefix params"
  obtain rest where key: "key = ?pfx @ rest" using assms(2) by (auto simp: HasPrefix_def) (metis append_take_drop_id)
  note g = group_key_char [OF assms(1) key]
  then show "group_key params key \<noteq> GPanic" "group_key params key = GEntry \<longleftrightarrow> c \<notin> set (drop (length ?pfx) key)"
    by (simp_all add: key)
  have "(c \<in> set rest \<and> hd rest \<noteq> c \<and> q = ?pfx @ takeWhile (\<lambda>a. a \<noteq> c) rest @ [c])
      \<longleftrightarrow> (\<exists>u v. rest = u @ c # v \<and> u \<noteq> [] \<and> c \<notin> set u \<and> q = ?pfx @ u @ [c])" (is "?A \<longleftrightarrow> ?B")
  proof
    assume ?A
    then obtain u v where "rest = u @ c # v" "c \<notin> set u" by (meson split_list_first)
    with \<open>?A\<close> show ?B by (cases u) (auto simp: takeWhile_append)
  next
    assume ?B
    then show ?A by (auto simp: takeWhile_append hd_append)
  qed
  then show "group_key params key = GPrefix q \<longleftrightarrow>
      (\<exists>u v. key = ?pfx @ u @ c # v \<and> u \<noteq> [] \<and> c \<notin> set u \<and> q = ?pfx @ u @ [c])" using g by (auto simp: key)
qed

lemma list_loop_folds:
  assumes srt: "sorted_wrt (<) (map o_Key (heads [] xs))" and pre: "\<forall>x \<in> set (heads [] xs). HasPrefix (o_Key x) pfx"
    and few: "length (heads [] xs) < nat n" and n: "n \<le> S3StorageMaxObjects"
  shows "\<exists>st. list_loop (delim_request pfx c n) ctx xs \<lparr>ls_pkey = [], ls_start = False, ls_cont = False, ls_pfx = [],
        ls_list = zero_S3Bucket\<lparr>lb_Name := b_Name b, lb_MaxKeys := n\<rparr>\<rparr> = Some st
    \<and> \<not> lb_IsTruncated (ls_list st) \<and> folded c pfx (set (heads [] xs)) ((ls_list st)\<lparr>lb_CommonPrefixes := sort (ls_pfx st)\<rparr>)"
proof -
  let ?p = "delim_request pfx c n" and ?l = "zero_S3Bucket\<lparr>lb_Name := b_Name b, lb_MaxKeys := n\<rparr>"
  let ?st = "\<lparr>ls_pkey = [], ls_start = False, ls_cont = False, ls_pfx = [], ls_list = ?l\<rparr>"
  have p: "rp_Prefix ?p = pfx" "rp_Delimiter ?p = [c]" "\<not> rp_FetchOwner ?p" by (simp_all add: delim_request_def zero_RP_def)
  note g = group_prefix_iff [OF p(2), unfolded p(1)]
  define hs where "hs = filter (\<lambda>x. group_key ?p (o_Key x) = GEntry) (heads [] xs)"
  have "int (length hs) < n"
    unfolding hs_def using few length_filter_le [of "\<lambda>x. group_key ?p (o_Key x) = GEntry" "heads [] xs"] by linarith
  then obtain st where st: "list_loop ?p ctx xs ?st = Some st" "distinct (ls_pfx st)"
      "ls_list st = ?l\<lparr>lb_Contents := map (entry ([], [])) hs, lb_KeyCount := int (length hs)\<rparr>"
      "set (ls_pfx st) = {q. \<exists>x \<in> set (heads [] xs). group_key ?p (o_Key x) = GPrefix q}"
    using loop_groups [OF p(3), of ?st xs hs ctx] g(1) pre n hs_def
    by (auto simp: zero_S3Bucket_def S3StorageMaxObjects_def int64_bounds)
  have "sorted_wrt (<) (map so_Key (map (entry ([], [])) hs))" using srt by (simp add: hs_def sorted_wrt_map sorted_wrt_filter entry_def)
  moreover have "set hs = {x \<in> set (heads [] xs). c \<notin> set (drop (length pfx) (o_Key x))}" using g(2) pre by (auto simp: hs_def)
  moreover have "set (ls_pfx st) = {pfx @ u @ [c] |u v x. x \<in> set (heads [] xs) \<and> o_Key x = pfx @ u @ c # v \<and> u \<noteq> [] \<and> c \<notin> set u}"
    unfolding st(4) using g(3) pre by blast
  moreover have "sorted_wrt (<) (sort (ls_pfx st))" using st(2) by (simp add: strict_sorted_iff)
  ultimately show ?thesis using st(1,3) by (simp add: folded_def zero_S3Bucket_def)
qed


section \<open>A prefix that is a pattern\<close>

text \<open>The prefix is sent to the server as a pattern but its length is used to cut the keys: if the pattern
  selects keys shorter than itself, such as \<open>.*\<close> does, a listing with a delimiter panics.\<close>

theorem list_pattern_panics:
  assumes "mongo_ok E view" and "no_faults E view" and "listable E (view w) iam bname b"
    and "prefix_pred rx pfx = Some f" and "one_version (objects_of (view w) f b)" and "0 < n" and "n \<le> S3StorageMaxObjects"
    and "MatchString pfx" and "S3ObjectName_Letter c"
    and "\<exists>x. newest (objects_of (view w) f b) x"
    and "\<forall>x \<in> objects_of (view w) f b. o_Key x \<noteq> [] \<and> length (o_Key x) < length pfx"
  shows "fst (s3ListBucket E rx True (Some iam) bname (delim_request pfx c n) w) = Panic"
proof -
  note E = assms(1,2)
  let ?X = "objects_of (view w) f b" and ?p = "delim_request pfx c n"
  have val: "Validate E ?p = Some ?p"
    using assms(6-9) by (auto simp: Validate_def delim_request_def zero_RP_def cont_decoded_def MatchString_def)
  have fields: "rp_Prefix ?p = pfx" "rp_ContTokenDecoded ?p = []" "rp_StartAfter ?p = []" "rp_MaxKeys ?p = n" "rp_Delimiter ?p = [c]"
    by (simp_all add: delim_request_def zero_RP_def)
  have objs: "wp (list_objects E rx True (Some iam) ?p b) (\<lambda>r w'. r = Panic) w1" if v: "view w1 = view w" for w1
    unfolding list_objects_def fields(1-4) assms(4) option.map dbS3Pipe_def option.case dbS3FindAllSorted_def [symmetric] wp_gtry
  proof (rule wp_FindAllSorted [OF E(1)], goal_cases)
    case (1 ds w2)
    have set: "set (heads [] (map as_Object ds)) = {x. newest ?X x}"
      using listed_heads [OF 1(1-3)] assms(5,11) v by (auto simp: newest_def)
    obtain x xs where ds: "map as_Object ds = x # xs" using set assms(10) by (cases ds) auto
    have "set (map as_Object ds) = ?X" using listed_docs(1) [OF 1(1)] v by simp
    then have "o_Key x \<noteq> []" "length (o_Key x) < length pfx" using assms(11) unfolding ds by auto
    then show ?case by (simp add: ds wp_simps group_key_def fields Let_def)
  qed (use E in simp)
  have "wp (s3ListBucket E rx True (Some iam) bname ?p) (\<lambda>r w'. r = Panic) w"
    unfolding s3ListBucket_def val option.case wp_gtry
    by (rule wp_FindBucket_known [OF E assms(3)]) (simp add: objs)
  then show ?thesis unfolding wp_def by (auto split: prod.splits)
qed

section \<open>A bucket with a folder\<close>

definition album_object :: "string \<Rightarrow> string \<Rightarrow> int \<Rightarrow> Object" where
  "album_object i key rover = zero_Object\<lparr>o_ObjID := i, o_State := 1, o_BucketObjID := ''b1'', o_Rover := rover,
     o_Props := zero_ObjectProps\<lparr>op_Key := key\<rparr>\<rparr>"

definition album :: mem where
  "album = mem_of [DAccount shop_account, DBucket demo_bucket, DObject (album_object ''o3'' ''d/y'' 3),
     DObject (album_object ''o1'' ''a'' 1), DObject (album_object ''o2'' ''a'' 2)]"

definition no_regex :: "string \<Rightarrow> (string \<Rightarrow> bool) option" where
  "no_regex p = None"

lemma album_view: "mview album c i =
    (if c = S3Iams \<and> i = ''a1'' then Some (DAccount shop_account) else if c = S3Buckets \<and> i = ''b1'' then Some (DBucket demo_bucket)
     else if c = S3Objects \<and> i = ''o3'' then Some (DObject (album_object i ''d/y'' 3))
     else if c = S3Objects \<and> i = ''o1'' then Some (DObject (album_object i ''a'' 1))
     else if c = S3Objects \<and> i = ''o2'' then Some (DObject (album_object i ''a'' 2)) else None)"
  by (simp add: album_def mview_mem_of shop_account_def demo_bucket_def album_object_def)

lemma album_docs: "mview album S3Objects i = Some d \<longleftrightarrow> (i = ''o3'' \<and> d = DObject (album_object i ''d/y'' 3))
    \<or> (i = ''o1'' \<and> d = DObject (album_object i ''a'' 1)) \<or> (i = ''o2'' \<and> d = DObject (album_object i ''a'' 2))"
  by (simp add: album_view eq_commute [of d])

lemma album_objects: "objects_of (mview album) (\<lambda>_. True) demo_bucket
    = {album_object ''o1'' ''a'' 1, album_object ''o2'' ''a'' 2, album_object ''o3'' ''d/y'' 3}"
proof -
  have "q_listed (\<lambda>_. True) demo_bucket (DObject (album_object i k r))" for i k r
    by (simp add: q_listed_def album_object_def demo_bucket_def state_defs)
  then show ?thesis unfolding objects_of_def matching_def album_docs by blast
qed

lemma album_facts:
  "listable mem_env (mview album) shop_iam ''c'' demo_bucket"
  "one_version (objects_of (mview album) (\<lambda>_. True) demo_bucket)"
  "\<forall>x \<in> objects_of (mview album) (\<lambda>_. True) demo_bucket. o_Key x \<noteq> [] \<and> MatchString (o_Key x)"
  "{x. newest (objects_of (mview album) (\<lambda>_. True) demo_bucket) x} = {album_object ''o2'' ''a'' 2, album_object ''o3'' ''d/y'' 3}"
proof -
  have "matching (mview album) S3Buckets (q_bcookie ''bc'') = {DBucket demo_bucket}"
    by (auto simp: matching_def album_view q_bcookie_def demo_bucket_def state_defs split: if_splits)
  moreover have "account_BCookie mem_env shop_account ''c'' = ''bc''"
    by (simp add: account_BCookie_def BCookie_def mem_env_def shop_account_def)
  moreover have "mview album S3Iams (iam_AccountObjID shop_iam) = Some (DAccount shop_account)" "ac_State shop_account = S3StateActive"
    by (simp_all add: album_view shop_iam_def shop_account_def state_defs)
  moreover have "ids_ok (mview album)" by (simp add: album_def)
  ultimately show "listable mem_env (mview album) shop_iam ''c'' demo_bucket" by (simp add: listable_def)
  have key: "o_Key (album_object i k r) = k" "o_Rover (album_object i k r) = r" for i k r by (simp_all add: album_object_def)
  show "one_version (objects_of (mview album) (\<lambda>_. True) demo_bucket)"
    unfolding album_objects one_version_def inj_on_def by (simp add: key)
  show "\<forall>x \<in> objects_of (mview album) (\<lambda>_. True) demo_bucket. o_Key x \<noteq> [] \<and> MatchString (o_Key x)"
    by (simp add: album_objects key MatchString_def S3ObjectName_Letter_def less_eq_char_def)
  have new: "newest {x, y, z} a \<longleftrightarrow> a = y \<or> a = z"
    if "o_Key x = o_Key y" "o_Rover x < o_Rover y" "o_Key z \<noteq> o_Key y" for x y z a
    using that by (auto simp: newest_def)
  show "{x. newest (objects_of (mview album) (\<lambda>_. True) demo_bucket) x} = {album_object ''o2'' ''a'' 2, album_object ''o3'' ''d/y'' 3}"
    unfolding album_objects by (subst new) (simp_all only: key, auto)
qed



end
