(* ===== verification/S3_Sign.thy ===== *)
theory S3_Sign
  imports S3_Keys
begin

text \<open>
  Who sent a request: the signatures of \<open>src/s3/sign.go\<close>, the administrator's token of \<open>src/s3/s3.go\<close> and
  \<open>s3Authorize\<close> of \<open>src/s3/main.go\<close>. SHA-256 and HMAC are parameters of the environment. The body of
  a request to a server is never nil, so only its text or its failure to be read is represented.
\<close>

section \<open>The pieces of a signature\<close>

definition AWSAuthV2HeaderPrefix :: string where "AWSAuthV2HeaderPrefix = ''AWS''"
definition AWSAuthV4HeaderPrefix :: string where "AWSAuthV4HeaderPrefix = ''AWS4-HMAC-SHA256''"
definition AWSUnsignedPayload :: string where "AWSUnsignedPayload = ''UNSIGNED-PAYLOAD''"
definition AWS4ServiceS3 :: string where "AWS4ServiceS3 = ''s3''"
definition AWS4ServiceCW :: string where "AWS4ServiceCW = ''monitoring''"
definition AWS4Request :: string where "AWS4Request = ''aws4_request''"
definition newline :: string where "newline = [CHR 0x0A]"

record AuthContext =
  ax_AccessKey :: string
  ax_ShortTimeStamp :: string
  ax_Region :: string
  ax_Service :: string
  ax_SignedHeaders :: "string list"
  ax_Signature :: string

definition zero_AuthContext :: AuthContext where
  "zero_AuthContext = \<lparr>ax_AccessKey = [], ax_ShortTimeStamp = [], ax_Region = [], ax_Service = [], ax_SignedHeaders = [], ax_Signature = []\<rparr>"

definition parse_credential :: "string \<Rightarrow> string \<Rightarrow> AuthContext \<Rightarrow> string + AuthContext" where
  "parse_credential e v actx = (case Split v (CHR ''/'') of
     a # t # r # s # q # _ \<Rightarrow>
       if (s \<noteq> AWS4ServiceS3 \<and> s \<noteq> AWS4ServiceCW) \<or> q \<noteq> AWS4Request then Inl (''s3: Wrong request type '' @ e @ '' in header'')
       else Inr (actx\<lparr>ax_AccessKey := a, ax_ShortTimeStamp := t, ax_Region := r, ax_Service := s\<rparr>)
   | _ \<Rightarrow> Inl (''s3: Wrong credential '' @ e @ '' in header''))"

text \<open>One element of the header; the flag says that the prefix was seen.\<close>

definition parse_elem :: "string \<Rightarrow> AuthContext \<times> bool \<Rightarrow> string + (AuthContext \<times> bool)" where
  "parse_elem e = (\<lambda>(actx, pfx). case Index e ''='' of
     None \<Rightarrow> if e = AWSAuthV4HeaderPrefix then Inr (actx, True) else Inl (''s3: Unknown value '' @ [CHR 0x27] @ e @ [CHR 0x27] @ '' in header'')
   | Some pos \<Rightarrow>
       (let k = take pos e; v = drop (Suc pos) e in
        if k = ''Credential'' then (case parse_credential e v actx of Inl m \<Rightarrow> Inl m | Inr actx \<Rightarrow> Inr (actx, pfx))
        else if k = ''SignedHeaders'' then
          (let hs = Split v (CHR '';'') in if length hs < 1 then Inl (''s3: Wrong signed header '' @ e @ '' in header'')
           else Inr (actx\<lparr>ax_SignedHeaders := sort hs\<rparr>, pfx))
        else if k = ''Signature'' then Inr (actx\<lparr>ax_Signature := v\<rparr>, pfx)
        else Inr (actx, pfx)))"

fun parse_elems :: "string list \<Rightarrow> AuthContext \<times> bool \<Rightarrow> string + (AuthContext \<times> bool)" where
  "parse_elems [] st = Inr st"
| "parse_elems (e # es) st = (case parse_elem e st of Inl m \<Rightarrow> Inl m | Inr st \<Rightarrow> parse_elems es st)"

definition ParseV4Authorization :: "string \<Rightarrow> string + AuthContext" where
  "ParseV4Authorization hdr =
     (let elems = Split (Join (Fields (ReplaceAll hdr (CHR '','') '' '')) '' '') (CHR '' '') in
      if length elems < 3 then Inl ''s3: Not enough fields in 'Authorization' header''
      else case parse_elems elems (zero_AuthContext, False) of
        Inl m \<Rightarrow> Inl m
      | Inr (actx, pfx) \<Rightarrow>
          if \<not> pfx then Inl (''s3: No '' @ AWSAuthV4HeaderPrefix @ '' prefix detected'')
          else if ax_Signature actx = [] then Inl ''s3: Empty signature decected''
          else if length (ax_SignedHeaders actx) < 1 then Inl ''s3: Empty signed headers decected''
          else if ax_AccessKey actx = [] \<or> ax_ShortTimeStamp actx = [] \<or> ax_Region actx = [] then Inl ''s3: Empty credentials decected''
          else Inr actx)"

definition ParseV2Authorization :: "string \<Rightarrow> (int \<times> string) + AuthContext" where
  "ParseV2Authorization hdr = Inl (S3ErrInvalidRequest,
     ''The authorization mechanism you have provided is not supported. Please use AWS4-HMAC-SHA256.'')"

definition ParseAuthorization :: "string \<Rightarrow> (int \<times> string) + AuthContext" where
  "ParseAuthorization hdr =
     (if HasPrefix hdr (AWSAuthV4HeaderPrefix @ '' '') then
        (case ParseV4Authorization hdr of Inl m \<Rightarrow> Inl (S3ErrAuthorizationHeaderMalformed, m) | Inr actx \<Rightarrow> Inr actx)
      else if HasPrefix hdr (AWSAuthV2HeaderPrefix @ '' '') then ParseV2Authorization hdr
      else Inl (S3ErrAuthorizationHeaderMalformed, ''The authorization header you provided is invalid.''))"

section \<open>What is signed\<close>

text \<open>\<open>url.QueryEscape\<close>.\<close>

definition unreserved :: "char \<Rightarrow> bool" where
  "unreserved c \<longleftrightarrow> (CHR ''a'' \<le> c \<and> c \<le> CHR ''z'') \<or> (CHR ''A'' \<le> c \<and> c \<le> CHR ''Z'') \<or> (CHR ''0'' \<le> c \<and> c \<le> CHR ''9'') \<or> c \<in> set ''-_.~''"

definition upper_hex :: "nat \<Rightarrow> char" where
  "upper_hex n = char_of (if n < 10 then 48 + n else 55 + n)"

definition QueryEscape :: "string \<Rightarrow> string" where
  "QueryEscape s = concat (map (\<lambda>c. if unreserved c then [c] else if c = CHR '' '' then ''+''
     else [CHR ''%'', upper_hex (of_char c div 16), upper_hex (of_char c mod 16)]) s)"

definition queryEncode :: "string \<Rightarrow> string" where
  "queryEncode uri = TrimSpace (ReplaceAll (QueryEscape uri) (CHR ''+'') ''%20'')"

definition genCanonicalHeader :: "request \<Rightarrow> string \<Rightarrow> string" where
  "genCanonicalHeader r key =
     (let name = TrimSpace (ToLower key); value = TrimSpace (HGet r key)
      in if value = [] \<or> name = [] then [] else name @ '':'' @ value)"

definition getHeader :: "request \<Rightarrow> string \<Rightarrow> string" where
  "getHeader r name = TrimSpace (HGet r name)"

definition canonical_query :: "(string \<times> string list) list \<Rightarrow> string" where
  "canonical_query q = Join (map (\<lambda>k. queryEncode k @ ''='' @ (case map_of q k of Some (v # _) \<Rightarrow> queryEncode v | _ \<Rightarrow> [])) (sort (map fst q))) ''&''"

definition BuildBodyDigest :: "'w env \<Rightarrow> request \<Rightarrow> string option" where
  "BuildBodyDigest E r = (if getHeader r ''X-Amz-Content-Sha256'' = AWSUnsignedPayload then Some AWSUnsignedPayload
     else map_option (\<lambda>buf. hex_EncodeToString (sha256 E buf)) (Body r))"

definition BuildCanonicalString :: "AuthContext \<Rightarrow> request \<Rightarrow> string \<Rightarrow> string" where
  "BuildCanonicalString actx r digest = Join
     ([Method r, Path r, canonical_query (Query r)]
      @ map (\<lambda>k. if k = ''host'' then ''host:'' @ TrimSpace (Host r) else genCanonicalHeader r k) (ax_SignedHeaders actx)
      @ [[], Join (ax_SignedHeaders actx) '';'', digest]) newline"

definition BuildSigningKey :: "'w env \<Rightarrow> AuthContext \<Rightarrow> string \<Rightarrow> string" where
  "BuildSigningKey E actx secret =
     (let a = hmac_sha256 E (''AWS4'' @ secret) (ax_ShortTimeStamp actx);
          b = hmac_sha256 E a (ax_Region actx);
          c = hmac_sha256 E b (ax_Service actx)
      in hmac_sha256 E c AWS4Request)"

definition BuildStringToSign :: "'w env \<Rightarrow> AuthContext \<Rightarrow> request \<Rightarrow> string \<Rightarrow> string" where
  "BuildStringToSign E actx r canon = Join
     [AWSAuthV4HeaderPrefix, getHeader r ''X-Amz-Date'',
      Join [ax_ShortTimeStamp actx, ax_Region actx, ax_Service actx, AWS4Request] ''/'',
      hex_EncodeToString (sha256 E canon)] newline"

definition BuildSignature :: "'w env \<Rightarrow> AuthContext \<Rightarrow> request \<Rightarrow> string \<Rightarrow> string \<Rightarrow> string" where
  "BuildSignature E actx r secret digest =
     hex_EncodeToString (hmac_sha256 E (BuildSigningKey E actx secret) (BuildStringToSign E actx r (BuildCanonicalString actx r digest)))"

section \<open>Authorization\<close>

definition s3VerifyAuthorizationHeaders :: "'w env \<Rightarrow> request \<Rightarrow> string \<Rightarrow> ('w, int \<times> string, AccessKey) go" where
  "s3VerifyAuthorizationHeaders E r hdr = (case ParseAuthorization hdr of
     Inl e \<Rightarrow> gerr e
   | Inr actx \<Rightarrow> gtry (LookupAccessKey E (ax_AccessKey actx)) (\<lambda>k. case k of
       Inl e \<Rightarrow> gerr (S3ErrAccessDenied, err_msg e)
     | Inr akey \<Rightarrow> gtry (s3DecryptAccessKeySecret E akey) (\<lambda>s. case s of
         Inl e \<Rightarrow> gpanic
       | Inr secret \<Rightarrow> (case BuildBodyDigest E r of
           None \<Rightarrow> gerr (S3ErrInvalidDigest, ''read error'')
         | Some digest \<Rightarrow>
             if ax_Signature actx = BuildSignature E actx r secret digest then gret akey
             else gerr (S3ErrSignatureDoesNotMatch, ''Signature mismatch'')))))"

definition s3AuthorizeUser :: "'w env \<Rightarrow> request \<Rightarrow> ('w, int \<times> string, AccessKey option) go" where
  "s3AuthorizeUser E r = (let hdr = getHeader r ''Authorization'' in
     if hdr = [] then gret None else gbind (s3VerifyAuthorizationHeaders E r hdr) (\<lambda>k. gret (Some k)))"

definition SwyS3_AdminToken :: string where "SwyS3_AdminToken = ''X-SwyS3-Token''"
definition SwyS3_AccessKey :: string where "SwyS3_AccessKey = ''X-SwyS3-AccessKey''"

definition s3VerifyAdmin :: "'w env \<Rightarrow> request \<Rightarrow> string option" where
  "s3VerifyAdmin E r = (if HGet r SwyS3_AdminToken \<noteq> adminAccToken E then Some ''X-SwyS3-Token header mismatched or missed'' else None)"

definition s3AuthorizeAdmin :: "'w env \<Rightarrow> request \<Rightarrow> ('w, string, AccessKey option) go" where
  "s3AuthorizeAdmin E r =
     (if HGet r SwyS3_AdminToken = [] then gret None
      else if HGet r SwyS3_AdminToken \<noteq> adminAccToken E then gerr ''Bad admin authorization creds''
      else if HGet r SwyS3_AccessKey = [] then gerr ''Access key missing''
      else gtry (LookupAccessKey E (HGet r SwyS3_AccessKey)) (\<lambda>k. case k of
        Inl e \<Rightarrow> gerr (err_msg e) | Inr akey \<Rightarrow> gret (Some akey)))"

definition s3AuthorizeGetKey :: "'w env \<Rightarrow> request \<Rightarrow> ('w, int \<times> string, AccessKey) go" where
  "s3AuthorizeGetKey E r =
     gbind (s3AuthorizeUser E r) (\<lambda>k. case k of
       Some akey \<Rightarrow> gret akey
     | None \<Rightarrow> gtry (s3AuthorizeAdmin E r) (\<lambda>k. case k of
         Inl m \<Rightarrow> gerr (S3ErrAccessDenied, m)
       | Inr (Some akey) \<Rightarrow> gret akey
       | Inr None \<Rightarrow> gerr (S3ErrAccessDenied, ''Not authorized'')))"

text \<open>The iam of the request; \<open>None\<close> when it was not found, an error \<open>s3Authorize\<close> does not report.\<close>

definition s3Authorize :: "'w env \<Rightarrow> request \<Rightarrow> ('w, int \<times> string, Iam option) go" where
  "s3Authorize E r =
     gbind (s3AuthorizeGetKey E r) (\<lambda>key.
     gbind (current_timestamp E) (\<lambda>now.
     if Expired now key then gerr (S3ErrAccessDenied, ''Key is expired'')
     else gtry (s3IamFind E key) (\<lambda>i. case i of Inl _ \<Rightarrow> gret None | Inr iam \<Rightarrow> gret (Some iam))))"

section \<open>What an accepted request proves\<close>

text \<open>The secret the server checks against: empty when the stored one cannot be decrypted.\<close>

definition secret_of :: "'w env \<Rightarrow> AccessKey \<Rightarrow> string option" where
  "secret_of E k = (case DecryptString (cipher E) (s3SecKey E) (k_AccessKeySecret k) of Ok s \<Rightarrow> Some s | Err _ \<Rightarrow> Some [] | Panic \<Rightarrow> None)"

definition signed_with :: "'w env \<Rightarrow> request \<Rightarrow> AccessKey \<Rightarrow> bool" where
  "signed_with E r k \<longleftrightarrow> (\<exists>actx secret digest. ParseAuthorization (getHeader r ''Authorization'') = Inr actx
     \<and> ax_AccessKey actx = k_AccessKeyID k \<and> secret_of E k = Some secret \<and> BuildBodyDigest E r = Some digest
     \<and> ax_Signature actx = BuildSignature E actx r secret digest)"

definition admin_for :: "'w env \<Rightarrow> request \<Rightarrow> AccessKey \<Rightarrow> bool" where
  "admin_for E r k \<longleftrightarrow> HGet r SwyS3_AdminToken = adminAccToken E \<and> adminAccToken E \<noteq> [] \<and> HGet r SwyS3_AccessKey = k_AccessKeyID k"

definition live_key :: "'w env \<Rightarrow> dbview \<Rightarrow> AccessKey \<Rightarrow> bool" where
  "live_key E V k \<longleftrightarrow> (\<exists>i. V S3AccessKeys i = Some (DKey k)) \<and> k_State k = S3StateActive \<and> (\<exists>w. \<not> Expired (fst (clock E w)) k)"

lemma wp_LookupAccessKey:
  assumes "mongo_ok E view"
    and "\<And>k w'. view w' = view w \<Longrightarrow> live_key E (view w) k \<Longrightarrow> k_AccessKeyID k = kid \<Longrightarrow> Q (Ok k) w'"
    and "\<And>e w'. view w' = view w \<Longrightarrow> \<not> no_faults E view \<or> matching (view w) S3AccessKeys (q_key kid) = {}
      \<or> (\<exists>k w1. DKey k \<in> matching (view w) S3AccessKeys (q_key kid) \<and> Expired (fst (clock E w1)) k) \<Longrightarrow> Q (Err e) w'"
  shows "wp (LookupAccessKey E kid) Q w"
  unfolding LookupAccessKey_def dbLookupAccessKey_def wp_simps
proof (rule wp_FindOne [OF assms(1)], goal_cases found nf io)
  case (found i d w1)
  then obtain k where k: "d = DKey k" "k_AccessKeyID k = kid" "k_State k = S3StateActive" by (auto simp: q_key_iff)
  have m: "DKey k \<in> matching (view w) S3AccessKeys (q_key kid)" using found k matchingI [of "view w" S3AccessKeys i] by simp
  have "wp (current_timestamp E) (on_ok (\<lambda>now. wp (if Expired now k then gerr (GoErr ''Expired key'') else gret k) Q) Q) w1"
  proof (rule wp_clock [OF assms(1)])
    fix t w2 assume w2: "view w2 = view w1" "clock E w1 = (t, w2)"
    then have t: "t = fst (clock E w1)" by simp
    show "on_ok (\<lambda>now. wp (if Expired now k then gerr (GoErr ''Expired key'') else gret k) Q) Q (Ok t) w2"
      using assms(2) [of w2 k] assms(3) [of w2 "GoErr ''Expired key''"] w2(1) found k t m
      by (auto simp: wp_simps live_key_def)
  qed
  then show ?case using k by (simp add: wp_simps)
qed (use assms(3) in \<open>auto simp: wp_simps\<close>)

lemma wp_s3Decrypt:
  "wp (s3DecryptAccessKeySecret E k) Q w = (case secret_of E k of None \<Rightarrow> Q Panic w | Some s \<Rightarrow> Q (Ok s) w)"
  by (simp add: s3DecryptAccessKeySecret_def secret_of_def wp_simps split: res.splits)

lemma wp_s3Verify:
  assumes E: "mongo_ok E view"
    and ok: "\<And>k w'. view w' = view w \<Longrightarrow> live_key E (view w) k \<Longrightarrow> signed_with E r k \<Longrightarrow> Q (Ok k) w'"
    and err: "\<And>e w'. view w' = view w \<Longrightarrow> Q (Err e) w'" and panic: "\<And>w'. view w' = view w \<Longrightarrow> Q Panic w'"
  shows "wp (s3VerifyAuthorizationHeaders E r (getHeader r ''Authorization'')) Q w"
proof (cases "ParseAuthorization (getHeader r ''Authorization'')")
  case (Inl e)
  then show ?thesis using err by (simp add: s3VerifyAuthorizationHeaders_def wp_simps)
next
  case (Inr actx)
  show ?thesis
    unfolding s3VerifyAuthorizationHeaders_def Inr sum.case wp_simps
    using Inr ok err panic
    by (intro wp_LookupAccessKey [OF E]) (auto simp: wp_simps wp_s3Decrypt signed_with_def split: option.splits)
qed

lemma wp_s3AuthorizeGetKey:
  assumes E: "mongo_ok E view"
    and ok: "\<And>k w'. view w' = view w \<Longrightarrow> live_key E (view w) k \<Longrightarrow> signed_with E r k \<or> (getHeader r ''Authorization'' = [] \<and> admin_for E r k) \<Longrightarrow> Q (Ok k) w'"
    and err: "\<And>e w'. view w' = view w \<Longrightarrow> Q (Err e) w'" and panic: "\<And>w'. view w' = view w \<Longrightarrow> Q Panic w'"
  shows "wp (s3AuthorizeGetKey E r) Q w"
proof (cases "getHeader r ''Authorization'' = []")
  case True
  then have u: "s3AuthorizeUser E r = gret None" by (simp add: s3AuthorizeUser_def)
  show ?thesis
    unfolding s3AuthorizeGetKey_def u gbind_gret option.case s3AuthorizeAdmin_def
    using True ok err by (auto simp: wp_simps on_any_def on_ok_def admin_for_def intro!: wp_LookupAccessKey [OF E])
next
  case False
  then have u: "s3AuthorizeUser E r = gbind (s3VerifyAuthorizationHeaders E r (getHeader r ''Authorization'')) (\<lambda>k. gret (Some k))"
    by (simp add: s3AuthorizeUser_def)
  show ?thesis
    unfolding s3AuthorizeGetKey_def u wp_simps
    by (rule wp_s3Verify [OF E]) (use ok err panic in \<open>auto simp: wp_simps\<close>)
qed

lemma wp_s3Authorize:
  assumes E: "mongo_ok E view"
    and "\<And>i k w'. view w' = view w \<Longrightarrow> live_key E (view w) k \<Longrightarrow>
      signed_with E r k \<or> (getHeader r ''Authorization'' = [] \<and> admin_for E r k) \<Longrightarrow>
      (\<And>iam. i = Some iam \<Longrightarrow> \<exists>n d. view w S3Iams n = Some d \<and> doc_id d = k_IamObjID k \<and> is_active d \<and> iam = as_Iam d) \<Longrightarrow> Q (Ok i) w'"
    and "\<And>e w'. view w' = view w \<Longrightarrow> Q (Err e) w'" and "\<And>w'. view w' = view w \<Longrightarrow> Q Panic w'"
  shows "wp (s3Authorize E r) Q w"
  unfolding s3Authorize_def wp_simps s3IamFind_def s3LookupIam_def
proof (rule wp_s3AuthorizeGetKey [OF E], goal_cases ok err panic)
  case (ok k w1)
  show ?case
    unfolding on_ok_simps wp_simps
  proof (rule wp_clock [OF E], goal_cases)
    case (1 t w2)
    show ?case
    proof (cases "Expired t k")
      case False
      show ?thesis
        unfolding on_ok_simps wp_simps using False ok 1
        by (simp add: wp_simps) (rule wp_FindOne [OF E], auto simp: wp_simps q_active_id_def intro!: assms(2) [where k = k])
    qed (use ok 1 assms(3) in \<open>simp add: wp_simps\<close>)
  qed
qed (use assms(3,4) in simp_all)

text \<open>
  C7. Whoever is let in has proved who it is. A request \<open>s3Authorize\<close> accepts changes nothing, and comes with
  an access key that is stored, active and, at a reading of the clock, not expired; either the request carries a version 4 signature
  made with the secret of that very key over its method, path, query, signed headers and body, or it
  has no \<open>Authorization\<close> header at all and carries the administrator's token and the id of the key. The iam the
  request then acts for is an active one and the one the key belongs to.
\<close>

theorem s3Authorize_sound:
  assumes "mongo_ok E view" and "s3Authorize E r w = (Ok i, w')"
  shows "view w' = view w \<and> (\<exists>k. live_key E (view w) k
     \<and> (signed_with E r k \<or> (getHeader r ''Authorization'' = [] \<and> admin_for E r k))
     \<and> (\<forall>iam. i = Some iam \<longrightarrow> (\<exists>n d. view w S3Iams n = Some d \<and> doc_id d = k_IamObjID k \<and> is_active d \<and> iam = as_Iam d)))"
proof -
  have "wp (s3Authorize E r) (\<lambda>res w'. \<forall>i. res = Ok i \<longrightarrow> view w' = view w \<and> (\<exists>k. live_key E (view w) k
     \<and> (signed_with E r k \<or> (getHeader r ''Authorization'' = [] \<and> admin_for E r k))
     \<and> (\<forall>iam. i = Some iam \<longrightarrow> (\<exists>n d. view w S3Iams n = Some d \<and> doc_id d = k_IamObjID k \<and> is_active d \<and> iam = as_Iam d)))) w"
    by (rule wp_s3Authorize [OF assms(1)]) auto
  from wpD [OF this assms(2)] show ?thesis by blast
qed

section \<open>Requests signed by a client\<close>

definition word_char :: "char \<Rightarrow> bool" where
  "word_char c \<longleftrightarrow> \<not> IsSpace c \<and> c \<noteq> CHR '',''"

definition word_ok :: "string \<Rightarrow> bool" where
  "word_ok s \<longleftrightarrow> s \<noteq> [] \<and> list_all word_char s"

lemma word_ok_append: "list_all word_char s \<Longrightarrow> word_ok t \<Longrightarrow> word_ok (s @ t)"
  by (simp add: word_ok_def)

lemma word_ok_Join: "list_all word_ok ws \<Longrightarrow> ws \<noteq> [] \<Longrightarrow> word_char c \<Longrightarrow> word_ok (Join ws [c])"
  by (induction ws "[c]" rule: Join.induct) (simp_all add: word_ok_def)

lemma Fields_acc_word: "list_all word_char s \<Longrightarrow> Fields_acc (s @ t) acc = Fields_acc t (rev s @ acc)"
  by (induction s arbitrary: acc) (simp_all add: word_char_def)

lemma Fields_acc_end: "word_ok s \<Longrightarrow> Fields_acc s [] = [s]"
  using Fields_acc_word [of s "[]" "[]"] by (simp add: word_ok_def)

lemma Fields_acc_space: "word_ok s \<Longrightarrow> IsSpace c \<Longrightarrow> Fields_acc (s @ c # t) [] = s # Fields_acc t []"
  using Fields_acc_word [of s "c # t" "[]"] by (simp add: word_ok_def)

lemma ReplaceAll_word: "list_all word_char s \<Longrightarrow> ReplaceAll s (CHR '','') t = s"
  by (induction s) (simp_all add: ReplaceAll_def word_char_def)

lemma ReplaceAll_append: "ReplaceAll (s @ t) c u = ReplaceAll s c u @ ReplaceAll t c u"
  by (simp add: ReplaceAll_def)

lemma comma_space: "ReplaceAll (CHR '','' # CHR '' '' # s) (CHR '','') '' '' = CHR '' '' # CHR '' '' # ReplaceAll s (CHR '','') '' ''" "IsSpace (CHR '' '')"
  by (simp add: ReplaceAll_def) code_simp

lemma Fields_space: "IsSpace c \<Longrightarrow> Fields_acc (c # s) [] = Fields_acc s []"
  by simp

lemma Fields_Join: "list_all word_ok ws \<Longrightarrow> ws \<noteq> [] \<Longrightarrow> Fields_acc (ReplaceAll (Join ws '', '') (CHR '','') '' '') [] = ws"
proof (induction ws "'', ''" rule: Join.induct)
  case (2 x)
  then have x: "word_ok x" by simp
  then have "ReplaceAll x (CHR '','') '' '' = x" by (simp add: ReplaceAll_word word_ok_def)
  then show ?case using Fields_acc_end [OF x] by (simp only: Join.simps)
next
  case (3 x y xs)
  then have x: "word_ok x" and IH: "Fields_acc (ReplaceAll (Join (y # xs) '', '') (CHR '','') '' '') [] = y # xs" by simp_all
  have "ReplaceAll x (CHR '','') '' '' = x" using x by (simp add: ReplaceAll_word word_ok_def)
  then have "ReplaceAll (Join (x # y # xs) '', '') (CHR '','') '' ''
      = x @ CHR '' '' # CHR '' '' # ReplaceAll (Join (y # xs) '', '') (CHR '','') '' ''"
    by (simp only: Join.simps ReplaceAll_append append.simps comma_space)
  then show ?case by (simp only: Fields_acc_space [OF x comma_space(2)] Fields_space [OF comma_space(2)] IH)
qed simp

lemma Index_eq: "list_all (\<lambda>c. c \<noteq> CHR ''='') k \<Longrightarrow> Index (k @ CHR ''='' # v) ''='' = Some (length k)"
  by (induction k) (simp_all add: HasPrefix_def)

lemma parse_elem_kv:
  assumes "list_all (\<lambda>c. c \<noteq> CHR ''='') k"
  shows "parse_elem (k @ CHR ''='' # v) (actx, pfx) =
    (if k = ''Credential'' then (case parse_credential (k @ CHR ''='' # v) v actx of Inl m \<Rightarrow> Inl m | Inr actx \<Rightarrow> Inr (actx, pfx))
     else if k = ''SignedHeaders'' then Inr (actx\<lparr>ax_SignedHeaders := sort (Split v (CHR '';''))\<rparr>, pfx)
     else if k = ''Signature'' then Inr (actx\<lparr>ax_Signature := v\<rparr>, pfx)
     else Inr (actx, pfx))"
proof -
  have d: "take (length k) (k @ CHR ''='' # v) = k" "drop (Suc (length k)) (k @ CHR ''='' # v) = v" by simp_all
  have l: "\<not> length (Split v (CHR '';'')) < 1" using Split_not_Nil [of v "CHR '';''"] by (cases "Split v (CHR '';'')") simp_all
  show ?thesis unfolding parse_elem_def prod.case Index_eq [OF assms] option.case Let_def d using l by (simp only: if_False)
qed

definition auth_words :: "AuthContext \<Rightarrow> string list" where
  "auth_words actx = [''Credential'' @ CHR ''='' # Join [ax_AccessKey actx, ax_ShortTimeStamp actx, ax_Region actx, ax_Service actx, AWS4Request] ''/'',
     ''SignedHeaders'' @ CHR ''='' # Join (ax_SignedHeaders actx) '';'', ''Signature'' @ CHR ''='' # ax_Signature actx]"

definition auth_header :: "AuthContext \<Rightarrow> string" where
  "auth_header actx = AWSAuthV4HeaderPrefix @ CHR '' '' # Join (auth_words actx) '', ''"

definition actx_ok :: "AuthContext \<Rightarrow> bool" where
  "actx_ok actx \<longleftrightarrow> list_all (\<lambda>s. word_ok s \<and> CHR ''/'' \<notin> set s) [ax_AccessKey actx, ax_ShortTimeStamp actx, ax_Region actx]
     \<and> (ax_Service actx = AWS4ServiceS3 \<or> ax_Service actx = AWS4ServiceCW) \<and> word_ok (ax_Signature actx)
     \<and> ax_SignedHeaders actx \<noteq> [] \<and> sorted (ax_SignedHeaders actx) \<and> list_all (\<lambda>h. word_ok h \<and> CHR '';'' \<notin> set h) (ax_SignedHeaders actx)"

lemma const_words:
  "word_ok AWS4Request" "CHR ''/'' \<notin> set AWS4Request" "word_ok AWS4ServiceS3" "CHR ''/'' \<notin> set AWS4ServiceS3"
  "word_ok AWS4ServiceCW" "CHR ''/'' \<notin> set AWS4ServiceCW" "word_char (CHR ''/'')" "word_char (CHR '';'')" "word_char (CHR ''='')"
  "list_all word_char ''Credential''" "list_all word_char ''SignedHeaders''" "list_all word_char ''Signature''"
  "list_all (\<lambda>c. c \<noteq> CHR ''='') ''Credential''" "list_all (\<lambda>c. c \<noteq> CHR ''='') ''SignedHeaders''" "list_all (\<lambda>c. c \<noteq> CHR ''='') ''Signature''"
  "word_ok AWSAuthV4HeaderPrefix" "Index AWSAuthV4HeaderPrefix ''='' = None"
  by code_simp+

lemma service_ok: "actx_ok actx \<Longrightarrow> word_ok (ax_Service actx) \<and> CHR ''/'' \<notin> set (ax_Service actx)"
  unfolding actx_ok_def using const_words(3-6) by metis

lemma word_ok_eq: "list_all word_char k \<Longrightarrow> word_ok v \<Longrightarrow> word_ok (k @ CHR ''='' # v)"
  using const_words(9) by (simp add: word_ok_def)

lemma auth_words_ok:
  assumes a: "actx_ok actx"
  shows "list_all word_ok (auth_words actx)"
proof -
  have "word_ok (Join [ax_AccessKey actx, ax_ShortTimeStamp actx, ax_Region actx, ax_Service actx, AWS4Request] ''/'')"
    by (rule word_ok_Join) (use a service_ok [OF a] const_words(1,7) in \<open>simp_all add: actx_ok_def\<close>)
  moreover have "word_ok (Join (ax_SignedHeaders actx) '';'')"
    by (rule word_ok_Join) (use a const_words(8) in \<open>simp_all add: actx_ok_def list_all_iff\<close>)
  moreover have "word_ok (ax_Signature actx)" using a by (simp add: actx_ok_def)
  ultimately show ?thesis
    unfolding auth_words_def list.pred_inject(2) by (intro conjI list.pred_inject(1) word_ok_eq const_words(10-12))
qed


lemma Split_Join5:
  assumes "list_all (\<lambda>s. c \<notin> set s) [a, b, d, e, f]"
  shows "Split (Join [a, b, d, e, f] [c]) c = [a, b, d, e, f]"
  by (rule Split_Join) (use assms in \<open>simp_all add: list_all_iff\<close>)

lemma parse_credential_ok:
  assumes a: "actx_ok actx"
  shows "parse_credential e (Join [ax_AccessKey actx, ax_ShortTimeStamp actx, ax_Region actx, ax_Service actx, AWS4Request] ''/'') x
    = Inr (x\<lparr>ax_AccessKey := ax_AccessKey actx, ax_ShortTimeStamp := ax_ShortTimeStamp actx, ax_Region := ax_Region actx, ax_Service := ax_Service actx\<rparr>)"
proof -
  have "Split (Join [ax_AccessKey actx, ax_ShortTimeStamp actx, ax_Region actx, ax_Service actx, AWS4Request] ''/'') (CHR ''/'')
      = [ax_AccessKey actx, ax_ShortTimeStamp actx, ax_Region actx, ax_Service actx, AWS4Request]"
    by (rule Split_Join5) (use a service_ok [OF a] const_words(2) in \<open>simp add: actx_ok_def\<close>)
  then show ?thesis using a unfolding parse_credential_def actx_ok_def by (simp only: list.case) auto
qed

lemma parse_auth_words:
  assumes a: "actx_ok actx"
  shows "parse_elems (AWSAuthV4HeaderPrefix # auth_words actx) (zero_AuthContext, False) = Inr (actx, True)"
proof -
  have h: "sort (Split (Join (ax_SignedHeaders actx) '';'') (CHR '';'')) = ax_SignedHeaders actx"
    using a Split_Join [of "ax_SignedHeaders actx" "CHR '';''"] by (simp add: actx_ok_def list_all_iff sorted_sort_id)
  have p: "parse_elem AWSAuthV4HeaderPrefix (x, f) = Inr (x, True)" for x f
    unfolding parse_elem_def prod.case const_words(17) option.case by simp
  have ne: "''SignedHeaders'' \<noteq> ''Credential''" "''Signature'' \<noteq> ''Credential''" "''Signature'' \<noteq> ''SignedHeaders''" by simp_all
  have 1: "parse_elem (''Credential'' @ CHR ''='' # Join [ax_AccessKey actx, ax_ShortTimeStamp actx, ax_Region actx, ax_Service actx, AWS4Request] ''/'') (x, f)
      = Inr (x\<lparr>ax_AccessKey := ax_AccessKey actx, ax_ShortTimeStamp := ax_ShortTimeStamp actx, ax_Region := ax_Region actx, ax_Service := ax_Service actx\<rparr>, f)" for x f
    unfolding parse_elem_kv [OF const_words(13)] parse_credential_ok [OF a] by (simp only: sum.case if_True simp_thms)
  have 2: "parse_elem (''SignedHeaders'' @ CHR ''='' # Join (ax_SignedHeaders actx) '';'') (x, f)
      = Inr (x\<lparr>ax_SignedHeaders := ax_SignedHeaders actx\<rparr>, f)" for x f
    unfolding parse_elem_kv [OF const_words(14)] h using ne by (simp only: if_True if_False simp_thms)
  have 3: "parse_elem (''Signature'' @ CHR ''='' # ax_Signature actx) (x, f) = Inr (x\<lparr>ax_Signature := ax_Signature actx\<rparr>, f)" for x f
    unfolding parse_elem_kv [OF const_words(15)] using ne by (simp only: if_True if_False simp_thms)
  show ?thesis
    unfolding auth_words_def parse_elems.simps p sum.case 1 2 3 by (simp add: zero_AuthContext_def)
qed

lemma ParseV4_auth_header:
  assumes a: "actx_ok actx"
  shows "ParseV4Authorization (auth_header actx) = Inr actx"
proof -
  let ?P = AWSAuthV4HeaderPrefix
  have P: "list_all word_char ?P" "word_ok ?P" using const_words(16) by (simp_all add: word_ok_def)
  have sp: "ReplaceAll (CHR '' '' # s) (CHR '','') '' '' = CHR '' '' # ReplaceAll s (CHR '','') '' ''" for s
    by (simp add: ReplaceAll_def)
  have "Fields (ReplaceAll (auth_header actx) (CHR '','') '' '')
      = ?P # Fields_acc (ReplaceAll (Join (auth_words actx) '', '') (CHR '','') '' '') []"
    unfolding Fields_def auth_header_def ReplaceAll_append ReplaceAll_word [OF P(1)] sp by (rule Fields_acc_space [OF P(2) comma_space(2)])
  also have "\<dots> = ?P # auth_words actx" using Fields_Join [OF auth_words_ok [OF a]] by (simp add: auth_words_def)
  finally have f: "Fields (ReplaceAll (auth_header actx) (CHR '','') '' '') = ?P # auth_words actx" .
  have nsp: "CHR '' '' \<notin> set s" if "word_ok s" for s
    using that comma_space(2) by (auto simp: word_ok_def list_all_iff word_char_def)
  have "Split (Join (?P # auth_words actx) '' '') (CHR '' '') = ?P # auth_words actx"
    by (rule Split_Join) (use auth_words_ok [OF a] P nsp in \<open>simp_all add: list_all_iff\<close>)
  moreover have "length (?P # auth_words actx) = 4" by (simp add: auth_words_def)
  moreover have "ax_Signature actx \<noteq> []" "ax_SignedHeaders actx \<noteq> []" "ax_AccessKey actx \<noteq> []" "ax_ShortTimeStamp actx \<noteq> []" "ax_Region actx \<noteq> []"
    using a by (simp_all add: actx_ok_def word_ok_def)
  ultimately show ?thesis
    unfolding ParseV4Authorization_def f Let_def by (simp add: parse_auth_words [OF a] Suc_le_eq del: parse_elems.simps)
qed

lemma TrimSpace_id: "s \<noteq> [] \<Longrightarrow> \<not> IsSpace (hd s) \<Longrightarrow> \<not> IsSpace (last s) \<Longrightarrow> TrimSpace s = s"
  by (simp add: TrimSpace_def dropWhile_eq_self_iff [THEN iffD2] hd_rev)


lemma TrimSpace_auth_header:
  assumes "actx_ok actx"
  shows "TrimSpace (auth_header actx) = auth_header actx"
proof (rule TrimSpace_id)
  have sig: "ax_Signature actx \<noteq> []" "\<not> IsSpace (last (ax_Signature actx))"
    using assms last_in_set [of "ax_Signature actx"] by (auto simp: actx_ok_def word_ok_def list_all_iff word_char_def)
  show "auth_header actx \<noteq> []" by (simp add: auth_header_def)
  show "\<not> IsSpace (hd (auth_header actx))" by (simp add: auth_header_def AWSAuthV4HeaderPrefix_def IsSpace_def)
  show "\<not> IsSpace (last (auth_header actx))" using sig by (simp add: auth_header_def auth_words_def)
qed


section \<open>A signed request\<close>

definition sign_key :: AccessKey where
  "sign_key = zero_AccessKey\<lparr>k_ObjID := ''k'', k_State := S3StateActive, k_AccessKeyID := ''AK'', k_IamObjID := ''i'',
     k_ExpirationTimestamp := TimeStampMax,
     k_AccessKeySecret := hex_EncodeToString (replicate 16 (CHR ''n'') @ aesPad ''topsecret'')\<rparr>"

definition sign_mem :: mem where
  "sign_mem = mem_of [DKey sign_key, DIam (zero_Iam\<lparr>iam_ObjID := ''i'', iam_State := S3StateActive\<rparr>)]"

definition plain_req :: request where
  "plain_req = \<lparr>Method = ''GET'', Path = ''/b/o'', Host = ''h'', Query = [(''q'', [''v w''])], Header = (\<lambda>_. []), Body = Some ''x'', Vars = (\<lambda>_. [])\<rparr>"

definition plain_actx :: AuthContext where
  "plain_actx = \<lparr>ax_AccessKey = ''AK'', ax_ShortTimeStamp = ''d'', ax_Region = ''r'', ax_Service = ''s3'', ax_SignedHeaders = [''date'', ''host''], ax_Signature = []\<rparr>"

definition sign_digest :: string where "sign_digest = hex_EncodeToString ''x''"

definition sign_actx :: AuthContext where
  "sign_actx = plain_actx\<lparr>ax_Signature := BuildSignature mem_env plain_actx plain_req ''topsecret'' sign_digest\<rparr>"

definition sign_req :: request where
  "sign_req = plain_req\<lparr>Header := (\<lambda>k. if k = ''authorization'' then auth_header sign_actx else [])\<rparr>"

lemma sign_facts:
  "secret_of mem_env sign_key = Some ''topsecret''" "BuildBodyDigest mem_env sign_req = Some sign_digest" "actx_ok sign_actx"
  "ax_Signature sign_actx = BuildSignature mem_env sign_actx sign_req ''topsecret'' sign_digest"
  by code_simp+

lemma sign_header: "HGet sign_req ''Authorization'' = auth_header sign_actx"
proof -
  have "ToLower ''Authorization'' = ''authorization''" by code_simp
  then show ?thesis by (simp add: HGet_def sign_req_def)
qed

lemma sign_keys: "matching (mview sign_mem) S3AccessKeys (q_key (ax_AccessKey sign_actx)) = {DKey sign_key}"
proof -
  have "mview sign_mem S3AccessKeys i = (if i = ''k'' then Some (DKey sign_key) else None)" for i
    by (simp add: mview_def sign_mem_def mem_of_def sign_key_def)
  moreover have "q_key (ax_AccessKey sign_actx) (DKey sign_key)" by code_simp
  ultimately show ?thesis by (auto simp: matching_def split: if_splits)
qed


definition admin_req :: request where
  "admin_req = plain_req\<lparr>Header := (\<lambda>k. if k = ''x-swys3-token'' then adminAccToken mem_env else if k = ''x-swys3-accesskey'' then ''AK'' else [])\<rparr>"

lemma admin_run: "run_ok (s3Authorize mem_env admin_req) sign_mem"
  by code_simp

theorem s3Authorize_sound_witness:
  "\<exists>k. live_key mem_env (mview sign_mem) k \<and> (signed_with mem_env admin_req k \<or> admin_for mem_env admin_req k)"
proof -
  obtain i w' where run: "s3Authorize mem_env admin_req sign_mem = (Ok i, w')" using run_okE [OF admin_run] .
  from s3Authorize_sound [OF mem_env_ok run] show ?thesis by blast
qed

end
