(* ===== verification/S3_Http.thy ===== *)
theory S3_Http
  imports S3_List S3_Sign
begin

text \<open>
  The HTTP front end of the object store: \<open>src/s3/handlers.go\<close>, \<open>src/s3/web.go\<close>, \<open>src/s3/admin.go\<close>, the
  context and the wrappers of \<open>src/s3/main.go\<close> and the helpers of \<open>src/s3/helpers.go\<close> and \<open>src/s3/s3.go\<close>.

  A handler takes the response as its wrapper left it and returns it as it wrote it; a handler that
  returns an error has written nothing. A document sent back stays a value (\<open>HXml\<close>, \<open>HJson\<close>) in place of
  its encoding. The decoders of request bodies, the server's regular expressions and the text of the number parser's errors
  are the record \<open>svc\<close>. The reads a streamed body is delivered in are the argument \<open>rd\<close>.
\<close>

section \<open>Context, parameters and replies\<close>

record s3Context =
  cx_id :: string
  cx_errCode :: int
  cx_mime :: string
  cx_iam :: "Iam option"

definition mkS3Context :: "string \<Rightarrow> s3Context" where
  "mkS3Context i = \<lparr>cx_id = i, cx_errCode = 0, cx_mime = [], cx_iam = None\<rparr>"

definition ctxAuthorize :: "Iam option \<Rightarrow> s3Context \<Rightarrow> s3Context" where
  "ctxAuthorize iam cx = cx\<lparr>cx_iam := iam\<rparr>"

text \<open>The checks read the policy of the context's identity: \<open>None\<close> is the panic of a nil one.\<close>

definition ctxAllowed :: "s3Context \<Rightarrow> int \<Rightarrow> bool option" where
  "ctxAllowed cx action = map_option (\<lambda>iam. Allowed (iam_Policy iam) action) (cx_iam cx)"

definition ctxMayAccess :: "s3Context \<Rightarrow> string \<Rightarrow> bool option" where
  "ctxMayAccess cx bname = map_option (\<lambda>iam. MayAccess (iam_Policy iam) bname) (cx_iam cx)"

definition if_allowed :: "s3Context \<Rightarrow> int \<Rightarrow> ('w, S3Error, 'a) go \<Rightarrow> ('w, S3Error, 'a) go" where
  "if_allowed cx action k = (case ctxAllowed cx action of
     None \<Rightarrow> gpanic | Some False \<Rightarrow> gerr (s3error S3ErrMethodNotAllowed) | Some True \<Rightarrow> k)"

definition if_access :: "s3Context \<Rightarrow> string \<Rightarrow> ('w, S3Error, 'a) go \<Rightarrow> ('w, S3Error, 'a) go" where
  "if_access cx bname k = (case ctxMayAccess cx bname of
     None \<Rightarrow> gpanic | Some False \<Rightarrow> gerr (s3error S3ErrAccessDenied) | Some True \<Rightarrow> k)"

record KeyGen =
  kg_Namespace :: string
  kg_Bucket :: string
  kg_Lifetime :: int

record svc =
  regex :: "string \<Rightarrow> (string \<Rightarrow> bool) option"
  name_first :: bool
  num_text :: "numerr \<Rightarrow> string"
  xml_FiniParts :: "string \<Rightarrow> bool"
  xml_WebsiteConfig :: "string \<Rightarrow> (string \<times> string) option"
  json_KeyGen :: "string option \<Rightarrow> string + KeyGen"
  json_KeyDel :: "string option \<Rightarrow> string + string"
  json_Subscribe :: "string option \<Rightarrow> string + Subscribe"
  json_AcctLimits :: "string option \<Rightarrow> string + AcctLimits"
  webRoot :: string
  mimes :: "(string \<times> string) list"

datatype xdoc =
    XMetrics string "S3Datapoint list"
  | XBucketList S3BucketList
  | XUploads string "S3MpuUpload list"
  | XBucket S3Bucket
  | XMpuFini string
  | XMpuInit string string string
  | XMpuParts "S3MpuPart list"
  | XCopyResult string string
  | XWebsiteConfig string string

datatype jdoc = JKeyGenResult string string string | JAcctStats int int int int

datatype hreply = HRaw response | HXml response xdoc | HJson response jdoc | HErr response err_response

definition HTTPRespXML :: "response \<Rightarrow> xdoc \<Rightarrow> hreply" where
  "HTTPRespXML w d = HXml (WriteHeader 200 (rw_set ''Content-Type'' ''application/xml; charset=utf-8'' w)) d"

definition Respond :: "response \<Rightarrow> jdoc \<Rightarrow> hreply" where
  "Respond w d = HJson (WriteHeader 200 (rw_set ''Content-Type'' ''application/json; charset=utf-8'' w)) d"

section \<open>Parameters of a request\<close>

type_synonym url_values = "(string \<times> string list) list"

definition urlParam :: "url_values \<Rightarrow> string \<Rightarrow> string option" where
  "urlParam m param = (case map_of m param of Some (v # _) \<Rightarrow> Some v | Some [] \<Rightarrow> Some [] | None \<Rightarrow> None)"

definition getURLParam :: "request \<Rightarrow> string \<Rightarrow> string option" where
  "getURLParam r param = urlParam (Query r) param"

definition urlValue :: "url_values \<Rightarrow> string \<Rightarrow> string" where
  "urlValue m param = (case urlParam m param of Some v \<Rightarrow> v | None \<Rightarrow> [])"

definition getURLValue :: "request \<Rightarrow> string \<Rightarrow> string" where
  "getURLValue r param = urlValue (Query r) param"

definition getURLBool :: "request \<Rightarrow> string \<Rightarrow> bool" where
  "getURLBool r param \<longleftrightarrow> ToLower (getURLValue r param) = ''true''"

definition unhex :: "char \<Rightarrow> nat option" where
  "unhex c = (let n = of_char c in if 48 \<le> n \<and> n \<le> 57 then Some (n - 48) else if 97 \<le> n \<and> n \<le> 102 then Some (n - 87)
     else if 65 \<le> n \<and> n \<le> 70 then Some (n - 55) else None)"

text \<open>\<open>url.QueryUnescape\<close> and \<open>url.ParseQuery\<close>.\<close>

fun QueryUnescape :: "string \<Rightarrow> string option" where
  "QueryUnescape [] = Some []"
| "QueryUnescape (c # s) =
     (if c = CHR ''%'' then (case s of
        a # b # t \<Rightarrow> (case (unhex a, unhex b) of
            (Some x, Some y) \<Rightarrow> map_option (\<lambda>u. char_of (16 * x + y) # u) (QueryUnescape t)
          | _ \<Rightarrow> None)
      | _ \<Rightarrow> None)
      else map_option ((#) (if c = CHR ''+'' then CHR '' '' else c)) (QueryUnescape s))"

fun add_value :: "string \<Rightarrow> string \<Rightarrow> url_values \<Rightarrow> url_values" where
  "add_value k v [] = [(k, [v])]"
| "add_value k v ((k', vs) # m) = (if k = k' then (k', vs @ [v]) # m else (k', vs) # add_value k v m)"

fun parse_pairs :: "string list \<Rightarrow> url_values \<Rightarrow> url_values option" where
  "parse_pairs [] m = Some m"
| "parse_pairs (p # ps) m =
     (if p = [] then parse_pairs ps m
      else let (k, v) = (case Index p ''='' of None \<Rightarrow> (p, []) | Some i \<Rightarrow> (take i p, drop (Suc i) p))
           in case (QueryUnescape k, QueryUnescape v) of
                (Some k, Some v) \<Rightarrow> parse_pairs ps (add_value k v m)
              | _ \<Rightarrow> None)"

definition ParseQuery :: "string \<Rightarrow> url_values option" where
  "ParseQuery s = parse_pairs (Split (map (\<lambda>c. if c = CHR '';'' then CHR ''&'' else c) s) (CHR ''&'')) []"

definition BucketCannedAcls :: "string list" where
  "BucketCannedAcls = [''private'', ''public-read'', ''public-read-write'', ''authenticated-read'']"

fun verifyAclValue :: "string \<Rightarrow> string list \<Rightarrow> bool" where
  "verifyAclValue acl [] = False"
| "verifyAclValue acl (v # acls) = (if acl = v then True else verifyAclValue acl acls)"

definition canned_acl :: "request \<Rightarrow> string" where
  "canned_acl r = (let acl = HGet r ''x-amz-acl'' in if \<not> verifyAclValue acl BucketCannedAcls then ''private'' else acl)"

section \<open>Buckets\<close>

definition wrong_missing :: "string \<Rightarrow> string" where
  "wrong_missing p = ''Wrong/missing '' @ CHR 0x27 # p @ [CHR 0x27]"

definition handleBucketCloudWatch :: "'w env \<Rightarrow> s3Context \<Rightarrow> response \<Rightarrow> request \<Rightarrow> ('w, S3Error, hreply) go" where
  "handleBucketCloudWatch E cx w r =
     (if \<not> HasPrefix (HGet r ''Content-Type'') ''application/x-www-form-urlencoded''
      then gerr (s3errorm S3ErrInvalidURI ''Unexpected Content-Type'')
      else case Body r of None \<Rightarrow> gerr (s3error S3ErrIncompleteBody)
      | Some body \<Rightarrow> (case ParseQuery body of None \<Rightarrow> gerr (s3errorm S3ErrIncompleteBody ''Unable to decode metrics query'')
        | Some m \<Rightarrow>
            if urlValue m ''Namespace'' \<noteq> ''AWS/S3'' then gerr (s3errorm S3ErrIncompleteBody (wrong_missing ''Namespace''))
            else if urlValue m ''Action'' \<noteq> ''GetMetricStatistics'' then gerr (s3errorm S3ErrIncompleteBody (wrong_missing ''Action''))
            else (case (if urlValue m ''Dimensions.member.1.Name'' = ''BucketName'' then Some (urlValue m ''Dimensions.member.1.Value'')
                        else if urlValue m ''Dimensions.member.2.Name'' = ''BucketName'' then Some (urlValue m ''Dimensions.member.2.Value'')
                        else None) of
                None \<Rightarrow> gerr (s3errorm S3ErrIncompleteBody (wrong_missing ''BucketName''))
              | Some bname \<Rightarrow>
                  gbind (s3GetBucketMetricOutput E (cx_iam cx) bname (urlValue m ''MetricName'')) (\<lambda>(l, ps).
                  gret (HTTPRespXML w (XMetrics l ps))))))"

definition handleListBuckets :: "'w env \<Rightarrow> s3Context \<Rightarrow> response \<Rightarrow> ('w, S3Error, hreply) go" where
  "handleListBuckets E cx w = if_allowed cx S3P_ListAllMyBuckets
     (gbind (s3ListBuckets E (cx_iam cx)) (\<lambda>buckets. gret (HTTPRespXML w (XBucketList buckets))))"

definition handleListUploads :: "'w env \<Rightarrow> s3Context \<Rightarrow> string \<Rightarrow> response \<Rightarrow> ('w, S3Error, hreply) go" where
  "handleListUploads E cx bname w = if_access cx bname (if_allowed cx S3P_ListBucketMultipartUploads
     (gbind (s3Uploads E (cx_iam cx) bname) (\<lambda>(b, us). gret (HTTPRespXML w (XUploads b us)))))"

definition list_params :: "request \<Rightarrow> S3ListObjectsRP option" where
  "list_params r =
     (let listType = getURLValue r ''list-type'';
          base = (if listType = ''2'' then Some (zero_RP\<lparr>rp_V2 := True, rp_ContToken := getURLValue r ''continuation-token'',
                       rp_StartAfter := getURLValue r ''start-after'', rp_FetchOwner := getURLBool r ''fetch-owner''\<rparr>)
                  else if listType = [] then Some (zero_RP\<lparr>rp_Marker := getURLValue r ''marker''\<rparr>) else None)
      in map_option (\<lambda>p. p\<lparr>rp_Prefix := getURLValue r ''prefix'', rp_Delimiter := getURLValue r ''delimiter'',
           rp_MaxKeys := (case getURLParam r ''max-keys'' of Some v \<Rightarrow> fst (ParseInt v) | None \<Rightarrow> 0)\<rparr>) base)"

definition handleListObjects :: "'w env \<Rightarrow> svc \<Rightarrow> s3Context \<Rightarrow> string \<Rightarrow> response \<Rightarrow> request \<Rightarrow> ('w, S3Error, hreply) go" where
  "handleListObjects E S cx bname w r = if_access cx bname (if_allowed cx S3P_ListBucket
     (case list_params r of
        None \<Rightarrow> gerr (s3errorm S3ErrInvalidArgument ''Invalid list-type'')
      | Some params \<Rightarrow>
          gbind (s3ListBucket E (regex S) (name_first S) (cx_iam cx) bname params) (\<lambda>objects. gret (HTTPRespXML w (XBucket objects)))))"

definition handlePutBucket :: "'w env \<Rightarrow> s3Context \<Rightarrow> string \<Rightarrow> response \<Rightarrow> request \<Rightarrow> ('w, S3Error, hreply) go" where
  "handlePutBucket E cx bname w r = if_allowed cx S3P_CreateBucket
     (gbind (s3InsertBucket E (cx_iam cx) bname (canned_acl r)) (\<lambda>_. gret (HRaw (WriteHeader 200 w))))"

definition handleDeleteBucket :: "'w env \<Rightarrow> s3Context \<Rightarrow> string \<Rightarrow> response \<Rightarrow> ('w, S3Error, hreply) go" where
  "handleDeleteBucket E cx bname w = if_allowed cx S3P_DeleteBucket
     (gbind (s3DeleteBucket E (cx_iam cx) bname) (\<lambda>_. gret (HRaw (WriteHeader 200 w))))"

definition s3CheckAccess :: "string \<Rightarrow> string \<Rightarrow> ('w, goerr, unit) go" where
  "s3CheckAccess bname oname = gret ()"

text \<open>Most handlers turn an error of the layer below into an invalid request with its text.\<close>

definition invalid_request :: "goerr \<Rightarrow> ('w, S3Error, 'a) go" where
  "invalid_request e = gerr (s3errorm S3ErrInvalidRequest (err_msg e))"

definition handleAccessBucket :: "s3Context \<Rightarrow> string \<Rightarrow> response \<Rightarrow> ('w, S3Error, hreply) go" where
  "handleAccessBucket cx bname w = if_access cx bname (if_allowed cx S3P_ListBucket
     (gtry (s3CheckAccess bname []) (\<lambda>r. case r of Inl e \<Rightarrow> invalid_request e | Inr _ \<Rightarrow> gret (HRaw (WriteHeader 200 w)))))"

subsection \<open>Websites\<close>

definition no_such_bucket :: "goerr + 'b \<Rightarrow> ('b \<Rightarrow> ('w, S3Error, 'a) go) \<Rightarrow> ('w, S3Error, 'a) go" where
  "no_such_bucket r k = (case r of Inl _ \<Rightarrow> gerr (s3error S3ErrNoSuchBucket) | Inr b \<Rightarrow> k b)"

definition handleGetWebsite :: "'w env \<Rightarrow> s3Context \<Rightarrow> string \<Rightarrow> response \<Rightarrow> ('w, S3Error, hreply) go" where
  "handleGetWebsite E cx bname w = if_access cx bname (if_allowed cx S3P_GetBucketWebsite
     (gtry (FindBucket E (cx_iam cx) bname) (\<lambda>r. no_such_bucket r (\<lambda>b.
      gtry (s3WebsiteLookup E b) (\<lambda>r. case r of
        Inl _ \<Rightarrow> gerr (s3error S3ErrInvalidAction)
      | Inr ws \<Rightarrow> gret (HTTPRespXML w (XWebsiteConfig (ws_IdxDoc ws) (ws_ErrDoc ws))))))))"

definition handlePutWebsite :: "'w env \<Rightarrow> svc \<Rightarrow> s3Context \<Rightarrow> string \<Rightarrow> response \<Rightarrow> request \<Rightarrow> ('w, S3Error, hreply) go" where
  "handlePutWebsite E S cx bname w r = if_access cx bname (if_allowed cx S3P_PutBucketWebsite
     (case Body r of None \<Rightarrow> gerr (s3error S3ErrIncompleteBody)
      | Some body \<Rightarrow> (case xml_WebsiteConfig S body of None \<Rightarrow> gerr (s3error S3ErrMissingRequestBodyError)
        | Some (suff, errkey) \<Rightarrow>
            gtry (FindBucket E (cx_iam cx) bname) (\<lambda>r. no_such_bucket r (\<lambda>b.
            gtry (s3WebsiteInsert E b suff errkey) (\<lambda>r. case r of
              Inl _ \<Rightarrow> gerr (s3error S3ErrInternalError) | Inr _ \<Rightarrow> gret (HRaw w)))))))"

definition handleDelWebsite :: "'w env \<Rightarrow> s3Context \<Rightarrow> string \<Rightarrow> response \<Rightarrow> ('w, S3Error, hreply) go" where
  "handleDelWebsite E cx bname w = if_access cx bname (if_allowed cx S3P_DeleteBucketWebsite
     (gtry (FindBucket E (cx_iam cx) bname) (\<lambda>r. no_such_bucket r (\<lambda>b.
      gtry (s3WebsiteLookup E b) (\<lambda>r. case r of
        Inl _ \<Rightarrow> gerr (s3error S3ErrInvalidAction)
      | Inr ws \<Rightarrow> gseq (dbS3Remove E (DWebsite ws)) (gret (HRaw w)))))))"

definition handleBucket :: "'w env \<Rightarrow> svc \<Rightarrow> s3Context \<Rightarrow> response \<Rightarrow> request \<Rightarrow> ('w, S3Error, hreply) go" where
  "handleBucket E S cx w r =
     (let bname = Vars r ''BucketName''
      in if bname = [] \<and> Method r = ''POST'' then handleBucketCloudWatch E cx w r
         else if bname = [] \<and> Method r \<noteq> ''GET'' then gerr (s3error S3ErrInvalidBucketName)
         else if Method r = ''GET'' then
           (if bname = [] then handleListBuckets E cx w
            else if getURLParam r ''uploads'' \<noteq> None then handleListUploads E cx bname w
            else if getURLParam r ''website'' \<noteq> None then handleGetWebsite E cx bname w
            else handleListObjects E S cx bname w r)
         else if Method r = ''PUT'' then
           (if getURLParam r ''website'' \<noteq> None then handlePutWebsite E S cx bname w r
            else handlePutBucket E cx bname w r)
         else if Method r = ''DELETE'' then
           (if getURLParam r ''website'' \<noteq> None then handleDelWebsite E cx bname w
            else handleDeleteBucket E cx bname w)
         else if Method r = ''HEAD'' then handleAccessBucket cx bname w
         else gerr (s3error S3ErrMethodNotAllowed))"

section \<open>Multipart uploads\<close>

definition handleUploadFini :: "'w env \<Rightarrow> svc \<Rightarrow> s3Context \<Rightarrow> string \<Rightarrow> Bucket \<Rightarrow> response \<Rightarrow> request \<Rightarrow> ('w, S3Error, hreply) go" where
  "handleUploadFini E S cx uploadId bucket w r = if_allowed cx S3P_PutObject
     (case Body r of None \<Rightarrow> gerr (s3error S3ErrIncompleteBody)
      | Some body \<Rightarrow>
          if \<not> xml_FiniParts S body then gerr (s3error S3ErrMissingRequestBodyError)
          else gtry (s3UploadFini E (cx_iam cx) bucket uploadId) (\<lambda>res. case res of
            Inl e \<Rightarrow> if e = ErrNotFound then gerr (s3error S3ErrNoSuchKey) else invalid_request e
          | Inr etag \<Rightarrow> gret (HTTPRespXML w (XMpuFini etag))))"

definition handleUploadInit :: "'w env \<Rightarrow> s3Context \<Rightarrow> string \<Rightarrow> Bucket \<Rightarrow> response \<Rightarrow> request \<Rightarrow> ('w, S3Error, hreply) go" where
  "handleUploadInit E cx oname bucket w r = if_allowed cx S3P_PutObject
     (gtry (s3UploadInit E (cx_iam cx) bucket oname (canned_acl r)) (\<lambda>res. case res of
        Inl e \<Rightarrow> invalid_request e
      | Inr upload \<Rightarrow> gret (HTTPRespXML w (XMpuInit (b_Name bucket) oname (u_UploadID upload)))))"

definition handleUploadListParts :: "'w env \<Rightarrow> s3Context \<Rightarrow> string \<Rightarrow> string \<Rightarrow> Bucket \<Rightarrow> response \<Rightarrow> ('w, S3Error, hreply) go" where
  "handleUploadListParts E cx uploadId oname bucket w = if_allowed cx S3P_ListMultipartUploadParts
     (gtry (s3UploadList E bucket oname uploadId) (\<lambda>res. case res of
        Inl e \<Rightarrow> invalid_request e | Inr ps \<Rightarrow> gret (HTTPRespXML w (XMpuParts ps))))"

definition handleUploadPart :: "'w env \<Rightarrow> s3Context \<Rightarrow> string \<Rightarrow> string \<Rightarrow> Bucket \<Rightarrow> response \<Rightarrow> request \<Rightarrow> Reader \<Rightarrow> ('w, S3Error, hreply) go" where
  "handleUploadPart E cx uploadId oname bucket w r rd = if_allowed cx S3P_PutObject
     (case getURLParam r ''partNumber'' of
        None \<Rightarrow> gerr (s3error S3ErrInvalidArgument)
      | Some part \<Rightarrow>
          let partno = fst (ParseInt part); sz = BodySize r
          in if sz = 0 then gerr (s3errorm S3ErrMissingContentLength ''content-length header missing'')
             else gtry (s3UploadPart E bucket oname uploadId partno \<lparr>cr_size = sz, cr_read = 0, cr_r = rd\<rparr>) (\<lambda>res. case res of
               Inl e \<Rightarrow> invalid_request e
             | Inr etag \<Rightarrow> gret (HRaw (WriteHeader 200 (rw_set ''ETag'' etag w)))))"

definition handleUploadAbort :: "'w env \<Rightarrow> s3Context \<Rightarrow> string \<Rightarrow> string \<Rightarrow> Bucket \<Rightarrow> response \<Rightarrow> ('w, S3Error, hreply) go" where
  "handleUploadAbort E cx uploadId oname bucket w = if_allowed cx S3P_AbortMultipartUpload
     (gtry (s3UploadAbort E bucket oname uploadId) (\<lambda>res. case res of
        Inl e \<Rightarrow> invalid_request e | Inr _ \<Rightarrow> gret (HRaw (WriteHeader 200 w))))"

section \<open>Reading an object\<close>

text \<open>The variables the closures of \<open>handleGetObject\<close> share: the offset in the object, the count and the response.\<close>

record dstate =
  dl_rover :: int
  dl_downloaded :: int
  dl_w :: response

definition dl_chunk :: "int \<Rightarrow> int \<Rightarrow> string \<Rightarrow> dstate \<Rightarrow> ('w, goerr \<times> dstate, dstate) go" where
  "dl_chunk from to bytes st =
     (let rover = dl_rover st; len = int (length bytes); re = int64_of (rover + len)
      in if re < from then gret (st\<lparr>dl_rover := re\<rparr>)
         else if rover \<ge> to then gret (st\<lparr>dl_rover := re\<rparr>)
         else
           let s_off = (if from > rover then int64_of (from - rover) else 0);
               e_off = (if to \<le> re then int64_of (to - rover) else len)
           in if s_off < 0 \<or> e_off < s_off \<or> len < e_off then gpanic
              else gret (st\<lparr>dl_w := rw_write (take (nat (e_off - s_off)) (drop (nat s_off) bytes)) (dl_w st),
                           dl_downloaded := int64_of (dl_downloaded st + (e_off - s_off)),
                           dl_rover := int64_of (rover + e_off)\<rparr>))"

definition dl_part :: "'w env \<Rightarrow> int \<Rightarrow> int \<Rightarrow> ObjectPart \<Rightarrow> dstate \<Rightarrow> ('w, goerr \<times> dstate, dstate) go" where
  "dl_part E from to p st =
     (let rover = dl_rover st; re = int64_of (rover + p_Size p)
      in if re < from then gret (st\<lparr>dl_rover := re\<rparr>)
         else if rover \<ge> to then gret (st\<lparr>dl_rover := re\<rparr>)
         else IterChunks E p (dl_chunk from to) st)"

text \<open>The body of a response, an error on the way being only logged: the headers are out.\<close>

definition download :: "'w env \<Rightarrow> Object \<Rightarrow> int \<Rightarrow> int \<Rightarrow> response \<Rightarrow> ('w, S3Error, response) go" where
  "download E ob from to w =
     gtry (IterParts E (o_ObjID ob) (dl_part E from to) \<lparr>dl_rover = 0, dl_downloaded = 0, dl_w = w\<rparr>) (\<lambda>res. case res of
       Inl (_, st) \<Rightarrow> gret (dl_w st) | Inr st \<Rightarrow> gret (dl_w st))"

definition range_text :: "svc \<Rightarrow> range_err \<Rightarrow> string" where
  "range_text S e = (case e of RangeErr m \<Rightarrow> m | RangeNum n \<Rightarrow> num_text S n)"

definition get_headers :: "s3Context \<Rightarrow> Object \<Rightarrow> int \<Rightarrow> response \<Rightarrow> response" where
  "get_headers cx ob ds w =
     (let w = (if cx_mime cx \<noteq> [] then rw_set ''Content-Type'' (cx_mime cx) w else w);
          w = rw_set ''Content-Length'' (Itoa ds) (rw_set ''ETag'' (o_ETag ob) w)
      in WriteHeader (if cx_errCode cx = 0 then 200 else cx_errCode cx) w)"

definition send_object :: "'w env \<Rightarrow> s3Context \<Rightarrow> Bucket \<Rightarrow> Object \<Rightarrow> int \<Rightarrow> int \<Rightarrow> response \<Rightarrow> ('w, S3Error, hreply) go" where
  "send_object E cx bucket ob from to0 w =
     (if from > o_Size ob then gerr (s3errorm S3ErrInvalidRange ''Object is too smal'')
      else let to = (if to0 > o_Size ob then o_Size ob else to0);
               ds0 = int64_of (to - from);
               ds = (if ds0 > o_Size ob then o_Size ob else ds0)
           in gtry (acctDownload E (cx_id cx) (b_NamespaceID bucket) ds) (\<lambda>res. case res of
                Inl _ \<Rightarrow> gerr (s3errorm S3ErrOperationAborted ''Downloads are limited'')
              | Inr _ \<Rightarrow> gbind (download E ob from to (get_headers cx ob ds w)) (\<lambda>w. gret (HRaw w))))"

definition handleGetObject :: "'w env \<Rightarrow> svc \<Rightarrow> s3Context \<Rightarrow> string \<Rightarrow> Bucket \<Rightarrow> response \<Rightarrow> request \<Rightarrow> ('w, S3Error, hreply) go" where
  "handleGetObject E S cx oname bucket w r = if_allowed cx S3P_GetObject
     (case (let rng = HGet r ''Range'' in if rng \<noteq> [] then ParseRange rng else Inr (0, MaxInt64)) of
        Inl e \<Rightarrow> gerr (s3errorm S3ErrInvalidRange (range_text S e))
      | Inr (from, to) \<Rightarrow>
          gtry (FindCurObject E bucket oname) (\<lambda>res. case res of
            Inl e \<Rightarrow> if e = ErrNotFound then gerr (s3error S3ErrNoSuchKey) else invalid_request e
          | Inr ob \<Rightarrow> send_object E cx bucket ob from to w))"

section \<open>Writing and deleting an object\<close>

definition handleCopyObject :: "'w env \<Rightarrow> s3Context \<Rightarrow> string \<Rightarrow> string \<Rightarrow> Bucket \<Rightarrow> response \<Rightarrow> request \<Rightarrow> ('w, S3Error, hreply) go" where
  "handleCopyObject E cx copy_source oname bucket w r =
     (case copy_source of
        [] \<Rightarrow> gpanic
      | c # rest \<Rightarrow>
          let src = (if c = CHR ''/'' then rest else copy_source)
          in case Index src ''/'' of
               None \<Rightarrow> gerr (s3errorm S3ErrInvalidRequest (''Wrong source '' @ src))
             | Some i \<Rightarrow>
                 let bname_source = take i src; oname_source = drop (Suc i) src
                 in if_access cx bname_source
                      (gtry (FindBucket E (cx_iam cx) bname_source) (\<lambda>res. case res of
                         Inl _ \<Rightarrow> gerr (s3error S3ErrInvalidBucketName)
                       | Inr bucket_source \<Rightarrow>
                           gtry (CopyObject E (cx_iam cx) bucket oname (canned_acl r) bucket_source oname_source) (\<lambda>res. case res of
                             Inl e \<Rightarrow> invalid_request e
                           | Inr (_, ob) \<Rightarrow> gret (HTTPRespXML w (XCopyResult (o_ETag ob) (o_CreationTime ob)))))))"

definition handlePutObject :: "'w env \<Rightarrow> s3Context \<Rightarrow> string \<Rightarrow> Bucket \<Rightarrow> response \<Rightarrow> request \<Rightarrow> Reader \<Rightarrow> ('w, S3Error, hreply) go" where
  "handlePutObject E cx oname bucket w r rd = if_allowed cx S3P_PutObject
     (let copy_source = HGet r ''X-Amz-Copy-Source''; sz = BodySize r
      in if copy_source \<noteq> [] then handleCopyObject E cx copy_source oname bucket w r
         else if sz = 0 then gerr (s3errorm S3ErrMissingContentLength ''content-length header missing'')
         else gtry (AddObject E (cx_iam cx) bucket oname (canned_acl r) \<lparr>cr_size = sz, cr_read = 0, cr_r = rd\<rparr>) (\<lambda>res. case res of
           Inl e \<Rightarrow> invalid_request e
         | Inr (bucket, ob, read) \<Rightarrow>
             if read \<noteq> sz
             then gseq (s3DeleteObject E (cx_iam cx) bucket oname) (gerr (s3errorm S3ErrIncompleteBody ''trimmed body''))
             else gret (HRaw (WriteHeader 200 (rw_set ''ETag'' (o_ETag ob) w)))))"

definition handleDeleteObject :: "'w env \<Rightarrow> s3Context \<Rightarrow> string \<Rightarrow> Bucket \<Rightarrow> response \<Rightarrow> ('w, S3Error, hreply) go" where
  "handleDeleteObject E cx oname bucket w = if_allowed cx S3P_DeleteObject
     (gtry (s3DeleteObject E (cx_iam cx) bucket oname) (\<lambda>res. case res of
        Inl e \<Rightarrow> invalid_request e | Inr _ \<Rightarrow> gret (HRaw (WriteHeader 200 w))))"

definition handleAccessObject :: "s3Context \<Rightarrow> string \<Rightarrow> string \<Rightarrow> response \<Rightarrow> ('w, S3Error, hreply) go" where
  "handleAccessObject cx bname oname w = if_allowed cx S3P_GetObject
     (gtry (s3CheckAccess bname oname) (\<lambda>res. case res of
        Inl e \<Rightarrow> invalid_request e | Inr _ \<Rightarrow> gret (HRaw (WriteHeader 200 w))))"

definition object_method :: "'w env \<Rightarrow> svc \<Rightarrow> s3Context \<Rightarrow> response \<Rightarrow> request \<Rightarrow> Reader \<Rightarrow> string \<Rightarrow> string \<Rightarrow> Bucket \<Rightarrow> ('w, S3Error, hreply) go" where
  "object_method E S cx w r rd bname oname bucket =
     (let up = getURLParam r ''uploadId''
      in if Method r = ''POST'' then
           (case up of Some uid \<Rightarrow> handleUploadFini E S cx uid bucket w r
            | None \<Rightarrow> if getURLParam r ''uploads'' \<noteq> None then handleUploadInit E cx oname bucket w r
                      else gerr (s3error S3ErrMethodNotAllowed))
         else if Method r = ''GET'' then
           (case up of Some uid \<Rightarrow> handleUploadListParts E cx uid oname bucket w
            | None \<Rightarrow> handleGetObject E S cx oname bucket w r)
         else if Method r = ''PUT'' then
           (case up of Some uid \<Rightarrow> handleUploadPart E cx uid oname bucket w r rd
            | None \<Rightarrow> handlePutObject E cx oname bucket w r rd)
         else if Method r = ''DELETE'' then
           (case up of Some uid \<Rightarrow> handleUploadAbort E cx uid oname bucket w
            | None \<Rightarrow> handleDeleteObject E cx oname bucket w)
         else if Method r = ''HEAD'' then handleAccessObject cx bname oname w
         else gerr (s3error S3ErrMethodNotAllowed))"

definition handleObject :: "'w env \<Rightarrow> svc \<Rightarrow> s3Context \<Rightarrow> response \<Rightarrow> request \<Rightarrow> Reader \<Rightarrow> string \<Rightarrow> string \<Rightarrow> ('w, S3Error, hreply) go" where
  "handleObject E S cx w r rd bname oname =
     (if bname = [] then gerr (s3error S3ErrInvalidBucketName)
      else if oname = [] then gerr (s3error S3ErrSwyInvalidObjectName)
      else if_access cx bname
        (gtry (FindBucket E (cx_iam cx) bname) (\<lambda>res. case res of
           Inl _ \<Rightarrow> gerr (s3error S3ErrInvalidBucketName)
         | Inr bucket \<Rightarrow> object_method E S cx w r rd bname oname bucket)))"

definition handleObjectReq :: "'w env \<Rightarrow> svc \<Rightarrow> s3Context \<Rightarrow> response \<Rightarrow> request \<Rightarrow> Reader \<Rightarrow> ('w, S3Error, hreply) go" where
  "handleObjectReq E S cx w r rd =
     (let oname = Vars r ''ObjName''
      in if oname = [] then handleBucket E S cx w r else handleObject E S cx w r rd (Vars r ''BucketName'') oname)"

section \<open>Websites\<close>

text \<open>\<open>filepath.Ext\<close>: from the last dot of the last path element on, or empty.\<close>

definition Ext :: "string \<Rightarrow> string" where
  "Ext path =
     (let r = takeWhile (\<lambda>c. c \<noteq> CHR ''/'') (rev path)
      in if CHR ''.'' \<in> set r then CHR ''.'' # rev (takeWhile (\<lambda>c. c \<noteq> CHR ''.'') r) else [])"

definition IsObjectIdHex :: "string \<Rightarrow> bool" where
  "IsObjectIdHex s \<longleftrightarrow> length s = 24 \<and> list_all (\<lambda>c. unhex c \<noteq> None) s"

text \<open>The document whose id is \<open>bson.ObjectIdHex(s)\<close>, told by the hex form of its id.\<close>

definition q_hex_active :: "'w env \<Rightarrow> string \<Rightarrow> doc \<Rightarrow> bool" where
  "q_hex_active E s d \<longleftrightarrow> oid_hex E (doc_id d) = ToLower s \<and> is_active d"

definition not_found :: "response \<Rightarrow> ('w, 'e, hreply) go" where
  "not_found w = gret (HRaw (http_Error [] 404 w))"

definition web_object :: "S3Website \<Rightarrow> string \<Rightarrow> string" where
  "web_object ws oname =
     (if oname = [] then index ws else if HasSuffix oname ''/'' then oname @ index ws else oname)"

definition web_context :: "svc \<Rightarrow> Iam \<Rightarrow> string \<Rightarrow> s3Context" where
  "web_context S iam oname =
     (let ext = Ext oname; cx = mkS3Context ''web'';
          cx = (if ext \<noteq> [] then (case map_of (mimes S) (tl ext) of Some m \<Rightarrow> cx\<lparr>cx_mime := m\<rparr> | None \<Rightarrow> cx) else cx)
      in ctxAuthorize (Some iam) cx)"

definition web_serve :: "'w env \<Rightarrow> svc \<Rightarrow> response \<Rightarrow> request \<Rightarrow> Reader \<Rightarrow> Account \<Rightarrow> S3Website \<Rightarrow> string \<Rightarrow> ('w, unit, hreply) go" where
  "web_serve E S w r rd account ws bname =
     (if Path r = [] then gpanic
      else let iam = zero_Iam\<lparr>iam_State := S3StateActive, iam_AccountObjID := ac_ObjID account, iam_Policy := getWebPolicy bname\<rparr>;
               oname = web_object ws (tl (Path r));
               cx = web_context S iam oname
           in gtry (handleObject E S cx w r rd bname oname) (\<lambda>res. case res of
                Inr reply \<Rightarrow> gret reply
              | Inl serr \<Rightarrow>
                  if ErrorCode serr \<noteq> S3ErrNoSuchKey then gret (HRaw (http_Error (Message serr) 500 w))
                  else if ws_ErrDoc ws \<noteq> []
                  then gtry (handleObject E S (cx\<lparr>cx_errCode := 404\<rparr>) w r rd bname (ws_ErrDoc ws)) (\<lambda>res. case res of
                         Inr reply \<Rightarrow> gret reply | Inl _ \<Rightarrow> not_found w)
                  else not_found w))"

definition handleWebReq :: "'w env \<Rightarrow> svc \<Rightarrow> response \<Rightarrow> request \<Rightarrow> Reader \<Rightarrow> ('w, unit, hreply) go" where
  "handleWebReq E S w r rd =
     (let host = hd (SplitN (Host r) (CHR '':'') 2)
      in if \<not> HasSuffix host (webRoot S) then gret (HRaw (http_Error [] 502 w))
         else case SplitN (TrimSuffix host (webRoot S)) (CHR ''.'') 3 of
           [bname, acc, _] \<Rightarrow>
             if \<not> IsObjectIdHex acc then not_found w
             else gtry (dbS3FindOne E S3Iams (q_hex_active E acc)) (\<lambda>res. case res of
               Inl _ \<Rightarrow> not_found w
             | Inr d \<Rightarrow>
                 let account = as_Account d
                 in gtry (dbS3FindOne E S3Websites (q_website (account_BCookie E account bname))) (\<lambda>res. case res of
                      Inl _ \<Rightarrow> not_found w
                    | Inr d \<Rightarrow> web_serve E S w r rd account (as_Website d) bname))
         | _ \<Rightarrow> not_found w)"

text \<open>The table of types: the first field of a line for each of the others, up to the first empty line.\<close>

fun read_mimes :: "string list \<Rightarrow> (string \<times> string) list \<Rightarrow> string + (string \<times> string) list" where
  "read_mimes [] m = Inr m"
| "read_mimes (ln # lns) m =
     (if ln = [] then Inr m
      else case Fields ln of
        mtyp # ext # exts \<Rightarrow> read_mimes lns (foldl (\<lambda>m e. (e, mtyp) # m) m (ext # exts))
      | _ \<Rightarrow> Inl (''Parse error: '' @ ln))"

definition webReadMimes :: "string \<Rightarrow> string + (string \<times> string) list" where
  "webReadMimes types = read_mimes (Split types (CHR 0x0A)) []"

section \<open>The wrappers of the API\<close>

definition CORS_Headers :: "string list" where
  "CORS_Headers = [SwyS3_AccessKey, SwyS3_AdminToken, ''Content-Type'', ''Content-Length'', ''Content-MD5'', ''Authorization'',
     ''X-Amz-Date'', ''x-amz-acl'', ''x-amz-copy-source'', ''X-Amz-Content-Sha256'', ''X-Amz-User-Agent'']"

definition CORS_Methods :: "string list" where
  "CORS_Methods = [''POST'', ''PUT'', ''DELETE'', ''GET'', ''HEAD'']"

definition handleS3API :: "'w env \<Rightarrow> (s3Context \<Rightarrow> response \<Rightarrow> request \<Rightarrow> ('w, S3Error, hreply) go) \<Rightarrow> request \<Rightarrow> ('w, unit, hreply) go" where
  "handleS3API E cb r =
     (let (done, w) = HandleCORS r CORS_Methods CORS_Headers rw_empty
      in if done then gret (HRaw w)
         else gtry (s3Authorize E r) (\<lambda>res. case res of
           Inl (code, err) \<Rightarrow> gret (HErr w (HTTPRespError code [err]))
         | Inr iam \<Rightarrow>
             gtry (cb (ctxAuthorize iam (mkS3Context ''api'')) w r) (\<lambda>res. case res of
               Inr reply \<Rightarrow> gret reply
             | Inl e \<Rightarrow> gret (HErr w (HTTPRespS3Error e)))))"

definition handleAdmin :: "'w env \<Rightarrow> (s3Context \<Rightarrow> response \<Rightarrow> request \<Rightarrow> ('w, unit, hreply) go) \<Rightarrow> request \<Rightarrow> ('w, unit, hreply) go" where
  "handleAdmin E cb r =
     (let (done, w) = HandleCORS r CORS_Methods CORS_Headers rw_empty
      in if done then gret (HRaw w)
         else case s3VerifyAdmin E r of
           Some err \<Rightarrow> gret (HRaw (http_Error err 401 w))
         | None \<Rightarrow> cb (mkS3Context ''admin'') w r)"

section \<open>The admin API\<close>

definition bad_request :: "string \<Rightarrow> response \<Rightarrow> ('w, unit, hreply) go" where
  "bad_request err w = gret (HRaw (http_Error err 400 w))"

definition handleKeygen :: "'w env \<Rightarrow> svc \<Rightarrow> response \<Rightarrow> request \<Rightarrow> ('w, unit, hreply) go" where
  "handleKeygen E S w r = (case json_KeyGen S (Body r) of
     Inl err \<Rightarrow> bad_request err w
   | Inr kg \<Rightarrow>
       if kg_Namespace kg = [] then bad_request ''Missing namespace name'' w
       else gtry (genNewAccessKey E (kg_Namespace kg) (kg_Bucket kg) (kg_Lifetime kg)) (\<lambda>res. case res of
         Inl e \<Rightarrow> bad_request (err_msg e) w
       | Inr akey \<Rightarrow>
           gtry (s3DecryptAccessKeySecret E akey) (\<lambda>res. case res of
             Inl e \<Rightarrow> gpanic
           | Inr secret \<Rightarrow> gret (Respond w (JKeyGenResult (k_AccessKeyID akey) secret (oid_hex E (k_AccountObjID akey)))))))"

definition handleKeydel :: "'w env \<Rightarrow> svc \<Rightarrow> response \<Rightarrow> request \<Rightarrow> ('w, unit, hreply) go" where
  "handleKeydel E S w r = (case json_KeyDel S (Body r) of
     Inl err \<Rightarrow> bad_request err w
   | Inr i \<Rightarrow>
       if i = [] then bad_request ''Missing key'' w
       else gtry (dbRemoveAccessKey E i) (\<lambda>res. case res of
         Inl e \<Rightarrow> bad_request (err_msg e) w | Inr _ \<Rightarrow> gret (HRaw (WriteHeader 200 w))))"

definition handleKeys :: "'w env \<Rightarrow> svc \<Rightarrow> response \<Rightarrow> request \<Rightarrow> ('w, unit, hreply) go" where
  "handleKeys E S w r =
     (if Method r = ''POST'' then handleKeygen E S w r else if Method r = ''DELETE'' then handleKeydel E S w r else gret (HRaw w))"

definition handleNotify :: "'w env \<Rightarrow> svc \<Rightarrow> response \<Rightarrow> request \<Rightarrow> ('w, unit, hreply) go" where
  "handleNotify E S w r = (case json_Subscribe S (Body r) of
     Inl err \<Rightarrow> bad_request err w
   | Inr params \<Rightarrow>
       gtry (if Method r = ''POST'' then s3Subscribe E params else if Method r = ''DELETE'' then s3Unsubscribe E params else gret ()) (\<lambda>res. case res of
         Inl e \<Rightarrow> bad_request (err_msg e) w | Inr _ \<Rightarrow> gret (HRaw (WriteHeader 202 w))))"

definition handleStats :: "'w env \<Rightarrow> response \<Rightarrow> request \<Rightarrow> ('w, unit, hreply) go" where
  "handleStats E w r =
     gtry (s3AccountFind E (Vars r ''ns'')) (\<lambda>res. case res of
       Inl _ \<Rightarrow> gret (HRaw (http_Error ''No such namespace'' 404 w))
     | Inr act \<Rightarrow>
         gtry (StatsFindFor E act) (\<lambda>res. case res of
           Inl _ \<Rightarrow> gret (HRaw (http_Error ''Error getting stats'' 500 w))
         | Inr st \<Rightarrow> gret (Respond w (JAcctStats (st_CntObjects st) (st_CntBytes st) (st_OutBytes st) (st_OutBytesWeb st)))))"

definition handleLimits :: "'w env \<Rightarrow> svc \<Rightarrow> response \<Rightarrow> request \<Rightarrow> ('w, unit, hreply) go" where
  "handleLimits E S w r = (case json_AcctLimits S (Body r) of
     Inl _ \<Rightarrow> gret (HRaw (http_Error ''Cannot read limits'' 400 w))
   | Inr lim \<Rightarrow>
       gtry (s3AccountFind E (Vars r ''ns'')) (\<lambda>res. case res of
         Inl _ \<Rightarrow> gret (HRaw (http_Error ''No such namespace'' 404 w))
       | Inr act \<Rightarrow>
           gtry (LimitsSetFor E act lim) (\<lambda>res. case res of
             Inl _ \<Rightarrow> gret (HRaw (http_Error ''Error setting limits'' 500 w))
           | Inr _ \<Rightarrow> gret (HRaw (WriteHeader 200 w)))))"

end
