(* ===== verification/S3_Serve.thy ===== *)
theory S3_Serve
  imports S3_Http
begin

text \<open>
  What the handlers of \<open>S3_Http\<close> guarantee: a ranged download sends exactly the slice of the object, a
  request without the right changes nothing, and the arithmetic of a range that reaches the end of
  the 64-bit integers.
\<close>

section \<open>The slice of a range\<close>

definition slice :: "int \<Rightarrow> int \<Rightarrow> string \<Rightarrow> string" where
  "slice from to s = drop (nat from) (take (nat to) s)"

text \<open>The state of the download after the bytes \<open>pre\<close> of the object. Past the end of the range the
  offset is no longer exact, but stays past it.\<close>

definition sent :: "int \<Rightarrow> int \<Rightarrow> response \<Rightarrow> string \<Rightarrow> dstate \<Rightarrow> bool" where
  "sent from to w pre st \<longleftrightarrow> 0 \<le> dl_rover st \<and> dl_rover st \<le> int (length pre)
     \<and> (if int (length pre) < to then dl_rover st = int (length pre) else to \<le> dl_rover st)
     \<and> rw_headers (dl_w st) = rw_headers w \<and> rw_status (dl_w st) = rw_status w
     \<and> concat (rw_body (dl_w st)) = concat (rw_body w) @ slice from to pre"

lemma slice_append:
  assumes "int (length pre) < to" and "0 \<le> from"
  shows "slice from to (pre @ b) = slice from to pre @ drop (nat from - length pre) (take (nat to - length pre) b)"
  using assms by (simp add: slice_def)

lemma slice_before: "int (length s) \<le> from \<Longrightarrow> slice from to s = []"
  by (simp add: slice_def)

lemma slice_past: "to \<le> int (length pre) \<Longrightarrow> slice from to (pre @ b) = slice from to pre"
  by (simp add: slice_def)

lemma rw_write_sent:
  assumes "rw_status w \<noteq> None"
  shows "rw_headers (rw_write b w) = rw_headers w" "rw_status (rw_write b w) = rw_status w"
    "concat (rw_body (rw_write b w)) = concat (rw_body w) @ b"
  using assms by (auto simp: rw_write_def WriteHeader_def)

lemma dl_chunk_sent:
  assumes "sent from to w pre st" and "0 \<le> from" and "from \<le> to" and "int (length (pre @ b)) \<le> MaxInt64" and "rw_status w \<noteq> None"
  shows "\<exists>st'. dl_chunk from to b st = gret st' \<and> sent from to w (pre @ b) st'"
proof -
  let ?n = "int (length b)"
  define rover where "rover = dl_rover st"
  have bounds: "0 \<le> rover" "rover \<le> int (length pre)" using assms(1) by (simp_all add: sent_def rover_def)
  then have re: "int64_of (rover + ?n) = rover + ?n" using assms(4) by (intro int64_of_id) (simp add: int64_bounds)
  show ?thesis
  proof (cases "int (length pre) < to")
    case False
    then have "to \<le> rover" using assms(1) by (simp add: sent_def rover_def)
    then have "dl_chunk from to b st = gret (st\<lparr>dl_rover := rover + ?n\<rparr>)"
      using assms(3) re by (simp add: dl_chunk_def Let_def rover_def)
    moreover have "sent from to w (pre @ b) (st\<lparr>dl_rover := rover + ?n\<rparr>)"
      using assms(1) False \<open>to \<le> rover\<close> bounds by (simp add: sent_def slice_past)
    ultimately show ?thesis by blast
  next
    case True
    then have r: "rover = int (length pre)" using assms(1) by (simp add: sent_def rover_def)
    show ?thesis
    proof (cases "rover + ?n < from")
      case before: True
      then have "dl_chunk from to b st = gret (st\<lparr>dl_rover := rover + ?n\<rparr>)"
        using re by (simp add: dl_chunk_def Let_def rover_def)
      moreover have "sent from to w (pre @ b) (st\<lparr>dl_rover := rover + ?n\<rparr>)"
        using assms(1,3) before r True by (simp add: sent_def slice_before)
      ultimately show ?thesis by blast
    next
      case False
      define s_off where "s_off = (if from > rover then from - rover else 0)"
      define e_off where "e_off = (if to \<le> rover + ?n then to - rover else ?n)"
      have off: "0 \<le> s_off" "s_off \<le> e_off" "e_off \<le> ?n" "rover + e_off = min to (rover + ?n)"
        using False True r assms(2,3) by (auto simp: s_off_def e_off_def)
      have i64: "(if from > rover then int64_of (from - rover) else 0) = s_off"
          "(if to \<le> rover + ?n then int64_of (to - rover) else ?n) = e_off"
          "int64_of (rover + e_off) = rover + e_off"
        using off False True r assms(2-4) bounds by (auto simp: s_off_def e_off_def int64_bounds intro!: int64_of_id)
      let ?b = "take (nat (e_off - s_off)) (drop (nat s_off) b)"
      let ?st = "st\<lparr>dl_w := rw_write ?b (dl_w st), dl_downloaded := int64_of (dl_downloaded st + (e_off - s_off)), dl_rover := rover + e_off\<rparr>"
      have "dl_chunk from to b st = gret ?st"
        unfolding dl_chunk_def Let_def rover_def [symmetric] re i64 using False True off(1-3) by (simp add: r [symmetric])
      moreover have "?b = drop (nat from - length pre) (take (nat to - length pre) b)"
        using off True r False assms(2,3)
        by (simp add: s_off_def e_off_def drop_take nat_diff_distrib split: if_splits)
      moreover have "rw_status (dl_w st) \<noteq> None" using assms(1,5) by (simp add: sent_def)
      ultimately show ?thesis
        using assms(1,2) True r off by (intro exI [of _ ?st]) (auto simp: sent_def slice_append rw_write_sent)
    qed
  qed
qed

section \<open>The stored bytes\<close>

definition part_data :: "dbview \<Rightarrow> ObjectPart \<Rightarrow> string \<Rightarrow> bool" where
  "part_data V p b \<longleftrightarrow> p_Size p = int (length b)
     \<and> (case p_Data p of Some d \<Rightarrow> b = d | None \<Rightarrow> p_Chunks p \<noteq> [] \<and> (\<exists>bs. list_all2 (chunk_at V) (p_Chunks p) bs \<and> b = concat bs))"

text \<open>\<open>stored V i content\<close>: the active parts of the object \<open>i\<close>, in the order of their numbers, hold \<open>content\<close>.\<close>

definition stored :: "dbview \<Rightarrow> oid \<Rightarrow> string \<Rightarrow> bool" where
  "stored V i content \<longleftrightarrow> (\<exists>ps bs. sorted_wrt (<) (map p_Part ps) \<and> DPart ` set ps = matching V S3ObjectData (q_ref_active i)
     \<and> list_all2 (part_data V) ps bs \<and> content = concat bs)"

lemma stored_cong:
  assumes "V' S3DataChunks = V S3DataChunks" and "V' S3ObjectData = V S3ObjectData"
  shows "stored V' i content = stored V i content"
proof -
  have "part_data V' = part_data V"
    unfolding fun_eq_iff part_data_def list_all2_chunk_at_cong [of V' V, OF assms(1)] by simp
  then show ?thesis using assms(2) by (simp add: stored_def matching_def)
qed

lemma stored_parts:
  assumes "sorted_wrt (<) (map p_Part ps)" and "DPart ` set ps = set ds" and "distinct ds" and "sorted (map by_part ds)"
  shows "map as_Part ds = ps"
proof -
  have docs: "\<forall>d \<in> set ds. \<exists>p. d = DPart p" using assms(2) by blast
  then have set: "set (map as_Part ds) = set ps" using assms(2) by (metis (no_types, lifting) as_eqs(5) image_image image_set map_idI list.map_comp comp_apply)
  have inj: "inj_on p_Part (set ps)" using assms(1) by (simp add: strict_sorted_iff distinct_map)
  have "inj_on as_Part (set ds)" using docs by (metis as_eqs(5) inj_onI)
  then have dist: "distinct (map p_Part (map as_Part ds))"
    using assms(3) inj by (simp add: distinct_map set [simplified] comp_inj_on del: map_map)
  have "by_part d \<le> by_part d' \<longleftrightarrow> p_Part (as_Part d) \<le> p_Part (as_Part d')" for d d' by (auto simp: by_part_def)
  then have "sorted (map p_Part (map as_Part ds))" using assms(4) by (simp add: sorted_map)
  then show ?thesis
    using map_sorted_distinct_set_unique [of p_Part "map as_Part ds" ps] inj dist set assms(1) by (simp add: strict_sorted_iff)
qed

lemma wp_dl_chunks:
  assumes E: "mongo_ok E view" "no_faults E view" and r: "0 \<le> from" "from \<le> to" and st: "rw_status rw \<noteq> None"
  shows "ids_ok (view w) \<Longrightarrow> list_all2 (chunk_at (view w)) ids bs \<Longrightarrow> sent from to rw pre st \<Longrightarrow> int (length (pre @ concat bs)) \<le> MaxInt64 \<Longrightarrow>
    wp (gfold (\<lambda>cid s. gbind (with_state s (find_chunk E cid)) (\<lambda>b. dl_chunk from to b s)) ids st)
      (\<lambda>res w'. \<exists>st'. res = Ok st' \<and> sent from to rw (pre @ concat bs) st' \<and> view w' = view w) w"
proof (induction ids arbitrary: bs pre st w)
  case (Cons cid ids)
  then obtain b bs' where bs: "bs = b # bs'" "chunk_at (view w) cid b" "list_all2 (chunk_at (view w)) ids bs'"
    by (auto simp: list_all2_Cons1)
  obtain st1 where st1: "(dl_chunk from to b st :: ('a, goerr \<times> dstate, dstate) go) = gret st1" "sent from to rw (pre @ b) st1"
    using dl_chunk_sent [OF Cons.prems(3) r _ st, of b] Cons.prems(4) bs(1) by auto
  have "wp (gfold (\<lambda>cid s. gbind (with_state s (find_chunk E cid)) (\<lambda>b. dl_chunk from to b s)) ids st1)
      (\<lambda>res w'. \<exists>st'. res = Ok st' \<and> sent from to rw ((pre @ b) @ concat bs') st' \<and> view w' = view w1) w1"
    if "view w1 = view w" for w1
    by (rule Cons.IH) (use Cons.prems bs st1 that in simp_all)
  then show ?case
    unfolding gfold.simps with_state_def wp_simps
    by (intro wp_find_chunk [OF E Cons.prems(1) bs(2)]) (auto simp: wp_simps st1 bs(1))
qed (simp add: wp_simps)

lemma wp_dl_part:
  assumes E: "mongo_ok E view" "no_faults E view" and r: "0 \<le> from" "from \<le> to" and st: "rw_status rw \<noteq> None"
    and ids: "ids_ok (view w)" and p: "part_data (view w) p b" and s: "sent from to rw pre st" and len: "int (length (pre @ b)) \<le> MaxInt64"
  shows "wp (dl_part E from to p st) (\<lambda>res w'. \<exists>st'. res = Ok st' \<and> sent from to rw (pre @ b) st' \<and> view w' = view w) w"
proof -
  have sz: "p_Size p = int (length b)" using p by (simp add: part_data_def)
  have bounds: "0 \<le> dl_rover st" "dl_rover st \<le> int (length pre)" using s by (simp_all add: sent_def)
  have re: "int64_of (dl_rover st + p_Size p) = dl_rover st + p_Size p"
    using bounds len sz by (intro int64_of_id) (simp add: int64_bounds)
  consider (before) "dl_rover st + int (length b) < from" | (past) "to \<le> dl_rover st"
    | (here) "\<not> dl_rover st + int (length b) < from" "\<not> to \<le> dl_rover st" by linarith
  then show ?thesis
  proof cases
    case before
    then have "sent from to rw (pre @ b) (st\<lparr>dl_rover := dl_rover st + int (length b)\<rparr>)"
      using s r by (auto simp: sent_def slice_before split: if_splits)
    then show ?thesis using before re sz by (simp add: dl_part_def Let_def wp_simps)
  next
    case past
    then have "sent from to rw (pre @ b) (st\<lparr>dl_rover := dl_rover st + int (length b)\<rparr>)"
      using s r by (auto simp: sent_def slice_past split: if_splits)
    then show ?thesis using past re sz r by (simp add: dl_part_def Let_def wp_simps)
  next
    case here
    have "wp (IterChunks E p (dl_chunk from to) st) (\<lambda>res w'. \<exists>st'. res = Ok st' \<and> sent from to rw (pre @ b) st' \<and> view w' = view w) w"
    proof (cases "p_Data p")
      case None
      then obtain bs where "list_all2 (chunk_at (view w)) (p_Chunks p) bs" "b = concat bs" "p_Chunks p \<noteq> []"
        using p by (auto simp: part_data_def)
      then show ?thesis using None wp_dl_chunks [OF E r st ids, of "p_Chunks p" bs pre] s len by (simp add: IterChunks_def)
    next
      case (Some d)
      obtain st' where "(dl_chunk from to b st :: ('a, goerr \<times> dstate, dstate) go) = gret st'" "sent from to rw (pre @ b) st'"
        using dl_chunk_sent [OF s r len st] by blast
      then show ?thesis using p Some by (simp add: IterChunks_def part_data_def wp_simps)
    qed
    then show ?thesis using here re sz by (simp add: dl_part_def Let_def)
  qed
qed

lemma wp_dl_parts:
  assumes E: "mongo_ok E view" "no_faults E view" and r: "0 \<le> from" "from \<le> to" and st: "rw_status rw \<noteq> None"
  shows "ids_ok (view w) \<Longrightarrow> list_all2 (part_data (view w)) (map as_Part ds) bs \<Longrightarrow> sent from to rw pre st \<Longrightarrow> int (length (pre @ concat bs)) \<le> MaxInt64 \<Longrightarrow>
    wp (gfold (\<lambda>d s. dl_part E from to (as_Part d) s) ds st)
      (\<lambda>res w'. \<exists>st'. res = Ok st' \<and> sent from to rw (pre @ concat bs) st' \<and> view w' = view w) w"
proof (induction ds arbitrary: bs pre st w)
  case (Cons d ds)
  then obtain b bs' where bs: "bs = b # bs'" "part_data (view w) (as_Part d) b" "list_all2 (part_data (view w)) (map as_Part ds) bs'"
    by (auto simp: list_all2_Cons1)
  have rest: "wp (gfold (\<lambda>d s. dl_part E from to (as_Part d) s) ds st1)
      (\<lambda>res w'. \<exists>st'. res = Ok st' \<and> sent from to rw ((pre @ b) @ concat bs') st' \<and> view w' = view w1) w1"
    if "view w1 = view w" "sent from to rw (pre @ b) st1" for w1 st1
    by (rule Cons.IH) (use Cons.prems bs that in simp_all)
  have "wp (dl_part E from to (as_Part d) st) (\<lambda>res w'. \<exists>st'. res = Ok st' \<and> sent from to rw (pre @ b) st' \<and> view w' = view w) w"
    by (rule wp_dl_part [OF E r st Cons.prems(1) bs(2) Cons.prems(3)]) (use Cons.prems(4) bs(1) in simp)
  then show ?case unfolding gfold.simps wp_gbind
    by (rule wp_mono) (use rest bs(1) in fastforce)
qed (simp add: wp_simps)

section \<open>The download is the slice\<close>

lemma stored_fetch:
  assumes E: "mongo_ok E view" "no_faults E view" and "stored (view w) i content"
    and Q: "\<And>ds bs w'. view w' = view w \<Longrightarrow> list_all2 (part_data (view w)) (map as_Part ds) bs \<Longrightarrow> content = concat bs \<Longrightarrow> Q (Ok ds) w'"
  shows "wp (dbS3FindAllSorted E S3ObjectData (q_ref_active i) by_part) Q w"
proof -
  obtain ps bs where ps: "sorted_wrt (<) (map p_Part ps)" "DPart ` set ps = matching (view w) S3ObjectData (q_ref_active i)"
      "list_all2 (part_data (view w)) ps bs" "content = concat bs" using assms(3) by (auto simp: stored_def)
  show ?thesis
  proof (rule wp_FindAllSorted [OF E(1)], goal_cases)
    case (1 ds w1)
    have "map as_Part ds = ps" by (rule stored_parts) (use ps 1 in auto)
    then show ?case using Q [of w1 ds bs] 1 ps by simp
  qed (use E in simp)
qed

lemma wp_download:
  assumes E: "mongo_ok E view" "no_faults E view" and ids: "ids_ok (view w)" and c: "stored (view w) (o_ObjID ob) content"
    and r: "0 \<le> from" "from \<le> to" and len: "int (length content) \<le> MaxInt64" and st: "rw_status rw \<noteq> None"
    and Q: "\<And>rw' w'. rw_headers rw' = rw_headers rw \<Longrightarrow> rw_status rw' = rw_status rw \<Longrightarrow>
        concat (rw_body rw') = concat (rw_body rw) @ slice from to content \<Longrightarrow> view w' = view w \<Longrightarrow> Q (Ok rw') w'"
  shows "wp (download E ob from to rw) Q w"
  unfolding download_def IterParts_def with_state_def wp_simps
proof (rule stored_fetch [OF E c], goal_cases)
  case (1 ds bs w1)
  have init: "sent from to rw [] \<lparr>dl_rover = 0, dl_downloaded = 0, dl_w = rw\<rparr>" using r by (simp add: sent_def slice_def)
  have "wp (gfold (\<lambda>d s. dl_part E from to (as_Part d) s) ds \<lparr>dl_rover = 0, dl_downloaded = 0, dl_w = rw\<rparr>)
      (\<lambda>res w'. \<exists>st'. res = Ok st' \<and> sent from to rw ([] @ concat bs) st' \<and> view w' = view w1) w1"
    by (rule wp_dl_parts [OF E r st _ _ init]) (use 1 ids len in auto)
  then have "wp (gfold (\<lambda>d s. dl_part E from to (as_Part d) s) ds \<lparr>dl_rover = 0, dl_downloaded = 0, dl_w = rw\<rparr>)
      (on_any (\<lambda>a. wp (case a of Inl (_, st) \<Rightarrow> gret (dl_w st) | Inr st \<Rightarrow> gret (dl_w st)) Q) Q) w1"
    by (rule wp_mono) (use 1 Q in \<open>auto simp: wp_simps sent_def\<close>)
  then show ?case by (simp add: wp_simps)
qed

lemma wp_ReadObject_stored:
  assumes E: "mongo_ok E view" "no_faults E view" "radosDisabled E" and ids: "ids_ok (view w)"
    and cur: "current (view w) (OCookie E bucket oname 1) ob" and c: "stored (view w) (o_ObjID ob) content"
  shows "wp (ReadObject E bucket oname) (\<lambda>res w'. res = Ok content \<and> view w' = view w) w"
proof -
  have parts: "wp (gfold (\<lambda>od res. gbind (ReadChunks E od) (\<lambda>x. gret (res @ x))) ps acc)
      (\<lambda>res w'. res = Ok (acc @ concat bs) \<and> view w' = view w) w1"
    if "list_all2 (part_data (view w)) ps bs" "view w1 = view w" for ps bs acc w1
    using that
  proof (induction ps arbitrary: bs acc w1)
    case (Cons p ps)
    then obtain b bs' where bs: "bs = b # bs'" "part_data (view w) p b" "list_all2 (part_data (view w)) ps bs'"
      by (auto simp: list_all2_Cons1)
    show ?case unfolding gfold.simps wp_simps
      by (rule wp_ReadChunks [OF E, where b = b])
         (use bs ids Cons in \<open>auto simp: part_data_def wp_simps append_assoc [symmetric] simp del: append_assoc split: option.splits\<close>)
  qed (simp add: wp_simps)
  show ?thesis
    unfolding ReadObject_def ReadData_def PartsFindForRead_def ReadParts_def wp_simps
    by (rule wp_FindCurObject [OF E(1,2) cur])
       (use c parts [where acc = "[]"] in \<open>auto simp: wp_simps intro!: stored_fetch [OF E(1,2)]\<close>)
qed

definition wanted_range :: "request \<Rightarrow> int \<Rightarrow> int \<Rightarrow> bool" where
  "wanted_range r from to \<longleftrightarrow> (if HGet r ''Range'' = [] then from = 0 \<and> to = MaxInt64 else ParseRange (HGet r ''Range'') = Inr (from, to))"

lemma wp_send_object:
  assumes E: "mongo_ok E view" "no_faults E view" and ids: "ids_ok (view w)" and c: "stored (view w) (o_ObjID ob) content"
    and sz: "o_Size ob = int (length content)" "int (length content) \<le> MaxInt64"
    and r: "0 \<le> from" "from \<le> int (length content)" "from \<le> to" and part: "part = slice from to content"
    and st: "stats_at (view w) (b_NamespaceID bucket) j s" "\<not> download_refused s (int (length part))" and rw: "rw_status rw = None"
    and Q: "\<And>rw' w'. rw_headers rw' = rw_headers (get_headers cx ob (int (length part)) rw) \<Longrightarrow>
        rw_status rw' = rw_status (get_headers cx ob (int (length part)) rw) \<Longrightarrow> concat (rw_body rw') = concat (rw_body rw) @ part \<Longrightarrow>
        view w' = put_doc S3Stats j (Some (DStats (inc_out (cx_id cx) (int (length part)) s))) (view w) \<Longrightarrow> Q (Ok (HRaw rw')) w'"
  shows "wp (send_object E cx bucket ob from to rw) Q w"
proof -
  define to' where "to' = (if to > o_Size ob then o_Size ob else to)"
  have r': "from \<le> to'" using sz r by (simp add: to'_def)
  have sl: "slice from to' content = part" using sz by (simp add: part slice_def to'_def)
  have len: "to' - from = int (length part)" unfolding sl [symmetric] slice_def using sz r r' by (auto simp: to'_def)
  have ds: "(if int64_of (to' - from) > o_Size ob then o_Size ob else int64_of (to' - from)) = to' - from"
    using sz r r' int64_of_id [of "to' - from"] by (auto simp: to'_def int64_bounds)
  let ?rw = "get_headers cx ob (to' - from) rw"
  have hd: "rw_status ?rw \<noteq> None" "rw_body ?rw = rw_body rw"
    using rw by (simp_all add: get_headers_def Let_def rw_set_def WriteHeader_def)
  have dl: "wp (download E ob from to' ?rw) (on_ok (\<lambda>w. wp (gret (HRaw w)) Q) Q) w2"
    if v: "view w2 = put_doc S3Stats j (Some (DStats (inc_out (cx_id cx) (int (length part)) s))) (view w)" for w2
  proof (rule wp_download [OF E, where content = content], goal_cases)
    case 1
    show ?case unfolding v using ids ids_ok_stats [OF ids st(1)] by (auto simp: inc_out_def intro!: ids_ok_put)
  next
    case 2
    show ?case using c stored_cong [of "view w2" "view w"] by (simp add: v)
  qed (use sz r r' hd sl v len in \<open>auto simp: wp_simps intro!: Q\<close>)
  have "wp (acctDownload E (cx_id cx) (b_NamespaceID bucket) (to' - from)) (on_any (\<lambda>a. wp (case a of
      Inl _ \<Rightarrow> gerr (s3errorm S3ErrOperationAborted ''Downloads are limited'')
    | Inr _ \<Rightarrow> gbind (download E ob from to' ?rw) (\<lambda>w. gret (HRaw w))) Q) Q) w"
    by (rule wp_acctDownload [OF E st(1)]) (use st len dl in \<open>auto simp: wp_simps\<close>)
  then show ?thesis unfolding send_object_def Let_def to'_def [symmetric] ds using sz r by (simp add: wp_simps)
qed

text \<open>
  C5. A download is a slice. Getting an object, with or without a \<open>Range\<close> header, sends exactly the bytes
  that range has in what \<open>ReadObject\<close> reads as the whole object, however the object is cut into parts and chunks and
  wherever the range falls among them; the status is 200, the length header is the length of what is
  sent, and the tenant is charged for just these bytes. (The handler streams chunk by
  chunk and skips parts by their recorded sizes; the reference reads everything.)
\<close>

theorem get_object_slice:
  assumes "mongo_ok E view" and "no_faults E view" and "radosDisabled E" and "ids_ok (view w)"
    and "current (view w) (OCookie E bucket oname 1) ob" and "stored (view w) (o_ObjID ob) content"
    and "o_Size ob = int (length content)" and "int (length content) \<le> MaxInt64"
    and "ctxAllowed cx S3P_GetObject = Some True" and "cx_errCode cx = 0"
    and "wanted_range r from to" and "0 \<le> from" and "from \<le> int (length content)" and "from \<le> to"
    and "part = take (nat (to - from)) (drop (nat from) content)"
    and "stats_at (view w) (b_NamespaceID bucket) j s" and "\<not> download_refused s (int (length part))"
    and "rw_status rw = None" and "rw_body rw = []"
  shows "\<exists>rw' w'. handleGetObject E S cx oname bucket rw r w = (Ok (HRaw rw'), w')
    \<and> concat (rw_body rw') = part \<and> fst (ReadObject E bucket oname w) = Ok content
    \<and> rw_status rw' = Some 200 \<and> map_of (rw_headers rw') ''Content-Length'' = Some (Itoa (int (length part)))
    \<and> view w' = put_doc S3Stats j (Some (DStats (inc_out (cx_id cx) (int (length part)) s))) (view w)"
proof -
  note E = assms(1,2)
  have sl: "part = slice from to content" using assms(12-15) by (simp add: slice_def drop_take nat_diff_distrib)
  let ?Q = "\<lambda>res w'. \<exists>rw'. res = Ok (HRaw rw') \<and> concat (rw_body rw') = part \<and> rw_status rw' = Some 200
    \<and> map_of (rw_headers rw') ''Content-Length'' = Some (Itoa (int (length part)))
    \<and> view w' = put_doc S3Stats j (Some (DStats (inc_out (cx_id cx) (int (length part)) s))) (view w)"
  have send: "wp (send_object E cx bucket ob from to rw) ?Q w1" if "view w1 = view w" for w1
    by (rule wp_send_object [OF E, where content = content and part = part])
       (use assms that sl in \<open>auto simp: get_headers_def Let_def rw_set_def WriteHeader_def\<close>)
  have "wp (handleGetObject E S cx oname bucket rw r) ?Q w"
  proof -
    have "(let rng = HGet r ''Range'' in if rng \<noteq> [] then ParseRange rng else Inr (0, MaxInt64)) = Inr (from, to)"
      using assms(11) by (simp add: wanted_range_def Let_def split: if_splits)
    then show ?thesis using assms(9) unfolding handleGetObject_def if_allowed_def
      by (auto simp: wp_simps intro!: wp_FindCurObject [OF E assms(5)] send)
  qed
  moreover have "fst (ReadObject E bucket oname w) = Ok content"
    using wp_ReadObject_stored [OF assms(1-6)] by (simp add: wp_def split: prod.splits)
  ultimately show ?thesis by (auto simp: wp_def split: prod.splits)
qed

section \<open>A range up to the end of the integers\<close>

lemma Itoa_max: "Itoa_nat 9223372036854775807 = ''9223372036854775807''" "Itoa_nat 0 = ''0''"
proof -
  show "Itoa_nat 9223372036854775807 = ''9223372036854775807''"
    by (simp add: Itoa_nat.simps [of "numeral _"]) (intro conjI; code_simp)
  show "Itoa_nat 0 = ''0''" by (simp add: Itoa_nat.simps) code_simp
qed

lemma wp_dl_parts_past:
  assumes "to = MinInt64" and "in_int64 (dl_rover st)"
  shows "wp (gfold (\<lambda>d s. dl_part E 0 to (as_Part d) s) ds st) (\<lambda>res w'. \<exists>st'. res = Ok st' \<and> dl_w st' = dl_w st \<and> w' = w) w"
  using assms(2)
proof (induction ds arbitrary: st)
  case (Cons d ds)
  have "dl_part E 0 to (as_Part d) st = gret (st\<lparr>dl_rover := int64_of (dl_rover st + p_Size (as_Part d))\<rparr>)"
    using assms(1) Cons.prems by (simp add: dl_part_def Let_def in_int64_def)
  then show ?case
    using Cons.IH [of "st\<lparr>dl_rover := int64_of (dl_rover st + p_Size (as_Part d))\<rparr>"] by (simp add: wp_simps)
qed (simp add: wp_simps)

text \<open>
  C37. The range \<open>bytes=0-9223372036854775807\<close> pays the tenant. Its end wraps to the least integer, so
  the request counts as a download of \<open>-2^63\<close> bytes: nothing is sent, the length header is negative, and \<open>2^63\<close> is
  taken off the tenant's account of bytes served, whatever the object.
\<close>

theorem range_wrap_credits:
  assumes "mongo_ok E view" and "no_faults E view"
    and "current (view w) (OCookie E bucket oname 1) ob" and "0 \<le> o_Size ob"
    and "ctxAllowed cx S3P_GetObject = Some True"
    and "HGet r ''Range'' = ''bytes=0-9223372036854775807''"
    and "stats_at (view w) (b_NamespaceID bucket) j s" and "\<not> download_refused s MinInt64"
    and "rw_body rw = []"
  shows "\<exists>rw' w'. handleGetObject E S cx oname bucket rw r w = (Ok (HRaw rw'), w')
    \<and> concat (rw_body rw') = [] \<and> map_of (rw_headers rw') ''Content-Length'' = Some (Itoa MinInt64)
    \<and> view w' = put_doc S3Stats j (Some (DStats (inc_out (cx_id cx) MinInt64 s))) (view w)"
proof -
  note E = assms(1,2)
  let ?rw = "get_headers cx ob MinInt64 rw"
  define Q :: "(S3Error, hreply) res \<Rightarrow> 'a \<Rightarrow> bool" where "Q = (\<lambda>res w'. \<exists>rw'. res = Ok (HRaw rw') \<and> concat (rw_body rw') = []
    \<and> map_of (rw_headers rw') ''Content-Length'' = Some (Itoa MinInt64)
    \<and> view w' = put_doc S3Stats j (Some (DStats (inc_out (cx_id cx) MinInt64 s))) (view w))"
  have rng: "ParseRange ''bytes=0-9223372036854775807'' = Inr (0, MinInt64)"
    using ParseRange_closed [of 0 9223372036854775807] by (simp add: Itoa_max MaxInt64_def MinInt64_def int64_of_def)
  have hd: "rw_body ?rw = []" "map_of (rw_headers ?rw) ''Content-Length'' = Some (Itoa MinInt64)"
    using assms(9) by (auto simp: get_headers_def Let_def rw_set_def WriteHeader_def split: option.splits)
  have dl: "wp (download E ob 0 MinInt64 ?rw) (on_ok (\<lambda>w. wp (gret (HRaw w)) Q) Q) w2"
    if "view w2 = put_doc S3Stats j (Some (DStats (inc_out (cx_id cx) MinInt64 s))) (view w)" for w2
    unfolding download_def IterParts_def with_state_def wp_simps
  proof (rule wp_FindAllSorted [OF E(1)], goal_cases)
    case (1 ds w3)
    have "wp (gfold (\<lambda>d s. dl_part E 0 MinInt64 (as_Part d) s) ds \<lparr>dl_rover = 0, dl_downloaded = 0, dl_w = ?rw\<rparr>)
        (\<lambda>res w'. \<exists>st'. res = Ok st' \<and> dl_w st' = ?rw \<and> w' = w3) w3"
      using wp_dl_parts_past [of "MinInt64" "\<lparr>dl_rover = 0, dl_downloaded = 0, dl_w = ?rw\<rparr>" E ds w3] by (simp add: int64_bounds)
    then show ?case unfolding on_any_simps sum.case wp_simps on_ok_simps
      by (rule wp_mono) (use 1 that hd in \<open>auto simp: wp_simps Q_def\<close>)
  qed (use E in simp)
  have acct: "wp (acctDownload E (cx_id cx) (b_NamespaceID bucket) MinInt64) (on_any (\<lambda>a. wp (case a of
      Inl _ \<Rightarrow> gerr (s3errorm S3ErrOperationAborted ''Downloads are limited'')
    | Inr _ \<Rightarrow> gbind (download E ob 0 MinInt64 ?rw) (\<lambda>w. gret (HRaw w))) Q) Q) w1" if "view w1 = view w" for w1
    by (rule wp_acctDownload [OF E, where j = j and s = s])
       (use assms(7,8) that in \<open>simp_all only: on_any_simps sum.case wp_gbind dl\<close>)
  have send: "wp (send_object E cx bucket ob 0 MinInt64 rw) Q w1" if "view w1 = view w" for w1
  proof -
    have "int64_of (MinInt64 - 0) = MinInt64" "\<not> MinInt64 > o_Size ob" using assms(4) by (simp_all add: int64_bounds)
    then show ?thesis using that assms(4) unfolding send_object_def Let_def by (simp add: wp_simps acct)
  qed
  have "wp (handleGetObject E S cx oname bucket rw r) Q w"
    using assms(5) unfolding handleGetObject_def if_allowed_def assms(6) Let_def
    by (auto simp: wp_simps rng intro!: wp_FindCurObject [OF E assms(3)] send)
  then show ?thesis by (auto simp: wp_def Q_def split: prod.splits)
qed

section \<open>No right, no effect\<close>

text \<open>The right a request for an object needs.\<close>

definition object_action :: "request \<Rightarrow> int" where
  "object_action r = (let up = (getURLParam r ''uploadId'' \<noteq> None) in
     if Method r = ''GET'' then (if up then S3P_ListMultipartUploadParts else S3P_GetObject)
     else if Method r = ''DELETE'' then (if up then S3P_AbortMultipartUpload else S3P_DeleteObject)
     else if Method r = ''HEAD'' then S3P_GetObject else S3P_PutObject)"

lemma object_method_denied:
  assumes "ctxAllowed cx (object_action r) = Some False"
  shows "object_method E S cx w r rd bname oname bucket = gerr (s3error S3ErrMethodNotAllowed)"
proof -
  have no: "if_allowed cx a k = gerr (s3error S3ErrMethodNotAllowed)" if "a = object_action r" for a k
    using assms that by (simp add: if_allowed_def)
  consider "Method r = ''GET''" | "Method r = ''POST''" | "Method r = ''PUT''" | "Method r = ''DELETE''" | "Method r = ''HEAD''"
    | "Method r \<notin> {''GET'', ''POST'', ''PUT'', ''DELETE'', ''HEAD''}" by blast
  then show ?thesis
    by cases (cases "getURLParam r ''uploadId''"; simp add: object_method_def Let_def handleUploadFini_def handleUploadInit_def
      handleUploadListParts_def handleGetObject_def handleUploadPart_def handlePutObject_def handleUploadAbort_def
      handleDeleteObject_def handleAccessObject_def no object_action_def)+
qed

text \<open>A request that is turned away: the preflight answer, an error document, or a panic; the database is as it was.\<close>

definition turned_away :: "request \<Rightarrow> (unit, hreply) res \<Rightarrow> bool" where
  "turned_away r res \<longleftrightarrow> (case res of
     Ok reply \<Rightarrow> (case reply of HErr _ _ \<Rightarrow> True | HRaw _ \<Rightarrow> Method r = ''OPTIONS'' | _ \<Rightarrow> False) | Err _ \<Rightarrow> False | Panic \<Rightarrow> True)"

lemma turned_away_simps [simp]: "turned_away r Panic" "turned_away r (Ok (HErr rw e))" "turned_away r (Ok (HRaw rw)) \<longleftrightarrow> Method r = ''OPTIONS''"
  by (simp_all add: turned_away_def)

definition holder :: "'w env \<Rightarrow> dbview \<Rightarrow> request \<Rightarrow> Iam \<Rightarrow> bool" where
  "holder E V r iam \<longleftrightarrow> (\<exists>k n d. live_key E V k \<and> (signed_with E r k \<or> (getHeader r ''Authorization'' = [] \<and> admin_for E r k))
     \<and> V S3Iams n = Some d \<and> doc_id d = k_IamObjID k \<and> is_active d \<and> iam = as_Iam d)"

lemma wp_handleObject_denied:
  assumes E: "mongo_ok E view" and "\<forall>iam. cx_iam cx = Some iam \<longrightarrow> \<not> (MayAccess (iam_Policy iam) bname \<and> Allowed (iam_Policy iam) (object_action r))"
  shows "wp (handleObject E S cx rw r rd bname oname) (\<lambda>res w'. (\<forall>reply. res \<noteq> Ok reply) \<and> view w' = view w) w"
proof (cases "cx_iam cx")
  case None
  then show ?thesis by (simp add: handleObject_def if_access_def ctxMayAccess_def wp_simps)
next
  case (Some iam)
  show ?thesis
  proof (cases "MayAccess (iam_Policy iam) bname")
    case True
    then have "ctxAllowed cx (object_action r) = Some False" using assms(2) Some by (simp add: ctxAllowed_def)
    then show ?thesis using Some True
      by (auto simp: handleObject_def if_access_def ctxMayAccess_def wp_simps object_method_denied intro!: wp_FindBucket [OF E])
  qed (use Some in \<open>simp add: handleObject_def if_access_def ctxMayAccess_def wp_simps\<close>)
qed

text \<open>
  C4. Only a holder of the right reaches an object. Whatever an HTTP request for an object does through the API,
  either it is turned away without a change to the database, or it carries the signature of a live key (or the
  admin token naming one) whose identity's policy covers the bucket and allows the action the method and
  parameters ask for.
\<close>

theorem object_api_guarded:
  assumes "mongo_ok E view" and "Vars r ''ObjName'' \<noteq> []"
    and "handleS3API E (\<lambda>cx rw r. handleObjectReq E S cx rw r rd) r w = (res, w')"
  shows "(turned_away r res \<and> view w' = view w)
    \<or> (\<exists>iam. holder E (view w) r iam \<and> MayAccess (iam_Policy iam) (Vars r ''BucketName'') \<and> Allowed (iam_Policy iam) (object_action r))"
proof -
  let ?may = "\<lambda>iam. MayAccess (iam_Policy iam) (Vars r ''BucketName'') \<and> Allowed (iam_Policy iam) (object_action r)"
  let ?Q = "\<lambda>res w'. turned_away r res \<and> view w' = view w \<or> (\<exists>iam. holder E (view w) r iam \<and> ?may iam)"
  have "fst (HandleCORS r CORS_Methods CORS_Headers rw_empty) = (Method r = ''OPTIONS'')" by (simp add: HandleCORS_def Let_def)
  then obtain rw where cors: "HandleCORS r CORS_Methods CORS_Headers rw_empty = (Method r = ''OPTIONS'', rw)"
    by (cases "HandleCORS r CORS_Methods CORS_Headers rw_empty") simp
  have obj: "wp (handleObjectReq E S (ctxAuthorize i (mkS3Context ''api'')) rw r rd) (on_any (\<lambda>a. wp (case a of
        Inl e \<Rightarrow> gret (HErr rw (HTTPRespS3Error e)) | Inr reply \<Rightarrow> gret reply) ?Q) ?Q) w1"
    if "view w1 = view w" "live_key E (view w) k" "signed_with E r k \<or> (getHeader r ''Authorization'' = [] \<and> admin_for E r k)"
      and iam: "\<And>iam. i = Some iam \<Longrightarrow> \<exists>n d. view w S3Iams n = Some d \<and> doc_id d = k_IamObjID k \<and> is_active d \<and> iam = as_Iam d"
    for i k w1
  proof (cases "\<exists>iam. i = Some iam \<and> ?may iam")
    case True
    then have "\<exists>iam. holder E (view w) r iam \<and> ?may iam" using that iam unfolding holder_def by blast
    then show ?thesis by (intro wpI) (simp add: on_any_def wp_def split: res.split sum.split prod.split)
  next
    case False
    have "wp (handleObject E S (ctxAuthorize i (mkS3Context ''api'')) rw r rd (Vars r ''BucketName'') (Vars r ''ObjName''))
        (\<lambda>res w'. (\<forall>reply. res \<noteq> Ok reply) \<and> view w' = view w1) w1"
      by (rule wp_handleObject_denied [OF assms(1)]) (use False in \<open>auto simp: ctxAuthorize_def\<close>)
    then show ?thesis unfolding handleObjectReq_def Let_def using assms(2)
      by (auto elim!: wp_mono simp: on_any_def wp_simps that(1) split: res.splits)
  qed
  have "wp (handleS3API E (\<lambda>cx rw r. handleObjectReq E S cx rw r rd) r) ?Q w"
    unfolding handleS3API_def cors Let_def
    by (auto simp: wp_simps intro!: wp_s3Authorize [OF assms(1)] obj)
  from wpD [OF this assms(3)] show ?thesis .
qed

section \<open>An object in two parts\<close>

definition film_object :: Object where
  "film_object = zero_Object\<lparr>o_ObjID := ''o1'', o_State := 1, o_OCookie := ''bcfilm1'', o_BucketObjID := ''b1'', o_Rover := 1, o_Size := 7\<rparr>"

definition film_part1 :: ObjectPart where
  "film_part1 = zero_ObjectPart\<lparr>p_ObjID := ''p1'', p_State := 1, p_RefID := ''o1'', p_Part := 1, p_Size := 3, p_Data := Some ''abc''\<rparr>"

definition film_part2 :: ObjectPart where
  "film_part2 = zero_ObjectPart\<lparr>p_ObjID := ''p2'', p_State := 1, p_RefID := ''o1'', p_Part := 2, p_Size := 4, p_Chunks := [''c1'', ''c2'']\<rparr>"

definition film_stats :: AcctStats where
  "film_stats = zero_AcctStats\<lparr>st_ObjID := ''s1'', st_NamespaceID := ''ns''\<rparr>"

definition film :: mem where
  "film = mem_of [DStats film_stats, DObject film_object, DPart film_part2, DPart film_part1,
     DChunk \<lparr>c_ObjID = ''c1'', c_Bytes = ''de''\<rparr>, DChunk \<lparr>c_ObjID = ''c2'', c_Bytes = ''fg''\<rparr>]"

definition reader_cx :: s3Context where
  "reader_cx = ctxAuthorize (Some (zero_Iam\<lparr>iam_Policy := getBucketPolicy ''photos''\<rparr>)) (mkS3Context ''api'')"

definition range_req :: "string \<Rightarrow> request" where
  "range_req rng = plain_req\<lparr>Header := (\<lambda>k. if k = ''range'' then rng else [])\<rparr>"

lemma film_view: "mview film c i =
    (if c = S3Stats \<and> i = ''s1'' then Some (DStats film_stats) else if c = S3Objects \<and> i = ''o1'' then Some (DObject film_object)
     else if c = S3ObjectData \<and> i = ''p2'' then Some (DPart film_part2) else if c = S3ObjectData \<and> i = ''p1'' then Some (DPart film_part1)
     else if c = S3DataChunks \<and> i = ''c1'' then Some (DChunk \<lparr>c_ObjID = ''c1'', c_Bytes = ''de''\<rparr>)
     else if c = S3DataChunks \<and> i = ''c2'' then Some (DChunk \<lparr>c_ObjID = ''c2'', c_Bytes = ''fg''\<rparr>) else None)"
  by (simp add: film_def mview_mem_of film_stats_def film_object_def film_part1_def film_part2_def)

lemma film_facts:
  "ids_ok (mview film)" "current (mview film) (OCookie mem_env demo_bucket ''film'' 1) film_object"
  "stored (mview film) (o_ObjID film_object) ''abcdefg''" "stats_at (mview film) (b_NamespaceID demo_bucket) ''s1'' film_stats"
  "ctxAllowed reader_cx S3P_GetObject = Some True"
proof -
  show "ids_ok (mview film)" by (simp add: film_def)
  have cookie: "OCookie mem_env demo_bucket ''film'' 1 = ''bcfilm1''" by code_simp
  have objs: "mview film S3Objects i = Some d \<longleftrightarrow> i = ''o1'' \<and> d = DObject film_object" for i d by (auto simp: film_view)
  have "q_ocookie ''bcfilm1'' (DObject film_object)" by (simp add: q_ocookie_def film_object_def state_defs)
  then show "current (mview film) (OCookie mem_env demo_bucket ''film'' 1) film_object"
    unfolding cookie current_def objs by blast
  have parts: "mview film S3ObjectData i = Some d \<longleftrightarrow> (i = ''p1'' \<and> d = DPart film_part1) \<or> (i = ''p2'' \<and> d = DPart film_part2)" for i d
    by (auto simp: film_view)
  have "q_ref_active ''o1'' (DPart film_part1)" "q_ref_active ''o1'' (DPart film_part2)"
    by (simp_all add: q_ref_active_def film_part1_def film_part2_def state_defs)
  then have "matching (mview film) S3ObjectData (q_ref_active ''o1'') = DPart ` set [film_part1, film_part2]"
    unfolding matching_def parts by auto
  moreover have "part_data (mview film) film_part1 ''abc''" by (simp add: part_data_def film_part1_def)
  moreover have "list_all2 (chunk_at (mview film)) (p_Chunks film_part2) [''de'', ''fg'']"
    by (simp add: film_part2_def chunk_at_def film_view)
  then have "\<exists>bs. list_all2 (chunk_at (mview film)) (p_Chunks film_part2) bs \<and> ''defg'' = concat bs"
    by (intro exI [of _ "[''de'', ''fg'']"]) simp
  then have "part_data (mview film) film_part2 ''defg''"
    by (simp add: part_data_def) (simp add: film_part2_def zero_ObjectPart_def)
  ultimately have "list_all2 (part_data (mview film)) [film_part1, film_part2] [''abc'', ''defg'']"
      "matching (mview film) S3ObjectData (q_ref_active ''o1'') = DPart ` set [film_part1, film_part2]" by simp_all
  moreover have "sorted_wrt (<) (map p_Part [film_part1, film_part2])" by (simp add: film_part1_def film_part2_def)
  moreover have "o_ObjID film_object = ''o1''" "''abcdefg'' = concat [''abc'', ''defg'']" by (simp_all add: film_object_def)
  ultimately show "stored (mview film) (o_ObjID film_object) ''abcdefg''" unfolding stored_def by metis
  have stats_docs: "mview film S3Stats i = Some d \<longleftrightarrow> i = ''s1'' \<and> d = DStats film_stats" for i d by (auto simp: film_view)
  have ns: "st_NamespaceID film_stats = b_NamespaceID demo_bucket" by (simp add: film_stats_def demo_bucket_def)
  show "stats_at (mview film) (b_NamespaceID demo_bucket) ''s1'' film_stats"
    unfolding stats_at_def stats_docs by (simp only: ns) blast
  have "Allowed (getBucketPolicy ''photos'') S3P_GetObject"
    by (subst Allowed_ToMgo [of _ S3PolicyActions_PerBucket])
      (simp_all add: getBucketPolicy_def S3PolicyActions_PerBucket_def S3P_GetObject_def S3P_ListAllMyBuckets_def bit_xor_iff bit_all_ones bit_bit1)
  then show "ctxAllowed reader_cx S3P_GetObject = Some True"
    by (simp add: ctxAllowed_def reader_cx_def ctxAuthorize_def)
qed

theorem get_object_slice_witness:
  "\<forall>S. \<exists>rw' w'. handleGetObject mem_env S reader_cx ''film'' demo_bucket rw_empty (range_req ''bytes=2-4'') film = (Ok (HRaw rw'), w')
     \<and> concat (rw_body rw') = ''cde''"
proof
  fix S
  have rng: "wanted_range (range_req ''bytes=2-4'') 2 5" by code_simp
  have "\<not> download_refused film_stats n" for n by (simp add: download_refused_def film_stats_def zero_AcctStats_def)
  moreover have "radosDisabled mem_env" "cx_errCode reader_cx = 0" "o_Size film_object = int (length ''abcdefg'')"
    by (simp_all add: mem_env_def reader_cx_def ctxAuthorize_def mkS3Context_def film_object_def)
  moreover have "take (nat (5 - 2)) (drop (nat 2) ''abcdefg'') = ''cde''" by simp
  ultimately show "\<exists>rw' w'. handleGetObject mem_env S reader_cx ''film'' demo_bucket rw_empty (range_req ''bytes=2-4'') film = (Ok (HRaw rw'), w')
     \<and> concat (rw_body rw') = ''cde''"
    using get_object_slice [OF mem_env_ok mem_no_faults _ film_facts(1-3) _ _ film_facts(5) _ rng _ _ _ _ film_facts(4), of "''cde''" rw_empty S]
    by (auto simp: rw_empty_def MaxInt64_def)
qed

theorem range_wrap_credits_witness:
  "\<forall>S. \<exists>rw' w'. handleGetObject mem_env S reader_cx ''film'' demo_bucket rw_empty (range_req ''bytes=0-9223372036854775807'') film = (Ok (HRaw rw'), w')
     \<and> mview w' S3Stats ''s1'' = Some (DStats (film_stats\<lparr>st_OutBytes := MinInt64\<rparr>))"
proof
  fix S
  have r: "HGet (range_req ''bytes=0-9223372036854775807'') ''Range'' = ''bytes=0-9223372036854775807''" by code_simp
  have "\<not> download_refused film_stats n" for n by (simp add: download_refused_def film_stats_def zero_AcctStats_def)
  moreover have "inc_out (cx_id reader_cx) MinInt64 film_stats = film_stats\<lparr>st_OutBytes := MinInt64\<rparr>"
    by (simp add: inc_out_def reader_cx_def ctxAuthorize_def mkS3Context_def film_stats_def zero_AcctStats_def)
  moreover have "0 \<le> o_Size film_object" by (simp add: film_object_def)
  ultimately show "\<exists>rw' w'. handleGetObject mem_env S reader_cx ''film'' demo_bucket rw_empty (range_req ''bytes=0-9223372036854775807'') film = (Ok (HRaw rw'), w')
     \<and> mview w' S3Stats ''s1'' = Some (DStats (film_stats\<lparr>st_OutBytes := MinInt64\<rparr>))"
    using range_wrap_credits [OF mem_env_ok mem_no_faults film_facts(2) _ film_facts(5) r film_facts(4), of rw_empty S]
    by (auto simp: rw_empty_def put_doc_def)
qed

definition unsigned_req :: request where
  "unsigned_req = plain_req\<lparr>Vars := (\<lambda>_. ''x'')\<rparr>"

theorem object_api_guarded_witness:
  "\<forall>S rd. \<exists>res w'. handleS3API mem_env (\<lambda>cx rw r. handleObjectReq mem_env S cx rw r rd) unsigned_req sign_mem = (res, w')
     \<and> turned_away unsigned_req res \<and> mview w' = mview sign_mem"
proof (intro allI)
  fix S rd
  obtain res w' where run: "handleS3API mem_env (\<lambda>cx rw r. handleObjectReq mem_env S cx rw r rd) unsigned_req sign_mem = (res, w')" by fastforce
  have "getHeader unsigned_req ''Authorization'' = []" "HGet unsigned_req SwyS3_AdminToken = []" by code_simp+
  moreover have "case ParseAuthorization [] of Inl _ \<Rightarrow> True | Inr _ \<Rightarrow> False" by code_simp
  then have "ParseAuthorization [] \<noteq> Inr actx" for actx by auto
  ultimately have "\<not> holder mem_env V unsigned_req iam" for V iam
    by (auto simp: holder_def signed_with_def admin_for_def)
  then show "\<exists>res w'. handleS3API mem_env (\<lambda>cx rw r. handleObjectReq mem_env S cx rw r rd) unsigned_req sign_mem = (res, w')
     \<and> turned_away unsigned_req res \<and> mview w' = mview sign_mem"
    using run object_api_guarded [OF mem_env_ok _ run] by (auto simp: unsigned_req_def)
qed

end
