(* ===== verification/S3_Repair.thy ===== *)
theory S3_Repair
  imports S3_Upload
begin

text \<open>
  The repair run at start-up: \<open>dbRepair\<close> of \<open>src/s3/db.go\<close> with the passes of
  \<open>upload.go\<close>, \<open>object.go\<close>, \<open>data.go\<close> and \<open>bucket.go\<close>. Each pass asks for the stale documents
  of a collection, those a crashed request left in state none or inactive, and removes them
  one after another. The repaired database has none left, and the counters of the buckets a
  crashed request held a reference on are recomputed.
\<close>

section \<open>The passes\<close>

text \<open>The loop all passes but one run: a pass that finds nothing is done.\<close>

definition each_found :: "('w, goerr, doc list) go \<Rightarrow> (doc \<Rightarrow> ('w, goerr, unit) go) \<Rightarrow> ('w, goerr, unit) go" where
  "each_found q f = gtry q (\<lambda>r. case r of
       Inl err \<Rightarrow> if err = ErrNotFound then gret () else gerr err
     | Inr ds \<Rightarrow> geach f ds)"

definition unless_nf :: "('w, goerr, 'a) go \<Rightarrow> ('w, goerr, unit) go" where
  "unless_nf f = gtry f (\<lambda>r. case r of
       Inl err \<Rightarrow> if err \<noteq> ErrNotFound then gerr err else gret () | Inr _ \<Rightarrow> gret ())"

definition s3RepairUploadsInactive :: "'w env \<Rightarrow> ('w, goerr, unit) go" where
  "s3RepairUploadsInactive E = each_found (dbS3FindAllInactive E S3Uploads) (\<lambda>upload.
     gbind (unless_nf (dbS3Update E (\<lambda>d. case d of DPart p \<Rightarrow> p_RefID p = doc_id upload | _ \<Rightarrow> False)
              (SetU (set_state S3StateInactive)) False (DPart zero_ObjectPart)))
       (\<lambda>_. dbS3Remove E upload))"

definition s3RepairPartsInactive :: "'w env \<Rightarrow> ('w, goerr, unit) go" where
  "s3RepairPartsInactive E = each_found (dbS3FindAllInactive E S3ObjectData) (\<lambda>od.
     gbind (unless_nf (s3DeactivateObjectData E (doc_id od))) (\<lambda>_. dbS3Remove E od))"

definition s3RepairUpload :: "'w env \<Rightarrow> ('w, goerr, unit) go" where
  "s3RepairUpload E = gbind (s3RepairUploadsInactive E) (\<lambda>_. s3RepairPartsInactive E)"

definition s3RepairObjectInactive :: "'w env \<Rightarrow> ('w, goerr, unit) go" where
  "s3RepairObjectInactive E = each_found (dbS3FindAllInactive E S3Objects) (\<lambda>ob.
     gbind (unless_nf (s3DeactivateObjectData E (doc_id ob))) (\<lambda>_. dbS3Remove E ob))"

definition s3RepairObject :: "'w env \<Rightarrow> ('w, goerr, unit) go" where
  "s3RepairObject E = s3RepairObjectInactive E"

text \<open>An object that still refers to stale data is removed with it. The message that reports
  the removal formats \<open>err\<close>, nil by then.\<close>

definition repair_referer :: "'w env \<Rightarrow> Object \<Rightarrow> ('w, goerr, unit) go" where
  "repair_referer E ob =
     gbind (gtry (dbS3FindOne E S3Buckets (q_id (o_BucketObjID ob))) (\<lambda>r. case r of
              Inl err \<Rightarrow> if err \<noteq> ErrNotFound then gerr err else gret ()
            | Inr bucket \<Rightarrow> unless_nf (s3DirtifyBucket E (doc_id bucket)))) (\<lambda>_.
     gtry (dbS3Remove E (DObject ob)) (\<lambda>r. case r of
       Inl err \<Rightarrow> if err \<noteq> ErrNotFound then gerr err else gret ()
     | Inr _ \<Rightarrow> gpanic))"

definition s3RepairObjectData :: "'w env \<Rightarrow> ('w, goerr, unit) go" where
  "s3RepairObjectData E = each_found (dbS3FindAllInactive E S3ObjectData) (\<lambda>objp.
     gbind (gtry (dbS3FindOne E S3Objects (q_id (p_RefID (as_Part objp)))) (\<lambda>r. case r of
              Inl err \<Rightarrow> if err \<noteq> ErrNotFound then gerr err else gret ()
            | Inr ob \<Rightarrow> repair_referer E (as_Object ob))) (\<lambda>_.
     gseq (DeleteChunks E (as_Part objp)) (dbS3Remove E objp)))"

definition q_bucket_active :: "oid \<Rightarrow> doc \<Rightarrow> bool" where
  "q_bucket_active i d \<longleftrightarrow> (case d of DObject x \<Rightarrow> o_BucketObjID x = i \<and> o_State x = S3StateActive | _ \<Rightarrow> False)"

definition s3RepairBucketReference :: "'w env \<Rightarrow> Bucket \<Rightarrow> ('w, goerr, unit) go" where
  "s3RepairBucketReference E bucket =
     gbind (gtry (dbS3FindAll E S3Objects (q_bucket_active (b_ObjID bucket))) (\<lambda>r. case r of
              Inl err \<Rightarrow> if err \<noteq> ErrNotFound then gerr err else gret (0, 0)
            | Inr objects \<Rightarrow> gret (int64_of (int (length objects)),
                fold (\<lambda>ob n. int64_of (n + o_Size (as_Object ob))) objects 0))) (\<lambda>(cnt_objects, cnt_bytes).
     gbind (dbS3Update E (\<lambda>_. True) (SetU (upd_bucket (\<lambda>b. b\<lparr>b_CntObjects := cnt_objects, b_CntBytes := cnt_bytes, b_Ref := 0\<rparr>)))
              False (DBucket bucket)) (\<lambda>_. gret ()))"

definition s3RepairBucketReferenced :: "'w env \<Rightarrow> ('w, goerr, unit) go" where
  "s3RepairBucketReferenced E = each_found (dbS3FindAll E S3Buckets (\<lambda>d. b_Ref (as_Bucket d) \<noteq> 0))
     (\<lambda>bucket. s3RepairBucketReference E (as_Bucket bucket))"

definition s3RepairBucketInactive :: "'w env \<Rightarrow> ('w, goerr, unit) go" where
  "s3RepairBucketInactive E = each_found (dbS3FindAllInactive E S3Buckets) (\<lambda>bucket.
     gseq (radosDeletePool E (b_BCookie (as_Bucket bucket))) (dbS3Remove E bucket))"

definition s3RepairBucket :: "'w env \<Rightarrow> ('w, goerr, unit) go" where
  "s3RepairBucket E = gbind (s3RepairBucketInactive E) (\<lambda>_. s3RepairBucketReferenced E)"

definition dbRepair :: "'w env \<Rightarrow> ('w, goerr, unit) go" where
  "dbRepair E =
     gbind (s3RepairUpload E) (\<lambda>_.
     gbind (s3RepairObject E) (\<lambda>_.
     gbind (s3RepairObjectData E) (\<lambda>_.
     s3RepairBucket E)))"

section \<open>Rules for the passes\<close>

definition stale :: "doc \<Rightarrow> bool" where
  "stale d \<longleftrightarrow> doc_state d = Some S3StateNone \<or> doc_state d = Some S3StateInactive"

text \<open>The server answers a command with a fault or not; a pass that meets no fault ends well.\<close>

definition ends :: "'w env \<Rightarrow> ('w \<Rightarrow> dbview) \<Rightarrow> (dbview \<Rightarrow> bool) \<Rightarrow> (goerr, 'a) res \<Rightarrow> 'w \<Rightarrow> bool" where
  "ends E view P r w \<longleftrightarrow> (case r of Ok _ \<Rightarrow> P (view w) | Err _ \<Rightarrow> \<not> no_faults E view | Panic \<Rightarrow> False)"

lemma ends_simps [simp]:
  "ends E view P (Ok a) w \<longleftrightarrow> P (view w)" "ends E view P (Err e) w \<longleftrightarrow> \<not> no_faults E view" "\<not> ends E view P Panic w"
  by (simp_all add: ends_def)

lemma wp_ends_seq:
  assumes "wp f (ends E view P) w" and "\<And>a w'. P (view w') \<Longrightarrow> wp (k a) (ends E view R) w'"
  shows "wp (gbind f k) (ends E view R) w"
  unfolding wp_gbind using assms(1) by (rule wp_mono) (auto simp: ends_def on_ok_def assms(2) split: res.splits)

lemma wp_ends_try:
  assumes "wp f (ends E view P) w" and "\<And>a w'. P (view w') \<Longrightarrow> wp (k a) (ends E view R) w'"
    and "\<And>a w'. \<not> no_faults E view \<Longrightarrow> wp (k (Inl a)) (ends E view R) w'"
  shows "wp (gtry f k) (ends E view R) w"
  unfolding wp_gtry using assms(1)
  by (rule wp_mono) (auto simp: ends_def on_any_def assms(2-) split: res.splits)

lemma wp_each_found:
  assumes E: "mongo_ok E view"
    and init: "\<And>ds. set ds = matching (view w) c q \<Longrightarrow> distinct ds \<Longrightarrow> I ds (view w)"
    and step: "\<And>d ds w. I (d # ds) (view w) \<Longrightarrow> wp (f d) (ends E view (I ds)) w"
    and fin: "\<And>V. I [] V \<Longrightarrow> P V"
  shows "wp (each_found (dbS3FindAll E c q) f) (ends E view P) w"
proof -
  have loop: "wp (geach f ds) (ends E view P) w'" if "I ds (view w')" for ds w'
  proof (rule wp_geach [where I = "\<lambda>ds w. I ds (view w)"])
    fix x xs w1 assume "I (x # xs) (view w1)"
    from step [OF this] show "wp (f x) (on_ok (\<lambda>_ w. I xs (view w)) (ends E view P)) w1"
      by (rule wp_mono) (auto simp: ends_def on_ok_def split: res.splits)
  qed (use that fin in auto)
  show ?thesis unfolding each_found_def wp_gtry
    by (rule wp_FindAll [OF E]) (auto simp: wp_simps intro!: loop init)
qed

lemma dbS3FindAllInactive_stale: "dbS3FindAllInactive E c = dbS3FindAll E c stale"
  by (simp add: dbS3FindAllInactive_def stale_def [abs_def])

text \<open>What every pass relies on: documents are stored under their own ids, which are not empty,
  and no part and no upload shares its id with an object.\<close>

definition ids_apart :: "dbview \<Rightarrow> bool" where
  "ids_apart V \<longleftrightarrow> ids_ok V \<and> (\<forall>c. c \<noteq> S3DataChunks \<longrightarrow> V c [] = None)
     \<and> (\<forall>i. V S3ObjectData i \<noteq> None \<or> V S3Uploads i \<noteq> None \<longrightarrow> V S3Objects i = None)"

definition live_object :: "dbview \<Rightarrow> oid \<Rightarrow> bool" where
  "live_object V i \<longleftrightarrow> (\<exists>d. V S3Objects i = Some d \<and> \<not> stale d)"

text \<open>What a repair that started from \<open>V0\<close> keeps: it adds no document, and leaves the live
  objects, their live parts and the live buckets as they were.\<close>

definition kept :: "dbview \<Rightarrow> dbview \<Rightarrow> bool" where
  "kept V0 V \<longleftrightarrow> (\<forall>i. V S3Uploads i \<noteq> None \<longrightarrow> V0 S3Uploads i \<noteq> None)
     \<and> (\<forall>i. V S3ObjectData i \<noteq> None \<longrightarrow> V0 S3ObjectData i \<noteq> None)
     \<and> (\<forall>i d. V0 S3Objects i = Some d \<longrightarrow> \<not> stale d \<longrightarrow> V S3Objects i = Some d)
     \<and> (\<forall>i d. V0 S3ObjectData i = Some d \<longrightarrow> \<not> stale d \<longrightarrow> live_object V0 (p_RefID (as_Part d)) \<longrightarrow> V S3ObjectData i = Some d)
     \<and> (\<forall>i d. V0 S3Buckets i = Some d \<longrightarrow> \<not> stale d \<longrightarrow> V S3Buckets i = Some d)
     \<and> (\<forall>i d. V S3Buckets i = Some d \<longrightarrow> V0 S3Buckets i = Some d)
     \<and> (\<forall>i d. V S3Objects i = Some d \<longrightarrow> V0 S3Objects i = Some d)"

text \<open>The state of a pass over \<open>c\<close> that still has the documents \<open>ds\<close> to remove: all the stale
  documents are among them, but for those \<open>ok\<close> admits.\<close>

definition purging :: "coll \<Rightarrow> (dbview \<Rightarrow> doc \<Rightarrow> bool) \<Rightarrow> dbview \<Rightarrow> doc list \<Rightarrow> dbview \<Rightarrow> bool" where
  "purging c ok V0 ds V \<longleftrightarrow> ids_apart V0 \<and> ids_apart V \<and> kept V0 V \<and> distinct (map doc_id ds)
     \<and> (\<forall>d \<in> set ds. dbColl d = c \<and> (\<exists>d'. V c (doc_id d) = Some d' \<and> stale d'))
     \<and> (\<forall>i d. V c i = Some d \<longrightarrow> stale d \<longrightarrow> i \<in> doc_id ` set ds \<or> ok V d)"

lemma purging_init:
  assumes "ids_apart V0" "ids_apart V" "kept V0 V" and "set ds = matching V c stale" and "distinct ds"
  shows "purging c ok V0 ds V"
proof -
  have key: "dbColl d = c \<and> V c (doc_id d) = Some d \<and> stale d" if "d \<in> set ds" for d
    using that assms(2,4) by (auto simp: matching_def ids_apart_def ids_ok_def)
  moreover have "inj_on doc_id (set ds)" by (rule inj_onI) (metis key option.inject)
  moreover have "i \<in> doc_id ` set ds" if "V c i = Some d" "stale d" for i d
    using that assms(2,4) by (force simp: matching_def ids_apart_def ids_ok_def)
  ultimately show ?thesis using assms by (auto simp: purging_def distinct_map)
qed

lemma put_doc_app: "put_doc c i d V c' i' = (if c' = c \<and> i' = i then d else V c' i')"
  by (auto simp: put_doc_def)

lemma ids_apart_del [simp]: "ids_apart V \<Longrightarrow> ids_apart (put_doc c i None V)"
  unfolding ids_apart_def by (simp add: put_doc_app)

lemma ids_apart_upd:
  assumes "ids_apart V" and d: "V c i = Some d" "doc_id d' = i" "dbColl d' = c"
  shows "ids_apart (put_doc c i (Some d') V)"
proof -
  have "V c' j \<noteq> None" if "put_doc c i (Some d') V c' j \<noteq> None" for c' j
    using that d by (auto simp: put_doc_app split: if_splits)
  then have "put_doc c i (Some d') V c' j = None \<longleftrightarrow> V c' j = None" for c' j
    by (metis option.discI put_doc_app)
  then show ?thesis using assms unfolding ids_apart_def by simp
qed

lemma keptD:
  assumes "kept V0 V"
  shows "V S3Uploads i \<noteq> None \<Longrightarrow> V0 S3Uploads i \<noteq> None" and "V S3ObjectData i \<noteq> None \<Longrightarrow> V0 S3ObjectData i \<noteq> None"
    and "V0 S3Objects i = Some d \<Longrightarrow> \<not> stale d \<Longrightarrow> V S3Objects i = Some d"
    and "V0 S3ObjectData i = Some d \<Longrightarrow> \<not> stale d \<Longrightarrow> live_object V0 (p_RefID (as_Part d)) \<Longrightarrow> V S3ObjectData i = Some d"
    and "V0 S3Buckets i = Some d \<Longrightarrow> \<not> stale d \<Longrightarrow> V S3Buckets i = Some d"
    and "V S3Buckets i = Some d \<Longrightarrow> V0 S3Buckets i = Some d"
    and "V S3Objects i = Some d \<Longrightarrow> V0 S3Objects i = Some d"
  using assms unfolding kept_def by metis+

lemma kept_cong:
  assumes "kept V0 V" and "\<And>c. c \<noteq> S3DataChunks \<Longrightarrow> V' c = V c"
  shows "kept V0 V'"
proof -
  have "V' S3Uploads = V S3Uploads" "V' S3ObjectData = V S3ObjectData" "V' S3Objects = V S3Objects" "V' S3Buckets = V S3Buckets"
    by (simp_all add: assms(2))
  then have "kept V0 V' = kept V0 V" by (simp only: kept_def)
  then show ?thesis using assms(1) by simp
qed

lemma kept_refl [simp]: "kept V V"
  by (simp add: kept_def)

lemma kept_del:
  assumes K: "kept V0 V" and d: "V c i = Some d" "stale d"
  shows "kept V0 (put_doc c i None V)"
proof -
  have stays: "put_doc c i None V c' j = Some x" if "V c' j = Some x" "\<not> stale x" for c' j x
    using that d by (auto simp: put_doc_app)
  have old: "V c' j = Some x" if "put_doc c i None V c' j = Some x" for c' j x
    using that by (simp add: put_doc_app split: if_splits)
  show ?thesis unfolding kept_def
    by (intro conjI allI impI) (use stays old keptD [OF K] in \<open>blast+\<close>)
qed

lemma kept_part:
  assumes K: "kept V0 V" and d: "V S3ObjectData k = Some d" "\<not> live_object V0 (p_RefID (as_Part d))"
  shows "kept V0 (put_doc S3ObjectData k (Some d') V)"
proof -
  let ?V = "put_doc S3ObjectData k (Some d') V"
  have "V0 S3ObjectData k \<noteq> None" using keptD(2) [OF K, of k] d(1) by simp
  then have "V0 S3ObjectData i \<noteq> None" if "?V S3ObjectData i \<noteq> None" for i
    using that keptD(2) [OF K, of i] by (simp add: put_doc_app split: if_splits)
  moreover have "?V S3ObjectData i = Some x"
    if "V0 S3ObjectData i = Some x" "\<not> stale x" "live_object V0 (p_RefID (as_Part x))" for i x
    using keptD(4) [OF K that] that(3) d by (auto simp: put_doc_app)
  moreover have eqs: "?V S3Uploads = V S3Uploads" "?V S3Objects = V S3Objects" "?V S3Buckets = V S3Buckets" by simp_all
  ultimately show ?thesis unfolding kept_def eqs using keptD [OF K] by blast
qed

lemma purgingD:
  assumes "purging c ok V0 ds V"
  shows "ids_apart V0" "ids_apart V" "kept V0 V" "distinct (map doc_id ds)"
    "d \<in> set ds \<Longrightarrow> dbColl d = c" "d \<in> set ds \<Longrightarrow> \<exists>d'. V c (doc_id d) = Some d' \<and> stale d'"
    "V c i = Some d \<Longrightarrow> stale d \<Longrightarrow> i \<in> doc_id ` set ds \<or> ok V d"
  using assms unfolding purging_def by blast+

lemma purging_del:
  assumes P: "purging c ok V0 (d # ds) V"
    and ok: "\<And>x. ok V x \<Longrightarrow> ok (put_doc c (doc_id d) None V) x"
  shows "purging c ok V0 ds (put_doc c (doc_id d) None V)"
proof -
  let ?V = "put_doc c (doc_id d) None V"
  obtain d' where "V c (doc_id d) = Some d'" "stale d'" using purgingD(6) [OF P, of d] by auto
  then have "kept V0 ?V" by (rule kept_del [OF purgingD(3) [OF P]])
  moreover have "\<exists>y'. ?V c (doc_id y) = Some y' \<and> stale y'" if "y \<in> set ds" for y
  proof -
    have "doc_id y \<noteq> doc_id d" using purgingD(4) [OF P] that by (metis distinct.simps(2) image_eqI list.map(2) list.set_map)
    then show ?thesis using purgingD(6) [OF P, of y] that by (simp add: put_doc_app)
  qed
  moreover have "i \<in> doc_id ` set ds \<or> ok ?V x" if "?V c i = Some x" "stale x" for i x
  proof -
    from that have "V c i = Some x" "i \<noteq> doc_id d" by (simp_all add: put_doc_app split: if_splits)
    then show ?thesis using purgingD(7) [OF P, of i x] that(2) ok by auto
  qed
  ultimately show ?thesis unfolding purging_def
    using purgingD(1,2,4,5) [OF P] by (simp add: purgingD(5) [OF P])
qed

lemma wp_remove_found:
  assumes E: "mongo_ok E view" and "ids_apart (view w)" "view w c (doc_id d) \<noteq> None" "dbColl d = c" "c \<noteq> S3DataChunks"
    and "P (put_doc c (doc_id d) None (view w))"
  shows "wp (dbS3Remove E d) (ends E view P) w"
proof (rule wp_Remove [OF E])
  fix i d' w' assume found: "view w (dbColl d) i = Some d'" "doc_id d \<noteq> [] \<Longrightarrow> doc_id d' = doc_id d"
    and v: "view w' = put_doc (dbColl d) i None (view w)"
  have "doc_id d \<noteq> []" using assms(2,3,5) by (auto simp: ids_apart_def)
  then have "i = doc_id d" using found assms(2) by (auto simp: ids_apart_def ids_ok_def)
  then show "ends E view P (Ok ()) w'" using v assms by simp
next
  fix w' assume "matching (view w) (dbColl d) (dbS3SetObjID d (\<lambda>_. True)) = {}"
  then show "ends E view P (Err ErrNotFound) w'"
    using assms(2-4) by (auto simp: matching_def dbS3SetObjID_def ids_apart_def ids_ok_def)
qed simp_all

lemma wp_remove_purging:
  assumes E: "mongo_ok E view" and P: "purging c ok V0 (d # ds) (view w)" "c \<noteq> S3DataChunks"
    and "purging c ok V0 ds (put_doc c (doc_id d) None (view w)) \<Longrightarrow> P (put_doc c (doc_id d) None (view w))"
    and "\<And>x. ok (view w) x \<Longrightarrow> ok (put_doc c (doc_id d) None (view w)) x"
  shows "wp (dbS3Remove E d) (ends E view P) w"
proof (rule wp_remove_found [OF E, of w c])
  show "view w c (doc_id d) \<noteq> None" "dbColl d = c" using purgingD(5,6) [OF P(1), of d] by auto
qed (use assms purgingD(2) [OF P(1)] purging_del [OF P(1) assms(5)] in simp_all)

lemma wp_unless_nf:
  assumes "wp f (\<lambda>r w. case r of Err e \<Rightarrow> if e = ErrNotFound then P (view w) else \<not> no_faults E view
                       | _ \<Rightarrow> ends E view P r w) w"
  shows "wp (unless_nf f) (ends E view P) w"
  unfolding unless_nf_def wp_gtry using assms
  by (rule wp_mono) (auto simp: on_any_def wp_simps split: res.splits)

text \<open>A part whose owner goes is set inactive: one part, whichever the server picks first.\<close>

definition inactive_part :: "int \<Rightarrow> doc \<Rightarrow> doc" where
  "inactive_part t d = set_mtime t (set_state S3StateInactive d)"

lemma wp_deactivate:
  assumes E: "mongo_ok E view" and "P (view w)"
    and "\<And>k d t. view w S3ObjectData k = Some d \<Longrightarrow> p_RefID (as_Part d) = i \<Longrightarrow>
           P (put_doc S3ObjectData k (Some (inactive_part t d)) (view w))"
  shows "wp (unless_nf (dbS3Update E (\<lambda>d. case d of DPart p \<Rightarrow> p_RefID p = i | _ \<Rightarrow> False)
              (SetU (set_state S3StateInactive)) False (DPart zero_ObjectPart))) (ends E view P) w"
  by (rule wp_unless_nf, rule wp_Update [OF E])
     (use assms(2,3) in \<open>auto simp: dbS3UpdateMTime_def inactive_part_def [symmetric] split: doc.splits\<close>)

lemma wp_deactivate_data:
  assumes E: "mongo_ok E view" and "P (view w)"
    and "\<And>k d t. view w S3ObjectData k = Some d \<Longrightarrow> p_RefID (as_Part d) = i \<Longrightarrow>
           P (put_doc S3ObjectData k (Some (inactive_part t d)) (view w))"
  shows "wp (unless_nf (s3DeactivateObjectData E i)) (ends E view P) w"
  unfolding s3DeactivateObjectData_def
  by (rule wp_unless_nf, unfold wp_gbind, rule wp_Update [OF E])
     (use assms(2,3) in \<open>auto simp: wp_simps dbS3UpdateMTime_def inactive_part_def [symmetric] split: doc.splits\<close>)

section \<open>What each pass leaves\<close>

abbreviation none_left :: "dbview \<Rightarrow> doc \<Rightarrow> bool" where
  "none_left \<equiv> \<lambda>_ _. False"

definition orphan :: "dbview \<Rightarrow> doc \<Rightarrow> bool" where
  "orphan V d \<longleftrightarrow> V S3Objects (p_RefID (as_Part d)) = None"

definition swept :: "coll \<Rightarrow> (dbview \<Rightarrow> doc \<Rightarrow> bool) \<Rightarrow> dbview \<Rightarrow> bool" where
  "swept c ok V \<longleftrightarrow> (\<forall>i d. V c i = Some d \<longrightarrow> stale d \<longrightarrow> ok V d)"

lemma purging_done: "purging c ok V0 [] V \<Longrightarrow> ids_apart V \<and> kept V0 V \<and> swept c ok V"
  by (auto simp: purging_def swept_def)

lemma inactive_part_simps [simp]:
  "doc_id (inactive_part t d) = doc_id d" "dbColl (inactive_part t d) = dbColl d"
  by (simp_all add: inactive_part_def)

lemma inactive_part_data:
  "dbColl d = S3ObjectData \<Longrightarrow> stale (inactive_part t d) \<and> p_RefID (as_Part (inactive_part t d)) = p_RefID (as_Part d)"
  by (cases d) (simp_all add: inactive_part_def stale_def)

lemma apart_part:
  "ids_apart V \<Longrightarrow> V S3ObjectData k = Some d \<Longrightarrow> doc_id d = k \<and> dbColl d = S3ObjectData"
  by (simp add: ids_apart_def ids_ok_def)

lemma ids_apart_inactive:
  "ids_apart V \<Longrightarrow> V S3ObjectData k = Some d \<Longrightarrow> ids_apart (put_doc S3ObjectData k (Some (inactive_part t d)) V)"
  using apart_part [of V k d] by (auto intro: ids_apart_upd)

lemma purging_inactive:
  assumes P: "purging c ok V0 ds V" and d: "V S3ObjectData k = Some d" "\<not> live_object V0 (p_RefID (as_Part d))"
    and c: "c \<noteq> S3ObjectData" and ok: "\<And>x. ok V x \<Longrightarrow> ok (put_doc S3ObjectData k (Some (inactive_part t d)) V) x"
  shows "purging c ok V0 ds (put_doc S3ObjectData k (Some (inactive_part t d)) V)"
  unfolding purging_def
  using purgingD [OF P] ids_apart_inactive [OF purgingD(2) [OF P] d(1)] kept_part [OF purgingD(3) [OF P] d] c ok
  by (simp add: put_doc_coll) blast

lemma no_live_upload:
  assumes "ids_apart V0" "kept V0 V" and "V S3Uploads i \<noteq> None \<or> V S3ObjectData i \<noteq> None"
  shows "\<not> live_object V0 i"
  using assms(1,3) keptD(1,2) [OF assms(2), of i] by (auto simp: ids_apart_def live_object_def)

lemma no_live_object:
  assumes "kept V0 V" and "V S3Objects i = Some d" "stale d"
  shows "\<not> live_object V0 i"
  using keptD(3) [OF assms(1), of i] assms(2,3) by (auto simp: live_object_def)

lemma wp_s3RepairUploadsInactive:
  assumes E: "mongo_ok E view" and V: "ids_apart V0" "ids_apart (view w)" "kept V0 (view w)"
  shows "wp (s3RepairUploadsInactive E) (ends E view (\<lambda>V. ids_apart V \<and> kept V0 V \<and> swept S3Uploads none_left V)) w"
  unfolding s3RepairUploadsInactive_def dbS3FindAllInactive_stale
proof (rule wp_each_found [OF E, where I = "purging S3Uploads none_left V0"])
  fix d ds w assume P: "purging S3Uploads none_left V0 (d # ds) (view w)"
  have "view w S3Uploads (doc_id d) \<noteq> None" using purgingD(6) [OF P, of d] by auto
  then have dead: "\<not> live_object V0 (doc_id d)" using no_live_upload purgingD(1,3) [OF P] by blast
  show "wp (gbind (unless_nf (dbS3Update E (\<lambda>x. case x of DPart p \<Rightarrow> p_RefID p = doc_id d | _ \<Rightarrow> False)
      (SetU (set_state S3StateInactive)) False (DPart zero_ObjectPart))) (\<lambda>_. dbS3Remove E d))
      (ends E view (purging S3Uploads none_left V0 ds)) w"
    by (rule wp_ends_seq [OF wp_deactivate [OF E, where P = "purging S3Uploads none_left V0 (d # ds)"]])
       (use P dead in \<open>auto intro!: purging_inactive wp_remove_purging [OF E]\<close>)
qed (use V in \<open>auto intro!: purging_init simp: purging_done\<close>)

lemma purging_orphan:
  assumes P: "purging S3ObjectData orphan V0 ds V" and o: "V S3ObjectData j \<noteq> None"
    and d: "V S3ObjectData k = Some d" "p_RefID (as_Part d) = j"
  shows "purging S3ObjectData orphan V0 ds (put_doc S3ObjectData k (Some (inactive_part t d)) V)"
proof -
  let ?V = "put_doc S3ObjectData k (Some (inactive_part t d)) V"
  note ids = purgingD(2) [OF P]
  have x: "stale (inactive_part t d)" "p_RefID (as_Part (inactive_part t d)) = j"
    using apart_part [OF ids d(1)] inactive_part_data d(2) by auto
  have "V S3Objects j = None" using ids o by (auto simp: ids_apart_def)
  then have orph: "orphan ?V (inactive_part t d)" using x by (simp add: orphan_def)
  have "kept V0 ?V"
    using kept_part [OF purgingD(3) [OF P] d(1)] no_live_upload [OF purgingD(1,3) [OF P]] o d(2) by blast
  moreover have "\<exists>y'. ?V S3ObjectData (doc_id y) = Some y' \<and> stale y'" if "y \<in> set ds" for y
    using purgingD(6) [OF P that] x by (simp add: put_doc_app)
  moreover have "i \<in> doc_id ` set ds \<or> orphan ?V y" if "?V S3ObjectData i = Some y" "stale y" for i y
  proof (cases "i = k")
    case True
    then show ?thesis using that orph by simp
  next
    case False
    then show ?thesis using that purgingD(7) [OF P, of i y] by (auto simp: put_doc_app orphan_def)
  qed
  ultimately show ?thesis unfolding purging_def
    using purgingD(1,4) [OF P] purgingD(5) [OF P] ids_apart_inactive [OF ids d(1)] by blast
qed

lemma wp_s3RepairPartsInactive:
  assumes E: "mongo_ok E view" and V: "ids_apart V0" "ids_apart (view w)" "kept V0 (view w)" "swept S3Uploads none_left (view w)"
  shows "wp (s3RepairPartsInactive E) (ends E view (\<lambda>V. ids_apart V \<and> kept V0 V \<and> swept S3ObjectData orphan V
           \<and> swept S3Uploads none_left V)) w"
  unfolding s3RepairPartsInactive_def dbS3FindAllInactive_stale
proof (rule wp_each_found [OF E, where I = "\<lambda>ds V. purging S3ObjectData orphan V0 ds V \<and> swept S3Uploads none_left V"])
  fix d ds w assume P: "purging S3ObjectData orphan V0 (d # ds) (view w) \<and> swept S3Uploads none_left (view w)"
  have here: "view w S3ObjectData (doc_id d) \<noteq> None" using purgingD(6) [OF conjunct1 [OF P], of d] by auto
  show "wp (gbind (unless_nf (s3DeactivateObjectData E (doc_id d))) (\<lambda>_. dbS3Remove E d))
      (ends E view (\<lambda>V. purging S3ObjectData orphan V0 ds V \<and> swept S3Uploads none_left V)) w"
    by (rule wp_ends_seq [OF wp_deactivate_data [OF E,
          where P = "\<lambda>V. purging S3ObjectData orphan V0 (d # ds) V \<and> swept S3Uploads none_left V"]])
       (use P here in \<open>auto intro!: purging_orphan [where j = "doc_id d"] wp_remove_purging [OF E] simp: swept_def orphan_def\<close>)
qed (use V in \<open>auto intro!: purging_init simp: purging_done\<close>)

definition leaving :: "oid \<Rightarrow> dbview \<Rightarrow> doc \<Rightarrow> bool" where
  "leaving i V d \<longleftrightarrow> orphan V d \<or> p_RefID (as_Part d) = i"

lemma swept_mono: "swept c ok V \<Longrightarrow> (\<And>x. ok V x \<Longrightarrow> ok' V x) \<Longrightarrow> swept c ok' V"
  by (auto simp: swept_def)

lemma swept_other: "swept c none_left V \<Longrightarrow> c \<noteq> c' \<Longrightarrow> swept c none_left (put_doc c' i d V)"
  by (simp add: swept_def)

lemma leaving_inactive:
  assumes "swept S3ObjectData (leaving i) V" and "p_RefID (as_Part d) = i" "dbColl d = S3ObjectData"
  shows "swept S3ObjectData (leaving i) (put_doc S3ObjectData k (Some (inactive_part t d)) V)"
  using assms inactive_part_data [of d t] by (auto simp: swept_def leaving_def orphan_def put_doc_app)

lemma leaving_gone: "swept S3ObjectData (leaving i) V \<Longrightarrow> swept S3ObjectData orphan (put_doc S3Objects i None V)"
  by (auto simp: swept_def leaving_def orphan_def put_doc_app)

lemma wp_s3RepairObject:
  assumes E: "mongo_ok E view" and V: "ids_apart V0" "ids_apart (view w)" "kept V0 (view w)"
    "swept S3ObjectData orphan (view w)" "swept S3Uploads none_left (view w)"
  shows "wp (s3RepairObject E) (ends E view (\<lambda>V. ids_apart V \<and> kept V0 V \<and> swept S3Objects none_left V
           \<and> swept S3ObjectData orphan V \<and> swept S3Uploads none_left V)) w"
  unfolding s3RepairObject_def s3RepairObjectInactive_def dbS3FindAllInactive_stale
proof (rule wp_each_found [OF E, where I = "\<lambda>ds V. purging S3Objects none_left V0 ds V
      \<and> swept S3ObjectData orphan V \<and> swept S3Uploads none_left V"])
  fix d ds w
  assume P: "purging S3Objects none_left V0 (d # ds) (view w) \<and> swept S3ObjectData orphan (view w) \<and> swept S3Uploads none_left (view w)"
  obtain d' where "view w S3Objects (doc_id d) = Some d'" "stale d'" using purgingD(6) [OF conjunct1 [OF P], of d] by auto
  then have dead: "\<not> live_object V0 (doc_id d)" by (rule no_live_object [OF purgingD(3) [OF conjunct1 [OF P]]])
  let ?I = "\<lambda>V. purging S3Objects none_left V0 (d # ds) V \<and> swept S3ObjectData (leaving (doc_id d)) V \<and> swept S3Uploads none_left V"
  have now: "?I (view w)" using P by (auto elim: swept_mono simp: leaving_def)
  have part: "dbColl x = S3ObjectData" if "view w S3ObjectData k = Some x" for k x
    using apart_part [OF purgingD(2) [OF conjunct1 [OF P]] that] by simp
  have deact: "?I (put_doc S3ObjectData k (Some (inactive_part t x)) (view w))"
    if "view w S3ObjectData k = Some x" "p_RefID (as_Part x) = doc_id d" for k x t
    using now that dead part [OF that(1)] by (auto intro!: purging_inactive leaving_inactive swept_other)
  have rem: "wp (dbS3Remove E d) (ends E view (\<lambda>V. purging S3Objects none_left V0 ds V
      \<and> swept S3ObjectData orphan V \<and> swept S3Uploads none_left V)) w'" if "?I (view w')" for w'
    by (rule wp_remove_purging [OF E, of S3Objects none_left V0 d ds]) (use that in \<open>auto intro: leaving_gone swept_other\<close>)
  show "wp (gbind (unless_nf (s3DeactivateObjectData E (doc_id d))) (\<lambda>_. dbS3Remove E d))
      (ends E view (\<lambda>V. purging S3Objects none_left V0 ds V \<and> swept S3ObjectData orphan V \<and> swept S3Uploads none_left V)) w"
    by (rule wp_ends_seq [OF wp_deactivate_data [OF E, where P = ?I]]) (fact now deact rem)+
qed (use V in \<open>auto intro!: purging_init simp: purging_done\<close>)

text \<open>The store of the data may fail, which is only logged, but answers.\<close>

definition rados_answers :: "'w env \<Rightarrow> bool" where
  "rados_answers E \<longleftrightarrow> radosDisabled E \<or> (\<forall>r w. fst (rados E r w) \<noteq> RadosPanic)"

lemma rcall_answers: "rados_answers E \<Longrightarrow> \<not> radosDisabled E \<Longrightarrow> calm (rcall E r)"
  by (auto simp: rados_answers_def calm_def rcall_def split: prod.splits rados_reply.splits) (metis fst_conv)

lemma calm_radosDeleteObject: "rados_answers E \<Longrightarrow> calm (radosDeleteObject E pool oname)"
  unfolding radosDeleteObject_def open_ioctx_def
  by (auto intro!: calm_intros rcall_answers split: sum.splits)

lemma calm_radosDeletePool: "rados_answers E \<Longrightarrow> calm (radosDeletePool E pool)"
  unfolding radosDeletePool_def by (auto intro!: calm_intros rcall_answers)

lemma keeps_radosDeleteObject: "mongo_ok E view \<Longrightarrow> keeps view c (radosDeleteObject E pool oname)"
  unfolding radosDeleteObject_def open_ioctx_def
  by (auto intro!: keeps_intros keeps_rcall split: sum.splits)

lemma wp_DeleteChunks_any:
  assumes E: "mongo_ok E view" "rados_answers E"
  shows "wp (DeleteChunks E part) (\<lambda>r w'. r \<noteq> Panic \<and> same_but_chunks (view w) (view w')) w"
proof -
  have "wp (geach (\<lambda>ch. gseq (dbS3Remove E (DChunk (zero_DataChunk\<lparr>c_ObjID := ch\<rparr>))) (gret ())) (p_Chunks part))
      (\<lambda>r w'. r \<noteq> Panic \<and> same_but_chunks (view w) (view w')) w"
    by (intro wp_geach [where I = "\<lambda>_ w'. same_but_chunks (view w) (view w')"])
       (auto simp: wp_simps intro!: wp_Remove [OF E(1)] same_but_chunks_del)
  moreover have "wp (radosDeleteObject E (p_BCookie part) (p_OCookie part)) (\<lambda>r w'. r \<noteq> Panic \<and> same_but_chunks (view w) (view w')) w"
    by (rule wp_calm [OF calm_radosDeleteObject [OF E(2)]], rule quiet_wp [OF keeps_radosDeleteObject [OF E(1)]]) simp
  ultimately show ?thesis unfolding DeleteChunks_def by (auto simp: wp_simps)
qed

lemma ids_apart_chunks: "ids_apart V \<Longrightarrow> same_but_chunks V V' \<Longrightarrow> ids_apart V'"
  unfolding ids_apart_def same_but_chunks_def by simp

lemma purging_chunks:
  assumes "purging c none_left V0 ds V" "same_but_chunks V V'" "c \<noteq> S3DataChunks"
  shows "purging c none_left V0 ds V'"
proof -
  have "V' c = V c" "kept V0 V'" using assms kept_cong [OF purgingD(3) [OF assms(1)], of V'] by (auto simp: same_but_chunks_def)
  then show ?thesis unfolding purging_def
    using purgingD [OF assms(1)] ids_apart_chunks [OF purgingD(2) [OF assms(1)] assms(2)] by simp
qed

lemma swept_chunks: "swept c none_left V \<Longrightarrow> same_but_chunks V V' \<Longrightarrow> c \<noteq> S3DataChunks \<Longrightarrow> swept c none_left V'"
  by (simp add: swept_def same_but_chunks_def)

definition swept2 :: "dbview \<Rightarrow> bool" where
  "swept2 V \<longleftrightarrow> swept S3Objects none_left V \<and> swept S3Uploads none_left V"

lemma wp_s3RepairObjectData:
  assumes E: "mongo_ok E view" "rados_answers E" and V: "ids_apart V0" "ids_apart (view w)" "kept V0 (view w)"
    "swept S3ObjectData orphan (view w)" "swept2 (view w)"
  shows "wp (s3RepairObjectData E) (ends E view (\<lambda>V. ids_apart V \<and> kept V0 V \<and> swept S3ObjectData none_left V \<and> swept2 V)) w"
  unfolding s3RepairObjectData_def dbS3FindAllInactive_stale
proof (rule wp_each_found [OF E(1), where I = "\<lambda>ds V. purging S3ObjectData none_left V0 ds V
      \<and> swept2 V \<and> (\<forall>d \<in> set ds. orphan V d)"])
  fix ds assume ds: "set ds = matching (view w) S3ObjectData stale" "distinct ds"
  then have "orphan (view w) d" if "d \<in> set ds" for d
    using that V(4) unfolding matching_def swept_def by blast
  then show "purging S3ObjectData none_left V0 ds (view w) \<and> swept2 (view w) \<and> (\<forall>d \<in> set ds. orphan (view w) d)"
    using purging_init [OF V(1-3) ds] V(5) by blast
next
  fix d ds w
  assume I: "purging S3ObjectData none_left V0 (d # ds) (view w) \<and> swept2 (view w) \<and> (\<forall>x \<in> set (d # ds). orphan (view w) x)"
  let ?J = "\<lambda>V. purging S3ObjectData none_left V0 (d # ds) V \<and> swept2 V \<and> (\<forall>x \<in> set (d # ds). orphan V x)"
  have none: "matching (view w) S3Objects (q_id (p_RefID (as_Part d))) = {}"
    using I purgingD(2) [OF conjunct1 [OF I]] by (auto simp: matching_def q_id_def orphan_def ids_apart_def ids_ok_def)
  have "wp (gtry (dbS3FindOne E S3Objects (q_id (p_RefID (as_Part d)))) (\<lambda>r. case r of
        Inl err \<Rightarrow> if err \<noteq> ErrNotFound then gerr err else gret () | Inr ob \<Rightarrow> repair_referer E (as_Object ob)))
      (ends E view ?J) w" unfolding wp_gtry
  proof (rule wp_FindOne [OF E(1)])
    fix i x w' assume "view w S3Objects i = Some x" "q_id (p_RefID (as_Part d)) x"
    then have "x \<in> matching (view w) S3Objects (q_id (p_RefID (as_Part d)))" by (rule matchingI)
    with none show "on_any (\<lambda>a. wp (case a of Inl err \<Rightarrow> if err \<noteq> ErrNotFound then gerr err else gret ()
        | Inr ob \<Rightarrow> repair_referer E (as_Object ob)) (ends E view ?J)) (ends E view ?J) (Ok x) w'" by simp
  qed (use I in \<open>simp_all add: wp_simps\<close>)
  moreover have "wp (gseq (DeleteChunks E (as_Part d)) (dbS3Remove E d)) (ends E view (\<lambda>V. purging S3ObjectData none_left V0 ds V
      \<and> swept2 V \<and> (\<forall>d \<in> set ds. orphan V d))) w1" if J: "?J (view w1)" for w1
    unfolding wp_gseq
  proof (rule wp_mono [OF wp_DeleteChunks_any [OF E]])
    fix r w2 assume *: "r \<noteq> Panic \<and> same_but_chunks (view w1) (view w2)"
    then have objs: "view w2 S3Objects = view w1 S3Objects" by (simp add: same_but_chunks_def)
    have P: "purging S3ObjectData none_left V0 (d # ds) (view w2)" using purging_chunks [OF conjunct1 [OF J]] * by simp
    have "wp (dbS3Remove E d) (ends E view (\<lambda>V. purging S3ObjectData none_left V0 ds V \<and> swept2 V \<and> (\<forall>d \<in> set ds. orphan V d))) w2"
      by (rule wp_remove_purging [OF E(1) P])
         (use J * objs swept_chunks in \<open>auto simp: swept2_def orphan_def intro!: swept_other\<close>)
    with * show "on_any (\<lambda>_. wp (dbS3Remove E d) (ends E view (\<lambda>V. purging S3ObjectData none_left V0 ds V \<and> swept2 V
        \<and> (\<forall>d \<in> set ds. orphan V d)))) (ends E view (\<lambda>V. purging S3ObjectData none_left V0 ds V \<and> swept2 V
        \<and> (\<forall>d \<in> set ds. orphan V d))) r w2" by (simp add: on_any_def split: res.splits)
  qed
  ultimately show "wp (gbind (gtry (dbS3FindOne E S3Objects (q_id (p_RefID (as_Part d)))) (\<lambda>r. case r of
        Inl err \<Rightarrow> if err \<noteq> ErrNotFound then gerr err else gret () | Inr ob \<Rightarrow> repair_referer E (as_Object ob)))
      (\<lambda>_. gseq (DeleteChunks E (as_Part d)) (dbS3Remove E d))) (ends E view (\<lambda>V. purging S3ObjectData none_left V0 ds V
        \<and> swept2 V \<and> (\<forall>d \<in> set ds. orphan V d))) w"
    by (rule wp_ends_seq)
qed (auto simp: purging_done)

definition all_swept :: "dbview \<Rightarrow> bool" where
  "all_swept V \<longleftrightarrow> swept S3Uploads none_left V \<and> swept S3ObjectData none_left V \<and> swept S3Objects none_left V
     \<and> swept S3Buckets none_left V"

lemma wp_s3RepairBucketInactive:
  assumes E: "mongo_ok E view" "rados_answers E" and V: "ids_apart V0" "ids_apart (view w)" "kept V0 (view w)"
    "swept S3ObjectData none_left (view w)" "swept2 (view w)"
  shows "wp (s3RepairBucketInactive E) (ends E view (\<lambda>V. ids_apart V \<and> kept V0 V \<and> all_swept V)) w"
  unfolding s3RepairBucketInactive_def dbS3FindAllInactive_stale
proof (rule wp_each_found [OF E(1), where I = "\<lambda>ds V. purging S3Buckets none_left V0 ds V
      \<and> swept S3ObjectData none_left V \<and> swept2 V"])
  fix d ds w assume I: "purging S3Buckets none_left V0 (d # ds) (view w) \<and> swept S3ObjectData none_left (view w) \<and> swept2 (view w)"
  define Q :: "(goerr, unit) res \<Rightarrow> 'a \<Rightarrow> bool" where "Q = ends E view (\<lambda>V. purging S3Buckets none_left V0 ds V \<and> swept S3ObjectData none_left V \<and> swept2 V)"
  have rem: "wp (dbS3Remove E d) Q w'" if "view w' = view w" for w' unfolding Q_def
    by (rule wp_remove_purging [OF E(1), of S3Buckets none_left V0 d ds])
       (use I that in \<open>auto simp: swept2_def intro!: swept_other\<close>)
  have "wp (radosDeletePool E (b_BCookie (as_Bucket d))) (\<lambda>r w'. r \<noteq> Panic \<and> view w' = view w) w"
    by (rule wp_calm [OF calm_radosDeletePool [OF E(2)]], rule quiet_wp [OF keeps_radosDeletePool [OF E(1)]])
  then show "wp (gseq (radosDeletePool E (b_BCookie (as_Bucket d))) (dbS3Remove E d))
      (ends E view (\<lambda>V. purging S3Buckets none_left V0 ds V \<and> swept S3ObjectData none_left V \<and> swept2 V)) w"
    unfolding wp_gseq Q_def [symmetric] by (rule wp_mono) (auto simp: on_any_def rem split: res.splits)
qed (use V in \<open>auto intro!: purging_init simp: swept2_def all_swept_def dest!: purging_done\<close>)

text \<open>A bucket a crashed request held a reference on, with its counters recomputed from the
  objects \<open>V\<close> has.\<close>

definition repaired :: "dbview \<Rightarrow> Bucket \<Rightarrow> Bucket \<Rightarrow> bool" where
  "repaired V b b' \<longleftrightarrow> (if b_Ref b = 0 then b' = b
     else let objs = matching V S3Objects (q_bucket_active (b_ObjID b))
          in b_CntObjects b' = int64_of (int (card objs)) \<and> b_CntBytes b' = int64_of (\<Sum>d \<in> objs. o_Size (as_Object d))
             \<and> (\<exists>t. b' = b\<lparr>b_CntObjects := b_CntObjects b', b_CntBytes := b_CntBytes b', b_Ref := 0, b_MTime := t\<rparr>))"

lemma repaired_ref:
  assumes "repaired V b b'"
  shows "b_Ref b' = 0" and "b_State b' = b_State b"
proof -
  have "b_Ref b' = 0 \<and> b_State b' = b_State b"
  proof (cases "b_Ref b = 0")
    case True
    then show ?thesis using assms by (simp add: repaired_def)
  next
    case False
    then obtain t n m where "b' = b\<lparr>b_CntObjects := n, b_CntBytes := m, b_Ref := 0, b_MTime := t\<rparr>"
      using assms by (auto simp: repaired_def Let_def)
    then show ?thesis by simp
  qed
  then show "b_Ref b' = 0" and "b_State b' = b_State b" by simp_all
qed

lemma int64_of_add: "int64_of (int64_of x + y) = int64_of (x + y)"
proof -
  have "((x + 2 ^ 63) mod 2 ^ 64 - 2 ^ 63 + y + 2 ^ 63) mod (2 ^ 64 :: int) = ((x + 2 ^ 63) mod 2 ^ 64 + y) mod 2 ^ 64" by simp
  also have "\<dots> = (x + 2 ^ 63 + y) mod 2 ^ 64" by (rule mod_add_left_eq)
  finally show ?thesis by (simp add: int64_of_def add.assoc add.commute [of y])
qed

lemma fold_int64: "fold (\<lambda>ob n. int64_of (n + f ob)) xs (int64_of a) = int64_of (a + sum_list (map f xs))"
  by (induction xs arbitrary: a) (simp_all add: int64_of_add add.assoc)

definition counted :: "dbview \<Rightarrow> oid set \<Rightarrow> dbview \<Rightarrow> oid \<Rightarrow> bool" where
  "counted V1 D V i \<longleftrightarrow> (case V1 S3Buckets i of
       None \<Rightarrow> V S3Buckets i = None
     | Some d \<Rightarrow> i \<in> D \<and> V S3Buckets i = Some d
         \<or> (\<exists>b b'. d = DBucket b \<and> V S3Buckets i = Some (DBucket b') \<and> repaired V1 b b'))"

definition recounting :: "dbview \<Rightarrow> doc list \<Rightarrow> dbview \<Rightarrow> bool" where
  "recounting V1 ds V \<longleftrightarrow> ids_apart V \<and> (\<forall>c. c \<noteq> S3Buckets \<longrightarrow> V c = V1 c) \<and> distinct (map doc_id ds)
     \<and> (\<forall>d \<in> set ds. V S3Buckets (doc_id d) = Some d \<and> b_Ref (as_Bucket d) \<noteq> 0)
     \<and> (\<forall>i. counted V1 (doc_id ` set ds) V i)"

lemma apart_bucket:
  assumes "ids_apart V" "V S3Buckets i = Some d"
  obtains b where "d = DBucket b" "b_ObjID b = i" "i \<noteq> []"
proof -
  have "dbColl d = S3Buckets \<and> doc_id d = i" "i \<noteq> []" using assms unfolding ids_apart_def ids_ok_def by force+
  then show ?thesis using that by (cases d) auto
qed

lemma recounting_init:
  assumes V: "ids_apart V" and ds: "set ds = matching V S3Buckets (\<lambda>d. b_Ref (as_Bucket d) \<noteq> 0)" "distinct ds"
  shows "recounting V ds V"
proof -
  have key: "V S3Buckets (doc_id d) = Some d \<and> b_Ref (as_Bucket d) \<noteq> 0" if "d \<in> set ds" for d
    using that V ds by (auto simp: matching_def ids_apart_def ids_ok_def)
  have inj: "inj_on doc_id (set ds)" by (rule inj_onI) (metis key option.inject)
  have "counted V (doc_id ` set ds) V i" for i
  proof (cases "V S3Buckets i")
    case (Some d)
    obtain b where b: "d = DBucket b" "b_ObjID b = i" using apart_bucket [OF V Some] by metis
    have "d \<in> set ds" if "b_Ref b \<noteq> 0" using Some b ds that by (auto simp: matching_def)
    then have "i \<in> doc_id ` set ds \<or> repaired V b b" using b by (force simp: repaired_def)
    then show ?thesis using Some b by (simp add: counted_def)
  qed (simp add: counted_def)
  then show ?thesis using V key inj ds(2) unfolding recounting_def by (auto simp: distinct_map)
qed

lemma recounting_step:
  assumes R: "recounting V1 (DBucket b # ds) V"
    and n: "set objs = matching V S3Objects (q_bucket_active (b_ObjID b))" "distinct objs"
  shows "recounting V1 ds (put_doc S3Buckets (b_ObjID b) (Some (DBucket (b\<lparr>b_CntObjects := int64_of (int (length objs)),
      b_CntBytes := fold (\<lambda>ob n. int64_of (n + o_Size (as_Object ob))) objs 0, b_Ref := 0, b_MTime := t\<rparr>))) V)"
    (is "recounting V1 ds (put_doc _ _ (Some (DBucket ?b)) V)")
proof -
  let ?V = "put_doc S3Buckets (b_ObjID b) (Some (DBucket ?b)) V"
  have b: "V S3Buckets (b_ObjID b) = Some (DBucket b)" "b_Ref b \<noteq> 0" and V: "ids_apart V"
    and other: "\<And>d. d \<in> set ds \<Longrightarrow> doc_id d \<noteq> b_ObjID b" and objs: "V S3Objects = V1 S3Objects"
    using R by (auto simp: recounting_def image_iff)
  have count: "counted V1 (insert (b_ObjID b) (doc_id ` set ds)) V i" for i using R by (simp add: recounting_def)
  have b1: "V1 S3Buckets (b_ObjID b) = Some (DBucket b)"
    using count [of "b_ObjID b"] b by (auto simp: counted_def dest: repaired_ref(1) split: option.splits)
  have "sum_list (map (\<lambda>d. o_Size (as_Object d)) objs) = (\<Sum>d \<in> set objs. o_Size (as_Object d))"
    by (rule sum_list_distinct_conv_sum_set [OF n(2)])
  then have rep: "repaired V1 b ?b"
    using b(2) n objs fold_int64 [of "\<lambda>d. o_Size (as_Object d)" objs 0]
    by (auto simp: repaired_def Let_def distinct_card [symmetric] matching_def int64_of_def)
  have "ids_apart ?V" using b V by (auto intro!: ids_apart_upd)
  moreover have "counted V1 (doc_id ` set ds) ?V i" for i
  proof (cases "i = b_ObjID b")
    case True
    then show ?thesis using b1 rep by (simp add: counted_def)
  next
    case False
    then have "?V S3Buckets i = V S3Buckets i" by (simp add: put_doc_app)
    then show ?thesis using count [of i] False unfolding counted_def by (auto split: option.splits)
  qed
  moreover have "?V S3Buckets (doc_id d) = Some d \<and> b_Ref (as_Bucket d) \<noteq> 0" if "d \<in> set ds" for d
    using R other that by (simp add: recounting_def put_doc_app)
  ultimately show ?thesis using R unfolding recounting_def by auto
qed

lemma wp_s3RepairBucketReference:
  assumes E: "mongo_ok E view" and R: "recounting V1 (DBucket b # ds) (view w)"
  shows "wp (s3RepairBucketReference E b) (ends E view (recounting V1 ds)) w"
proof -
  have V: "ids_apart (view w)" and b: "view w S3Buckets (b_ObjID b) = Some (DBucket b)"
    using R by (auto simp: recounting_def)
  have nonempty: "b_ObjID b \<noteq> []" using apart_bucket [OF V b] by metis
  define upd :: "int \<times> int \<Rightarrow> Bucket \<Rightarrow> Bucket" where "upd = (\<lambda>(n, m) b. b\<lparr>b_CntObjects := n, b_CntBytes := m, b_Ref := 0\<rparr>)"
  have step: "wp (gbind (dbS3Update E (\<lambda>_. True) (SetU (upd_bucket (upd (int64_of (int (length objs)),
        fold (\<lambda>ob n. int64_of (n + o_Size (as_Object ob))) objs 0)))) False (DBucket b)) (\<lambda>_. gret ()))
      (ends E view (recounting V1 ds)) w'" (is "wp (gbind (dbS3Update E _ (SetU (upd_bucket ?u)) _ _) _) _ _")
    if v: "view w' = view w" and objs: "set objs = matching (view w) S3Objects (q_bucket_active (b_ObjID b))" "distinct objs" for objs w'
    unfolding wp_gbind
  proof (rule wp_Update [OF E])
    fix t i d w2 assume d: "view w' (dbColl (DBucket b)) i = Some d"
        "doc_id (DBucket b) \<noteq> [] \<Longrightarrow> doc_id d = doc_id (DBucket b)"
      and v2: "view w2 = put_doc (dbColl (DBucket b)) i (Some (upd_fun (dbS3UpdateMTime t (SetU (upd_bucket ?u))) d)) (view w')"
    obtain b' where "d = DBucket b'" "b_ObjID b' = i" using apart_bucket [OF V, of i d] d(1) v by auto
    then have i: "i = b_ObjID b" using d(2) nonempty by simp
    then have "d = DBucket b" using d(1) v b by simp
    note i this
    then have "view w2 = put_doc S3Buckets (b_ObjID b) (Some (DBucket (?u b\<lparr>b_MTime := t\<rparr>))) (view w)"
      using v2 v by (simp add: dbS3UpdateMTime_def)
    then have "recounting V1 ds (view w2)" using recounting_step [OF R objs, of t] by (simp add: upd_def)
    then show "on_ok (\<lambda>a. wp (gret ()) (ends E view (recounting V1 ds))) (ends E view (recounting V1 ds))
        (Ok (if False then upd_fun (dbS3UpdateMTime t (SetU (upd_bucket ?u))) d else d)) w2" by (simp add: wp_simps)
  next
    fix w2 assume "matching (view w') (dbColl (DBucket b)) (dbS3SetObjID (DBucket b) (\<lambda>_. True)) = {}"
    then show "on_ok (\<lambda>a. wp (gret ()) (ends E view (recounting V1 ds))) (ends E view (recounting V1 ds)) (Err ErrNotFound) w2"
      using b v by (auto simp: matching_def dbS3SetObjID_def)
  qed (simp add: wp_simps)
  show ?thesis unfolding s3RepairBucketReference_def wp_gbind [of "gtry _ _"] wp_gtry
    by (rule wp_FindAll [OF E]) (auto simp: wp_simps intro!: step [unfolded upd_def, simplified])
qed

lemma wp_s3RepairBucketReferenced:
  assumes E: "mongo_ok E view" and V: "ids_apart (view w)"
  shows "wp (s3RepairBucketReferenced E) (ends E view (recounting (view w) [])) w"
  unfolding s3RepairBucketReferenced_def
proof (rule wp_each_found [OF E, where I = "recounting (view w)"])
  fix d ds w1 assume R: "recounting (view w) (d # ds) (view w1)"
  then have "ids_apart (view w1)" "view w1 S3Buckets (doc_id d) = Some d" by (auto simp: recounting_def)
  then obtain b where "d = DBucket b" by (rule apart_bucket)
  then show "wp (s3RepairBucketReference E (as_Bucket d)) (ends E view (recounting (view w) ds)) w1"
    using wp_s3RepairBucketReference [OF E] R by simp
qed (use recounting_init [OF V] in simp_all)

section \<open>The repair\<close>

lemma wp_dbRepair:
  assumes E: "mongo_ok E view" "rados_answers E" and V: "ids_apart (view w)"
  shows "wp (dbRepair E) (ends E view (\<lambda>V. \<exists>V1. ids_apart V1 \<and> kept (view w) V1 \<and> all_swept V1 \<and> recounting V1 [] V)) w"
  unfolding dbRepair_def s3RepairUpload_def s3RepairBucket_def
  by (rule wp_ends_seq, rule wp_ends_seq, rule wp_s3RepairUploadsInactive [OF E(1) V V], simp,
      rule wp_s3RepairPartsInactive [OF E(1) V], simp_all,
      rule wp_ends_seq, rule wp_s3RepairObject [OF E(1) V], simp_all,
      rule wp_ends_seq, rule wp_s3RepairObjectData [OF E V], simp_all add: swept2_def,
      rule wp_ends_seq, rule wp_s3RepairBucketInactive [OF E V], simp_all add: swept2_def,
      rule wp_mono, rule wp_s3RepairBucketReferenced [OF E(1)], simp)
     (auto simp: ends_def split: res.splits)


text \<open>A database after a crash: an object being written and a bucket that counts it.\<close>

definition crashed_bucket :: Bucket where
  "crashed_bucket = demo_bucket\<lparr>b_Ref := 1, b_CntObjects := 2, b_CntBytes := 12\<rparr>"

definition crashed :: mem where
  "crashed = mem_of [DBucket crashed_bucket,
     DObject (zero_Object\<lparr>o_ObjID := ''o1'', o_State := S3StateActive, o_BucketObjID := ''b1'', o_Size := 5\<rparr>),
     DObject (zero_Object\<lparr>o_ObjID := ''o2'', o_State := S3StateNone, o_BucketObjID := ''b1'', o_Size := 7\<rparr>),
     DPart (zero_ObjectPart\<lparr>p_ObjID := ''p2'', p_RefID := ''o2'', p_State := S3StateActive\<rparr>)]"

lemma crashed_view: "mview crashed c i =
    (if c = S3Buckets \<and> i = ''b1'' then Some (DBucket crashed_bucket)
     else if c = S3Objects \<and> i = ''o1'' then Some (DObject (zero_Object\<lparr>o_ObjID := ''o1'', o_State := S3StateActive, o_BucketObjID := ''b1'', o_Size := 5\<rparr>))
     else if c = S3Objects \<and> i = ''o2'' then Some (DObject (zero_Object\<lparr>o_ObjID := ''o2'', o_State := S3StateNone, o_BucketObjID := ''b1'', o_Size := 7\<rparr>))
     else if c = S3ObjectData \<and> i = ''p2'' then Some (DPart (zero_ObjectPart\<lparr>p_ObjID := ''p2'', p_RefID := ''o2'', p_State := S3StateActive\<rparr>))
     else None)"
  by (simp add: crashed_def mview_mem_of crashed_bucket_def demo_bucket_def)


end
