(* ===== verification/Gate_Ids.thy ===== *)
theory Gate_Ids
  imports Go_Strings
begin

text \<open>
  Identities of the gate's objects: \<open>src/gate/swoid.go\<close>, and the errors its handlers answer with
  (\<open>src/gate/error.go\<close>). A cookie is the hash of the slash-separated path of an object; the hash
  (\<open>xh.Cookify\<close>, SHA-256 in hexadecimal) is an argument of the definitions.
\<close>

record SwoId =
  Tennant :: string
  Project :: string
  Name :: string

definition DefaultProject :: string where "DefaultProject = ''default''"

definition makeSwoId :: "string \<Rightarrow> string \<Rightarrow> string \<Rightarrow> SwoId" where
  "makeSwoId tennant project name =
     \<lparr>Tennant = tennant, Project = (if project = [] then DefaultProject else project), Name = name\<rparr>"

text \<open>The characters \<open>NameOK\<close> lets through. A byte of a multi-byte character is never one of them.\<close>

definition name_char :: "char \<Rightarrow> bool" where
  "name_char c \<longleftrightarrow> (CHR ''a'' \<le> c \<and> c \<le> CHR ''z'') \<or> (CHR ''A'' \<le> c \<and> c \<le> CHR ''Z'') \<or> (CHR ''0'' \<le> c \<and> c \<le> CHR ''9'')
     \<or> c = CHR ''_'' \<or> c = CHR ''.''"

text \<open>\<open>None\<close> is the panic of \<open>id.Name[0]\<close> on an empty name.\<close>

definition NameOK :: "SwoId \<Rightarrow> bool option" where
  "NameOK i = (if \<not> list_all name_char (Name i) then Some False
     else case Name i of [] \<Rightarrow> None | c # _ \<Rightarrow> Some (c \<noteq> CHR ''_'' \<and> c \<noteq> CHR ''.''))"

definition Str :: "SwoId \<Rightarrow> string" where
  "Str i = Tennant i @ (if Project i \<noteq> [] then ''/'' @ Project i @ (if Name i \<noteq> [] then ''/'' @ Name i else []) else [])"

text \<open>What the cookies are the hashes of.\<close>

definition cookie_path :: "SwoId \<Rightarrow> string" where
  "cookie_path i = Tennant i @ ''/'' @ Project i @ ''/'' @ Name i"

definition Cookie :: "(string \<Rightarrow> string) \<Rightarrow> SwoId \<Rightarrow> string" where
  "Cookie Cookify i = Cookify (cookie_path i)"

definition PCookie :: "(string \<Rightarrow> string) \<Rightarrow> SwoId \<Rightarrow> string" where
  "PCookie Cookify i = Cookify (Tennant i @ ''/'' @ Project i)"

definition Cookie2 :: "(string \<Rightarrow> string) \<Rightarrow> string \<Rightarrow> SwoId \<Rightarrow> string" where
  "Cookie2 Cookify salt i = Cookify (salt @ '':'' @ cookie_path i)"

definition S3Namespace :: "(string \<Rightarrow> string) \<Rightarrow> SwoId \<Rightarrow> string" where
  "S3Namespace Cookify i = Cookify (Tennant i @ ''/'' @ DefaultProject)"

section \<open>Paths are unambiguous\<close>

lemma append_sep_inject:
  assumes "c \<notin> set a" "c \<notin> set a'" and "a @ c # r = a' @ c # r'"
  shows "a = a' \<and> r = r'"
proof -
  have "takeWhile (\<lambda>x. x \<noteq> c) (a @ c # r) = a" "takeWhile (\<lambda>x. x \<noteq> c) (a' @ c # r') = a'"
    using assms(1,2) by (auto simp: takeWhile_append)
  then show ?thesis using assms(3) by simp
qed

lemma name_char_no_slash: "\<not> name_char (CHR ''/'')"
  by (simp add: name_char_def less_eq_char_def)

lemma NameOK_no_slash:
  assumes "NameOK i = Some True"
  shows "CHR ''/'' \<notin> set (Name i)" and "Name i \<noteq> []"
  using assms name_char_no_slash by (auto simp: NameOK_def list_all_iff split: if_splits list.splits)

lemma cookie_path_inject:
  assumes "CHR ''/'' \<notin> set (Tennant a)" "CHR ''/'' \<notin> set (Tennant b)"
    and "NameOK a = Some True" "NameOK b = Some True" and "cookie_path a = cookie_path b"
  shows "Tennant a = Tennant b \<and> Project a = Project b \<and> Name a = Name b"
proof -
  have rest: "Tennant a = Tennant b" "Project a @ ''/'' @ Name a = Project b @ ''/'' @ Name b"
    using append_sep_inject [OF assms(1,2)] assms(5) by (auto simp: cookie_path_def)
  have "rev (Name a) @ CHR ''/'' # rev (Project a) = rev (Name b) @ CHR ''/'' # rev (Project b)"
    using arg_cong [OF rest(2), of rev] by simp
  then have "rev (Name a) = rev (Name b) \<and> rev (Project a) = rev (Project b)"
    by (intro append_sep_inject) (use NameOK_no_slash assms(3,4) in auto)
  then show ?thesis using rest(1) by simp
qed

text \<open>
  C29. Two objects of checked names have the same cookie only if they are the same object, whatever their
  projects are called, as long as the hash has no collision on the two paths and tenant names hold no
  slash.
\<close>

theorem cookies_distinct:
  assumes "CHR ''/'' \<notin> set (Tennant a)" "CHR ''/'' \<notin> set (Tennant b)"
    and "NameOK a = Some True" "NameOK b = Some True"
    and "Cookify (cookie_path a) = Cookify (cookie_path b) \<longrightarrow> cookie_path a = cookie_path b"
  shows "Cookie Cookify a = Cookie Cookify b \<longleftrightarrow> Tennant a = Tennant b \<and> Project a = Project b \<and> Name a = Name b"
proof
  assume "Cookie Cookify a = Cookie Cookify b"
  then have "cookie_path a = cookie_path b" using assms(5) by (simp add: Cookie_def)
  then show "Tennant a = Tennant b \<and> Project a = Project b \<and> Name a = Name b"
    by (rule cookie_path_inject [OF assms(1-4)])
qed (simp add: Cookie_def cookie_path_def)

theorem cookies_distinct_witness:
  "Cookie (\<lambda>s. s) (makeSwoId ''acme'' '''' ''fn1'') \<noteq> Cookie (\<lambda>s. s) (makeSwoId ''acme'' ''a/b'' ''fn1'')"
proof -
  have ok: "NameOK (makeSwoId ''acme'' '''' ''fn1'') = Some True" "NameOK (makeSwoId ''acme'' ''a/b'' ''fn1'') = Some True"
    by (simp_all add: NameOK_def makeSwoId_def name_char_def less_eq_char_def)
  show ?thesis
    using cookies_distinct [OF _ _ ok, where Cookify = "\<lambda>s. s"] by (simp add: makeSwoId_def DefaultProject_def)
qed

section \<open>Errors\<close>

text \<open>\<open>xrest.ReqErr\<close> and the codes of \<open>src/apis/gate.go\<close>.\<close>

record ReqErr =
  re_Code :: nat
  re_Message :: string

definition GateGenErr :: nat where "GateGenErr = 1"
definition GateBadRequest :: nat where "GateBadRequest = 2"
definition GateBadResp :: nat where "GateBadResp = 3"
definition GateDbError :: nat where "GateDbError = 4"
definition GateDuplicate :: nat where "GateDuplicate = 5"
definition GateNotFound :: nat where "GateNotFound = 6"
definition GateFsError :: nat where "GateFsError = 7"
definition GateNotAvail :: nat where "GateNotAvail = 8"
definition GateLimitHit :: nat where "GateLimitHit = 9"

definition gateErrMsg :: "(nat \<times> string) list" where
  "gateErrMsg = [
     (GateGenErr, ''Unknown error''), (GateBadRequest, ''Error parsing request parameters''),
     (GateBadResp, ''Error writing response''), (GateDbError, ''Database request failed''),
     (GateDuplicate, ''ID already exists''), (GateNotFound, ''ID not found''),
     (GateFsError, ''Files access failed''), (GateNotAvail, ''Operation not (yet) available''),
     (GateLimitHit, ''Resource limitation hit'')]"

definition GateErrC :: "nat \<Rightarrow> ReqErr" where
  "GateErrC code = \<lparr>re_Code = code, re_Message = (case map_of gateErrMsg code of None \<Rightarrow> [] | Some m \<Rightarrow> m)\<rparr>"

definition GateErrM :: "nat \<Rightarrow> string \<Rightarrow> ReqErr" where
  "GateErrM code msg = \<lparr>re_Code = code, re_Message = msg\<rparr>"

text \<open>What \<open>GateErrD\<close> tells apart of a driver error: not found, duplicate key, anything else with its text.\<close>

datatype gdberr = GNotFound | GDup | GDbErr string

definition GateErrE :: "nat \<Rightarrow> string \<Rightarrow> ReqErr" where
  "GateErrE code err = \<lparr>re_Code = code, re_Message = err\<rparr>"

definition GateErrD :: "gdberr \<Rightarrow> ReqErr" where
  "GateErrD e = (case e of GNotFound \<Rightarrow> GateErrC GateNotFound | GDup \<Rightarrow> GateErrC GateDuplicate
     | GDbErr msg \<Rightarrow> GateErrE GateDbError msg)"

lemmas gate_codes = GateGenErr_def GateBadRequest_def GateBadResp_def GateDbError_def GateDuplicate_def
  GateNotFound_def GateFsError_def GateNotAvail_def GateLimitHit_def

end
