(* ===== verification/Gate_Pods.thy ===== *)
theory Gate_Pods
  imports Gate_Ids "HOL-Library.AList"
begin

text \<open>
  The store of running pods: \<open>src/gate/pods.go\<close>. A concurrent map leads from a function's id to a
  heap cell with the function's pods and its own lock; a cell whose last pod is gone is marked dead
  and taken out of the map. Pods are added by one goroutine per pod and deleted by the one event loop
  of \<open>src/gate/k8s.go\<close>. Here are the operations, the interleavings of their atomic steps, and the
  simulation of the store by a plain map.

  A Go map is an association list; its iteration order, which Go leaves open, is the list's.
\<close>

section \<open>Data\<close>

record k8sPod =
  pod_SwoId :: SwoId
  FnId :: string
  Token :: string
  Version :: string
  DepName :: string
  WdogAddr :: string
  WdogPort :: string
  Host :: string
  UID :: string

record podConn =
  pc_Addr :: string
  pc_Host :: string
  pc_Port :: string
  pc_FnId :: string
  pc_PTok :: string

definition conn :: "k8sPod \<Rightarrow> podConn" where
  "conn pod = \<lparr>pc_Addr = WdogAddr pod, pc_Host = Host pod, pc_Port = WdogPort pod, pc_FnId = FnId pod, pc_PTok = Token pod\<rparr>"

record fnPods =
  fp_pods :: "(string \<times> k8sPod) list"
  fp_dead :: bool

text \<open>The concurrent map \<open>fnPodsStore\<close> and the cells it points to.\<close>

record podstore =
  fnPodsStore :: "string \<Rightarrow> nat option"
  cells :: "nat \<Rightarrow> fnPods"
  next_cell :: nat

definition makeFnPods :: fnPods where
  "makeFnPods = \<lparr>fp_pods = [], fp_dead = False\<rparr>"

definition empty_store :: podstore where
  "empty_store = \<lparr>fnPodsStore = (\<lambda>_. None), cells = (\<lambda>_. makeFnPods), next_cell = 0\<rparr>"

section \<open>Atomic steps\<close>

definition findFnPods :: "podstore \<Rightarrow> string \<Rightarrow> nat option" where
  "findFnPods s fnid = fnPodsStore s fnid"

text \<open>\<open>LoadOrStore(fnid, makeFnPods())\<close>: the cell of the function, a fresh one when there was none.\<close>

definition load_or_store :: "podstore \<Rightarrow> string \<Rightarrow> nat \<times> podstore" where
  "load_or_store s fnid = (case fnPodsStore s fnid of
     Some a \<Rightarrow> (a, s)
   | None \<Rightarrow> (next_cell s, s\<lparr>fnPodsStore := (fnPodsStore s)(fnid := Some (next_cell s)),
       cells := (cells s)(next_cell s := makeFnPods), next_cell := Suc (next_cell s)\<rparr>))"

text \<open>The critical section of \<open>podsAdd\<close>: \<open>None\<close> when the cell is dead and the caller has to try again.\<close>

definition add_locked :: "podstore \<Rightarrow> nat \<Rightarrow> k8sPod \<Rightarrow> podstore option" where
  "add_locked s a pod = (let c = cells s a in
     if fp_dead c then None
     else Some (s\<lparr>cells := (cells s)(a := c\<lparr>fp_pods := AList.update (UID pod) pod (fp_pods c)\<rparr>)\<rparr>))"

text \<open>The critical section of \<open>podsDel\<close> up to the deletion from the map, and that deletion.\<close>

definition del_locked :: "podstore \<Rightarrow> nat \<Rightarrow> k8sPod \<Rightarrow> podstore" where
  "del_locked s a pod = (let c = cells s a; ps = AList.delete (UID pod) (fp_pods c) in
     s\<lparr>cells := (cells s)(a := \<lparr>fp_pods = ps, fp_dead = (ps = [] \<or> fp_dead c)\<rparr>)\<rparr>)"

definition store_delete :: "podstore \<Rightarrow> string \<Rightarrow> podstore" where
  "store_delete s fnid = s\<lparr>fnPodsStore := (fnPodsStore s)(fnid := None)\<rparr>"

section \<open>Operations\<close>

definition podsDel :: "podstore \<Rightarrow> k8sPod \<Rightarrow> podstore" where
  "podsDel s pod = (case findFnPods s (FnId pod) of
     None \<Rightarrow> s
   | Some a \<Rightarrow> let s' = del_locked s a pod
               in if fp_pods (cells s' a) = [] then store_delete s' (FnId pod) else s')"

text \<open>The label \<open>again\<close> of \<open>podsAdd\<close>: a call that never returns has the value \<open>None\<close>.\<close>

partial_function (option) podsAdd :: "podstore \<Rightarrow> k8sPod \<Rightarrow> podstore option" where
  "podsAdd s pod = (let (a, s') = (case fnPodsStore s (FnId pod) of Some a \<Rightarrow> (a, s) | None \<Rightarrow> load_or_store s (FnId pod))
     in case add_locked s' a pod of None \<Rightarrow> podsAdd s' pod | Some s'' \<Rightarrow> Some s'')"

definition podsFindExact :: "podstore \<Rightarrow> string \<Rightarrow> string \<Rightarrow> podConn option" where
  "podsFindExact s fnid version = (case findFnPods s fnid of
     None \<Rightarrow> None
   | Some a \<Rightarrow> map_option (conn \<circ> snd) (List.find (\<lambda>(_, pod). Version pod = version) (fp_pods (cells s a))))"

text \<open>\<open>None\<close> is the nil slice.\<close>

definition podsFindAll :: "podstore \<Rightarrow> string \<Rightarrow> podConn list option" where
  "podsFindAll s fnid = (case findFnPods s fnid of
     None \<Rightarrow> None
   | Some a \<Rightarrow> Some (map (conn \<circ> snd) (fp_pods (cells s a))))"

definition podsListVersions :: "podstore \<Rightarrow> string \<Rightarrow> string list" where
  "podsListVersions s fnid = (case findFnPods s fnid of
     None \<Rightarrow> []
   | Some a \<Rightarrow> remdups (map (Version \<circ> snd) (fp_pods (cells s a))))"

section \<open>Interleavings\<close>

text \<open>
  Where a goroutine in \<open>podsAdd\<close> is: before the first load of a round, after a load that found nothing,
  or with a cell in hand, about to lock it. The event loop in \<open>podsDel\<close> has a cell in hand, or
  holds its lock with the last pod gone and the map entry still there.
\<close>

datatype adder = NoAdd | Load k8sPod | LoadOrStore k8sPod | HaveCell k8sPod nat
datatype deleter = NoDel | DelCell k8sPod nat | DelEntry string nat

datatype pod_event = Added k8sPod | Deleted k8sPod | Silent

record podsys =
  sys_store :: podstore
  sys_add :: "nat \<Rightarrow> adder"
  sys_del :: deleter

inductive pods_step :: "pod_event \<Rightarrow> podsys \<Rightarrow> podsys \<Rightarrow> bool" where
  add_call: "sys_add s t = NoAdd \<Longrightarrow>
    pods_step Silent s (s\<lparr>sys_add := (sys_add s)(t := Load pod)\<rparr>)"
| add_hit: "sys_add s t = Load pod \<Longrightarrow> fnPodsStore (sys_store s) (FnId pod) = Some a \<Longrightarrow>
    pods_step Silent s (s\<lparr>sys_add := (sys_add s)(t := HaveCell pod a)\<rparr>)"
| add_miss: "sys_add s t = Load pod \<Longrightarrow> fnPodsStore (sys_store s) (FnId pod) = None \<Longrightarrow>
    pods_step Silent s (s\<lparr>sys_add := (sys_add s)(t := LoadOrStore pod)\<rparr>)"
| add_store: "sys_add s t = LoadOrStore pod \<Longrightarrow> load_or_store (sys_store s) (FnId pod) = (a, st) \<Longrightarrow>
    pods_step Silent s (s\<lparr>sys_store := st, sys_add := (sys_add s)(t := HaveCell pod a)\<rparr>)"
| add_done: "sys_add s t = HaveCell pod a \<Longrightarrow> (\<forall>f. sys_del s \<noteq> DelEntry f a) \<Longrightarrow>
    add_locked (sys_store s) a pod = Some st \<Longrightarrow>
    pods_step (Added pod) s (s\<lparr>sys_store := st, sys_add := (sys_add s)(t := NoAdd)\<rparr>)"
| add_again: "sys_add s t = HaveCell pod a \<Longrightarrow> (\<forall>f. sys_del s \<noteq> DelEntry f a) \<Longrightarrow>
    add_locked (sys_store s) a pod = None \<Longrightarrow>
    pods_step Silent s (s\<lparr>sys_add := (sys_add s)(t := Load pod)\<rparr>)"
| del_find: "sys_del s = NoDel \<Longrightarrow> findFnPods (sys_store s) (FnId pod) = Some a \<Longrightarrow>
    pods_step Silent s (s\<lparr>sys_del := DelCell pod a\<rparr>)"
| del_none: "sys_del s = NoDel \<Longrightarrow> findFnPods (sys_store s) (FnId pod) = None \<Longrightarrow>
    pods_step (Deleted pod) s s"
| del_lock: "sys_del s = DelCell pod a \<Longrightarrow> st = del_locked (sys_store s) a pod \<Longrightarrow>
    pods_step (Deleted pod) s (s\<lparr>sys_store := st,
      sys_del := if fp_pods (cells st a) = [] then DelEntry (FnId pod) a else NoDel\<rparr>)"
| del_entry: "sys_del s = DelEntry f a \<Longrightarrow>
    pods_step Silent s (s\<lparr>sys_store := store_delete (sys_store s) f, sys_del := NoDel\<rparr>)"

definition pods_init :: podsys where
  "pods_init = \<lparr>sys_store = empty_store, sys_add = (\<lambda>_. NoAdd), sys_del = NoDel\<rparr>"

text \<open>What a reader sees of a function: its pods by their ids.\<close>

definition seen :: "podstore \<Rightarrow> string \<Rightarrow> string \<Rightarrow> k8sPod option" where
  "seen s fnid = (case findFnPods s fnid of None \<Rightarrow> Map.empty | Some a \<Rightarrow> map_of (fp_pods (cells s a)))"

text \<open>The specification: a map, changed at one point by each event.\<close>

fun pod_spec :: "pod_event \<Rightarrow> (string \<Rightarrow> string \<Rightarrow> k8sPod option) \<Rightarrow> string \<Rightarrow> string \<Rightarrow> k8sPod option" where
  "pod_spec (Added pod) m = m(FnId pod := (m (FnId pod))(UID pod \<mapsto> pod))"
| "pod_spec (Deleted pod) m = m(FnId pod := (m (FnId pod))(UID pod := None))"
| "pod_spec Silent m = m"

section \<open>The invariant\<close>

text \<open>Cells in the map are alive, apart from the one whose entry is about to be deleted; cells out of
  the map are dead; and a goroutine with a cell in hand got it for its own function.\<close>

definition store_inv :: "podstore \<Rightarrow> deleter \<Rightarrow> bool" where
  "store_inv st d \<longleftrightarrow>
     (\<forall>f a. fnPodsStore st f = Some a \<longrightarrow> a < next_cell st \<and> (fp_dead (cells st a) \<longleftrightarrow> d = DelEntry f a))
     \<and> (\<forall>f f' a. fnPodsStore st f = Some a \<longrightarrow> fnPodsStore st f' = Some a \<longrightarrow> f = f')
     \<and> (\<forall>a. a < next_cell st \<longrightarrow> (\<forall>f. fnPodsStore st f \<noteq> Some a) \<longrightarrow> fp_dead (cells st a))
     \<and> (\<forall>a. fp_dead (cells st a) \<longrightarrow> fp_pods (cells st a) = [])"

definition del_inv :: "podstore \<Rightarrow> deleter \<Rightarrow> bool" where
  "del_inv st d \<longleftrightarrow> (case d of NoDel \<Rightarrow> True | DelCell pod a \<Rightarrow> fnPodsStore st (FnId pod) = Some a
     | DelEntry f a \<Rightarrow> fnPodsStore st f = Some a)"

definition add_inv :: "podstore \<Rightarrow> adder \<Rightarrow> bool" where
  "add_inv st ad \<longleftrightarrow> (case ad of HaveCell pod a \<Rightarrow> a < next_cell st \<and> (\<forall>f. fnPodsStore st f = Some a \<longrightarrow> f = FnId pod) | _ \<Rightarrow> True)"

definition pods_inv :: "podsys \<Rightarrow> bool" where
  "pods_inv s \<longleftrightarrow> store_inv (sys_store s) (sys_del s) \<and> del_inv (sys_store s) (sys_del s)
     \<and> (\<forall>t. add_inv (sys_store s) (sys_add s t))"

lemmas pods_inv_defs = pods_inv_def store_inv_def del_inv_def add_inv_def

lemma pods_init_inv: "pods_inv pods_init"
  by (simp add: pods_inv_defs pods_init_def empty_store_def makeFnPods_def)

lemma alive_in_store:
  assumes "store_inv st d" "add_inv st (HaveCell pod a)" "\<not> fp_dead (cells st a)"
  shows "fnPodsStore st (FnId pod) = Some a"
  using assms by (auto simp: store_inv_def add_inv_def)

lemma add_locked_inv:
  assumes "store_inv st d" "add_locked st a pod = Some st'"
  shows "store_inv st' d" "del_inv st' x = del_inv st x" "add_inv st' y = add_inv st y"
  using assms by (auto simp: add_locked_def Let_def store_inv_def del_inv_def add_inv_def split: if_splits deleter.splits adder.splits)

lemma load_or_store_inv:
  assumes "store_inv st d" "del_inv st d" "load_or_store st (FnId pod) = (a, st')"
  shows "store_inv st' d \<and> del_inv st' d \<and> add_inv st' (HaveCell pod a) \<and> (add_inv st ad \<longrightarrow> add_inv st' ad)"
proof (cases "fnPodsStore st (FnId pod)")
  case (Some b)
  then show ?thesis using assms by (auto simp: load_or_store_def store_inv_def add_inv_def)
next
  case None
  then have new: "a = next_cell st" "st' = st\<lparr>fnPodsStore := (fnPodsStore st)(FnId pod := Some a),
      cells := (cells st)(a := makeFnPods), next_cell := Suc a\<rparr>"
    using assms(3) by (auto simp: load_or_store_def)
  have fresh: "fnPodsStore st f \<noteq> Some a" for f using assms(1) new(1) by (auto simp: store_inv_def)
  have "fp_dead (cells st b)" if "b < next_cell st" "\<forall>g. g \<noteq> FnId pod \<longrightarrow> fnPodsStore st g \<noteq> Some b" for b
    using that assms(1) None unfolding store_inv_def by (metis option.distinct(1))
  then have "store_inv st' d"
    using assms(1,2) new None fresh by (auto simp: store_inv_def del_inv_def makeFnPods_def less_Suc_eq split: deleter.splits)
  moreover have "del_inv st' d" using assms(2) new None by (auto simp: del_inv_def split: deleter.splits)
  moreover have "add_inv st' (HaveCell pod a)" using new fresh by (auto simp: add_inv_def)
  moreover have "add_inv st ad \<longrightarrow> add_inv st' ad" using new by (auto simp: add_inv_def split: adder.splits)
  ultimately show ?thesis by blast
qed

lemma del_locked_inv:
  assumes "store_inv st (DelCell pod a)" "del_inv st (DelCell pod a)"
  defines "st' \<equiv> del_locked st a pod"
  defines "d \<equiv> if fp_pods (cells st' a) = [] then DelEntry (FnId pod) a else NoDel"
  shows "store_inv st' d" "del_inv st' d" "add_inv st' y = add_inv st y"
  using assms by (auto simp: del_locked_def Let_def store_inv_def del_inv_def add_inv_def split: adder.splits)

lemma store_delete_inv:
  assumes "store_inv st (DelEntry f a)" "del_inv st (DelEntry f a)"
  shows "store_inv (store_delete st f) NoDel" and "add_inv st y \<Longrightarrow> add_inv (store_delete st f) y"
proof -
  have f: "fnPodsStore st f = Some a" using assms(2) by (simp add: del_inv_def)
  have "fp_dead (cells st b)" if "b < next_cell st" "\<forall>g. g \<noteq> f \<longrightarrow> fnPodsStore st g \<noteq> Some b" for b
    using that assms(1) f unfolding store_inv_def by (metis option.inject)
  then show "store_inv (store_delete st f) NoDel"
    using assms(1) by (auto simp: store_delete_def store_inv_def)
  show "add_inv st y \<Longrightarrow> add_inv (store_delete st f) y"
    by (auto simp: store_delete_def add_inv_def split: adder.splits)
qed

lemma pods_step_inv: "pods_step e s s' \<Longrightarrow> pods_inv s \<Longrightarrow> pods_inv s'"
proof (induction rule: pods_step.induct)
  case (add_store s t pod a st)
  then show ?case using load_or_store_inv [of "sys_store s" "sys_del s" pod a st] by (auto simp: pods_inv_def)
next
  case (add_done s t pod a st)
  then show ?case using add_locked_inv [of "sys_store s" "sys_del s" a pod st] by (simp add: pods_inv_def add_inv_def)
next
  case (del_lock s pod a st)
  then show ?case using del_locked_inv [of "sys_store s" pod a] by (simp add: pods_inv_def)
next
  case (del_entry s f a)
  then show ?case using store_delete_inv [of "sys_store s" f a] by (simp add: pods_inv_def del_inv_def)
qed (auto simp: pods_inv_defs findFnPods_def)

lemma pods_reach_inv:
  assumes "(\<lambda>s s'. \<exists>e. pods_step e s s')\<^sup>*\<^sup>* pods_init s"
  shows "pods_inv s"
  using assms by (induction rule: rtranclp_induct) (auto intro: pods_init_inv pods_step_inv)

section \<open>The store is a map\<close>

lemma seen_Some: "fnPodsStore st f = Some a \<Longrightarrow> seen st f = map_of (fp_pods (cells st a))"
  by (simp add: seen_def findFnPods_def)

lemma seen_None: "fnPodsStore st f = None \<Longrightarrow> seen st f = Map.empty"
  by (simp add: seen_def findFnPods_def)

lemma seen_cong:
  "fnPodsStore st' f = fnPodsStore st f \<Longrightarrow> (\<And>a. fnPodsStore st f = Some a \<Longrightarrow> cells st' a = cells st a) \<Longrightarrow> seen st' f = seen st f"
  by (cases "fnPodsStore st f") (simp_all add: seen_def findFnPods_def)

text \<open>A change of one cell is seen at one function.\<close>

lemma seen_cell:
  assumes "store_inv st d" "fnPodsStore st f = Some a" "fnPodsStore st' = fnPodsStore st" "cells st' = (cells st)(a := c)"
  shows "seen st' = (seen st)(f := map_of (fp_pods c))"
proof
  fix g
  have "g = f" if "fnPodsStore st g = Some a" using that assms(1,2) unfolding store_inv_def by blast
  then show "seen st' g = ((seen st)(f := map_of (fp_pods c))) g"
    using assms(2-4) seen_Some [of st' f a] by (cases "g = f") (auto intro!: seen_cong)
qed

lemma seen_add:
  assumes "store_inv st d" "add_inv st (HaveCell pod a)" "add_locked st a pod = Some st'"
  shows "seen st' = (seen st)(FnId pod := (seen st (FnId pod))(UID pod \<mapsto> pod))"
proof -
  have alive: "\<not> fp_dead (cells st a)" using assms(3) by (auto simp: add_locked_def Let_def split: if_splits)
  have a: "fnPodsStore st (FnId pod) = Some a" using alive_in_store [OF assms(1,2) alive] .
  show ?thesis
    using seen_cell [OF assms(1) a, of st'] assms(3) alive seen_Some [OF a]
    by (auto simp: add_locked_def Let_def update_conv')
qed

lemma seen_load_or_store:
  assumes "load_or_store st f = (a, st')" and "store_inv st d"
  shows "seen st' = seen st"
proof (cases "fnPodsStore st f")
  case None
  then have st': "st' = st\<lparr>fnPodsStore := (fnPodsStore st)(f := Some (next_cell st)),
      cells := (cells st)(next_cell st := makeFnPods), next_cell := Suc (next_cell st)\<rparr>"
    using assms(1) by (auto simp: load_or_store_def)
  have fresh: "fnPodsStore st g \<noteq> Some (next_cell st)" for g using assms(2) by (auto simp: store_inv_def)
  show ?thesis
  proof
    fix g
    show "seen st' g = seen st g"
      using st' fresh [of g] seen_None [OF None] seen_Some [of st' f "next_cell st"]
      by (cases "g = f") (auto simp: makeFnPods_def intro!: seen_cong)
  qed
qed (use assms in \<open>auto simp: load_or_store_def\<close>)

lemma seen_del_locked:
  assumes "store_inv st d" "fnPodsStore st (FnId pod) = Some a"
  shows "seen (del_locked st a pod) = (seen st)(FnId pod := (seen st (FnId pod))(UID pod := None))"
  using seen_cell [OF assms, of "del_locked st a pod"] seen_Some [OF assms(2)]
  by (simp add: del_locked_def Let_def delete_conv')

lemma seen_store_delete:
  assumes "store_inv st (DelEntry f a)" "fnPodsStore st f = Some a"
  shows "seen (store_delete st f) = seen st"
proof
  fix g
  have "fp_pods (cells st a) = []" using assms by (auto simp: store_inv_def)
  then show "seen (store_delete st f) g = seen st g"
    using seen_Some [OF assms(2)] seen_None [of "store_delete st f" f]
    by (cases "g = f") (auto simp: store_delete_def intro!: seen_cong)
qed

lemma seen_none: "fnPodsStore st f = None \<Longrightarrow> (seen st)(f := (seen st f)(u := None)) = seen st"
  by (auto simp: seen_def findFnPods_def fun_eq_iff)

text \<open>
  C12. Refinement. However additions and the event loop's deletions interleave, what readers see of the pod
  store changes at exactly one step of each call and as a plain map would: a pod that was added is
  seen from then on until it is deleted, also when the cell it was added to was dying at the time,
  and no other pod is lost or resurrected.
\<close>

theorem pods_refine_map:
  assumes "(\<lambda>s s'. \<exists>e. pods_step e s s')\<^sup>*\<^sup>* pods_init s" and "pods_step e s s'"
  shows "seen (sys_store s') = pod_spec e (seen (sys_store s))"
proof -
  have inv: "pods_inv s" using pods_reach_inv [OF assms(1)] .
  then have st: "store_inv (sys_store s) (sys_del s)" by (simp add: pods_inv_def)
  show ?thesis using assms(2) inv st
  proof (induction rule: pods_step.induct)
    case (add_store s t pod a st)
    then show ?case using seen_load_or_store by simp
  next
    case (add_done s t pod a st)
    then have "add_inv (sys_store s) (HaveCell pod a)" by (metis pods_inv_def)
    then show ?case using seen_add add_done by simp
  next
    case (del_none s pod)
    then show ?case by (simp add: findFnPods_def seen_none)
  next
    case (del_lock s pod a st)
    then show ?case using seen_del_locked [of "sys_store s" "sys_del s" pod a] by (simp add: pods_inv_def del_inv_def)
  next
    case (del_entry s f a)
    then show ?case using seen_store_delete [of "sys_store s" f a] by (simp add: pods_inv_def del_inv_def)
  qed simp_all
qed

definition demo_pod :: k8sPod where
  "demo_pod = \<lparr>pod_SwoId = makeSwoId ''t'' '''' ''fn'', FnId = ''f'', Token = ''tok'', Version = ''1'', DepName = ''swd-f'',
     WdogAddr = ''10.0.0.1'', WdogPort = ''8687'', Host = ''n1'', UID = ''u1''\<rparr>"

definition sys1 :: podsys where "sys1 = pods_init\<lparr>sys_add := (sys_add pods_init)(0 := Load demo_pod)\<rparr>"
definition sys2 :: podsys where "sys2 = sys1\<lparr>sys_add := (sys_add sys1)(0 := LoadOrStore demo_pod)\<rparr>"
definition sys3 :: podsys where
  "sys3 = sys2\<lparr>sys_store := snd (load_or_store (sys_store sys2) ''f''), sys_add := (sys_add sys2)(0 := HaveCell demo_pod 0)\<rparr>"

lemma sys3_reach: "(\<lambda>s s'. \<exists>e. pods_step e s s')\<^sup>*\<^sup>* pods_init sys3"
proof -
  have "pods_step Silent pods_init sys1"
    unfolding sys1_def by (rule pods_step.add_call) (simp add: pods_init_def)
  moreover have "pods_step Silent sys1 sys2"
    unfolding sys2_def by (rule pods_step.add_miss) (simp_all add: sys1_def pods_init_def empty_store_def)
  moreover have "pods_step Silent sys2 sys3"
    unfolding sys3_def by (rule pods_step.add_store [where pod = demo_pod])
      (simp_all add: sys2_def sys1_def pods_init_def empty_store_def load_or_store_def demo_pod_def)
  ultimately show ?thesis by (metis (mono_tags, lifting) rtranclp.rtrancl_into_rtrancl rtranclp.rtrancl_refl)
qed

definition sys4 :: podsys where
  "sys4 = sys3\<lparr>sys_store := the (add_locked (sys_store sys3) 0 demo_pod), sys_add := (sys_add sys3)(0 := NoAdd)\<rparr>"

lemma sys4_step: "pods_step (Added demo_pod) sys3 sys4"
  unfolding sys4_def
  by (rule pods_step.add_done [where a = 0]) (simp_all add: sys3_def sys2_def sys1_def pods_init_def empty_store_def load_or_store_def add_locked_def
      makeFnPods_def Let_def fun_eq_iff)

theorem pods_refine_map_witness: "seen (sys_store sys4) ''f'' ''u1'' = Some demo_pod"
  using pods_refine_map [OF sys3_reach sys4_step] by (simp add: demo_pod_def)

section \<open>One call at a time\<close>

lemma load_or_store_alive:
  assumes "store_inv st NoDel" "load_or_store st (FnId pod) = (a, st')"
  shows "store_inv st' NoDel" and "add_inv st' (HaveCell pod a)" and "\<not> fp_dead (cells st' a)"
    and "fnPodsStore st' (FnId pod) = Some a"
proof -
  show inv: "store_inv st' NoDel" and "add_inv st' (HaveCell pod a)"
    using load_or_store_inv [OF assms(1) _ assms(2)] by (simp_all add: del_inv_def)
  show a: "fnPodsStore st' (FnId pod) = Some a" using assms(2) by (auto simp: load_or_store_def split: option.splits)
  show "\<not> fp_dead (cells st' a)" using inv a by (auto simp: store_inv_def)
qed

lemma podsAdd_once:
  assumes "store_inv st NoDel"
  shows "podsAdd st pod = add_locked (snd (load_or_store st (FnId pod))) (fst (load_or_store st (FnId pod))) pod"
proof -
  have "load_or_store st (FnId pod) = (a, st)" if "fnPodsStore st (FnId pod) = Some a" for a
    using that by (simp add: load_or_store_def)
  moreover have "add_locked (snd (load_or_store st (FnId pod))) (fst (load_or_store st (FnId pod))) pod \<noteq> None"
    using load_or_store_alive(3) [OF assms, of pod] by (cases "load_or_store st (FnId pod)") (simp add: add_locked_def Let_def)
  ultimately show ?thesis
    by (subst podsAdd.simps) (auto simp: Let_def split: option.splits prod.splits)
qed

text \<open>
  A call that runs alone on a store no deletion is in the middle of: \<open>podsAdd\<close> returns, although its loop has
  no bound of its own, and leaves the pod where \<open>podsFindAll\<close> finds it; \<open>podsDel\<close> takes it out again;
  both keep the store in order.
\<close>

theorem pods_calls_alone:
  assumes "store_inv st NoDel"
  shows "(\<exists>st'. podsAdd st pod = Some st' \<and> store_inv st' NoDel
      \<and> seen st' = pod_spec (Added pod) (seen st)
      \<and> (\<exists>cs. podsFindAll st' (FnId pod) = Some cs \<and> conn pod \<in> set cs))
    \<and> store_inv (podsDel st pod) NoDel \<and> seen (podsDel st pod) = pod_spec (Deleted pod) (seen st)"
proof -
  obtain a st1 where ls: "load_or_store st (FnId pod) = (a, st1)" by fastforce
  note l = load_or_store_alive [OF assms ls]
  obtain st' where add: "add_locked st1 a pod = Some st'" using l(3) by (simp add: add_locked_def Let_def)
  have "podsAdd st pod = Some st'" using podsAdd_once [OF assms] ls add by simp
  moreover have "store_inv st' NoDel" using add_locked_inv(1) [OF l(1) add] .
  moreover have s: "seen st' = pod_spec (Added pod) (seen st)"
    using seen_add [OF l(1,2) add] seen_load_or_store [OF ls assms] by simp
  moreover have "\<exists>cs. podsFindAll st' (FnId pod) = Some cs \<and> conn pod \<in> set cs"
  proof -
    have a: "fnPodsStore st' (FnId pod) = Some a" using add l(4) by (auto simp: add_locked_def Let_def split: if_splits)
    have "map_of (fp_pods (cells st' a)) (UID pod) = Some pod" using fun_cong [OF s, of "FnId pod"] seen_Some [OF a] by simp
    then have "pod \<in> snd ` set (fp_pods (cells st' a))" by (force dest: map_of_SomeD)
    then show ?thesis using a by (auto simp: podsFindAll_def findFnPods_def)
  qed
  ultimately have A: "\<exists>st'. podsAdd st pod = Some st' \<and> store_inv st' NoDel
      \<and> seen st' = pod_spec (Added pod) (seen st)
      \<and> (\<exists>cs. podsFindAll st' (FnId pod) = Some cs \<and> conn pod \<in> set cs)" by blast
  have D: "store_inv (podsDel st pod) NoDel \<and> seen (podsDel st pod) = pod_spec (Deleted pod) (seen st)"
  proof (cases "fnPodsStore st (FnId pod)")
    case None
    then show ?thesis using assms by (simp add: podsDel_def findFnPods_def seen_none)
  next
    case (Some a)
    let ?st = "del_locked st a pod" and ?d = "\<lambda>st'. if fp_pods (cells st' a) = [] then DelEntry (FnId pod) a else NoDel"
    have inv: "store_inv st (DelCell pod a)" "del_inv st (DelCell pod a)"
      using assms Some by (auto simp: store_inv_def del_inv_def)
    note d = del_locked_inv(1,2) [OF inv] and s = seen_del_locked [OF assms Some]
    have e: "fnPodsStore ?st (FnId pod) = Some a" using Some by (simp add: del_locked_def Let_def)
    show ?thesis
      using d s e Some store_delete_inv(1) [of ?st "FnId pod" a] seen_store_delete [of ?st "FnId pod" a]
      by (auto simp: podsDel_def findFnPods_def Let_def split: if_splits)
  qed
  show ?thesis using A D by blast
qed

theorem pods_calls_alone_witness:
  "\<exists>st'. podsAdd empty_store demo_pod = Some st' \<and> seen st' ''f'' ''u1'' = Some demo_pod \<and> seen (podsDel st' demo_pod) ''f'' ''u1'' = None"
proof -
  have "store_inv empty_store NoDel" by (simp add: store_inv_def empty_store_def makeFnPods_def)
  with pods_calls_alone [of empty_store demo_pod] obtain st' where
    "podsAdd empty_store demo_pod = Some st'" "store_inv st' NoDel" "seen st' = pod_spec (Added demo_pod) (seen empty_store)" by blast
  then show ?thesis using pods_calls_alone [of st' demo_pod] by (auto simp: demo_pod_def)
qed

end
