(* ===== verification/Gate_Scaler.thy ===== *)
theory Gate_Scaler
  imports Gate_Pods
begin

text \<open>
  The scaler of a function's deployment: \<open>src/gate/scaler.go\<close> and \<open>k8sDepScale\<close> of \<open>src/gate/k8s.go\<close>.
  Calls raise the number of replicas wanted; a goroutine per function brings the deployment up to it
  and, when no more is asked for, down again one by one. All numbers are 32 bits wide. The steps of the
  goroutine between two points where it does not hold the function's lock are one atomic step here;
  the waits of \<open>condWaitTmo\<close> may end at any time. The Kubernetes API is a parameter.
\<close>

section \<open>Deployments\<close>

text \<open>\<open>Deployments(ns).Get\<close>: the replicas wanted, \<open>None\<close> for an error; \<open>Update\<close>: whether it went through.\<close>

record 'w deps =
  dep_get :: "string \<Rightarrow> 'w \<Rightarrow> 32 word option \<times> 'w"
  dep_update :: "string \<Rightarrow> 32 word \<Rightarrow> 'w \<Rightarrow> bool \<times> 'w"

text \<open>Signed comparison of the replica counts, which are \<open>int32\<close>. When the update fails the pointer
  already stands for the new count, so that is the answer as well.\<close>

definition k8sDepScale :: "'w deps \<Rightarrow> string \<Rightarrow> 32 word \<Rightarrow> bool \<Rightarrow> 'w \<Rightarrow> 32 word \<times> 'w" where
  "k8sDepScale K depname replicas up w = (case dep_get K depname w of
     (None, w) \<Rightarrow> (replicas, w)
   | (Some r, w) \<Rightarrow>
       if (if up then replicas \<le>s r else r \<le>s replicas) then (r, w)
       else (replicas, snd (dep_update K depname replicas w)))"

definition k8sDepScaleUp :: "'w deps \<Rightarrow> string \<Rightarrow> 32 word \<Rightarrow> 'w \<Rightarrow> 32 word \<times> 'w" where
  "k8sDepScaleUp K depname replicas = k8sDepScale K depname replicas True"

definition k8sDepScaleDown :: "'w deps \<Rightarrow> string \<Rightarrow> 32 word \<Rightarrow> 'w \<Rightarrow> 32 word \<times> 'w" where
  "k8sDepScaleDown K depname replicas = k8sDepScale K depname replicas False"

section \<open>The goroutine\<close>

record BalancerDat =
  rover0 :: "32 word"
  rover1 :: "32 word"
  pods :: "podConn list"
  goal :: "32 word"
  wakeup :: bool

text \<open>
  Where \<open>balancerFnScaler\<close> is: about to call \<open>k8sDepScaleUp\<close>; back from it, about to lock; waiting at
  \<open>relax\<close>; waiting after the decrement; unlocked, about to call \<open>k8sDepScaleDown\<close>; back from that,
  about to lock; gone. The number is the local variable \<open>goal\<close>.
\<close>

datatype scaler = Up | GotUp "32 word" | Relaxing "32 word" | Stepping "32 word" | ScaleDown | GotDown "32 word" | Gone

text \<open>The label \<open>down\<close>, up to the next wait or unlock.\<close>

definition at_down :: "32 word \<Rightarrow> BalancerDat \<Rightarrow> BalancerDat \<times> scaler" where
  "at_down g b =
     (if goal b \<le> 1 then (b\<lparr>wakeup := False\<rparr>, Gone)
      else if goal b > g then (b, Up)
      else (b\<lparr>goal := goal b - 1\<rparr>, Stepping g))"

fun locked_section :: "scaler \<Rightarrow> BalancerDat \<Rightarrow> BalancerDat \<times> scaler" where
  "locked_section (GotUp g) b =
     (if goal b = 0 then (b, Gone) else if goal b > g then (b, Up) else (b, Relaxing g))"
| "locked_section (Relaxing g) b = at_down g b"
| "locked_section (Stepping g) b =
     (if goal b = 0 then (b, Gone)
      else if goal b = g then (b, Relaxing g)
      else if goal b > g then (b, Up)
      else (b, ScaleDown))"
| "locked_section (GotDown g) b = at_down g b"
| "locked_section pc b = (b, pc)"

text \<open>One turn of the goroutine: a call to Kubernetes or a section under the lock.\<close>

fun scaler_turn :: "'w deps \<Rightarrow> string \<Rightarrow> scaler \<times> BalancerDat \<times> 'w \<Rightarrow> scaler \<times> BalancerDat \<times> 'w" where
  "scaler_turn K dep (Up, b, w) = (let (g, w') = k8sDepScaleUp K dep (goal b) w in (GotUp g, b, w'))"
| "scaler_turn K dep (ScaleDown, b, w) = (let (g, w') = k8sDepScaleDown K dep (goal b) w in (GotDown g, b, w'))"
| "scaler_turn K dep (pc, b, w) = (let (b', pc') = locked_section pc b in (pc', b', w))"

section \<open>Requests\<close>

definition scalerStop :: "BalancerDat \<Rightarrow> BalancerDat" where
  "scalerStop b = (if wakeup b then b\<lparr>goal := 0\<rparr> else b)"

text \<open>\<open>scalerSetGoal\<close>, with whether it starts the goroutine.\<close>

definition scalerSetGoal :: "32 word \<Rightarrow> 32 word \<Rightarrow> BalancerDat \<Rightarrow> BalancerDat \<times> bool" where
  "scalerSetGoal MaxReplicas g b =
     (if g \<le> goal b then (b, False)
      else if g > MaxReplicas then (b, False)
      else (b\<lparr>goal := g, wakeup := True\<rparr>, \<not> wakeup b))"

definition scalerInit :: "32 word \<Rightarrow> BalancerDat \<Rightarrow> BalancerDat" where
  "scalerInit tgt b = b\<lparr>goal := tgt, wakeup := True\<rparr>"

section \<open>The system\<close>

text \<open>The shared data, the goroutines that were started, and the world outside.\<close>

record 'w scalesys =
  sc_bd :: BalancerDat
  sc_threads :: "nat \<Rightarrow> scaler"
  sc_world :: 'w

inductive scale_step :: "'w deps \<Rightarrow> string \<Rightarrow> 32 word \<Rightarrow> 'w scalesys \<Rightarrow> 'w scalesys \<Rightarrow> bool" for K dep mx where
  set_goal: "scalerSetGoal mx g (sc_bd s) = (b, start) \<Longrightarrow> sc_threads s t = Gone \<Longrightarrow>
    scale_step K dep mx s (s\<lparr>sc_bd := b, sc_threads := (sc_threads s)(t := if start then Up else Gone)\<rparr>)"
| stop: "scale_step K dep mx s (s\<lparr>sc_bd := scalerStop (sc_bd s)\<rparr>)"
| turn: "sc_threads s t \<noteq> Gone \<Longrightarrow> scaler_turn K dep (sc_threads s t, sc_bd s, sc_world s) = (pc, b, w) \<Longrightarrow>
    scale_step K dep mx s \<lparr>sc_bd = b, sc_threads = (sc_threads s)(t := pc), sc_world = w\<rparr>"
| world: "scale_step K dep mx s (s\<lparr>sc_world := w\<rparr>)"

text \<open>A function whose scaler never ran.\<close>

definition unscaled :: "'w scalesys \<Rightarrow> bool" where
  "unscaled s \<longleftrightarrow> goal (sc_bd s) = 0 \<and> \<not> wakeup (sc_bd s) \<and> (\<forall>t. sc_threads s t = Gone)"

definition scale_inv :: "32 word \<Rightarrow> 'w scalesys \<Rightarrow> bool" where
  "scale_inv mx s \<longleftrightarrow> goal (sc_bd s) \<le> mx
     \<and> (\<forall>t. sc_threads s t \<noteq> Gone \<longrightarrow> wakeup (sc_bd s) \<and> (\<forall>t'. sc_threads s t' \<noteq> Gone \<longrightarrow> t' = t))"

lemma at_down_cases:
  obtains (gone) "at_down g b = (b\<lparr>wakeup := False\<rparr>, Gone)" "goal b \<le> 1"
    | (up) "at_down g b = (b, Up)" "goal b > g" "goal b > 1"
    | (step) "at_down g b = (b\<lparr>goal := goal b - 1\<rparr>, Stepping g)" "goal b \<le> g" "goal b > 1"
  by (metis at_down_def linorder_not_le)

lemma word_dec:
  fixes x :: "32 word"
  assumes "1 < x"
  shows "unat (x - 1) < unat x" and "x - 1 \<le> x"
proof -
  have "x \<noteq> 0" using assms by auto
  then have "unat (x - 1) = unat x - 1" "0 < unat x" by (simp_all add: unat_minus_one unat_gt_0)
  then show less: "unat (x - 1) < unat x" by simp
  then show "x - 1 \<le> x" by (simp add: word_le_nat_alt)
qed

lemma at_down_keeps: "goal (fst (at_down g b)) \<le> goal b" "snd (at_down g b) \<noteq> Gone \<Longrightarrow> wakeup (fst (at_down g b)) = wakeup b"
  by (cases rule: at_down_cases [of g b]; simp add: word_dec)+

lemma locked_section_keeps:
  "goal (fst (locked_section pc b)) \<le> goal b" "snd (locked_section pc b) \<noteq> Gone \<Longrightarrow> wakeup (fst (locked_section pc b)) = wakeup b"
  by (cases pc; simp add: at_down_keeps)+

lemma scaler_turn_keeps:
  assumes "scaler_turn K dep (pc, b, w) = (pc', b', w')"
  shows "goal b' \<le> goal b" and "pc' \<noteq> Gone \<Longrightarrow> wakeup b' = wakeup b"
proof -
  have "b' = b \<and> pc' \<noteq> Gone \<or> b' = fst (locked_section pc b) \<and> pc' = snd (locked_section pc b)"
    using assms by (cases pc) (auto split: prod.splits simp del: locked_section.simps)
  then show "goal b' \<le> goal b" and "pc' \<noteq> Gone \<Longrightarrow> wakeup b' = wakeup b"
    using locked_section_keeps [of pc b] by auto
qed

lemma scale_step_inv: "scale_step K dep mx s s' \<Longrightarrow> scale_inv mx s \<Longrightarrow> scale_inv mx s'"
proof (induction rule: scale_step.induct)
  case (set_goal g s b start t)
  then show ?case by (auto simp: scale_inv_def scalerSetGoal_def split: if_splits)
next
  case (stop s)
  then show ?case by (auto simp: scale_inv_def scalerStop_def)
next
  case (turn s t pc b w)
  have one: "sc_threads s t' = Gone" if "t' \<noteq> t" for t' using turn(1,3) that by (auto simp: scale_inv_def)
  have "goal b \<le> mx" using scaler_turn_keeps(1) [OF turn(2)] turn(3) by (auto simp: scale_inv_def)
  moreover have "pc \<noteq> Gone \<longrightarrow> wakeup b" using scaler_turn_keeps(2) [OF turn(2)] turn(1,3) by (auto simp: scale_inv_def)
  ultimately show ?case using one by (auto simp: scale_inv_def)
qed (simp add: scale_inv_def)

lemma scale_reach_inv: "(scale_step K dep mx)\<^sup>*\<^sup>* s0 s \<Longrightarrow> scale_inv mx s0 \<Longrightarrow> scale_inv mx s"
  by (induction rule: rtranclp_induct) (auto intro: scale_step_inv)


section \<open>After a stop\<close>

definition stranded :: "'w scalesys \<Rightarrow> bool" where
  "stranded s \<longleftrightarrow> wakeup (sc_bd s) \<and> (\<forall>t. sc_threads s t = Gone)"

lemma stranded_step: "scale_step K dep mx s s' \<Longrightarrow> stranded s \<Longrightarrow> stranded s'"
  by (induction rule: scale_step.induct) (auto simp: stranded_def scalerSetGoal_def scalerStop_def split: if_splits)

lemma stranded_reach: "(scale_step K dep mx)\<^sup>*\<^sup>* s s' \<Longrightarrow> stranded s \<Longrightarrow> stranded s'"
  by (induction rule: rtranclp_induct) (auto intro: stranded_step)

text \<open>
  A goroutine that ends because of \<open>scalerStop\<close> leaves its condition variable behind, and from then on
  no demand starts another one: \<open>scalerSetGoal\<close> takes the variable for a running scaler and only
  signals it. A function that is deactivated while it is scaled up is not scaled again after its
  activation, as long as the gate runs.
\<close>

theorem scaler_stop_disables:
  assumes "sc_threads s t \<in> {GotUp g, Stepping g}" and "scale_inv mx s"
    and "s1 = s\<lparr>sc_bd := scalerStop (sc_bd s)\<rparr>"
  shows "\<exists>s2. scale_step K dep mx s s1 \<and> scale_step K dep mx s1 s2
    \<and> (\<forall>s3. (scale_step K dep mx)\<^sup>*\<^sup>* s2 s3 \<longrightarrow> (\<forall>t. sc_threads s3 t = Gone) \<and> wakeup (sc_bd s3))"
proof -
  let ?b = "scalerStop (sc_bd s)"
  let ?s2 = "\<lparr>sc_bd = ?b, sc_threads = (sc_threads s1)(t := Gone), sc_world = sc_world s1\<rparr>"
  have run: "sc_threads s t \<noteq> Gone" using assms(1) by auto
  then have wk: "wakeup (sc_bd s)" and one: "\<And>t'. t' \<noteq> t \<Longrightarrow> sc_threads s t' = Gone"
    using assms(2) by (auto simp: scale_inv_def)
  have b: "goal ?b = 0" "wakeup ?b" using wk by (simp_all add: scalerStop_def)
  have "scaler_turn K dep (sc_threads s1 t, sc_bd s1, sc_world s1) = (Gone, ?b, sc_world s1)"
    using assms(1,3) b by auto
  then have "scale_step K dep mx s1 ?s2" using run assms(3) by (intro scale_step.turn) auto
  moreover have "scale_step K dep mx s s1" unfolding assms(3) by (rule scale_step.stop)
  moreover have "stranded ?s2" using one assms(3) b by (simp add: stranded_def)
  ultimately show ?thesis using stranded_reach unfolding stranded_def by blast
qed

section \<open>Without demand the scaler ends\<close>

lemma uint_nonneg:
  assumes "0 \<le>s (x :: 32 word)"
  shows "uint x = sint x"
proof -
  have "0 \<le> sint x" using assms by (simp add: word_sle_eq)
  moreover have "sint x < 2 ^ 32" using sint_lt [of x] by simp
  ultimately show ?thesis by (simp add: uint_sint take_bit_int_eq_self)
qed

lemma sle_imp_le: "0 \<le>s x \<Longrightarrow> x \<le>s y \<Longrightarrow> (x :: 32 word) \<le> y"
proof -
  assume x: "0 \<le>s x" and y: "x \<le>s y"
  then have "0 \<le>s y" by (rule signed.order_trans)
  then show "x \<le> y" using x y by (simp add: word_le_def uint_nonneg word_sle_eq)
qed

text \<open>What \<open>k8sDepScaleUp\<close> answers is at least what was asked for.\<close>

lemma k8sDepScaleUp_enough:
  assumes "k8sDepScaleUp K dep n w = (g, w')" and "0 \<le>s n"
  shows "n \<le> g"
  using assms sle_imp_le by (auto simp: k8sDepScaleUp_def k8sDepScale_def split: prod.splits option.splits if_splits)

text \<open>A measure of the turns left: each round of the loop takes one replica off the goal.\<close>

fun rank :: "scaler \<Rightarrow> 32 word \<Rightarrow> nat" where
  "rank Gone n = 0"
| "rank (Relaxing g) n = (if g < n then 7 else 3)"
| "rank (GotDown g) n = (if g < n then 7 else 3)"
| "rank (GotUp g) n = (if g < n then 7 else 5)"
| "rank Up n = 6"
| "rank ScaleDown n = 8"
| "rank (Stepping g) n = 9"

definition turns :: "scaler \<times> BalancerDat \<times> 'w \<Rightarrow> nat" where
  "turns = (\<lambda>(pc, b, w). 10 * unat (goal b) + rank pc (goal b))"

lemma rank_bound: "rank pc n \<le> 9"
  by (cases pc) auto

lemma turns_dec:
  assumes "unat (goal b') < unat (goal b)"
  shows "turns (pc', b', w') < turns (pc, b, w)"
  using assms rank_bound [of pc' "goal b'"] by (simp add: turns_def)

lemma at_down_turns:
  assumes "at_down g b = (b', pc')" and "rank pc (goal b) = (if g < goal b then 7 else 3)"
  shows "turns (pc', b', w) < turns (pc, b, w)"
proof (cases rule: at_down_cases [of g b])
  case gone
  then show ?thesis using assms by (auto simp: turns_def)
next
  case up
  then show ?thesis using assms by (auto simp: turns_def)
next
  case step
  then show ?thesis using assms by (auto intro: turns_dec simp: word_dec)
qed

lemma scaler_turn_less:
  assumes "scaler_turn K dep (pc, b, w) = (pc', b', w')" and "pc \<noteq> Gone" and "0 \<le>s goal b"
  shows "turns (pc', b', w') < turns (pc, b, w)"
proof (cases pc)
  case Up
  then obtain g where g: "k8sDepScaleUp K dep (goal b) w = (g, w')" "pc' = GotUp g" "b' = b"
    using assms(1) by (auto split: prod.splits)
  then show ?thesis using k8sDepScaleUp_enough [OF g(1) assms(3)] Up by (simp add: turns_def)
next
  case (Relaxing g)
  then show ?thesis using assms(1) by (auto intro: at_down_turns split: prod.splits)
next
  case (GotDown g)
  then show ?thesis using assms(1) by (auto intro: at_down_turns split: prod.splits)
qed (use assms in \<open>auto simp: turns_def Let_def split: prod.splits if_splits\<close>)

lemma nonneg_le:
  assumes "y \<le> x" and "0 \<le>s (x :: 32 word)"
  shows "0 \<le>s y"
proof -
  have "uint y \<le> sint x" using assms by (simp add: word_le_def uint_nonneg)
  then have "uint y < 2 ^ 31" using sint_lt [of x] by simp
  moreover have "- (2 ^ 31) \<le> uint y" by (rule order_trans [OF _ uint_ge_0]) simp
  ultimately have "sint y = uint y" by (simp add: sint_uint signed_take_bit_int_eq_self)
  then show ?thesis by (simp add: word_sle_eq)
qed

lemma at_down_Gone: "at_down g b = (b', Gone) \<Longrightarrow> goal b' \<le> 1"
  by (cases rule: at_down_cases [of g b]) auto

lemma scaler_turn_Gone:
  assumes "scaler_turn K dep (pc, b, w) = (Gone, b', w')" and "pc \<noteq> Gone"
  shows "goal b' \<le> 1"
  using assms at_down_Gone by (cases pc) (auto simp: Let_def split: prod.splits if_splits)

text \<open>
  C31. Termination. Without new demand the goroutine does not run forever: from any point and for any
  answers of Kubernetes it ends within \<open>10 * goal + 9\<close> turns, with at most one replica wanted,
  provided the goal is in the range of \<open>int32\<close>, as any sensible maximum of replicas is.
\<close>

theorem scaler_ends:
  assumes "0 \<le>s goal b" and "pc \<noteq> Gone"
  shows "\<exists>n b' w'. n \<le> 10 * unat (goal b) + 9 \<and> (scaler_turn K dep ^^ n) (pc, b, w) = (Gone, b', w') \<and> goal b' \<le> 1"
proof -
  have "\<exists>n b' w'. n \<le> turns (pc, b, w) \<and> (scaler_turn K dep ^^ n) (pc, b, w) = (Gone, b', w') \<and> goal b' \<le> 1"
    using assms
  proof (induction "turns (pc, b, w)" arbitrary: pc b w rule: less_induct)
    case less
    obtain pc1 b1 w1 where t: "scaler_turn K dep (pc, b, w) = (pc1, b1, w1)" by (metis prod_cases3)
    have lt: "turns (pc1, b1, w1) < turns (pc, b, w)" using scaler_turn_less [OF t] less.prems by blast
    show ?case
    proof (cases "pc1 = Gone")
      case True
      then have "(scaler_turn K dep ^^ 1) (pc, b, w) = (Gone, b1, w1) \<and> goal b1 \<le> 1"
        using t scaler_turn_Gone less.prems(2) by simp
      then show ?thesis using lt by (metis One_nat_def Suc_leI gr_zeroI less_nat_zero_code)
    next
      case False
      have "0 \<le>s goal b1" using nonneg_le [OF scaler_turn_keeps(1) [OF t] less.prems(1)] .
      from less.hyps [OF lt this False] obtain n b' w' where
        n: "n \<le> turns (pc1, b1, w1)" "(scaler_turn K dep ^^ n) (pc1, b1, w1) = (Gone, b', w')" "goal b' \<le> 1" by blast
      have "(scaler_turn K dep ^^ Suc n) (pc, b, w) = (Gone, b', w')" using n(2) t by (simp add: funpow_swap1 del: scaler_turn.simps)
      moreover have "Suc n \<le> turns (pc, b, w)" using n(1) lt by simp
      ultimately show ?thesis using n(3) by blast
    qed
  qed
  moreover have "turns (pc, b, w) \<le> 10 * unat (goal b) + 9" using rank_bound [of pc "goal b"] by (simp add: turns_def)
  ultimately show ?thesis using le_trans by blast
qed

section \<open>A concrete deployment\<close>

text \<open>The world is the replica count of the one deployment there is.\<close>

definition one_dep :: "32 word deps" where
  "one_dep = \<lparr>dep_get = (\<lambda>_ w. (Some w, w)), dep_update = (\<lambda>_ r _. (True, r))\<rparr>"

definition idle_bd :: BalancerDat where
  "idle_bd = \<lparr>rover0 = 0, rover1 = 0, pods = [], goal = 0, wakeup = False\<rparr>"

definition scaled0 :: "32 word scalesys" where
  "scaled0 = \<lparr>sc_bd = idle_bd, sc_threads = (\<lambda>_. Gone), sc_world = 1\<rparr>"

definition scaled1 :: "32 word scalesys" where
  "scaled1 = \<lparr>sc_bd = idle_bd\<lparr>goal := 3, wakeup := True\<rparr>, sc_threads = (\<lambda>_. Gone)(0 := Up), sc_world = 1\<rparr>"

definition scaled2 :: "32 word scalesys" where
  "scaled2 = \<lparr>sc_bd = idle_bd\<lparr>goal := 3, wakeup := True\<rparr>, sc_threads = ((\<lambda>_. Gone)(0 := Up))(0 := GotUp 3), sc_world = 3\<rparr>"

lemma scaled_unscaled: "unscaled scaled0"
  by (simp add: unscaled_def scaled0_def idle_bd_def)

lemma scaled_reach: "(scale_step one_dep ''swd'' 32)\<^sup>*\<^sup>* scaled0 scaled2"
proof -
  have "scalerSetGoal 32 3 (sc_bd scaled0) = (idle_bd\<lparr>goal := 3, wakeup := True\<rparr>, True)"
    by (simp add: scalerSetGoal_def scaled0_def idle_bd_def)
  from scale_step.set_goal [OF this, of 0 one_dep "''swd''"]
  have "scale_step one_dep ''swd'' 32 scaled0 scaled1" by (simp add: scaled0_def scaled1_def)
  moreover have "scale_step one_dep ''swd'' 32 scaled1 scaled2"
    unfolding scaled2_def
    using scale_step.turn [of scaled1 0 one_dep "''swd''" "GotUp 3" "idle_bd\<lparr>goal := 3, wakeup := True\<rparr>" 3 32]
    by (simp add: scaled1_def k8sDepScaleUp_def k8sDepScale_def one_dep_def idle_bd_def word_sle_eq)
  ultimately show ?thesis by (rule converse_rtranclp_into_rtranclp [OF _ r_into_rtranclp])
qed


theorem scaler_stop_disables_witness:
  "\<exists>s2. \<forall>s3. (scale_step one_dep ''swd'' 32)\<^sup>*\<^sup>* s2 s3 \<longrightarrow> (\<forall>t. sc_threads s3 t = Gone) \<and> wakeup (sc_bd s3)"
proof -
  have "sc_threads scaled2 0 \<in> {GotUp 3, Stepping 3}" by (simp add: scaled2_def)
  moreover have "scale_inv 32 scaled2" by (simp add: scale_inv_def scaled2_def idle_bd_def)
  ultimately show ?thesis using scaler_stop_disables [OF _ _ refl, of scaled2 0 3 32 one_dep "''swd''"] by blast
qed

theorem scaler_ends_witness:
  "\<exists>n b' w'. n \<le> 39 \<and> (scaler_turn one_dep ''swd'' ^^ n) (Up, idle_bd\<lparr>goal := 3, wakeup := True\<rparr>, 1) = (Gone, b', w') \<and> goal b' \<le> 1"
  using scaler_ends [of "idle_bd\<lparr>goal := 3, wakeup := True\<rparr>" Up one_dep "''swd''" 1] by (simp add: word_sle_eq)

end
