(* ===== verification/Gate_Balancer.thy ===== *)
theory Gate_Balancer
  imports Gate_Scaler Ratelimit
begin

text \<open>
  Choosing a pod for a call: \<open>src/gate/balancer.go\<close>, and the rate limits of \<open>src/gate/fdmdat.go\<close>. The pods
  of a function are cached on its in-memory data and taken in turn; two 32-bit counters count the
  calls begun and ended, and their difference is what the scaler is asked for.
\<close>

section \<open>The balancer\<close>

definition Flush :: "BalancerDat \<Rightarrow> BalancerDat" where
  "Flush bd = bd\<lparr>pods := []\<rparr>"

text \<open>The in-memory data of functions, by their ids: here the part the balancer keeps.\<close>

type_synonym fdmd = "string \<Rightarrow> BalancerDat option"

definition balancerPodsFlush :: "fdmd \<Rightarrow> string \<Rightarrow> fdmd" where
  "balancerPodsFlush m fnid = (case m fnid of None \<Rightarrow> m | Some bd \<Rightarrow> m(fnid := Some (Flush bd)))"

definition BalancerPodDel :: "k8sPod \<Rightarrow> podstore \<times> fdmd \<Rightarrow> podstore \<times> fdmd" where
  "BalancerPodDel pod = (\<lambda>(st, m). (podsDel st pod, balancerPodsFlush m (FnId pod)))"

definition BalancerPodAdd :: "k8sPod \<Rightarrow> podstore \<times> fdmd \<Rightarrow> (podstore \<times> fdmd) option" where
  "BalancerPodAdd pod = (\<lambda>(st, m). map_option (\<lambda>st'. (st', balancerPodsFlush m (FnId pod))) (podsAdd st pod))"

definition BalancerDelete :: "string \<Rightarrow> fdmd \<Rightarrow> fdmd" where
  "BalancerDelete fnid m = (case m fnid of None \<Rightarrow> m | Some bd \<Rightarrow> m(fnid := Some (scalerStop (Flush bd))))"

definition balancerGetConnExact :: "podstore \<Rightarrow> string \<Rightarrow> string \<Rightarrow> ReqErr + podConn" where
  "balancerGetConnExact st cookie version = (case podsFindExact st cookie version of
     None \<Rightarrow> Inl (GateErrM GateGenErr ''Nothing to run (yet)'')
   | Some ap \<Rightarrow> Inr ap)"

text \<open>The cached pods, filled from the store when there are none.\<close>

definition get_pods :: "podstore \<Rightarrow> string \<Rightarrow> BalancerDat \<Rightarrow> podConn list option \<times> BalancerDat" where
  "get_pods st fnid bd = (if pods bd \<noteq> [] then (Some (pods bd), bd)
     else case podsFindAll st fnid of
       None \<Rightarrow> (None, bd)
     | Some aps \<Rightarrow> (Some aps, bd\<lparr>pods := aps\<rparr>))"

text \<open>
  \<open>balancerGetConnAny\<close>: the pod and whether a scaler has to be started. The index \<open>sc % len(aps)\<close>
  divides by zero when the list is empty.
\<close>

definition pick :: "32 word \<Rightarrow> podConn list \<Rightarrow> BalancerDat \<Rightarrow> (string, podConn \<times> bool) res \<times> BalancerDat" where
  "pick mx aps bd = (let sc = rover0 bd + 1;
       bd = bd\<lparr>rover0 := sc\<rparr>;
       (bd, start) = scalerSetGoal mx (sc - rover1 bd) bd
     in (if (word_of_nat (length aps) :: 32 word) = 0 then Panic
         else Ok (aps ! unat (sc mod word_of_nat (length aps)), start), bd))"

definition balancerGetConnAny :: "32 word \<Rightarrow> podstore \<Rightarrow> string \<Rightarrow> BalancerDat \<Rightarrow> (string, podConn \<times> bool) res \<times> BalancerDat" where
  "balancerGetConnAny mx st fnid bd = (case get_pods st fnid bd of
     (None, bd) \<Rightarrow> (Err ''No available PODs'', bd)
   | (Some aps, bd) \<Rightarrow> pick mx aps bd)"

definition balancerPutConn :: "BalancerDat \<Rightarrow> BalancerDat" where
  "balancerPutConn bd = bd\<lparr>rover1 := rover1 bd + 1\<rparr>"

section \<open>Rate limits\<close>

text \<open>The buckets a call draws from: the function's, its tenant's and the gate's, where configured.\<close>

record limits =
  frl :: "RL option"
  trl :: "RL option"
  grl :: "RL option"

definition take_token :: "int \<Rightarrow> RL option \<Rightarrow> (bool \<times> RL option) option" where
  "take_token now rl = (case rl of None \<Rightarrow> Some (True, None) | Some r \<Rightarrow> map_option (\<lambda>(ok, r'). (ok, Some r')) (Get now r))"

text \<open>\<open>None\<close> is the division by zero of a bucket with no period. The labels \<open>g\<close> and \<open>t\<close> give the tokens back.\<close>

definition ratelimited :: "int \<Rightarrow> limits \<Rightarrow> (bool \<times> limits) option" where
  "ratelimited now l =
     Option.bind (take_token now (frl l)) (\<lambda>(ok, f).
       if \<not> ok then Some (True, l\<lparr>frl := f\<rparr>)
       else Option.bind (take_token now (trl l)) (\<lambda>(ok, t).
         if \<not> ok then Some (True, l\<lparr>frl := map_option Put f, trl := t\<rparr>)
         else Option.bind (take_token now (grl l)) (\<lambda>(ok, g).
           if \<not> ok then Some (True, l\<lparr>frl := map_option Put f, trl := map_option Put t, grl := g\<rparr>)
           else Some (False, \<lparr>frl = f, trl = t, grl = g\<rparr>))))"

section \<open>A refused call costs nothing\<close>

definition bucket_ok :: "RL \<Rightarrow> bool" where
  "bucket_ok r \<longleftrightarrow> 0 < rl_burst r \<and> rl_bts r \<le> rl_burst r"

lemma word_pred_less:
  fixes x y :: "64 word"
  assumes "x \<noteq> 0" and "x \<le> y"
  shows "x - 1 < y"
proof -
  have "uint (x - 1) = uint x - 1" using assms(1) by (rule uint_minus_one)
  then show ?thesis using assms(2) by (simp add: word_less_def word_le_def)
qed

lemma Get_True_token:
  assumes "Get now r = Some (True, r')" and "bucket_ok r"
  shows "rl_bts r' < rl_burst r'" and "Get now (r'\<lparr>rl_bts := rl_bts r' + 1\<rparr>) = Get now r"
proof -
  have "\<exists>n t. n \<noteq> 0 \<and> n \<le> rl_burst r \<and> r' = r\<lparr>rl_bts := n - 1, rl_t := t\<rparr>"
  proof (cases "rl_bts r = 0")
    case True
    let ?n = "refill_bts (time_sub now (rl_t r)) (rl_eps r) (rl_base r)"
    show ?thesis
    proof (cases "time_sub now (rl_t r) \<ge> rl_base r")
      case True
      then show ?thesis
        using assms \<open>rl_bts r = 0\<close> by (intro exI [of _ "rl_burst r"] exI [of _ now]) (auto simp: Get_def bucket_ok_def)
    next
      case False
      then show ?thesis
        using assms \<open>rl_bts r = 0\<close>
        by (intro exI [of _ "if ?n > rl_burst r then rl_burst r else ?n"] exI [of _ "rl_t r'"])
          (auto simp: Get_def Let_def bucket_ok_def split: if_splits)
    qed
  next
    case False
    then show ?thesis
      using assms by (intro exI [of _ "rl_bts r"] exI [of _ "rl_t r"]) (auto simp: Get_def bucket_ok_def)
  qed
  then show "rl_bts r' < rl_burst r'" by (auto intro: word_pred_less)
  have r': "rl_burst r' = rl_burst r" "rl_eps r' = rl_eps r" "rl_base r' = rl_base r"
    using assms(1) by (auto simp: Get_def Let_def split: if_splits)
  have "rl_bts r' + 1 \<noteq> 0" using \<open>rl_bts r' < rl_burst r'\<close> by (metis add.inverse_inverse add_eq_0_iff not_less word_order.extremum)
  then show "Get now (r'\<lparr>rl_bts := rl_bts r' + 1\<rparr>) = Get now r" unfolding assms(1) by (simp add: Get_def)
qed

lemma take_then_put:
  assumes "take_token now rl = Some (True, rl')" and "\<forall>r. rl = Some r \<longrightarrow> bucket_ok r"
  shows "take_token now (map_option Put rl') = take_token now rl"
  using assms Get_True_token [of now] by (auto simp: take_token_def Put_def split: option.splits)

lemma take_refused: "take_token now rl = Some (False, rl') \<Longrightarrow> take_token now rl' = take_token now rl"
  by (auto simp: take_token_def Get_def Let_def split: option.splits if_splits)

text \<open>
  C30. A call that is refused by one of its three rate limits costs nothing: each bucket answers the next
  request at that instant, and is left by it, as if the refused call had never been made. A call that is admitted has
  taken one token from every configured bucket.
\<close>

theorem ratelimited_all_or_nothing:
  assumes "ratelimited now l = Some (refused, l')"
    and "\<forall>r. r \<in> {frl l, trl l, grl l} \<longrightarrow> (\<forall>b. r = Some b \<longrightarrow> bucket_ok b)"
  shows "if refused
    then take_token now (frl l') = take_token now (frl l) \<and> take_token now (trl l') = take_token now (trl l)
       \<and> take_token now (grl l') = take_token now (grl l)
    else take_token now (frl l) = Some (True, frl l') \<and> take_token now (trl l) = Some (True, trl l')
       \<and> take_token now (grl l) = Some (True, grl l')"
proof -
  obtain ok1 f where f: "take_token now (frl l) = Some (ok1, f)"
    using assms(1) by (auto simp: ratelimited_def bind_eq_Some_conv)
  show ?thesis
  proof (cases ok1)
    case False
    then show ?thesis using assms(1) f take_refused [of now "frl l" f] by (auto simp: ratelimited_def)
  next
    case True
    then have f: "take_token now (frl l) = Some (True, f)" using f by simp
    note pf = take_then_put [OF f]
    obtain ok2 t where t: "take_token now (trl l) = Some (ok2, t)"
      using assms(1) f True by (auto simp: ratelimited_def bind_eq_Some_conv)
    show ?thesis
    proof (cases ok2)
      case False
      then show ?thesis using assms f t True pf take_refused [of now "trl l" t] by (auto simp: ratelimited_def)
    next
      case ok: True
      then have t: "take_token now (trl l) = Some (True, t)" using t by simp
      note pt = take_then_put [OF t]
      obtain ok3 g where g: "take_token now (grl l) = Some (ok3, g)"
        using assms(1) f t True ok by (auto simp: ratelimited_def bind_eq_Some_conv)
      then show ?thesis
        using assms f t True ok pf pt take_refused [of now "grl l" g] by (cases ok3) (auto simp: ratelimited_def)
    qed
  qed
qed

definition demo_limits :: limits where
  "demo_limits = \<lparr>frl = Some (MakeRL 1 1 0), trl = Some ((MakeRL 0 1 0)\<lparr>rl_bts := 0\<rparr>), grl = None\<rparr>"

theorem ratelimited_all_or_nothing_witness:
  "\<exists>l'. ratelimited 5 demo_limits = Some (True, l') \<and> take_token 5 (frl l') = take_token 5 (frl demo_limits)"
proof -
  have "map_option fst (ratelimited 5 demo_limits) = Some True" by code_simp
  then obtain l' where l': "ratelimited 5 demo_limits = Some (True, l')" by auto
  have "\<forall>r. r \<in> {frl demo_limits, trl demo_limits, grl demo_limits} \<longrightarrow> (\<forall>b. r = Some b \<longrightarrow> bucket_ok b)"
    by (auto simp: demo_limits_def bucket_ok_def MakeRL_def MakeRLBase_def)
  from ratelimited_all_or_nothing [OF l' this] show ?thesis using l' by auto
qed

section \<open>Round robin\<close>

text \<open>The pods that \<open>n\<close> calls in a row get.\<close>

fun get_conns :: "32 word \<Rightarrow> podstore \<Rightarrow> string \<Rightarrow> nat \<Rightarrow> BalancerDat \<Rightarrow> podConn list option" where
  "get_conns mx st fnid 0 bd = Some []"
| "get_conns mx st fnid (Suc n) bd = (case balancerGetConnAny mx st fnid bd of
     (Ok (c, _), bd') \<Rightarrow> map_option ((#) c) (get_conns mx st fnid n bd')
   | _ \<Rightarrow> None)"

lemma scalerSetGoal_keeps:
  "scalerSetGoal mx g bd = (bd', start) \<Longrightarrow> pods bd' = pods bd \<and> rover0 bd' = rover0 bd \<and> rover1 bd' = rover1 bd"
  by (auto simp: scalerSetGoal_def split: if_splits)

lemma pick_picks:
  assumes "pick mx aps bd = (r, bd')" and "aps \<noteq> []" and "length aps < 2 ^ 32"
  shows "\<exists>start. r = Ok (aps ! (unat (rover0 bd + 1) mod length aps), start)"
    and "pods bd' = pods bd" and "rover0 bd' = rover0 bd + 1" and "rover1 bd' = rover1 bd"
proof -
  obtain bd1 start where sg: "scalerSetGoal mx (rover0 bd + 1 - rover1 bd) (bd\<lparr>rover0 := rover0 bd + 1\<rparr>) = (bd1, start)" by fastforce
  have u: "unat (word_of_nat (length aps) :: 32 word) = length aps" using assms(3) by (simp add: unat_of_nat)
  then have "(word_of_nat (length aps) :: 32 word) \<noteq> 0" using assms(2) by (metis length_0_conv unat_0)
  then have r: "r = Ok (aps ! (unat (rover0 bd + 1) mod length aps), start)" "bd' = bd1"
    using assms(1) sg u by (auto simp: pick_def Let_def unat_mod)
  then show "\<exists>start. r = Ok (aps ! (unat (rover0 bd + 1) mod length aps), start)" by blast
  show "pods bd' = pods bd" "rover0 bd' = rover0 bd + 1" "rover1 bd' = rover1 bd"
    using scalerSetGoal_keeps [OF sg] r by simp_all
qed

lemma get_conns_turns:
  assumes "pods bd = aps" and "aps \<noteq> []" and "length aps < 2 ^ 32" and "unat (rover0 bd) + n < 2 ^ 32"
  shows "get_conns mx st fnid n bd = Some (map (\<lambda>i. aps ! ((unat (rover0 bd) + 1 + i) mod length aps)) [0..<n])"
  using assms
proof (induction n arbitrary: bd)
  case (Suc n)
  obtain r bd' where p: "pick mx aps bd = (r, bd')" by fastforce
  note pp = pick_picks [OF p Suc.prems(2,3)]
  obtain start where r: "r = Ok (aps ! (unat (rover0 bd + 1) mod length aps), start)" using pp(1) by blast
  have u: "unat (rover0 bd + 1) = unat (rover0 bd) + 1" using Suc.prems(4) by (subst unat_add_lem [THEN iffD1]) auto
  have g: "balancerGetConnAny mx st fnid bd = (r, bd')" using p Suc.prems(1,2) by (simp add: balancerGetConnAny_def get_pods_def)
  have "get_conns mx st fnid n bd' = Some (map (\<lambda>i. aps ! ((unat (rover0 bd) + 2 + i) mod length aps)) [0..<n])"
    using Suc.IH [of bd'] Suc.prems pp(2,3) u by simp
  then show ?case
    using g r u by (simp add: upt_conv_Cons map_Suc_upt [symmetric] o_def del: upt_Suc)
qed simp

lemma rotate_turns: "map (\<lambda>i. xs ! ((a + i) mod length xs)) [0..<length xs] = rotate a xs"
  by (rule nth_equalityI) (simp_all add: nth_rotate)

text \<open>
  As long as the pods of a function stay the same, calls take them strictly in turn: as many calls
  in a row as there are pods reach each of them once (up to the wrap-around of the 32-bit counter).
\<close>

theorem round_robin:
  assumes "pods bd \<noteq> []" and "unat (rover0 bd) + length (pods bd) < 2 ^ 32"
  shows "\<exists>cs. get_conns mx st fnid (length (pods bd)) bd = Some cs \<and> cs = rotate (unat (rover0 bd) + 1) (pods bd)"
proof -
  let ?n = "length (pods bd)" and ?a = "unat (rover0 bd) + 1"
  show ?thesis using get_conns_turns [of bd "pods bd" ?n mx st fnid] assms unfolding rotate_turns by simp
qed

section \<open>Demand\<close>

text \<open>The states of the balancer with \<open>n\<close> calls under way, whatever the scaler and the flushes do in between.\<close>

inductive calls :: "32 word \<Rightarrow> string \<Rightarrow> nat \<Rightarrow> BalancerDat \<Rightarrow> bool" for mx fnid where
  idle: "rover0 bd = rover1 bd \<Longrightarrow> calls mx fnid 0 bd"
| call: "calls mx fnid n bd \<Longrightarrow> balancerGetConnAny mx st fnid bd = (Ok r, bd') \<Longrightarrow> calls mx fnid (Suc n) bd'"
| return: "calls mx fnid (Suc n) bd \<Longrightarrow> calls mx fnid n (balancerPutConn bd)"
| other: "calls mx fnid n bd \<Longrightarrow> rover0 bd' = rover0 bd \<Longrightarrow> rover1 bd' = rover1 bd \<Longrightarrow> calls mx fnid n bd'"

lemma get_pods_keeps: "get_pods st fnid bd = (aps, bd') \<Longrightarrow>
    rover0 bd' = rover0 bd \<and> rover1 bd' = rover1 bd \<and> goal bd' = goal bd"
  by (auto simp: get_pods_def split: if_splits option.splits)

lemma getConn_Ok:
  assumes "balancerGetConnAny mx st fnid bd = (Ok (c, start), bd')"
  obtains bd1 aps where "get_pods st fnid bd = (Some aps, bd1)" and "c \<in> set aps"
    and "scalerSetGoal mx (rover0 bd + 1 - rover1 bd) (bd1\<lparr>rover0 := rover0 bd + 1\<rparr>) = (bd', start)"
proof -
  obtain bd1 aps where g: "get_pods st fnid bd = (Some aps, bd1)" and p: "pick mx aps bd1 = (Ok (c, start), bd')"
    using assms by (auto simp: balancerGetConnAny_def split: prod.splits option.splits)
  note k = get_pods_keeps [OF g]
  have nz: "(word_of_nat (length aps) :: 32 word) \<noteq> 0" and c: "c = aps ! unat ((rover0 bd + 1) mod word_of_nat (length aps))"
    and s: "scalerSetGoal mx (rover0 bd + 1 - rover1 bd) (bd1\<lparr>rover0 := rover0 bd + 1\<rparr>) = (bd', start)"
    using p k by (auto simp: pick_def Let_def split: prod.splits if_splits)
  have "unat ((rover0 bd + 1) mod (word_of_nat (length aps) :: 32 word)) < unat (word_of_nat (length aps) :: 32 word)"
    using nz by (metis unat_mono word_gt_0 word_mod_less_divisor)
  also have "\<dots> \<le> length aps" by (simp add: unat_of_nat)
  finally have "c \<in> set aps" using c by simp
  then show thesis using that g s by blast
qed

lemma calls_in_flight: "calls mx fnid n bd \<Longrightarrow> rover0 bd - rover1 bd = of_nat n"
proof (induction rule: calls.induct)
  case (call n bd st r bd')
  obtain c start where r: "r = (c, start)" by fastforce
  obtain bd1 aps where "get_pods st fnid bd = (Some aps, bd1)"
    "scalerSetGoal mx (rover0 bd + 1 - rover1 bd) (bd1\<lparr>rover0 := rover0 bd + 1\<rparr>) = (bd', start)"
    using getConn_Ok [OF call(2) [unfolded r]] by metis
  then have "rover0 bd' = rover0 bd + 1" "rover1 bd' = rover1 bd"
    using scalerSetGoal_keeps get_pods_keeps by fastforce+
  then show ?case using call.IH by (simp add: algebra_simps)
next
  case (return n bd)
  then show ?case by (simp add: balancerPutConn_def algebra_simps)
qed simp_all

text \<open>
  The scaler hears of every call: whatever the order in which calls begin and end, a call that begins with \<open>n\<close>
  others under way gets one of the function's pods and leaves the number of replicas wanted at least
  at \<open>n + 1\<close>, within the configured maximum, with a scaler to see to it.
\<close>

theorem demand_reaches_scaler:
  assumes "calls mx fnid n bd" and "n + 1 \<le> unat mx"
    and "balancerGetConnAny mx st fnid bd = (Ok (c, start), bd')"
  shows "n + 1 \<le> unat (goal bd')
    \<and> (goal bd' \<noteq> goal bd \<longrightarrow> wakeup bd' \<and> (start \<or> wakeup bd))
    \<and> (c \<in> set (pods bd) \<or> (\<exists>aps. podsFindAll st fnid = Some aps \<and> c \<in> set aps))"
proof -
  obtain bd1 aps where g: "get_pods st fnid bd = (Some aps, bd1)" and c: "c \<in> set aps"
    and s: "scalerSetGoal mx (rover0 bd + 1 - rover1 bd) (bd1\<lparr>rover0 := rover0 bd + 1\<rparr>) = (bd', start)"
    using getConn_Ok [OF assms(3)] .
  have "rover0 bd + 1 - rover1 bd = of_nat (n + 1)" using calls_in_flight [OF assms(1)] by (simp add: algebra_simps)
  moreover have "n + 1 < 2 ^ 32" using assms(2) unsigned_less [of mx, where ?'a = nat] by simp
  ultimately have d: "unat (rover0 bd + 1 - rover1 bd) = n + 1" by (simp add: unat_of_nat del: of_nat_Suc)
  have bd1: "goal bd1 = goal bd" "wakeup bd1 = wakeup bd" using g by (auto simp: get_pods_def split: if_splits option.splits)
  have "n + 1 \<le> unat (goal bd') \<and> (goal bd' \<noteq> goal bd \<longrightarrow> wakeup bd' \<and> (start \<or> wakeup bd))"
    using s d assms(2) bd1 by (auto simp: scalerSetGoal_def word_le_nat_alt word_less_nat_alt split: if_splits)
  moreover have "c \<in> set (pods bd) \<or> (\<exists>aps. podsFindAll st fnid = Some aps \<and> c \<in> set aps)"
    using g c by (auto simp: get_pods_def split: if_splits option.splits)
  ultimately show ?thesis by blast
qed

section \<open>Calls during the start of a pod\<close>

lemma empty_cell_panics:
  assumes "podsFindAll st fnid = Some []" and "pods bd = []"
  shows "fst (balancerGetConnAny mx st fnid bd) = Panic"
  using assms by (simp add: balancerGetConnAny_def get_pods_def pick_def Let_def split: prod.splits)

text \<open>
  While the first pod of a function is being added there is a moment at which a call panics: the
  cell of the function is in the store before the pod is in the cell, the balancer takes its
  empty list for an answer, and divides by its length. The two counters then differ by one call that never ends.
\<close>

theorem balancer_window_panics:
  "\<exists>s. (\<lambda>s s'. \<exists>e. pods_step e s s')\<^sup>*\<^sup>* pods_init s
     \<and> (\<forall>mx bd. fst (balancerGetConnAny mx (sys_store s) ''f'' (Flush bd)) = Panic)"
proof -
  have "podsFindAll (sys_store sys3) ''f'' = Some []"
    by (simp add: podsFindAll_def findFnPods_def sys3_def sys2_def sys1_def pods_init_def empty_store_def load_or_store_def makeFnPods_def)
  then have "fst (balancerGetConnAny mx (sys_store sys3) ''f'' (Flush bd)) = Panic" for mx bd
    by (rule empty_cell_panics) (simp add: Flush_def)
  then show ?thesis using sys3_reach by blast
qed

section \<open>A concrete balancer\<close>

definition two_pods :: BalancerDat where
  "two_pods = idle_bd\<lparr>pods := [conn demo_pod, conn (demo_pod\<lparr>WdogAddr := ''10.0.0.2''\<rparr>)]\<rparr>"

theorem round_robin_witness:
  "get_conns 32 empty_store ''f'' 2 two_pods = Some [conn (demo_pod\<lparr>WdogAddr := ''10.0.0.2''\<rparr>), conn demo_pod]"
proof -
  have "pods two_pods \<noteq> []" "unat (rover0 two_pods) + length (pods two_pods) < 2 ^ 32"
    by (simp_all add: two_pods_def idle_bd_def)
  from round_robin [OF this, of 32 empty_store "''f''"] show ?thesis
    by (simp add: two_pods_def idle_bd_def numeral_2_eq_2 del: get_conns.simps)
qed

lemma two_pods_call: "\<exists>c start bd'. balancerGetConnAny 32 empty_store ''f'' two_pods = (Ok (c, start), bd')"
  by (simp add: balancerGetConnAny_def get_pods_def two_pods_def pick_def Let_def idle_bd_def scalerSetGoal_def) (rule exI, rule TrueI)

theorem demand_reaches_scaler_witness:
  "\<exists>c start bd'. balancerGetConnAny 32 empty_store ''f'' two_pods = (Ok (c, start), bd') \<and> 1 \<le> unat (goal bd')"
proof -
  obtain c start bd' where run: "balancerGetConnAny 32 empty_store ''f'' two_pods = (Ok (c, start), bd')"
    using two_pods_call by blast
  have "calls 32 ''f'' 0 two_pods" by (rule calls.idle) (simp add: two_pods_def idle_bd_def)
  from demand_reaches_scaler [OF this _ run] show ?thesis using run by simp
qed

end
