(* ===== verification/Gate_DB.thy ===== *)
theory Gate_DB
  imports Gate_Balancer
begin

text \<open>
  The gate's documents and its access to MongoDB: the types of \<open>src/gate/function.go\<close>, \<open>event.go\<close>,
  \<open>mware.go\<close> and \<open>stats.go\<close>, and the wrappers of \<open>src/gate/db.go\<close>. The server is a parameter of the
  environment; what the gate relies on of it are the laws collected in \<open>gmongo_ok\<close>. Every change goes
  through a check of the caller's role.
\<close>

type_synonym oid = string

section \<open>Documents\<close>

record FnCodeDesc =
  Lang :: string
  Env :: "string list"

record FnSrcDesc =
  src_Version :: string
  src_Repo :: string
  src_File :: string

record FnSizeDesc =
  Replicas :: int
  Mem :: "64 word"
  Tmo :: "64 word"
  Burst :: "64 word"
  Rate :: "64 word"

record FunctionDesc =
  fn_ObjID :: oid
  fn_SwoId :: SwoId
  fn_Labels :: "string list"
  fn_Cookie :: string
  fn_PToken :: string
  fn_State :: int
  fn_Mware :: "string list"
  fn_S3Buckets :: "string list"
  fn_Accounts :: "string list"
  fn_Code :: FnCodeDesc
  fn_Src :: FnSrcDesc
  fn_Size :: FnSizeDesc
  fn_AuthCtx :: string
  fn_UserData :: string

record FnEventCron =
  cron_Tab :: string
  cron_Args :: "(string \<times> string) list"
  cron_JobID :: int

record FnEventS3 =
  s3_Ns :: string
  s3_Bucket :: string
  s3_Ops :: string
  s3_Pattern :: string

record FnEventWebsock =
  ws_MwName :: string
  ws_MType :: "int option"

record FnEventDesc =
  ev_ObjID :: oid
  ev_Key :: string
  ev_FnId :: string
  ev_Name :: string
  ev_Source :: string
  ev_Cron :: "FnEventCron option"
  ev_S3 :: "FnEventS3 option"
  ev_WS :: "FnEventWebsock option"

record MwareDesc =
  mw_ObjID :: oid
  mw_SwoId :: SwoId
  mw_Labels :: "string list"
  mw_Cookie :: string
  mw_MwareType :: string
  mw_Client :: string
  mw_Secret :: string
  mw_Namespace :: string
  mw_State :: int
  mw_UserData :: string
  mw_HDat :: "(string \<times> string) list"

text \<open>An account of another service. Secrets are kept encrypted.\<close>

record AccDesc =
  acc_ObjID :: oid
  acc_SwoId :: SwoId
  acc_Cookie :: string
  acc_Type :: string
  acc_Values :: "(string \<times> string) list"
  acc_Secrets :: "(string \<times> string) list"

record RouterEntry =
  rte_Method :: string
  rte_Path :: string
  rte_Call :: string
  rte_AuthCtx :: string
  rte_Key :: string

record RouterDesc =
  rd_ObjID :: oid
  rd_SwoId :: SwoId
  rd_Cookie :: string
  rd_Labels :: "string list"
  rd_Table :: "RouterEntry list"

text \<open>A cloned repository; \<open>rp_Path\<close> is set for those the administrator put in place by hand.\<close>

record RepoDesc =
  rp_ObjID :: oid
  rp_SwoId :: SwoId
  rp_Type :: string
  rp_State :: int
  rp_Commit :: string
  rp_UserData :: string
  rp_Pull :: string
  rp_DU :: "64 word"
  rp_Path :: string
  rp_LastPull :: "int option"
  rp_AccID :: oid

text \<open>A deployment: functions, middleware and routers that are started together. The sources of a function are
  kept in memory only; the document has them as text.\<close>

record FunctionSources =
  fsrc_Repo :: string
  fsrc_Code :: string
  fsrc_URL :: string
  fsrc_Sync :: bool

record DeployFunction =
  df_Id :: SwoId
  df_Fn :: "FunctionDesc option"
  df_FnSrc :: string
  df_src :: "FunctionSources option"
  df_Evs :: "FnEventDesc list"

record DeployMware =
  dm_Id :: SwoId
  dm_Mw :: "MwareDesc option"

record DeployRouter =
  dr_Id :: SwoId
  dr_Rt :: "RouterDesc option"

record DeployDesc =
  dd_ObjID :: oid
  dd_SwoId :: SwoId
  dd_Labels :: "string list"
  dd_Cookie :: string
  dd_State :: int
  dd_Functions :: "DeployFunction list"
  dd_Mwares :: "DeployMware list"
  dd_Routers :: "DeployRouter list"

record DBLogRec =
  log_Cookie :: string
  log_Event :: string
  log_Time :: int
  log_Text :: string

record FnStatValues =
  Called :: "64 word"
  Timeouts :: "64 word"
  Errors :: "64 word"
  LastCall :: int
  RunTime :: "64 word"
  BytesIn :: "64 word"
  BytesOut :: "64 word"
  RunCost :: "64 word"

record FnStatsDoc =
  fs_Cookie :: string
  fs_Values :: FnStatValues
  fs_Dropped :: "int option"
  fs_Till :: "int option"

record TenStatValues =
  ts_Called :: "64 word"
  ts_RunCost :: "64 word"
  ts_BytesIn :: "64 word"
  ts_BytesOut :: "64 word"

record TenStatsDoc =
  tsd_Tenant :: string
  tsd_Values :: TenStatValues
  tsd_Till :: "int option"

text \<open>A \<open>float64\<close> is kept as its bits; the arithmetic on it is a parameter.\<close>

type_synonym float64 = "64 word"

record FunctionLimits =
  fl_Rate :: "64 word"
  fl_Burst :: "64 word"
  fl_Max :: "64 word"
  fl_GBS :: float64
  fl_BytesOut :: "64 word"

record UserLimits =
  ul_UId :: string
  ul_Fn :: "FunctionLimits option"
  ul_Mware :: "(string \<times> 32 word) list"
  ul_Repo :: "32 word option"

datatype gdoc = GFn FunctionDesc | GEv FnEventDesc | GMw MwareDesc | GLog DBLogRec | GStats FnStatsDoc | GStatsA FnStatsDoc
  | GTen TenStatsDoc | GTenA TenStatsDoc | GLimits UserLimits
  | GAcc AccDesc | GRt RouterDesc | GDep DeployDesc | GRepo RepoDesc

datatype gcoll = DBColFunc | DBColEvents | DBColMware | DBColLogs | DBColFnStats | DBColFnStatsA
  | DBColTenStats | DBColTenStatsA | DBColLimits | DBColAccounts | DBColRouters | DBColDeploy | DBColRepos

fun gcoll_of :: "gdoc \<Rightarrow> gcoll" where
  "gcoll_of (GFn _) = DBColFunc" | "gcoll_of (GEv _) = DBColEvents" | "gcoll_of (GMw _) = DBColMware"
| "gcoll_of (GLog _) = DBColLogs" | "gcoll_of (GStats _) = DBColFnStats" | "gcoll_of (GStatsA _) = DBColFnStatsA"
| "gcoll_of (GTen _) = DBColTenStats" | "gcoll_of (GTenA _) = DBColTenStatsA" | "gcoll_of (GLimits _) = DBColLimits"
| "gcoll_of (GAcc _) = DBColAccounts" | "gcoll_of (GRt _) = DBColRouters" | "gcoll_of (GDep _) = DBColDeploy"
| "gcoll_of (GRepo _) = DBColRepos"

text \<open>The id the gate gives a document; log records and statistics get theirs from the driver.\<close>

fun given_id :: "gdoc \<Rightarrow> oid option" where
  "given_id (GFn f) = Some (fn_ObjID f)" | "given_id (GEv e) = Some (ev_ObjID e)" | "given_id (GMw m) = Some (mw_ObjID m)"
| "given_id (GAcc a) = Some (acc_ObjID a)" | "given_id (GRt r) = Some (rd_ObjID r)" | "given_id (GDep d) = Some (dd_ObjID d)"
| "given_id (GRepo r) = Some (rp_ObjID r)"
| "given_id _ = None"

text \<open>The unique index on the cookies of functions, middleware, accounts and routers.\<close>

fun unique_cookie :: "gdoc \<Rightarrow> string option" where
  "unique_cookie (GFn f) = Some (fn_Cookie f)" | "unique_cookie (GMw m) = Some (mw_Cookie m)"
| "unique_cookie (GAcc a) = Some (acc_Cookie a)" | "unique_cookie (GRt r) = Some (rd_Cookie r)" | "unique_cookie _ = None"

fun as_Fn :: "gdoc \<Rightarrow> FunctionDesc" where "as_Fn (GFn f) = f" | "as_Fn _ = undefined"
fun as_Ev :: "gdoc \<Rightarrow> FnEventDesc" where "as_Ev (GEv e) = e" | "as_Ev _ = undefined"
fun as_Mw :: "gdoc \<Rightarrow> MwareDesc" where "as_Mw (GMw m) = m" | "as_Mw _ = undefined"
fun as_Acc :: "gdoc \<Rightarrow> AccDesc" where "as_Acc (GAcc a) = a" | "as_Acc _ = undefined"
fun as_Rt :: "gdoc \<Rightarrow> RouterDesc" where "as_Rt (GRt r) = r" | "as_Rt _ = undefined"
fun as_Repo :: "gdoc \<Rightarrow> RepoDesc" where "as_Repo (GRepo r) = r" | "as_Repo _ = undefined"
fun as_Dep :: "gdoc \<Rightarrow> DeployDesc" where "as_Dep (GDep d) = d" | "as_Dep _ = undefined"

section \<open>The server and its laws\<close>

text \<open>The result of a run inside a pod, and of a build.\<close>

record WdogFunctionRunResult =
  res_Return :: string
  res_Code :: int
  res_Stdout :: string
  res_Stderr :: string
  res_Time :: "64 word"
  res_Then :: "(string \<times> (string \<times> string) list) option"

datatype gdb_request =
    GInsert gdoc
  | GUpdate gcoll "gdoc \<Rightarrow> bool" "gdoc \<Rightarrow> gdoc"
  | GUpsert gcoll "gdoc \<Rightarrow> bool" "gdoc \<Rightarrow> gdoc" gdoc
  | GRemove gcoll "gdoc \<Rightarrow> bool"
  | GRemoveAll gcoll "gdoc \<Rightarrow> bool"
  | GFindOne gcoll "gdoc \<Rightarrow> bool"
  | GFindAll gcoll "gdoc \<Rightarrow> bool"
  | GCount gcoll "gdoc \<Rightarrow> bool"

datatype greply = GDone | GGot gdoc | GMany "gdoc list" | GNumber nat | GMissing | GDuplicate | GFailed string

type_synonym gview = "gcoll \<Rightarrow> oid \<Rightarrow> gdoc option"

definition gput :: "gcoll \<Rightarrow> oid \<Rightarrow> gdoc option \<Rightarrow> gview \<Rightarrow> gview" where
  "gput c i d V = V(c := (V c)(i := d))"

definition gmatch :: "gview \<Rightarrow> gcoll \<Rightarrow> (gdoc \<Rightarrow> bool) \<Rightarrow> oid set" where
  "gmatch V c q = {i. \<exists>d. V c i = Some d \<and> q d}"

definition gfresh :: "gview \<Rightarrow> gdoc \<Rightarrow> oid \<Rightarrow> bool" where
  "gfresh V d i \<longleftrightarrow> V (gcoll_of d) i = None \<and> (case given_id d of None \<Rightarrow> True | Some j \<Rightarrow> i = j)"

text \<open>What one request does to the database, for each answer it may have. A failed request changes nothing.\<close>

fun gserves :: "gdb_request \<Rightarrow> greply \<Rightarrow> gview \<Rightarrow> gview \<Rightarrow> bool" where
  "gserves (GInsert d) r V V' = (case r of
     GDone \<Rightarrow> \<exists>i. gfresh V d i \<and> V' = gput (gcoll_of d) i (Some d) V
   | GDuplicate \<Rightarrow> V' = V | GFailed _ \<Rightarrow> V' = V | _ \<Rightarrow> False)"
| "gserves (GUpdate c q u) r V V' = (case r of
     GDone \<Rightarrow> \<exists>i d. V c i = Some d \<and> q d \<and> V' = gput c i (Some (u d)) V
   | GMissing \<Rightarrow> gmatch V c q = {} \<and> V' = V | GFailed _ \<Rightarrow> V' = V | _ \<Rightarrow> False)"
| "gserves (GUpsert c q u n) r V V' = (case r of
     GDone \<Rightarrow> (\<exists>i d. V c i = Some d \<and> q d \<and> V' = gput c i (Some (u d)) V)
            \<or> (\<exists>i. gmatch V c q = {} \<and> gfresh V n i \<and> V' = gput c i (Some n) V)
   | GDuplicate \<Rightarrow> V' = V | GFailed _ \<Rightarrow> V' = V | _ \<Rightarrow> False)"
| "gserves (GRemove c q) r V V' = (case r of
     GDone \<Rightarrow> \<exists>i d. V c i = Some d \<and> q d \<and> V' = gput c i None V
   | GMissing \<Rightarrow> gmatch V c q = {} \<and> V' = V | GFailed _ \<Rightarrow> V' = V | _ \<Rightarrow> False)"
| "gserves (GRemoveAll c q) r V V' = (case r of
     GDone \<Rightarrow> V' = V(c := (\<lambda>i. if i \<in> gmatch V c q then None else V c i))
   | GFailed _ \<Rightarrow> V' = V | _ \<Rightarrow> False)"
| "gserves (GFindOne c q) r V V' = (V' = V \<and> (case r of
     GGot d \<Rightarrow> \<exists>i. V c i = Some d \<and> q d
   | GMissing \<Rightarrow> gmatch V c q = {} | GFailed _ \<Rightarrow> True | _ \<Rightarrow> False))"
| "gserves (GFindAll c q) r V V' = (V' = V \<and> (case r of
     GMany ds \<Rightarrow> set ds = {d. \<exists>i. V c i = Some d \<and> q d} \<and> distinct ds
   | GFailed _ \<Rightarrow> True | _ \<Rightarrow> False))"
| "gserves (GCount c q) r V V' = (V' = V \<and> (case r of
     GNumber n \<Rightarrow> n = card (gmatch V c q) | GFailed _ \<Rightarrow> True | _ \<Rightarrow> False))"

section \<open>Environment and state\<close>

text \<open>
  The environment of the gate: the database server, fresh ids, the clock, Kubernetes, the file system
  that holds sources, the watchdogs that build and run functions, the cron library, the S3 service,
  the message broker, the servers of the middleware, and the settings of \<open>src/gate/conf.go\<close> and the sysctls
  the modelled code reads. All effects act on the outer world \<open>'x\<close>.
\<close>

text \<open>The value of a variable in a pod: given, a field of the pod, or a key of a Kubernetes secret.\<close>

datatype envval = EnvValue string | EnvField string | EnvSecret string string

record deployment =
  dep_name :: string
  dep_replicas :: int
  dep_image :: string
  dep_code :: "string \<times> string"
  dep_packages :: "(string \<times> string) option"
  dep_mem :: "64 word"
  dep_env :: "(string \<times> envval) list"

datatype k8s_request =
    KGetDep string
  | KSetReplicas string int
  | KCreateDep deployment
  | KUpdateDep deployment
  | KDelDep string
  | KSecretCreate string "(string \<times> string) list"
  | KSecretUpdate string "(string \<times> string) list"
  | KSecretDelete string

datatype k8s_reply = KOk | KNotFound | KErr string

text \<open>Where sources come from, and what the gate asks of the S3 service for an event.\<close>

datatype src_from = FromRepo string | FromReq string | FromUrl string

datatype s3_request = S3Subscribe string string string string | S3Unsubscribe string string string

text \<open>The requests to the servers of the middleware, and how to reach a server that is configured.\<close>

datatype mw_request =
    MariaOpen
  | MariaExec string
  | PgCreate string string string
  | PgDrop string string
  | RabbitOpen
  | RabbitPutUser string string
  | RabbitPutVhost string
  | RabbitPermissions string string
  | RabbitDelVhost string
  | RabbitDelUser string
  | MongoDial
  | MongoUpsertUser string string string
  | MongoDropDatabase string

record mw_conf =
  mwc_User :: string
  mwc_Addr :: string
  mwc_QDB :: string

text \<open>The arguments of a run. Claims are the parsed payload of a token.\<close>

datatype json = JNum int | JStr string | JObj "(string \<times> json) list" | JOther string

record FunctionRun =
  run_Event :: string
  run_Args :: "(string \<times> string) list"
  run_ContentType :: string
  run_Body :: string
  run_Claims :: "json option"
  run_Method :: "string option"
  run_Path :: "string option"
  run_Key :: string

record 'x gate_env =
  gsrv :: "gdb_request \<Rightarrow> 'x \<Rightarrow> greply \<times> 'x"
  gnewid :: "'x \<Rightarrow> oid \<times> 'x"
  gnow :: "'x \<Rightarrow> int \<times> 'x"
  rand_Read :: "nat \<Rightarrow> 'x \<Rightarrow> string option \<times> 'x"
  k8s :: "k8s_request \<Rightarrow> 'x \<Rightarrow> k8s_reply \<times> 'x"
  src_put :: "src_from \<Rightarrow> string \<Rightarrow> string \<Rightarrow> 'x \<Rightarrow> string option \<times> 'x"
  DropDir :: "string \<Rightarrow> string \<Rightarrow> 'x \<Rightarrow> string option \<times> 'x"
  wdog_build :: "string \<Rightarrow> string \<Rightarrow> string \<Rightarrow> 'x \<Rightarrow> (string + WdogFunctionRunResult) \<times> 'x"
  wdog_run :: "string \<Rightarrow> FunctionRun \<Rightarrow> 'x \<Rightarrow> (string + WdogFunctionRunResult) \<times> 'x"
  mw_server :: "mw_request \<Rightarrow> 'x \<Rightarrow> string option \<times> 'x"
  mw_usage :: "string \<Rightarrow> string \<Rightarrow> 'x \<Rightarrow> (string + 64 word list) \<times> 'x"
  ws_WriteMessage :: "nat \<Rightarrow> int \<Rightarrow> string \<Rightarrow> 'x \<Rightarrow> unit \<times> 'x"
  ws_Close :: "nat \<Rightarrow> 'x \<Rightarrow> unit \<times> 'x"
  s3_keygen :: "string \<Rightarrow> string \<Rightarrow> 32 word \<Rightarrow> 'x \<Rightarrow> (string + string \<times> string) \<times> 'x"
  github_user :: "string \<Rightarrow> 'x \<Rightarrow> (string + string) \<times> 'x"
  aes_nonce :: "'x \<Rightarrow> string option \<times> 'x"
  cron_AddFunc :: "string \<Rightarrow> string \<Rightarrow> (string \<times> string) list \<Rightarrow> 'x \<Rightarrow> (string + int) \<times> 'x"
  cron_Remove :: "int \<Rightarrow> 'x \<Rightarrow> unit \<times> 'x"
  s3Call :: "s3_request \<Rightarrow> 'x \<Rightarrow> string option \<times> 'x"
  amqp_Consume :: "string \<Rightarrow> 'x \<Rightarrow> string option \<times> 'x"
  amqp_Close :: "string \<Rightarrow> 'x \<Rightarrow> unit \<times> 'x"
  Cookify :: "string \<Rightarrow> string"
  GBS :: "64 word \<Rightarrow> float64"
  fsub :: "float64 \<Rightarrow> float64 \<Rightarrow> float64"
  fgt :: "float64 \<Rightarrow> float64 \<Rightarrow> bool"
  fzero :: "float64 \<Rightarrow> bool"
  dbStrict :: bool
  MaxReplicas :: "32 word"
  WdogVolume :: string
  WdogConfPort :: int
  ImgPref :: string
  DemoSources :: string
  LangDisabled :: "string \<Rightarrow> bool"
  TimeoutDef :: "64 word"
  TimeoutMax :: "64 word"
  MemoryDef :: "64 word"
  MemoryMin :: "64 word"
  MemoryMax :: "64 word"
  isLite :: bool
  WdogProxy :: "string option"
  path_match :: "string \<Rightarrow> string \<Rightarrow> bool"
  S3mq :: "string option"
  conf_WS :: "string option"
  conf_S3 :: "string option"
  conf_Maria :: "mw_conf option"
  conf_Postgres :: "mw_conf option"
  conf_Rabbit :: "mw_conf option"
  conf_Mongo :: "mw_conf option"
  Daemon_Addr :: string
  Daemon_CallGate :: string
  MwDisabled :: "string \<Rightarrow> bool"
  secretFields :: "string list"
  secretTrim :: int
  TableKeyLenMax :: int

text \<open>Who asks: the context of a request.\<close>

record gateContext =
  gx_Tenant :: string
  gx_Role :: string

definition AdminRole :: string where "AdminRole = ''swifty.admin''"
definition UserRole :: string where "UserRole = ''swifty.owner''"
definition NobodyRole :: string where "NobodyRole = ''swifty.nobody''"

definition mkContext :: gateContext where
  "mkContext = \<lparr>gx_Tenant = [], gx_Role = AdminRole\<rparr>"

section \<open>Random names\<close>

definition Letters :: string where
  "Letters = ''ABCDEFGHIJKLMNOPQRSTUVWXYZabcdefghijklmnopqrstuvwxyz0123456789''"

definition GenRandId :: "'x gate_env \<Rightarrow> nat \<Rightarrow> 'x \<Rightarrow> string option \<times> 'x" where
  "GenRandId E n x = (case rand_Read E n x of (r, x') \<Rightarrow>
     (map_option (map (\<lambda>j. Letters ! (of_char j mod length Letters))) r, x'))"

lemma GenRandId_snd [simp]: "snd (GenRandId E n x) = snd (rand_Read E n x)"
  by (simp add: GenRandId_def split: prod.splits)

section \<open>Access\<close>

definition dbMayModify :: "'x gate_env \<Rightarrow> gateContext \<Rightarrow> bool" where
  "dbMayModify E ctx \<longleftrightarrow> gx_Role ctx \<noteq> NobodyRole \<or> \<not> dbStrict E"

definition dbNotAllowed :: gdberr where "dbNotAllowed = GDbErr ''Not allowed''"

text \<open>A call to the outside that cannot fail.\<close>

definition gout :: "('x \<Rightarrow> 'a \<times> 'x) \<Rightarrow> ('x, 'e, 'a) go" where
  "gout f = (\<lambda>x. case f x of (a, x) \<Rightarrow> (Ok a, x))"

lemma wp_gout [wp_simps]: "wp (gout f) Q x = Q (Ok (fst (f x))) (snd (f x))"
  by (simp add: wp_def gout_def split: prod.splits)

definition gcall :: "'x gate_env \<Rightarrow> gdb_request \<Rightarrow> ('x, gdberr, greply) go" where
  "gcall E r = (\<lambda>x. case gsrv E r x of
     (GMissing, x) \<Rightarrow> (Err GNotFound, x) | (GDuplicate, x) \<Rightarrow> (Err GDup, x) | (GFailed e, x) \<Rightarrow> (Err (GDbErr e), x)
   | (rep, x) \<Rightarrow> (Ok rep, x))"

text \<open>A modifying request: refused without asking the server when the role does not allow it.\<close>

definition gmodify :: "'x gate_env \<Rightarrow> gateContext \<Rightarrow> gdb_request \<Rightarrow> ('x, gdberr, unit) go" where
  "gmodify E ctx r = (if dbMayModify E ctx then gbind (gcall E r) (\<lambda>_. gret ()) else gerr dbNotAllowed)"

definition has_id :: "oid \<Rightarrow> gdoc \<Rightarrow> bool" where
  "has_id i d \<longleftrightarrow> given_id d = Some i"

definition objid :: "gdoc \<Rightarrow> oid" where
  "objid d = the (given_id d)"

definition dbInsert :: "'x gate_env \<Rightarrow> gateContext \<Rightarrow> gdoc \<Rightarrow> ('x, gdberr, unit) go" where
  "dbInsert E ctx d = gmodify E ctx (GInsert d)"

definition dbRemove :: "'x gate_env \<Rightarrow> gateContext \<Rightarrow> gdoc \<Rightarrow> ('x, gdberr, unit) go" where
  "dbRemove E ctx d = gmodify E ctx (GRemove (gcoll_of d) (has_id (objid d)))"

definition dbUpdatePart2 :: "'x gate_env \<Rightarrow> gateContext \<Rightarrow> gdoc \<Rightarrow> (gdoc \<Rightarrow> bool) \<Rightarrow> (gdoc \<Rightarrow> gdoc) \<Rightarrow> ('x, gdberr, unit) go" where
  "dbUpdatePart2 E ctx d q2 u = gmodify E ctx (GUpdate (gcoll_of d) (\<lambda>d'. has_id (objid d) d' \<and> q2 d') u)"

definition dbUpdatePart :: "'x gate_env \<Rightarrow> gateContext \<Rightarrow> gdoc \<Rightarrow> (gdoc \<Rightarrow> gdoc) \<Rightarrow> ('x, gdberr, unit) go" where
  "dbUpdatePart E ctx d u = gmodify E ctx (GUpdate (gcoll_of d) (has_id (objid d)) u)"

definition dbUpdateAll :: "'x gate_env \<Rightarrow> gateContext \<Rightarrow> gdoc \<Rightarrow> ('x, gdberr, unit) go" where
  "dbUpdateAll E ctx d = gmodify E ctx (GUpdate (gcoll_of d) (has_id (objid d)) (\<lambda>_. d))"

definition dbFuncUpdate :: "'x gate_env \<Rightarrow> gateContext \<Rightarrow> (gdoc \<Rightarrow> bool) \<Rightarrow> (gdoc \<Rightarrow> gdoc) \<Rightarrow> ('x, gdberr, unit) go" where
  "dbFuncUpdate E ctx q u = gmodify E ctx (GUpdate DBColFunc q u)"

definition dbFind :: "'x gate_env \<Rightarrow> gcoll \<Rightarrow> (gdoc \<Rightarrow> bool) \<Rightarrow> ('x, gdberr, gdoc) go" where
  "dbFind E c q = gbind (gcall E (GFindOne c q)) (\<lambda>r. case r of GGot d \<Rightarrow> gret d | _ \<Rightarrow> gpanic)"

definition dbFindAll :: "'x gate_env \<Rightarrow> gcoll \<Rightarrow> (gdoc \<Rightarrow> bool) \<Rightarrow> ('x, gdberr, gdoc list) go" where
  "dbFindAll E c q = gbind (gcall E (GFindAll c q)) (\<lambda>r. case r of GMany ds \<Rightarrow> gret ds | _ \<Rightarrow> gpanic)"

definition dbCount :: "'x gate_env \<Rightarrow> gcoll \<Rightarrow> (gdoc \<Rightarrow> bool) \<Rightarrow> ('x, gdberr, nat) go" where
  "dbCount E c q = gbind (gcall E (GCount c q)) (\<lambda>r. case r of GNumber n \<Rightarrow> gret n | _ \<Rightarrow> gpanic)"

text \<open>\<open>maybe\<close>: a document that is not there is no error.\<close>

definition maybe :: "('x, gdberr, 'a) go \<Rightarrow> 'a \<Rightarrow> ('x, gdberr, 'a) go" where
  "maybe f a = gtry f (\<lambda>r. case r of Inl e \<Rightarrow> if e = GNotFound then gret a else gerr e | Inr b \<Rightarrow> gret b)"

text \<open>The field a query names, of a document that has it. Documents spell the tenant's field
  \<open>tennant\<close>; a query for a field no document has matches nothing.\<close>

definition doc_field :: "string \<Rightarrow> gdoc \<Rightarrow> string option" where
  "doc_field f d = (case d of
     GFn fn \<Rightarrow> map_of [(''tennant'', Tennant (fn_SwoId fn)), (''project'', Project (fn_SwoId fn)), (''name'', Name (fn_SwoId fn)), (''cookie'', fn_Cookie fn)] f
   | GMw m \<Rightarrow> map_of [(''tennant'', Tennant (mw_SwoId m)), (''project'', Project (mw_SwoId m)), (''name'', Name (mw_SwoId m)), (''cookie'', mw_Cookie m), (''mwaretype'', mw_MwareType m)] f
   | GEv e \<Rightarrow> map_of [(''key'', ev_Key e), (''fnid'', ev_FnId e), (''name'', ev_Name e), (''source'', ev_Source e)] f
   | GLog l \<Rightarrow> map_of [(''cookie'', log_Cookie l), (''event'', log_Event l)] f
   | GStats s \<Rightarrow> map_of [(''cookie'', fs_Cookie s)] f
   | GStatsA s \<Rightarrow> map_of [(''cookie'', fs_Cookie s)] f
   | GTen s \<Rightarrow> map_of [(''tenant'', tsd_Tenant s)] f
   | GTenA s \<Rightarrow> map_of [(''tenant'', tsd_Tenant s)] f
   | GLimits l \<Rightarrow> map_of [(''uid'', ul_UId l)] f
   | GAcc a \<Rightarrow> map_of [(''tennant'', Tennant (acc_SwoId a)), (''project'', Project (acc_SwoId a)), (''name'', Name (acc_SwoId a)), (''cookie'', acc_Cookie a), (''type'', acc_Type a)] f
   | GRt r \<Rightarrow> map_of [(''tennant'', Tennant (rd_SwoId r)), (''project'', Project (rd_SwoId r)), (''name'', Name (rd_SwoId r)), (''cookie'', rd_Cookie r)] f
   | GDep d \<Rightarrow> map_of [(''tennant'', Tennant (dd_SwoId d)), (''project'', Project (dd_SwoId d)), (''name'', Name (dd_SwoId d)), (''cookie'', dd_Cookie d)] f
   | GRepo r \<Rightarrow> map_of [(''tennant'', Tennant (rp_SwoId r)), (''project'', Project (rp_SwoId r)), (''name'', Name (rp_SwoId r)), (''type'', rp_Type r), (''pulling'', rp_Pull r)] f)"

definition where_field :: "string \<Rightarrow> string \<Rightarrow> gdoc \<Rightarrow> bool" where
  "where_field f v d \<longleftrightarrow> doc_field f d = Some v"

definition dbFuncCountTen :: "'x gate_env \<Rightarrow> gateContext \<Rightarrow> ('x, gdberr, nat) go" where
  "dbFuncCountTen E ctx = dbCount E DBColFunc (where_field ''tenant'' (gx_Tenant ctx))"

definition logSaveEvent :: "'x gate_env \<Rightarrow> gateContext \<Rightarrow> string \<Rightarrow> string \<Rightarrow> ('x, gdberr, unit) go" where
  "logSaveEvent E ctx cookie msg =
     (if dbMayModify E ctx then
        gbind (gout (gnow E)) (\<lambda>t.
        gseq (gcall E (GInsert (GLog \<lparr>log_Cookie = cookie, log_Event = ''event'', log_Time = t, log_Text = msg\<rparr>))) (gret ()))
      else gret ())"

definition logRemove :: "'x gate_env \<Rightarrow> gateContext \<Rightarrow> FunctionDesc \<Rightarrow> ('x, gdberr, unit) go" where
  "logRemove E ctx fn = maybe (gmodify E ctx (GRemoveAll DBColLogs (where_field ''cookie'' (fn_Cookie fn)))) ()"

section \<open>Laws and proof rules\<close>

text \<open>The server keeps its contract, and nothing but the database changes documents.\<close>

definition gmongo_ok :: "'x gate_env \<Rightarrow> ('x \<Rightarrow> gview) \<Rightarrow> bool" where
  "gmongo_ok E view \<longleftrightarrow>
     (\<forall>r x. gserves r (fst (gsrv E r x)) (view x) (view (snd (gsrv E r x))))
     \<and> (\<forall>x. view (snd (gnewid E x)) = view x) \<and> (\<forall>x. view (snd (gnow E x)) = view x)
     \<and> (\<forall>n x. view (snd (rand_Read E n x)) = view x) \<and> (\<forall>r x. view (snd (k8s E r x)) = view x)
     \<and> (\<forall>k d s x. view (snd (src_put E k d s x)) = view x) \<and> (\<forall>d s x. view (snd (DropDir E d s x)) = view x)
     \<and> (\<forall>l d s x. view (snd (wdog_build E l d s x)) = view x) \<and> (\<forall>u a x. view (snd (wdog_run E u a x)) = view x)
     \<and> (\<forall>m x. view (snd (mw_server E m x)) = view x) \<and> (\<forall>t n x. view (snd (mw_usage E t n x)) = view x)
     \<and> (\<forall>n m s x. view (snd (ws_WriteMessage E n m s x)) = view x) \<and> (\<forall>n x. view (snd (ws_Close E n x)) = view x)
     \<and> (\<forall>n b l x. view (snd (s3_keygen E n b l x)) = view x) \<and> (\<forall>t x. view (snd (github_user E t x)) = view x)
     \<and> (\<forall>x. view (snd (aes_nonce E x)) = view x)
     \<and> (\<forall>t f a x. view (snd (cron_AddFunc E t f a x)) = view x) \<and> (\<forall>j x. view (snd (cron_Remove E j x)) = view x)
     \<and> (\<forall>r x. view (snd (s3Call E r x)) = view x)
     \<and> (\<forall>k x. view (snd (amqp_Consume E k x)) = view x) \<and> (\<forall>k x. view (snd (amqp_Close E k x)) = view x)"

lemma gambient:
  assumes "gmongo_ok E view"
  shows "view (snd (gnewid E x)) = view x" "view (snd (gnow E x)) = view x" "view (snd (GenRandId E n x)) = view x"
    "view (snd (k8s E r x)) = view x" "view (snd (src_put E k d s x)) = view x" "view (snd (DropDir E d s x)) = view x"
    "view (snd (wdog_build E d s u x)) = view x" "view (snd (wdog_run E u a x)) = view x" "view (snd (mw_server E m x)) = view x"
    "view (snd (cron_AddFunc E d s l x)) = view x" "view (snd (cron_Remove E j x)) = view x" "view (snd (s3Call E q x)) = view x"
    "view (snd (amqp_Consume E d x)) = view x" "view (snd (amqp_Close E d x)) = view x"
    "view (snd (mw_usage E d s x)) = view x" "view (snd (ws_WriteMessage E wn j d x)) = view x" "view (snd (ws_Close E wn x)) = view x"
    "view (snd (s3_keygen E d s wl x)) = view x" "view (snd (github_user E d x)) = view x" "view (snd (aes_nonce E x)) = view x"
  using assms unfolding gmongo_ok_def by simp_all

definition gids_ok :: "gview \<Rightarrow> bool" where
  "gids_ok V \<longleftrightarrow> (\<forall>c i d. V c i = Some d \<longrightarrow> gcoll_of d = c \<and> (given_id d = None \<or> given_id d = Some i))"

named_theorems gwp \<open>proof rules of the gate's database wrappers\<close>

lemma gput_same [simp]: "gput c i d V c i = d"
  by (simp add: gput_def)

lemma gput_coll [simp]: "c' \<noteq> c \<Longrightarrow> gput c i d V c' = V c'"
  by (simp add: gput_def)

lemma gput_other: "i' \<noteq> i \<Longrightarrow> gput c i d V c i' = V c i'"
  by (simp add: gput_def)

lemma gids_ok_put: "gids_ok V \<Longrightarrow> gcoll_of d = c \<Longrightarrow> given_id d = None \<or> given_id d = Some i \<Longrightarrow> gids_ok (gput c i (Some d) V)"
  by (auto simp: gids_ok_def gput_def)

lemma gids_ok_del: "gids_ok V \<Longrightarrow> gids_ok (gput c i None V)"
  by (auto simp: gids_ok_def gput_def)

lemma gids_okD: "gids_ok V \<Longrightarrow> V c i = Some d \<Longrightarrow> gcoll_of d = c \<and> (given_id d = None \<or> given_id d = Some i)"
  by (auto simp: gids_ok_def)

lemma wp_gcall:
  assumes "gmongo_ok E view"
    and "\<And>rep x'. gserves r rep (view x) (view x') \<Longrightarrow>
      Q (case rep of GMissing \<Rightarrow> Err GNotFound | GDuplicate \<Rightarrow> Err GDup | GFailed e \<Rightarrow> Err (GDbErr e) | _ \<Rightarrow> Ok rep) x'"
  shows "wp (gcall E r) Q x"
proof -
  obtain rep x' where r: "gsrv E r x = (rep, x')" by fastforce
  have "gserves r rep (view x) (view x')" using assms(1) r unfolding gmongo_ok_def by (metis fst_conv snd_conv)
  from assms(2) [OF this] show ?thesis using r by (cases rep) (simp_all add: wp_def gcall_def)
qed

lemma wp_gmodify:
  assumes "gmongo_ok E view"
    and "\<And>x'. dbMayModify E ctx \<Longrightarrow> gserves r GDone (view x) (view x') \<Longrightarrow> Q (Ok ()) x'"
    and "\<And>x'. dbMayModify E ctx \<Longrightarrow> gserves r GMissing (view x) (view x') \<Longrightarrow> Q (Err GNotFound) x'"
    and "\<And>e x'. e \<noteq> GNotFound \<Longrightarrow> view x' = view x \<Longrightarrow> Q (Err e) x'"
    and "\<And>rep x'. gserves r rep (view x) (view x') \<Longrightarrow> rep = GDone \<or> rep = GMissing \<or> (rep = GDuplicate \<or> (\<exists>e. rep = GFailed e)) \<and> view x' = view x"
  shows "wp (gmodify E ctx r) Q x"
proof (cases "dbMayModify E ctx")
  case True
  show ?thesis
    unfolding gmodify_def using True assms(1)
    by (simp add: wp_simps) (rule wp_gcall [OF assms(1)], use assms(2-) True in \<open>fastforce simp: wp_simps split: greply.splits\<close>)
next
  case False
  then show ?thesis using assms(4) by (simp add: gmodify_def wp_simps dbNotAllowed_def)
qed

lemma wp_dbInsert [gwp]:
  assumes "gmongo_ok E view"
    and "\<And>i x'. gfresh (view x) d i \<Longrightarrow> view x' = gput (gcoll_of d) i (Some d) (view x) \<Longrightarrow> Q (Ok ()) x'"
    and "\<And>e x'. e \<noteq> GNotFound \<Longrightarrow> view x' = view x \<Longrightarrow> Q (Err e) x'"
  shows "wp (dbInsert E ctx d) Q x"
  unfolding dbInsert_def by (rule wp_gmodify [OF assms(1)]) (use assms(2-) in \<open>auto split: greply.splits\<close>)

lemma wp_dbUpdatePart2 [gwp]:
  assumes "gmongo_ok E view" and "gids_ok (view x)" and "given_id d = Some k"
    and "\<And>d' x'. view x (gcoll_of d) k = Some d' \<Longrightarrow> q2 d' \<Longrightarrow> view x' = gput (gcoll_of d) k (Some (u d')) (view x) \<Longrightarrow> Q (Ok ()) x'"
    and "\<And>x'. (\<And>d'. view x (gcoll_of d) k = Some d' \<Longrightarrow> \<not> q2 d') \<Longrightarrow> view x' = view x \<Longrightarrow> Q (Err GNotFound) x'"
    and "\<And>e x'. e \<noteq> GNotFound \<Longrightarrow> view x' = view x \<Longrightarrow> Q (Err e) x'"
  shows "wp (dbUpdatePart2 E ctx d q2 u) Q x"
proof -
  have i: "i = k" if "view x (gcoll_of d) i = Some d'" "has_id (objid d) d'" for i d'
    using gids_okD [OF assms(2) that(1)] that(2) assms(3) by (auto simp: has_id_def objid_def)
  have m: "has_id (objid d) d'" if "view x (gcoll_of d) k = Some d'" for d'
  proof -
    have "gcoll_of d' = gcoll_of d" "given_id d' = None \<or> given_id d' = Some k" using gids_okD [OF assms(2) that] by auto
    then show ?thesis using assms(3) by (cases d; cases d') (auto simp: has_id_def objid_def)
  qed
  show ?thesis
    unfolding dbUpdatePart2_def
  proof (rule wp_gmodify [OF assms(1)], goal_cases)
    case (1 x')
    then show ?case using assms(4) i by auto
  next
    case (2 x')
    then have "\<not> q2 d'" if "view x (gcoll_of d) k = Some d'" for d' using that m by (auto simp: gmatch_def)
    then show ?case using assms(5) 2 by simp
  next
    case (3 e x')
    then show ?case using assms(6) by simp
  next
    case (4 rep x')
    then show ?case by (auto split: greply.splits)
  qed
qed

lemma dbUpdatePart_2: "dbUpdatePart E ctx d u = dbUpdatePart2 E ctx d (\<lambda>_. True) u"
  by (simp add: dbUpdatePart_def dbUpdatePart2_def)

lemma dbUpdateAll_2: "dbUpdateAll E ctx d = dbUpdatePart2 E ctx d (\<lambda>_. True) (\<lambda>_. d)"
  by (simp add: dbUpdateAll_def dbUpdatePart2_def)

lemma wp_dbRemove [gwp]:
  assumes "gmongo_ok E view" and "gids_ok (view x)" and "given_id d = Some k"
    and "\<And>x'. view x (gcoll_of d) k \<noteq> None \<Longrightarrow> view x' = gput (gcoll_of d) k None (view x) \<Longrightarrow> Q (Ok ()) x'"
    and "\<And>x'. view x (gcoll_of d) k = None \<Longrightarrow> view x' = view x \<Longrightarrow> Q (Err GNotFound) x'"
    and "\<And>e x'. e \<noteq> GNotFound \<Longrightarrow> view x' = view x \<Longrightarrow> Q (Err e) x'"
  shows "wp (dbRemove E ctx d) Q x"
proof -
  have i: "i = k" if "view x (gcoll_of d) i = Some d'" "has_id (objid d) d'" for i d'
    using gids_okD [OF assms(2) that(1)] that(2) assms(3) by (auto simp: has_id_def objid_def)
  have m: "has_id (objid d) d'" if "view x (gcoll_of d) k = Some d'" for d'
  proof -
    have "gcoll_of d' = gcoll_of d" "given_id d' = None \<or> given_id d' = Some k" using gids_okD [OF assms(2) that] by auto
    then show ?thesis using assms(3) by (cases d; cases d') (auto simp: has_id_def objid_def)
  qed
  show ?thesis
    unfolding dbRemove_def
    by (rule wp_gmodify [OF assms(1)])
      (use assms(4-) i m in \<open>auto simp: gmatch_def split: greply.splits\<close>, metis option.exhaust)
qed

lemma wp_dbFind [gwp]:
  assumes "gmongo_ok E view"
    and "\<And>i d x'. view x c i = Some d \<Longrightarrow> q d \<Longrightarrow> view x' = view x \<Longrightarrow> Q (Ok d) x'"
    and "\<And>x'. gmatch (view x) c q = {} \<Longrightarrow> view x' = view x \<Longrightarrow> Q (Err GNotFound) x'"
    and "\<And>e x'. e \<noteq> GNotFound \<Longrightarrow> view x' = view x \<Longrightarrow> Q (Err e) x'"
  shows "wp (dbFind E c q) Q x"
  unfolding dbFind_def wp_simps
  by (rule wp_gcall [OF assms(1)]) (use assms(2-) in \<open>auto simp: wp_simps split: greply.splits\<close>)

lemma wp_dbFindAll [gwp]:
  assumes "gmongo_ok E view"
    and "\<And>ds x'. set ds = {d. \<exists>i. view x c i = Some d \<and> q d} \<Longrightarrow> distinct ds \<Longrightarrow> view x' = view x \<Longrightarrow> Q (Ok ds) x'"
    and "\<And>e x'. e \<noteq> GNotFound \<Longrightarrow> view x' = view x \<Longrightarrow> Q (Err e) x'"
  shows "wp (dbFindAll E c q) Q x"
  unfolding dbFindAll_def wp_simps
  by (rule wp_gcall [OF assms(1)]) (use assms(2-) in \<open>auto simp: wp_simps split: greply.splits\<close>)

lemma wp_dbCount [gwp]:
  assumes "gmongo_ok E view"
    and "\<And>x'. view x' = view x \<Longrightarrow> Q (Ok (card (gmatch (view x) c q))) x'"
    and "\<And>e x'. e \<noteq> GNotFound \<Longrightarrow> view x' = view x \<Longrightarrow> Q (Err e) x'"
  shows "wp (dbCount E c q) Q x"
  unfolding dbCount_def wp_simps
  by (rule wp_gcall [OF assms(1)]) (use assms(2-) in \<open>auto simp: wp_simps split: greply.splits\<close>)

lemma wp_logRemove [gwp]:
  assumes "gmongo_ok E view"
    and "\<And>x'. view x' = (view x)(DBColLogs := (\<lambda>i. if i \<in> gmatch (view x) DBColLogs (where_field ''cookie'' (fn_Cookie fn)) then None
      else view x DBColLogs i)) \<Longrightarrow> Q (Ok ()) x'"
    and "\<And>e x'. e \<noteq> GNotFound \<Longrightarrow> view x' = view x \<Longrightarrow> Q (Err e) x'"
  shows "wp (logRemove E ctx fn) Q x"
  unfolding logRemove_def maybe_def wp_simps
  by (rule wp_gmodify [OF assms(1)]) (use assms(2-) in \<open>auto simp: wp_simps split: greply.splits\<close>)

lemma wp_logSaveEvent [gwp]:
  assumes "gmongo_ok E view"
    and "\<And>x'. (\<And>c. c \<noteq> DBColLogs \<Longrightarrow> view x' c = view x c) \<Longrightarrow> gids_ok (view x) \<longrightarrow> gids_ok (view x') \<Longrightarrow> Q (Ok ()) x'"
  shows "wp (logSaveEvent E ctx cookie msg) Q x"
proof -
  obtain t x1 where t: "gnow E x = (t, x1)" by fastforce
  have v: "view x1 = view x" using assms(1) t unfolding gmongo_ok_def by (metis snd_conv)
  have "wp (gcall E (GInsert (GLog \<lparr>log_Cookie = cookie, log_Event = ''event'', log_Time = t, log_Text = msg\<rparr>)))
    (on_any (\<lambda>_. wp (gret ()) Q) Q) x1"
  proof (rule wp_gcall [OF assms(1)], goal_cases)
    case (1 rep x')
    then have "\<forall>c. c \<noteq> DBColLogs \<longrightarrow> view x' c = view x c" "gids_ok (view x) \<longrightarrow> gids_ok (view x')"
      using v by (auto split: greply.splits intro!: gids_ok_put)
    then have "Q (Ok ()) x'" using assms(2) by blast
    then show ?case by (cases rep) (simp_all add: wp_simps)
  qed
  then show ?thesis using t assms(2) by (simp add: logSaveEvent_def wp_simps)
qed

end
