(* ===== verification/Gate_Mem.thy ===== *)
theory Gate_Mem
  imports Gate_DB Crypt
begin

text \<open>
  What the gate keeps in memory of functions and tenants: \<open>src/gate/fdmdat.go\<close>, the statistics of
  \<open>src/gate/stats.go\<close>, and the keys of authentication middleware (\<open>src/gate/mw-auth.go\<close>, \<open>authCtxGet\<close>).
  The limits of packages, repositories and S3 that \<open>setupLimits\<close> also copies are not kept here.
\<close>

section \<open>State\<close>

text \<open>The counters with what of them is known to be in the database, and the flags of the flusher.\<close>

record FnStats =
  fst_Values :: FnStatValues
  fst_onDisk :: FnStatValues
  fst_dirty :: bool
  fst_closed :: bool

record TenStats =
  tst_Values :: TenStatValues
  tst_onDisk :: TenStatValues
  tst_dirty :: bool

record FnMemData =
  md_mem :: "64 word"
  md_depname :: string
  md_fnid :: string
  md_ac :: "string option"
  md_bd :: BalancerDat
  md_crl :: "RL option"
  md_tenant :: string
  md_stats :: FnStats
  md_id :: SwoId

record TenantMemData =
  td_crl :: "RL option"
  td_stats :: TenStats
  td_fnlim :: "64 word"
  td_GBS_l :: float64
  td_GBS_o :: float64
  td_BOut_l :: "64 word"
  td_BOut_o :: "64 word"
  td_mwl :: "(string \<times> 32 word) list"
  td_repl :: "32 word option"

text \<open>A cached URL: of a function, with the function whose memory data it holds, if it was found; or of a
  router, with its table by path.\<close>

record rt_entry =
  re_cookie :: string
  re_ac :: "string option"
  re_methods :: "32 word"
  re_key :: string

datatype URL = FnURL "string option" | RouterURL "string \<Rightarrow> rt_entry option"

text \<open>The open websockets of a middleware, by connection id; the library's connections are numbers here.\<close>

record wsConnMap =
  wcs_cons :: "(string \<times> nat) list"
  wcs_rover :: int

text \<open>
  The maps of the gate: memory data of functions and tenants, the pods, the cached URLs, the consumers of
  message queues with their users, the open websockets, and the rate limit of the whole gate. The rest is outside.
\<close>

record 'x gst =
  fdmd :: "string \<Rightarrow> FnMemData option"
  tdat :: "string \<Rightarrow> TenantMemData option"
  podst :: podstore
  urls :: "string \<Rightarrow> URL option"
  consumers :: "string \<Rightarrow> nat option"
  wsConns :: "string \<Rightarrow> wsConnMap option"
  gate_rl :: "RL option"
  outer :: 'x

definition liftx :: "('x, 'e, 'a) go \<Rightarrow> ('x gst, 'e, 'a) go" where
  "liftx f = (\<lambda>w. case f (outer w) of (r, x) \<Rightarrow> (r, w\<lparr>outer := x\<rparr>))"

lemma wp_liftx [wp_simps]: "wp (liftx f) Q w = wp f (\<lambda>r x. Q r (w\<lparr>outer := x\<rparr>)) (outer w)"
  by (simp add: wp_def liftx_def split: prod.splits)

definition gmod :: "('w \<Rightarrow> 'w) \<Rightarrow> ('w, 'e, unit) go" where
  "gmod f = (\<lambda>w. (Ok (), f w))"

lemma wp_gmod [wp_simps]: "wp (gmod f) Q w = Q (Ok ()) (f w)"
  by (simp add: wp_def gmod_def)

definition zero_FnStatValues :: FnStatValues where
  "zero_FnStatValues = \<lparr>Called = 0, Timeouts = 0, Errors = 0, LastCall = 0, RunTime = 0, BytesIn = 0, BytesOut = 0, RunCost = 0\<rparr>"

definition zero_TenStatValues :: TenStatValues where
  "zero_TenStatValues = \<lparr>ts_Called = 0, ts_RunCost = 0, ts_BytesIn = 0, ts_BytesOut = 0\<rparr>"

section \<open>Tenants\<close>

text \<open>\<open>Sort("-till").Limit(1)\<close> over the archived statistics of a tenant.\<close>

definition till_key :: "gdoc \<Rightarrow> int" where
  "till_key d = (case d of GTenA s \<Rightarrow> (case tsd_Till s of None \<Rightarrow> 0 | Some t \<Rightarrow> t) | _ \<Rightarrow> 0)"

definition dbTenStatsGetLatestArch :: "'x gate_env \<Rightarrow> string \<Rightarrow> ('x, gdberr, TenStatValues) go" where
  "dbTenStatsGetLatestArch E tenant =
     gbind (dbFindAll E DBColTenStatsA (where_field ''tenant'' tenant)) (\<lambda>ds.
     gret (case rev (sort_key till_key ds) of GTenA s # _ \<Rightarrow> tsd_Values s | _ \<Rightarrow> zero_TenStatValues))"

definition dbTenStatsGet :: "'x gate_env \<Rightarrow> string \<Rightarrow> ('x, gdberr, TenStatValues) go" where
  "dbTenStatsGet E tenant =
     maybe (gbind (dbFind E DBColTenStats (where_field ''tenant'' tenant)) (\<lambda>d.
       gret (case d of GTen s \<Rightarrow> tsd_Values s | _ \<Rightarrow> zero_TenStatValues))) zero_TenStatValues"

definition dbTenantGetLimits :: "'x gate_env \<Rightarrow> string \<Rightarrow> ('x, gdberr, UserLimits) go" where
  "dbTenantGetLimits E tenant =
     maybe (gbind (dbFind E DBColLimits (where_field ''uid'' tenant)) (\<lambda>d.
       gret (case d of GLimits l \<Rightarrow> l | _ \<Rightarrow> \<lparr>ul_UId = [], ul_Fn = None, ul_Mware = [], ul_Repo = None\<rparr>))) \<lparr>ul_UId = [], ul_Fn = None, ul_Mware = [], ul_Repo = None\<rparr>"

definition setupLimits :: "'x gate_env \<Rightarrow> int \<Rightarrow> UserLimits \<Rightarrow> TenStatValues \<Rightarrow> TenantMemData \<Rightarrow> TenantMemData" where
  "setupLimits E now ul off td =
     (let td = (case ul_Fn ul of None \<Rightarrow> td | Some f \<Rightarrow>
        td\<lparr>td_fnlim := fl_Max f, td_GBS_l := fl_GBS f, td_GBS_o := GBS E (ts_RunCost off),
           td_BOut_l := fl_BytesOut f, td_BOut_o := ts_BytesOut off\<rparr>)
      in td\<lparr>td_crl := (case ul_Fn ul of None \<Rightarrow> None | Some f \<Rightarrow>
           if fl_Rate f = 0 then None
           else case td_crl td of None \<Rightarrow> Some (MakeRL (fl_Burst f) (fl_Rate f) now)
                | Some r \<Rightarrow> Some (Update (fl_Burst f) (fl_Rate f) now r)), td_mwl := ul_Mware ul, td_repl := ul_Repo ul\<rparr>)"

definition zero_TenantMemData :: "TenStatValues \<Rightarrow> TenantMemData" where
  "zero_TenantMemData st = \<lparr>td_crl = None, td_stats = \<lparr>tst_Values = st, tst_onDisk = st, tst_dirty = False\<rparr>,
     td_fnlim = 0, td_GBS_l = 0, td_GBS_o = 0, td_BOut_l = 0, td_BOut_o = 0, td_mwl = [], td_repl = None\<rparr>"

definition tendatGetOrInit :: "'x gate_env \<Rightarrow> string \<Rightarrow> ('x gst, gdberr, TenantMemData) go" where
  "tendatGetOrInit E tenant =
     gbind (gget (\<lambda>w. tdat w tenant)) (\<lambda>r. case r of Some td \<Rightarrow> gret td | None \<Rightarrow>
     gbind (liftx (dbTenStatsGet E tenant)) (\<lambda>st.
     gbind (liftx (dbTenantGetLimits E tenant)) (\<lambda>ul.
     gbind (liftx (dbTenStatsGetLatestArch E tenant)) (\<lambda>off.
     gbind (liftx (gout (gnow E))) (\<lambda>now.
     let td = setupLimits E now ul off (zero_TenantMemData st)
     in gbind (gmod (\<lambda>w. w\<lparr>tdat := (tdat w)(tenant := Some td)\<rparr>)) (\<lambda>_. gret td))))))"

section \<open>Functions\<close>

definition k8sId :: "FunctionDesc \<Rightarrow> string" where
  "k8sId fn = take 32 (fn_Cookie fn)"

definition fn_DepName :: "FunctionDesc \<Rightarrow> string" where
  "fn_DepName fn = ''swd-'' @ k8sId fn"

definition fn_stats :: "'x gate_env \<Rightarrow> string \<Rightarrow> ('x, gdberr, FnStatValues) go" where
  "fn_stats E cookie =
     maybe (gbind (dbFind E DBColFnStats (where_field ''cookie'' cookie)) (\<lambda>d.
       gret (case d of GStats s \<Rightarrow> fs_Values s | _ \<Rightarrow> zero_FnStatValues))) zero_FnStatValues"

definition DBMwareStateRdy :: int where "DBMwareStateRdy = 2"

text \<open>The signing key of an authentication middleware, with the gate's cipher and password.\<close>

definition authCtxGet :: "'x gate_env \<Rightarrow> cfb \<Rightarrow> string \<Rightarrow> SwoId \<Rightarrow> string \<Rightarrow> ('x, gdberr, string) go" where
  "authCtxGet E C pas i ac =
     gbind (dbFind E DBColMware (where_field ''cookie'' (Cookie (Cookify E) (i\<lparr>Name := ac\<rparr>)))) (\<lambda>d.
       let item = as_Mw d
       in if mw_State item \<noteq> DBMwareStateRdy then gerr (GDbErr ''Mware not ready'')
          else if mw_MwareType item = ''authjwt'' then
            (case DecryptString C pas (mw_Secret item) of
               Ok key \<Rightarrow> gret key | Err _ \<Rightarrow> gerr (GDbErr ''Mware secret'') | Panic \<Rightarrow> gpanic)
          else gerr (GDbErr (''BUG: Not an auth mware '' @ mw_MwareType item)))"

definition fresh_bd :: BalancerDat where
  "fresh_bd = \<lparr>rover0 = 0, rover1 = 0, pods = [], goal = 0, wakeup = False\<rparr>"

definition new_memdata :: "FunctionDesc \<Rightarrow> FnStatValues \<Rightarrow> string option \<Rightarrow> int \<Rightarrow> FnMemData" where
  "new_memdata fn st ac now = \<lparr>md_mem = Mem (fn_Size fn), md_depname = fn_DepName fn, md_fnid = fn_Cookie fn, md_ac = ac,
     md_bd = fresh_bd,
     md_crl = (if Rate (fn_Size fn) = 0 then None else Some (MakeRL (Burst (fn_Size fn)) (Rate (fn_Size fn)) now)),
     md_tenant = Tennant (fn_SwoId fn),
     md_stats = \<lparr>fst_Values = st, fst_onDisk = st, fst_dirty = False, fst_closed = False\<rparr>,
     md_id = fn_SwoId fn\<rparr>"

text \<open>\<open>fndatGetOrInit\<close> for a known function descriptor.\<close>

definition fndat_init :: "'x gate_env \<Rightarrow> cfb \<Rightarrow> string \<Rightarrow> FunctionDesc \<Rightarrow> bool \<Rightarrow> ('x gst, gdberr, FnMemData) go" where
  "fndat_init E C pas fn forRemoval =
     gbind (liftx (fn_stats E (fn_Cookie fn))) (\<lambda>st.
     gbind (tendatGetOrInit E (Tennant (fn_SwoId fn))) (\<lambda>_.
     gbind (liftx (gout (gnow E))) (\<lambda>now.
     gbind (if fn_AuthCtx fn \<noteq> [] \<and> \<not> forRemoval
            then gbind (liftx (authCtxGet E C pas (fn_SwoId fn) (fn_AuthCtx fn))) (\<lambda>k. gret (Some k))
            else gret None) (\<lambda>ac.
     let md = new_memdata fn st ac now
     in gbind (gmod (\<lambda>w. w\<lparr>fdmd := (fdmd w)(fn_Cookie fn := Some md)\<rparr>)) (\<lambda>_. gret md)))))"

text \<open>A function that is not in the database has no memory data and is no error.\<close>

definition fndatGetOrInit :: "'x gate_env \<Rightarrow> cfb \<Rightarrow> string \<Rightarrow> string \<Rightarrow> FunctionDesc option \<Rightarrow> bool \<Rightarrow> ('x gst, gdberr, FnMemData option) go" where
  "fndatGetOrInit E C pas cookie fn forRemoval =
     gbind (gget (\<lambda>w. fdmd w cookie)) (\<lambda>r. case r of Some md \<Rightarrow> gret (Some md) | None \<Rightarrow>
       case fn of
         Some f \<Rightarrow> gbind (fndat_init E C pas f forRemoval) (\<lambda>md. gret (Some md))
       | None \<Rightarrow> gtry (liftx (dbFind E DBColFunc (where_field ''cookie'' cookie))) (\<lambda>r. case r of
           Inl e \<Rightarrow> if e = GNotFound then gret None else gerr e
         | Inr d \<Rightarrow> gbind (fndat_init E C pas (as_Fn d) forRemoval) (\<lambda>md. gret (Some md))))"

definition memdGetFnForRemoval :: "'x gate_env \<Rightarrow> cfb \<Rightarrow> string \<Rightarrow> FunctionDesc \<Rightarrow> ('x gst, gdberr, FnMemData option) go" where
  "memdGetFnForRemoval E C pas fn = fndatGetOrInit E C pas (fn_Cookie fn) (Some fn) True"

definition memdGetFn :: "'x gate_env \<Rightarrow> cfb \<Rightarrow> string \<Rightarrow> FunctionDesc \<Rightarrow> ('x gst, gdberr, FnMemData option) go" where
  "memdGetFn E C pas fn = fndatGetOrInit E C pas (fn_Cookie fn) (Some fn) False"

definition memdGet :: "'x gate_env \<Rightarrow> cfb \<Rightarrow> string \<Rightarrow> string \<Rightarrow> ('x gst, gdberr, FnMemData option) go" where
  "memdGet E C pas cookie = fndatGetOrInit E C pas cookie None False"

definition memdGone :: "FunctionDesc \<Rightarrow> ('x gst, 'e, unit) go" where
  "memdGone fn = gmod (\<lambda>w. w\<lparr>fdmd := (fdmd w)(fn_Cookie fn := None)\<rparr>)"

definition rslimited :: "'x gate_env \<Rightarrow> TenantMemData \<Rightarrow> bool" where
  "rslimited E td \<longleftrightarrow>
     \<not> fzero E (td_GBS_l td) \<and> fgt E (fsub E (GBS E (ts_RunCost (tst_Values (td_stats td)))) (td_GBS_o td)) (td_GBS_l td)
     \<or> td_BOut_l td \<noteq> 0 \<and> ts_BytesOut (tst_Values (td_stats td)) - td_BOut_o td > td_BOut_l td"

section \<open>Statistics\<close>


record statsOpaque =
  op_ts :: int
  op_argsSz :: "64 word"
  op_bodySz :: "64 word"

definition StatusTimeoutOccurred :: int where "StatusTimeoutOccurred = 524"

text \<open>Nanoseconds, 64 bits wide.\<close>

definition FnTime :: "WdogFunctionRunResult \<Rightarrow> 64 word" where
  "FnTime r = res_Time r * 1000"

definition stats_call :: "FnMemData \<Rightarrow> statsOpaque \<Rightarrow> WdogFunctionRunResult \<Rightarrow> FnStatValues \<Rightarrow> FnStatValues" where
  "stats_call md oq r v = v\<lparr>Called := Called v + 1,
     Timeouts := Timeouts v + of_bool (res_Code r = - StatusTimeoutOccurred),
     Errors := Errors v + of_bool (res_Code r < 0 \<and> res_Code r \<noteq> - StatusTimeoutOccurred),
     LastCall := op_ts oq, RunTime := RunTime v + FnTime r,
     BytesIn := BytesIn v + (op_argsSz oq + op_bodySz oq), BytesOut := BytesOut v + of_nat (length (res_Return r)),
     RunCost := RunCost v + FnTime r * md_mem md\<rparr>"

definition stats_tenant :: "FnMemData \<Rightarrow> statsOpaque \<Rightarrow> WdogFunctionRunResult \<Rightarrow> TenStatValues \<Rightarrow> TenStatValues" where
  "stats_tenant md oq r v = v\<lparr>ts_Called := ts_Called v + 1, ts_RunCost := ts_RunCost v + FnTime r * md_mem md,
     ts_BytesIn := ts_BytesIn v + (op_argsSz oq + op_bodySz oq), ts_BytesOut := ts_BytesOut v + of_nat (length (res_Return r))\<rparr>"

definition statsUpdate :: "string \<Rightarrow> statsOpaque \<Rightarrow> WdogFunctionRunResult \<Rightarrow> 'x gst \<Rightarrow> 'x gst" where
  "statsUpdate cookie oq r w = (case fdmd w cookie of None \<Rightarrow> w | Some md \<Rightarrow>
     let w = w\<lparr>fdmd := (fdmd w)(cookie := Some (md\<lparr>md_stats := (md_stats md)\<lparr>
           fst_Values := stats_call md oq r (fst_Values (md_stats md)), fst_dirty := True\<rparr>\<rparr>))\<rparr>
     in case tdat w (md_tenant md) of None \<Rightarrow> w | Some td \<Rightarrow>
       w\<lparr>tdat := (tdat w)(md_tenant md := Some (td\<lparr>td_stats := (td_stats td)\<lparr>
           tst_Values := stats_tenant md oq r (tst_Values (td_stats td)), tst_dirty := True\<rparr>\<rparr>))\<rparr>)"

text \<open>The deltas a flush sends, and what \<open>$inc\<close> and \<open>$max\<close> make of the stored document.\<close>

definition minus_vals :: "FnStatValues \<Rightarrow> FnStatValues \<Rightarrow> FnStatValues" where
  "minus_vals a b = \<lparr>Called = Called a - Called b, Timeouts = Timeouts a - Timeouts b, Errors = Errors a - Errors b,
     LastCall = 0, RunTime = RunTime a - RunTime b, BytesIn = BytesIn a - BytesIn b, BytesOut = BytesOut a - BytesOut b,
     RunCost = RunCost a - RunCost b\<rparr>"

definition inc_vals :: "FnStatValues \<Rightarrow> int \<Rightarrow> FnStatValues \<Rightarrow> FnStatValues" where
  "inc_vals d lastCall v = \<lparr>Called = Called v + Called d, Timeouts = Timeouts v + Timeouts d, Errors = Errors v + Errors d,
     LastCall = max (LastCall v) lastCall, RunTime = RunTime v + RunTime d, BytesIn = BytesIn v + BytesIn d,
     BytesOut = BytesOut v + BytesOut d, RunCost = RunCost v + RunCost d\<rparr>"

definition inc_stats_doc :: "FnStatValues \<Rightarrow> int \<Rightarrow> gdoc \<Rightarrow> gdoc" where
  "inc_stats_doc d lastCall doc = (case doc of GStats s \<Rightarrow> GStats (s\<lparr>fs_Values := inc_vals d lastCall (fs_Values s)\<rparr>) | _ \<Rightarrow> doc)"

definition dbFnStatsUpdate :: "'x gate_env \<Rightarrow> gateContext \<Rightarrow> string \<Rightarrow> FnStatValues \<Rightarrow> int \<Rightarrow> ('x, gdberr, unit) go" where
  "dbFnStatsUpdate E ctx cookie delta lastCall =
     gmodify E ctx (GUpsert DBColFnStats (where_field ''cookie'' cookie) (inc_stats_doc delta lastCall)
       (GStats \<lparr>fs_Cookie = cookie, fs_Values = (inc_vals delta lastCall zero_FnStatValues)\<lparr>LastCall := lastCall\<rparr>,
                fs_Dropped = None, fs_Till = None\<rparr>))"

definition FnStats_Write :: "'x gate_env \<Rightarrow> gateContext \<Rightarrow> string \<Rightarrow> ('x gst, gdberr, unit) go" where
  "FnStats_Write E ctx cookie =
     gbind (gget (\<lambda>w. fdmd w cookie)) (\<lambda>r. case r of None \<Rightarrow> gpanic | Some md \<Rightarrow>
       let now = fst_Values (md_stats md)
       in gbind (liftx (dbFnStatsUpdate E ctx cookie (minus_vals now (fst_onDisk (md_stats md))) (LastCall now))) (\<lambda>_.
          gmod (\<lambda>w. w\<lparr>fdmd := (fdmd w)(cookie := map_option (\<lambda>md. md\<lparr>md_stats := (md_stats md)\<lparr>fst_onDisk := now\<rparr>\<rparr>) (fdmd w cookie))\<rparr>)))"

text \<open>\<open>dbFnStatsDrop\<close>: the counters of a function that was called go to the archive.\<close>

definition dbFnStatsDrop :: "'x gate_env \<Rightarrow> gateContext \<Rightarrow> string \<Rightarrow> FnStatValues \<Rightarrow> ('x, gdberr, unit) go" where
  "dbFnStatsDrop E ctx cookie st =
     (if \<not> dbMayModify E ctx then gerr dbNotAllowed
      else gbind (if Called st \<noteq> 0
                  then gbind (gout (gnow E)) (\<lambda>n. gbind (gcall E (GInsert (GStatsA
                         \<lparr>fs_Cookie = cookie, fs_Values = st, fs_Dropped = Some n, fs_Till = Some n\<rparr>))) (\<lambda>_. gret ()))
                  else gret ()) (\<lambda>_.
           maybe (gbind (gcall E (GRemove DBColFnStats (where_field ''cookie'' cookie))) (\<lambda>_. gret ())) ()))"

definition statsDrop :: "'x gate_env \<Rightarrow> cfb \<Rightarrow> string \<Rightarrow> gateContext \<Rightarrow> FunctionDesc \<Rightarrow> ('x gst, gdberr, unit) go" where
  "statsDrop E C pas ctx fn =
     gbind (memdGetFnForRemoval E C pas fn) (\<lambda>r. case r of None \<Rightarrow> gpanic | Some md \<Rightarrow>
     gbind (gmod (\<lambda>w. w\<lparr>fdmd := (fdmd w)(fn_Cookie fn := map_option (\<lambda>md. md\<lparr>md_stats := (md_stats md)\<lparr>fst_closed := True\<rparr>\<rparr>)
              (fdmd w (fn_Cookie fn)))\<rparr>)) (\<lambda>_.
     liftx (dbFnStatsDrop E ctx (fn_Cookie fn) (fst_Values (md_stats md)))))"

section \<open>A flush loses nothing\<close>

text \<open>The stored counters of a function, zero when there is no document.\<close>

definition stored_vals :: "gview \<Rightarrow> string \<Rightarrow> FnStatValues \<Rightarrow> bool" where
  "stored_vals V cookie v \<longleftrightarrow>
     (if gmatch V DBColFnStats (where_field ''cookie'' cookie) = {} then v\<lparr>LastCall := 0\<rparr> = zero_FnStatValues
      else \<exists>i s. gmatch V DBColFnStats (where_field ''cookie'' cookie) = {i} \<and> V DBColFnStats i = Some (GStats s)
           \<and> (fs_Values s)\<lparr>LastCall := 0\<rparr> = v\<lparr>LastCall := 0\<rparr>)"

lemma inc_minus: "(inc_vals (minus_vals now old) l s)\<lparr>LastCall := 0\<rparr> = now\<lparr>LastCall := 0\<rparr>" if "s\<lparr>LastCall := 0\<rparr> = old\<lparr>LastCall := 0\<rparr>"
  using that by (cases s; cases old; cases now) (simp add: inc_vals_def minus_vals_def)

lemma gmatch_put: "gmatch (gput c i (Some d) V) c q = (if q d then insert i (gmatch V c q) else gmatch V c q - {i})"
  by (auto simp: gmatch_def gput_def)

lemma stored_after_flush:
  assumes "gids_ok V" and "stored_vals V cookie old"
    and "gserves (GUpsert DBColFnStats (where_field ''cookie'' cookie) (inc_stats_doc (minus_vals now old) l)
       (GStats \<lparr>fs_Cookie = cookie, fs_Values = (inc_vals (minus_vals now old) l zero_FnStatValues)\<lparr>LastCall := l\<rparr>,
                fs_Dropped = None, fs_Till = None\<rparr>)) GDone V V'"
  shows "stored_vals V' cookie now"
proof -
  let ?q = "where_field ''cookie'' cookie"
  let ?n = "GStats \<lparr>fs_Cookie = cookie, fs_Values = (inc_vals (minus_vals now old) l zero_FnStatValues)\<lparr>LastCall := l\<rparr>,
                fs_Dropped = None, fs_Till = None\<rparr>"
  have qn: "?q ?n" by (simp add: where_field_def doc_field_def)
  consider (upd) i d where "V DBColFnStats i = Some d" "?q d" "V' = gput DBColFnStats i (Some (inc_stats_doc (minus_vals now old) l d)) V"
    | (ins) i where "gmatch V DBColFnStats ?q = {}" "V' = gput DBColFnStats i (Some ?n) V"
    using assms(3) by auto
  then show ?thesis
  proof cases
    case (upd i d)
    then have m: "i \<in> gmatch V DBColFnStats ?q" by (auto simp: gmatch_def)
    then obtain s where s: "gmatch V DBColFnStats ?q = {i}" "d = GStats s" "(fs_Values s)\<lparr>LastCall := 0\<rparr> = old\<lparr>LastCall := 0\<rparr>"
      using assms(2) upd(1) by (auto simp: stored_vals_def split: if_splits)
    have "?q (inc_stats_doc (minus_vals now old) l d)" using upd(2) s(2) by (simp add: inc_stats_doc_def where_field_def doc_field_def)
    then have "gmatch V' DBColFnStats ?q = {i}" using upd(3) s(1) by (simp add: gmatch_put)
    then show ?thesis using upd(3) s by (simp add: stored_vals_def inc_stats_doc_def inc_minus)
  next
    case (ins i)
    have z: "zero_FnStatValues\<lparr>LastCall := 0\<rparr> = old\<lparr>LastCall := 0\<rparr>"
      using assms(2) ins(1) by (simp add: stored_vals_def zero_FnStatValues_def)
    have "gmatch V' DBColFnStats ?q = {i}" using ins qn by (simp add: gmatch_put)
    then show ?thesis using ins(2) inc_minus [OF z] by (simp add: stored_vals_def)
  qed
qed

text \<open>
  C18. Flushing statistics loses and duplicates nothing: if what is stored of a function is what its memory
  data remembers as flushed, then a flush that succeeds stores exactly the counters in memory, and
  one that fails leaves the difference to the next flush. Counters are 64 bits wide and may wrap around.
\<close>

theorem flush_exact:
  assumes "gmongo_ok E view" and "gids_ok (view (outer w))" and "fdmd w cookie = Some md"
    and "stored_vals (view (outer w)) cookie (fst_onDisk (md_stats md))"
    and "FnStats_Write E ctx cookie w = (r, w')"
  shows "\<exists>md'. fdmd w' cookie = Some md' \<and> fst_Values (md_stats md') = fst_Values (md_stats md)
    \<and> stored_vals (view (outer w')) cookie (fst_onDisk (md_stats md'))
    \<and> (r = Ok () \<longrightarrow> fst_onDisk (md_stats md') = fst_Values (md_stats md))"
proof -
  let ?Q = "\<lambda>r w'. \<exists>md'. fdmd w' cookie = Some md' \<and> fst_Values (md_stats md') = fst_Values (md_stats md)
    \<and> stored_vals (view (outer w')) cookie (fst_onDisk (md_stats md'))
    \<and> (r = Ok () \<longrightarrow> fst_onDisk (md_stats md') = fst_Values (md_stats md))"
  have "wp (FnStats_Write E ctx cookie) ?Q w"
    unfolding FnStats_Write_def dbFnStatsUpdate_def wp_simps using assms(3)
    apply (simp add: wp_simps Let_def)
    apply (rule wp_gmodify [OF assms(1)])
       apply (use assms(3,4) stored_after_flush [OF assms(2,4)] in \<open>auto simp: wp_simps split: greply.splits\<close>)
    done
  from wpD [OF this assms(5)] show ?thesis .
qed

section \<open>Reading memory data changes no document\<close>

definition reads :: "('x \<Rightarrow> gview) \<Rightarrow> ('x, 'e, 'a) go \<Rightarrow> bool" where
  "reads view f \<longleftrightarrow> (\<forall>x r x'. f x = (r, x') \<longrightarrow> view x' = view x \<and> r \<noteq> Panic)"

lemma readsD: "reads view f \<Longrightarrow> f x = (r, x') \<Longrightarrow> view x' = view x \<and> r \<noteq> Panic"
  by (auto simp: reads_def)

lemma reads_gret: "reads view (gret a)" "reads view (gerr e)"
  by (auto simp: reads_def go_simps)

lemma reads_gbind:
  assumes "reads view f" and "\<And>a. reads view (k a)"
  shows "reads view (gbind f k)"
  unfolding reads_def
proof (intro allI impI)
  fix x r x'
  assume run: "gbind f k x = (r, x')"
  obtain r1 x1 where f: "f x = (r1, x1)" by fastforce
  show "view x' = view x \<and> r \<noteq> Panic"
    using readsD [OF assms(1) f] readsD [OF assms(2), of _ x1 r x'] run f by (cases r1) (auto simp: gbind_def)
qed

lemma reads_maybe:
  assumes "reads view f"
  shows "reads view (maybe f a)"
  unfolding reads_def
proof (intro allI impI)
  fix x r x'
  assume run: "maybe f a x = (r, x')"
  obtain r1 x1 where f: "f x = (r1, x1)" by fastforce
  show "view x' = view x \<and> r \<noteq> Panic"
    using readsD [OF assms f] run f by (cases r1) (auto simp: maybe_def go_simps split: if_splits)
qed

lemma reads_wp: "(\<And>x. wp f (\<lambda>r x'. view x' = view x \<and> r \<noteq> Panic) x) \<Longrightarrow> reads view f"
  unfolding reads_def using wpD by fastforce

lemma reads_dbFind: "gmongo_ok E view \<Longrightarrow> reads view (dbFind E c q)"
  by (rule reads_wp) (rule wp_dbFind, simp_all)

lemma reads_dbFindAll: "gmongo_ok E view \<Longrightarrow> reads view (dbFindAll E c q)"
  by (rule reads_wp) (rule wp_dbFindAll, simp_all)

lemma reads_docs:
  assumes "gmongo_ok E view"
  shows "reads view (dbTenStatsGet E t)" "reads view (dbTenantGetLimits E t)" "reads view (dbTenStatsGetLatestArch E t)" "reads view (fn_stats E c)"
  unfolding dbTenStatsGet_def dbTenantGetLimits_def dbTenStatsGetLatestArch_def fn_stats_def
  by (intro reads_maybe reads_gbind reads_dbFind [OF assms] reads_dbFindAll [OF assms] reads_gret)+

lemma wp_reads:
  assumes "reads view f" and "\<And>a x'. view x' = view x \<Longrightarrow> Q (Ok a) x'" and "\<And>e x'. view x' = view x \<Longrightarrow> Q (Err e) x'"
  shows "wp f Q x"
proof (rule wpI)
  fix r x'
  assume "f x = (r, x')"
  from readsD [OF assms(1) this] show "Q r x'" using assms(2,3) by (cases r) auto
qed

lemma wp_tendatGetOrInit:
  assumes "gmongo_ok E view"
    and "\<And>td w'. view (outer w') = view (outer w) \<Longrightarrow> fdmd w' = fdmd w \<Longrightarrow> podst w' = podst w \<Longrightarrow> Q (Ok td) w'"
    and "\<And>e w'. view (outer w') = view (outer w) \<Longrightarrow> fdmd w' = fdmd w \<Longrightarrow> podst w' = podst w \<Longrightarrow> Q (Err e) w'"
  shows "wp (tendatGetOrInit E t) Q w"
proof (cases "tdat w t")
  case (Some td)
  then show ?thesis using assms(2) by (simp add: tendatGetOrInit_def wp_simps)
next
  case None
  show ?thesis
    unfolding tendatGetOrInit_def wp_simps None option.case on_ok_simps Let_def
    by (auto intro!: reads_docs [OF assms(1), THEN wp_reads] assms(2,3) simp: gambient [OF assms(1)])
qed

text \<open>Memory data for a removal: what is there, or freshly made; the keys of authentication are not needed.\<close>

lemma wp_memdGetFnForRemoval:
  assumes "gmongo_ok E view"
    and "\<And>md w'. view (outer w') = view (outer w) \<Longrightarrow> fdmd w' = (fdmd w)(fn_Cookie fn := Some md) \<Longrightarrow>
      (\<And>md0. fdmd w (fn_Cookie fn) = Some md0 \<Longrightarrow> md = md0) \<Longrightarrow> Q (Ok (Some md)) w'"
    and "\<And>e w'. view (outer w') = view (outer w) \<Longrightarrow> fdmd w' = fdmd w \<Longrightarrow> Q (Err e) w'"
  shows "wp (memdGetFnForRemoval E C pas fn) Q w"
proof (cases "fdmd w (fn_Cookie fn)")
  case (Some md)
  then have "fdmd w = (fdmd w)(fn_Cookie fn := Some md)" by auto
  then show ?thesis using assms(2) Some by (simp add: memdGetFnForRemoval_def fndatGetOrInit_def wp_simps)
next
  case None
  show ?thesis
    unfolding memdGetFnForRemoval_def fndatGetOrInit_def fndat_init_def wp_simps None option.case on_ok_simps Let_def
    by (auto simp: wp_simps None gambient [OF assms(1)]
        intro!: reads_docs [OF assms(1), THEN wp_reads] wp_tendatGetOrInit [OF assms(1)] assms(2,3))
qed

end
