(* ===== verification/Gate_Attach.thy ===== *)
theory Gate_Attach
  imports Gate_Mem Go_Strings "HOL-Library.AList"
begin

text \<open>
  What a pod gets of the middleware, accounts and buckets attached to its function: the Kubernetes secrets of
  \<open>src/gate/k8s.go\<close>, the variables of each kind of middleware (\<open>src/gate/mware.go\<close> and the \<open>mw-*.go\<close> drivers), of
  accounts (\<open>src/gate/accounts.go\<close>) and of buckets (\<open>src/gate/s3.go\<close>). A Go map is an association list; where the
  code ranges over one, in no particular order, the model takes the order of insertion. A nil dereference is \<open>None\<close>.
\<close>

section \<open>Secrets\<close>

record secEnvs =
  se_id :: string
  se_envs :: "(string \<times> string) list"

definition appendTo :: "secEnvs \<Rightarrow> (string \<times> envval) list \<Rightarrow> (string \<times> envval) list" where
  "appendTo se s = s @ map (\<lambda>(name, _). (name, EnvSecret (se_id se) name)) (se_envs se)"

definition k8sSecretAdd :: "'x gate_env \<Rightarrow> secEnvs \<Rightarrow> ('x, string, unit) go" where
  "k8sSecretAdd E se = gbind (gout (k8s E (KSecretCreate (se_id se) (se_envs se)))) (\<lambda>a. case a of
     KOk \<Rightarrow> gret () | _ \<Rightarrow> gerr ''K8S error'')"

definition k8sSecretMod :: "'x gate_env \<Rightarrow> secEnvs \<Rightarrow> ('x, string, unit) go" where
  "k8sSecretMod E se = gbind (gout (k8s E (KSecretUpdate (se_id se) (se_envs se)))) (\<lambda>a. case a of
     KOk \<Rightarrow> gret () | _ \<Rightarrow> gerr ''K8S error'')"

definition k8sSecretRemove :: "'x gate_env \<Rightarrow> string \<Rightarrow> ('x, string, unit) go" where
  "k8sSecretRemove E i = gbind (gout (k8s E (KSecretDelete i))) (\<lambda>a. case a of
     KErr e \<Rightarrow> gerr e | _ \<Rightarrow> gret ())"

text \<open>A looked-up value whose absence is a nil dereference.\<close>

definition deref :: "'a option \<Rightarrow> ('w, 'e, 'a) go" where
  "deref r = (case r of None \<Rightarrow> gpanic | Some a \<Rightarrow> gret a)"

lemma wp_deref [wp_simps]: "wp (deref r) Q w = (case r of None \<Rightarrow> Q Panic w | Some a \<Rightarrow> Q (Ok a) w)"
  by (simp add: deref_def wp_gpanic wp_gret split: option.splits)

section \<open>Middleware\<close>

definition MakeEndpoint :: "string \<Rightarrow> string" where
  "MakeEndpoint addr = (if HasPrefix addr ''http://'' \<or> HasPrefix addr ''https://'' then addr else ''https://'' @ addr)"

definition mkEnvName :: "string \<Rightarrow> string \<Rightarrow> string \<Rightarrow> string" where
  "mkEnvName typ name env = ''MWARE_'' @ ToUpper typ @ ReplaceAll (ToUpper name) (CHR ''.'') [] @ ''_'' @ env"

definition mw_envName :: "MwareDesc \<Rightarrow> string \<Rightarrow> string" where
  "mw_envName mw envName = mkEnvName (mw_MwareType mw) (Name (mw_SwoId mw)) envName"

definition stdEnvs :: "MwareDesc \<Rightarrow> string \<Rightarrow> (string \<times> string) list" where
  "stdEnvs mwd mwaddr = [(mw_envName mwd ''ADDR'', mwaddr), (mw_envName mwd ''USER'', mw_Client mwd), (mw_envName mwd ''PASS'', mw_Secret mwd)]"

definition GetEnvMariaDB :: "'x gate_env \<Rightarrow> MwareDesc \<Rightarrow> (string \<times> string) list option" where
  "GetEnvMariaDB E mwd = map_option (\<lambda>c. stdEnvs mwd (mwc_Addr c) @ [(mw_envName mwd ''DBNAME'', mw_Namespace mwd)]) (conf_Maria E)"

definition GetEnvPostgres :: "'x gate_env \<Rightarrow> MwareDesc \<Rightarrow> (string \<times> string) list option" where
  "GetEnvPostgres E mwd = map_option (\<lambda>c. stdEnvs mwd (mwc_Addr c) @ [(mw_envName mwd ''DBNAME'', mw_Namespace mwd)]) (conf_Postgres E)"

definition GetEnvRabbitMQ :: "'x gate_env \<Rightarrow> MwareDesc \<Rightarrow> (string \<times> string) list option" where
  "GetEnvRabbitMQ E mwd = map_option (\<lambda>c. stdEnvs mwd (mwc_Addr c) @ [(mw_envName mwd ''VHOST'', mw_Namespace mwd)]) (conf_Rabbit E)"

definition GetEnvMongo :: "'x gate_env \<Rightarrow> MwareDesc \<Rightarrow> (string \<times> string) list option" where
  "GetEnvMongo E mwd = map_option (\<lambda>c. stdEnvs mwd (mwc_Addr c) @ [(mw_envName mwd ''DBNAME'', mw_Namespace mwd)]) (conf_Mongo E)"

definition GetEnvAuthJWT :: "MwareDesc \<Rightarrow> (string \<times> string) list" where
  "GetEnvAuthJWT mwd = [(mw_envName mwd ''SIGNKEY'', mw_Secret mwd)]"

definition wsURL :: "'x gate_env \<Rightarrow> MwareDesc \<Rightarrow> string option" where
  "wsURL E mwd = map_option (\<lambda>api. MakeEndpoint ((if api = [] then Daemon_Addr E else api) @ ''/websockets/'' @ mw_Cookie mwd)) (conf_WS E)"

definition GetEnvWebSocket :: "'x gate_env \<Rightarrow> MwareDesc \<Rightarrow> (string \<times> string) list option" where
  "GetEnvWebSocket E mwd = map_option (\<lambda>url. [(mw_envName mwd ''TOKEN'', mw_Secret mwd), (mw_envName mwd ''URL'', url)]) (wsURL E mwd)"

definition mw_types :: "string list" where
  "mw_types = [''maria'', ''postgres'', ''rabbit'', ''mongo'', ''authjwt'', ''websocket'']"

text \<open>\<open>mwareHandlers[typ].GetEnv\<close>.\<close>

definition mw_GetEnv :: "'x gate_env \<Rightarrow> MwareDesc \<Rightarrow> (string \<times> string) list option" where
  "mw_GetEnv E mwd = (let t = mw_MwareType mwd in
     if t = ''maria'' then GetEnvMariaDB E mwd else if t = ''postgres'' then GetEnvPostgres E mwd
     else if t = ''rabbit'' then GetEnvRabbitMQ E mwd else if t = ''mongo'' then GetEnvMongo E mwd
     else if t = ''authjwt'' then Some (GetEnvAuthJWT mwd) else if t = ''websocket'' then GetEnvWebSocket E mwd
     else None)"

definition mwSecEnv :: "'x gate_env \<Rightarrow> MwareDesc \<Rightarrow> secEnvs option" where
  "mwSecEnv E mw = map_option (\<lambda>e. \<lparr>se_id = ''mw-'' @ mw_Cookie mw, se_envs = e\<rparr>) (mw_GetEnv E mw)"

definition mwareGetEnvData :: "'x gate_env \<Rightarrow> SwoId \<Rightarrow> string \<Rightarrow> ('x, string, secEnvs) go" where
  "mwareGetEnvData E i name =
     gtry (dbFind E DBColMware (where_field ''cookie'' (Cookie (Cookify E) (i\<lparr>Name := name\<rparr>)))) (\<lambda>r. case r of
       Inl _ \<Rightarrow> gerr (''No such mware: '' @ Str (i\<lparr>Name := name\<rparr>))
     | Inr d \<Rightarrow> if mw_State (as_Mw d) \<noteq> DBMwareStateRdy then gerr ''Mware not ready'' else deref (mwSecEnv E (as_Mw d)))"

section \<open>Accounts\<close>

definition NoProject :: string where "NoProject = ''*''"

definition mkAccEnvName :: "string \<Rightarrow> string \<Rightarrow> string \<Rightarrow> string" where
  "mkAccEnvName typ name env = ''ACC_'' @ ToUpper typ @ ToUpper name @ ''_'' @ ToUpper env"

definition secret_value :: "cfb \<Rightarrow> string \<Rightarrow> string \<Rightarrow> (crypt_err, string) res" where
  "secret_value C pas ct = (if ct \<noteq> [] then DecryptString C pas ct else Ok ct)"

text \<open>The loop over the secrets. The real values come from a decryption; without it only the names are needed.
  A secret that does not decrypt is left out; one cut short panics.\<close>

type_synonym decryption = "string \<Rightarrow> (crypt_err, string) res"

fun secret_envs :: "decryption option \<Rightarrow> AccDesc \<Rightarrow> (string \<times> string) list \<Rightarrow> (string \<times> string) list \<Rightarrow> (string \<times> string) list option" where
  "secret_envs real ad [] envs = Some envs"
| "secret_envs real ad ((k, sv) # rest) envs =
     (let en = mkAccEnvName (acc_Type ad) (Name (acc_SwoId ad)) k in
      case real of
        Some val \<Rightarrow> (case val sv of
          Ok v \<Rightarrow> secret_envs real ad rest (AList.update en v envs)
        | Err _ \<Rightarrow> secret_envs real ad rest envs
        | Panic \<Rightarrow> None)
      | None \<Rightarrow> secret_envs real ad rest (AList.update en [] envs))"

definition value_envs :: "AccDesc \<Rightarrow> (string \<times> string) list" where
  "value_envs ad = fold (\<lambda>(k, v). AList.update (mkAccEnvName (acc_Type ad) (Name (acc_SwoId ad)) k) v) (acc_Values ad) []"

definition acc_getEnv :: "decryption option \<Rightarrow> AccDesc \<Rightarrow> secEnvs option" where
  "acc_getEnv need_real_values ad =
     map_option (\<lambda>e. \<lparr>se_id = ''acc-'' @ acc_Cookie ad, se_envs = e\<rparr>) (secret_envs need_real_values ad (acc_Secrets ad) (value_envs ad))"

definition accFindByID :: "'x gate_env \<Rightarrow> SwoId \<Rightarrow> string \<Rightarrow> ('x, gdberr, AccDesc) go" where
  "accFindByID E i aid = (case SplitN aid (CHR '':'') 2 of
     [typ, name] \<Rightarrow> gbind (dbFind E DBColAccounts (where_field ''cookie'' (Cookie2 (Cookify E) typ (i\<lparr>Project := NoProject, Name := name\<rparr>))))
                      (\<lambda>d. gret (as_Acc d))
   | _ \<Rightarrow> gerr (GDbErr ''Bad AID''))"

definition accGetEnvData :: "'x gate_env \<Rightarrow> SwoId \<Rightarrow> string \<Rightarrow> ('x, gdberr, secEnvs) go" where
  "accGetEnvData E i aid = gbind (accFindByID E i aid) (\<lambda>ad. deref (acc_getEnv None ad))"

section \<open>Buckets\<close>

definition s3KeyGen :: "'x gate_env \<Rightarrow> string \<Rightarrow> string \<Rightarrow> 32 word \<Rightarrow> ('x, string, string \<times> string) go" where
  "s3KeyGen E namespace bucket lifetime = (case conf_S3 E of
     None \<Rightarrow> gerr ''Not configured''
   | Some _ \<Rightarrow> gbind (gout (s3_keygen E namespace bucket lifetime)) (\<lambda>r. case r of Inl e \<Rightarrow> gerr e | Inr k \<Rightarrow> gret k))"

definition s3Endpoint :: "'x gate_env \<Rightarrow> string option" where
  "s3Endpoint E = map_option MakeEndpoint (conf_S3 E)"

definition s3GenBucketKeys :: "'x gate_env \<Rightarrow> SwoId \<Rightarrow> string \<Rightarrow> ('x, string, (string \<times> string) list) go" where
  "s3GenBucketKeys E fid bucket =
     gtry (s3KeyGen E (S3Namespace (Cookify E) fid) bucket 0) (\<lambda>r. case r of
       Inl _ \<Rightarrow> gerr ''Key generation error''
     | Inr (key, secret) \<Rightarrow> gbind (deref (s3Endpoint E)) (\<lambda>ep. gret
         [(mkEnvName ''s3'' bucket ''ADDR'', ep), (mkEnvName ''s3'' bucket ''KEY'', key), (mkEnvName ''s3'' bucket ''SECRET'', secret)]))"

section \<open>All of them\<close>

text \<open>The three loops of \<open>k8sGenEnvVar\<close>: an attachment that cannot be resolved is only logged.\<close>

definition env_mware :: "'x gate_env \<Rightarrow> FunctionDesc \<Rightarrow> (string \<times> envval) list \<Rightarrow> ('x, 'e, (string \<times> envval) list) go" where
  "env_mware E fn = gfold (\<lambda>mw s. gtry (mwareGetEnvData E (fn_SwoId fn) mw) (\<lambda>r. gret (case r of
     Inl _ \<Rightarrow> s | Inr se \<Rightarrow> appendTo se s))) (fn_Mware fn)"

definition env_accounts :: "'x gate_env \<Rightarrow> FunctionDesc \<Rightarrow> (string \<times> envval) list \<Rightarrow> ('x, 'e, (string \<times> envval) list) go" where
  "env_accounts E fn = gfold (\<lambda>aid s. gtry (accGetEnvData E (fn_SwoId fn) aid) (\<lambda>r. gret (case r of
     Inl _ \<Rightarrow> s | Inr se \<Rightarrow> appendTo se s))) (fn_Accounts fn)"

definition env_buckets :: "'x gate_env \<Rightarrow> FunctionDesc \<Rightarrow> (string \<times> envval) list \<Rightarrow> ('x, 'e, (string \<times> envval) list) go" where
  "env_buckets E fn = gfold (\<lambda>b s. gtry (s3GenBucketKeys E (fn_SwoId fn) b) (\<lambda>r. gret (case r of
     Inl _ \<Rightarrow> s | Inr envs \<Rightarrow> s @ map (\<lambda>(en, ev). (en, EnvValue ev)) envs))) (fn_S3Buckets fn)"

definition env_attached :: "'x gate_env \<Rightarrow> FunctionDesc \<Rightarrow> (string \<times> envval) list \<Rightarrow> ('x, 'e, (string \<times> envval) list) go" where
  "env_attached E fn s = gbind (env_mware E fn s) (\<lambda>s. gbind (env_accounts E fn s) (env_buckets E fn))"

section \<open>They change nothing and do not fail\<close>

text \<open>Every middleware that is ready has a known type and a configured server.\<close>

definition mware_sane :: "'x gate_env \<Rightarrow> gview \<Rightarrow> bool" where
  "mware_sane E V \<longleftrightarrow> (\<forall>i m. V DBColMware i = Some (GMw m) \<longrightarrow> mw_State m = DBMwareStateRdy \<longrightarrow> mw_GetEnv E m \<noteq> None)"

lemma wp_mwareGetEnvData:
  assumes E: "gmongo_ok E view" and V: "gids_ok (view x)" "mware_sane E (view x)"
  shows "wp (mwareGetEnvData E i n) (\<lambda>r x'. r \<noteq> Panic \<and> view x' = view x) x"
  unfolding mwareGetEnvData_def wp_gtry
proof (rule wp_dbFind [OF E], goal_cases)
  case (1 k d x')
  then obtain m where "d = GMw m" using gids_okD [OF V(1) 1(1)] by (cases d) auto
  moreover from this have "mw_State m = DBMwareStateRdy \<Longrightarrow> \<exists>e. mw_GetEnv E m = Some e"
    using V(2) 1(1) unfolding mware_sane_def by blast
  ultimately show ?case using 1(3) by (auto simp: wp_simps mwSecEnv_def)
qed (auto simp: wp_simps)

lemma secret_envs_names: "secret_envs None ad ss envs \<noteq> None"
  by (induction ss arbitrary: envs) (auto simp: Let_def)

lemma acc_getEnv_names: "\<exists>se. acc_getEnv None ad = Some se"
  using secret_envs_names [of ad "acc_Secrets ad" "value_envs ad"] by (auto simp: acc_getEnv_def)

lemma reads_accFindByID: "gmongo_ok E view \<Longrightarrow> reads view (accFindByID E i aid)"
  unfolding accFindByID_def
  by (auto intro!: reads_gbind reads_dbFind reads_gret split: list.splits)

lemma reads_accGetEnvData:
  assumes "gmongo_ok E view"
  shows "reads view (accGetEnvData E i aid)"
  unfolding accGetEnvData_def
proof (rule reads_gbind [OF reads_accFindByID [OF assms]])
  fix ad
  obtain se where "acc_getEnv None ad = Some se" using acc_getEnv_names by blast
  then show "reads view (deref (acc_getEnv None ad))" by (simp add: deref_def reads_gret)
qed

lemma reads_gout: "(\<And>x. view (snd (f x)) = view x) \<Longrightarrow> reads view (gout f)"
  by (rule reads_wp) (simp add: wp_simps)

lemma wp_s3GenBucketKeys:
  assumes E: "gmongo_ok E view"
  shows "wp (s3GenBucketKeys E i b) (\<lambda>r x'. r \<noteq> Panic \<and> view x' = view x) x"
  unfolding s3GenBucketKeys_def s3KeyGen_def s3Endpoint_def
  by (auto simp: wp_simps gambient [OF E] split: option.splits sum.splits)

text \<open>An attachment that is skipped on error, in a loop.\<close>

lemma wp_skipping:
  assumes "\<And>a x. P (view x) \<Longrightarrow> wp (f a) (\<lambda>r x'. r \<noteq> Panic \<and> view x' = view x) x" and "P (view x)"
    and "\<And>s x'. view x' = view x \<Longrightarrow> Q (Ok s) x'"
  shows "wp (gfold (\<lambda>a s. gtry (f a) (\<lambda>r. gret (g r s))) as s) Q x"
proof (rule wp_gfold [where I = "\<lambda>_ _ x'. view x' = view x"])
  fix a as' s x1 assume I: "view x1 = view x"
  then have "wp (f a) (\<lambda>r x'. r \<noteq> Panic \<and> view x' = view x) x1" using assms(1) [of x1 a] assms(2) by simp
  then show "wp (gtry (f a) (\<lambda>r. gret (g r s))) (on_ok (\<lambda>_ x'. view x' = view x) Q) x1"
    unfolding wp_gtry by (rule wp_mono) (auto simp: on_any_def wp_simps split: res.splits)
qed (use assms(3) in auto)

lemma wp_env_attached:
  assumes E: "gmongo_ok E view" and V: "gids_ok (view x)" "mware_sane E (view x)"
    and Q: "\<And>s x'. view x' = view x \<Longrightarrow> Q (Ok s) x'"
  shows "wp (env_attached E fn s) Q x"
  unfolding env_attached_def env_mware_def env_accounts_def env_buckets_def wp_gbind
proof (rule wp_skipping [where view = view and P = "\<lambda>V. gids_ok V \<and> mware_sane E V"], goal_cases)
  case (3 s1 x1)
  show ?case unfolding on_ok_simps wp_gbind
  proof (rule wp_skipping [where view = view and P = "\<lambda>_. True"], goal_cases)
    case (1 a x)
    show ?case by (rule wp_reads [OF reads_accGetEnvData [OF E]]) simp_all
  next
    case (3 s2 x2)
    show ?case unfolding on_ok_simps
      by (rule wp_skipping [where view = view and P = "\<lambda>_. True"]) (use wp_s3GenBucketKeys [OF E] 3 \<open>view x1 = view x\<close> Q in simp_all)
  qed simp
qed (use V wp_mwareGetEnvData [OF E] in auto)

end
