(* ===== verification/Gate_Runtime.thy ===== *)
theory Gate_Runtime
  imports Gate_Attach
begin

text \<open>
  Languages (\<open>src/gate/runtime.go\<close>), sources (\<open>src/gate/src.go\<close>), builds (\<open>src/gate/build.go\<close>) and the deployments
  of functions (\<open>src/gate/k8s.go\<close>). Looking up a language that has no handler yields a nil
  pointer, whose use panics.
\<close>

section \<open>Languages\<close>

record langInfo =
  CodePath :: string
  Ext :: string
  Build :: bool
  RunPackages :: string

definition golang_info :: langInfo where
  "golang_info = \<lparr>CodePath = ''/go/src/swycode'', Ext = ''go'', Build = True, RunPackages = []\<rparr>"

definition py_info :: langInfo where
  "py_info = \<lparr>CodePath = ''/function'', Ext = ''py'', Build = False, RunPackages = ''/packages''\<rparr>"

definition nodejs_info :: langInfo where
  "nodejs_info = \<lparr>CodePath = ''/function'', Ext = ''js'', Build = False, RunPackages = ''/home/packages''\<rparr>"

definition ruby_info :: langInfo where
  "ruby_info = \<lparr>CodePath = ''/function'', Ext = ''rb'', Build = False, RunPackages = []\<rparr>"

definition swift_info :: langInfo where
  "swift_info = \<lparr>CodePath = ''/swift/swycode'', Ext = ''swift'', Build = True, RunPackages = []\<rparr>"

definition csharp_info :: langInfo where
  "csharp_info = \<lparr>CodePath = ''/function'', Ext = ''cs'', Build = True, RunPackages = []\<rparr>"

definition rt_handlers :: "(string \<times> langInfo) list" where
  "rt_handlers = [(''python'', py_info), (''golang'', golang_info), (''swift'', swift_info), (''nodejs'', nodejs_info),
     (''ruby'', ruby_info), (''csharp'', csharp_info)]"

definition extmap :: "(string \<times> string) list" where
  "extmap = map (\<lambda>(l, d). (CHR ''.'' # Ext d, l)) rt_handlers"

text \<open>\<open>filepath.Ext\<close>: from the last dot of the last path element.\<close>

definition filepath_Ext :: "string \<Rightarrow> string" where
  "filepath_Ext p = (let e = rev (takeWhile (\<lambda>c. c \<noteq> CHR ''.'' \<and> c \<noteq> CHR ''/'') (rev p));
       rest = dropWhile (\<lambda>c. c \<noteq> CHR ''.'' \<and> c \<noteq> CHR ''/'') (rev p)
     in case rest of c # _ \<Rightarrow> if c = CHR ''.'' then c # e else [] | [] \<Rightarrow> [])"

definition rtLangDetect :: "string \<Rightarrow> string" where
  "rtLangDetect fname = (case map_of extmap (filepath_Ext fname) of None \<Rightarrow> [] | Some l \<Rightarrow> l)"

definition rtLangEnabled :: "'x gate_env \<Rightarrow> string \<Rightarrow> bool" where
  "rtLangEnabled E lang \<longleftrightarrow> map_of rt_handlers lang \<noteq> None \<and> \<not> LangDisabled E lang"

definition rtNeedToBuild :: "FnCodeDesc \<Rightarrow> bool option" where
  "rtNeedToBuild scr = map_option Build (map_of rt_handlers (Lang scr))"

definition rtCodePath :: "FnCodeDesc \<Rightarrow> string option" where
  "rtCodePath scr = map_option CodePath (map_of rt_handlers (Lang scr))"

definition rtScriptName :: "FnCodeDesc \<Rightarrow> string \<Rightarrow> string option" where
  "rtScriptName scr suff = map_option (\<lambda>h. ''script'' @ suff @ ''.'' @ Ext h) (map_of rt_handlers (Lang scr))"

definition packagesDir :: "'x gate_env \<Rightarrow> string" where
  "packagesDir E = WdogVolume E @ ''/packages''"

definition rtPackages :: "'x gate_env \<Rightarrow> SwoId \<Rightarrow> string \<Rightarrow> (string \<times> string) option option" where
  "rtPackages E i lang = map_option (\<lambda>h. if RunPackages h \<noteq> []
     then Some (packagesDir E @ ''/'' @ Tennant i @ ''/'' @ lang, RunPackages h) else None) (map_of rt_handlers lang)"

definition rtLangImage :: "'x gate_env \<Rightarrow> string \<Rightarrow> string" where
  "rtLangImage E lng = ImgPref E @ ''/'' @ lng"

section \<open>Sources\<close>

definition srcRoot :: "FunctionDesc \<Rightarrow> string" where
  "srcRoot fn = Tennant (fn_SwoId fn) @ ''/'' @ Project (fn_SwoId fn) @ ''/'' @ Name (fn_SwoId fn)"

definition srcDir :: "FunctionDesc \<Rightarrow> string \<Rightarrow> string" where
  "srcDir fn version = srcRoot fn @ ''/'' @ (if version = [] then src_Version (fn_Src fn) else version)"

definition functionsDir :: "'x gate_env \<Rightarrow> string" where
  "functionsDir E = WdogVolume E @ ''/functions''"

definition srcPath :: "'x gate_env \<Rightarrow> FunctionDesc \<Rightarrow> string \<Rightarrow> string" where
  "srcPath E fn version = functionsDir E @ ''/'' @ srcDir fn version"

definition zeroVersion :: string where "zeroVersion = ''0''"

text \<open>\<open>n, _ := strconv.Atoi(s)\<close>: zero for what is no number, the nearest bound for one out of range.\<close>

definition Atoi :: "string \<Rightarrow> int" where
  "Atoi s = fst (ParseInt s)"

fun checkVersion :: "string \<Rightarrow> string list \<Rightarrow> bool" where
  "checkVersion version [] = False"
| "checkVersion version (v # vs) = (Atoi version \<le> Atoi v \<or> checkVersion version vs)"

definition some_err :: "string option \<Rightarrow> ('w, string, unit) go" where
  "some_err r = (case r of None \<Rightarrow> gret () | Some e \<Rightarrow> gerr e)"

lemma wp_some_err [wp_simps]: "wp (some_err r) Q w = (case r of None \<Rightarrow> Q (Ok ()) w | Some e \<Rightarrow> Q (Err e) w)"
  by (simp add: some_err_def wp_gerr wp_gret split: option.splits)

definition src_choice :: "FunctionSources \<Rightarrow> src_from option" where
  "src_choice src = (if fsrc_Repo src \<noteq> [] then Some (FromRepo (fsrc_Repo src))
     else if fsrc_Code src \<noteq> [] then Some (FromReq (fsrc_Code src))
     else if fsrc_URL src \<noteq> [] then Some (FromUrl (fsrc_URL src)) else None)"

definition putSourceFile :: "'x gate_env \<Rightarrow> FunctionDesc \<Rightarrow> FunctionSources \<Rightarrow> string \<Rightarrow> ('x, string, unit) go" where
  "putSourceFile E fn src suff = (case src_choice src of
     None \<Rightarrow> gerr ''Unknown sources type''
   | Some k \<Rightarrow> gbind (deref (rtScriptName (fn_Code fn) suff)) (\<lambda>name.
               gbind (gout (src_put E k (srcPath E fn []) name)) some_err))"

text \<open>A synchronised repository reference without a slash has no second part.\<close>

definition putStdSources :: "'x gate_env \<Rightarrow> FunctionDesc \<Rightarrow> FunctionSources \<Rightarrow> ('x, string, FunctionDesc) go" where
  "putStdSources E fn src =
     gbind (putSourceFile E fn src []) (\<lambda>_.
     if fsrc_Repo src \<noteq> [] \<and> fsrc_Sync src
     then (case SplitN (fsrc_Repo src) (CHR ''/'') 2 of
             a # b # _ \<Rightarrow> gret (fn\<lparr>fn_Src := (fn_Src fn)\<lparr>src_Repo := a, src_File := b\<rparr>\<rparr>)
           | _ \<Rightarrow> gpanic)
     else gret fn)"

definition putSources :: "'x gate_env \<Rightarrow> FunctionDesc \<Rightarrow> FunctionSources \<Rightarrow> ('x, string, FunctionDesc) go" where
  "putSources E fn src = putStdSources E (fn\<lparr>fn_Src := \<lparr>src_Version = zeroVersion, src_Repo = [], src_File = []\<rparr>\<rparr>) src"

definition updateSources :: "'x gate_env \<Rightarrow> FunctionDesc \<Rightarrow> FunctionSources \<Rightarrow> ('x, string, FunctionDesc) go" where
  "updateSources E fn src = putStdSources E
     (fn\<lparr>fn_Src := \<lparr>src_Version = Itoa (int64_of (Atoi (src_Version (fn_Src fn)) + 1)), src_Repo = [], src_File = []\<rparr>\<rparr>) src"

definition putTempSources :: "'x gate_env \<Rightarrow> FunctionDesc \<Rightarrow> FunctionSources \<Rightarrow> ('x, string, string) go" where
  "putTempSources E fn src = gbind (putSourceFile E fn src ''tmp'') (\<lambda>_. gret ''tmp'')"

definition removeSources :: "'x gate_env \<Rightarrow> FunctionDesc \<Rightarrow> ('x, string, unit) go" where
  "removeSources E fn = gbind (gout (DropDir E (functionsDir E) (srcRoot fn))) some_err"

section \<open>Builds\<close>

definition log_doc :: "string \<Rightarrow> string \<Rightarrow> int \<Rightarrow> string \<Rightarrow> gdoc" where
  "log_doc cookie event t str = GLog \<lparr>log_Cookie = cookie, log_Event = event, log_Time = t, log_Text = str\<rparr>"

text \<open>What a run printed. The role of the caller is not looked at, and errors are dropped.\<close>

definition logSaveResult :: "'x gate_env \<Rightarrow> string \<Rightarrow> string \<Rightarrow> string \<Rightarrow> string \<Rightarrow> ('x, 'e, unit) go" where
  "logSaveResult E cookie event stdout stderr =
     gbind (gout (gnow E)) (\<lambda>tm.
     gseq (if stdout \<noteq> [] then gcall E (GInsert (log_doc cookie (''stdout.'' @ event) tm stdout)) else gret GDone)
     (gseq (if stderr \<noteq> [] then gcall E (GInsert (log_doc cookie (''stderr.'' @ event) tm stderr)) else gret GDone)
     (gret ())))"

definition buildFunction :: "'x gate_env \<Rightarrow> FunctionDesc \<Rightarrow> string \<Rightarrow> ('x, string, unit) go" where
  "buildFunction E fn suf =
     gbind (gout (wdog_build E (Lang (fn_Code fn)) (srcDir fn []) suf)) (\<lambda>r. case r of
       Inl e \<Rightarrow> gerr ''Can't build function''
     | Inr res \<Rightarrow> if res_Code res \<noteq> 0
         then gbind (logSaveResult E (fn_Cookie fn) ''build'' (res_Stdout res) (res_Stderr res)) (\<lambda>_. gerr ''Error building function'')
         else gret ())"

definition tryBuildFunction :: "'x gate_env \<Rightarrow> FunctionDesc \<Rightarrow> string \<Rightarrow> ('x, string, unit) go" where
  "tryBuildFunction E fn suf =
     gbind (deref (rtNeedToBuild (fn_Code fn))) (\<lambda>b. if b then buildFunction E fn suf else gret ())"

section \<open>Deployments\<close>

definition PodToken :: "FunctionDesc \<Rightarrow> string" where
  "PodToken fn = (if fn_PToken fn \<noteq> [] then fn_PToken fn else fn_Cookie fn)"

definition user_env :: "string list \<Rightarrow> (string \<times> string) list" where
  "user_env vs = List.map_filter (\<lambda>v. case SplitN v (CHR ''='') 2 of
     [a, b] \<Rightarrow> if a \<noteq> [] then Some (a, b) else None | _ \<Rightarrow> None) vs"

text \<open>The environment of a pod: the user's variables, the watchdog's, those Kubernetes fills in, and
  those of what is attached to the function.\<close>

definition k8sGenEnvVar :: "'x gate_env \<Rightarrow> FunctionDesc \<Rightarrow> ('x, 'e, (string \<times> envval) list) go" where
  "k8sGenEnvVar E fn = env_attached E fn (map (\<lambda>(n, v). (n, EnvValue v)) (user_env (Env (fn_Code fn)) @
       [(''SWD_CRESPONDER'', ''/var/run/swifty''), (''SWD_LANG'', Lang (fn_Code fn)), (''SWD_POD_TOKEN'', PodToken fn),
        (''SWD_FN_TMO'', Itoa (sint (Tmo (fn_Size fn)))), (''SWD_PORT'', Itoa (WdogConfPort E)),
        (''SWD_TENNANT'', Tennant (fn_SwoId fn)), (''SWD_PROJECT'', Project (fn_SwoId fn)),
        (''SWD_FUNCNAME'', Name (fn_SwoId fn)), (''SWD_VERSION'', src_Version (fn_Src fn))])
       @ [(''SWD_POD_IP'', EnvField ''status.podIP''), (''SWD_NODE_NAME'', EnvField ''spec.nodeName''),
          (''SWD_POD_NAME'', EnvField ''metadata.name'')])"

definition dep_spec :: "'x gate_env \<Rightarrow> FunctionDesc \<Rightarrow> string \<Rightarrow> (string \<times> string) option \<Rightarrow> (string \<times> envval) list \<Rightarrow> deployment" where
  "dep_spec E fn code pkgs env = \<lparr>dep_name = fn_DepName fn, dep_replicas = Replicas (fn_Size fn),
     dep_image = rtLangImage E (Lang (fn_Code fn)), dep_code = (srcPath E fn [], code), dep_packages = pkgs,
     dep_mem = Mem (fn_Size fn), dep_env = env\<rparr>"

text \<open>The balancer's data of one function in its memory data.\<close>

definition on_bd :: "string \<Rightarrow> (BalancerDat \<Rightarrow> BalancerDat) \<Rightarrow> ('x gst, 'e, unit) go" where
  "on_bd cookie f = gmod (\<lambda>w. w\<lparr>fdmd := (fdmd w)(cookie := map_option (\<lambda>md. md\<lparr>md_bd := f (md_bd md)\<rparr>) (fdmd w cookie))\<rparr>)"

definition bd_of :: "'x gst \<Rightarrow> fdmd" where
  "bd_of w = (\<lambda>c. map_option md_bd (fdmd w c))"

lemma on_bd_BalancerDelete:
  "bd_of (snd (on_bd cookie (scalerStop \<circ> Flush) w)) = BalancerDelete cookie (bd_of w)"
  by (auto simp: on_bd_def gmod_def bd_of_def BalancerDelete_def fun_eq_iff split: option.splits)

definition kcall :: "'x gate_env \<Rightarrow> k8s_request \<Rightarrow> ('x gst, string, unit) go" where
  "kcall E r = gbind (liftx (gout (k8s E r))) (\<lambda>a. case a of KOk \<Rightarrow> gret () | KNotFound \<Rightarrow> gerr ''not found'' | KErr e \<Rightarrow> gerr e)"

definition k8sRemove :: "'x gate_env \<Rightarrow> FunctionDesc \<Rightarrow> ('x gst, string, unit) go" where
  "k8sRemove E fn =
     gbind (on_bd (fn_Cookie fn) (scalerStop \<circ> Flush)) (\<lambda>_.
     gbind (liftx (gout (k8s E (KGetDep (fn_DepName fn))))) (\<lambda>a. case a of
       KNotFound \<Rightarrow> gret ()
     | KErr e \<Rightarrow> gerr e
     | KOk \<Rightarrow> gbind (kcall E (KSetReplicas (fn_DepName fn) 0)) (\<lambda>_. kcall E (KDelDep (fn_DepName fn)))))"

definition k8sRun :: "'x gate_env \<Rightarrow> FunctionDesc \<Rightarrow> ('x gst, string, unit) go" where
  "k8sRun E fn =
     gbind (liftx (k8sGenEnvVar E fn)) (\<lambda>env.
     gbind (deref (rtCodePath (fn_Code fn))) (\<lambda>code.
     gbind (deref (rtPackages E (fn_SwoId fn) (Lang (fn_Code fn)))) (\<lambda>pkgs.
     gtry (kcall E (KCreateDep (dep_spec E fn code pkgs env))) (\<lambda>r. case r of
       Inr _ \<Rightarrow> gret ()
     | Inl e \<Rightarrow> gbind (on_bd (fn_Cookie fn) (scalerStop \<circ> Flush)) (\<lambda>_. gerr ''K8S error'')))))"

text \<open>An update rewrites the path of the sources, the environment and the memory of the deployment found.\<close>

definition k8sUpdate :: "'x gate_env \<Rightarrow> FunctionDesc \<Rightarrow> ('x gst, string, unit) go" where
  "k8sUpdate E fn =
     gbind (kcall E (KGetDep (fn_DepName fn))) (\<lambda>_.
     gbind (liftx (k8sGenEnvVar E fn)) (\<lambda>env.
     kcall E (KUpdateDep (dep_spec E fn [] None env))))"

section \<open>What these leave alone\<close>

text \<open>A call that touches neither documents nor the maps of the gate, except for balancer data.\<close>

definition same_maps :: "'x gst \<Rightarrow> 'x gst \<Rightarrow> bool" where
  "same_maps w w' \<longleftrightarrow> tdat w' = tdat w \<and> podst w' = podst w \<and> urls w' = urls w \<and> consumers w' = consumers w
     \<and> (\<forall>c. map_option (\<lambda>md. md\<lparr>md_bd := fresh_bd\<rparr>) (fdmd w' c) = map_option (\<lambda>md. md\<lparr>md_bd := fresh_bd\<rparr>) (fdmd w c))"

definition quiet_call :: "('x \<Rightarrow> gview) \<Rightarrow> ('x gst, 'e, 'a) go \<Rightarrow> bool" where
  "quiet_call view f \<longleftrightarrow> (\<forall>w. view (outer (snd (f w))) = view (outer w) \<and> same_maps w (snd (f w)))"

lemma quiet_callD: "quiet_call view f \<Longrightarrow> f w = (r, w') \<Longrightarrow> view (outer w') = view (outer w) \<and> same_maps w w'"
  unfolding quiet_call_def by (metis snd_conv)

lemma same_maps_refl [simp]: "same_maps w w" "same_maps w (w\<lparr>outer := x\<rparr>)"
  by (simp_all add: same_maps_def)

lemma same_maps_trans: "same_maps w w1 \<Longrightarrow> same_maps w1 w2 \<Longrightarrow> same_maps w w2"
  by (simp add: same_maps_def)

lemma quiet_gret: "quiet_call view (gret a)" "quiet_call view (gerr e)" "quiet_call view gpanic" "quiet_call view (deref r)"
  by (auto simp: quiet_call_def go_simps deref_def split: option.splits)

lemma quiet_gbind:
  assumes "quiet_call view f" and "\<And>a. quiet_call view (k a)"
  shows "quiet_call view (gbind f k)"
  unfolding quiet_call_def
proof
  fix w
  obtain r w1 where f: "f w = (r, w1)" by fastforce
  then have 1: "view (outer w1) = view (outer w)" "same_maps w w1" using quiet_callD [OF assms(1)] by auto
  then show "view (outer (snd (gbind f k w))) = view (outer w) \<and> same_maps w (snd (gbind f k w))"
    using f assms(2) by (cases r) (auto simp: gbind_def quiet_call_def intro: same_maps_trans)
qed

lemma quiet_gtry:
  assumes "quiet_call view f" and "\<And>a. quiet_call view (k a)"
  shows "quiet_call view (gtry f k)"
  unfolding quiet_call_def
proof
  fix w
  obtain r w1 where f: "f w = (r, w1)" by fastforce
  then have 1: "view (outer w1) = view (outer w)" "same_maps w w1" using quiet_callD [OF assms(1)] by auto
  then show "view (outer (snd (gtry f k w))) = view (outer w) \<and> same_maps w (snd (gtry f k w))"
    using f assms(2) by (cases r) (auto simp: gtry_def quiet_call_def intro: same_maps_trans)
qed

lemma quiet_liftx: "(\<And>x. view (snd (f x)) = view x) \<Longrightarrow> quiet_call view (liftx f)"
  by (simp add: quiet_call_def liftx_def split: prod.splits) (metis snd_conv)

lemma quiet_gout: "(\<And>x. view (snd (f x)) = view x) \<Longrightarrow> quiet_call view (liftx (gout f))"
  by (rule quiet_liftx) (simp add: gout_def split: prod.splits, metis snd_conv)

lemma quiet_on_bd: "quiet_call view (on_bd c f)"
  by (auto simp: quiet_call_def on_bd_def gmod_def same_maps_def option.map_comp comp_def)

lemma quiet_kcall: "gmongo_ok E view \<Longrightarrow> quiet_call view (kcall E r)"
  unfolding kcall_def
  by (intro quiet_gbind quiet_gout) (auto simp: gambient quiet_gret split: k8s_reply.splits)

lemma view_gbind: "(\<And>x. view (snd (f x)) = view x) \<Longrightarrow> (\<And>a x. view (snd (k a x)) = view x) \<Longrightarrow> view (snd (gbind f k x)) = view x"
  by (simp add: gbind_def split: prod.splits res.splits) (metis snd_conv)

lemma view_gtry: "(\<And>x. view (snd (f x)) = view x) \<Longrightarrow> (\<And>a x. view (snd (k a x)) = view x) \<Longrightarrow> view (snd (gtry f k x)) = view x"
  by (simp add: gtry_def split: prod.splits res.splits) (metis snd_conv)

lemma view_gfold: "(\<And>a s x. view (snd (f a s x)) = view x) \<Longrightarrow> view (snd (gfold f as s x)) = view x"
  by (induction as arbitrary: s x) (auto simp: gret_app intro!: view_gbind)

lemma view_find: "gmongo_ok E view \<Longrightarrow> view (snd (dbFind E c q x)) = view x"
  using readsD [OF reads_dbFind, of E view c q x] by (cases "dbFind E c q x") simp

lemma view_basic: "view (snd (gret a x)) = view x" "view (snd (gerr e x)) = view x" "view (snd (deref r x)) = view x"
  by (simp_all add: gret_app gerr_app deref_def gpanic_app split: option.splits)

lemma view_gout: "(\<And>x. view (snd (f x)) = view x) \<Longrightarrow> view (snd (gout f x)) = view x"
  by (simp add: gout_def split: prod.splits) (metis snd_conv)

lemmas view_rules = view_basic view_gbind view_gtry view_gfold view_gout

lemma view_genenv:
  assumes "gmongo_ok E view"
  shows "view (snd (k8sGenEnvVar E fn x)) = view x"
proof -
  have "view (snd (mwareGetEnvData E i n x)) = view x" for i n x
    unfolding mwareGetEnvData_def by (intro view_rules view_find [OF assms]) (auto simp: view_basic split: sum.splits)
  moreover have "view (snd (accGetEnvData E i n x)) = view x" for i n x
    unfolding accGetEnvData_def accFindByID_def
    by (intro view_rules) (auto intro!: view_rules view_find [OF assms] split: list.splits)
  moreover have "view (snd (s3GenBucketKeys E i n x)) = view x" for i n x
    unfolding s3GenBucketKeys_def s3KeyGen_def
    by (intro view_rules) (auto intro!: view_rules gambient [OF assms] split: option.splits sum.splits)
  ultimately show ?thesis
    unfolding k8sGenEnvVar_def env_attached_def env_mware_def env_accounts_def env_buckets_def
    by (intro view_rules) (auto intro!: view_rules split: sum.splits)
qed

lemmas quiet_rules = quiet_gret quiet_gbind quiet_gtry quiet_on_bd quiet_kcall

lemma quiet_k8sRemove: "gmongo_ok E view \<Longrightarrow> quiet_call view (k8sRemove E fn)"
  unfolding k8sRemove_def
  by (intro quiet_rules quiet_gout) (auto simp: gambient intro!: quiet_rules split: k8s_reply.splits)

lemma quiet_k8sRun: "gmongo_ok E view \<Longrightarrow> quiet_call view (k8sRun E fn)"
  unfolding k8sRun_def
  by (intro quiet_rules quiet_liftx view_genenv) (auto intro!: quiet_rules split: sum.splits)

lemma quiet_k8sUpdate: "gmongo_ok E view \<Longrightarrow> quiet_call view (k8sUpdate E fn)"
  unfolding k8sUpdate_def by (intro quiet_rules quiet_liftx view_genenv)

lemma wp_quiet:
  assumes "quiet_call view f" and "\<And>r w'. view (outer w') = view (outer w) \<Longrightarrow> same_maps w w' \<Longrightarrow> Q r w'"
  shows "wp f Q w"
  by (rule wpI) (use quiet_callD [OF assms(1)] assms(2) in blast)

end
