(* ===== verification/Gate_Event.thy ===== *)
theory Gate_Event
  imports Gate_Runtime
begin

text \<open>
  Triggers of functions: \<open>src/gate/event.go\<close> with the handlers of \<open>src/gate/cron.go\<close>, \<open>url.go\<close>, \<open>s3.go\<close> and
  \<open>mw-websocket.go\<close>, and the shared consumers of message queues (\<open>src/gate/mq.go\<close>). What adding and
  deleting a trigger needs of its handler is the locale \<open>event_handler\<close>, interpreted on each
  of the four.
\<close>

section \<open>Consumers of message queues\<close>

definition hkey :: "string \<Rightarrow> string \<Rightarrow> string" where
  "hkey url queue = url @ '':'' @ queue"

definition startListener :: "'x gate_env \<Rightarrow> string \<Rightarrow> ('x gst, 'e, string option) go" where
  "startListener E key =
     gbind (gget (\<lambda>w. consumers w key)) (\<lambda>c. case c of
       Some n \<Rightarrow> gbind (gmod (\<lambda>w. w\<lparr>consumers := (consumers w)(key := Some (Suc n))\<rparr>)) (\<lambda>_. gret None)
     | None \<Rightarrow> gbind (liftx (gout (amqp_Consume E key))) (\<lambda>r. case r of
         Some e \<Rightarrow> gret (Some e)
       | None \<Rightarrow> gbind (gmod (\<lambda>w. w\<lparr>consumers := (consumers w)(key := Some 1)\<rparr>)) (\<lambda>_. gret None)))"

definition stopListener :: "'x gate_env \<Rightarrow> string \<Rightarrow> ('x gst, 'e, unit) go" where
  "stopListener E key =
     gbind (gget (\<lambda>w. consumers w key)) (\<lambda>c. case c of
       None \<Rightarrow> gret ()
     | Some n \<Rightarrow> if n - 1 = 0
         then gbind (liftx (gout (amqp_Close E key))) (\<lambda>_. gmod (\<lambda>w. w\<lparr>consumers := (consumers w)(key := None)\<rparr>))
         else gmod (\<lambda>w. w\<lparr>consumers := (consumers w)(key := Some (n - 1))\<rparr>))"

definition mqStartListener :: "'x gate_env \<Rightarrow> string \<Rightarrow> string \<Rightarrow> ('x gst, 'e, string option) go" where
  "mqStartListener E url queue = startListener E (hkey url queue)"

definition mqStopListener :: "'x gate_env \<Rightarrow> string \<Rightarrow> string \<Rightarrow> ('x gst, 'e, unit) go" where
  "mqStopListener E url queue = stopListener E (hkey url queue)"

section \<open>Handlers\<close>

text \<open>
  \<open>start\<close> fills in the event and may fail; what it filled in stays in the event also when it
  fails. \<open>stop\<close> may fail. Using a part the event does not have panics.
\<close>

type_synonym 'x ev_start = "FunctionDesc \<Rightarrow> FnEventDesc \<Rightarrow> ('x gst, ReqErr, FnEventDesc \<times> string option) go"
type_synonym 'x ev_stop = "FnEventDesc \<Rightarrow> ('x gst, ReqErr, string option) go"

definition cron_job :: "'x gate_env \<Rightarrow> FnEventDesc \<Rightarrow> ('x gst, ReqErr, FnEventDesc \<times> string option) go" where
  "cron_job E ed = (case ev_Cron ed of None \<Rightarrow> gpanic | Some c \<Rightarrow>
     gbind (liftx (gout (cron_AddFunc E (cron_Tab c) (ev_FnId ed) (cron_Args c)))) (\<lambda>r. case r of
       Inl e \<Rightarrow> gret (ed, Some e)
     | Inr i \<Rightarrow> gret (ed\<lparr>ev_Cron := Some (c\<lparr>cron_JobID := i\<rparr>)\<rparr>, None)))"

definition cronEventStart :: "'x gate_env \<Rightarrow> 'x ev_start" where
  "cronEventStart E fn ed = cron_job E ed"

definition cronEventStop :: "'x gate_env \<Rightarrow> 'x ev_stop" where
  "cronEventStop E ed = (case ev_Cron ed of None \<Rightarrow> gpanic | Some c \<Rightarrow>
     gbind (liftx (gout (cron_Remove E (cron_JobID c)))) (\<lambda>_. gret None))"

definition urlKey :: "string \<Rightarrow> string" where
  "urlKey fnid = ''url:'' @ fnid"

definition urlClean :: "string \<Rightarrow> string \<Rightarrow> ('x gst, 'e, unit) go" where
  "urlClean typ urlid = gmod (\<lambda>w. w\<lparr>urls := (urls w)(typ @ urlid := None)\<rparr>)"

definition URLFunction :: string where "URLFunction = []"
definition URLRouter :: string where "URLRouter = ''r''"
definition URLAuto :: string where "URLAuto = ''auto''"

definition urlEventStart :: "'x gate_env \<Rightarrow> 'x ev_start" where
  "urlEventStart E fn ed = gret (ed\<lparr>ev_Key := urlKey (fn_Cookie fn)\<rparr>, None)"

definition urlEventStop :: "'x gate_env \<Rightarrow> 'x ev_stop" where
  "urlEventStop E ed = gbind (urlClean URLFunction (ev_FnId ed)) (\<lambda>_. gret None)"

definition s3Key :: "string \<Rightarrow> string \<Rightarrow> string" where
  "s3Key ns bkt = ''s3:'' @ ns @ ''/'' @ bkt"

definition gates3queue :: string where "gates3queue = ''events''"

definition s3EventStart :: "'x gate_env \<Rightarrow> 'x ev_start" where
  "s3EventStart E fn ed = (case (ev_S3 ed, S3mq E) of (Some s, Some mq) \<Rightarrow>
     (let s = s\<lparr>s3_Ns := S3Namespace (Cookify E) (fn_SwoId fn)\<rparr>;
          ed = ed\<lparr>ev_S3 := Some s, ev_Key := s3Key (s3_Ns s) (s3_Bucket s)\<rparr>
      in gbind (mqStartListener E mq gates3queue) (\<lambda>r. case r of
           Some e \<Rightarrow> gret (ed, Some e)
         | None \<Rightarrow> gbind (liftx (gout (s3Call E (S3Subscribe (s3_Ns s) (s3_Bucket s) (s3_Ops s) gates3queue)))) (\<lambda>r. case r of
             None \<Rightarrow> gret (ed, None)
           | Some e \<Rightarrow> gbind (mqStopListener E mq gates3queue) (\<lambda>_. gret (ed, Some e)))))
   | _ \<Rightarrow> gpanic)"

definition s3EventStop :: "'x gate_env \<Rightarrow> 'x ev_stop" where
  "s3EventStop E ed = (case (ev_S3 ed, S3mq E) of (Some s, Some mq) \<Rightarrow>
     gbind (liftx (gout (s3Call E (S3Unsubscribe (s3_Ns s) (s3_Bucket s) (s3_Ops s))))) (\<lambda>r. case r of
       None \<Rightarrow> gbind (mqStopListener E mq gates3queue) (\<lambda>_. gret None)
     | Some e \<Rightarrow> gret (Some e))
   | _ \<Rightarrow> gpanic)"

definition wsKey :: "string \<Rightarrow> string" where
  "wsKey mwid = ''ws:'' @ mwid"

definition wsEventStart :: "'x gate_env \<Rightarrow> 'x ev_start" where
  "wsEventStart E fn ed = (case ev_WS ed of None \<Rightarrow> gpanic | Some s \<Rightarrow>
     gret (ed\<lparr>ev_Key := wsKey (Cookie (Cookify E) ((fn_SwoId fn)\<lparr>Name := ws_MwName s\<rparr>))\<rparr>, None))"

definition wsEventStop :: "'x gate_env \<Rightarrow> 'x ev_stop" where
  "wsEventStop E ed = gret None"

text \<open>The table \<open>evtHandlers\<close>; a source it does not have is a nil handler.\<close>

definition ev_start :: "'x gate_env \<Rightarrow> 'x ev_start" where
  "ev_start E fn ed =
     (if ev_Source ed = ''cron'' then cronEventStart E fn ed
      else if ev_Source ed = ''s3'' then s3EventStart E fn ed
      else if ev_Source ed = ''url'' then urlEventStart E fn ed
      else if ev_Source ed = ''websocket'' then wsEventStart E fn ed
      else gpanic)"

definition ev_stop :: "'x gate_env \<Rightarrow> 'x ev_stop" where
  "ev_stop E ed =
     (if ev_Source ed = ''cron'' then cronEventStop E ed
      else if ev_Source ed = ''s3'' then s3EventStop E ed
      else if ev_Source ed = ''url'' then urlEventStop E ed
      else if ev_Source ed = ''websocket'' then wsEventStop E ed
      else gpanic)"

section \<open>Requests\<close>

record FunctionEvent =
  fe_Name :: string
  fe_URL :: string
  fe_Cron :: "(string \<times> (string \<times> string) list) option"
  fe_S3 :: "(string \<times> string \<times> string) option"
  fe_WS :: "(string \<times> int option) option"

definition guessSource :: "FunctionEvent \<Rightarrow> string" where
  "guessSource evt = (if fe_URL evt \<noteq> [] then ''url'' else if fe_Cron evt \<noteq> None then ''cron''
     else if fe_S3 evt \<noteq> None then ''s3'' else if fe_WS evt \<noteq> None then ''websocket'' else [])"

definition cron_setup :: "FunctionEvent \<Rightarrow> FnEventDesc \<Rightarrow> string + FnEventDesc" where
  "cron_setup evt ed = (case fe_Cron evt of None \<Rightarrow> Inl ''No \"cron\" field''
     | Some (tab, args) \<Rightarrow> Inr (ed\<lparr>ev_Cron := Some \<lparr>cron_Tab = tab, cron_Args = args, cron_JobID = 0\<rparr>\<rparr>))"

definition url_setup :: "FunctionEvent \<Rightarrow> FnEventDesc \<Rightarrow> string + FnEventDesc" where
  "url_setup evt ed = (if fe_URL evt \<noteq> [] \<and> fe_URL evt \<noteq> URLAuto then Inl ''Invalid \"url\" parameter'' else Inr ed)"

definition s3_setup :: "'x gate_env \<Rightarrow> FunctionEvent \<Rightarrow> FnEventDesc \<Rightarrow> string + FnEventDesc" where
  "s3_setup E evt ed = (if S3mq E = None then Inl ''Not enabled'' else case fe_S3 evt of None \<Rightarrow> Inl ''Field \"s3\" missing''
     | Some (b, ops, p) \<Rightarrow> Inr (ed\<lparr>ev_S3 := Some \<lparr>s3_Ns = [], s3_Bucket = b, s3_Ops = ops, s3_Pattern = p\<rparr>\<rparr>))"

definition ws_setup :: "'x gate_env \<Rightarrow> FunctionEvent \<Rightarrow> FnEventDesc \<Rightarrow> string + FnEventDesc" where
  "ws_setup E evt ed = (if conf_WS E = None then Inl ''Not enabled'' else case fe_WS evt of None \<Rightarrow> Inl ''Field \"websocket\" missing''
     | Some (n, t) \<Rightarrow> Inr (ed\<lparr>ev_WS := Some \<lparr>ws_MwName = n, ws_MType = t\<rparr>\<rparr>))"

definition getEventDesc :: "'x gate_env \<Rightarrow> FunctionEvent \<Rightarrow> ReqErr + FnEventDesc" where
  "getEventDesc E evt =
     (let source = guessSource evt;
          ed = \<lparr>ev_ObjID = [], ev_Key = [], ev_FnId = [], ev_Name = fe_Name evt, ev_Source = source,
                ev_Cron = None, ev_S3 = None, ev_WS = None\<rparr>;
          r = (if source = ''cron'' then Some (cron_setup evt ed)
               else if source = ''s3'' then Some (s3_setup E evt ed)
               else if source = ''url'' then Some (url_setup evt ed)
               else if source = ''websocket'' then Some (ws_setup E evt ed) else None)
      in case r of
           None \<Rightarrow> Inl (GateErrM GateBadRequest ''Unsupported event type'')
         | Some (Inl e) \<Rightarrow> Inl (GateErrE GateBadRequest e)
         | Some (Inr ed) \<Rightarrow> Inr ed)"

text \<open>A database error as the error of the API.\<close>

definition or_GateErrD :: "('x, gdberr, 'a) go \<Rightarrow> ('x gst, ReqErr, 'a) go" where
  "or_GateErrD f = gtry (liftx f) (\<lambda>r. case r of Inl e \<Rightarrow> gerr (GateErrD e) | Inr a \<Rightarrow> gret a)"

text \<open>
  The error of \<open>h.start\<close> is not assigned, so the branch that would undo the insertion is never
  taken: the event is stored as \<open>start\<close> left it.
\<close>

definition ev_Add :: "'x gate_env \<Rightarrow> gateContext \<Rightarrow> FunctionDesc \<Rightarrow> FnEventDesc \<Rightarrow> ('x gst, ReqErr, FnEventDesc) go" where
  "ev_Add E ctx fn ed =
     gbind (liftx (gout (gnewid E))) (\<lambda>i.
     let ed = ed\<lparr>ev_ObjID := i, ev_FnId := fn_Cookie fn\<rparr> in
     gbind (or_GateErrD (dbInsert E ctx (GEv ed))) (\<lambda>_.
     gbind (ev_start E fn ed) (\<lambda>(ed, _).
     gtry (liftx (dbUpdateAll E ctx (GEv ed))) (\<lambda>r. case r of
       Inr _ \<Rightarrow> gret ed
     | Inl e \<Rightarrow> gbind (ev_stop E ed) (\<lambda>_. gseq (liftx (dbRemove E ctx (GEv ed))) (gerr (GateErrD e)))))))"

definition clear_key :: "gdoc \<Rightarrow> gdoc" where
  "clear_key d = (case d of GEv e \<Rightarrow> GEv (e\<lparr>ev_Key := []\<rparr>) | _ \<Rightarrow> d)"

text \<open>Deletion, with the handler's \<open>stop\<close>.\<close>

definition delete_with :: "'x gate_env \<Rightarrow> gateContext \<Rightarrow> 'x ev_stop \<Rightarrow> FnEventDesc \<Rightarrow> ('x gst, ReqErr, unit) go" where
  "delete_with E ctx stop ed =
     gbind (or_GateErrD (dbUpdatePart E ctx (GEv ed) clear_key)) (\<lambda>_.
     gbind (stop ed) (\<lambda>r. case r of
       Some _ \<Rightarrow> gerr (GateErrM GateGenErr ''Can't stop event'')
     | None \<Rightarrow> or_GateErrD (dbRemove E ctx (GEv ed))))"

definition ev_Delete :: "'x gate_env \<Rightarrow> gateContext \<Rightarrow> FnEventDesc \<Rightarrow> ('x gst, ReqErr, unit) go" where
  "ev_Delete E ctx ed = delete_with E ctx (ev_stop E) ed"

definition clearAllEvents :: "'x gate_env \<Rightarrow> gateContext \<Rightarrow> FunctionDesc \<Rightarrow> ('x gst, ReqErr, unit) go" where
  "clearAllEvents E ctx fn =
     gbind (or_GateErrD (dbFindAll E DBColEvents (where_field ''fnid'' (fn_Cookie fn)))) (\<lambda>evs.
     geach (\<lambda>d. ev_Delete E ctx (as_Ev d)) evs)"

text \<open>Lookup of the event behind a URL, and the cron events that are started with the gate.\<close>

definition urlEvFind :: "'x gate_env \<Rightarrow> string \<Rightarrow> ('x, gdberr, FnEventDesc) go" where
  "urlEvFind E urlid = gbind (dbFind E DBColEvents (where_field ''key'' (urlKey urlid))) (\<lambda>d. gret (as_Ev d))"

definition cron_boot :: "'x gate_env \<Rightarrow> gateContext \<Rightarrow> gdoc \<Rightarrow> ('x gst, ReqErr, unit) go" where
  "cron_boot E ctx d = gbind (cron_job E (as_Ev d)) (\<lambda>(ed, r). case r of
     Some e \<Rightarrow> gerr (GateErrE GateGenErr e) | None \<Rightarrow> or_GateErrD (dbUpdateAll E ctx (GEv ed)))"

definition cronInit :: "'x gate_env \<Rightarrow> gateContext \<Rightarrow> ('x gst, ReqErr, unit) go" where
  "cronInit E ctx = gbind (or_GateErrD (dbFindAll E DBColEvents (where_field ''source'' ''cron''))) (geach (cron_boot E ctx))"

section \<open>The contract of a handler\<close>

text \<open>What starting and stopping leaves alone: documents and memory data, and of the event its identity.\<close>

definition untouched :: "('x \<Rightarrow> gview) \<Rightarrow> 'x gst \<Rightarrow> 'x gst \<Rightarrow> bool" where
  "untouched view w w' \<longleftrightarrow> view (outer w') = view (outer w) \<and> fdmd w' = fdmd w \<and> tdat w' = tdat w"

definition same_event :: "FnEventDesc \<Rightarrow> FnEventDesc \<Rightarrow> bool" where
  "same_event e e' \<longleftrightarrow> ev_ObjID e' = ev_ObjID e \<and> ev_FnId e' = ev_FnId e \<and> ev_Name e' = ev_Name e \<and> ev_Source e' = ev_Source e"

definition calm_call :: "('x \<Rightarrow> gview) \<Rightarrow> ('a \<Rightarrow> bool) \<Rightarrow> ('x gst, 'e, 'a) go \<Rightarrow> bool" where
  "calm_call view P f \<longleftrightarrow> (\<forall>w r w'. f w = (r, w') \<longrightarrow> untouched view w w' \<and> (\<forall>e. r \<noteq> Err e) \<and> (\<forall>a. r = Ok a \<longrightarrow> P a))"

lemma calm_callD: "calm_call view P f \<Longrightarrow> f w = (r, w') \<Longrightarrow> untouched view w w' \<and> (\<forall>e. r \<noteq> Err e) \<and> (\<forall>a. r = Ok a \<longrightarrow> P a)"
  by (auto simp: calm_call_def)

lemma untouched_trans: "untouched view w w1 \<Longrightarrow> untouched view w1 w2 \<Longrightarrow> untouched view w w2"
  by (simp add: untouched_def)

lemma calm_gret: "P a \<Longrightarrow> calm_call view P (gret a)" "calm_call view P gpanic"
  by (auto simp: calm_call_def go_simps untouched_def)

lemma calm_call_gbind:
  assumes "calm_call view R f" and "\<And>a. R a \<Longrightarrow> calm_call view P (k a)"
  shows "calm_call view P (gbind f k)"
  unfolding calm_call_def
proof (intro allI impI)
  fix w r w'
  assume run: "gbind f k w = (r, w')"
  obtain r1 w1 where f: "f w = (r1, w1)" by fastforce
  note 1 = calm_callD [OF assms(1) f]
  show "untouched view w w' \<and> (\<forall>e. r \<noteq> Err e) \<and> (\<forall>a. r = Ok a \<longrightarrow> P a)"
  proof (cases r1)
    case (Ok a)
    then have "k a w1 = (r, w')" using run f by (simp add: gbind_def)
    from calm_callD [OF assms(2) this] show ?thesis using 1 Ok untouched_trans by blast
  qed (use run f 1 in \<open>auto simp: gbind_def\<close>)
qed

lemma calm_gmod: "(\<And>w. untouched view w (f w)) \<Longrightarrow> calm_call view (\<lambda>_. True) (gmod f)"
  by (simp add: calm_call_def gmod_def)

lemma calm_gget: "calm_call view (\<lambda>_. True) (gget f)"
  by (simp add: calm_call_def gget_def untouched_def)

lemma calm_gout: "(\<And>x. view (snd (f x)) = view x) \<Longrightarrow> calm_call view (\<lambda>_. True) (liftx (gout f))"
  by (auto simp: calm_call_def liftx_def gout_def untouched_def split: prod.splits) (metis snd_conv)

lemma calm_mono: "calm_call view P f \<Longrightarrow> (\<And>a. P a \<Longrightarrow> Q a) \<Longrightarrow> calm_call view Q f"
  by (auto simp: calm_call_def)

lemma wp_calm_call:
  assumes "calm_call view P f"
    and "\<And>a w'. untouched view w w' \<Longrightarrow> P a \<Longrightarrow> Q (Ok a) w'" and "\<And>w'. untouched view w w' \<Longrightarrow> Q Panic w'"
  shows "wp f Q w"
proof (rule wpI)
  fix r w'
  assume "f w = (r, w')"
  from calm_callD [OF assms(1) this] show "Q r w'" using assms(2,3) by (cases r) auto
qed

text \<open>The contract the requests rely on.\<close>

locale event_handler =
  fixes view :: "'x \<Rightarrow> gview" and start :: "'x ev_start" and stop :: "'x ev_stop"
  assumes start_calm: "calm_call view (\<lambda>a. same_event ed (fst a)) (start fn ed)"
    and stop_calm: "calm_call view (\<lambda>_. True) (stop ed)"

text \<open>The documents of events that are not of this function, and all other documents, stay.\<close>

definition ev_frame :: "string \<Rightarrow> gview \<Rightarrow> gview \<Rightarrow> bool" where
  "ev_frame cookie V V' \<longleftrightarrow> gids_ok V' \<and> (\<forall>c. c \<noteq> DBColEvents \<longrightarrow> V' c = V c)
     \<and> (\<forall>i d. \<not> where_field ''fnid'' cookie d \<longrightarrow> (V' DBColEvents i = Some d \<longleftrightarrow> V DBColEvents i = Some d))"

lemma ev_frame_refl: "gids_ok V \<Longrightarrow> ev_frame cookie V V"
  by (simp add: ev_frame_def)

lemma ev_frame_trans: "ev_frame c V V1 \<Longrightarrow> ev_frame c V1 V2 \<Longrightarrow> ev_frame c V V2"
  by (simp add: ev_frame_def)

lemma ev_frame_put:
  assumes "gids_ok V" and "V DBColEvents k = Some (GEv e)" and "ev_FnId e = cookie"
    and "d = None \<or> (\<exists>e'. d = Some (GEv e') \<and> ev_ObjID e' = ev_ObjID e \<and> ev_FnId e' = cookie)"
  shows "ev_frame cookie V (gput DBColEvents k d V)"
proof -
  have "ev_ObjID e = k" using gids_okD [OF assms(1,2)] by simp
  then have "gids_ok (gput DBColEvents k d V)" using assms(1,4) by (auto intro!: gids_ok_put gids_ok_del)
  then show ?thesis
    using assms(2-4) by (auto simp: ev_frame_def gput_def where_field_def doc_field_def)
qed

lemma wp_or_GateErrD: "wp (or_GateErrD f) Q w = wp f (\<lambda>r x. Q (case r of Ok a \<Rightarrow> Ok a | Err e \<Rightarrow> Err (GateErrD e) | Panic \<Rightarrow> Panic)
    (w\<lparr>outer := x\<rparr>)) (outer w)"
  by (auto simp: or_GateErrD_def wp_def gtry_def liftx_def go_simps split: prod.splits res.splits sum.splits)

locale gate_db =
  fixes E :: "'x gate_env" and view :: "'x \<Rightarrow> gview"
  assumes db_ok: "gmongo_ok E view"

context event_handler
begin

lemma wp_delete_with:
  assumes "gmongo_ok E view" and "gids_ok (view (outer w))" and "view (outer w) DBColEvents (ev_ObjID ed) = Some (GEv e)"
    and "ev_FnId e = cookie"
    and "\<And>w'. view (outer w') = gput DBColEvents (ev_ObjID ed) None (view (outer w)) \<Longrightarrow> fdmd w' = fdmd w \<Longrightarrow> tdat w' = tdat w \<Longrightarrow> Q (Ok ()) w'"
    and "\<And>r w'. r \<noteq> Ok () \<Longrightarrow> ev_frame cookie (view (outer w)) (view (outer w')) \<Longrightarrow> fdmd w' = fdmd w \<Longrightarrow> tdat w' = tdat w \<Longrightarrow> Q r w'"
  shows "wp (delete_with E ctx stop ed) Q w"
proof -
  let ?k = "ev_ObjID ed" and ?V = "view (outer w)"
  let ?V1 = "gput DBColEvents ?k (Some (GEv (e\<lparr>ev_Key := []\<rparr>))) ?V"
  have f1: "ev_frame cookie ?V ?V1"
    by (rule ev_frame_put [OF assms(2,3,4)]) (simp add: assms(4))
  have ids1: "gids_ok ?V1" using f1 by (simp add: ev_frame_def)
  have rm: "wp (or_GateErrD (dbRemove E ctx (GEv ed))) Q w1"
    if "view (outer w1) = ?V1" "fdmd w1 = fdmd w" "tdat w1 = tdat w" for w1
    unfolding wp_or_GateErrD
    by (rule wp_dbRemove [OF assms(1), where k = ?k])
      (use that ids1 f1 assms(5,6) in \<open>auto simp: gput_def\<close>)
  show ?thesis
    unfolding delete_with_def wp_simps wp_or_GateErrD dbUpdatePart_2
  proof (rule wp_dbUpdatePart2 [OF assms(1,2), where k = ?k], goal_cases)
    case 1
    show ?case by simp
  next
    case (2 d' x')
    then have "d' = GEv e" using assms(3) by simp
    with 2 have v: "view x' = ?V1" by (simp add: clear_key_def)
    show ?case
      unfolding on_ok_simps res.case
    proof (rule wp_calm_call [OF stop_calm], goal_cases)
      case (1 a w')
      then have "view (outer w') = ?V1" "fdmd w' = fdmd w" "tdat w' = tdat w" using v by (auto simp: untouched_def)
      then show ?case using rm [of w'] f1 assms(6) by (cases a) (auto simp: wp_simps)
    next
      case (2 w')
      then show ?case using f1 v assms(6) by (auto simp: untouched_def)
    qed
  next
    case (3 x')
    then show ?case using assms(3) by simp
  next
    case (4 e x')
    then show ?case using assms(6) ev_frame_refl [OF assms(2)] by simp
  qed
qed

end

section \<open>The four handlers keep it\<close>

lemma calm_stopListener: "gmongo_ok E view \<Longrightarrow> calm_call view (\<lambda>_. True) (stopListener E key)"
  unfolding stopListener_def
  by (rule calm_call_gbind [OF calm_gget])
    (auto split: option.splits intro!: calm_gret calm_call_gbind [OF calm_gout] calm_gmod simp: gambient untouched_def)

lemma calm_startListener: "gmongo_ok E view \<Longrightarrow> calm_call view (\<lambda>_. True) (startListener E key)"
  unfolding startListener_def
  by (rule calm_call_gbind [OF calm_gget])
    (auto split: option.splits intro!: calm_gret calm_call_gbind [OF calm_gout] calm_call_gbind [OF calm_gmod] simp: gambient untouched_def)

lemmas calm_mq = calm_startListener calm_stopListener

context gate_db
begin

lemma cron_start_calm: "calm_call view (\<lambda>a. same_event ed (fst a)) (cronEventStart E fn ed)"
  unfolding cronEventStart_def cron_job_def using gambient [OF db_ok]
  by (auto split: option.splits sum.splits intro!: calm_gret calm_call_gbind [OF calm_gout] simp: same_event_def)

lemma cron_stop_calm: "calm_call view (\<lambda>_. True) (cronEventStop E ed)"
  unfolding cronEventStop_def using gambient [OF db_ok]
  by (auto split: option.splits intro!: calm_gret calm_call_gbind [OF calm_gout])

lemma url_calm: "calm_call view (\<lambda>a. same_event ed (fst a)) (urlEventStart E fn ed)" "calm_call view (\<lambda>_. True) (urlEventStop E ed)"
  unfolding urlEventStart_def urlEventStop_def urlClean_def
  by (auto intro!: calm_gret calm_call_gbind [OF calm_gmod] simp: same_event_def untouched_def)

lemma ws_calm: "calm_call view (\<lambda>a. same_event ed (fst a)) (wsEventStart E fn ed)" "calm_call view (\<lambda>_. True) (wsEventStop E ed)"
  unfolding wsEventStart_def wsEventStop_def
  by (auto split: option.splits intro!: calm_gret simp: same_event_def)

lemma s3_stop_calm: "calm_call view (\<lambda>_. True) (s3EventStop E ed)"
  unfolding s3EventStop_def mqStopListener_def using gambient [OF db_ok]
  by (auto split: option.splits intro!: calm_gret calm_call_gbind [OF calm_gout] calm_call_gbind [OF calm_stopListener [OF db_ok]])

lemma s3_start_calm: "calm_call view (\<lambda>a. same_event ed (fst a)) (s3EventStart E fn ed)"
  unfolding s3EventStart_def mqStartListener_def mqStopListener_def Let_def using gambient [OF db_ok]
  by (auto split: option.splits intro!: calm_gret calm_call_gbind [OF calm_startListener [OF db_ok]] calm_call_gbind [OF calm_gout]
      calm_call_gbind [OF calm_stopListener [OF db_ok]] simp: same_event_def)

end

sublocale gate_db \<subseteq> cron: event_handler view "cronEventStart E" "cronEventStop E"
  by unfold_locales (rule cron_start_calm cron_stop_calm)+

sublocale gate_db \<subseteq> url: event_handler view "urlEventStart E" "urlEventStop E"
  by unfold_locales (rule url_calm)+

sublocale gate_db \<subseteq> s3: event_handler view "s3EventStart E" "s3EventStop E"
  by unfold_locales (rule s3_start_calm s3_stop_calm)+

sublocale gate_db \<subseteq> ws: event_handler view "wsEventStart E" "wsEventStop E"
  by unfold_locales (rule ws_calm)+

text \<open>And so does the table of handlers.\<close>

sublocale gate_db \<subseteq> table: event_handler view "ev_start E" "ev_stop E"
  by unfold_locales
    (auto simp: ev_start_def ev_stop_def intro: cron.start_calm url.start_calm s3.start_calm ws.start_calm
      cron.stop_calm url.stop_calm s3.stop_calm ws.stop_calm calm_gret)

section \<open>Clearing the events of a function\<close>

text \<open>Mid-way: the events of the function that are left are those of the rest of the list.\<close>

definition ev_left :: "string \<Rightarrow> gview \<Rightarrow> gdoc set" where
  "ev_left cookie V = {d. \<exists>i. V DBColEvents i = Some d \<and> where_field ''fnid'' cookie d}"

lemma ev_left_cases:
  assumes "gids_ok V" and "d \<in> ev_left cookie V"
  obtains e where "d = GEv e" "ev_FnId e = cookie" "V DBColEvents (ev_ObjID e) = Some d"
proof -
  obtain i where i: "V DBColEvents i = Some d" "where_field ''fnid'' cookie d" using assms(2) by (auto simp: ev_left_def)
  have "gcoll_of d = DBColEvents" "given_id d = None \<or> given_id d = Some i" using gids_okD [OF assms(1) i(1)] by auto
  then obtain e where "d = GEv e" "ev_ObjID e = i" by (cases d) auto
  then show thesis using that i by (simp add: where_field_def doc_field_def)
qed

lemma ev_left_del:
  assumes "gids_ok V" and "V DBColEvents k = Some x"
  shows "ev_left cookie (gput DBColEvents k None V) = ev_left cookie V - {x}"
proof -
  have "i = k" if "V DBColEvents i = Some x" for i
  proof -
    have "gcoll_of x = DBColEvents" "given_id x = None \<or> given_id x = Some i" "given_id x = None \<or> given_id x = Some k"
      using gids_okD [OF assms(1) that] gids_okD [OF assms] by auto
    then show ?thesis by (cases x) simp_all
  qed
  then have "(\<exists>i. gput DBColEvents k None V DBColEvents i = Some d) \<longleftrightarrow> (\<exists>i. V DBColEvents i = Some d) \<and> d \<noteq> x" for d
    using assms(2) by (metis gput_other gput_same option.inject option.simps(3))
  then show ?thesis by (auto simp: ev_left_def)
qed

context gate_db
begin

lemma wp_clearAllEvents:
  assumes "gids_ok (view (outer w))"
    and "\<And>w'. ev_frame (fn_Cookie fn) (view (outer w)) (view (outer w')) \<Longrightarrow> ev_left (fn_Cookie fn) (view (outer w')) = {} \<Longrightarrow>
      fdmd w' = fdmd w \<Longrightarrow> tdat w' = tdat w \<Longrightarrow> Q (Ok ()) w'"
    and "\<And>r w'. r \<noteq> Ok () \<Longrightarrow> ev_frame (fn_Cookie fn) (view (outer w)) (view (outer w')) \<Longrightarrow> fdmd w' = fdmd w \<Longrightarrow> tdat w' = tdat w \<Longrightarrow> Q r w'"
  shows "wp (clearAllEvents E ctx fn) Q w"
proof -
  let ?c = "fn_Cookie fn" and ?V = "view (outer w)"
  define I where "I xs w' \<longleftrightarrow> ev_frame ?c ?V (view (outer w')) \<and> fdmd w' = fdmd w \<and> tdat w' = tdat w
    \<and> distinct xs \<and> set xs = ev_left ?c (view (outer w'))" for xs and w' :: "'x gst"
  have step: "wp (ev_Delete E ctx (as_Ev x)) (on_ok (\<lambda>_. I xs) Q) w1" if "I (x # xs) w1" for x xs w1
  proof -
    have ids: "gids_ok (view (outer w1))" and x: "x \<in> ev_left ?c (view (outer w1))"
      using that by (auto simp: I_def ev_frame_def)
    obtain e where e: "x = GEv e" "ev_FnId e = ?c" "view (outer w1) DBColEvents (ev_ObjID e) = Some x"
      using ev_left_cases [OF ids x] .
    show ?thesis
      unfolding ev_Delete_def
    proof (rule table.wp_delete_with [OF db_ok ids, where cookie = ?c and e = e], goal_cases)
      case (3 w')
      have "ev_left ?c (view (outer w')) = set xs"
        using ev_left_del [OF ids e(3)] 3(1) that e(1) by (auto simp: I_def)
      moreover have "ev_frame ?c (view (outer w1)) (view (outer w'))"
        unfolding 3(1) using e by (intro ev_frame_put [OF ids, where e = e]) auto
      ultimately show ?case using that 3(2,3) ev_frame_trans by (auto simp: I_def)
    next
      case (4 r w')
      then have "ev_frame ?c ?V (view (outer w'))" "fdmd w' = fdmd w" "tdat w' = tdat w" using that ev_frame_trans by (auto simp: I_def)
      then show ?case using assms(3) [OF 4(1)] 4(1) by (cases r) auto
    qed (use e in auto)
  qed
  show ?thesis
    unfolding clearAllEvents_def wp_simps wp_or_GateErrD
  proof (rule wp_dbFindAll [OF db_ok], goal_cases)
    case (1 ds x')
    then have "I ds (w\<lparr>outer := x'\<rparr>)" using ev_frame_refl [OF assms(1)] by (simp add: I_def ev_left_def)
    then have "wp (geach (\<lambda>d. ev_Delete E ctx (as_Ev d)) ds) Q (w\<lparr>outer := x'\<rparr>)"
    proof (rule wp_geach)
      show "Q (Ok ()) w'" if "I [] w'" for w' using that assms(2) by (auto simp: I_def)
    qed (rule step)
    then show ?case by simp
  next
    case (2 e x')
    then show ?case using assms(3) ev_frame_refl [OF assms(1)] by simp
  qed
qed

end

end
