(* ===== verification/Gate_Func.thy ===== *)
theory Gate_Func
  imports Gate_Event
begin

text \<open>
  Functions: \<open>src/gate/function.go\<close>. A method that changes the descriptor it is called on returns it changed.
  Requests answer with the errors of the API. Starting a new function runs in the background,
  as an operation of its own (\<open>start_bg\<close>).
\<close>

section \<open>States\<close>

definition DBFuncStateIni :: int where "DBFuncStateIni = 1"
definition DBFuncStateStr :: int where "DBFuncStateStr = 2"
definition DBFuncStateRdy :: int where "DBFuncStateRdy = 3"
definition DBFuncStateTrm :: int where "DBFuncStateTrm = 6"
definition DBFuncStateStl :: int where "DBFuncStateStl = 7"
definition DBFuncStateDea :: int where "DBFuncStateDea = 8"
definition DBFuncStateNo :: int where "DBFuncStateNo = - 1"

definition fnStates :: "(int \<times> string) list" where
  "fnStates = [(DBFuncStateIni, ''initializing''), (DBFuncStateStr, ''starting''), (DBFuncStateRdy, ''ready''),
     (DBFuncStateDea, ''deactivated''), (DBFuncStateTrm, ''terminating''), (DBFuncStateStl, ''stalled''), (DBFuncStateNo, ''dead'')]"

lemmas fn_state_defs = DBFuncStateIni_def DBFuncStateStr_def DBFuncStateRdy_def DBFuncStateTrm_def DBFuncStateStl_def
  DBFuncStateDea_def DBFuncStateNo_def

definition upd_fn :: "(FunctionDesc \<Rightarrow> FunctionDesc) \<Rightarrow> gdoc \<Rightarrow> gdoc" where
  "upd_fn f d = (case d of GFn x \<Rightarrow> GFn (f x) | _ \<Rightarrow> d)"

definition in_state :: "int \<Rightarrow> gdoc \<Rightarrow> bool" where
  "in_state from d \<longleftrightarrow> from = - 1 \<or> (case d of GFn x \<Rightarrow> fn_State x = from | _ \<Rightarrow> False)"

definition ToState :: "'x gate_env \<Rightarrow> gateContext \<Rightarrow> FunctionDesc \<Rightarrow> int \<Rightarrow> int \<Rightarrow> ('x gst, gdberr, FunctionDesc) go" where
  "ToState E ctx fn st from =
     gbind (liftx (dbUpdatePart2 E ctx (GFn fn) (in_state from) (upd_fn (\<lambda>x. x\<lparr>fn_State := st\<rparr>)))) (\<lambda>_.
     gret (fn\<lparr>fn_State := st\<rparr>))"

text \<open>The texts of errors.\<close>

definition db_msg :: "gdberr \<Rightarrow> string" where
  "db_msg e = (case e of GNotFound \<Rightarrow> ''not found'' | GDup \<Rightarrow> ''duplicate key'' | GDbErr s \<Rightarrow> s)"

text \<open>The error of a call as a given error of the API.\<close>

definition fail_as :: "('e \<Rightarrow> ReqErr) \<Rightarrow> ('w, 'e, 'a) go \<Rightarrow> ('w, ReqErr, 'a) go" where
  "fail_as m f = gtry f (\<lambda>r. case r of Inl e \<Rightarrow> gerr (m e) | Inr a \<Rightarrow> gret a)"

lemma wp_fail_as [wp_simps]: "wp (fail_as m f) Q w = wp f (\<lambda>r. Q (case r of Ok a \<Rightarrow> Ok a | Err e \<Rightarrow> Err (m e) | Panic \<Rightarrow> Panic)) w"
  by (auto simp: fail_as_def wp_def gtry_def go_simps split: prod.splits res.splits sum.splits)

definition genErr :: "string \<Rightarrow> ReqErr" where
  "genErr = GateErrE GateGenErr"

section \<open>Descriptors\<close>

record FunctionSize =
  sz_Memory :: "64 word"
  sz_Timeout :: "64 word"
  sz_Rate :: "64 word"
  sz_Burst :: "64 word"

record FunctionAdd =
  fa_Name :: string
  fa_Project :: string
  fa_Sources :: "FunctionSources option"
  fa_Lang :: string
  fa_Env :: "string list"
  fa_Size :: FunctionSize
  fa_Mware :: "string list"
  fa_S3Buckets :: "string list"
  fa_Accounts :: "string list"
  fa_UserData :: string
  fa_AuthCtx :: string

definition fix_timeout :: "'x gate_env \<Rightarrow> 64 word \<Rightarrow> string + 64 word" where
  "fix_timeout E t =
     (if t \<noteq> 0 \<and> t > TimeoutMax E * 1000 then Inl ''Too big timeout''
      else let t = (if t = 0 then TimeoutDef E * 1000 else t) in Inr (if isLite E \<and> t > 3000 then 3000 else t))"

definition fix_memory :: "'x gate_env \<Rightarrow> 64 word \<Rightarrow> string + 64 word" where
  "fix_memory E m = (if m = 0 then Inr (MemoryDef E)
     else if m > MemoryMax E \<or> m < MemoryMin E then Inl ''Too small/big memory size'' else Inr m)"

definition fnFixSize :: "'x gate_env \<Rightarrow> FunctionSize \<Rightarrow> string + FunctionSize" where
  "fnFixSize E sz = (case fix_timeout E (sz_Timeout sz) of
     Inl e \<Rightarrow> Inl e
   | Inr t \<Rightarrow> (case fix_memory E (sz_Memory sz) of Inl e \<Rightarrow> Inl e | Inr m \<Rightarrow> Inr (sz\<lparr>sz_Timeout := t, sz_Memory := m\<rparr>)))"

definition guessLang :: "FunctionAdd \<Rightarrow> string option" where
  "guessLang p = (case fa_Sources p of None \<Rightarrow> None | Some s \<Rightarrow>
     let f = (if fsrc_Repo s \<noteq> [] then fsrc_Repo s else fsrc_URL s)
     in if f = [] \<or> rtLangDetect f = [] then None else Some (rtLangDetect f))"

definition new_desc :: "'x gate_env \<Rightarrow> SwoId \<Rightarrow> FunctionAdd \<Rightarrow> string \<Rightarrow> FunctionSize \<Rightarrow> FunctionDesc" where
  "new_desc E i p lang sz = \<lparr>fn_ObjID = [], fn_SwoId = i, fn_Labels = [], fn_Cookie = Cookie (Cookify E) i, fn_PToken = [], fn_State = 0,
     fn_Mware = fa_Mware p, fn_S3Buckets = fa_S3Buckets p, fn_Accounts = fa_Accounts p,
     fn_Code = \<lparr>Lang = lang, Env = fa_Env p\<rparr>, fn_Src = \<lparr>src_Version = [], src_Repo = [], src_File = []\<rparr>,
     fn_Size = \<lparr>Replicas = 1, Mem = sz_Memory sz, Tmo = sz_Timeout sz, Burst = sz_Burst sz, Rate = sz_Rate sz\<rparr>,
     fn_AuthCtx = fa_AuthCtx p, fn_UserData = fa_UserData p\<rparr>"

definition getFunctionDesc :: "'x gate_env \<Rightarrow> SwoId \<Rightarrow> FunctionAdd \<Rightarrow> (ReqErr, FunctionDesc) res" where
  "getFunctionDesc E i p =
     (if fa_Name p = [] then Err (GateErrM GateBadRequest ''No function name'')
      else case (if fa_Lang p \<noteq> [] then Some (fa_Lang p) else guessLang p) of
        None \<Rightarrow> Err (GateErrM GateBadRequest ''No language specified'')
      | Some lang \<Rightarrow> (case NameOK i of
          None \<Rightarrow> Panic
        | Some ok \<Rightarrow> if \<not> ok then Err (GateErrM GateBadRequest ''Bad function name'')
            else (case fnFixSize E (fa_Size p) of
              Inl e \<Rightarrow> Err (GateErrE GateBadRequest e)
            | Inr sz \<Rightarrow>
                if \<not> rtLangEnabled E lang then Err (GateErrM GateBadRequest ''Unsupported language'')
                else if list_ex (\<lambda>v. HasPrefix v ''SWD_'') (fa_Env p)
                then Err (GateErrM GateBadRequest ''Environment var cannot start with SWD_'')
                else Ok (new_desc E i p lang sz))))"

section \<open>Creation\<close>

definition tendatGet :: "'x gate_env \<Rightarrow> gateContext \<Rightarrow> ('x gst, gdberr, TenantMemData) go" where
  "tendatGet E ctx = tendatGetOrInit E (gx_Tenant ctx)"

definition checkFnCount :: "'x gate_env \<Rightarrow> gateContext \<Rightarrow> ('x gst, gdberr, unit) go" where
  "checkFnCount E ctx =
     gbind (tendatGet E ctx) (\<lambda>tmd.
     if td_fnlim tmd = 0 then gret ()
     else gbind (liftx (dbFuncCountTen E ctx)) (\<lambda>nr.
       if word_of_nat nr > td_fnlim tmd then gerr (GDbErr ''Too many functions in project'') else gret ()))"

definition stalled :: "'x gate_env \<Rightarrow> gateContext \<Rightarrow> FunctionDesc \<Rightarrow> ReqErr \<Rightarrow> ('x gst, ReqErr, 'a) go" where
  "stalled E ctx fn cerr = gseq (ToState E ctx fn DBFuncStateStl (- 1)) (gerr cerr)"

definition clean_func :: "'x gate_env \<Rightarrow> gateContext \<Rightarrow> FunctionDesc \<Rightarrow> ReqErr \<Rightarrow> ('x gst, ReqErr, 'a) go" where
  "clean_func E ctx fn cerr = gtry (liftx (dbRemove E ctx (GFn fn))) (\<lambda>r. case r of
     Inl _ \<Rightarrow> stalled E ctx fn cerr | Inr _ \<Rightarrow> gerr cerr)"

definition clean_repo :: "'x gate_env \<Rightarrow> gateContext \<Rightarrow> FunctionDesc \<Rightarrow> ReqErr \<Rightarrow> ('x gst, ReqErr, 'a) go" where
  "clean_repo E ctx fn cerr = gtry (liftx (removeSources E fn)) (\<lambda>r. case r of
     Inl _ \<Rightarrow> stalled E ctx fn cerr | Inr _ \<Rightarrow> clean_func E ctx fn cerr)"

definition demo_sources :: "'x gate_env \<Rightarrow> FunctionDesc \<Rightarrow> FunctionSources option" where
  "demo_sources E fn = map_option (\<lambda>s. \<lparr>fsrc_Repo = DemoSources E @ ''/'' @ s, fsrc_Code = [], fsrc_URL = [], fsrc_Sync = False\<rparr>)
     (rtScriptName (fn_Code fn) [])"

text \<open>From the insertion on: limits, sources, and the state that lets the function be started.\<close>

definition add_inserted :: "'x gate_env \<Rightarrow> gateContext \<Rightarrow> FunctionDesc \<Rightarrow> FunctionSources \<Rightarrow> ('x gst, ReqErr, FunctionDesc) go" where
  "add_inserted E ctx fn src =
     gtry (checkFnCount E ctx) (\<lambda>r. case r of
       Inl _ \<Rightarrow> clean_func E ctx fn (GateErrC GateLimitHit)
     | Inr _ \<Rightarrow> gtry (liftx (putSources E fn src)) (\<lambda>r. case r of
         Inl e \<Rightarrow> clean_func E ctx fn (genErr e)
       | Inr fn \<Rightarrow> (let fn = fn\<lparr>fn_State := DBFuncStateStr\<rparr> in
           gtry (liftx (dbUpdatePart E ctx (GFn fn) (upd_fn (\<lambda>x. x\<lparr>fn_Src := fn_Src fn, fn_State := fn_State fn\<rparr>)))) (\<lambda>r. case r of
             Inl e \<Rightarrow> clean_repo E ctx fn (GateErrD e)
           | Inr _ \<Rightarrow> gbind (liftx (fail_as GateErrD (logSaveEvent E ctx (fn_Cookie fn) ''registered''))) (\<lambda>_. gret fn)))))"

definition PodTokenLen :: nat where "PodTokenLen = 64"

definition fn_Add :: "'x gate_env \<Rightarrow> gateContext \<Rightarrow> FunctionDesc \<Rightarrow> FunctionSources option \<Rightarrow> ('x gst, ReqErr, FunctionDesc) go" where
  "fn_Add E ctx fn srcs =
     gbind (case srcs of Some s \<Rightarrow> gret s | None \<Rightarrow> deref (demo_sources E fn)) (\<lambda>src.
     gbind (liftx (gout (GenRandId E PodTokenLen))) (\<lambda>tok. case tok of
       None \<Rightarrow> gerr (GateErrM GateGenErr ''error generating token'')
     | Some t \<Rightarrow> gbind (liftx (gout (gnewid E))) (\<lambda>i.
         let fn = fn\<lparr>fn_PToken := t, fn_ObjID := i, fn_State := DBFuncStateIni\<rparr>
         in gbind (or_GateErrD (dbInsert E ctx (GFn fn))) (\<lambda>_. add_inserted E ctx fn src))))"

definition fn_Start :: "'x gate_env \<Rightarrow> FunctionDesc \<Rightarrow> ('x gst, string, unit) go" where
  "fn_Start E fn = gbind (liftx (tryBuildFunction E fn [])) (\<lambda>_. k8sRun E fn)"

text \<open>The goroutine \<open>Add\<close> starts.\<close>

definition start_bg :: "'x gate_env \<Rightarrow> gateContext \<Rightarrow> FunctionDesc \<Rightarrow> ('x gst, string, unit) go" where
  "start_bg E ctx fn = gtry (fn_Start E fn) (\<lambda>r. case r of
     Inl _ \<Rightarrow> gseq (ToState E ctx fn DBFuncStateStl (- 1)) (gret ()) | Inr _ \<Rightarrow> gret ())"

section \<open>Updates\<close>

definition fn_upd :: "'x gate_env \<Rightarrow> gateContext \<Rightarrow> FunctionDesc \<Rightarrow> (FunctionDesc \<Rightarrow> FunctionDesc) \<Rightarrow> ('x gst, gdberr, FunctionDesc) go" where
  "fn_upd E ctx fn f = gbind (liftx (dbUpdatePart E ctx (GFn fn) (upd_fn f))) (\<lambda>_. gret (f fn))"

definition setUserData :: "'x gate_env \<Rightarrow> gateContext \<Rightarrow> FunctionDesc \<Rightarrow> string \<Rightarrow> ('x gst, gdberr, FunctionDesc) go" where
  "setUserData E ctx fn ud = fn_upd E ctx fn (\<lambda>x. x\<lparr>fn_UserData := ud\<rparr>)"

definition on_md :: "string \<Rightarrow> (FnMemData \<Rightarrow> FnMemData) \<Rightarrow> ('x gst, 'e, unit) go" where
  "on_md cookie f = gmod (\<lambda>w. w\<lparr>fdmd := (fdmd w)(cookie := map_option f (fdmd w cookie))\<rparr>)"

definition setAuthCtx :: "'x gate_env \<Rightarrow> cfb \<Rightarrow> string \<Rightarrow> gateContext \<Rightarrow> FunctionDesc \<Rightarrow> string \<Rightarrow> ('x gst, ReqErr, FunctionDesc) go" where
  "setAuthCtx E C pas ctx fn ac =
     gbind (if ac \<noteq> [] then gbind (fail_as (\<lambda>e. genErr (db_msg e)) (liftx (authCtxGet E C pas (fn_SwoId fn) ac))) (\<lambda>k. gret (Some k))
            else gret None) (\<lambda>nac.
     gbind (fail_as GateErrD (fn_upd E ctx fn (\<lambda>x. x\<lparr>fn_AuthCtx := ac\<rparr>))) (\<lambda>fn.
     gbind (on_md (fn_Cookie fn) (\<lambda>md. md\<lparr>md_ac := nac\<rparr>)) (\<lambda>_. gret fn)))"

definition redeploy :: "'x gate_env \<Rightarrow> FunctionDesc \<Rightarrow> ('x gst, ReqErr, FunctionDesc) go" where
  "redeploy E fn = (if fn_State fn = DBFuncStateRdy then gseq (k8sUpdate E fn) (gret fn) else gret fn)"

definition setEnv :: "'x gate_env \<Rightarrow> gateContext \<Rightarrow> FunctionDesc \<Rightarrow> string list \<Rightarrow> ('x gst, ReqErr, FunctionDesc) go" where
  "setEnv E ctx fn env =
     gbind (fail_as (\<lambda>e. genErr (db_msg e)) (fn_upd E ctx fn (\<lambda>x. x\<lparr>fn_Code := (fn_Code x)\<lparr>Env := env\<rparr>\<rparr>))) (\<lambda>fn.
     gseq (k8sUpdate E fn) (gret fn))"

definition fix_rl :: "int \<Rightarrow> FnSizeDesc \<Rightarrow> RL option \<Rightarrow> RL option" where
  "fix_rl now s crl = (if Rate s \<noteq> 0 then Some (case crl of Some r \<Rightarrow> Update (Burst s) (Rate s) now r | None \<Rightarrow> MakeRL (Burst s) (Rate s) now)
     else None)"

definition setSize :: "'x gate_env \<Rightarrow> gateContext \<Rightarrow> FunctionDesc \<Rightarrow> FunctionSize \<Rightarrow> ('x gst, ReqErr, FunctionDesc) go" where
  "setSize E ctx fn sz = (case fnFixSize E sz of
     Inl e \<Rightarrow> gerr (genErr e)
   | Inr sz \<Rightarrow>
      (let old = fn_Size fn;
           mfix = (Mem old \<noteq> sz_Memory sz);
           rlfix = (sz_Rate sz \<noteq> Rate old \<or> sz_Burst sz \<noteq> Burst old);
           restart = (Tmo old \<noteq> sz_Timeout sz \<or> mfix)
       in if \<not> restart \<and> \<not> rlfix then gret fn
          else gbind (fail_as GateErrD (fn_upd E ctx fn (\<lambda>x. x\<lparr>fn_Size := (fn_Size x)
                 \<lparr>Tmo := (if Tmo old \<noteq> sz_Timeout sz then sz_Timeout sz else Tmo (fn_Size x)),
                  Mem := (if mfix then sz_Memory sz else Mem (fn_Size x)),
                  Rate := (if rlfix then sz_Rate sz else Rate (fn_Size x)),
                  Burst := (if rlfix then sz_Burst sz else Burst (fn_Size x))\<rparr>\<rparr>))) (\<lambda>fn.
               gbind (liftx (gout (gnow E))) (\<lambda>now.
               gbind (on_md (fn_Cookie fn) (\<lambda>md. md\<lparr>md_mem := (if mfix then Mem (fn_Size fn) else md_mem md),
                 md_crl := (if rlfix then fix_rl now (fn_Size fn) (md_crl md) else md_crl md)\<rparr>)) (\<lambda>_.
               if restart then redeploy E fn else gret fn)))))"

definition fn_updateSources :: "'x gate_env \<Rightarrow> gateContext \<Rightarrow> FunctionDesc \<Rightarrow> FunctionSources \<Rightarrow> ('x gst, ReqErr, FunctionDesc) go" where
  "fn_updateSources E ctx fn src =
     (let olds = fn_State fn
      in if olds \<noteq> DBFuncStateRdy \<and> olds \<noteq> DBFuncStateStl then gerr (GateErrM GateGenErr ''Function should be running or stalled'')
         else gbind (fail_as genErr (liftx (updateSources E fn src))) (\<lambda>fn.
              gbind (fail_as genErr (liftx (tryBuildFunction E fn []))) (\<lambda>_.
              let fn = (if olds = DBFuncStateStl then fn\<lparr>fn_State := DBFuncStateStr\<rparr> else fn) in
              gbind (or_GateErrD (dbUpdatePart E ctx (GFn fn) (upd_fn (\<lambda>x. x\<lparr>fn_Src := fn_Src fn,
                fn_State := (if olds = DBFuncStateStl then fn_State fn else fn_State x)\<rparr>)))) (\<lambda>_.
              gbind (if olds = DBFuncStateRdy then gseq (k8sUpdate E fn) (gret ())
                     else gtry (k8sRun E fn) (\<lambda>r. case r of
                       Inr _ \<Rightarrow> gret () | Inl e \<Rightarrow> gseq (ToState E ctx fn DBFuncStateStl (- 1)) (gerr (genErr e)))) (\<lambda>_.
              gbind (liftx (fail_as GateErrD (logSaveEvent E ctx (fn_Cookie fn) (''updated to: '' @ src_Version (fn_Src fn))))) (\<lambda>_.
              gret fn))))))"

section \<open>What is attached to a function\<close>

definition attach :: "'x gate_env \<Rightarrow> gateContext \<Rightarrow> (FunctionDesc \<Rightarrow> string list) \<Rightarrow> ((string list \<Rightarrow> string list) \<Rightarrow> FunctionDesc \<Rightarrow> FunctionDesc)
    \<Rightarrow> FunctionDesc \<Rightarrow> string \<Rightarrow> ('x gst, gdberr, unit) go" where
  "attach E ctx get upd fn v = liftx (dbFuncUpdate E ctx
     (\<lambda>d. has_id (fn_ObjID fn) d \<and> (case d of GFn x \<Rightarrow> v \<notin> set (get x) | _ \<Rightarrow> False)) (upd_fn (upd (\<lambda>l. l @ [v]))))"

definition detach :: "'x gate_env \<Rightarrow> gateContext \<Rightarrow> (gdoc \<Rightarrow> bool) \<Rightarrow> ((string list \<Rightarrow> string list) \<Rightarrow> FunctionDesc \<Rightarrow> FunctionDesc)
    \<Rightarrow> FunctionDesc \<Rightarrow> string \<Rightarrow> ('x gst, gdberr, unit) go" where
  "detach E ctx q upd fn v = liftx (dbFuncUpdate E ctx (\<lambda>d. has_id (fn_ObjID fn) d \<and> q d) (upd_fn (upd (removeAll v))))"

definition addMware :: "'x gate_env \<Rightarrow> gateContext \<Rightarrow> FunctionDesc \<Rightarrow> string \<Rightarrow> ('x gst, ReqErr, FunctionDesc) go" where
  "addMware E ctx fn mw =
     gbind (fail_as (\<lambda>e. if e = GNotFound then GateErrM GateDuplicate ''Mware %s already there'' else GateErrD e)
       (attach E ctx fn_Mware fn_Mware_update fn mw)) (\<lambda>_.
     redeploy E (fn\<lparr>fn_Mware := fn_Mware fn @ [mw]\<rparr>))"

definition delMware :: "'x gate_env \<Rightarrow> gateContext \<Rightarrow> FunctionDesc \<Rightarrow> string \<Rightarrow> ('x gst, ReqErr, FunctionDesc) go" where
  "delMware E ctx fn mw =
     (if mw \<notin> set (fn_Mware fn) then gerr (GateErrM GateNotFound ''Mware not attached'')
      else gbind (fail_as GateErrD (detach E ctx (\<lambda>_. True) fn_Mware_update fn mw)) (\<lambda>_.
           redeploy E (fn\<lparr>fn_Mware := remove1 mw (fn_Mware fn)\<rparr>)))"

definition addAccount :: "'x gate_env \<Rightarrow> gateContext \<Rightarrow> FunctionDesc \<Rightarrow> string \<Rightarrow> ('x gst, ReqErr, FunctionDesc) go" where
  "addAccount E ctx fn aid =
     gbind (fail_as (\<lambda>e. if e = GNotFound then GateErrM GateBadRequest ''Account already attached'' else GateErrD e)
       (attach E ctx fn_Accounts fn_Accounts_update fn aid)) (\<lambda>_.
     redeploy E (fn\<lparr>fn_Accounts := fn_Accounts fn @ [aid]\<rparr>))"

definition delAccount :: "'x gate_env \<Rightarrow> gateContext \<Rightarrow> FunctionDesc \<Rightarrow> string \<Rightarrow> ('x gst, ReqErr, FunctionDesc) go" where
  "delAccount E ctx fn aid =
     gbind (fail_as (\<lambda>e. if e = GNotFound then GateErrM GateBadRequest ''Account not attached'' else GateErrD e)
       (detach E ctx (\<lambda>d. case d of GFn x \<Rightarrow> aid \<in> set (fn_Accounts x) | _ \<Rightarrow> False) fn_Accounts_update fn aid)) (\<lambda>_.
     redeploy E (fn\<lparr>fn_Accounts := remove1 aid (fn_Accounts fn)\<rparr>))"

definition addS3Bucket :: "'x gate_env \<Rightarrow> gateContext \<Rightarrow> FunctionDesc \<Rightarrow> string \<Rightarrow> ('x gst, ReqErr, FunctionDesc) go" where
  "addS3Bucket E ctx fn b =
     gbind (fail_as (\<lambda>e. genErr (if e = GNotFound then ''Bucket already there'' else db_msg e))
       (attach E ctx fn_S3Buckets fn_S3Buckets_update fn b)) (\<lambda>_.
     redeploy E (fn\<lparr>fn_S3Buckets := fn_S3Buckets fn @ [b]\<rparr>))"

definition delS3Bucket :: "'x gate_env \<Rightarrow> gateContext \<Rightarrow> FunctionDesc \<Rightarrow> string \<Rightarrow> ('x gst, ReqErr, FunctionDesc) go" where
  "delS3Bucket E ctx fn b =
     (if b \<notin> set (fn_S3Buckets fn) then gerr (genErr ''Bucket not attached'')
      else gbind (fail_as (\<lambda>e. genErr (db_msg e)) (detach E ctx (\<lambda>_. True) fn_S3Buckets_update fn b)) (\<lambda>_.
           redeploy E (fn\<lparr>fn_S3Buckets := remove1 b (fn_S3Buckets fn)\<rparr>)))"

section \<open>Life cycle\<close>

definition may_terminate :: "int \<Rightarrow> bool" where
  "may_terminate st \<longleftrightarrow> st = DBFuncStateDea \<or> st = DBFuncStateStr \<or> st = DBFuncStateRdy \<or> st = DBFuncStateStl \<or> st = DBFuncStateTrm"

text \<open>\<open>Del\<close>, after the function is marked as terminating, from its last step backwards.\<close>

definition drop_desc :: "'x gate_env \<Rightarrow> gateContext \<Rightarrow> FunctionDesc \<Rightarrow> ('x gst, ReqErr, unit) go" where
  "drop_desc E ctx fn =
     gbind (fail_as genErr (liftx (removeSources E fn))) (\<lambda>_.
     gbind (memdGone fn) (\<lambda>_.
     fail_as (\<lambda>e. genErr (db_msg e)) (liftx (dbRemove E ctx (GFn fn)))))"

definition drop_logs :: "'x gate_env \<Rightarrow> gateContext \<Rightarrow> FunctionDesc \<Rightarrow> ('x gst, ReqErr, unit) go" where
  "drop_logs E ctx fn = gbind (fail_as (\<lambda>e. genErr (db_msg e)) (liftx (logRemove E ctx fn))) (\<lambda>_. drop_desc E ctx fn)"

definition drop_stats :: "'x gate_env \<Rightarrow> cfb \<Rightarrow> string \<Rightarrow> gateContext \<Rightarrow> FunctionDesc \<Rightarrow> ('x gst, ReqErr, unit) go" where
  "drop_stats E C pas ctx fn = gbind (fail_as (\<lambda>e. genErr (db_msg e)) (statsDrop E C pas ctx fn)) (\<lambda>_. drop_logs E ctx fn)"

definition drop_events :: "'x gate_env \<Rightarrow> cfb \<Rightarrow> string \<Rightarrow> gateContext \<Rightarrow> FunctionDesc \<Rightarrow> ('x gst, ReqErr, unit) go" where
  "drop_events E C pas ctx fn = gbind (fail_as (\<lambda>e. genErr (re_Message e)) (clearAllEvents E ctx fn)) (\<lambda>_. drop_stats E C pas ctx fn)"

definition del_rest :: "'x gate_env \<Rightarrow> cfb \<Rightarrow> string \<Rightarrow> gateContext \<Rightarrow> bool \<Rightarrow> FunctionDesc \<Rightarrow> ('x gst, ReqErr, unit) go" where
  "del_rest E C pas ctx dea fn =
     gbind (if \<not> dea then fail_as genErr (k8sRemove E fn) else gret ()) (\<lambda>_. drop_events E C pas ctx fn)"

definition fn_Del :: "'x gate_env \<Rightarrow> cfb \<Rightarrow> string \<Rightarrow> gateContext \<Rightarrow> FunctionDesc \<Rightarrow> ('x gst, ReqErr, unit) go" where
  "fn_Del E C pas ctx fn =
     (if \<not> may_terminate (fn_State fn) then gerr (GateErrM GateGenErr ''Cannot terminate fn'')
      else gbind (fail_as (\<lambda>_. GateErrM GateGenErr ''Cannot terminate fn'') (ToState E ctx fn DBFuncStateTrm (fn_State fn))) (\<lambda>fn'.
           del_rest E C pas ctx (fn_State fn = DBFuncStateDea) fn'))"

definition find_fn :: "'x gate_env \<Rightarrow> SwoId \<Rightarrow> ('x gst, ReqErr, FunctionDesc) go" where
  "find_fn E i = gbind (or_GateErrD (dbFind E DBColFunc (where_field ''cookie'' (Cookie (Cookify E) i)))) (\<lambda>d. gret (as_Fn d))"

definition removeFunctionId :: "'x gate_env \<Rightarrow> cfb \<Rightarrow> string \<Rightarrow> gateContext \<Rightarrow> SwoId \<Rightarrow> ('x gst, ReqErr, unit) go" where
  "removeFunctionId E C pas ctx i = gbind (find_fn E i) (fn_Del E C pas ctx)"

text \<open>A pod of the function came up: the error of the update is dropped, a missing function is only logged.\<close>

definition notifyPodUp :: "'x gate_env \<Rightarrow> gateContext \<Rightarrow> SwoId \<Rightarrow> ('x gst, ReqErr, unit) go" where
  "notifyPodUp E ctx i = gtry (find_fn E i) (\<lambda>r. case r of
     Inl _ \<Rightarrow> gret ()
   | Inr fn \<Rightarrow> if fn_State fn \<noteq> DBFuncStateRdy then gseq (ToState E ctx fn DBFuncStateRdy (- 1)) (gret ()) else gret ())"

definition deactivateFunction :: "'x gate_env \<Rightarrow> gateContext \<Rightarrow> FunctionDesc \<Rightarrow> ('x gst, ReqErr, FunctionDesc) go" where
  "deactivateFunction E ctx fn =
     (if fn_State fn \<noteq> DBFuncStateRdy then gerr (GateErrM GateGenErr ''Function is not ready'')
      else gbind (fail_as (\<lambda>_. GateErrM GateGenErr ''Cannot deactivate function'') (ToState E ctx fn DBFuncStateDea (fn_State fn))) (\<lambda>fn.
           gtry (k8sRemove E fn) (\<lambda>r. case r of
             Inr _ \<Rightarrow> gret fn
           | Inl _ \<Rightarrow> gseq (ToState E ctx fn DBFuncStateRdy (- 1)) (gerr (GateErrM GateGenErr ''Cannot deactivate function'')))))"

definition activateFunction :: "'x gate_env \<Rightarrow> gateContext \<Rightarrow> FunctionDesc \<Rightarrow> ('x gst, ReqErr, FunctionDesc) go" where
  "activateFunction E ctx fn =
     (if fn_State fn \<noteq> DBFuncStateDea then gerr (GateErrM GateGenErr ''Function is not deactivated'')
      else gbind (fail_as (\<lambda>_. GateErrM GateGenErr ''Cannot activate function'') (ToState E ctx fn DBFuncStateStr DBFuncStateDea)) (\<lambda>fn.
           gtry (k8sRun E fn) (\<lambda>r. case r of
             Inr _ \<Rightarrow> gret fn
           | Inl _ \<Rightarrow> gseq (ToState E ctx fn DBFuncStateDea (- 1)) (gerr (GateErrM GateGenErr ''Cannot activate FN'')))))"

definition setState :: "'x gate_env \<Rightarrow> gateContext \<Rightarrow> FunctionDesc \<Rightarrow> string \<Rightarrow> ('x gst, ReqErr, FunctionDesc) go" where
  "setState E ctx fn st =
     (if Some st = map_of fnStates DBFuncStateDea then deactivateFunction E ctx fn
      else if Some st = map_of fnStates DBFuncStateRdy then activateFunction E ctx fn
      else gerr (GateErrM GateNotAvail ''Cannot set this state''))"

definition fn_Upd :: "'x gate_env \<Rightarrow> gateContext \<Rightarrow> FunctionDesc \<Rightarrow> string option \<Rightarrow> string \<Rightarrow> ('x gst, ReqErr, FunctionDesc) go" where
  "fn_Upd E ctx fn ud st =
     gbind (case ud of Some u \<Rightarrow> fail_as (\<lambda>e. genErr (db_msg e)) (setUserData E ctx fn u) | None \<Rightarrow> gret fn) (\<lambda>fn.
     if st \<noteq> [] then setState E ctx fn st else gret fn)"

section \<open>Accepted functions are well-formed\<close>

text \<open>The limits of the configuration make sense.\<close>

definition sizes_ok :: "'x gate_env \<Rightarrow> bool" where
  "sizes_ok E \<longleftrightarrow> TimeoutDef E * 1000 \<le> TimeoutMax E * 1000 \<and> 3000 \<le> TimeoutMax E * 1000
     \<and> MemoryMin E \<le> MemoryDef E \<and> MemoryDef E \<le> MemoryMax E"

definition wf_desc :: "'x gate_env \<Rightarrow> FunctionDesc \<Rightarrow> bool" where
  "wf_desc E fn \<longleftrightarrow> NameOK (fn_SwoId fn) = Some True \<and> fn_Cookie fn = Cookie (Cookify E) (fn_SwoId fn)
     \<and> rtLangEnabled E (Lang (fn_Code fn)) \<and> (\<forall>v\<in>set (Env (fn_Code fn)). \<not> HasPrefix v ''SWD_'')
     \<and> Tmo (fn_Size fn) \<le> TimeoutMax E * 1000 \<and> MemoryMin E \<le> Mem (fn_Size fn) \<and> Mem (fn_Size fn) \<le> MemoryMax E"

lemma fix_timeout_le: "sizes_ok E \<Longrightarrow> fix_timeout E t = Inr t' \<Longrightarrow> t' \<le> TimeoutMax E * 1000"
  by (auto simp: fix_timeout_def sizes_ok_def Let_def not_less split: if_splits)

lemma fix_memory_le: "sizes_ok E \<Longrightarrow> fix_memory E m = Inr m' \<Longrightarrow> MemoryMin E \<le> m' \<and> m' \<le> MemoryMax E"
  by (auto simp: fix_memory_def sizes_ok_def not_less split: if_splits)

lemma fnFixSize_le: "sizes_ok E \<Longrightarrow> fnFixSize E sz = Inr sz' \<Longrightarrow>
    sz_Timeout sz' \<le> TimeoutMax E * 1000 \<and> MemoryMin E \<le> sz_Memory sz' \<and> sz_Memory sz' \<le> MemoryMax E"
  using fix_timeout_le fix_memory_le by (fastforce simp: fnFixSize_def split: sum.splits)

text \<open>A known language has everything a deployment needs.\<close>

lemma known_lang: "rtLangEnabled E (Lang c) \<Longrightarrow>
    \<exists>b code pkgs. rtNeedToBuild c = Some b \<and> rtCodePath c = Some code \<and> rtPackages E i (Lang c) = Some pkgs"
  by (auto simp: rtLangEnabled_def rtNeedToBuild_def rtCodePath_def rtPackages_def)

definition no_panic :: "('w, 'e, 'a) go \<Rightarrow> bool" where
  "no_panic f \<longleftrightarrow> (\<forall>w. fst (f w) \<noteq> Panic)"


lemma no_panic_gbind:
  assumes "no_panic f" and "\<And>a. no_panic (k a)"
  shows "no_panic (gbind f k)"
  unfolding no_panic_def
proof
  fix w
  obtain r w1 where f: "f w = (r, w1)" by fastforce
  then have "r \<noteq> Panic" using assms(1) unfolding no_panic_def by (metis fst_conv)
  then show "fst (gbind f k w) \<noteq> Panic" using f assms(2) by (cases r) (auto simp: gbind_def no_panic_def)
qed

lemma no_panic_gtry:
  assumes "no_panic f" and "\<And>a. no_panic (k a)"
  shows "no_panic (gtry f k)"
  unfolding no_panic_def
proof
  fix w
  obtain r w1 where f: "f w = (r, w1)" by fastforce
  then have "r \<noteq> Panic" using assms(1) unfolding no_panic_def by (metis fst_conv)
  then show "fst (gtry f k w) \<noteq> Panic" using f assms(2) by (cases r) (auto simp: gtry_def no_panic_def)
qed

lemma no_panic_basic:
  "no_panic (gret a)" "no_panic (gerr e)" "no_panic (gout g)" "no_panic (gmod u)" "no_panic (on_bd c h)" "no_panic (deref (Some a))"
  "no_panic (gcall E r)"
  by (simp_all add: no_panic_def go_simps gout_def gmod_def on_bd_def deref_def gcall_def split: prod.splits greply.splits)

lemma no_panic_liftx: "no_panic f \<Longrightarrow> no_panic (liftx f)"
  by (simp add: no_panic_def liftx_def split: prod.splits) (metis fst_conv)

lemmas no_panic_rules = no_panic_basic no_panic_gbind no_panic_gtry no_panic_liftx

lemma no_panic_kcall: "no_panic (kcall E r)"
  unfolding kcall_def by (intro no_panic_rules) (auto intro!: no_panic_rules split: k8s_reply.splits)

lemma no_panic_logSaveResult: "no_panic (logSaveResult E c e s t)"
  unfolding logSaveResult_def gseq_def by (intro no_panic_rules) (auto intro!: no_panic_rules)

lemma no_panic_build: "no_panic (buildFunction E fn suf)"
  unfolding buildFunction_def
  by (intro no_panic_rules) (auto intro!: no_panic_rules no_panic_logSaveResult split: sum.splits)

lemma wp_kcall_any:
  assumes "gmongo_ok E view" and "\<And>r w'. r \<noteq> Panic \<Longrightarrow> view (outer w') = view (outer w) \<Longrightarrow> Q r w'"
  shows "wp (kcall E k) Q w"
proof (rule wpI)
  fix r w' assume run: "kcall E k w = (r, w')"
  then have "r \<noteq> Panic" using no_panic_kcall [of E k] unfolding no_panic_def by (metis fst_conv)
  then show "Q r w'" using assms(2) quiet_callD [OF quiet_kcall [OF assms(1)] run] by blast
qed

text \<open>The environment of a pod is always found when no ready middleware is broken.\<close>

lemma wp_genenv:
  assumes "gmongo_ok E view" and "gids_ok (view x)" "mware_sane E (view x)" and "\<And>env x'. view x' = view x \<Longrightarrow> Q (Ok env) x'"
  shows "wp (k8sGenEnvVar E fn) Q x"
  unfolding k8sGenEnvVar_def by (rule wp_env_attached [OF assms(1-3)]) (rule assms(4))

lemma wp_k8sUpdate:
  assumes "gmongo_ok E view" and "gids_ok (view (outer w))" "mware_sane E (view (outer w))"
    and "\<And>r w'. r \<noteq> Panic \<Longrightarrow> view (outer w') = view (outer w) \<Longrightarrow> Q r w'"
  shows "wp (k8sUpdate E fn) Q w"
  unfolding k8sUpdate_def wp_gbind
proof (rule wp_kcall_any [OF assms(1)])
  fix r :: "(string, unit) res" and w1 :: "'a gst" assume r: "r \<noteq> Panic" and v: "view (outer w1) = view (outer w)"
  have "wp (liftx (k8sGenEnvVar E fn)) (on_ok (\<lambda>env. wp (kcall E (KUpdateDep (dep_spec E fn [] None env))) Q) Q) w1"
    unfolding wp_liftx
    by (rule wp_genenv [OF assms(1)]) (use v assms(2-) in \<open>auto intro!: wp_kcall_any [OF assms(1)]\<close>)
  then show "on_ok (\<lambda>_. wp (liftx (k8sGenEnvVar E fn)) (on_ok (\<lambda>env. wp (kcall E (KUpdateDep (dep_spec E fn [] None env))) Q) Q)) Q r w1"
    using r v assms(4) by (cases r) auto
qed

text \<open>What a build prints goes to the log.\<close>

definition logged :: "gview \<Rightarrow> gview \<Rightarrow> bool" where
  "logged V V' \<longleftrightarrow> (gids_ok V \<longrightarrow> gids_ok V') \<and> V' DBColMware = V DBColMware"

lemma logged_refl [simp]: "logged V V"
  by (simp add: logged_def)

lemma wp_log_insert:
  assumes E: "gmongo_ok E view" and "logged V (view x)" and "\<And>r x'. r \<noteq> Panic \<Longrightarrow> logged V (view x') \<Longrightarrow> Q r x'"
  shows "wp (gcall E (GInsert (log_doc c e t s))) Q x"
  by (rule wp_gcall [OF E])
     (use assms(2,3) in \<open>auto simp: log_doc_def logged_def gids_ok_put split: greply.splits\<close>)

lemma wp_logSaveResult_any:
  assumes E: "gmongo_ok E view" and "logged V (view x)" and Q: "\<And>x'. logged V (view x') \<Longrightarrow> Q (Ok ()) x'"
  shows "wp (logSaveResult E c e so se) Q x"
  unfolding logSaveResult_def wp_simps on_ok_simps
  using assms(2)
  by (auto simp: wp_simps gambient [OF E] on_any_def intro!: wp_log_insert [OF E] Q split: res.splits)

lemma wp_tryBuild:
  assumes E: "gmongo_ok E view" and b: "rtNeedToBuild (fn_Code fn) = Some b"
    and Q: "\<And>r x'. r \<noteq> Panic \<Longrightarrow> logged (view x) (view x') \<Longrightarrow> Q r x'"
  shows "wp (tryBuildFunction E fn suf) Q x"
  unfolding tryBuildFunction_def buildFunction_def using b
  by (auto simp: wp_simps gambient [OF E] intro!: Q wp_logSaveResult_any [OF E, of "view x"] split: sum.splits)

text \<open>
  C27. Requests for functions: a descriptor that is accepted has a valid name, the cookie of that name, an
  enabled language, no environment variable of the watchdog's, and a timeout and memory size within
  the configured limits; and starting such a function never panics, whatever
  the watchdog and Kubernetes answer, as long as every middleware that is ready has a server.
\<close>

theorem getFunctionDesc_wf:
  assumes "sizes_ok E" and "getFunctionDesc E i p = Ok fn"
    and "gmongo_ok E view" "gids_ok (view (outer w))" "mware_sane E (view (outer w))"
  shows "wf_desc E fn \<and> fst (fn_Start E fn w) \<noteq> Panic"
proof -
  have wf: "wf_desc E fn"
    using assms(2) fnFixSize_le [OF assms(1)]
    by (auto simp: getFunctionDesc_def wf_desc_def new_desc_def list_ex_iff split: if_splits option.splits sum.splits)
  then have "rtLangEnabled E (Lang (fn_Code fn))" by (simp add: wf_desc_def)
  then obtain b code pkgs where "rtNeedToBuild (fn_Code fn) = Some b" "rtCodePath (fn_Code fn) = Some code"
    "rtPackages E (fn_SwoId fn) (Lang (fn_Code fn)) = Some pkgs" using known_lang by blast
  note lang = this
  have run: "wp (k8sRun E fn) (\<lambda>r _. r \<noteq> Panic) (w\<lparr>outer := x\<rparr>)" if x: "logged (view (outer w)) (view x)" for x
    unfolding k8sRun_def wp_gbind wp_liftx
    by (rule wp_genenv [OF assms(3)])
       (use x assms(4,5) lang in \<open>auto simp: logged_def mware_sane_def wp_simps on_any_def on_bd_def wp_gmod
          intro!: wp_kcall_any [OF assms(3)] split: res.splits\<close>)
  have "wp (fn_Start E fn) (\<lambda>r _. r \<noteq> Panic) w"
    unfolding fn_Start_def wp_gbind wp_liftx
    by (rule wp_tryBuild [OF assms(3) lang(1)]) (use run in \<open>auto simp: on_ok_def split: res.splits\<close>)
  then show ?thesis using wf by (simp add: wp_def split_beta)
qed

section \<open>Attachments\<close>

text \<open>
  Middleware, accounts and buckets are kept in three lists of the descriptor. What the operations on them
  share is a field that can be read and updated on its own.
\<close>

locale attachment =
  fixes get :: "FunctionDesc \<Rightarrow> string list" and upd :: "(string list \<Rightarrow> string list) \<Rightarrow> FunctionDesc \<Rightarrow> FunctionDesc"
  assumes get_upd: "get (upd f x) = f (get x)" and id_upd: "fn_ObjID (upd f x) = fn_ObjID x"

lemma func_doc: "gids_ok V \<Longrightarrow> V DBColFunc i = Some d \<Longrightarrow> has_id k d \<Longrightarrow> \<exists>x. d = GFn x \<and> i = k"
  using gids_okD [of V DBColFunc i d] by (cases d) (auto simp: has_id_def)

context attachment
begin

lemma wp_update_list:
  assumes db: "gmongo_ok E view" and ids: "gids_ok (view (outer w))"
    and ok: "\<And>x x'. view (outer w) DBColFunc (fn_ObjID fn) = Some (GFn x) \<Longrightarrow> q (GFn x) \<Longrightarrow>
      view x' = gput DBColFunc (fn_ObjID fn) (Some (GFn (upd f x))) (view (outer w)) \<Longrightarrow> Q (Ok ()) (w\<lparr>outer := x'\<rparr>)"
    and err: "\<And>e x'. (e = GNotFound \<Longrightarrow> (\<And>x. view (outer w) DBColFunc (fn_ObjID fn) = Some (GFn x) \<Longrightarrow> \<not> q (GFn x))) \<Longrightarrow>
      view x' = view (outer w) \<Longrightarrow> Q (Err e) (w\<lparr>outer := x'\<rparr>)"
  shows "wp (liftx (dbFuncUpdate E ctx (\<lambda>d. has_id (fn_ObjID fn) d \<and> q d) (upd_fn (upd f)))) Q w"
  unfolding dbFuncUpdate_def wp_liftx
proof (rule wp_gmodify [OF db], goal_cases)
  case (1 x')
  then obtain i d where i: "view (outer w) DBColFunc i = Some d" "has_id (fn_ObjID fn) d" "q d"
    "view x' = gput DBColFunc i (Some (upd_fn (upd f) d)) (view (outer w))" by auto
  obtain x where "d = GFn x" "i = fn_ObjID fn" using func_doc [OF ids i(1,2)] by blast
  then show ?case using i ok by (simp add: upd_fn_def)
next
  case (2 x')
  then have "\<not> q (GFn x)" if "view (outer w) DBColFunc (fn_ObjID fn) = Some (GFn x)" for x
    using that gids_okD [OF ids that] by (auto simp: gmatch_def has_id_def)
  then show ?case using 2 by (intro err) auto
next
  case (3 e x')
  then show ?case by (intro err) auto
next
  case (4 rep x')
  then show ?case by (auto split: greply.splits)
qed

lemma wp_attach:
  assumes "gmongo_ok E view" and "gids_ok (view (outer w))"
    and "\<And>x x'. view (outer w) DBColFunc (fn_ObjID fn) = Some (GFn x) \<Longrightarrow> v \<notin> set (get x) \<Longrightarrow>
      view x' = gput DBColFunc (fn_ObjID fn) (Some (GFn (upd (\<lambda>l. l @ [v]) x))) (view (outer w)) \<Longrightarrow> Q (Ok ()) (w\<lparr>outer := x'\<rparr>)"
    and "\<And>e x'. (e = GNotFound \<Longrightarrow> (\<And>x. view (outer w) DBColFunc (fn_ObjID fn) = Some (GFn x) \<Longrightarrow> v \<in> set (get x))) \<Longrightarrow>
      view x' = view (outer w) \<Longrightarrow> Q (Err e) (w\<lparr>outer := x'\<rparr>)"
  shows "wp (attach E ctx get upd fn v) Q w"
  unfolding attach_def by (rule wp_update_list [OF assms(1,2)]) (use assms(3,4) in auto)

lemma wp_detach:
  assumes "gmongo_ok E view" and "gids_ok (view (outer w))"
    and "\<And>x x'. view (outer w) DBColFunc (fn_ObjID fn) = Some (GFn x) \<Longrightarrow>
      view x' = gput DBColFunc (fn_ObjID fn) (Some (GFn (upd (removeAll v) x))) (view (outer w)) \<Longrightarrow> Q (Ok ()) (w\<lparr>outer := x'\<rparr>)"
    and "\<And>e x'. view x' = view (outer w) \<Longrightarrow> Q (Err e) (w\<lparr>outer := x'\<rparr>)"
  shows "wp (detach E ctx q upd fn v) Q w"
  unfolding detach_def by (rule wp_update_list [OF assms(1,2)]) (use assms(3,4) in auto)

end

interpretation mw: attachment fn_Mware fn_Mware_update
  by unfold_locales simp_all

interpretation acc: attachment fn_Accounts fn_Accounts_update
  by unfold_locales simp_all

interpretation bkt: attachment fn_S3Buckets fn_S3Buckets_update
  by unfold_locales simp_all

text \<open>The three kinds, their operations, and the sets they stand for.\<close>

datatype att = AMware | AAccount | ABucket

fun att_list :: "att \<Rightarrow> FunctionDesc \<Rightarrow> string list" where
  "att_list AMware = fn_Mware" | "att_list AAccount = fn_Accounts" | "att_list ABucket = fn_S3Buckets"

fun att_add :: "'x gate_env \<Rightarrow> gateContext \<Rightarrow> att \<Rightarrow> FunctionDesc \<Rightarrow> string \<Rightarrow> ('x gst, ReqErr, FunctionDesc) go" where
  "att_add E ctx AMware = addMware E ctx" | "att_add E ctx AAccount = addAccount E ctx" | "att_add E ctx ABucket = addS3Bucket E ctx"

fun att_del :: "'x gate_env \<Rightarrow> gateContext \<Rightarrow> att \<Rightarrow> FunctionDesc \<Rightarrow> string \<Rightarrow> ('x gst, ReqErr, FunctionDesc) go" where
  "att_del E ctx AMware = delMware E ctx" | "att_del E ctx AAccount = delAccount E ctx" | "att_del E ctx ABucket = delS3Bucket E ctx"

text \<open>The stored sets of a function, with no name twice.\<close>

definition att_sets :: "gview \<Rightarrow> oid \<Rightarrow> (att \<Rightarrow> string set) option" where
  "att_sets V i = (case V DBColFunc i of Some (GFn x) \<Rightarrow> Some (\<lambda>k. set (att_list k x)) | _ \<Rightarrow> None)"

definition att_inv :: "gview \<Rightarrow> bool" where
  "att_inv V \<longleftrightarrow> (\<forall>i x k. V DBColFunc i = Some (GFn x) \<longrightarrow> distinct (att_list k x))"

definition is_ok :: "('e, 'a) res \<Rightarrow> bool" where
  "is_ok r = (case r of Ok _ \<Rightarrow> True | _ \<Rightarrow> False)"

lemma is_ok_simps [simp]: "is_ok (Ok a)" "\<not> is_ok (Err e)" "\<not> is_ok Panic"
  by (simp_all add: is_ok_def)

lemma wp_redeploy:
  assumes "gmongo_ok E view" "gids_ok (view (outer w))" "mware_sane E (view (outer w))"
    and "\<And>w'. view (outer w') = view (outer w) \<Longrightarrow> Q (Ok fn) w'"
  shows "wp (redeploy E fn) Q w"
proof -
  have "wp (k8sUpdate E fn) (on_any (\<lambda>_. wp (gret fn) Q) Q) w"
    by (rule wp_k8sUpdate [OF assms(1-3)]) (use assms(4) in \<open>auto simp: wp_gret on_any_def split: res.splits\<close>)
  then show ?thesis using assms(4) by (simp add: redeploy_def wp_simps)
qed

lemma func_put:
  assumes "gids_ok V" and "V DBColFunc i = Some (GFn x)" and "fn_ObjID y = fn_ObjID x"
  shows "gids_ok (gput DBColFunc i (Some (GFn y)) V)"
proof -
  have "fn_ObjID x = i" using gids_okD [OF assms(1,2)] by simp
  then show ?thesis using assms by (intro gids_ok_put) simp_all
qed

definition att_spec :: "gview \<Rightarrow> oid \<Rightarrow> att \<Rightarrow> (string set \<Rightarrow> string set) \<Rightarrow> bool \<Rightarrow> gview \<Rightarrow> bool" where
  "att_spec V i k f ok V' \<longleftrightarrow> att_inv V' \<and> (\<forall>j. j \<noteq> i \<longrightarrow> att_sets V' j = att_sets V j)
     \<and> att_sets V' i = (if ok then map_option (\<lambda>s. s(k := f (s k))) (att_sets V i) else att_sets V i)"

lemma att_spec_put:
  assumes "att_inv V" and "V DBColFunc i = Some (GFn x)" and "att_list k y = g (att_list k x)"
    and "\<And>k'. k' \<noteq> k \<Longrightarrow> att_list k' y = att_list k' x" and "distinct (g (att_list k x))" and "set (g (att_list k x)) = f (set (att_list k x))"
  shows "att_spec V i k f True (gput DBColFunc i (Some (GFn y)) V)"
proof -
  have "distinct (att_list k' y)" for k'
    using assms(1-5) by (cases "k' = k") (auto simp: att_inv_def)
  then have "att_inv (gput DBColFunc i (Some (GFn y)) V)" using assms(1) by (auto simp: att_inv_def gput_def)
  moreover have "(\<lambda>k'. set (att_list k' y)) = (\<lambda>k'. set (att_list k' x))(k := f (set (att_list k x)))"
    using assms(3,4,6) by (auto simp: fun_eq_iff)
  ultimately show ?thesis using assms(2) by (simp add: att_spec_def att_sets_def gput_def)
qed

lemma att_spec_same: "att_inv V \<Longrightarrow> att_spec V i k f False V"
  by (simp add: att_spec_def)

text \<open>A field that is one of the three kinds and leaves the others alone.\<close>

locale attachment_kind = attachment +
  fixes k :: att
  assumes get_kind: "get = att_list k" and upd_kind: "k' \<noteq> k \<Longrightarrow> att_list k' (upd f x) = att_list k' x"

context attachment_kind
begin

lemma wp_add:
  assumes db: "gmongo_ok E view" and ids: "gids_ok (view (outer w))" and inv: "att_inv (view (outer w))"
    and sane: "mware_sane E (view (outer w))"
  shows "wp (gbind (fail_as m (attach E ctx get upd fn v)) (\<lambda>_. redeploy E fn')) (\<lambda>r w'.
    att_spec (view (outer w)) (fn_ObjID fn) k (insert v) (is_ok r) (view (outer w'))
    \<and> (is_ok r \<longrightarrow> (\<exists>s. att_sets (view (outer w)) (fn_ObjID fn) = Some s \<and> v \<notin> s k))) w"
  unfolding wp_gbind wp_fail_as
proof (rule wp_attach [OF db ids], goal_cases)
  case (1 x x')
  have "distinct (get x)" using inv 1(1) get_kind by (auto simp: att_inv_def)
  then have spec: "att_spec (view (outer w)) (fn_ObjID fn) k (insert v) True (view x')"
    unfolding 1(3) using 1(2) by (intro att_spec_put [where g = "\<lambda>l. l @ [v]", OF inv 1(1)]) (auto simp: get_upd upd_kind simp flip: get_kind)
  have "\<exists>s. att_sets (view (outer w)) (fn_ObjID fn) = Some s \<and> v \<notin> s k" using 1(1,2) by (simp add: att_sets_def flip: get_kind)
  then have "wp (redeploy E fn') (\<lambda>r w'. att_spec (view (outer w)) (fn_ObjID fn) k (insert v) (is_ok r) (view (outer w'))
    \<and> (is_ok r \<longrightarrow> (\<exists>s. att_sets (view (outer w)) (fn_ObjID fn) = Some s \<and> v \<notin> s k))) (w\<lparr>outer := x'\<rparr>)"
    using spec func_put [OF ids 1(1) id_upd] sane
    by (intro wp_redeploy [OF db]) (auto simp: is_ok_def 1(3) mware_sane_def)
  then show ?case by simp
next
  case (2 e x')
  then show ?case using att_spec_same [OF inv] by (simp add: is_ok_def)
qed

lemma wp_del:
  assumes db: "gmongo_ok E view" and ids: "gids_ok (view (outer w))" and inv: "att_inv (view (outer w))"
    and sane: "mware_sane E (view (outer w))"
  shows "wp (gbind (fail_as m (detach E ctx q upd fn v)) (\<lambda>_. redeploy E fn')) (\<lambda>r w'.
    att_spec (view (outer w)) (fn_ObjID fn) k (\<lambda>s. s - {v}) (is_ok r) (view (outer w'))) w"
  unfolding wp_gbind wp_fail_as
proof (rule wp_detach [OF db ids], goal_cases)
  case (1 x x')
  have "distinct (get x)" using inv 1(1) get_kind by (auto simp: att_inv_def)
  then have spec: "att_spec (view (outer w)) (fn_ObjID fn) k (\<lambda>s. s - {v}) True (view x')"
    unfolding 1(2) by (intro att_spec_put [where g = "removeAll v", OF inv 1(1)])
      (auto simp: get_upd upd_kind distinct_removeAll simp flip: get_kind)
  then have "wp (redeploy E fn') (\<lambda>r w'. att_spec (view (outer w)) (fn_ObjID fn) k (\<lambda>s. s - {v}) (is_ok r) (view (outer w'))) (w\<lparr>outer := x'\<rparr>)"
    using func_put [OF ids 1(1) id_upd] sane by (intro wp_redeploy [OF db]) (auto simp: is_ok_def 1(2) mware_sane_def)
  then show ?case by simp
next
  case (2 e x')
  then show ?case using att_spec_same [OF inv] by (simp add: is_ok_def)
qed

end

interpretation mw: attachment_kind fn_Mware fn_Mware_update AMware
proof unfold_locales
  show "att_list k' (fn_Mware_update f x) = att_list k' x" if "k' \<noteq> AMware" for k' f x using that by (cases k') simp_all
qed simp_all

interpretation acc: attachment_kind fn_Accounts fn_Accounts_update AAccount
proof unfold_locales
  show "att_list k' (fn_Accounts_update f x) = att_list k' x" if "k' \<noteq> AAccount" for k' f x using that by (cases k') simp_all
qed simp_all

interpretation bkt: attachment_kind fn_S3Buckets fn_S3Buckets_update ABucket
proof unfold_locales
  show "att_list k' (fn_S3Buckets_update f x) = att_list k' x" if "k' \<noteq> ABucket" for k' f x using that by (cases k') simp_all
qed simp_all

text \<open>
  C23. What is attached to functions behaves as sets of names: attaching succeeds only for a name that was not
  there and adds it, detaching removes it, a request that fails changes nothing, no name is
  stored twice, and the other lists and the other functions keep theirs. This holds for middleware, accounts and buckets
  alike, whatever the descriptor in the caller's hands says, as long as every middleware that is ready has a server.
\<close>

theorem attachments_are_sets:
  assumes "gmongo_ok E view" and "gids_ok (view (outer w))" and "att_inv (view (outer w))" and "mware_sane E (view (outer w))"
  shows "(att_add E ctx k fn v w = (r, w') \<longrightarrow> att_spec (view (outer w)) (fn_ObjID fn) k (insert v) (is_ok r) (view (outer w'))
         \<and> (is_ok r \<longrightarrow> (\<exists>s. att_sets (view (outer w)) (fn_ObjID fn) = Some s \<and> v \<notin> s k)))
    \<and> (att_del E ctx k fn v w = (r, w') \<longrightarrow> att_spec (view (outer w)) (fn_ObjID fn) k (\<lambda>s. s - {v}) (is_ok r) (view (outer w')))"
proof -
  have a: "wp (att_add E ctx k fn v) (\<lambda>r w'. att_spec (view (outer w)) (fn_ObjID fn) k (insert v) (is_ok r) (view (outer w'))
         \<and> (is_ok r \<longrightarrow> (\<exists>s. att_sets (view (outer w)) (fn_ObjID fn) = Some s \<and> v \<notin> s k))) w"
    using mw.wp_add [OF assms] acc.wp_add [OF assms] bkt.wp_add [OF assms]
    by (cases k) (simp_all add: addMware_def addAccount_def addS3Bucket_def)
  have d: "wp (att_del E ctx k fn v) (\<lambda>r w'. att_spec (view (outer w)) (fn_ObjID fn) k (\<lambda>s. s - {v}) (is_ok r) (view (outer w'))) w"
    using mw.wp_del [OF assms] acc.wp_del [OF assms] bkt.wp_del [OF assms] att_spec_same [OF assms(3)]
    by (cases k) (simp_all add: delMware_def delAccount_def delS3Bucket_def wp_gerr)
  show ?thesis by (intro conjI impI) (use wpD [OF a] in simp, use wpD [OF a] in simp, use wpD [OF d] in simp)
qed

section \<open>While the database answers\<close>

definition answers :: "'x gate_env \<Rightarrow> bool" where
  "answers E \<longleftrightarrow> (\<forall>r x e. (\<forall>c q u n. r \<noteq> GUpsert c q u n) \<longrightarrow> fst (gsrv E r x) \<noteq> GFailed e)"

text \<open>A read that succeeds.\<close>

definition sure :: "('x \<Rightarrow> gview) \<Rightarrow> ('x, 'e, 'a) go \<Rightarrow> bool" where
  "sure view f \<longleftrightarrow> (\<forall>x. \<exists>a x'. f x = (Ok a, x') \<and> view x' = view x)"

lemma wp_gcall_answers:
  assumes "gmongo_ok E view" and "answers E" and "\<forall>c q u n. r \<noteq> GUpsert c q u n"
    and "\<And>rep x'. gserves r rep (view x) (view x') \<Longrightarrow> (\<forall>e. rep \<noteq> GFailed e) \<Longrightarrow>
      Q (case rep of GMissing \<Rightarrow> Err GNotFound | GDuplicate \<Rightarrow> Err GDup | GFailed e \<Rightarrow> Err (GDbErr e) | _ \<Rightarrow> Ok rep) x'"
  shows "wp (gcall E r) Q x"
proof -
  obtain rep x' where r: "gsrv E r x = (rep, x')" by fastforce
  have "gserves r rep (view x) (view x')" using assms(1) r unfolding gmongo_ok_def by (metis fst_conv snd_conv)
  moreover have "\<forall>e. rep \<noteq> GFailed e" using assms(2,3) r unfolding answers_def by (metis fst_conv)
  ultimately have "Q (case rep of GMissing \<Rightarrow> Err GNotFound | GDuplicate \<Rightarrow> Err GDup | GFailed e \<Rightarrow> Err (GDbErr e) | _ \<Rightarrow> Ok rep) x'"
    by (rule assms(4))
  then show ?thesis using r by (cases rep) (simp_all add: wp_def gcall_def)
qed

lemma sureI: "(\<And>x. wp f (\<lambda>r x'. is_ok r \<and> view x' = view x) x) \<Longrightarrow> sure view f"
proof -
  assume f: "\<And>x. wp f (\<lambda>r x'. is_ok r \<and> view x' = view x) x"
  have "\<exists>a x'. f x = (Ok a, x') \<and> view x' = view x" for x
    using f [of x] by (cases "f x"; cases "fst (f x)") (auto simp: wp_def)
  then show ?thesis by (simp add: sure_def)
qed

lemma wp_sure: "sure view f \<Longrightarrow> (\<And>a x'. view x' = view x \<Longrightarrow> Q (Ok a) x') \<Longrightarrow> wp f Q x"
  unfolding sure_def wp_def by (metis case_prod_conv)

context gate_db
begin

lemma sure_maybe_find:
  assumes "answers E"
  shows "sure view (maybe (gbind (dbFind E c q) (\<lambda>d. gret (f d))) a)"
  by (rule sureI, unfold maybe_def dbFind_def wp_simps)
    (rule wp_gcall_answers [OF db_ok assms], auto simp: wp_simps split: greply.splits)

lemma sure_findAll:
  assumes "answers E"
  shows "sure view (gbind (dbFindAll E c q) (\<lambda>ds. gret (f ds)))"
  by (rule sureI, unfold dbFindAll_def wp_simps)
    (rule wp_gcall_answers [OF db_ok assms], auto simp: wp_simps split: greply.splits)

lemma sure_docs:
  assumes "answers E"
  shows "sure view (dbTenStatsGet E t)" "sure view (dbTenantGetLimits E t)" "sure view (dbTenStatsGetLatestArch E t)"
  unfolding dbTenStatsGet_def dbTenantGetLimits_def dbTenStatsGetLatestArch_def
  by (rule sure_maybe_find [OF assms] sure_findAll [OF assms])+

lemma wp_tendatGet_answers:
  assumes "answers E" and "\<And>td w'. view (outer w') = view (outer w) \<Longrightarrow> Q (Ok td) w'"
  shows "wp (tendatGet E ctx) Q w"
proof (cases "tdat w (gx_Tenant ctx)")
  case (Some td)
  then show ?thesis using assms(2) by (simp add: tendatGet_def tendatGetOrInit_def wp_simps)
next
  case None
  show ?thesis
    unfolding tendatGet_def tendatGetOrInit_def wp_simps None option.case on_ok_simps Let_def
    by (auto intro!: sure_docs [OF assms(1), THEN wp_sure] assms(2) simp: gambient [OF db_ok])
qed

lemma wp_count_tenant:
  assumes "answers E" and "gids_ok (view x)" and "\<And>x'. view x' = view x \<Longrightarrow> Q (Ok 0) x'"
  shows "wp (dbFuncCountTen E ctx) Q x"
proof -
  have none: "gmatch (view x) DBColFunc (where_field ''tenant'' (gx_Tenant ctx)) = {}"
  proof -
    have "\<not> where_field ''tenant'' (gx_Tenant ctx) d" if "view x DBColFunc i = Some d" for i d
      using gids_okD [OF assms(2) that] by (cases d) (simp_all add: where_field_def doc_field_def)
    then show ?thesis by (auto simp: gmatch_def)
  qed
  show ?thesis
    unfolding dbFuncCountTen_def dbCount_def wp_simps
    by (rule wp_gcall_answers [OF db_ok assms(1)]) (use assms(3) none in \<open>auto simp: wp_simps split: greply.splits\<close>)
qed

lemma wp_checkFnCount:
  assumes "answers E" and "gids_ok (view (outer w))"
  shows "wp (checkFnCount E ctx) (\<lambda>r _. r = Ok ()) w"
  unfolding checkFnCount_def wp_gbind
proof (rule wp_tendatGet_answers [OF assms(1)], goal_cases)
  case (1 td w')
  show ?case
  proof (cases "td_fnlim td = 0")
    case False
    then show ?thesis using assms(2) 1
      by (simp add: wp_gbind wp_liftx) (rule wp_count_tenant [OF assms(1)], auto simp: wp_gret)
  qed (simp add: wp_gret)
qed

end

text \<open>
  C36. The limit on the number of functions is never enforced: while the database answers, the check that follows
  the insertion of a function passes, whatever limit the tenant has and however many functions there are. The query asks for a field
  that the documents of functions do not have.
\<close>

theorem limit_never_hit:
  assumes "gmongo_ok E view" and "answers E" and "gids_ok (view (outer w))"
  shows "fst (checkFnCount E ctx w) = Ok ()"
proof -
  have "wp (checkFnCount E ctx) (\<lambda>r _. r = Ok ()) w"
    by (rule gate_db.wp_checkFnCount [OF gate_db.intro [OF assms(1)] assms(2,3)])
  then show ?thesis by (cases "checkFnCount E ctx w") (simp add: wp_def)
qed

section \<open>Pods and states\<close>

text \<open>The descriptor of an id.\<close>

definition stored_fn :: "'x gate_env \<Rightarrow> gview \<Rightarrow> SwoId \<Rightarrow> FunctionDesc \<Rightarrow> bool" where
  "stored_fn E V i x \<longleftrightarrow> V DBColFunc (fn_ObjID x) = Some (GFn x) \<and> fn_Cookie x = Cookie (Cookify E) i
     \<and> (\<forall>j y. V DBColFunc j = Some (GFn y) \<and> fn_Cookie y = fn_Cookie x \<longrightarrow> y = x)"

lemma func_by_cookie:
  assumes "gids_ok V" and "stored_fn E V i x" and "V DBColFunc j = Some d" and "where_field ''cookie'' (Cookie (Cookify E) i) d"
  shows "d = GFn x"
  using gids_okD [OF assms(1,3)] assms(2-4) by (cases d) (auto simp: stored_fn_def where_field_def doc_field_def)

context gate_db
begin

lemma wp_find_fn:
  assumes "answers E" and "gids_ok (view (outer w))" and s: "stored_fn E (view (outer w)) i x"
    and "\<And>x'. view x' = view (outer w) \<Longrightarrow> Q (Ok x) (w\<lparr>outer := x'\<rparr>)"
  shows "wp (find_fn E i) Q w"
proof -
  let ?q = "where_field ''cookie'' (Cookie (Cookify E) i)"
  have "?q (GFn x)" using s by (simp add: stored_fn_def where_field_def doc_field_def)
  then have some: "gmatch (view (outer w)) DBColFunc ?q \<noteq> {}" using s by (auto simp: gmatch_def stored_fn_def)
  show ?thesis
    unfolding find_fn_def wp_simps wp_or_GateErrD dbFind_def
  proof (rule wp_gcall_answers [OF db_ok assms(1)], goal_cases)
    case (2 rep x')
    then obtain j d where d: "rep = GGot d" "view (outer w) DBColFunc j = Some d" "?q d" "view x' = view (outer w)"
      using some by (auto split: greply.splits)
    from func_by_cookie [OF assms(2) s d(2,3)] show ?case using d(1,4) assms(4) by (simp add: wp_simps)
  qed simp
qed

lemma wp_ToState_answers:
  assumes "answers E" and "dbMayModify E ctx" and ids: "gids_ok (view (outer w))" and x: "view (outer w) DBColFunc (fn_ObjID fn) = Some (GFn x)"
    and "in_state from (GFn x)"
    and Q: "\<And>x'. view x' = gput DBColFunc (fn_ObjID fn) (Some (GFn (x\<lparr>fn_State := st\<rparr>))) (view (outer w)) \<Longrightarrow>
      Q (Ok (fn\<lparr>fn_State := st\<rparr>)) (w\<lparr>outer := x'\<rparr>)"
  shows "wp (ToState E ctx fn st from) Q w"
proof -
  have h: "has_id (fn_ObjID fn) (GFn x)" using gids_okD [OF ids x] by (simp add: has_id_def)
  have may: "gmodify E ctx r = gbind (gcall E r) (\<lambda>_. gret ())" for r using assms(2) by (simp add: gmodify_def)
  show ?thesis
    unfolding ToState_def dbUpdatePart2_def may wp_simps objid_def given_id.simps option.sel gcoll_of.simps
  proof (rule wp_gcall_answers [OF db_ok assms(1)], goal_cases)
    case (2 rep x')
    have rep: "rep = GDone" using 2 x h assms(5) by (auto simp: gmatch_def split: greply.splits)
    then obtain i d where i: "view (outer w) DBColFunc i = Some d" "has_id (fn_ObjID fn) d"
      "view x' = gput DBColFunc i (Some (upd_fn (\<lambda>x. x\<lparr>fn_State := st\<rparr>) d)) (view (outer w))" using 2(1) by auto
    have "i = fn_ObjID fn" using func_doc [OF ids i(1,2)] by blast
    moreover from this have "d = GFn x" using i(1) x by simp
    ultimately show ?case using i(3) rep Q by (simp add: upd_fn_def wp_gret)
  qed simp
qed

lemma wp_notifyPodUp:
  assumes "answers E" and "dbMayModify E ctx" and ids: "gids_ok (view (outer w))" and s: "stored_fn E (view (outer w)) i x"
  shows "wp (notifyPodUp E ctx i) (\<lambda>r w'. r = Ok () \<and>
    view (outer w') DBColFunc (fn_ObjID x) = Some (GFn (x\<lparr>fn_State := DBFuncStateRdy\<rparr>))) w"
  unfolding notifyPodUp_def wp_gtry
proof (rule wp_find_fn [OF assms(1) ids s], goal_cases)
  case (1 x')
  have x: "view (outer w) DBColFunc (fn_ObjID x) = Some (GFn x)" using s by (simp add: stored_fn_def)
  show ?case
  proof (cases "fn_State x = DBFuncStateRdy")
    case True
    then have "x\<lparr>fn_State := DBFuncStateRdy\<rparr> = x" by (cases x) simp
    then show ?thesis using True 1 x by (simp add: wp_gret)
  next
    case False
    have "wp (ToState E ctx x DBFuncStateRdy (- 1)) (on_any (\<lambda>_. wp (gret ()) (\<lambda>r w'. r = Ok () \<and>
        view (outer w') DBColFunc (fn_ObjID x) = Some (GFn (x\<lparr>fn_State := DBFuncStateRdy\<rparr>)))) (\<lambda>r w'. r = Ok () \<and>
        view (outer w') DBColFunc (fn_ObjID x) = Some (GFn (x\<lparr>fn_State := DBFuncStateRdy\<rparr>)))) (w\<lparr>outer := x'\<rparr>)"
      by (rule wp_ToState_answers [OF assms(1,2)]) (use ids 1 x in \<open>auto simp: wp_gret in_state_def\<close>)
    then show ?thesis using False by (simp add: wp_gseq)
  qed
qed

end

text \<open>
  A pod that comes up makes its function ready in whatever state it is: also a function that is being
  deleted and one that was deactivated meanwhile are marked as ready, although their deployment is
  gone or about to go.
\<close>

theorem pod_up_revives:
  assumes "gmongo_ok E view" and "answers E" and "dbMayModify E ctx" and "gids_ok (view (outer w))"
    and "stored_fn E (view (outer w)) i x"
  shows "fst (notifyPodUp E ctx i w) = Ok ()
    \<and> view (outer (snd (notifyPodUp E ctx i w))) DBColFunc (fn_ObjID x) = Some (GFn (x\<lparr>fn_State := DBFuncStateRdy\<rparr>))"
  using gate_db.wp_notifyPodUp [OF gate_db.intro [OF assms(1)] assms(2-5)] by (auto simp: wp_def split: prod.splits)

end
