(* ===== verification/Jwt.thy ===== *)
theory Jwt
  imports Gate_Mem Base64
begin

text \<open>
  Tokens: the library function that makes them inside a function (\<open>encodeBytes\<close> and \<open>MakeJWT\<close> of
  \<open>src/wdog/lib/lib.go\<close>) and the gate's check of them (\<open>decodeString\<close> and \<open>Verify\<close> of \<open>src/gate/mw-auth.go\<close>). The keyed hash and the JSON encoder are parameters. A JSON number stands for
  its value after the conversion to \<open>int64\<close>.
\<close>

section \<open>The parts of a token\<close>

definition decodeString :: "string \<Rightarrow> string option" where
  "decodeString s = (let l = length s mod 4 in DecodeString (if l > 0 then s @ replicate (4 - l) (CHR ''='') else s))"

definition encodeBytes :: "string \<Rightarrow> string" where
  "encodeBytes b = rev (dropWhile (\<lambda>c. c = CHR ''='') (rev (EncodeToString b)))"

section \<open>Making tokens\<close>

type_synonym claims = "(string \<times> json) list"

text \<open>The libraries: the keyed hash, and JSON for headers and claims.\<close>

record jwt_lib =
  hmac256 :: "string \<Rightarrow> string \<Rightarrow> string"
  marshal_header :: "(string \<times> string) list \<Rightarrow> string"
  unmarshal_header :: "string \<Rightarrow> (string \<times> string) list option"
  marshal_claims :: "claims \<Rightarrow> string option"
  unmarshal_claims :: "string \<Rightarrow> claims option"

definition jwt_header :: "(string \<times> string) list" where
  "jwt_header = [(''typ'', ''JWT''), (''alg'', ''HS256'')]"

definition set_claim :: "string \<Rightarrow> json \<Rightarrow> claims \<Rightarrow> claims" where
  "set_claim k v cs = (k, v) # filter (\<lambda>(k', _). k' \<noteq> k) cs"

definition MakeJWT :: "jwt_lib \<Rightarrow> string \<Rightarrow> int \<Rightarrow> claims \<Rightarrow> string option" where
  "MakeJWT L key now cs = map_option (\<lambda>cj.
     let unsigned = encodeBytes (marshal_header L jwt_header) @ ''.'' @ encodeBytes cj
     in unsigned @ ''.'' @ encodeBytes (hmac256 L key unsigned)) (marshal_claims L (set_claim ''iat'' (JNum now) cs))"

section \<open>Checking them\<close>

definition header_get :: "(string \<times> string) list \<Rightarrow> string \<Rightarrow> string" where
  "header_get h k = (case map_of h k of None \<Rightarrow> [] | Some v \<Rightarrow> v)"

text \<open>An expiry time that is no number does not expire the token.\<close>

definition expired :: "int \<Rightarrow> claims \<Rightarrow> bool" where
  "expired now cs = (case map_of cs ''exp'' of
     None \<Rightarrow> False | Some (JNum e) \<Rightarrow> e \<le> now | Some _ \<Rightarrow> (1 :: int) \<le> 0)"

definition Verify :: "jwt_lib \<Rightarrow> string \<Rightarrow> int \<Rightarrow> string \<Rightarrow> string + claims" where
  "Verify L key now auth =
     (if auth = [] then Inl ''Authorization header required'' else
      case SplitN auth (CHR '' '') 2 of
        [scheme, tok] \<Rightarrow>
          if scheme \<noteq> ''Bearer'' then Inl ''Authorization Bearer scheme required'' else
          (case Split tok (CHR ''.'') of
             [h, c, s] \<Rightarrow>
               (case Option.bind (decodeString h) (unmarshal_header L) of None \<Rightarrow> Inl ''Bad JWT header''
                | Some hdr \<Rightarrow>
                  if header_get hdr ''typ'' \<noteq> ''JWT'' \<or> header_get hdr ''alg'' \<noteq> ''HS256'' then Inl ''Bad JWT header''
                  else (case decodeString s of None \<Rightarrow> Inl ''Bad JWT signature''
                    | Some sig \<Rightarrow>
                      if sig \<noteq> hmac256 L key (h @ ''.'' @ c) then Inl ''Wrong JWT signature''
                      else (case Option.bind (decodeString c) (unmarshal_claims L) of None \<Rightarrow> Inl ''Bad JWT claims''
                        | Some cs \<Rightarrow> if expired now cs then Inl ''Token expired'' else Inr cs)))
           | _ \<Rightarrow> Inl ''Bad JWT token'')
      | _ \<Rightarrow> Inl ''Authorization Bearer scheme required'')"

section \<open>Decoding undoes encoding\<close>

text \<open>The encoding is a run of plain characters and at most two signs of padding up to a multiple of four.\<close>

definition plain :: "char \<Rightarrow> bool" where
  "plain c \<longleftrightarrow> c \<notin> {CHR ''='', CHR ''.'', CHR '' '', CHR 0x0A, CHR 0x0D}"

lemma plain_chr: "n < 64 \<Longrightarrow> plain (b64_chr n)"
  using b64_chr_plain by (simp add: plain_def)

lemma encode_shape: "\<exists>u n. EncodeToString b = u @ replicate n (CHR ''='') \<and> list_all plain u \<and> n < 3 \<and> (length u + n) mod 4 = 0"
proof (induction b rule: EncodeToString.induct)
  case (2 a)
  show ?case using b64_bounds(1) [of a] b64_bounds(2) [of 0 a]
    by (intro exI [of _ "[b64_chr (b64_1 a), b64_chr (b64_2 a 0)]"] exI [of _ 2]) (simp add: plain_chr numeral_2_eq_2)
next
  case (3 a b)
  show ?case using b64_bounds(1) [of a] b64_bounds(2) [of "of_char b" a] b64_bounds(3) [of 0 b]
    by (intro exI [of _ "[b64_chr (b64_1 a), b64_chr (b64_2 a (of_char b)), b64_chr (b64_3 b 0)]"] exI [of _ 1]) (simp add: plain_chr)
next
  case (4 a b c s)
  then obtain u n where u: "EncodeToString s = u @ replicate n (CHR ''='')" "list_all plain u" "n < 3" "(length u + n) mod 4 = 0"
    by (elim exE conjE)
  let ?q = "[b64_chr (b64_1 a), b64_chr (b64_2 a (of_char b)), b64_chr (b64_3 b (of_char c)), b64_chr (b64_4 c)]"
  have "list_all plain ?q"
    using b64_bounds(1) [of a] b64_bounds(2) [of "of_char b" a] b64_bounds(3) [of "of_char c" b] b64_bounds(4) [of c] by (simp add: plain_chr)
  moreover have "(4 + (length u + n)) mod 4 = 0" using u(4) by presburger
  ultimately show ?case using u by (intro exI [of _ "?q @ u"] exI [of _ n]) (simp add: add.assoc)
qed (auto intro: exI [of _ 0])

lemma encodeBytes_plain:
  obtains u n where "encodeBytes b = u" "EncodeToString b = u @ replicate n (CHR ''='')" "list_all plain u" "n < 3" "(length u + n) mod 4 = 0"
proof -
  obtain u n where u: "EncodeToString b = u @ replicate n (CHR ''='')" "list_all plain u" "n < 3" "(length u + n) mod 4 = 0"
    using encode_shape [of b] by (elim exE conjE)
  have "dropWhile (\<lambda>c. c = CHR ''='') (rev u) = rev u"
    using u(2) by (cases "rev u") (auto simp: list_all_iff plain_def dest: arg_cong [of "rev u" _ rev])
  moreover have "dropWhile (\<lambda>c. c = CHR ''='') (replicate n (CHR ''='') @ l) = dropWhile (\<lambda>c. c = CHR ''='') l" for l
    by (induction n) auto
  ultimately have "encodeBytes b = u" unfolding encodeBytes_def u(1) by simp
  from that [OF this u] show thesis .
qed

lemma decodeString_encodeBytes: "decodeString (encodeBytes b) = Some b"
proof -
  obtain u n where u: "encodeBytes b = u" "EncodeToString b = u @ replicate n (CHR ''='')" "list_all plain u" "n < 3" "(length u + n) mod 4 = 0"
    by (rule encodeBytes_plain)
  define m where "m = length u mod 4"
  have m: "m < 4" "(m + n) mod 4 = 0" using u(5) by (simp_all add: m_def mod_add_left_eq)
  then have "m = 0 \<or> m = 1 \<or> m = 2 \<or> m = 3" "n = 0 \<or> n = 1 \<or> n = 2" using u(4) by linarith+
  then have "n = (4 - m) mod 4" using m(2) by (elim disjE) simp_all
  then have n: "n = (4 - length u mod 4) mod 4" by (simp add: m_def)
  have "(if length u mod 4 > 0 then u @ replicate (4 - length u mod 4) (CHR ''='') else u) = EncodeToString b"
    unfolding u(2) n by simp
  moreover have "filter (\<lambda>c. c \<noteq> CHR 0x0A \<and> c \<noteq> CHR 0x0D) (EncodeToString b) = EncodeToString b"
  proof -
    have "filter (\<lambda>c. c \<noteq> CHR 0x0A \<and> c \<noteq> CHR 0x0D) u = u"
      by (rule filter_True) (use u(3) in \<open>simp add: list_all_iff plain_def\<close>)
    then show ?thesis unfolding u(2) filter_append filter_replicate by simp
  qed
  ultimately show ?thesis using decode_encode by (simp add: decodeString_def DecodeString_def u(1) Let_def)
qed

section \<open>Tokens\<close>

lemma encodeBytes_no: "CHR ''.'' \<notin> set (encodeBytes b)" "CHR '' '' \<notin> set (encodeBytes b)"
proof -
  obtain u n where "encodeBytes b = u" "list_all plain u" by (rule encodeBytes_plain)
  then show "CHR ''.'' \<notin> set (encodeBytes b)" "CHR '' '' \<notin> set (encodeBytes b)" by (auto simp: list_all_iff plain_def)
qed

lemma SplitN_2: "sep \<notin> set a \<Longrightarrow> SplitN (a @ sep # b) sep 2 = [a, b]"
  by (induction a) (auto simp: numeral_2_eq_2)

lemma SplitN_2_eq: "SplitN s sep 2 = [a, b] \<Longrightarrow> s = a @ sep # b"
proof (induction s arbitrary: a)
  case (Cons c s)
  show ?case
  proof (cases "c = sep")
    case True
    then show ?thesis using Cons.prems by (simp add: numeral_2_eq_2)
  next
    case False
    then have "c # hd (SplitN s sep 2) = a" "tl (SplitN s sep 2) = [b]" using Cons.prems by (simp_all add: numeral_2_eq_2)
    then have "SplitN s sep 2 = [tl a, b]" "a = c # tl a" by (cases "SplitN s sep 2"; auto)+
    then show ?thesis using Cons.IH by (metis append_Cons)
  qed
qed (simp add: numeral_2_eq_2)

text \<open>
  C28. A token made inside a function is accepted by the gate with the claims it was made with, as long
  as it has not expired, for every key and every set of claims the JSON library can carry.
\<close>

theorem jwt_roundtrip:
  assumes "unmarshal_header L (marshal_header L jwt_header) = Some jwt_header"
    and "marshal_claims L (set_claim ''iat'' (JNum t) cs) = Some cj" and "unmarshal_claims L cj = Some cs'"
    and "MakeJWT L key t cs = Some tok" and "\<not> expired now cs'"
  shows "Verify L key now (''Bearer '' @ tok) = Inr cs'"
proof -
  let ?h = "encodeBytes (marshal_header L jwt_header)" and ?c = "encodeBytes cj"
  let ?s = "encodeBytes (hmac256 L key (?h @ ''.'' @ ?c))"
  have tok: "tok = ?h @ ''.'' @ ?c @ ''.'' @ ?s" using assms(2,4) by (simp add: MakeJWT_def Let_def)
  have "SplitN (''Bearer'' @ CHR '' '' # tok) (CHR '' '') 2 = [''Bearer'', tok]" by (rule SplitN_2) simp
  then have bearer: "SplitN (''Bearer '' @ tok) (CHR '' '') 2 = [''Bearer'', tok]" by simp
  have parts: "Split tok (CHR ''.'') = [?h, ?c, ?s]"
    unfolding tok using encodeBytes_no(1) by (simp add: Split_append_sep Split_no_sep)
  show ?thesis
    using assms(1,3,5) unfolding Verify_def bearer list.case parts
    by (simp add: decodeString_encodeBytes jwt_header_def header_get_def)
qed

text \<open>
  C17. The gate accepts nothing else: an accepted header is a bearer token of three parts, the third of which is
  the keyed hash of the first two under the key of the function, the second carries the claims,
  and a numeric expiry time lies in the future.
\<close>

theorem Verify_sound:
  assumes "Verify L key now auth = Inr cs"
  shows "\<exists>h c s. auth = ''Bearer '' @ h @ ''.'' @ c @ ''.'' @ s
    \<and> decodeString s = Some (hmac256 L key (h @ ''.'' @ c)) \<and> Option.bind (decodeString c) (unmarshal_claims L) = Some cs
    \<and> (\<forall>e. map_of cs ''exp'' = Some (JNum e) \<longrightarrow> now < e)"
proof -
  obtain tok h c s where t: "SplitN auth (CHR '' '') 2 = [''Bearer'', tok]" and p: "Split tok (CHR ''.'') = [h, c, s]"
    and r: "decodeString s = Some (hmac256 L key (h @ ''.'' @ c))" "Option.bind (decodeString c) (unmarshal_claims L) = Some cs"
      "\<not> expired now cs"
    using assms unfolding Verify_def
    by (simp split: if_splits list.splits option.splits)
  have "auth = ''Bearer'' @ CHR '' '' # tok" by (rule SplitN_2_eq [OF t])
  moreover have "tok = Join [h, c, s] ''.''" using p Join_Split by metis
  ultimately have a: "auth = ''Bearer '' @ h @ ''.'' @ c @ ''.'' @ s" by simp
  have "now < e" if "map_of cs ''exp'' = Some (JNum e)" for e using r(3) that by (simp add: expired_def)
  with a r(1,2) show ?thesis by (intro exI [of _ h] exI [of _ c] exI [of _ s]) simp
qed

definition demo_jwt :: jwt_lib where
  "demo_jwt = \<lparr>hmac256 = (\<lambda>k m. k @ m), marshal_header = (\<lambda>_. ''h''), unmarshal_header = (\<lambda>s. if s = ''h'' then Some jwt_header else None),
     marshal_claims = (\<lambda>_. Some ''c''), unmarshal_claims = (\<lambda>s. if s = ''c'' then Some [(''iat'', JNum 5), (''exp'', JNum 9)] else None)\<rparr>"

lemma demo_token: "MakeJWT demo_jwt ''key'' 5 [(''exp'', JNum 9)] = Some ''aA.Yw.a2V5YUEuWXc''"
  by code_simp

theorem jwt_roundtrip_witness: "Verify demo_jwt ''key'' 7 ''Bearer aA.Yw.a2V5YUEuWXc'' = Inr [(''iat'', JNum 5), (''exp'', JNum 9)]"
proof -
  have "Verify demo_jwt ''key'' 7 (''Bearer '' @ ''aA.Yw.a2V5YUEuWXc'') = Inr [(''iat'', JNum 5), (''exp'', JNum 9)]"
    by (rule jwt_roundtrip [OF _ _ _ demo_token, where cj = "''c''"]) (simp_all add: demo_jwt_def expired_def)
  then show ?thesis by simp
qed

lemma demo_accepts: "Verify demo_jwt ''key'' 7 ''Bearer aA.Yw.a2V5YUEuWXc'' = Inr [(''iat'', JNum 5), (''exp'', JNum 9)]"
  by code_simp

theorem Verify_sound_witness:
  "\<exists>h c s. ''Bearer aA.Yw.a2V5YUEuWXc'' = ''Bearer '' @ h @ ''.'' @ c @ ''.'' @ s \<and> decodeString s = Some (hmac256 demo_jwt ''key'' (h @ ''.'' @ c))"
  using Verify_sound [OF demo_accepts] by blast

end
