(* ===== verification/Gate_Call.thy ===== *)
theory Gate_Call
  imports Gate_Func Jwt
begin

text \<open>
  Running functions: \<open>src/gate/runner.go\<close>, the handler of function URLs in \<open>src/gate/url.go\<close>, chained calls
  (\<open>src/gate/thens.go\<close>), and what cron, S3 and websocket events do when they fire. The HTTP request to the
  watchdog of a pod is a parameter. The goroutine that saves what a run printed is part of the run.
\<close>

section \<open>Requests\<close>

record http_req =
  hr_Method :: string
  hr_Path :: string
  hr_Query :: "(string \<times> string list) list"
  hr_Auth :: string
  hr_CType :: string
  hr_Body :: "string option"

record http_resp =
  rs_Code :: int
  rs_Body :: string

definition reqPath :: "string \<Rightarrow> string" where
  "reqPath p = (case SplitN p (CHR ''/'') 4 of [a, b, c, d] \<Rightarrow> d | _ \<Rightarrow> [])"

definition acceptedContent :: "string list" where
  "acceptedContent = [''application/json'', ''text/plain'']"

definition query_args :: "(string \<times> string list) list \<Rightarrow> (string \<times> string) list" where
  "query_args qs = List.map_filter (\<lambda>(k, vs). case vs of [] \<Rightarrow> None | v # _ \<Rightarrow> Some (k, v)) qs"

definition makeArgs :: "http_req \<Rightarrow> FunctionRun \<Rightarrow> statsOpaque \<Rightarrow> FunctionRun \<times> statsOpaque" where
  "makeArgs r args sopq =
     (let qs = query_args (hr_Query r);
          args = args\<lparr>run_Args := qs, run_Method := Some (hr_Method r)\<rparr>;
          sopq = sopq\<lparr>op_argsSz := op_argsSz sopq + of_nat (sum_list (map (\<lambda>(k, v). length k + length v) qs))\<rparr>;
          ct = hd (SplitN (hr_CType r) (CHR '';'') 2)
      in case hr_Body r of
           Some b \<Rightarrow> if b \<noteq> [] \<and> ct \<in> set acceptedContent
             then (args\<lparr>run_ContentType := ct, run_Body := b\<rparr>, sopq\<lparr>op_bodySz := of_nat (length b)\<rparr>)
             else (args, sopq)
         | None \<Rightarrow> (args, sopq))"

section \<open>Running in a pod\<close>

definition run_url :: "'x gate_env \<Rightarrow> podConn \<Rightarrow> string \<Rightarrow> string" where
  "run_url E c suff = (case WdogProxy E of
     Some port \<Rightarrow> if suff = [] then ''http://'' @ pc_Host c @ '':'' @ port @ ''/v1/run/'' @ pc_PTok c @ ''/'' @ ReplaceAll (pc_Addr c) (CHR ''.'') ''_''
       else ''http://'' @ pc_Addr c @ '':'' @ pc_Port c @ ''/v1/run/'' @ pc_PTok c @ ''/'' @ suff
   | None \<Rightarrow> ''http://'' @ pc_Addr c @ '':'' @ pc_Port c @ ''/v1/run/'' @ pc_PTok c @ (if suff = [] then [] else ''/'' @ suff))"

definition conn_Run :: "'x gate_env \<Rightarrow> podConn \<Rightarrow> string \<Rightarrow> string \<Rightarrow> FunctionRun \<Rightarrow> ('x, string, WdogFunctionRunResult) go" where
  "conn_Run E c suff event args =
     gbind (gout (wdog_run E (run_url E c suff) (args\<lparr>run_Event := event\<rparr>))) (\<lambda>r. case r of
       Inl e \<Rightarrow> gerr (''RUN error '' @ e)
     | Inr res \<Rightarrow> gbind (if res_Stdout res \<noteq> [] \<or> res_Stderr res \<noteq> []
                     then logSaveResult E (pc_FnId c) event (res_Stdout res) (res_Stderr res) else gret ()) (\<lambda>_. gret res))"

text \<open>A pod for a call, and the end of the call. Whether the scaler has to be started is left to the scaler.\<close>

definition get_conn :: "'x gate_env \<Rightarrow> string \<Rightarrow> ('x gst, string, podConn) go" where
  "get_conn E cookie = (\<lambda>w. case fdmd w cookie of
     None \<Rightarrow> (Panic, w)
   | Some md \<Rightarrow> (case balancerGetConnAny (MaxReplicas E) (podst w) (md_fnid md) (md_bd md) of (r, bd) \<Rightarrow>
       ((case r of Ok (c, _) \<Rightarrow> Ok c | Err e \<Rightarrow> Err e | Panic \<Rightarrow> Panic), w\<lparr>fdmd := (fdmd w)(cookie := Some (md\<lparr>md_bd := bd\<rparr>))\<rparr>)))"

definition put_conn :: "string \<Rightarrow> ('x gst, 'e, unit) go" where
  "put_conn cookie = on_bd cookie balancerPutConn"

definition statsStart :: "'x gate_env \<Rightarrow> ('x, 'e, statsOpaque) go" where
  "statsStart E = gbind (gout (gnow E)) (\<lambda>t. gret \<lparr>op_ts = t, op_argsSz = 0, op_bodySz = 0\<rparr>)"

text \<open>Between getting and putting the connection.\<close>

definition run_stats :: "'x gate_env \<Rightarrow> string \<Rightarrow> podConn \<Rightarrow> string \<Rightarrow> statsOpaque \<Rightarrow> FunctionRun \<Rightarrow> ('x gst, string, WdogFunctionRunResult) go" where
  "run_stats E cookie c event sopq args =
     gbind (liftx (conn_Run E c [] event args)) (\<lambda>res. gbind (gmod (statsUpdate cookie sopq res)) (\<lambda>_. gret res))"

definition doRun :: "'x gate_env \<Rightarrow> cfb \<Rightarrow> string \<Rightarrow> FunctionDesc \<Rightarrow> string \<Rightarrow> FunctionRun \<Rightarrow> ('x gst, string, WdogFunctionRunResult) go" where
  "doRun E C pas fn event args =
     gtry (memdGetFn E C pas fn) (\<lambda>r. case r of
       Inl e \<Rightarrow> gerr (db_msg e)
     | Inr _ \<Rightarrow> gtry (get_conn E (fn_Cookie fn)) (\<lambda>r. case r of
         Inl e \<Rightarrow> gerr (''Can't find balancer for '' @ fn_Cookie fn)
       | Inr c \<Rightarrow> gbind (liftx (statsStart E)) (\<lambda>sopq.
           gtry (run_stats E (fn_Cookie fn) c event sopq args) (\<lambda>r.
           gbind (put_conn (fn_Cookie fn)) (\<lambda>_. case r of Inl e \<Rightarrow> gerr e | Inr res \<Rightarrow> gret res)))))"

definition doRunBg :: "'x gate_env \<Rightarrow> cfb \<Rightarrow> string \<Rightarrow> FunctionDesc \<Rightarrow> string \<Rightarrow> FunctionRun \<Rightarrow> ('x gst, string, unit) go" where
  "doRunBg E C pas fn event args = gseq (doRun E C pas fn event args) (gret ())"

definition run_args :: "(string \<times> string) list \<Rightarrow> FunctionRun" where
  "run_args a = \<lparr>run_Event = [], run_Args = a, run_ContentType = [], run_Body = [], run_Claims = None, run_Method = None, run_Path = None, run_Key = []\<rparr>"

section \<open>Events that fire\<close>

text \<open>The function of an event is looked up again, and runs only when it is ready.\<close>

definition run_if_ready :: "'x gate_env \<Rightarrow> cfb \<Rightarrow> string \<Rightarrow> string \<Rightarrow> string \<Rightarrow> FunctionRun \<Rightarrow> ('x gst, string, unit) go" where
  "run_if_ready E C pas cookie event args =
     gtry (liftx (dbFind E DBColFunc (where_field ''cookie'' cookie))) (\<lambda>r. case r of
       Inl _ \<Rightarrow> gret ()
     | Inr d \<Rightarrow> if fn_State (as_Fn d) \<noteq> DBFuncStateRdy then gret () else doRunBg E C pas (as_Fn d) event args)"

definition cron_fire :: "'x gate_env \<Rightarrow> cfb \<Rightarrow> string \<Rightarrow> FnEventDesc \<Rightarrow> ('x gst, string, unit) go" where
  "cron_fire E C pas ed = (case ev_Cron ed of None \<Rightarrow> gpanic | Some c \<Rightarrow> run_if_ready E C pas (ev_FnId ed) ''cron'' (run_args (cron_Args c)))"

definition doThenCall :: "'x gate_env \<Rightarrow> cfb \<Rightarrow> string \<Rightarrow> SwoId \<Rightarrow> string \<times> (string \<times> string) list \<Rightarrow> ('x gst, string, unit) go" where
  "doThenCall E C pas i tc = run_if_ready E C pas (Cookie (Cookify E) (i\<lparr>Name := fst tc\<rparr>)) ''then'' (run_args (snd tc))"

definition hasOp :: "FnEventS3 \<Rightarrow> string \<Rightarrow> bool" where
  "hasOp s opn \<longleftrightarrow> opn \<in> set (Split (s3_Ops s) (CHR '',''))"

definition matchPattern :: "'x gate_env \<Rightarrow> FnEventS3 \<Rightarrow> string \<Rightarrow> bool" where
  "matchPattern E s oname \<longleftrightarrow> s3_Pattern s = [] \<or> path_match E (s3_Pattern s) oname"

definition s3_fire :: "'x gate_env \<Rightarrow> cfb \<Rightarrow> string \<Rightarrow> string \<times> string \<times> string \<Rightarrow> gdoc \<Rightarrow> ('x gst, string, unit) go" where
  "s3_fire E C pas = (\<lambda>(bucket, object, opn) d. case ev_S3 (as_Ev d) of None \<Rightarrow> gpanic | Some s \<Rightarrow>
     if hasOp s opn \<and> matchPattern E s object
     then run_if_ready E C pas (ev_FnId (as_Ev d)) ''s3'' (run_args [(''bucket'', bucket), (''object'', object), (''op'', opn)])
     else gret ())"

definition handleS3Event :: "'x gate_env \<Rightarrow> cfb \<Rightarrow> string \<Rightarrow> string \<Rightarrow> string \<times> string \<times> string \<Rightarrow> ('x gst, string, unit) go" where
  "handleS3Event E C pas ns evt =
     gtry (liftx (dbFindAll E DBColEvents (where_field ''key'' (s3Key ns (fst evt))))) (\<lambda>r. case r of
       Inl _ \<Rightarrow> gret () | Inr evs \<Rightarrow> geach (s3_fire E C pas evt) evs)"

definition ws_fire :: "'x gate_env \<Rightarrow> cfb \<Rightarrow> string \<Rightarrow> int \<Rightarrow> FunctionRun \<Rightarrow> gdoc \<Rightarrow> ('x gst, string, unit) go" where
  "ws_fire E C pas mtype args d = (case ev_WS (as_Ev d) of None \<Rightarrow> gpanic | Some s \<Rightarrow>
     if (case ws_MType s of Some t \<Rightarrow> t \<noteq> mtype | None \<Rightarrow> False) then gret ()
     else run_if_ready E C pas (ev_FnId (as_Ev d)) ''websocket'' args)"

text \<open>The body is text, or base64 of a binary message.\<close>

definition wsTrigger :: "'x gate_env \<Rightarrow> cfb \<Rightarrow> string \<Rightarrow> (string \<Rightarrow> string) \<Rightarrow> MwareDesc \<Rightarrow> string \<Rightarrow> int \<Rightarrow> string \<Rightarrow> json option \<Rightarrow> ('x gst, string, unit) go" where
  "wsTrigger E C pas b64 mwd cid mtype message claims =
     gtry (liftx (dbFindAll E DBColEvents (where_field ''key'' (wsKey (mw_Cookie mwd))))) (\<lambda>r. case r of
       Inl _ \<Rightarrow> gret ()
     | Inr evs \<Rightarrow> geach (ws_fire E C pas mtype ((run_args [(''mwid'', Name (mw_SwoId mwd)), (''cid'', cid), (''mtype'', Itoa mtype)])
         \<lparr>run_Body := (if mtype = 1 then message else b64 message), run_Claims := claims\<rparr>)) evs)"

section \<open>Calls over HTTP\<close>

text \<open>The buckets a call draws from, written back after the check.\<close>

definition fmd_ratelimited :: "'x gate_env \<Rightarrow> string \<Rightarrow> ('x gst, string, bool) go" where
  "fmd_ratelimited E cookie =
     gbind (liftx (gout (gnow E))) (\<lambda>now w. case fdmd w cookie of None \<Rightarrow> (Panic, w) | Some md \<Rightarrow>
       (case tdat w (md_tenant md) of None \<Rightarrow> (Panic, w) | Some td \<Rightarrow>
         (case ratelimited now \<lparr>frl = md_crl md, trl = td_crl td, grl = gate_rl w\<rparr> of None \<Rightarrow> (Panic, w)
          | Some (r, l) \<Rightarrow> (Ok r, w\<lparr>fdmd := (fdmd w)(cookie := Some (md\<lparr>md_crl := frl l\<rparr>)),
              tdat := (tdat w)(md_tenant md := Some (td\<lparr>td_crl := trl l\<rparr>)), gate_rl := grl l\<rparr>))))"

definition fmd_rslimited :: "'x gate_env \<Rightarrow> string \<Rightarrow> ('x gst, string, bool) go" where
  "fmd_rslimited E cookie = (\<lambda>w. case fdmd w cookie of None \<Rightarrow> (Panic, w) | Some md \<Rightarrow>
     (case tdat w (md_tenant md) of None \<Rightarrow> (Panic, w) | Some td \<Rightarrow> (Ok (rslimited E td), w)))"

definition answer :: "WdogFunctionRunResult \<Rightarrow> http_resp" where
  "answer res = (if res_Code res \<ge> 0 then \<lparr>rs_Code = (if res_Code res = 0 then 200 else res_Code res), rs_Body = res_Return res\<rparr>
     else \<lparr>rs_Code = - res_Code res, rs_Body = res_Return res\<rparr>)"

text \<open>The claims of the caller: from the router, or from the token when the function wants one.\<close>

definition fmd_claims :: "jwt_lib \<Rightarrow> int \<Rightarrow> string \<Rightarrow> http_req \<Rightarrow> FunctionRun \<Rightarrow> ('x gst, string, string + FunctionRun) go" where
  "fmd_claims L now cookie rq args = (\<lambda>w. case fdmd w cookie of None \<Rightarrow> (Panic, w) | Some md \<Rightarrow>
     (case (run_Claims args, md_ac md) of
        (None, Some key) \<Rightarrow> (case Verify L key now (hr_Auth rq) of
          Inl e \<Rightarrow> (Ok (Inl e), w) | Inr cs \<Rightarrow> (Ok (Inr (args\<lparr>run_Claims := Some (JObj cs)\<rparr>)), w))
      | _ \<Rightarrow> (Ok (Inr args), w)))"

definition note_thens :: "'x gate_env \<Rightarrow> cfb \<Rightarrow> string \<Rightarrow> string \<Rightarrow> WdogFunctionRunResult \<Rightarrow> ('x gst, string, unit) go" where
  "note_thens E C pas cookie res = (case res_Then res of None \<Rightarrow> gret () | Some tc \<Rightarrow>
     if res_Code res < 0 then gret ()
     else gbind (gget (\<lambda>w. fdmd w cookie)) (\<lambda>m. case m of None \<Rightarrow> gret () | Some md \<Rightarrow> doThenCall E C pas (md_id md) tc))"

text \<open>With the pod in hand: claims, arguments, the run and its accounting. A failed run is not charged.\<close>

definition call_pod :: "'x gate_env \<Rightarrow> jwt_lib \<Rightarrow> string \<Rightarrow> podConn \<Rightarrow> http_req \<Rightarrow> statsOpaque \<Rightarrow> FunctionRun
    \<Rightarrow> ('x gst, string, http_resp \<times> WdogFunctionRunResult option) go" where
  "call_pod E L cookie c rq sopq args =
     gbind (liftx (gout (gnow E))) (\<lambda>now.
     gbind (fmd_claims L now cookie rq args) (\<lambda>cl. case cl of
       Inl e \<Rightarrow> gret (\<lparr>rs_Code = 401, rs_Body = e\<rparr>, None)
     | Inr args \<Rightarrow> (case makeArgs rq args sopq of (args, sopq) \<Rightarrow>
         gtry (run_stats E cookie c ''call'' sopq args) (\<lambda>r. case r of
           Inl e \<Rightarrow> gret (\<lparr>rs_Code = 500, rs_Body = e\<rparr>, None)
         | Inr res \<Rightarrow> gret (answer res, Some res)))))"

definition fmd_Handle :: "'x gate_env \<Rightarrow> jwt_lib \<Rightarrow> string \<Rightarrow> http_req \<Rightarrow> statsOpaque \<Rightarrow> FunctionRun
    \<Rightarrow> ('x gst, string, http_resp \<times> WdogFunctionRunResult option) go" where
  "fmd_Handle E L cookie rq sopq args =
     gbind (fmd_ratelimited E cookie) (\<lambda>lim. if lim then gret (\<lparr>rs_Code = 429, rs_Body = ''Ratelimited''\<rparr>, None)
     else gbind (fmd_rslimited E cookie) (\<lambda>lim. if lim then gret (\<lparr>rs_Code = 423, rs_Body = ''Resources exhausted''\<rparr>, None)
     else gtry (get_conn E cookie) (\<lambda>r. case r of
       Inl _ \<Rightarrow> gret (\<lparr>rs_Code = 500, rs_Body = ''DB error''\<rparr>, None)
     | Inr c \<Rightarrow> gbind (call_pod E L cookie c rq sopq args) (\<lambda>resp. gbind (put_conn cookie) (\<lambda>_. gret resp)))))"

text \<open>The chained call of a result runs in the background, after the answer.\<close>

definition fmd_Handle_then :: "'x gate_env \<Rightarrow> cfb \<Rightarrow> string \<Rightarrow> jwt_lib \<Rightarrow> string \<Rightarrow> http_req \<Rightarrow> statsOpaque \<Rightarrow> FunctionRun \<Rightarrow> ('x gst, string, http_resp) go" where
  "fmd_Handle_then E C pas L cookie rq sopq args =
     gbind (fmd_Handle E L cookie rq sopq args) (\<lambda>(resp, res).
     gbind (case res of None \<Rightarrow> gret () | Some res \<Rightarrow> note_thens E C pas cookie res) (\<lambda>_. gret resp))"

text \<open>A URL of a function.\<close>

definition FnURL_Handle :: "'x gate_env \<Rightarrow> cfb \<Rightarrow> string \<Rightarrow> jwt_lib \<Rightarrow> string option \<Rightarrow> http_req \<Rightarrow> statsOpaque \<Rightarrow> ('x gst, string, http_resp) go" where
  "FnURL_Handle E C pas L fd rq sopq = (case fd of None \<Rightarrow> gpanic | Some cookie \<Rightarrow>
     fmd_Handle_then E C pas L cookie rq sopq ((run_args [])\<lparr>run_Path := Some (reqPath (hr_Path rq))\<rparr>))"

definition makeFnURL :: "'x gate_env \<Rightarrow> cfb \<Rightarrow> string \<Rightarrow> string \<Rightarrow> ('x gst, gdberr, URL) go" where
  "makeFnURL E C pas urlid =
     gbind (liftx (urlEvFind E urlid)) (\<lambda>ed. gbind (memdGet E C pas (ev_FnId ed)) (\<lambda>m. gret (FnURL (map_option md_fnid m))))"

section \<open>Every call is accounted for\<close>

text \<open>
  What a call may change: the memory data of its function and the data of its tenant. The function keeps its tenant,
  memory size and identity.
\<close>

definition in_flight :: "FnMemData \<Rightarrow> 32 word" where
  "in_flight md = rover0 (md_bd md) - rover1 (md_bd md)"

definition call_frame :: "string \<Rightarrow> FnMemData \<Rightarrow> TenantMemData \<Rightarrow> 'x gst \<Rightarrow> FnMemData \<Rightarrow> TenantMemData \<Rightarrow> 'x gst \<Rightarrow> bool" where
  "call_frame c md td w md' td' w' \<longleftrightarrow> fdmd w' = (fdmd w)(c := Some md') \<and> tdat w' = (tdat w)(md_tenant md := Some td')
     \<and> md_tenant md' = md_tenant md \<and> md_mem md' = md_mem md \<and> md_fnid md' = md_fnid md"

definition same_counts :: "FnMemData \<Rightarrow> TenantMemData \<Rightarrow> FnMemData \<Rightarrow> TenantMemData \<Rightarrow> bool" where
  "same_counts md td md' td' \<longleftrightarrow> fst_Values (md_stats md') = fst_Values (md_stats md) \<and> tst_Values (td_stats td') = tst_Values (td_stats td)"

lemma wp_ratelimited_frame:
  assumes "fdmd w c = Some md" and "tdat w (md_tenant md) = Some td"
    and "\<And>r w' md' td'. call_frame c md td w md' td' w' \<Longrightarrow> same_counts md td md' td' \<Longrightarrow> in_flight md' = in_flight md \<Longrightarrow> Q (Ok r) w'"
    and "\<And>w'. Q Panic w'"
  shows "wp (fmd_ratelimited E c) Q w"
proof -
  obtain now x where now: "gnow E (outer w) = (now, x)" by fastforce
  show ?thesis
  proof (cases "ratelimited now \<lparr>frl = md_crl md, trl = td_crl td, grl = gate_rl w\<rparr>")
    case None
    then show ?thesis using assms(1,2,4) now by (simp add: fmd_ratelimited_def wp_def gbind_def liftx_def gout_def)
  next
    case (Some p)
    obtain r l where p: "p = (r, l)" by fastforce
    let ?w = "w\<lparr>outer := x, fdmd := (fdmd w)(c := Some (md\<lparr>md_crl := frl l\<rparr>)),
      tdat := (tdat w)(md_tenant md := Some (td\<lparr>td_crl := trl l\<rparr>)), gate_rl := grl l\<rparr>"
    have "Q (Ok r) ?w"
      by (rule assms(3) [of "md\<lparr>md_crl := frl l\<rparr>" "td\<lparr>td_crl := trl l\<rparr>"]) (simp_all add: call_frame_def same_counts_def in_flight_def)
    then show ?thesis using Some p assms(1,2) now by (simp add: fmd_ratelimited_def wp_def gbind_def liftx_def gout_def)
  qed
qed

lemma getConn_counts:
  assumes "balancerGetConnAny mx st fnid bd = (Ok (c, start), bd')"
  shows "rover0 bd' = rover0 bd + 1 \<and> rover1 bd' = rover1 bd"
proof -
  obtain bd1 aps where g: "get_pods st fnid bd = (Some aps, bd1)"
    and s: "scalerSetGoal mx (rover0 bd + 1 - rover1 bd) (bd1\<lparr>rover0 := rover0 bd + 1\<rparr>) = (bd', start)"
    by (rule getConn_Ok [OF assms])
  then show ?thesis using get_pods_keeps [OF g] scalerSetGoal_keeps [OF s] by simp
qed

lemma getConn_Err: "balancerGetConnAny mx st fnid bd = (Err e, bd') \<Longrightarrow> bd' = bd"
  by (auto simp: balancerGetConnAny_def get_pods_def pick_def Let_def split: prod.splits option.splits if_splits)

lemma wp_get_conn_frame:
  assumes "fdmd w c = Some md" and "tdat w (md_tenant md) = Some td"
    and "\<And>a w' md' td'. call_frame c md td w md' td' w' \<Longrightarrow> same_counts md td md' td' \<Longrightarrow> in_flight md' = in_flight md + 1 \<Longrightarrow> Q (Ok a) w'"
    and "\<And>e w' md' td'. call_frame c md td w md' td' w' \<Longrightarrow> same_counts md td md' td' \<Longrightarrow> in_flight md' = in_flight md \<Longrightarrow> Q (Err e) w'"
    and "\<And>w'. Q Panic w'"
  shows "wp (get_conn E c) Q w"
proof -
  obtain r bd where b: "balancerGetConnAny (MaxReplicas E) (podst w) (md_fnid md) (md_bd md) = (r, bd)" by fastforce
  let ?md = "md\<lparr>md_bd := bd\<rparr>" and ?w = "w\<lparr>fdmd := (fdmd w)(c := Some (md\<lparr>md_bd := bd\<rparr>))\<rparr>"
  have frame: "call_frame c md td w ?md td ?w" "same_counts md td ?md td"
    using assms(2) by (auto simp: call_frame_def same_counts_def)
  show ?thesis
  proof (cases r)
    case (Ok a)
    obtain conn start where a: "a = (conn, start)" by fastforce
    have "in_flight ?md = in_flight md + 1" using getConn_counts [OF b [unfolded Ok a]] by (simp add: in_flight_def)
    then have "Q (Ok conn) ?w" by (rule assms(3) [OF frame])
    then show ?thesis using b Ok a assms(1) by (simp add: get_conn_def wp_def)
  next
    case (Err e)
    have "bd = md_bd md" using getConn_Err [OF b [unfolded Err]] .
    then have "Q (Err e) ?w" by (intro assms(4) [OF frame]) simp
    then show ?thesis using b Err assms(1) by (simp add: get_conn_def wp_def)
  next
    case Panic
    then show ?thesis using b assms(1,5) by (simp add: get_conn_def wp_def)
  qed
qed

lemma wp_put_conn:
  assumes "fdmd w c = Some md" and "Q (Ok ()) (w\<lparr>fdmd := (fdmd w)(c := Some (md\<lparr>md_bd := balancerPutConn (md_bd md)\<rparr>))\<rparr>)"
  shows "wp (put_conn c) Q w"
  using assms by (simp add: put_conn_def on_bd_def wp_gmod)

text \<open>The counters after a run.\<close>

definition counted :: "FnMemData \<Rightarrow> TenantMemData \<Rightarrow> statsOpaque \<Rightarrow> WdogFunctionRunResult \<Rightarrow> FnMemData \<Rightarrow> TenantMemData \<Rightarrow> bool" where
  "counted md td oq r md' td' \<longleftrightarrow> fst_Values (md_stats md') = stats_call md oq r (fst_Values (md_stats md))
     \<and> tst_Values (td_stats td') = stats_tenant md oq r (tst_Values (td_stats td))"

lemma statsUpdate_frame:
  assumes "fdmd w c = Some md" and "tdat w (md_tenant md) = Some td"
  obtains md' td' where "call_frame c md td w md' td' (statsUpdate c oq r w)" "counted md td oq r md' td'" "in_flight md' = in_flight md"
    "outer (statsUpdate c oq r w) = outer w"
  using assms by (intro that [of "md\<lparr>md_stats := (md_stats md)\<lparr>fst_Values := stats_call md oq r (fst_Values (md_stats md)), fst_dirty := True\<rparr>\<rparr>"
      "td\<lparr>td_stats := (td_stats td)\<lparr>tst_Values := stats_tenant md oq r (tst_Values (td_stats td)), tst_dirty := True\<rparr>\<rparr>"])
    (simp_all add: statsUpdate_def call_frame_def counted_def in_flight_def Let_def)

lemma no_panic_conn_Run: "no_panic (conn_Run E cn suff event args)"
  unfolding conn_Run_def by (auto intro!: no_panic_rules no_panic_logSaveResult split: sum.splits)

lemma wp_run_stats:
  assumes "fdmd w c = Some md" and "tdat w (md_tenant md) = Some td"
    and "\<And>r w' md' td'. call_frame c md td w md' td' w' \<Longrightarrow> counted md td oq r md' td' \<Longrightarrow> in_flight md' = in_flight md \<Longrightarrow> Q (Ok r) w'"
    and "\<And>e x. Q (Err e) (w\<lparr>outer := x\<rparr>)"
  shows "wp (run_stats E c cn event oq args) Q w"
proof -
  obtain r x where run: "conn_Run E cn [] event args (outer w) = (r, x)" by fastforce
  then have np: "r \<noteq> Panic" using no_panic_conn_Run unfolding no_panic_def by (metis fst_conv)
  show ?thesis
  proof (cases r)
    case (Ok res)
    obtain md' td' where f: "call_frame c md td (w\<lparr>outer := x\<rparr>) md' td' (statsUpdate c oq res (w\<lparr>outer := x\<rparr>))"
      "counted md td oq res md' td'" "in_flight md' = in_flight md"
      by (rule statsUpdate_frame [of "w\<lparr>outer := x\<rparr>" c md td oq res]) (use assms(1,2) in simp_all)
    then have "Q (Ok res) (statsUpdate c oq res (w\<lparr>outer := x\<rparr>))" by (intro assms(3) [of md' td']) (simp_all add: call_frame_def)
    then show ?thesis using run Ok by (simp add: run_stats_def wp_def gbind_def liftx_def gmod_def gret_def)
  next
    case (Err e)
    then show ?thesis using run assms(4) by (simp add: run_stats_def wp_def gbind_def liftx_def)
  qed (use np in simp)
qed


lemma call_frame_outer [simp]:
  "call_frame c md td (w\<lparr>outer := x\<rparr>) md' td' w' = call_frame c md td w md' td' w'"
  "call_frame c md td w md' td' (w'\<lparr>outer := x\<rparr>) = call_frame c md td w md' td' w'"
  by (simp_all add: call_frame_def)

lemma call_frame_trans:
  assumes "call_frame c md td w md1 td1 w1" and "call_frame c md1 td1 w1 md2 td2 w2"
  shows "call_frame c md td w md2 td2 w2"
  using assms by (simp add: call_frame_def)

lemma call_frame_reads: "call_frame c md td w md' td' w' \<Longrightarrow> fdmd w' c = Some md' \<and> tdat w' (md_tenant md') = Some td'"
  by (simp add: call_frame_def)

lemma call_frame_put:
  "call_frame c md td w md' td' w' \<Longrightarrow>
   call_frame c md td w (md'\<lparr>md_bd := bd\<rparr>) td' (w'\<lparr>fdmd := (fdmd w')(c := Some (md'\<lparr>md_bd := bd\<rparr>))\<rparr>)"
  by (simp add: call_frame_def)

lemma call_frame_refl: "fdmd w c = Some md \<Longrightarrow> tdat w (md_tenant md) = Some td \<Longrightarrow> call_frame c md td w md td w"
  by (simp add: call_frame_def fun_upd_idem)

lemma in_flight_put: "in_flight (m\<lparr>md_bd := balancerPutConn (md_bd m)\<rparr>) = in_flight m - 1"
  by (simp add: in_flight_def balancerPutConn_def)

lemma counted_cong:
  "call_frame c md td w md1 td1 w1 \<Longrightarrow> same_counts md td md1 td1 \<Longrightarrow> counted md1 td1 oq r md' td' = counted md td oq r md' td'"
  by (simp add: counted_def same_counts_def call_frame_def stats_call_def stats_tenant_def)

text \<open>What a caller of \<open>Handle\<close> learns: the answer, and the result it was made from when the function ran.\<close>

definition charged :: "FnMemData \<Rightarrow> TenantMemData \<Rightarrow> FnMemData \<Rightarrow> TenantMemData \<Rightarrow> http_resp \<times> WdogFunctionRunResult option \<Rightarrow> bool" where
  "charged md td md' td' a \<longleftrightarrow> (case snd a of
     None \<Rightarrow> same_counts md td md' td' \<and> rs_Code (fst a) \<in> {401, 423, 429, 500}
   | Some r \<Rightarrow> (\<exists>oq. counted md td oq r md' td') \<and> fst a = answer r)"

lemma charged_cong:
  "call_frame c md td w md1 td1 w1 \<Longrightarrow> same_counts md td md1 td1 \<Longrightarrow> charged md1 td1 md' td' a = charged md td md' td' a"
  by (cases "snd a") (simp_all add: charged_def counted_cong [of c md td w md1 td1 w1], simp add: same_counts_def)

lemma charged_bd [simp]: "charged md td (md'\<lparr>md_bd := bd\<rparr>) td' a = charged md td md' td' a"
  by (cases "snd a") (simp_all add: charged_def same_counts_def counted_def)

lemma wp_fmd_claims:
  assumes "fdmd w c = Some md" and "\<And>r. Q (Ok r) w"
  shows "wp (fmd_claims L now c rq args) Q w"
  using assms by (simp add: wp_def fmd_claims_def split: option.splits sum.splits)

lemma wp_call_pod:
  assumes "fdmd w c = Some md" and "tdat w (md_tenant md) = Some td"
    and ok: "\<And>a w' md' td'. call_frame c md td w md' td' w' \<Longrightarrow> charged md td md' td' a \<Longrightarrow> in_flight md' = in_flight md \<Longrightarrow> Q (Ok a) w'"
  shows "wp (call_pod E L c cn rq oq args) Q w"
proof -
  have same: "Q (Ok (\<lparr>rs_Code = k, rs_Body = b\<rparr>, None)) (w\<lparr>outer := x\<rparr>)" if "k \<in> {401, 423, 429, 500}" for k b x
    by (rule ok [of md td]) (use that call_frame_refl [OF assms(1,2)] in \<open>simp_all add: charged_def same_counts_def\<close>)
  have run: "wp (run_stats E c cn ''call'' oq args) (on_any (\<lambda>r. wp (case r of
      Inl e \<Rightarrow> gret (\<lparr>rs_Code = 500, rs_Body = e\<rparr>, None) | Inr res \<Rightarrow> gret (answer res, Some res)) Q) Q) (w\<lparr>outer := x\<rparr>)" for oq args x
    by (rule wp_run_stats [of _ _ md td]) (use assms(1,2) same in \<open>auto simp: wp_simps charged_def intro!: ok\<close>)
  show ?thesis
    unfolding call_pod_def wp_simps on_ok_simps
    by (rule wp_fmd_claims [where md = md]) (use assms(1) same run in \<open>simp_all add: on_ok_def wp_simps split: sum.splits prod.splits\<close>)
qed


lemma wp_rslimited:
  "fdmd w c = Some md \<Longrightarrow> tdat w (md_tenant md) = Some td \<Longrightarrow> wp (fmd_rslimited E c) Q w = Q (Ok (rslimited E td)) w"
  by (simp add: fmd_rslimited_def wp_def)

text \<open>A call that got a pod: the run, and the end of the call.\<close>

lemma wp_served:
  assumes "fdmd w c = Some md" and "tdat w (md_tenant md) = Some td"
    and ok: "\<And>a w' md' td'. call_frame c md td w md' td' w' \<Longrightarrow> charged md td md' td' a \<Longrightarrow> in_flight md' = in_flight md - 1 \<Longrightarrow> Q (Ok a) w'"
  shows "wp (gbind (call_pod E L c cn rq oq args) (\<lambda>resp. gbind (put_conn c) (\<lambda>_. gret resp))) Q w"
  unfolding wp_simps
proof (rule wp_call_pod [OF assms(1,2)], goal_cases)
  case (1 a v m t)
  let ?m = "m\<lparr>md_bd := balancerPutConn (md_bd m)\<rparr>"
  have "Q (Ok a) (v\<lparr>fdmd := (fdmd v)(c := Some ?m)\<rparr>)"
    by (rule ok [OF call_frame_put [OF 1(1)]]) (use 1(2,3) in \<open>simp_all add: in_flight_put\<close>)
  then show ?case using call_frame_reads [OF 1(1)] by (auto simp: wp_simps on_ok_simps intro!: wp_put_conn)
qed

lemma wp_fmd_Handle:
  assumes "fdmd w c = Some md" and "tdat w (md_tenant md) = Some td"
    and ok: "\<And>a w' md' td'. call_frame c md td w md' td' w' \<Longrightarrow> in_flight md' = in_flight md \<Longrightarrow> charged md td md' td' a \<Longrightarrow> Q (Ok a) w'"
    and "\<And>w'. Q Panic w'"
  shows "wp (fmd_Handle E L c rq oq args) Q w"
  unfolding fmd_Handle_def wp_simps
proof (rule wp_ratelimited_frame [OF assms(1,2)], goal_cases)
  case (1 lim v m t)
  have turned: "Q (Ok (\<lparr>rs_Code = k, rs_Body = b\<rparr>, None)) u"
    if "call_frame c m t v m2 t2 u" "same_counts m t m2 t2" "in_flight m2 = in_flight m" "k \<in> {401, 423, 429, 500}" for k b u m2 t2
    by (rule ok [OF call_frame_trans [OF 1(1) that(1)]]) (use 1(2,3) that(2-4) in \<open>auto simp: charged_def same_counts_def\<close>)
  have f: "fdmd v c = Some m" "tdat v (md_tenant m) = Some t" using call_frame_reads [OF 1(1)] by simp_all
  have here: "Q (Ok (\<lparr>rs_Code = k, rs_Body = b\<rparr>, None)) v" if "k \<in> {401, 423, 429, 500}" for k b
    by (rule turned [OF call_frame_refl [OF f] _ refl that]) (simp add: same_counts_def)
  have pod: "wp (get_conn E c) (on_any (\<lambda>r. wp (case r of Inl _ \<Rightarrow> gret (\<lparr>rs_Code = 500, rs_Body = ''DB error''\<rparr>, None)
          | Inr cn \<Rightarrow> gbind (call_pod E L c cn rq oq args) (\<lambda>resp. gbind (put_conn c) (\<lambda>_. gret resp))) Q) Q) v"
  proof (rule wp_get_conn_frame [OF f], goal_cases)
    case (1 cn u m2 t2)
    note g = call_frame_reads [OF 1(1)]
    have "Q (Ok a) u'" if "call_frame c m2 t2 u m3 t3 u'" "charged m2 t2 m3 t3 a" "in_flight m3 = in_flight m2 - 1" for a u' m3 t3
      by (rule ok [OF call_frame_trans [OF \<open>call_frame c md td w m t v\<close> call_frame_trans [OF 1(1) that(1)]]])
        (use that 1(2,3) charged_cong [OF 1(1,2)] charged_cong [OF \<open>call_frame c md td w m t v\<close>] \<open>same_counts md td m t\<close>
          \<open>in_flight m = in_flight md\<close> in simp_all)
    then show ?case using g by (simp add: on_any_def) (rule wp_served [of _ _ m2 t2], simp_all)
  qed (use assms(4) turned in \<open>simp_all add: on_any_def wp_simps\<close>)
  show ?case using here pod by (simp add: on_ok_def wp_simps wp_rslimited [OF f])
qed (use assms(4) in \<open>simp add: on_ok_def\<close>)


end
