(* ===== verification/Gate_Store.thy ===== *)
theory Gate_Store
  imports Gate_DB
begin

text \<open>
  An in-memory database that satisfies the laws of \<open>Gate_DB\<close>, with a clock that stands still, a
  Kubernetes that knows the deployments it was asked to create and source storage that always
  answers. It instantiates the environment in the witnesses of the gate's properties.
\<close>

record gmem =
  gm_keys :: "(gcoll \<times> oid) list"
  gm_docs :: "gcoll \<times> oid \<Rightarrow> gdoc option"
  gm_deps :: "string list"

definition gmview :: "gmem \<Rightarrow> gview" where
  "gmview x c i = (if (c, i) \<in> set (gm_keys x) then gm_docs x (c, i) else None)"

definition ghit :: "gmem \<Rightarrow> gcoll \<Rightarrow> (gdoc \<Rightarrow> bool) \<Rightarrow> gcoll \<times> oid \<Rightarrow> bool" where
  "ghit x c q k \<longleftrightarrow> fst k = c \<and> (case gm_docs x k of None \<Rightarrow> False | Some d \<Rightarrow> q d)"

definition ghits :: "gmem \<Rightarrow> gcoll \<Rightarrow> (gdoc \<Rightarrow> bool) \<Rightarrow> (gcoll \<times> oid) list" where
  "ghits x c q = remdups (filter (ghit x c q) (gm_keys x))"

definition gmput :: "gcoll \<times> oid \<Rightarrow> gdoc option \<Rightarrow> gmem \<Rightarrow> gmem" where
  "gmput k d x = x\<lparr>gm_keys := k # gm_keys x, gm_docs := (gm_docs x)(k := d)\<rparr>"

definition gnew_id :: "gmem \<Rightarrow> oid" where
  "gnew_id x = replicate (Suc (sum_list (map (length \<circ> snd) (gm_keys x)))) (CHR ''i'')"

definition gid_for :: "gmem \<Rightarrow> gdoc \<Rightarrow> oid" where
  "gid_for x d = (case given_id d of None \<Rightarrow> gnew_id x | Some i \<Rightarrow> i)"

definition gtaken :: "gmem \<Rightarrow> gdoc \<Rightarrow> bool" where
  "gtaken x d \<longleftrightarrow> gmview x (gcoll_of d) (gid_for x d) \<noteq> None
     \<or> (case unique_cookie d of None \<Rightarrow> False | Some c \<Rightarrow> ghits x (gcoll_of d) (\<lambda>d'. unique_cookie d' = Some c) \<noteq> [])"

definition gm_insert :: "gdoc \<Rightarrow> gmem \<Rightarrow> greply \<times> gmem" where
  "gm_insert d x = (if gtaken x d then (GDuplicate, x) else (GDone, gmput (gcoll_of d, gid_for x d) (Some d) x))"

definition gm_on_first :: "gcoll \<Rightarrow> (gdoc \<Rightarrow> bool) \<Rightarrow> (gcoll \<times> oid \<Rightarrow> greply \<times> gmem) \<Rightarrow> greply \<times> gmem \<Rightarrow> gmem \<Rightarrow> greply \<times> gmem" where
  "gm_on_first c q f none x = (case ghits x c q of [] \<Rightarrow> none | k # _ \<Rightarrow> f k)"

fun gmsrv :: "gdb_request \<Rightarrow> gmem \<Rightarrow> greply \<times> gmem" where
  "gmsrv (GInsert d) x = gm_insert d x"
| "gmsrv (GUpdate c q u) x = gm_on_first c q (\<lambda>k. (GDone, gmput k (map_option u (gm_docs x k)) x)) (GMissing, x) x"
| "gmsrv (GUpsert c q u n) x = gm_on_first c q (\<lambda>k. (GDone, gmput k (map_option u (gm_docs x k)) x))
     (if gcoll_of n = c then gm_insert n x else (GFailed ''collection'', x)) x"
| "gmsrv (GRemove c q) x = gm_on_first c q (\<lambda>k. (GDone, gmput k None x)) (GMissing, x) x"
| "gmsrv (GRemoveAll c q) x = (GDone, x\<lparr>gm_docs := (\<lambda>k. if ghit x c q k then None else gm_docs x k)\<rparr>)"
| "gmsrv (GFindOne c q) x = gm_on_first c q (\<lambda>k. (GGot (the (gm_docs x k)), x)) (GMissing, x) x"
| "gmsrv (GFindAll c q) x = (GMany (remdups (map (the \<circ> gm_docs x) (ghits x c q))), x)"
| "gmsrv (GCount c q) x = (GNumber (length (ghits x c q)), x)"

fun gmk8s :: "k8s_request \<Rightarrow> gmem \<Rightarrow> k8s_reply \<times> gmem" where
  "gmk8s (KGetDep d) x = (if d \<in> set (gm_deps x) then KOk else KNotFound, x)"
| "gmk8s (KSetReplicas d n) x = (KOk, x)"
| "gmk8s (KCreateDep d) x = (KOk, x\<lparr>gm_deps := dep_name d # gm_deps x\<rparr>)"
| "gmk8s (KUpdateDep d) x = (KOk, x)"
| "gmk8s (KDelDep d) x = (KOk, x\<lparr>gm_deps := removeAll d (gm_deps x)\<rparr>)"
| "gmk8s (KSecretCreate i e) x = (KOk, x)"
| "gmk8s (KSecretUpdate i e) x = (KOk, x)"
| "gmk8s (KSecretDelete i) x = (KOk, x)"

definition demo_result :: WdogFunctionRunResult where
  "demo_result = \<lparr>res_Return = ''ok'', res_Code = 0, res_Stdout = [], res_Stderr = [], res_Time = 5, res_Then = None\<rparr>"

definition gmem_env :: "gmem gate_env" where
  "gmem_env = \<lparr>gsrv = gmsrv, gnewid = (\<lambda>x. (gnew_id x, x)), gnow = (\<lambda>x. (1000, x)),
     rand_Read = (\<lambda>n x. (Some (replicate n (CHR 0x00)), x)), k8s = gmk8s,
     src_put = (\<lambda>k d s x. (None, x)), DropDir = (\<lambda>d s x. (None, x)),
     wdog_build = (\<lambda>l d s x. (Inr demo_result, x)), wdog_run = (\<lambda>u a x. (Inr demo_result, x)), mw_server = (\<lambda>r x. (None, x)),
     mw_usage = (\<lambda>t n x. (Inr [0], x)), ws_WriteMessage = (\<lambda>n m s x. ((), x)), ws_Close = (\<lambda>n x. ((), x)),
     s3_keygen = (\<lambda>n b l x. (Inr (''key'', ''secret''), x)), github_user = (\<lambda>t x. (Inr ''user'', x)),
     aes_nonce = (\<lambda>x. (Some (replicate 16 (CHR 0x00)), x)),
     cron_AddFunc = (\<lambda>t f a x. (Inr 1, x)), cron_Remove = (\<lambda>j x. ((), x)), s3Call = (\<lambda>r x. (None, x)),
     amqp_Consume = (\<lambda>k x. (None, x)), amqp_Close = (\<lambda>k x. ((), x)),
     Cookify = (\<lambda>s. s), GBS = (\<lambda>w. w), fsub = (-), fgt = (\<lambda>a b. a > b), fzero = (\<lambda>a. a = 0),
     dbStrict = True, MaxReplicas = 32, WdogVolume = ''/v'', WdogConfPort = 8687, ImgPref = ''swifty'', DemoSources = ''demo'',
     LangDisabled = (\<lambda>_. False), TimeoutDef = 1, TimeoutMax = 60, MemoryDef = 128, MemoryMin = 64, MemoryMax = 1024,
     isLite = False, WdogProxy = None, path_match = (=), S3mq = Some ''mq'', conf_WS = Some [], conf_S3 = Some ''s3'',
     conf_Maria = Some \<lparr>mwc_User = ''u'', mwc_Addr = ''maria:1'', mwc_QDB = ''q''\<rparr>, conf_Postgres = None, conf_Rabbit = None,
     conf_Mongo = Some \<lparr>mwc_User = ''u'', mwc_Addr = ''mongo:1'', mwc_QDB = []\<rparr>, Daemon_Addr = ''gate'', Daemon_CallGate = [],
     MwDisabled = (\<lambda>t. t \<in> {''postgres'', ''rabbit'', ''websocket''}), secretFields = [''token'', ''secret'', ''password'', ''key''],
     secretTrim = 6, TableKeyLenMax = 64\<rparr>"

definition gmem_of :: "gdoc list \<Rightarrow> gmem" where
  "gmem_of ds = fold (\<lambda>d x. snd (gm_insert d x)) ds \<lparr>gm_keys = [], gm_docs = (\<lambda>_. None), gm_deps = []\<rparr>"

section \<open>It keeps the laws\<close>

lemma gmview_put: "gmview (gmput (c, i) d x) = gput c i d (gmview x)"
  by (auto simp: gmview_def gmput_def gput_def fun_eq_iff)

lemma ghits_iff: "k \<in> set (ghits x c q) \<longleftrightarrow> (\<exists>i d. k = (c, i) \<and> gmview x c i = Some d \<and> q d)"
  by (cases k) (auto simp: ghits_def ghit_def gmview_def split: option.splits if_splits)

lemma ghits_view: "k \<in> set (ghits x c q) \<Longrightarrow> gmview x c (snd k) = gm_docs x k"
  by (cases k) (auto simp: ghits_def ghit_def gmview_def)

lemma gmatch_ghits: "gmatch (gmview x) c q = snd ` set (ghits x c q)"
proof -
  have "i \<in> gmatch (gmview x) c q \<longleftrightarrow> i \<in> snd ` set (ghits x c q)" for i
  proof -
    have "i \<in> snd ` set (ghits x c q) \<longleftrightarrow> (c, i) \<in> set (ghits x c q)"
      by (force simp: ghits_iff)
    then show ?thesis by (auto simp: ghits_iff gmatch_def)
  qed
  then show ?thesis by blast
qed

lemma card_ghits: "length (ghits x c q) = card (gmatch (gmview x) c q)"
proof -
  have "inj_on snd (set (ghits x c q))" by (auto simp: inj_on_def ghits_iff)
  then have "card (gmatch (gmview x) c q) = card (set (ghits x c q))" by (simp add: gmatch_ghits card_image)
  also have "\<dots> = length (ghits x c q)" by (rule distinct_card) (simp add: ghits_def)
  finally show ?thesis ..
qed

lemma gnew_id_new: "gmview x c (gnew_id x) = None"
proof -
  have "length (snd k) \<le> sum_list (map (length \<circ> snd) (gm_keys x))" if "k \<in> set (gm_keys x)" for k
    using that by (auto intro!: member_le_sum_list)
  then have "length i < length (gnew_id x)" if "(c, i) \<in> set (gm_keys x)" for i
    using that by (fastforce simp: gnew_id_def)
  then show ?thesis by (auto simp: gmview_def)
qed

lemma on_first_cases:
  obtains (none) "gmatch (gmview x) c q = {}" "gm_on_first c q f none x = none"
    | (hit) i d where "gmview x c i = Some d" "q d" "gm_docs x (c, i) = Some d" "gm_on_first c q f none x = f (c, i)"
proof (cases "ghits x c q")
  case Nil
  then show thesis using none by (simp add: gmatch_ghits gm_on_first_def)
next
  case (Cons k ks)
  then have "k \<in> set (ghits x c q)" by simp
  then obtain i d where k: "k = (c, i)" "gmview x c i = Some d" "q d" by (auto simp: ghits_iff)
  moreover have "gm_docs x (c, i) = Some d" using k by (auto simp: gmview_def split: if_splits)
  ultimately show thesis using hit Cons by (simp add: gm_on_first_def)
qed

lemma gm_insert_serves: "gserves (GInsert d) (fst (gm_insert d x)) (gmview x) (gmview (snd (gm_insert d x)))"
proof (cases "gtaken x d")
  case False
  then have "gfresh (gmview x) d (gid_for x d)"
    by (auto simp: gfresh_def gtaken_def gid_for_def split: option.splits)
  then show ?thesis using False by (auto simp: gm_insert_def gmview_put)
qed (simp add: gm_insert_def)

lemma gmsrv_serves: "gserves r (fst (gmsrv r x)) (gmview x) (gmview (snd (gmsrv r x)))"
proof (cases r)
  case (GInsert d)
  then show ?thesis using gm_insert_serves by simp
next
  case (GUpdate c q u)
  show ?thesis unfolding GUpdate gmsrv.simps
    by (rule on_first_cases [of x c q "\<lambda>k. (GDone, gmput k (map_option u (gm_docs x k)) x)" "(GMissing, x)"])
      (auto simp: gmview_put)
next
  case (GUpsert c q u n)
  show ?thesis unfolding GUpsert gmsrv.simps
    by (rule on_first_cases [of x c q "\<lambda>k. (GDone, gmput k (map_option u (gm_docs x k)) x)"
          "if gcoll_of n = c then gm_insert n x else (GFailed ''collection'', x)"])
      (use gm_insert_serves [of n x] in \<open>auto simp: gmview_put split: greply.splits\<close>)
next
  case (GRemove c q)
  show ?thesis unfolding GRemove gmsrv.simps
    by (rule on_first_cases [of x c q "\<lambda>k. (GDone, gmput k None x)" "(GMissing, x)"]) (auto simp: gmview_put)
next
  case (GRemoveAll c q)
  have "gmview (x\<lparr>gm_docs := \<lambda>k. if ghit x c q k then None else gm_docs x k\<rparr>)
    = (gmview x)(c := \<lambda>i. if i \<in> gmatch (gmview x) c q then None else gmview x c i)"
    by (auto simp: gmview_def gmatch_def ghit_def fun_eq_iff split: option.splits)
  then show ?thesis by (simp add: GRemoveAll)
next
  case (GFindOne c q)
  show ?thesis unfolding GFindOne gmsrv.simps
    by (rule on_first_cases [of x c q "\<lambda>k. (GGot (the (gm_docs x k)), x)" "(GMissing, x)"]) auto
next
  case (GFindAll c q)
  have "set (map (the \<circ> gm_docs x) (ghits x c q)) = {d. \<exists>i. gmview x c i = Some d \<and> q d}"
  proof -
    have "the (gm_docs x k) = d" if "k = (c, i)" "gmview x c i = Some d" for k i d
      using that by (auto simp: gmview_def split: if_splits)
    then show ?thesis by (force simp: ghits_iff image_iff)
  qed
  then show ?thesis by (simp add: GFindAll)
next
  case (GCount c q)
  then show ?thesis by (simp add: card_ghits)
qed

lemma gmk8s_view: "gmview (snd (gmk8s r x)) = gmview x"
  by (cases r) (auto simp: gmview_def fun_eq_iff)

lemma gmem_env_ok: "gmongo_ok gmem_env gmview"
  unfolding gmongo_ok_def gmem_env_def gate_env.simps snd_conv using gmsrv_serves gmk8s_view by simp

lemma gids_ok_insert: "gids_ok (gmview x) \<Longrightarrow> gids_ok (gmview (snd (gm_insert d x)))"
  by (cases "given_id d") (auto simp: gm_insert_def gmview_put gid_for_def intro!: gids_ok_put)

lemma gids_ok_gmem_of: "gids_ok (gmview (gmem_of ds))"
proof -
  have keep: "gids_ok (gmview x) \<Longrightarrow> gids_ok (gmview (fold (\<lambda>d x. snd (gm_insert d x)) ds x))" for x
  proof (induction ds arbitrary: x)
    case (Cons d ds)
    show ?case unfolding fold.simps comp_def by (rule Cons.IH [OF gids_ok_insert [OF Cons.prems]])
  qed simp
  show ?thesis unfolding gmem_of_def by (rule keep) (simp add: gids_ok_def gmview_def)
qed

lemmas gmem_defs = gmem_of_def gm_insert_def gtaken_def gid_for_def gnew_id_def ghits_def ghit_def gmput_def gm_on_first_def

end
