(* ===== verification/Gate_Router.thy ===== *)
theory Gate_Router
  imports Gate_Call Gate_Store Xhttp
begin

unbundle bit_operations_syntax

text \<open>
  Routers: \<open>src/gate/router.go\<close>, the lookup of URLs in \<open>src/gate/url.go\<close>, the entry point \<open>handleCall\<close> of
  \<open>src/gate/handlers.go\<close>, and the bit masks of \<open>src/common/bitmask.go\<close>. A router is stored as a list of entries;
  for requests it is compiled to a table that is kept with the other cached URLs. The theorems show that the compiled
  table routes as the list says, and that a change of the list takes effect with the next request. The answer to a
  CORS preflight that \<open>handleCall\<close> may give first is that of \<open>Xhttp\<close>. The metrics are not modelled.
\<close>

section \<open>Methods\<close>

definition clientMethods :: "string list" where
  "clientMethods = [''GET'', ''PUT'', ''POST'', ''DELETE'', ''PATCH'', ''HEAD'', ''OPTIONS'']"

fun method_index :: "nat \<Rightarrow> string list \<Rightarrow> string \<Rightarrow> nat" where
  "method_index i [] m = 31"
| "method_index i (cm # cms) m = (if m = cm then i else method_index (Suc i) cms m)"

definition methodNr :: "string \<Rightarrow> nat" where
  "methodNr m = method_index 0 clientMethods m"

type_synonym Bitmask = "32 word"

definition b2m :: "nat \<Rightarrow> Bitmask" where
  "b2m i = push_bit i 1"

definition Bitmask_Set :: "Bitmask \<Rightarrow> nat \<Rightarrow> Bitmask" where
  "Bitmask_Set b i = b OR b2m i"

definition Bitmask_Test :: "Bitmask \<Rightarrow> nat \<Rightarrow> bool" where
  "Bitmask_Test b i \<longleftrightarrow> b AND b2m i \<noteq> 0"

definition Bitmask_Fill :: Bitmask where
  "Bitmask_Fill = 0xFFFFFFFF"

section \<open>Descriptors\<close>

definition ckTable :: "'x gate_env \<Rightarrow> RouterEntry list \<Rightarrow> ReqErr option" where
  "ckTable E tbl = (if \<exists>t\<in>set tbl. int (length (rte_Key t)) > TableKeyLenMax E then Some (GateErrM GateBadRequest ''Too long key'') else None)"

definition getRouterDesc :: "'x gate_env \<Rightarrow> SwoId \<Rightarrow> RouterEntry list \<Rightarrow> (ReqErr, RouterDesc) res" where
  "getRouterDesc E i table = (case NameOK i of
     None \<Rightarrow> Panic
   | Some False \<Rightarrow> Err (GateErrM GateBadRequest ''Bad function name'')
   | Some True \<Rightarrow> (case ckTable E table of
       Some e \<Rightarrow> Err e
     | None \<Rightarrow> Ok \<lparr>rd_ObjID = [], rd_SwoId = i, rd_Cookie = [], rd_Labels = [], rd_Table = table\<rparr>))"

definition getURL :: "'x gate_env \<Rightarrow> string \<Rightarrow> string \<Rightarrow> string" where
  "getURL E typ urlid = MakeEndpoint ((if Daemon_CallGate E = [] then Daemon_Addr E else Daemon_CallGate E) @ ''/call/'' @ typ @ urlid)"

definition rt_getURL :: "'x gate_env \<Rightarrow> RouterDesc \<Rightarrow> string" where
  "rt_getURL E rt = getURL E URLRouter (rd_Cookie rt)"

record RouterInfo =
  ri_Id :: string
  ri_Name :: string
  ri_Project :: string
  ri_Labels :: "string list"
  ri_TLen :: nat
  ri_URL :: string

definition rt_toInfo :: "'x gate_env \<Rightarrow> RouterDesc \<Rightarrow> RouterInfo" where
  "rt_toInfo E rt = \<lparr>ri_Id = rd_ObjID rt, ri_Name = Name (rd_SwoId rt), ri_Project = Project (rd_SwoId rt), ri_Labels = rd_Labels rt,
     ri_TLen = length (rd_Table rt), ri_URL = rt_getURL E rt\<rparr>"

definition rt_Add :: "'x gate_env \<Rightarrow> gateContext \<Rightarrow> RouterDesc \<Rightarrow> ('x gst, ReqErr, RouterDesc) go" where
  "rt_Add E ctx rd =
     gbind (liftx (gout (gnewid E))) (\<lambda>i.
     let rd = rd\<lparr>rd_ObjID := i, rd_Cookie := Cookie (Cookify E) (rd_SwoId rd)\<rparr>
     in gtry (liftx (dbInsert E ctx (GRt rd))) (\<lambda>r. case r of Inl e \<Rightarrow> gerr (GateErrD e) | Inr _ \<Rightarrow> gret rd))"

definition rt_Del :: "'x gate_env \<Rightarrow> gateContext \<Rightarrow> RouterDesc \<Rightarrow> ('x gst, ReqErr, unit) go" where
  "rt_Del E ctx rd =
     gtry (liftx (dbRemove E ctx (GRt rd))) (\<lambda>r. case r of Inl e \<Rightarrow> gerr (GateErrD e) | Inr _ \<Rightarrow> urlClean URLRouter (rd_Cookie rd))"

definition routerStopId :: "'x gate_env \<Rightarrow> gateContext \<Rightarrow> SwoId \<Rightarrow> ('x gst, ReqErr, unit) go" where
  "routerStopId E ctx i =
     gtry (liftx (dbFind E DBColRouters (where_field ''cookie'' (Cookie (Cookify E) i)))) (\<lambda>r. case r of
       Inl e \<Rightarrow> gerr (GateErrD e) | Inr d \<Rightarrow> rt_Del E ctx (as_Rt d))"

fun set_table :: "RouterEntry list \<Rightarrow> gdoc \<Rightarrow> gdoc" where
  "set_table tbl (GRt r) = GRt (r\<lparr>rd_Table := tbl\<rparr>)"
| "set_table tbl d = d"

definition setTable :: "'x gate_env \<Rightarrow> gateContext \<Rightarrow> RouterDesc \<Rightarrow> RouterEntry list \<Rightarrow> ('x gst, ReqErr, unit) go" where
  "setTable E ctx rd tbl = (case ckTable E tbl of
     Some e \<Rightarrow> gerr e
   | None \<Rightarrow> gtry (liftx (dbUpdatePart E ctx (GRt rd) (set_table tbl))) (\<lambda>r. case r of
       Inl e \<Rightarrow> gerr (GateErrD e) | Inr _ \<Rightarrow> urlClean URLRouter (rd_Cookie rd)))"

text \<open>The \<open>from\<close> and \<open>to\<close> of a request are only checked: the variables set from them are those of an inner block.\<close>

definition RtTblProp_Info :: "RouterDesc \<Rightarrow> (string \<times> string list) list option \<Rightarrow> ReqErr + RouterEntry list" where
  "RtTblProp_Info rt q = (let f = 0; t = int (length (rd_Table rt)); bad = Inl (GateErrM GateBadRequest ''Invalid range'') in
     case q of
       None \<Rightarrow> Inr (drop f (take (nat t) (rd_Table rt)))
     | Some q \<Rightarrow> (case ReqAtoi q ''from'' (int f) of (f', e) \<Rightarrow> if f' < 0 \<or> e \<noteq> None then bad
         else case ReqAtoi q ''to'' t of (t', e) \<Rightarrow> if t' > int (length (rd_Table rt)) \<or> e \<noteq> None then bad
         else Inr (drop f (take (nat t) (rd_Table rt)))))"

section \<open>The table of a router\<close>

definition mk_methods :: "string \<Rightarrow> Bitmask" where
  "mk_methods method = (if method = ''*'' then Bitmask_Fill
     else fold (\<lambda>m b. Bitmask_Set b (methodNr m)) (Fields method) 0)"

definition mk_entry :: "'x gate_env \<Rightarrow> cfb \<Rightarrow> string \<Rightarrow> SwoId \<Rightarrow> RouterEntry \<Rightarrow> ('x, gdberr, rt_entry) go" where
  "mk_entry E C pas i e =
     (let i = i\<lparr>Name := rte_Call e\<rparr>;
          re = \<lparr>re_cookie = Cookie (Cookify E) i, re_ac = None, re_methods = mk_methods (rte_Method e), re_key = rte_Key e\<rparr>
      in if rte_AuthCtx e \<noteq> [] then gbind (authCtxGet E C pas i (rte_AuthCtx e)) (\<lambda>ac. gret (re\<lparr>re_ac := Some ac\<rparr>)) else gret re)"

definition mk_table :: "'x gate_env \<Rightarrow> cfb \<Rightarrow> string \<Rightarrow> SwoId \<Rightarrow> RouterEntry list \<Rightarrow> (string \<Rightarrow> rt_entry option) \<Rightarrow> ('x, gdberr, string \<Rightarrow> rt_entry option) go" where
  "mk_table E C pas i = gfold (\<lambda>e t. gbind (mk_entry E C pas i e) (\<lambda>re. gret (t(rte_Path e := Some re))))"

definition makeRouterURL :: "'x gate_env \<Rightarrow> cfb \<Rightarrow> string \<Rightarrow> string \<Rightarrow> ('x, gdberr, URL) go" where
  "makeRouterURL E C pas urlid =
     gbind (dbFind E DBColRouters (where_field ''cookie'' urlid)) (\<lambda>d.
     gbind (mk_table E C pas (rd_SwoId (as_Rt d)) (rd_Table (as_Rt d)) (\<lambda>_. None)) (\<lambda>t. gret (RouterURL t)))"

definition urlCreate :: "'x gate_env \<Rightarrow> cfb \<Rightarrow> string \<Rightarrow> string \<Rightarrow> ('x gst, gdberr, URL) go" where
  "urlCreate E C pas urlid = (case urlid of
     [] \<Rightarrow> gpanic
   | c # rest \<Rightarrow> if c = hd URLRouter then liftx (makeRouterURL E C pas rest) else makeFnURL E C pas urlid)"

definition urlFind :: "'x gate_env \<Rightarrow> cfb \<Rightarrow> string \<Rightarrow> string \<Rightarrow> ('x gst, gdberr, URL) go" where
  "urlFind E C pas urlid =
     gbind (gget (\<lambda>w. urls w urlid)) (\<lambda>r. case r of
       Some url \<Rightarrow> gret url
     | None \<Rightarrow> gbind (urlCreate E C pas urlid) (\<lambda>url.
         gbind (gmod (\<lambda>w. w\<lparr>urls := (urls w)(urlid := Some url)\<rparr>)) (\<lambda>_. gret url)))"

section \<open>Requests\<close>

text \<open>What a router does with a request before a function is involved: an answer, or the function and its arguments.\<close>

definition router_admit :: "jwt_lib \<Rightarrow> int \<Rightarrow> (string \<Rightarrow> rt_entry option) \<Rightarrow> http_req \<Rightarrow> http_resp + string \<times> FunctionRun" where
  "router_admit L now t rq = (let path = reqPath (hr_Path rq) in
     case t path of
       None \<Rightarrow> Inl \<lparr>rs_Code = 404, rs_Body = []\<rparr>
     | Some e \<Rightarrow> if \<not> Bitmask_Test (re_methods e) (methodNr (hr_Method rq)) then Inl \<lparr>rs_Code = 405, rs_Body = []\<rparr>
       else let args = (run_args [])\<lparr>run_Path := Some path, run_Key := re_key e\<rparr>
       in case re_ac e of
            None \<Rightarrow> Inr (re_cookie e, args)
          | Some key \<Rightarrow> (case Verify L key now (hr_Auth rq) of
              Inl _ \<Rightarrow> Inl \<lparr>rs_Code = 401, rs_Body = []\<rparr>
            | Inr cs \<Rightarrow> Inr (re_cookie e, args\<lparr>run_Claims := Some (JObj cs)\<rparr>)))"

definition RouterURL_Handle :: "'x gate_env \<Rightarrow> cfb \<Rightarrow> string \<Rightarrow> jwt_lib \<Rightarrow> (string \<Rightarrow> rt_entry option) \<Rightarrow> http_req \<Rightarrow> statsOpaque \<Rightarrow> ('x gst, string, http_resp) go" where
  "RouterURL_Handle E C pas L t rq sopq =
     gbind (liftx (gout (gnow E))) (\<lambda>now. case router_admit L now t rq of
       Inl resp \<Rightarrow> gret resp
     | Inr (cookie, args) \<Rightarrow> gtry (memdGet E C pas cookie) (\<lambda>r. case r of
         Inl _ \<Rightarrow> gret \<lparr>rs_Code = 500, rs_Body = ''Error getting FN handler''\<rparr>
       | Inr None \<Rightarrow> gret \<lparr>rs_Code = 503, rs_Body = ''No such function''\<rparr>
       | Inr (Some md) \<Rightarrow> fmd_Handle_then E C pas L cookie rq sopq args))"

definition URL_Handle :: "'x gate_env \<Rightarrow> cfb \<Rightarrow> string \<Rightarrow> jwt_lib \<Rightarrow> URL \<Rightarrow> http_req \<Rightarrow> statsOpaque \<Rightarrow> ('x gst, string, http_resp) go" where
  "URL_Handle E C pas L url rq sopq = (case url of
     FnURL fd \<Rightarrow> FnURL_Handle E C pas L fd rq sopq
   | RouterURL t \<Rightarrow> RouterURL_Handle E C pas L t rq sopq)"

definition handleCall :: "'x gate_env \<Rightarrow> cfb \<Rightarrow> string \<Rightarrow> jwt_lib \<Rightarrow> string \<Rightarrow> http_req \<Rightarrow> ('x gst, string, http_resp) go" where
  "handleCall E C pas L uid rq =
     gbind (liftx (statsStart E)) (\<lambda>sopq.
     gtry (urlFind E C pas uid) (\<lambda>r. case r of
       Inl e \<Rightarrow> gret (if e = GNotFound then \<lparr>rs_Code = 503, rs_Body = ''No such URL''\<rparr> else \<lparr>rs_Code = 500, rs_Body = ''Error getting URL handler''\<rparr>)
     | Inr url \<Rightarrow> URL_Handle E C pas L url rq sopq))"

section \<open>The table routes as the list says\<close>

lemma Bitmask_Test_bit: "Bitmask_Test b i \<longleftrightarrow> bit b i"
  by (simp add: Bitmask_Test_def b2m_def and_exp_eq_0_iff_not_bit push_bit_eq_mult)

lemma method_index_le: "i + length cms \<le> 31 \<Longrightarrow> method_index i cms m \<le> 31"
  by (induction i cms m rule: method_index.induct) auto

lemma methodNr_le: "methodNr m \<le> 31"
  unfolding methodNr_def by (rule method_index_le) (simp add: clientMethods_def)

lemma bit_Set: "bit (Bitmask_Set b (methodNr m)) k \<longleftrightarrow> bit b k \<or> k = methodNr m"
  using methodNr_le [of m]
  by (auto simp: Bitmask_Set_def b2m_def bit_or_iff bit_exp_iff push_bit_eq_mult)

lemma bit_fold_Set: "bit (fold (\<lambda>m b. Bitmask_Set b (methodNr m)) ms b) k \<longleftrightarrow> bit b k \<or> k \<in> methodNr ` set ms"
  by (induction ms arbitrary: b) (auto simp: bit_Set)

lemma methodNr_inj: "m \<in> set clientMethods \<Longrightarrow> methodNr m' = methodNr m \<longleftrightarrow> m' = m"
  by (auto simp: clientMethods_def methodNr_def)

text \<open>A method of the list is admitted exactly when the entry names it, or all.\<close>

lemma methods_admit:
  assumes "m \<in> set clientMethods"
  shows "Bitmask_Test (mk_methods s) (methodNr m) \<longleftrightarrow> s = ''*'' \<or> m \<in> set (Fields s)"
proof (cases "s = ''*''")
  case True
  have "methodNr m < 32" using methodNr_le [of m] by simp
  then have "bit (- 1 :: 32 word) (methodNr m)" by simp
  moreover have "Bitmask_Fill = - 1" by (simp add: Bitmask_Fill_def)
  ultimately show ?thesis using True by (simp add: Bitmask_Test_bit mk_methods_def)
next
  case False
  have "(\<exists>m'\<in>set (Fields s). methodNr m = methodNr m') \<longleftrightarrow> m \<in> set (Fields s)"
    using methodNr_inj [OF assms] by metis
  then show ?thesis using False by (auto simp: Bitmask_Test_bit mk_methods_def bit_fold_Set)
qed

text \<open>The key an authentication middleware checks tokens with: its decrypted secret.\<close>

definition auth_key :: "'x gate_env \<Rightarrow> cfb \<Rightarrow> string \<Rightarrow> gview \<Rightarrow> SwoId \<Rightarrow> string \<Rightarrow> string \<Rightarrow> bool" where
  "auth_key E C pas V i ac key \<longleftrightarrow> (\<exists>k m. V DBColMware k = Some (GMw m) \<and> mw_Cookie m = Cookie (Cookify E) (i\<lparr>Name := ac\<rparr>)
     \<and> mw_State m = DBMwareStateRdy \<and> mw_MwareType m = ''authjwt'' \<and> DecryptString C pas (mw_Secret m) = Ok key)"

lemma where_cookie_Mw: "where_field ''cookie'' c (GMw m) \<longleftrightarrow> mw_Cookie m = c"
  by (simp add: where_field_def doc_field_def)

lemma where_cookie_Rt: "where_field ''cookie'' c (GRt r) \<longleftrightarrow> rd_Cookie r = c"
  by (simp add: where_field_def doc_field_def)

lemma doc_of_coll:
  assumes "gids_ok V"
  shows "V DBColMware i = Some d \<Longrightarrow> \<exists>m. d = GMw m" and "V DBColRouters i = Some d \<Longrightarrow> \<exists>r. d = GRt r"
    and "V DBColAccounts i = Some d \<Longrightarrow> \<exists>a. d = GAcc a" and "V DBColFunc i = Some d \<Longrightarrow> \<exists>f. d = GFn f"
    and "V DBColDeploy i = Some d \<Longrightarrow> \<exists>p. d = GDep p" and "V DBColRepos i = Some d \<Longrightarrow> \<exists>r. d = GRepo r"
  using gids_okD [OF assms] by (cases d; fastforce)+

lemma wp_authCtxGet:
  assumes E: "gmongo_ok E view" and V: "gids_ok (view x)"
    and "\<And>key x'. view x' = view x \<Longrightarrow> auth_key E C pas (view x) i ac key \<Longrightarrow> Q (Ok key) x'"
    and "\<And>e x'. view x' = view x \<Longrightarrow> Q (Err e) x'" and "\<And>x'. view x' = view x \<Longrightarrow> Q Panic x'"
  shows "wp (authCtxGet E C pas i ac) Q x"
  unfolding authCtxGet_def wp_gbind
proof (rule wp_dbFind [OF E], goal_cases)
  case (1 k d x')
  then obtain m where m: "d = GMw m" using doc_of_coll(1) [OF V] by blast
  have "auth_key E C pas (view x) i ac key"
    if "mw_State m = DBMwareStateRdy" "mw_MwareType m = ''authjwt''" "DecryptString C pas (mw_Secret m) = Ok key" for key
    unfolding auth_key_def using 1(1,2) m that by (intro exI [of _ k] exI [of _ m]) (simp add: where_cookie_Mw)
  then show ?case using m 1(3) assms(3-5) by (simp add: Let_def wp_simps split: res.splits)
qed (use assms(4) in simp_all)

text \<open>An entry of the table for an entry of the list.\<close>

definition entry_of :: "'x gate_env \<Rightarrow> cfb \<Rightarrow> string \<Rightarrow> gview \<Rightarrow> SwoId \<Rightarrow> RouterEntry \<Rightarrow> rt_entry \<Rightarrow> bool" where
  "entry_of E C pas V i e re \<longleftrightarrow> re_cookie re = Cookie (Cookify E) (i\<lparr>Name := rte_Call e\<rparr>) \<and> re_key re = rte_Key e
     \<and> re_methods re = mk_methods (rte_Method e)
     \<and> (if rte_AuthCtx e = [] then re_ac re = None else \<exists>key. auth_key E C pas V i (rte_AuthCtx e) key \<and> re_ac re = Some key)"

lemma auth_key_name [simp]: "auth_key E C pas V (i\<lparr>Name := n\<rparr>) = auth_key E C pas V i"
  by (simp add: auth_key_def fun_eq_iff)

lemma wp_mk_entry:
  assumes "gmongo_ok E view" and "gids_ok (view x)"
    and "\<And>re x'. view x' = view x \<Longrightarrow> entry_of E C pas (view x) i e re \<Longrightarrow> Q (Ok re) x'"
    and "\<And>er x'. view x' = view x \<Longrightarrow> Q (Err er) x'" and "\<And>x'. view x' = view x \<Longrightarrow> Q Panic x'"
  shows "wp (mk_entry E C pas i e) Q x"
proof (cases "rte_AuthCtx e = []")
  case True
  then show ?thesis using assms(3) by (simp add: mk_entry_def wp_simps Let_def entry_of_def)
next
  case False
  then show ?thesis
    using assms(3-5) by (simp add: mk_entry_def wp_gbind Let_def) (rule wp_authCtxGet [OF assms(1,2)],
      auto simp: wp_simps entry_of_def)
qed

text \<open>The last entry of a path counts, as in a map filled from the list.\<close>

definition last_for :: "string \<Rightarrow> RouterEntry list \<Rightarrow> RouterEntry option" where
  "last_for p tbl = find (\<lambda>e. rte_Path e = p) (rev tbl)"

definition table_of :: "'x gate_env \<Rightarrow> cfb \<Rightarrow> string \<Rightarrow> gview \<Rightarrow> SwoId \<Rightarrow> RouterEntry list \<Rightarrow> (string \<Rightarrow> rt_entry option) \<Rightarrow> bool" where
  "table_of E C pas V i tbl t \<longleftrightarrow> (\<forall>p. case last_for p tbl of
     None \<Rightarrow> t p = None | Some e \<Rightarrow> \<exists>re. t p = Some re \<and> entry_of E C pas V i e re)"

lemma table_of_snoc:
  assumes "table_of E C pas V i tbl t" and "entry_of E C pas V i e re"
  shows "table_of E C pas V i (tbl @ [e]) (t(rte_Path e := Some re))"
  unfolding table_of_def
proof
  fix p
  have "case last_for p tbl of None \<Rightarrow> t p = None | Some e \<Rightarrow> \<exists>re. t p = Some re \<and> entry_of E C pas V i e re"
    using assms(1) by (simp add: table_of_def)
  then show "case last_for p (tbl @ [e]) of None \<Rightarrow> (t(rte_Path e := Some re)) p = None
    | Some e' \<Rightarrow> \<exists>re'. (t(rte_Path e := Some re)) p = Some re' \<and> entry_of E C pas V i e' re'"
    using assms(2) by (cases "rte_Path e = p") (auto simp: last_for_def split: option.splits)
qed

lemma table_ofD:
  assumes "table_of E C pas V i tbl t"
  shows "last_for p tbl = None \<Longrightarrow> t p = None" and "last_for p tbl = Some e \<Longrightarrow> \<exists>re. t p = Some re \<and> entry_of E C pas V i e re"
  using assms unfolding table_of_def by (auto dest!: spec [of _ p])

lemma wp_mk_table:
  assumes E: "gmongo_ok E view" and V: "gids_ok (view x)"
    and "\<And>t x'. view x' = view x \<Longrightarrow> table_of E C pas (view x) i tbl t \<Longrightarrow> Q (Ok t) x'"
    and "\<And>er x'. view x' = view x \<Longrightarrow> Q (Err er) x'" and "\<And>x'. view x' = view x \<Longrightarrow> Q Panic x'"
  shows "wp (mk_table E C pas i tbl (\<lambda>_. None)) Q x"
proof -
  have step: "wp (mk_table E C pas i es t) Q x1"
    if "view x1 = view x" "table_of E C pas (view x) i done t" "tbl = done @ es" for es "done" t x1
    using that
  proof (induction es arbitrary: "done" t x1)
    case Nil
    then show ?case using assms(3) by (simp add: mk_table_def wp_gret)
  next
    case (Cons e es)
    have next_e: "wp (mk_table E C pas i es (t(rte_Path e := Some re))) Q x2"
      if "view x2 = view x1" "entry_of E C pas (view x1) i e re" for re x2
      using Cons.IH [of x2 "done @ [e]"] that Cons.prems table_of_snoc [OF Cons.prems(2)] by simp
    have "wp (mk_entry E C pas i e) (on_ok (\<lambda>re. wp (mk_table E C pas i es (t(rte_Path e := Some re))) Q) Q) x1"
      by (rule wp_mk_entry [OF E]) (use V Cons.prems(1) assms(4,5) next_e in simp_all)
    then show ?case by (simp add: mk_table_def wp_simps gbind_assoc)
  qed
  show ?thesis by (rule step [of x "[]"]) (simp_all add: table_of_def last_for_def)
qed

text \<open>What the list of a router says about a request.\<close>

definition routes_to :: "'x gate_env \<Rightarrow> cfb \<Rightarrow> string \<Rightarrow> jwt_lib \<Rightarrow> int \<Rightarrow> gview \<Rightarrow> SwoId \<Rightarrow> RouterEntry list \<Rightarrow> http_req
    \<Rightarrow> http_resp + string \<times> FunctionRun \<Rightarrow> bool" where
  "routes_to E C pas L now V i tbl rq r \<longleftrightarrow> (let path = reqPath (hr_Path rq) in case last_for path tbl of
     None \<Rightarrow> r = Inl \<lparr>rs_Code = 404, rs_Body = []\<rparr>
   | Some e \<Rightarrow>
       let fn = Cookie (Cookify E) (i\<lparr>Name := rte_Call e\<rparr>); args = (run_args [])\<lparr>run_Path := Some path, run_Key := rte_Key e\<rparr> in
       if rte_Method e \<noteq> ''*'' \<and> hr_Method rq \<notin> set (Fields (rte_Method e)) then r = Inl \<lparr>rs_Code = 405, rs_Body = []\<rparr>
       else if rte_AuthCtx e = [] then r = Inr (fn, args)
       else \<exists>key. auth_key E C pas V i (rte_AuthCtx e) key \<and> (case Verify L key now (hr_Auth rq) of
              Inl _ \<Rightarrow> r = Inl \<lparr>rs_Code = 401, rs_Body = []\<rparr>
            | Inr cs \<Rightarrow> r = Inr (fn, args\<lparr>run_Claims := Some (JObj cs)\<rparr>)))"

lemma table_routes:
  assumes "table_of E C pas V i tbl t" and "hr_Method rq \<in> set clientMethods"
  shows "routes_to E C pas L now V i tbl rq (router_admit L now t rq)"
proof (cases "last_for (reqPath (hr_Path rq)) tbl")
  case None
  then have "t (reqPath (hr_Path rq)) = None" using table_ofD(1) [OF assms(1)] by simp
  then show ?thesis using None by (simp add: routes_to_def router_admit_def Let_def)
next
  case (Some e)
  then obtain re where re: "t (reqPath (hr_Path rq)) = Some re" "entry_of E C pas V i e re"
    using table_ofD(2) [OF assms(1)] by blast
  have "Bitmask_Test (re_methods re) (methodNr (hr_Method rq)) \<longleftrightarrow> rte_Method e = ''*'' \<or> hr_Method rq \<in> set (Fields (rte_Method e))"
    using re(2) methods_admit [OF assms(2)] by (simp add: entry_of_def)
  then show ?thesis using Some re
    by (auto simp: routes_to_def router_admit_def entry_of_def Let_def split: if_splits sum.splits)
qed

lemma wp_makeRouterURL:
  assumes E: "gmongo_ok E view" and V: "gids_ok (view x)"
    and "\<And>k rd t x'. view x' = view x \<Longrightarrow> view x DBColRouters k = Some (GRt rd) \<Longrightarrow> rd_Cookie rd = c \<Longrightarrow>
      table_of E C pas (view x) (rd_SwoId rd) (rd_Table rd) t \<Longrightarrow> Q (Ok (RouterURL t)) x'"
    and "\<And>er x'. view x' = view x \<Longrightarrow> Q (Err er) x'" and "\<And>x'. view x' = view x \<Longrightarrow> Q Panic x'"
  shows "wp (makeRouterURL E C pas c) Q x"
  unfolding makeRouterURL_def wp_gbind
proof (rule wp_dbFind [OF E], goal_cases)
  case (1 k d x')
  then obtain rd where d: "d = GRt rd" using doc_of_coll(2) [OF V] by blast
  then have "rd_Cookie rd = c" using 1(2) by (simp add: where_cookie_Rt)
  then show ?case unfolding on_ok_simps d as_Rt.simps wp_gbind
    by (intro wp_mk_table [OF E]) (use V 1(1,3) d assms(3-5) in \<open>simp_all add: wp_gret\<close>)
qed (use assms(4) in simp_all)

text \<open>A request that the router turns away costs nothing but a look at the clock.\<close>

lemma router_refuses:
  assumes "gnow E (outer w) = (now, x)" and "router_admit L now t rq = Inl resp"
  shows "RouterURL_Handle E C pas L t rq oq w = (Ok resp, w\<lparr>outer := x\<rparr>)"
  using assms by (simp add: RouterURL_Handle_def gbind_def liftx_def gout_def gret_def)

text \<open>
  C11. A new table of a router takes effect with the next request, and is followed exactly. After the table was set,
  looking up the router's URL compiles the new table: a request is routed by the last entry for its path; a path
  without an entry is answered with 404, a method the entry does not name with 405, a token that does not verify with
  the decrypted key of the entry's authentication middleware with 401, and otherwise the function of the entry is
  called, with the entry's key and with the verified claims.
\<close>

theorem router_table_live:
  assumes "gmongo_ok E view" and "gids_ok (view (outer w))"
    and "\<forall>k d. view (outer w) DBColRouters k = Some d \<and> where_field ''cookie'' (rd_Cookie rd) d \<longrightarrow> k = rd_ObjID rd"
    and "setTable E ctx rd tbl w = (Ok (), w1)" and "urlFind E C pas (URLRouter @ rd_Cookie rd) w1 = (Ok url, w2)"
  shows "\<exists>rd' t. view (outer w) DBColRouters (rd_ObjID rd) = Some (GRt rd') \<and> url = RouterURL t
    \<and> (\<forall>L now rq. hr_Method rq \<in> set clientMethods \<longrightarrow>
         routes_to E C pas L now (view (outer w1)) (rd_SwoId rd') tbl rq (router_admit L now t rq))"
proof -
  let ?V = "view (outer w)" and ?k = "rd_ObjID rd"
  have "wp (setTable E ctx rd tbl) (\<lambda>r v. r = Ok () \<longrightarrow> urls v (URLRouter @ rd_Cookie rd) = None
      \<and> (\<exists>rd'. ?V DBColRouters ?k = Some (GRt rd') \<and> view (outer v) = gput DBColRouters ?k (Some (GRt (rd'\<lparr>rd_Table := tbl\<rparr>))) ?V)) w"
  proof (cases "ckTable E tbl")
    case None
    show ?thesis
      unfolding setTable_def None option.case wp_gtry wp_liftx dbUpdatePart_2
    proof (rule wp_dbUpdatePart2 [OF assms(1,2), where k = ?k], goal_cases)
      case (2 d x')
      moreover from this obtain rd' where "d = GRt rd'" using doc_of_coll(2) [OF assms(2)] by fastforce
      ultimately show ?case by (simp add: urlClean_def wp_simps)
    qed (simp_all add: wp_simps)
  qed (simp add: setTable_def wp_simps)
  then obtain rd' where rd': "?V DBColRouters ?k = Some (GRt rd')" "urls w1 (URLRouter @ rd_Cookie rd) = None"
    "view (outer w1) = gput DBColRouters ?k (Some (GRt (rd'\<lparr>rd_Table := tbl\<rparr>))) ?V"
    using assms(4) by (auto simp: wp_def)
  have V1: "gids_ok (view (outer w1))"
    unfolding rd'(3) by (rule gids_ok_put [OF assms(2)]) (use gids_okD [OF assms(2) rd'(1)] in simp_all)
  have only: "r = rd'\<lparr>rd_Table := tbl\<rparr>" if "view (outer w1) DBColRouters k = Some (GRt r)" "rd_Cookie r = rd_Cookie rd" for k r
  proof (cases "k = ?k")
    case False
    then have "?V DBColRouters k = Some (GRt r)" using that(1) rd'(3) by (simp add: gput_other)
    then show ?thesis using assms(3) that(2) False by (metis where_cookie_Rt)
  qed (use that(1) rd'(3) in simp)
  have "wp (urlFind E C pas (URLRouter @ rd_Cookie rd)) (\<lambda>r _. \<forall>url. r = Ok url \<longrightarrow>
      (\<exists>t. url = RouterURL t \<and> table_of E C pas (view (outer w1)) (rd_SwoId rd') tbl t)) w1"
    unfolding urlFind_def wp_gbind wp_gget on_ok_simps rd'(2) option.case
    by (simp add: URLRouter_def urlCreate_def wp_liftx)
      (rule wp_makeRouterURL [OF assms(1) V1], auto dest!: only simp: wp_simps)
  then obtain t where "url = RouterURL t" "table_of E C pas (view (outer w1)) (rd_SwoId rd') tbl t"
    using assms(5) by (auto simp: wp_def)
  then show ?thesis using rd'(1) table_routes by fast
qed

section \<open>Witness\<close>

definition demo_entry :: "string \<Rightarrow> string \<Rightarrow> RouterEntry" where
  "demo_entry method call = \<lparr>rte_Method = method, rte_Path = ''a'', rte_Call = call, rte_AuthCtx = [], rte_Key = ''k''\<rparr>"

definition demo_rt :: RouterDesc where
  "demo_rt = \<lparr>rd_ObjID = ''1'', rd_SwoId = \<lparr>Tennant = ''t'', Project = ''p'', Name = ''rt''\<rparr>, rd_Cookie = ''rt'', rd_Labels = [], rd_Table = [demo_entry ''*'' ''f'']\<rparr>"

definition empty_gst :: "'x \<Rightarrow> 'x gst" where
  "empty_gst x = \<lparr>fdmd = (\<lambda>_. None), tdat = (\<lambda>_. None), podst = empty_store, urls = (\<lambda>_. None), consumers = (\<lambda>_. None), wsConns = (\<lambda>_. None),
     gate_rl = None, outer = x\<rparr>"

definition rt_gst :: "gmem gst" where
  "rt_gst = empty_gst (gmem_of [GRt demo_rt])"

definition rt_tbl :: "RouterEntry list" where
  "rt_tbl = [demo_entry ''*'' ''f'', demo_entry ''GET PUT'' ''g'']"

definition no_cfb :: cfb where
  "no_cfb = \<lparr>cfb_new = (\<lambda>_. True), cfb_enc = (\<lambda>_ _ m. m), cfb_dec = (\<lambda>_ _ m. m)\<rparr>"

lemma rt_sets: "run_ok (setTable gmem_env mkContext demo_rt rt_tbl) rt_gst"
  by code_simp

lemma rt_finds: "run_ok (urlFind gmem_env no_cfb [] (URLRouter @ rd_Cookie demo_rt)) (snd (setTable gmem_env mkContext demo_rt rt_tbl rt_gst))"
  by code_simp

lemma rt_docs: "gm_keys (outer rt_gst) = [(DBColRouters, ''1'')]"
  by code_simp

theorem router_table_live_witness:
  "\<exists>t. fst (urlFind gmem_env no_cfb [] (URLRouter @ rd_Cookie demo_rt) (snd (setTable gmem_env mkContext demo_rt rt_tbl rt_gst))) = Ok (RouterURL t)
     \<and> (\<forall>L. router_admit L 0 t \<lparr>hr_Method = ''PUT'', hr_Path = ''/call/rt/a'', hr_Query = [], hr_Auth = [], hr_CType = [], hr_Body = None\<rparr>
           = Inr (''t/p/g'', (run_args [])\<lparr>run_Path := Some ''a'', run_Key := ''k''\<rparr>))"
proof -
  obtain u w1 where "setTable gmem_env mkContext demo_rt rt_tbl rt_gst = (Ok u, w1)" using run_okE [OF rt_sets] .
  then have s: "setTable gmem_env mkContext demo_rt rt_tbl rt_gst = (Ok (), w1)" by simp
  obtain url w2 where f: "urlFind gmem_env no_cfb [] (URLRouter @ rd_Cookie demo_rt) w1 = (Ok url, w2)"
    using run_okE [OF rt_finds [unfolded s snd_conv]] .
  have ids: "gids_ok (gmview (outer rt_gst))" by (simp add: rt_gst_def empty_gst_def gids_ok_gmem_of)
  have one: "\<forall>k d. gmview (outer rt_gst) DBColRouters k = Some d \<and> where_field ''cookie'' (rd_Cookie demo_rt) d \<longrightarrow> k = rd_ObjID demo_rt"
    by (simp add: gmview_def rt_docs demo_rt_def)
  have doc: "gmview (outer rt_gst) DBColRouters (rd_ObjID demo_rt) = Some (GRt demo_rt)" by code_simp
  obtain t where t: "url = RouterURL t" "\<And>L now rq. hr_Method rq \<in> set clientMethods \<Longrightarrow>
      routes_to gmem_env no_cfb [] L now (gmview (outer w1)) (rd_SwoId demo_rt) rt_tbl rq (router_admit L now t rq)"
    using router_table_live [OF gmem_env_ok ids one s f] doc by auto
  have p: "reqPath ''/call/rt/a'' = ''a''" by code_simp
  have e: "last_for ''a'' rt_tbl = Some (demo_entry ''GET PUT'' ''g'')" "''PUT'' \<in> set (Fields ''GET PUT'')" by code_simp+
  have "router_admit L 0 t \<lparr>hr_Method = ''PUT'', hr_Path = ''/call/rt/a'', hr_Query = [], hr_Auth = [], hr_CType = [], hr_Body = None\<rparr>
      = Inr (''t/p/g'', (run_args [])\<lparr>run_Path := Some ''a'', run_Key := ''k''\<rparr>)" for L
    using t(2) [of "\<lparr>hr_Method = ''PUT'', hr_Path = ''/call/rt/a'', hr_Query = [], hr_Auth = [], hr_CType = [], hr_Body = None\<rparr>" L 0] e
    by (simp add: routes_to_def p clientMethods_def demo_entry_def demo_rt_def gmem_env_def Cookie_def cookie_path_def Let_def)
  then show ?thesis using s f t(1) by simp
qed

end
