(* ===== verification/Gate_Mware.thy ===== *)
theory Gate_Mware
  imports Gate_Router
begin

text \<open>
  Middleware: \<open>src/gate/mware.go\<close> and its drivers \<open>mw-maria.go\<close>, \<open>mw-postgres.go\<close>, \<open>mw-rabbit.go\<close>, \<open>mw-mongo.go\<close>,
  \<open>mw-auth.go\<close> and \<open>mw-websocket.go\<close>, with the entry points for websockets of \<open>src/gate/handlers.go\<close>. The servers are
  parameters of the environment. Creating middleware makes a document, the user on the server, a Kubernetes secret
  with its credentials in clear, and only then encrypts the secret in the document and marks it ready; each failure
  takes back what was done. The labels of \<open>Add\<close> (\<open>outs\<close>, \<open>outh\<close>, \<open>outdb\<close>, \<open>stalled\<close>) are definitions of their own.
\<close>

definition DBMwareStatePrp :: int where "DBMwareStatePrp = 1"
definition DBMwareStateTrm :: int where "DBMwareStateTrm = 3"
definition DBMwareStateStl :: int where "DBMwareStateStl = 4"
definition DBMwareStateNo :: int where "DBMwareStateNo = -1"

definition mwStates :: "(int \<times> string) list" where
  "mwStates = [(DBMwareStatePrp, ''preparing''), (DBMwareStateRdy, ''ready''), (DBMwareStateTrm, ''terminating''),
     (DBMwareStateStl, ''stalled''), (DBMwareStateNo, ''dead'')]"

section \<open>Drivers\<close>

text \<open>A request that may fail, with what follows on failure and on success.\<close>

definition unless_err :: "('w, 'e, string option) go \<Rightarrow> (string \<Rightarrow> ('w, 'e, 'a) go) \<Rightarrow> ('w, 'e, 'a) go \<Rightarrow> ('w, 'e, 'a) go" where
  "unless_err f h k = gbind f (\<lambda>r. case r of Some e \<Rightarrow> h e | None \<Rightarrow> k)"

text \<open>What a driver's \<open>Init\<close> leaves: the descriptor it filled in, also when it fails, and the error.\<close>

type_synonym 'x mw_init = "MwareDesc \<Rightarrow> ('x, ReqErr, MwareDesc \<times> string option) go"
type_synonym 'x mw_fini = "MwareDesc \<Rightarrow> ('x gst, ReqErr, string option) go"

definition mwareGenerateUserPassClient :: "'x gate_env \<Rightarrow> 'x mw_init" where
  "mwareGenerateUserPassClient E mwd =
     gbind (gout (GenRandId E 32)) (\<lambda>c. case c of
       None \<Rightarrow> gret (mwd\<lparr>mw_Client := []\<rparr>, Some ''rand'')
     | Some c \<Rightarrow> gbind (gout (GenRandId E 64)) (\<lambda>s. case s of
         None \<Rightarrow> gret (mwd\<lparr>mw_Client := c, mw_Secret := []\<rparr>, Some ''rand'')
       | Some s \<Rightarrow> gret (mwd\<lparr>mw_Client := c, mw_Secret := s\<rparr>, None)))"

definition with_client :: "'x gate_env \<Rightarrow> MwareDesc \<Rightarrow> (MwareDesc \<Rightarrow> ('x, ReqErr, MwareDesc \<times> string option) go) \<Rightarrow> ('x, ReqErr, MwareDesc \<times> string option) go" where
  "with_client E mwd k = gbind (mwareGenerateUserPassClient E mwd) (\<lambda>(mwd, err). case err of Some e \<Rightarrow> gret (mwd, Some e) | None \<Rightarrow> k mwd)"

subsection \<open>MariaDB\<close>

definition sq :: string where "sq = [CHR 0x27]"

definition mariaConn :: "'x gate_env \<Rightarrow> ('x, 'e, string option) go" where
  "mariaConn E = (case conf_Maria E of None \<Rightarrow> gret (Some ''Not configured'') | Some _ \<Rightarrow> gout (mw_server E MariaOpen))"

definition mariaReq :: "'x gate_env \<Rightarrow> string \<Rightarrow> ('x, 'e, string option) go" where
  "mariaReq E req = gbind (gout (mw_server E (MariaExec req))) (\<lambda>r. gret (map_option (\<lambda>e. ''DB: cannot execure '' @ req @ '' req: '' @ e) r))"

definition mariaDropUser :: "'x gate_env \<Rightarrow> MwareDesc \<Rightarrow> ('x, 'e, unit) go" where
  "mariaDropUser E mwd = gbind (mariaReq E (''DROP USER IF EXISTS '' @ sq @ mw_Client mwd @ sq @ ''@'' @ sq @ ''%'' @ sq @ '';'')) (\<lambda>_. gret ())"

definition mariaDropDb :: "'x gate_env \<Rightarrow> MwareDesc \<Rightarrow> ('x, 'e, unit) go" where
  "mariaDropDb E mwd = gbind (mariaReq E (''DROP DATABASE IF EXISTS '' @ mw_Namespace mwd @ '';'')) (\<lambda>_. gret ())"

definition mariaDropQuota :: "'x gate_env \<Rightarrow> mw_conf \<Rightarrow> MwareDesc \<Rightarrow> ('x, 'e, unit) go" where
  "mariaDropQuota E conf mwd = gbind (mariaReq E (''DELETE FROM '' @ mwc_QDB conf @ '' WHERE id='' @ sq @ mw_Namespace mwd @ sq @ '';'')) (\<lambda>_. gret ())"

definition mariaDefSize :: string where "mariaDefSize = ''10240''"
definition mariaDefRows :: string where "mariaDefRows = ''1024''"

definition InitMariaDB :: "'x gate_env \<Rightarrow> 'x mw_init" where
  "InitMariaDB E mwd = with_client E mwd (\<lambda>mwd.
     let mwd = mwd\<lparr>mw_Namespace := mw_Client mwd\<rparr>;
         out = (\<lambda>e. gret (mwd, Some e));
         outu = (\<lambda>e. gbind (mariaDropUser E mwd) (\<lambda>_. out e));
         outd = (\<lambda>e. gbind (mariaDropDb E mwd) (\<lambda>_. outu e));
         user = sq @ mw_Client mwd @ sq @ ''@'' @ sq @ ''%'' @ sq @ '' IDENTIFIED BY '' @ sq @ mw_Secret mwd @ sq
     in unless_err (mariaConn E) out
       (unless_err (mariaReq E (''CREATE USER '' @ user @ '';'')) out
       (unless_err (mariaReq E (''CREATE DATABASE '' @ mw_Namespace mwd @ '' CHARACTER SET utf8 COLLATE utf8_general_ci;'')) outu
       (unless_err (mariaReq E (''GRANT ALL PRIVILEGES ON '' @ mw_Namespace mwd @ ''.* TO '' @ user @ '';'')) outd
       (gbind (deref (conf_Maria E)) (\<lambda>conf.
       unless_err (mariaReq E (''INSERT INTO '' @ mwc_QDB conf @ '' VALUES ('' @ sq @ mw_Namespace mwd @ sq @ '', '' @ mariaDefSize @ '', '' @ mariaDefRows @ '', false)'')) outd
       (gret (mwd, None))))))))"

definition FiniMariaDB :: "'x gate_env \<Rightarrow> 'x mw_fini" where
  "FiniMariaDB E mwd = liftx (unless_err (mariaConn E) (\<lambda>e. gret (Some e))
     (gbind (deref (conf_Maria E)) (\<lambda>conf.
      gbind (mariaDropQuota E conf mwd) (\<lambda>_. gbind (mariaDropUser E mwd) (\<lambda>_. gbind (mariaDropDb E mwd) (\<lambda>_. gret None))))))"

subsection \<open>PostgreSQL\<close>

definition InitPostgres :: "'x gate_env \<Rightarrow> 'x mw_init" where
  "InitPostgres E mwd = (if conf_Postgres E = None then gret (mwd, Some ''Not configured'')
     else with_client E mwd (\<lambda>mwd.
       if length (mw_Client mwd) < 30 then gpanic
       else let c = ''p'' @ ToLower (take 30 (mw_Client mwd)); mwd = mwd\<lparr>mw_Client := c, mw_Namespace := c\<rparr>
       in gbind (gout (mw_server E (PgCreate (mw_Client mwd) (mw_Secret mwd) (mw_Namespace mwd)))) (\<lambda>r. gret (mwd, r))))"

definition FiniPostgres :: "'x gate_env \<Rightarrow> 'x mw_fini" where
  "FiniPostgres E mwd = liftx (gbind (deref (conf_Postgres E)) (\<lambda>_. gout (mw_server E (PgDrop (mw_Client mwd) (mw_Namespace mwd)))))"

subsection \<open>RabbitMQ\<close>

definition rabbitConn :: "'x gate_env \<Rightarrow> ('x, 'e, string option) go" where
  "rabbitConn E = (case conf_Rabbit E of None \<Rightarrow> gret (Some ''Not configured'') | Some _ \<Rightarrow> gout (mw_server E RabbitOpen))"

definition rabbitReq :: "'x gate_env \<Rightarrow> string \<Rightarrow> MwareDesc \<Rightarrow> mw_request \<Rightarrow> ('x, 'e, string option) go" where
  "rabbitReq E what mwd r = gbind (gout (mw_server E r)) (\<lambda>a. gret (map_option (\<lambda>e. what @ mw_Client mwd @ '': '' @ e) a))"

definition InitRabbitMQ :: "'x gate_env \<Rightarrow> 'x mw_init" where
  "InitRabbitMQ E mwd = with_client E mwd (\<lambda>mwd.
     let mwd = mwd\<lparr>mw_Namespace := mw_Client mwd\<rparr>; out = (\<lambda>e. gret (mwd, Some e))
     in unless_err (rabbitConn E) out
       (unless_err (rabbitReq E ''Can't create user '' mwd (RabbitPutUser (mw_Client mwd) (mw_Secret mwd))) out
       (unless_err (rabbitReq E ''Can't create vhost '' mwd (RabbitPutVhost (mw_Namespace mwd))) out
       (unless_err (rabbitReq E ''Can't set permissions '' mwd (RabbitPermissions (mw_Namespace mwd) (mw_Client mwd))) out
       (gbind (deref (conf_Rabbit E)) (\<lambda>conf.
       unless_err (rabbitReq E ''Can't set permissions '' mwd (RabbitPermissions (mw_Namespace mwd) (mwc_User conf))) out
       (gret (mwd, None))))))))"

definition FiniRabbitMQ :: "'x gate_env \<Rightarrow> 'x mw_fini" where
  "FiniRabbitMQ E mwd = liftx (unless_err (rabbitConn E) (\<lambda>e. gret (Some e))
     (gbind (gout (mw_server E (RabbitDelVhost (mw_Namespace mwd)))) (\<lambda>_.
      gbind (gout (mw_server E (RabbitDelUser (mw_Client mwd)))) (\<lambda>_. gret None))))"

subsection \<open>MongoDB\<close>

definition mgoDial :: "'x gate_env \<Rightarrow> ('x, 'e, string option) go" where
  "mgoDial E = (case conf_Mongo E of None \<Rightarrow> gret (Some ''Not configured'') | Some _ \<Rightarrow> gout (mw_server E MongoDial))"

definition InitMongo :: "'x gate_env \<Rightarrow> 'x mw_init" where
  "InitMongo E mwd = with_client E mwd (\<lambda>mwd.
     let mwd = mwd\<lparr>mw_Namespace := mw_Client mwd\<rparr>
     in unless_err (mgoDial E) (\<lambda>e. gret (mwd, Some e))
       (gbind (gout (mw_server E (MongoUpsertUser (mw_Namespace mwd) (mw_Client mwd) (mw_Secret mwd)))) (\<lambda>r. gret (mwd, r))))"

definition FiniMongo :: "'x gate_env \<Rightarrow> 'x mw_fini" where
  "FiniMongo E mwd = liftx (unless_err (mgoDial E) (\<lambda>e. gret (Some e))
     (gbind (gout (mw_server E (MongoDropDatabase (mw_Namespace mwd)))) (\<lambda>_. gret None)))"

subsection \<open>Tokens and websockets\<close>

definition InitAuthJWT :: "'x gate_env \<Rightarrow> 'x mw_init" where
  "InitAuthJWT E mwd = gbind (gout (GenRandId E 32)) (\<lambda>s. case s of
     None \<Rightarrow> gret (mwd\<lparr>mw_Secret := []\<rparr>, Some ''rand'') | Some s \<Rightarrow> gret (mwd\<lparr>mw_Secret := s\<rparr>, None))"

definition FiniAuthJWT :: "'x mw_fini" where
  "FiniAuthJWT mwd = gret None"

definition InitWebSocket :: "'x gate_env \<Rightarrow> 'x mw_init" where
  "InitWebSocket E mwd = (if conf_WS E = None then gret (mwd, Some ''Not configured'')
     else gbind (gout (GenRandId E 32)) (\<lambda>s. case s of
       None \<Rightarrow> gret (mwd\<lparr>mw_Secret := []\<rparr>, Some ''rand'') | Some s \<Rightarrow> gret (mwd\<lparr>mw_Secret := s\<rparr>, None)))"

text \<open>The connection map. Connection ids are the hexadecimal numbers of a counter.\<close>

fun hex_nat :: "nat \<Rightarrow> string" where
  "hex_nat n = (if n < 16 then [hex_digit n] else hex_nat (n div 16) @ [hex_digit (n mod 16)])"

definition FormatInt16 :: "int \<Rightarrow> string" where
  "FormatInt16 i = (if i < 0 then ''-'' @ hex_nat (nat (- i)) else hex_nat (nat i))"

definition wsAddConn :: "string \<Rightarrow> nat \<Rightarrow> ('x gst, 'e, string) go" where
  "wsAddConn lid c = (\<lambda>w.
     let wcs = (case wsConns w lid of Some wcs \<Rightarrow> wcs | None \<Rightarrow> \<lparr>wcs_cons = [], wcs_rover = 0\<rparr>);
         rover = int64_of (wcs_rover wcs + 1); cid = FormatInt16 rover
     in (Ok cid, w\<lparr>wsConns := (wsConns w)(lid := Some \<lparr>wcs_cons = AList.update cid c (wcs_cons wcs), wcs_rover = rover\<rparr>)\<rparr>))"

definition wsDelConn :: "string \<Rightarrow> string \<Rightarrow> ('x gst, 'e, unit) go" where
  "wsDelConn lid cid = gmod (\<lambda>w. w\<lparr>wsConns := (wsConns w)(lid :=
     map_option (\<lambda>wcs. wcs\<lparr>wcs_cons := AList.delete cid (wcs_cons wcs)\<rparr>) (wsConns w lid))\<rparr>)"

definition CloseMessage :: int where "CloseMessage = 8"
definition closeGoingAway :: string where "closeGoingAway = [CHR 0x03, CHR 0xE9]"

definition wsCloseConns :: "'x gate_env \<Rightarrow> string \<Rightarrow> ('x gst, 'e, unit) go" where
  "wsCloseConns E lid = gbind (gget (\<lambda>w. wsConns w lid)) (\<lambda>r. case r of None \<Rightarrow> gret () | Some wcs \<Rightarrow>
     gbind (gmod (\<lambda>w. w\<lparr>wsConns := (wsConns w)(lid := None)\<rparr>)) (\<lambda>_.
     liftx (geach (\<lambda>(_, c). gbind (gout (ws_WriteMessage E c CloseMessage closeGoingAway)) (\<lambda>_. gout (ws_Close E c))) (wcs_cons wcs))))"

definition FiniWebSocket :: "'x gate_env \<Rightarrow> 'x mw_fini" where
  "FiniWebSocket E mwd = gbind (wsCloseConns E (mw_Cookie mwd)) (\<lambda>_. gret None)"

subsection \<open>The table of drivers\<close>

text \<open>\<open>mwareHandlers\<close>; a type that is not in it is a nil handler.\<close>

definition mw_Init :: "'x gate_env \<Rightarrow> 'x mw_init" where
  "mw_Init E mwd = (let t = mw_MwareType mwd in
     if t = ''maria'' then InitMariaDB E mwd else if t = ''postgres'' then InitPostgres E mwd
     else if t = ''rabbit'' then InitRabbitMQ E mwd else if t = ''mongo'' then InitMongo E mwd
     else if t = ''authjwt'' then InitAuthJWT E mwd else if t = ''websocket'' then InitWebSocket E mwd else gpanic)"

definition mw_Fini :: "'x gate_env \<Rightarrow> 'x mw_fini" where
  "mw_Fini E mwd = (let t = mw_MwareType mwd in
     if t = ''maria'' then FiniMariaDB E mwd else if t = ''postgres'' then FiniPostgres E mwd
     else if t = ''rabbit'' then FiniRabbitMQ E mwd else if t = ''mongo'' then FiniMongo E mwd
     else if t = ''authjwt'' then FiniAuthJWT mwd else if t = ''websocket'' then FiniWebSocket E mwd else gpanic)"

definition mw_LiteOK :: "string \<Rightarrow> bool" where
  "mw_LiteOK t \<longleftrightarrow> t \<in> {''mongo'', ''authjwt''}"

section \<open>Descriptors\<close>

record MwareAdd =
  ma_Name :: string
  ma_Project :: string
  ma_Type :: string
  ma_UserData :: string
  ma_AuthCtx :: string

definition SetupWebSocket :: "MwareAdd \<Rightarrow> MwareDesc \<Rightarrow> MwareDesc" where
  "SetupWebSocket p mwd = (if ma_AuthCtx p \<noteq> [] then mwd\<lparr>mw_HDat := [(''authctx'', ma_AuthCtx p)]\<rparr> else mwd)"

definition getMwareDesc :: "'x gate_env \<Rightarrow> SwoId \<Rightarrow> MwareAdd \<Rightarrow> (ReqErr, MwareDesc) res" where
  "getMwareDesc E i params = (case NameOK i of
     None \<Rightarrow> Panic
   | Some False \<Rightarrow> Err (GateErrM GateBadRequest ''Bad function name'')
   | Some True \<Rightarrow>
       let ret = \<lparr>mw_ObjID = [], mw_SwoId = i, mw_Labels = [], mw_Cookie = [], mw_MwareType = ma_Type params, mw_Client = [], mw_Secret = [],
             mw_Namespace = [], mw_State = DBMwareStatePrp, mw_UserData = ma_UserData params, mw_HDat = []\<rparr>
       in if ma_Type params \<notin> set mw_types then Err (GateErrM GateBadRequest ''Not such type'')
          else let ret = (if ma_Type params = ''websocket'' then SetupWebSocket params ret else ret)
          in Ok (ret\<lparr>mw_Cookie := Cookie (Cookify E) (mw_SwoId ret)\<rparr>))"

definition dbMwareCountTen :: "'x gate_env \<Rightarrow> gateContext \<Rightarrow> string \<Rightarrow> ('x, gdberr, nat) go" where
  "dbMwareCountTen E ctx mt = dbCount E DBColFunc (\<lambda>d. where_field ''tenant'' (gx_Tenant ctx) d \<and> where_field ''mwaretype'' mt d)"

definition checkMwCount :: "'x gate_env \<Rightarrow> gateContext \<Rightarrow> string \<Rightarrow> ('x gst, gdberr, unit) go" where
  "checkMwCount E ctx mt =
     gbind (tendatGet E ctx) (\<lambda>tmd. case map_of (td_mwl tmd) mt of
       None \<Rightarrow> gret ()
     | Some lim \<Rightarrow> gbind (liftx (dbMwareCountTen E ctx mt)) (\<lambda>nr.
         if word_of_nat nr \<ge> lim then gerr (GDbErr ''Too many mwares created'') else gret ()))"

section \<open>Adding and deleting\<close>

fun upd_Mw :: "(MwareDesc \<Rightarrow> MwareDesc) \<Rightarrow> gdoc \<Rightarrow> gdoc" where
  "upd_Mw f (GMw m) = GMw (f m)"
| "upd_Mw f d = d"

definition mw_ToState :: "'x gate_env \<Rightarrow> gateContext \<Rightarrow> MwareDesc \<Rightarrow> int \<Rightarrow> int \<Rightarrow> ('x gst, gdberr, MwareDesc) go" where
  "mw_ToState E ctx mw st from =
     gbind (liftx (dbUpdatePart2 E ctx (GMw mw) (\<lambda>d. from \<noteq> - 1 \<longrightarrow> mw_State (as_Mw d) = from) (upd_Mw (\<lambda>m. m\<lparr>mw_State := st\<rparr>))))
       (\<lambda>_. gret (mw\<lparr>mw_State := st\<rparr>))"

definition mw_stalled :: "'x gate_env \<Rightarrow> gateContext \<Rightarrow> MwareDesc \<Rightarrow> string \<Rightarrow> ('x gst, ReqErr, 'a) go" where
  "mw_stalled E ctx mwd err = gseq (mw_ToState E ctx mwd DBMwareStateStl (- 1)) (gerr (GateErrE GateGenErr err))"

definition mw_outdb :: "'x gate_env \<Rightarrow> gateContext \<Rightarrow> MwareDesc \<Rightarrow> string \<Rightarrow> ('x gst, ReqErr, 'a) go" where
  "mw_outdb E ctx mwd err = gtry (liftx (dbRemove E ctx (GMw mwd))) (\<lambda>r. case r of
     Inl _ \<Rightarrow> mw_stalled E ctx mwd err | Inr _ \<Rightarrow> gerr (GateErrE GateGenErr err))"

definition mw_outh :: "'x gate_env \<Rightarrow> gateContext \<Rightarrow> MwareDesc \<Rightarrow> string \<Rightarrow> ('x gst, ReqErr, 'a) go" where
  "mw_outh E ctx mwd err = unless_err (mw_Fini E mwd) (\<lambda>_. mw_stalled E ctx mwd err) (mw_outdb E ctx mwd err)"

definition mw_outs :: "'x gate_env \<Rightarrow> gateContext \<Rightarrow> MwareDesc \<Rightarrow> string \<Rightarrow> ('x gst, ReqErr, 'a) go" where
  "mw_outs E ctx mwd err = gtry (liftx (k8sSecretRemove E (''mw-'' @ mw_Cookie mwd))) (\<lambda>r. case r of
     Inl _ \<Rightarrow> mw_stalled E ctx mwd err | Inr _ \<Rightarrow> mw_outh E ctx mwd err)"

text \<open>With the document inserted and the driver done: the secret for the pods, the encryption, the final state.\<close>

definition mw_ready :: "'x gate_env \<Rightarrow> cfb \<Rightarrow> string \<Rightarrow> gateContext \<Rightarrow> MwareDesc \<Rightarrow> ('x gst, ReqErr, MwareDesc) go" where
  "mw_ready E C pas ctx mwd =
     gbind (deref (mwSecEnv E mwd)) (\<lambda>se.
     gtry (liftx (k8sSecretAdd E se)) (\<lambda>r. case r of
       Inl err \<Rightarrow> mw_outh E ctx mwd err
     | Inr _ \<Rightarrow> gbind (liftx (gout (aes_nonce E))) (\<lambda>nonce. case EncryptString C nonce pas (mw_Secret mwd) of
         Panic \<Rightarrow> gpanic
       | Err _ \<Rightarrow> mw_outs E ctx (mwd\<lparr>mw_Secret := []\<rparr>) ''Encrypt error''
       | Ok ct \<Rightarrow> let mwd = mwd\<lparr>mw_Secret := ct, mw_State := DBMwareStateRdy\<rparr> in
           gtry (liftx (dbUpdatePart E ctx (GMw mwd) (upd_Mw (\<lambda>m. m\<lparr>mw_Client := mw_Client mwd, mw_Secret := mw_Secret mwd,
                   mw_Namespace := mw_Namespace mwd, mw_State := mw_State mwd\<rparr>)))) (\<lambda>r. case r of
             Inl _ \<Rightarrow> mw_outs E ctx mwd ''DB error'' | Inr _ \<Rightarrow> gret mwd))))"

definition mw_Add :: "'x gate_env \<Rightarrow> cfb \<Rightarrow> string \<Rightarrow> gateContext \<Rightarrow> MwareDesc \<Rightarrow> ('x gst, ReqErr, MwareDesc) go" where
  "mw_Add E C pas ctx mwd =
     gtry (checkMwCount E ctx (mw_MwareType mwd)) (\<lambda>r. case r of
       Inl _ \<Rightarrow> gerr (GateErrC GateLimitHit)
     | Inr _ \<Rightarrow> gbind (liftx (gout (gnewid E))) (\<lambda>i.
         let mwd = mwd\<lparr>mw_ObjID := i\<rparr>; t = mw_MwareType mwd in
         gtry (liftx (dbInsert E ctx (GMw mwd))) (\<lambda>r. case r of
           Inl e \<Rightarrow> gerr (GateErrD e)
         | Inr _ \<Rightarrow>
             if t \<notin> set mw_types then gpanic
             else if MwDisabled E t \<or> isLite E \<and> \<not> mw_LiteOK t then mw_outdb E ctx mwd (''Bad mware type '' @ t)
             else gbind (liftx (mw_Init E mwd)) (\<lambda>(mwd, err). case err of
               Some e \<Rightarrow> mw_outdb E ctx mwd (''mware init error: '' @ e)
             | None \<Rightarrow> mw_ready E C pas ctx mwd))))"

definition mw_Del :: "'x gate_env \<Rightarrow> gateContext \<Rightarrow> MwareDesc \<Rightarrow> ('x gst, ReqErr, unit) go" where
  "mw_Del E ctx item = (if mw_MwareType item \<notin> set mw_types then gerr (GateErrC GateGenErr)
     else gtry (mw_ToState E ctx item DBMwareStateTrm (mw_State item)) (\<lambda>r. case r of
       Inl _ \<Rightarrow> gerr (GateErrM GateGenErr ''Cannot terminate mware'')
     | Inr item \<Rightarrow> unless_err (mw_Fini E item) (mw_stalled E ctx item)
         (gtry (liftx (k8sSecretRemove E (''mw-'' @ mw_Cookie item))) (\<lambda>r. case r of
           Inl e \<Rightarrow> mw_stalled E ctx item e
         | Inr _ \<Rightarrow> gtry (liftx (dbRemove E ctx (GMw item))) (\<lambda>r. case r of
             Inl e \<Rightarrow> mw_stalled E ctx item (db_msg e) | Inr _ \<Rightarrow> gret ())))))"

definition mwareRemoveId :: "'x gate_env \<Rightarrow> gateContext \<Rightarrow> SwoId \<Rightarrow> ('x gst, ReqErr, unit) go" where
  "mwareRemoveId E ctx i =
     gtry (liftx (dbFind E DBColMware (where_field ''cookie'' (Cookie (Cookify E) i)))) (\<lambda>r. case r of
       Inl e \<Rightarrow> gerr (GateErrD e) | Inr d \<Rightarrow> mw_Del E ctx (as_Mw d))"

section \<open>Information\<close>

record MwareInfo =
  mi_Id :: string
  mi_Labels :: "string list"
  mi_Name :: string
  mi_Project :: string
  mi_Type :: string
  mi_UserData :: string
  mi_DU :: "64 word option"
  mi_URL :: "string option"

definition SetDU :: "64 word \<Rightarrow> MwareInfo \<Rightarrow> MwareInfo" where
  "SetDU bytes i = i\<lparr>mi_DU := Some (drop_bit 10 bytes)\<rparr>"

definition InfoMariaDB :: "'x gate_env \<Rightarrow> MwareDesc \<Rightarrow> MwareInfo \<Rightarrow> ('x, string, MwareInfo) go" where
  "InfoMariaDB E mwd ifo = unless_err (mariaConn E) gerr
     (gbind (gout (mw_usage E ''maria'' (mw_Namespace mwd))) (\<lambda>r. case r of
       Inl _ \<Rightarrow> gerr ''Error getting DB size''
     | Inr rows \<Rightarrow> gret (SetDU (case rows of [] \<Rightarrow> 0 | sz # _ \<Rightarrow> sz) ifo)))"

definition InfoMongo :: "'x gate_env \<Rightarrow> MwareDesc \<Rightarrow> MwareInfo \<Rightarrow> ('x, string, MwareInfo) go" where
  "InfoMongo E mwd ifo = unless_err (mgoDial E) gerr
     (gbind (gout (mw_usage E ''mongo'' (mw_Namespace mwd))) (\<lambda>r. case r of
       Inl _ \<Rightarrow> gerr ''Error getting DB stats''
     | Inr st \<Rightarrow> gret (SetDU (sum_list (take 2 st)) ifo)))"

definition InfoWebSocket :: "'x gate_env \<Rightarrow> MwareDesc \<Rightarrow> MwareInfo \<Rightarrow> ('x, string, MwareInfo) go" where
  "InfoWebSocket E mwd ifo = gbind (deref (wsURL E mwd)) (\<lambda>url. gret (ifo\<lparr>mi_URL := Some url\<rparr>))"

text \<open>\<open>handler.Info\<close>, where there is one.\<close>

definition mw_Info :: "'x gate_env \<Rightarrow> MwareDesc \<Rightarrow> MwareInfo \<Rightarrow> ('x, string, MwareInfo) go" where
  "mw_Info E mwd ifo = (let t = mw_MwareType mwd in
     if t = ''maria'' then InfoMariaDB E mwd ifo else if t = ''mongo'' then InfoMongo E mwd ifo
     else if t = ''websocket'' then InfoWebSocket E mwd ifo else gret ifo)"

definition mw_toInfo :: "'x gate_env \<Rightarrow> MwareDesc \<Rightarrow> bool \<Rightarrow> ('x, ReqErr, MwareInfo) go" where
  "mw_toInfo E item details =
     (let resp = \<lparr>mi_Id = mw_ObjID item, mi_Labels = mw_Labels item, mi_Name = Name (mw_SwoId item), mi_Project = Project (mw_SwoId item),
            mi_Type = mw_MwareType item, mi_UserData = [], mi_DU = None, mi_URL = None\<rparr>
      in if \<not> details then gret resp
         else if mw_MwareType item \<notin> set mw_types then gerr (GateErrC GateGenErr)
         else gtry (mw_Info E item (resp\<lparr>mi_UserData := mw_UserData item\<rparr>)) (\<lambda>r. case r of
           Inl e \<Rightarrow> gerr (GateErrE GateGenErr e) | Inr resp \<Rightarrow> gret resp))"

text \<open>Counts and disk usage by type.\<close>

type_synonym mw_stats = "(string \<times> nat \<times> 64 word option) list"

definition count_mware :: "string \<Rightarrow> 64 word option \<Rightarrow> mw_stats \<Rightarrow> mw_stats" where
  "count_mware t du mst = (case map_of mst t of
     None \<Rightarrow> AList.update t (1, du) mst
   | Some (n, du0) \<Rightarrow> AList.update t (Suc n, (case (du, du0) of (None, _) \<Rightarrow> du0 | (Some d, None) \<Rightarrow> Some d | (Some d, Some d0) \<Rightarrow> Some (d0 + d))) mst)"

definition getMwareStats :: "'x gate_env \<Rightarrow> gateContext \<Rightarrow> ('x, ReqErr, mw_stats) go" where
  "getMwareStats E ctx =
     gtry (dbFindAll E DBColMware (where_field ''tennant'' (gx_Tenant ctx))) (\<lambda>r. case r of
       Inl e \<Rightarrow> gerr (GateErrD e)
     | Inr ds \<Rightarrow> gfold (\<lambda>d mst. let mw = as_Mw d in
         if mw_MwareType mw \<notin> set mw_types then gpanic
         else gtry (mw_Info E mw \<lparr>mi_Id = [], mi_Labels = [], mi_Name = [], mi_Project = [], mi_Type = [], mi_UserData = [], mi_DU = None, mi_URL = None\<rparr>) (\<lambda>r. case r of
           Inl e \<Rightarrow> gerr (GateErrE GateGenErr e) | Inr ifo \<Rightarrow> gret (count_mware (mw_MwareType mw) (mi_DU ifo) mst))) ds [])"

definition stdEnvNames :: "string \<Rightarrow> string list \<Rightarrow> string list" where
  "stdEnvNames typ extra = map (mkEnvName typ ''%name%'') ([''ADDR'', ''USER'', ''PASS''] @ extra)"

text \<open>\<open>TInfo\<close> of the drivers; PostgreSQL and RabbitMQ have none.\<close>

definition mwareGetInfo :: "string \<Rightarrow> ReqErr + string list" where
  "mwareGetInfo mtyp =
     (if mtyp \<notin> set mw_types then Inl (GateErrM GateBadRequest ''Not such type'')
      else if mtyp = ''maria'' then Inr (stdEnvNames ''maria'' [''DBNAME''])
      else if mtyp = ''mongo'' then Inr (stdEnvNames ''mongo'' [''DBNAME''])
      else if mtyp = ''authjwt'' then Inr [mkEnvName ''authjwt'' ''%name%'' ''SIGNKEY'']
      else if mtyp = ''websocket'' then Inr [mkEnvName ''websocket'' ''%name%'' ''TOKEN'', mkEnvName ''websocket'' ''%name%'' ''URL'']
      else Inl (GateErrC GateNotAvail))"

definition handleMwareTypes :: "'x gate_env \<Rightarrow> string list" where
  "handleMwareTypes E = filter (\<lambda>mw. \<not> MwDisabled E mw) mw_types"

section \<open>Messages over websockets\<close>

record WsMwReq =
  wr_MType :: int
  wr_Msg :: string

definition wsUnicastMessage :: "'x gate_env \<Rightarrow> string \<Rightarrow> wsConnMap \<Rightarrow> WsMwReq \<Rightarrow> ('x, ReqErr, unit) go" where
  "wsUnicastMessage E cid wcs rq = (case map_of (wcs_cons wcs) cid of
     Some c \<Rightarrow> gout (ws_WriteMessage E c (wr_MType rq) (wr_Msg rq))
   | None \<Rightarrow> gerr (GateErrM GateNotFound ''Target not found''))"

definition wsBroadcastMessage :: "'x gate_env \<Rightarrow> wsConnMap \<Rightarrow> WsMwReq \<Rightarrow> ('x, ReqErr, unit) go" where
  "wsBroadcastMessage E wcs rq = geach (\<lambda>(_, c). gout (ws_WriteMessage E c (wr_MType rq) (wr_Msg rq))) (wcs_cons wcs)"

text \<open>The parsed body is an argument, or the error of parsing it.\<close>

definition wsFunctionReq :: "'x gate_env \<Rightarrow> MwareDesc \<Rightarrow> string \<Rightarrow> string + WsMwReq \<Rightarrow> ('x gst, ReqErr, unit) go" where
  "wsFunctionReq E mwd cid body = (case body of
     Inl e \<Rightarrow> gerr (GateErrE GateBadRequest e)
   | Inr rq \<Rightarrow> gbind (gget (\<lambda>w. wsConns w (mw_Cookie mwd))) (\<lambda>r. case r of
       None \<Rightarrow> gerr (GateErrM GateNotFound ''Target not found'')
     | Some wcs \<Rightarrow> liftx (if cid \<noteq> [] then wsUnicastMessage E cid wcs rq else wsBroadcastMessage E wcs rq)))"

definition ready_ws :: "string \<Rightarrow> gdoc \<Rightarrow> bool" where
  "ready_ws ws d \<longleftrightarrow> where_field ''cookie'' ws d \<and> where_field ''mwaretype'' ''websocket'' d \<and> mw_State (as_Mw d) = DBMwareStateRdy"

text \<open>The request of a function to send a message; the answer is a code, with an error where there is one.\<close>

definition handleWebSocketsMw :: "'x gate_env \<Rightarrow> string \<Rightarrow> string \<Rightarrow> string \<Rightarrow> string + WsMwReq \<Rightarrow> ('x gst, ReqErr, int \<times> ReqErr option) go" where
  "handleWebSocketsMw E ws token path body =
     gtry (liftx (dbFind E DBColMware (ready_ws ws))) (\<lambda>r. case r of
       Inl _ \<Rightarrow> gret (404, None)
     | Inr d \<Rightarrow> let wsmw = as_Mw d in
         if token \<noteq> mw_Secret wsmw then gret (401, None)
         else let p = SplitN path (CHR ''/'') 5; cid = (if length p > 4 then p ! 4 else [])
         in gtry (wsFunctionReq E wsmw cid body) (\<lambda>r. case r of Inl e \<Rightarrow> gret (400, Some e) | Inr _ \<Rightarrow> gret (200, None)))"

text \<open>Who may connect: the claims of the client, or the code that refuses it.\<close>

definition handleWebSocketClient :: "'x gate_env \<Rightarrow> cfb \<Rightarrow> string \<Rightarrow> jwt_lib \<Rightarrow> string \<Rightarrow> string \<Rightarrow> ('x, ReqErr, int + MwareDesc \<times> json option) go" where
  "handleWebSocketClient E C pas L ws auth =
     gtry (dbFind E DBColMware (ready_ws ws)) (\<lambda>r. case r of
       Inl _ \<Rightarrow> gret (Inl 404)
     | Inr d \<Rightarrow> let wsmw = as_Mw d in
         if mw_HDat wsmw = [] then gret (Inr (wsmw, None))
         else (case map_of (mw_HDat wsmw) ''authctx'' of
           None \<Rightarrow> gret (Inl 500)
         | Some aid \<Rightarrow> gtry (authCtxGet E C pas (mw_SwoId wsmw) aid) (\<lambda>r. case r of
             Inl _ \<Rightarrow> gret (Inl 500)
           | Inr key \<Rightarrow> gbind (gout (gnow E)) (\<lambda>now. case Verify L key now auth of
               Inl _ \<Rightarrow> gret (Inl 401) | Inr cs \<Rightarrow> gret (Inr (wsmw, Some (JObj cs)))))))"

section \<open>What a driver promises\<close>

named_theorems reads_rules \<open>calls that leave the documents alone\<close>

abbreviation gview_of :: "('x \<Rightarrow> gview) \<Rightarrow> 'x gst \<Rightarrow> gview" where
  "gview_of view w \<equiv> view (outer w)"

lemma reads_liftx [reads_rules]: "reads view f \<Longrightarrow> reads (gview_of view) (liftx f)"
  by (rule reads_wp) (auto simp: wp_liftx intro: wp_reads)

lemma reads_gmod [reads_rules]: "(\<And>w. view (f w) = view w) \<Longrightarrow> reads view (gmod f)"
  by (rule reads_wp) (simp add: wp_gmod)

lemma reads_gget [reads_rules]: "reads view (gget f)"
  by (rule reads_wp) (simp add: wp_gget)

lemma reads_unless_err [reads_rules]:
  "reads view f \<Longrightarrow> (\<And>e. reads view (h e)) \<Longrightarrow> reads view k \<Longrightarrow> reads view (unless_err f h k)"
  unfolding unless_err_def by (auto intro: reads_gbind split: option.split)

lemma reads_geach [reads_rules]: "(\<And>a. reads view (f a)) \<Longrightarrow> reads view (geach f as)"
  by (induction as) (auto intro: reads_gbind reads_gret)

declare reads_gret [reads_rules] reads_gbind [reads_rules] reads_gout [reads_rules]

lemma reads_servers [reads_rules]:
  assumes "gmongo_ok E view"
  shows "reads view (gout (mw_server E m))" "reads view (gout (GenRandId E n))" "reads view (gout (ws_WriteMessage E c t s))"
    "reads view (gout (ws_Close E c))"
  by (rule reads_gout; simp add: gambient [OF assms] del: GenRandId_snd)+

text \<open>A random source fills the buffer it is given.\<close>

definition rand_ok :: "'x gate_env \<Rightarrow> bool" where
  "rand_ok E \<longleftrightarrow> (\<forall>n x s. fst (rand_Read E n x) = Some s \<longrightarrow> length s = n)"

lemma GenRandId_length: "rand_ok E \<Longrightarrow> fst (GenRandId E n x) = Some s \<Longrightarrow> length s = n"
  unfolding rand_ok_def GenRandId_def by (auto split: prod.splits) (metis fst_conv)

text \<open>\<open>Init\<close> fills in the credentials only.\<close>

definition same_mw :: "MwareDesc \<Rightarrow> MwareDesc \<Rightarrow> bool" where
  "same_mw m m' \<longleftrightarrow> m' = m\<lparr>mw_Client := mw_Client m', mw_Secret := mw_Secret m', mw_Namespace := mw_Namespace m'\<rparr>"

lemma same_mw_upd [simp]:
  "same_mw m m" "same_mw m (m'\<lparr>mw_Client := c\<rparr>) = same_mw m m'" "same_mw m (m'\<lparr>mw_Secret := s\<rparr>) = same_mw m m'"
  "same_mw m (m'\<lparr>mw_Namespace := n\<rparr>) = same_mw m m'"
  by (cases m; cases m'; simp add: same_mw_def)+

lemma same_mwD:
  assumes "same_mw m m'"
  shows "mw_ObjID m' = mw_ObjID m" "mw_MwareType m' = mw_MwareType m" "mw_Cookie m' = mw_Cookie m" "mw_State m' = mw_State m"
  using assms by (cases m; cases m'; simp add: same_mw_def)+

definition init_post :: "'x gate_env \<Rightarrow> ('x \<Rightarrow> gview) \<Rightarrow> MwareDesc \<Rightarrow> 'x \<Rightarrow> (ReqErr, MwareDesc \<times> string option) res \<Rightarrow> 'x \<Rightarrow> bool" where
  "init_post E view m x r x' \<longleftrightarrow> (\<exists>m' err. r = Ok (m', err) \<and> view x' = view x \<and> same_mw m m' \<and> (err = None \<longrightarrow> mw_GetEnv E m' \<noteq> None))"

text \<open>
  The contract of a driver of the table \<open>mwareHandlers\<close>: \<open>Init\<close> returns, changes no document, keeps the identity of the
  middleware, and when it succeeds the variables of the middleware can be made; \<open>Fini\<close> returns and changes no document
  if those variables could be made.
\<close>

locale mw_driver =
  fixes tname :: string and Init :: "'x gate_env \<Rightarrow> 'x mw_init" and Fini :: "'x gate_env \<Rightarrow> 'x mw_fini"
  assumes Init: "gmongo_ok E view \<Longrightarrow> rand_ok E \<Longrightarrow> mw_MwareType m = tname \<Longrightarrow> wp (Init E m) (init_post E view m x) x"
    and Fini: "gmongo_ok E view \<Longrightarrow> mw_MwareType m = tname \<Longrightarrow> mw_GetEnv E m \<noteq> None \<Longrightarrow> reads (gview_of view) (Fini E m)"
begin

text \<open>What was set up can be taken down again.\<close>

lemma init_fini:
  assumes "gmongo_ok E view" and "rand_ok E" and "mw_MwareType m = tname" and "Init E m x = (r, x')"
  obtains m' err where "r = Ok (m', err)" "view x' = view x" "same_mw m m'"
    "err = None \<Longrightarrow> mw_GetEnv E m' \<noteq> None \<and> reads (gview_of view) (Fini E m')"
proof -
  obtain m' err where *: "r = Ok (m', err)" "view x' = view x" "same_mw m m'" "err = None \<longrightarrow> mw_GetEnv E m' \<noteq> None"
    using wpD [OF Init [OF assms(1-3)] assms(4)] by (auto simp: init_post_def)
  then show thesis using that [OF *(1-3)] Fini [OF assms(1), of m'] same_mwD(2) [OF *(3)] assms(3) by simp
qed

end

lemma init_postI:
  "view x' = view x \<Longrightarrow> same_mw m m' \<Longrightarrow> err \<noteq> None \<or> mw_GetEnv E m' \<noteq> None \<Longrightarrow> init_post E view m x (Ok (m', err)) x'"
  by (auto simp: init_post_def)

lemma mw_GetEnv_Some:
  "mw_MwareType m = ''maria'' \<Longrightarrow> mw_GetEnv E m \<noteq> None \<longleftrightarrow> conf_Maria E \<noteq> None"
  "mw_MwareType m = ''postgres'' \<Longrightarrow> mw_GetEnv E m \<noteq> None \<longleftrightarrow> conf_Postgres E \<noteq> None"
  "mw_MwareType m = ''rabbit'' \<Longrightarrow> mw_GetEnv E m \<noteq> None \<longleftrightarrow> conf_Rabbit E \<noteq> None"
  "mw_MwareType m = ''mongo'' \<Longrightarrow> mw_GetEnv E m \<noteq> None \<longleftrightarrow> conf_Mongo E \<noteq> None"
  "mw_MwareType m = ''authjwt'' \<Longrightarrow> mw_GetEnv E m \<noteq> None"
  "mw_MwareType m = ''websocket'' \<Longrightarrow> mw_GetEnv E m \<noteq> None \<longleftrightarrow> conf_WS E \<noteq> None"
  by (simp_all add: mw_GetEnv_def GetEnvMariaDB_def GetEnvPostgres_def GetEnvRabbitMQ_def GetEnvMongo_def GetEnvAuthJWT_def
      GetEnvWebSocket_def wsURL_def Let_def)

lemma wp_with_client:
  assumes "gmongo_ok E view" and "rand_ok E"
    and "\<And>m' x'. view x' = view x \<Longrightarrow> same_mw m m' \<Longrightarrow> length (mw_Client m') = 32 \<Longrightarrow> wp (k m') (init_post E view m x) x'"
  shows "wp (with_client E m k) (init_post E view m x) x"
proof -
  have len: "fst (GenRandId E n x) = Some s \<Longrightarrow> length s = n" for n s x using GenRandId_length [OF assms(2)] .
  show ?thesis
    using assms(3) unfolding with_client_def mwareGenerateUserPassClient_def wp_simps on_ok_simps
    by (auto simp: wp_simps gambient [OF assms(1)] len intro!: init_postI split: option.splits simp del: GenRandId_snd)
qed

text \<open>A call that always has an answer and changes no document.\<close>

definition still :: "('x \<Rightarrow> gview) \<Rightarrow> ('x, 'e, 'a) go \<Rightarrow> bool" where
  "still view f \<longleftrightarrow> (\<forall>x. \<exists>a x1. f x = (Ok a, x1) \<and> view x1 = view x)"

lemma stillE:
  assumes "still view f"
  obtains a x1 where "f x = (Ok a, x1)" "view x1 = view x"
  using assms unfolding still_def by blast

lemma still_gbind:
  assumes "still view f" and "\<And>a. still view (k a)"
  shows "still view (gbind f k)"
  unfolding still_def
proof
  fix x
  obtain a x1 where a: "f x = (Ok a, x1)" "view x1 = view x" using stillE [OF assms(1)] .
  obtain b x2 where b: "k a x1 = (Ok b, x2)" "view x2 = view x1" using stillE [OF assms(2)] .
  show "\<exists>b x2. gbind f k x = (Ok b, x2) \<and> view x2 = view x" using a b by (simp add: gbind_def)
qed

lemma still_gret: "still view (gret a)"
  by (simp add: still_def gret_def)

lemma still_server:
  assumes "gmongo_ok E view"
  shows "still view (gout (mw_server E m))"
  by (simp add: still_def gout_def case_prod_beta gambient [OF assms])

lemma still_reqs:
  assumes "gmongo_ok E view"
  shows "still view (mariaConn E)" "still view (mariaReq E s)" "still view (mariaDropUser E m)" "still view (mariaDropDb E m)"
    "still view (mariaDropQuota E cf m)" "still view (rabbitConn E)" "still view (rabbitReq E s m r)" "still view (mgoDial E)"
  unfolding mariaConn_def mariaReq_def mariaDropUser_def mariaDropDb_def mariaDropQuota_def rabbitConn_def rabbitReq_def mgoDial_def
  by (auto intro!: still_gbind still_gret still_server [OF assms] split: option.splits)

lemma reads_still: "still view f \<Longrightarrow> reads view f"
  unfolding reads_def by (metis Pair_inject stillE res.distinct(3))

lemma wp_still: "still view f \<Longrightarrow> (\<And>a x1. view x1 = view x \<Longrightarrow> Q (Ok a) x1) \<Longrightarrow> wp f Q x"
  unfolding wp_def by (erule stillE [of _ _ x]) simp

lemma wp_unless:
  assumes "still view f" and "\<And>e x1. view x1 = view x \<Longrightarrow> wp (h e) Q x1" and "\<And>x1. view x1 = view x \<Longrightarrow> wp k Q x1"
  shows "wp (unless_err f h k) Q x"
  unfolding unless_err_def wp_gbind by (rule wp_still [OF assms(1)]) (use assms(2,3) in \<open>auto split: option.splits\<close>)

text \<open>The connection is made only to a server that is configured.\<close>

lemma unconfigured:
  "conf_Maria E = None \<Longrightarrow> mariaConn E = gret (Some ''Not configured'')"
  "conf_Rabbit E = None \<Longrightarrow> rabbitConn E = gret (Some ''Not configured'')"
  "conf_Mongo E = None \<Longrightarrow> mgoDial E = gret (Some ''Not configured'')"
  by (simp_all add: mariaConn_def rabbitConn_def mgoDial_def)

lemma unless_gret [simp]: "unless_err (gret (Some e)) h k = h e"
  by (simp add: unless_err_def)

lemma wp_cleanup: "still view f \<Longrightarrow> (\<And>x1. view x1 = view x \<Longrightarrow> wp k Q x1) \<Longrightarrow> wp (gbind f (\<lambda>_. k)) Q x"
  unfolding wp_gbind by (rule wp_still) auto

lemma maria_Init:
  assumes E: "gmongo_ok E view" and "rand_ok E" and "mw_MwareType m = ''maria''"
  shows "wp (InitMariaDB E m) (init_post E view m x) x"
  unfolding InitMariaDB_def
proof (rule wp_with_client [OF assms(1,2)], goal_cases)
  case (1 m' x')
  then have t: "mw_MwareType m' = ''maria''" using assms(3) same_mwD(2) by metis
  note fails = wp_unless [where view = view] wp_cleanup [where view = view] still_reqs [OF E]
  show ?case
  proof (cases "conf_Maria E")
    case None
    then show ?thesis using 1 by (simp add: unconfigured Let_def wp_simps init_postI)
  next
    case (Some cf)
    then have env: "mw_GetEnv E (m'\<lparr>mw_Namespace := n\<rparr>) \<noteq> None" for n using mw_GetEnv_Some(1) [of _ E] t by simp
    show ?thesis unfolding Let_def Some deref_def option.case gbind_gret
      by (intro fails; simp add: wp_gret init_postI 1 env)
  qed
qed

lemma rabbit_Init:
  assumes E: "gmongo_ok E view" and "rand_ok E" and "mw_MwareType m = ''rabbit''"
  shows "wp (InitRabbitMQ E m) (init_post E view m x) x"
  unfolding InitRabbitMQ_def
proof (rule wp_with_client [OF assms(1,2)], goal_cases)
  case (1 m' x')
  then have t: "mw_MwareType m' = ''rabbit''" using assms(3) same_mwD(2) by metis
  show ?case
  proof (cases "conf_Rabbit E")
    case None
    then show ?thesis using 1 by (simp add: unconfigured Let_def wp_simps init_postI)
  next
    case (Some cf)
    then have env: "mw_GetEnv E (m'\<lparr>mw_Namespace := n\<rparr>) \<noteq> None" for n using mw_GetEnv_Some(3) [of _ E] t by simp
    show ?thesis unfolding Let_def Some deref_def option.case gbind_gret
      by (intro wp_unless [where view = view] still_reqs [OF E]; simp add: wp_gret init_postI 1 env)
  qed
qed

lemma mongo_Init:
  assumes E: "gmongo_ok E view" and "rand_ok E" and "mw_MwareType m = ''mongo''"
  shows "wp (InitMongo E m) (init_post E view m x) x"
  unfolding InitMongo_def
proof (rule wp_with_client [OF assms(1,2)], goal_cases)
  case (1 m' x')
  then have t: "mw_MwareType m' = ''mongo''" using assms(3) same_mwD(2) by metis
  show ?case
  proof (cases "conf_Mongo E")
    case None
    then show ?thesis using 1 by (simp add: unconfigured Let_def wp_simps init_postI)
  next
    case (Some cf)
    then have env: "mw_GetEnv E (m'\<lparr>mw_Namespace := n\<rparr>) \<noteq> None" for n using mw_GetEnv_Some(4) [of _ E] t by simp
    show ?thesis unfolding Let_def
      by (intro wp_unless [where view = view] still_reqs [OF E]; simp add: wp_simps init_postI 1 env gambient [OF E])
  qed
qed

lemma postgres_Init:
  assumes E: "gmongo_ok E view" and "rand_ok E" and "mw_MwareType m = ''postgres''"
  shows "wp (InitPostgres E m) (init_post E view m x) x"
proof (cases "conf_Postgres E")
  case None
  then show ?thesis by (simp add: InitPostgres_def wp_simps init_postI)
next
  case (Some cf)
  show ?thesis unfolding InitPostgres_def Some
  proof (simp, rule wp_with_client [OF assms(1,2)], goal_cases)
    case (1 m' x')
    then have "mw_MwareType m' = ''postgres''" using assms(3) same_mwD(2) by metis
    then have env: "mw_GetEnv E (m'\<lparr>mw_Client := c, mw_Namespace := n\<rparr>) \<noteq> None" for c n
      using mw_GetEnv_Some(2) [of _ E] Some by simp
    show ?case using 1 env by (simp add: Let_def wp_simps init_postI gambient [OF E])
  qed
qed

lemma token_Init:
  assumes E: "gmongo_ok E view" and env: "\<And>s. mw_GetEnv E (m\<lparr>mw_Secret := s\<rparr>) \<noteq> None"
  shows "wp (gbind (gout (GenRandId E n)) (\<lambda>s. case s of
     None \<Rightarrow> gret (m\<lparr>mw_Secret := []\<rparr>, Some ''rand'') | Some s \<Rightarrow> gret (m\<lparr>mw_Secret := s\<rparr>, None))) (init_post E view m x) x"
  using env by (auto simp: wp_simps gambient [OF E] intro!: init_postI split: option.split simp del: GenRandId_snd)

lemma reads_reqs:
  assumes "gmongo_ok E view"
  shows "reads view (mariaConn E)" "reads view (mariaDropUser E m)" "reads view (mariaDropDb E m)" "reads view (mariaDropQuota E cf m)"
    "reads view (rabbitConn E)" "reads view (mgoDial E)"
  using still_reqs [OF assms] reads_still by blast+

lemma reads_wsCloseConns:
  assumes "gmongo_ok E view"
  shows "reads (gview_of view) (wsCloseConns E lid)"
proof -
  have each: "reads view (case p of (_, c) \<Rightarrow> gbind (gout (ws_WriteMessage E c CloseMessage closeGoingAway)) (\<lambda>_. gout (ws_Close E c)))" for p
    by (cases p) (simp, intro reads_gbind reads_servers [OF assms])
  have "reads (gview_of view) (gbind (gmod (\<lambda>w. w\<lparr>wsConns := (wsConns w)(lid := None)\<rparr>)) (\<lambda>_. liftx (geach
      (\<lambda>(_, c). gbind (gout (ws_WriteMessage E c CloseMessage closeGoingAway)) (\<lambda>_. gout (ws_Close E c))) (wcs_cons wcs))))" for wcs
    by (rule reads_gbind [OF reads_gmod reads_liftx [OF reads_geach [OF each]]]) simp
  then show ?thesis unfolding wsCloseConns_def by (auto intro!: reads_gbind [OF reads_gget] reads_gret split: option.split)
qed

interpretation maria: mw_driver "''maria''" InitMariaDB FiniMariaDB
proof
  fix E :: "'x gate_env" and view and m :: MwareDesc
  assume E: "gmongo_ok E view" and "mw_MwareType m = ''maria''" and "mw_GetEnv E m \<noteq> None"
  then obtain cf where "conf_Maria E = Some cf" using mw_GetEnv_Some(1) by fastforce
  then show "reads (gview_of view) (FiniMariaDB E m)"
    unfolding FiniMariaDB_def by (simp add: deref_def) (intro reads_liftx reads_unless_err reads_gbind reads_reqs [OF E] reads_gret)
qed (rule maria_Init)

interpretation postgres: mw_driver "''postgres''" InitPostgres FiniPostgres
proof
  fix E :: "'x gate_env" and view and m :: MwareDesc
  assume E: "gmongo_ok E view" and "mw_MwareType m = ''postgres''" and "mw_GetEnv E m \<noteq> None"
  then obtain cf where "conf_Postgres E = Some cf" using mw_GetEnv_Some(2) by fastforce
  then show "reads (gview_of view) (FiniPostgres E m)"
    unfolding FiniPostgres_def deref_def using reads_servers(1) [OF E] by (auto intro!: reads_liftx)
qed (rule postgres_Init)

interpretation rabbit: mw_driver "''rabbit''" InitRabbitMQ FiniRabbitMQ
  by unfold_locales (rule rabbit_Init, assumption+, unfold FiniRabbitMQ_def,
      intro reads_liftx reads_unless_err reads_gbind reads_reqs reads_servers reads_gret)

interpretation mongo: mw_driver "''mongo''" InitMongo FiniMongo
  by unfold_locales (rule mongo_Init, assumption+, unfold FiniMongo_def,
      intro reads_liftx reads_unless_err reads_gbind reads_reqs reads_servers reads_gret)

interpretation authjwt: mw_driver "''authjwt''" InitAuthJWT "\<lambda>_. FiniAuthJWT"
  by unfold_locales (unfold InitAuthJWT_def FiniAuthJWT_def, rule token_Init, simp, rule mw_GetEnv_Some(5), simp, rule reads_gret)

interpretation websocket: mw_driver "''websocket''" InitWebSocket FiniWebSocket
proof
  fix E :: "'x gate_env" and view and m :: MwareDesc and x
  assume E: "gmongo_ok E view" and t: "mw_MwareType m = ''websocket''"
  show "wp (InitWebSocket E m) (init_post E view m x) x"
  proof (cases "conf_WS E")
    case None
    then show ?thesis by (simp add: InitWebSocket_def wp_simps init_postI)
  next
    case (Some api)
    then have "mw_GetEnv E (m\<lparr>mw_Secret := s\<rparr>) \<noteq> None" for s using t mw_GetEnv_Some(6) [of "m\<lparr>mw_Secret := s\<rparr>" E] by simp
    then show ?thesis using token_Init [OF E, of m 32 x] Some by (simp add: InitWebSocket_def)
  qed
next
  fix E :: "'x gate_env" and view and m :: MwareDesc
  assume "gmongo_ok E view"
  then show "reads (gview_of view) (FiniWebSocket E m)"
    unfolding FiniWebSocket_def by (intro reads_rules reads_wsCloseConns)
qed

text \<open>The table of drivers keeps the contract for every known type.\<close>

lemma mw_types_cases:
  assumes "t \<in> set mw_types"
  obtains "t = ''maria''" | "t = ''postgres''" | "t = ''rabbit''" | "t = ''mongo''" | "t = ''authjwt''" | "t = ''websocket''"
proof -
  from assms have "t = ''maria'' \<or> t = ''postgres'' \<or> t = ''rabbit'' \<or> t = ''mongo'' \<or> t = ''authjwt'' \<or> t = ''websocket''"
    by (simp add: mw_types_def)
  then show thesis by (elim disjE) (erule that)+
qed

lemma wp_mw_Init:
  assumes "gmongo_ok E view" and "rand_ok E" and "mw_MwareType m \<in> set mw_types"
  shows "wp (mw_Init E m) (init_post E view m x) x"
  using assms(3)
  by (rule mw_types_cases)
    (simp_all add: mw_Init_def maria.Init [OF assms(1,2)] postgres.Init [OF assms(1,2)] rabbit.Init [OF assms(1,2)]
      mongo.Init [OF assms(1,2)] authjwt.Init [OF assms(1,2)] websocket.Init [OF assms(1,2)])

lemma reads_mw_Fini:
  assumes "gmongo_ok E view" and "mw_MwareType m \<in> set mw_types" and "mw_GetEnv E m \<noteq> None"
  shows "reads (gview_of view) (mw_Fini E m)"
  using assms(2)
  by (rule mw_types_cases)
    (use assms(3) in \<open>simp_all add: mw_Fini_def maria.Fini [OF assms(1)] postgres.Fini [OF assms(1)] rabbit.Fini [OF assms(1)]
      mongo.Fini [OF assms(1)] authjwt.Fini [OF assms(1)] websocket.Fini [OF assms(1)]\<close>)

section \<open>Adding is all or nothing\<close>

text \<open>While middleware is being made, its document is there and not ready; what a failure leaves is nothing, or a
  document that is not ready.\<close>

definition mw_making :: "('x \<Rightarrow> gview) \<Rightarrow> gview \<Rightarrow> oid \<Rightarrow> MwareDesc \<Rightarrow> 'x gst \<Rightarrow> bool" where
  "mw_making view V i m w \<longleftrightarrow> view (outer w) = gput DBColMware i (Some (GMw m)) V \<and> V DBColMware i = None \<and> gids_ok V
     \<and> mw_ObjID m = i \<and> mw_State m \<noteq> DBMwareStateRdy"

definition mw_left :: "gview \<Rightarrow> oid \<Rightarrow> gview \<Rightarrow> bool" where
  "mw_left V i V' \<longleftrightarrow> V' = V \<or> (\<exists>m. V' = gput DBColMware i (Some (GMw m)) V \<and> mw_State m \<noteq> DBMwareStateRdy)"

lemma gput_gput [simp]: "gput c i a (gput c i b V) = gput c i a V"
  by (simp add: gput_def)

lemma gput_None [simp]: "V c i = None \<Longrightarrow> gput c i None V = V"
  by (simp add: gput_def fun_upd_idem)

lemma mw_states [simp]: "DBMwareStateStl \<noteq> DBMwareStateRdy" "DBMwareStatePrp \<noteq> DBMwareStateRdy" "DBMwareStateTrm \<noteq> DBMwareStateRdy"
  by (simp_all add: DBMwareStateStl_def DBMwareStatePrp_def DBMwareStateTrm_def DBMwareStateRdy_def)

lemma mw_making_ids: "mw_making view V i m w \<Longrightarrow> gids_ok (view (outer w))"
  by (auto simp: mw_making_def intro!: gids_ok_put)

lemma mw_making_left: "mw_making view V i m w \<Longrightarrow> view (outer w') = view (outer w) \<Longrightarrow> mw_left V i (view (outer (w' :: 'x gst)))"
  by (auto simp: mw_making_def mw_left_def)

lemma mw_making_cong: "mw_making view V i m w \<Longrightarrow> view (outer w') = view (outer w) \<Longrightarrow> mw_making view V i m w'"
  by (simp add: mw_making_def)

lemma wp_mw_ToState:
  assumes "gmongo_ok E view" and "gids_ok (view (outer w))"
    and "\<And>m w'. view (outer w) DBColMware (mw_ObjID mw) = Some (GMw m) \<Longrightarrow> (from \<noteq> - 1 \<longrightarrow> mw_State m = from) \<Longrightarrow>
      view (outer w') = gput DBColMware (mw_ObjID mw) (Some (GMw (m\<lparr>mw_State := st\<rparr>))) (view (outer w)) \<Longrightarrow> Q (Ok (mw\<lparr>mw_State := st\<rparr>)) w'"
    and "\<And>e w'. view (outer w') = view (outer w) \<Longrightarrow> Q (Err e) w'"
  shows "wp (mw_ToState E ctx mw st from) Q w"
  unfolding mw_ToState_def wp_gbind wp_liftx
proof (rule wp_dbUpdatePart2 [OF assms(1,2), where k = "mw_ObjID mw"], goal_cases)
  case (2 d x')
  moreover from this obtain m where "d = GMw m" using doc_of_coll(1) [OF assms(2)] by fastforce
  ultimately show ?case using assms(3) by (simp add: wp_gret)
qed (use assms(4) in simp_all)

lemma wp_mw_stalled:
  assumes "gmongo_ok E view" and m: "mw_making view V i m w" and "mw_ObjID mwd = i"
    and "\<And>e w'. mw_left V i (view (outer w')) \<Longrightarrow> Q (Err e) w'"
  shows "wp (mw_stalled E ctx mwd err) Q w"
  unfolding mw_stalled_def wp_gseq
proof (rule wp_mw_ToState [OF assms(1) mw_making_ids [OF m]], goal_cases)
  case (1 m' w')
  then have "view (outer w') = gput DBColMware i (Some (GMw (m'\<lparr>mw_State := DBMwareStateStl\<rparr>))) V"
    using m assms(3) by (simp add: mw_making_def)
  then have "mw_left V i (view (outer w'))" unfolding mw_left_def by (intro disjI2 exI [of _ "m'\<lparr>mw_State := DBMwareStateStl\<rparr>"]) simp
  then show ?case using assms(4) by (simp add: wp_simps)
next
  case (2 e w')
  then show ?case using assms(4) mw_making_left [OF m] by (simp add: wp_simps)
qed

lemma wp_mw_outdb:
  assumes "gmongo_ok E view" and m: "mw_making view V i m w" and "mw_ObjID mwd = i"
    and "\<And>e w'. mw_left V i (view (outer w')) \<Longrightarrow> Q (Err e) w'"
  shows "wp (mw_outdb E ctx mwd err) Q w"
  unfolding mw_outdb_def wp_gtry wp_liftx
proof (rule wp_dbRemove [OF assms(1) mw_making_ids [OF m], where k = i], goal_cases)
  case (2 x')
  then have "view x' = V" using m by (simp add: mw_making_def)
  then show ?case using assms(4) by (simp add: wp_simps mw_left_def)
qed (use assms(3) in \<open>auto simp: on_any_def intro!: wp_mw_stalled [OF assms(1) mw_making_cong [OF m]] assms(4)\<close>)

lemma wp_mw_outh:
  assumes "gmongo_ok E view" and m: "mw_making view V i m w" and "mw_ObjID mwd = i"
    and "mw_MwareType mwd \<in> set mw_types" and "mw_GetEnv E mwd \<noteq> None"
    and "\<And>e w'. mw_left V i (view (outer w')) \<Longrightarrow> Q (Err e) w'"
  shows "wp (mw_outh E ctx mwd err) Q w"
  unfolding mw_outh_def unless_err_def wp_gbind
proof (rule wp_reads [OF reads_mw_Fini [OF assms(1,4,5)]], goal_cases)
  case (1 r w')
  then show ?case
    by (auto intro!: wp_mw_stalled [OF assms(1) mw_making_cong [OF m]] wp_mw_outdb [OF assms(1) mw_making_cong [OF m]] assms(3,6)
        split: option.splits)
qed (use mw_making_left [OF m] assms(6) in simp)

lemma wp_mw_outs:
  assumes "gmongo_ok E view" and m: "mw_making view V i m w" and "mw_ObjID mwd = i"
    and "mw_MwareType mwd \<in> set mw_types" and "mw_GetEnv E mwd \<noteq> None"
    and "\<And>e w'. mw_left V i (view (outer w')) \<Longrightarrow> Q (Err e) w'"
  shows "wp (mw_outs E ctx mwd err) Q w"
proof -
  have "reads view (k8sSecretRemove E s)" for s
    unfolding k8sSecretRemove_def by (auto intro!: reads_gbind reads_gout reads_gret gambient [OF assms(1)] split: k8s_reply.splits)
  then show ?thesis
    unfolding mw_outs_def wp_gtry wp_liftx
    by (rule wp_reads) (auto simp: on_any_def intro!: wp_mw_stalled [OF assms(1) mw_making_cong [OF m]]
        wp_mw_outh [OF assms(1) mw_making_cong [OF m] assms(3,4,5)] assms(3,6))
qed

text \<open>A nonce is a block.\<close>

definition nonce_ok :: "'x gate_env \<Rightarrow> bool" where
  "nonce_ok E \<longleftrightarrow> (\<forall>x n. fst (aes_nonce E x) = Some n \<longrightarrow> length n = BlockSize)"

text \<open>Middleware that is ready: its stored secret opens to the one that the cluster confirmed to hold for the pods.\<close>

definition mw_added :: "'x gate_env \<Rightarrow> cfb \<Rightarrow> string \<Rightarrow> gview \<Rightarrow> MwareDesc \<Rightarrow> gview \<Rightarrow> bool" where
  "mw_added E C pas V m V' \<longleftrightarrow> V DBColMware (mw_ObjID m) = None \<and> V' = gput DBColMware (mw_ObjID m) (Some (GMw m)) V \<and> mw_State m = DBMwareStateRdy
     \<and> (\<exists>plain se x n. EncryptString C n pas plain = Ok (mw_Secret m) \<and> DecryptString C pas (mw_Secret m) = Ok plain \<and> mwSecEnv E (m\<lparr>mw_Secret := plain\<rparr>) = Some se
          \<and> fst (k8s E (KSecretCreate (se_id se) (se_envs se)) x) = KOk)"

lemma mwSecEnv_State [simp]: "mwSecEnv E (m\<lparr>mw_State := st\<rparr>) = mwSecEnv E m"
  "mw_GetEnv E (m\<lparr>mw_State := st\<rparr>) = mw_GetEnv E m"
  by (simp_all add: mwSecEnv_def mw_GetEnv_def GetEnvMariaDB_def GetEnvPostgres_def GetEnvRabbitMQ_def GetEnvMongo_def GetEnvAuthJWT_def
      GetEnvWebSocket_def wsURL_def stdEnvs_def mw_envName_def Let_def)

lemma mw_GetEnv_Secret: "mw_GetEnv E (m\<lparr>mw_Secret := s\<rparr>) \<noteq> None \<longleftrightarrow> mw_GetEnv E m \<noteq> None"
  by (simp add: mw_GetEnv_def GetEnvMariaDB_def GetEnvPostgres_def GetEnvRabbitMQ_def GetEnvMongo_def GetEnvAuthJWT_def
      GetEnvWebSocket_def wsURL_def Let_def)

lemma wp_k8sSecretAdd:
  assumes "gmongo_ok E view"
    and "\<And>x'. view x' = view x \<Longrightarrow> fst (k8s E (KSecretCreate (se_id se) (se_envs se)) x) = KOk \<Longrightarrow> Q (Ok ()) x'"
    and "\<And>e x'. view x' = view x \<Longrightarrow> Q (Err e) x'"
  shows "wp (k8sSecretAdd E se) Q x"
  using assms(2,3) by (auto simp: k8sSecretAdd_def wp_simps gambient [OF assms(1)] split: k8s_reply.splits)

lemma same_mw_ready:
  "same_mw m0 m \<Longrightarrow> m0\<lparr>mw_Client := mw_Client m, mw_Secret := ct, mw_Namespace := mw_Namespace m, mw_State := st\<rparr> = m\<lparr>mw_Secret := ct, mw_State := st\<rparr>"
  by (cases m0; cases m) (simp add: same_mw_def)

lemma wp_mw_ready:
  assumes E: "gmongo_ok E view" and C: "cfb_ok C" "nonce_ok E" and m0: "mw_making view V i m0 w" and m: "same_mw m0 m"
    and t: "mw_MwareType m \<in> set mw_types" "mw_GetEnv E m \<noteq> None"
    and ok: "\<And>m' w'. mw_ObjID m' = i \<Longrightarrow> mw_added E C pas V m' (view (outer w')) \<Longrightarrow> Q (Ok m') w'"
    and er: "\<And>e w'. mw_left V i (view (outer w')) \<Longrightarrow> Q (Err e) w'"
  shows "wp (mw_ready E C pas ctx m) Q w"
proof -
  have i: "mw_ObjID m = i" using m m0 same_mwD(1) by (auto simp: mw_making_def)
  obtain se where se: "mwSecEnv E m = Some se" using t(2) by (auto simp: mwSecEnv_def)
  have outs: "wp (mw_outs E ctx (m\<lparr>mw_Secret := s\<rparr>) err) Q w1" if "view (outer w1) = view (outer w)" for s err w1
    by (rule wp_mw_outs [OF E mw_making_cong [OF m0 that]]) (use i t er mw_GetEnv_Secret [where E = E and m = m and s = s] in simp_all)
  have outs2: "wp (mw_outs E ctx (m\<lparr>mw_Secret := s, mw_State := st\<rparr>) err) Q w1" if "view (outer w1) = view (outer w)" for s st err w1
    by (rule wp_mw_outs [OF E mw_making_cong [OF m0 that]]) (use i t er mw_GetEnv_Secret [where E = E and m = m and s = s] in simp_all)
  have upd: "wp (dbUpdatePart E ctx (GMw (m\<lparr>mw_Secret := ct, mw_State := DBMwareStateRdy\<rparr>)) (upd_Mw (\<lambda>d. d\<lparr>mw_Client := mw_Client m,
        mw_Secret := ct, mw_Namespace := mw_Namespace m, mw_State := DBMwareStateRdy\<rparr>)))
      (\<lambda>r x. on_any (\<lambda>r. wp (case r of Inl _ \<Rightarrow> mw_outs E ctx (m\<lparr>mw_Secret := ct, mw_State := DBMwareStateRdy\<rparr>) ''DB error''
         | Inr _ \<Rightarrow> gret (m\<lparr>mw_Secret := ct, mw_State := DBMwareStateRdy\<rparr>)) Q) Q r (w1\<lparr>outer := x\<rparr>)) x1"
    if v: "view x1 = view (outer w)" and ct: "DecryptString C pas ct = Ok (mw_Secret m)" "\<exists>n. EncryptString C n pas (mw_Secret m) = Ok ct"
      and k: "\<exists>x. fst (k8s E (KSecretCreate (se_id se) (se_envs se)) x) = KOk" for ct w1 x1
    unfolding dbUpdatePart_2
  proof (rule wp_dbUpdatePart2 [OF E, where k = i], goal_cases)
    case 1
    then show ?case using mw_making_ids [OF m0] v by simp
  next
    case (3 d x')
    then have "d = GMw m0" "view x' = gput DBColMware i (Some (GMw (m\<lparr>mw_Secret := ct, mw_State := DBMwareStateRdy\<rparr>))) V"
      using m0 v same_mw_ready [OF m] by (auto simp: mw_making_def)
    then have "mw_added E C pas V (m\<lparr>mw_Secret := ct, mw_State := DBMwareStateRdy\<rparr>) (view (outer (w1\<lparr>outer := x'\<rparr>)))"
      using m0 i ct k se by (auto simp: mw_added_def mw_making_def)
    then show ?case using ok i by (simp add: wp_simps)
  qed (use i v outs2 in \<open>simp_all add: on_any_def\<close>)
  have enc: "DecryptString C pas ct = Ok (mw_Secret m)" if "EncryptString C (fst (aes_nonce E x)) pas (mw_Secret m) = Ok ct" for ct x
  proof (cases "fst (aes_nonce E x)")
    case (Some n)
    then have "length n = BlockSize" using C(2) unfolding nonce_ok_def by blast
    then show ?thesis by (rule EncryptString_opens [OF C(1)]) (use that Some in simp)
  qed (use that in \<open>simp add: EncryptString_def\<close>)
  have np: "EncryptString C n pas s \<noteq> Panic" for n s by (auto simp: EncryptString_def Let_def split: option.splits)
  show ?thesis unfolding mw_ready_def se deref_def option.case gbind_gret wp_gtry wp_liftx
  proof (rule wp_k8sSecretAdd [OF E], goal_cases)
    case (1 x')
    then have k: "\<exists>x. fst (k8s E (KSecretCreate (se_id se) (se_envs se)) x) = KOk" by blast
    have v: "view (snd (aes_nonce E x')) = view (outer w)" using 1(1) by (simp add: gambient [OF E])
    show ?case
    proof (cases "EncryptString C (fst (aes_nonce E x')) pas (mw_Secret m)")
      case (Ok ct)
      then have "\<exists>n. EncryptString C n pas (mw_Secret m) = Ok ct" by blast
      from upd [OF v enc [OF Ok] this k, of w] show ?thesis using Ok by (simp add: wp_gbind wp_liftx wp_gout wp_gtry Let_def)
    next
      case (Err e)
      then show ?thesis using outs [of "w\<lparr>outer := snd (aes_nonce E x')\<rparr>"] v by (simp add: wp_gbind wp_liftx wp_gout)
    qed (use np in simp)
  next
    case (2 e x')
    then show ?case by (auto intro!: wp_mw_outh [OF E mw_making_cong [OF m0] i t] er)
  qed
qed

lemma reads_checkMwCount: "gmongo_ok E view \<Longrightarrow> reads (gview_of view) (checkMwCount E ctx t)"
proof -
  assume E: "gmongo_ok E view"
  have "reads (gview_of view) (tendatGet E ctx)"
    unfolding tendatGet_def by (rule reads_wp) (rule wp_tendatGetOrInit [OF E], simp_all)
  moreover have "reads view (dbMwareCountTen E ctx t)"
    unfolding dbMwareCountTen_def by (rule reads_wp) (rule wp_dbCount [OF E], simp_all)
  ultimately show ?thesis unfolding checkMwCount_def
    by (auto intro!: reads_gbind reads_liftx reads_gret split: option.split)
qed


lemma mw_added_sane:
  assumes "mw_added E C pas V m V'" and "mware_sane E V"
  shows "mware_sane E V'"
proof -
  obtain plain se where "mwSecEnv E (m\<lparr>mw_Secret := plain\<rparr>) = Some se" using assms(1) unfolding mw_added_def by blast
  then have "mw_GetEnv E (m\<lparr>mw_Secret := plain\<rparr>) \<noteq> None" by (auto simp: mwSecEnv_def)
  then have "mw_GetEnv E m \<noteq> None" by (simp only: mw_GetEnv_Secret not_False_eq_True)
  then show ?thesis using assms by (auto simp: mw_added_def mware_sane_def gput_def)
qed

lemma mw_left_sane: "mw_left V i V' \<Longrightarrow> mware_sane E V \<Longrightarrow> mware_sane E V'"
  unfolding mw_left_def mware_sane_def by (auto simp: gput_def split: if_splits)

section \<open>The token of a websocket\<close>

lemma wp_ws_answer:
  "wp (gtry f (\<lambda>r. case r of Inl e \<Rightarrow> gret (400, Some e) | Inr _ \<Rightarrow> gret (200, None)))
     (\<lambda>r w'. \<forall>code. (\<exists>e. r = Ok (code, e)) \<longrightarrow> code \<noteq> (401 :: int)) v"
  unfolding wp_gtry by (rule wpI) (auto simp: on_any_def wp_simps split: res.splits)

text \<open>
  C38. A function that uses the token its pods are given (the secret in clear) is never let through to the clients of
  its websocket: the gate compares the token with the encrypted secret of the document, which is longer. Only who
  presents the ciphertext from the database passes.
\<close>

theorem ws_token_refused:
  assumes "gmongo_ok E view" and "gids_ok (view (outer w))" and "cfb_ok C" and "EncryptString C n pas tok = Ok (mw_Secret m)"
    and "\<forall>k d. view (outer w) DBColMware k = Some d \<and> where_field ''cookie'' (mw_Cookie m) d \<longrightarrow> d = GMw m"
    and "handleWebSocketsMw E (mw_Cookie m) t path body w = (Ok (code, e), w')"
  shows "(t = tok \<longrightarrow> code \<in> {401, 404} \<and> wsConns w' = wsConns w) \<and> (t = mw_Secret m \<longrightarrow> code \<noteq> 401)"
proof -
  have ne: "tok \<noteq> mw_Secret m" using EncryptString_longer [OF assms(3,4)] by auto
  have "wp (handleWebSocketsMw E (mw_Cookie m) t path body) (\<lambda>r w'. \<forall>code e. r = Ok (code, e) \<longrightarrow>
      (t = tok \<longrightarrow> code \<in> {401, 404} \<and> wsConns w' = wsConns w) \<and> (t = mw_Secret m \<longrightarrow> code \<noteq> 401)) w"
    unfolding handleWebSocketsMw_def wp_gtry wp_liftx
  proof (rule wp_dbFind [OF assms(1)], goal_cases)
    case (1 k d x')
    then have d: "d = GMw m" using assms(5) by (auto simp: ready_ws_def)
    show ?case
    proof (cases "t = mw_Secret m")
      case True
      then show ?thesis using d ne by (simp add: Let_def wp_ws_answer)
    qed (use d in \<open>simp add: Let_def wp_simps\<close>)
  qed (simp_all add: wp_simps)
  then show ?thesis using assms(6) by (auto simp: wp_def)
qed

section \<open>Witnesses\<close>

definition demo_mwd :: MwareDesc where
  "demo_mwd = \<lparr>mw_ObjID = [], mw_SwoId = \<lparr>Tennant = ''t'', Project = ''p'', Name = ''m''\<rparr>, mw_Labels = [], mw_Cookie = ''m'', mw_MwareType = ''authjwt'',
     mw_Client = [], mw_Secret = [], mw_Namespace = [], mw_State = DBMwareStatePrp, mw_UserData = [], mw_HDat = []\<rparr>"

definition mw_gst :: "gmem gst" where
  "mw_gst = empty_gst (gmem_of [])"

lemma gmem_rand: "rand_ok gmem_env"
  by (simp add: rand_ok_def gmem_env_def)

lemma gmem_nonce: "nonce_ok gmem_env"
  by (simp add: nonce_ok_def gmem_env_def BlockSize_def)

lemma no_cfb_ok: "cfb_ok no_cfb"
  by (simp add: cfb_ok_def no_cfb_def)

lemma demo_mw_runs: "run_ok (mw_Add gmem_env no_cfb [] mkContext demo_mwd) mw_gst"
  by code_simp


definition ws_mwd :: MwareDesc where
  "ws_mwd = demo_mwd\<lparr>mw_ObjID := ''1'', mw_MwareType := ''websocket'', mw_State := DBMwareStateRdy,
     mw_Secret := hex_EncodeToString (replicate 16 (CHR ''n'') @ aesPad ''token'')\<rparr>"

definition ws_gst :: "gmem gst" where
  "ws_gst = empty_gst (gmem_of [GMw ws_mwd])"

lemma ws_runs: "run_ok (handleWebSocketsMw gmem_env ''m'' ''token'' ''/websockets/m/conns'' (Inr \<lparr>wr_MType = 1, wr_Msg = ''hi''\<rparr>)) ws_gst"
  by code_simp

lemma ws_docs: "gm_keys (outer ws_gst) = [(DBColMware, ''1'')]" "gm_docs (outer ws_gst) (DBColMware, ''1'') = Some (GMw ws_mwd)"
  by code_simp+

theorem ws_token_refused_witness:
  "\<exists>code e. fst (handleWebSocketsMw gmem_env ''m'' ''token'' ''/websockets/m/conns'' (Inr \<lparr>wr_MType = 1, wr_Msg = ''hi''\<rparr>) ws_gst) = Ok (code, e)
     \<and> code \<in> {401, 404}"
proof -
  obtain a w' where "handleWebSocketsMw gmem_env ''m'' ''token'' ''/websockets/m/conns'' (Inr \<lparr>wr_MType = 1, wr_Msg = ''hi''\<rparr>) ws_gst = (Ok a, w')"
    using run_okE [OF ws_runs] .
  moreover obtain code e where "a = (code, e)" by fastforce
  ultimately have run: "handleWebSocketsMw gmem_env (mw_Cookie ws_mwd) ''token'' ''/websockets/m/conns'' (Inr \<lparr>wr_MType = 1, wr_Msg = ''hi''\<rparr>) ws_gst
      = (Ok (code, e), w')" by (simp add: ws_mwd_def demo_mwd_def)
  have ids: "gids_ok (gmview (outer ws_gst))" by (simp add: ws_gst_def empty_gst_def gids_ok_gmem_of)
  have enc: "EncryptString no_cfb (Some (replicate 16 (CHR ''n''))) [] ''token'' = Ok (mw_Secret ws_mwd)"
    by (simp add: EncryptString_def no_cfb_def ws_mwd_def)
  have one: "\<forall>k d. gmview (outer ws_gst) DBColMware k = Some d \<and> where_field ''cookie'' (mw_Cookie ws_mwd) d \<longrightarrow> d = GMw ws_mwd"
    using ws_docs by (simp add: gmview_def)
  show ?thesis using ws_token_refused [OF gmem_env_ok ids no_cfb_ok enc one run] run by (simp add: ws_mwd_def demo_mwd_def)
qed

end
