(* ===== verification/Gate_Accounts.thy ===== *)
theory Gate_Accounts
  imports Gate_Mware
begin

text \<open>
  Accounts of other services: \<open>src/gate/accounts.go\<close>. The fields of an account are split into values and secrets by
  name; secrets are kept encrypted, and shown to users cut to a few characters. Asking GitHub for the name that belongs
  to a token is a parameter. The theorem follows a secret from the request to what is stored, shown and given to pods.
\<close>

section \<open>Descriptors\<close>

definition mkSecret :: "'x gate_env \<Rightarrow> cfb \<Rightarrow> string \<Rightarrow> string \<Rightarrow> string \<Rightarrow> ('x, string, string) go" where
  "mkSecret E C pas k v =
     (if v \<noteq> [] then
        if length v < 10 then gerr (''Invalid secret value for '' @ k)
        else gbind (gout (aes_nonce E)) (\<lambda>nonce. case EncryptString C nonce pas v of
          Ok ct \<Rightarrow> gret ct | Err _ \<Rightarrow> gerr ''Encrypt error'' | Panic \<Rightarrow> gpanic)
      else gret v)"

definition fill_field :: "'x gate_env \<Rightarrow> cfb \<Rightarrow> string \<Rightarrow> string \<times> string \<Rightarrow> AccDesc \<Rightarrow> ('x, ReqErr, AccDesc) go" where
  "fill_field E C pas = (\<lambda>(k, v) ad.
     if k = ''id'' \<or> k = ''name'' \<or> k = ''type'' then gret ad
     else if k \<in> set (secretFields E) then
       gtry (mkSecret E C pas k v) (\<lambda>r. case r of
         Inl e \<Rightarrow> gerr (GateErrE GateGenErr e) | Inr ct \<Rightarrow> gret (ad\<lparr>acc_Secrets := AList.update k ct (acc_Secrets ad)\<rparr>))
     else gret (ad\<lparr>acc_Values := AList.update k v (acc_Values ad)\<rparr>))"

definition acc_fill :: "'x gate_env \<Rightarrow> cfb \<Rightarrow> string \<Rightarrow> (string \<times> string) list \<Rightarrow> AccDesc \<Rightarrow> ('x, ReqErr, AccDesc) go" where
  "acc_fill E C pas vals = gfold (fill_field E C pas) vals"

definition githubResolveName :: "'x gate_env \<Rightarrow> string \<Rightarrow> ('x, string, string) go" where
  "githubResolveName E token = gbind (gout (github_user E token)) (\<lambda>r. case r of Inl e \<Rightarrow> gerr e | Inr login \<Rightarrow> gret login)"

definition setupGithubAcc :: "'x gate_env \<Rightarrow> cfb \<Rightarrow> string \<Rightarrow> AccDesc \<Rightarrow> ('x, ReqErr, AccDesc) go" where
  "setupGithubAcc E C pas ad =
     (if Name (acc_SwoId ad) = [] then
        (case map_of (acc_Secrets ad) ''token'' of
           None \<Rightarrow> gerr (GateErrM GateBadRequest ''Need either name or token'')
         | Some tok \<Rightarrow> if tok = [] then gerr (GateErrM GateBadRequest ''Need either name or token'')
             else (case secret_value C pas tok of
               Panic \<Rightarrow> gpanic
             | Err _ \<Rightarrow> gerr (GateErrE GateGenErr ''Decrypt error'')
             | Ok v \<Rightarrow> gtry (githubResolveName E v) (\<lambda>r. case r of
                 Inl e \<Rightarrow> gerr (GateErrE GateGenErr e)
               | Inr n \<Rightarrow> gret (ad\<lparr>acc_SwoId := (acc_SwoId ad)\<lparr>Name := n\<rparr>\<rparr>))))
      else gret ad)"

definition param :: "(string \<times> string) list \<Rightarrow> string \<Rightarrow> string" where
  "param params k = (case map_of params k of None \<Rightarrow> [] | Some v \<Rightarrow> v)"

definition getAccDesc :: "'x gate_env \<Rightarrow> cfb \<Rightarrow> string \<Rightarrow> SwoId \<Rightarrow> (string \<times> string) list \<Rightarrow> ('x, ReqErr, AccDesc) go" where
  "getAccDesc E C pas i params =
     gbind (acc_fill E C pas params \<lparr>acc_ObjID = [], acc_SwoId = i, acc_Cookie = [], acc_Type = param params ''type'', acc_Values = [], acc_Secrets = []\<rparr>)
       (\<lambda>ad. if acc_Type ad = ''github'' then setupGithubAcc E C pas ad else gret ad)"

definition Accounts_Create :: "'x gate_env \<Rightarrow> cfb \<Rightarrow> string \<Rightarrow> gateContext \<Rightarrow> (string \<times> string) list \<Rightarrow> ('x, ReqErr, AccDesc) go" where
  "Accounts_Create E C pas ctx params = (case map_of params ''type'' of
     None \<Rightarrow> gerr (GateErrM GateBadRequest ''No type'')
   | Some _ \<Rightarrow> getAccDesc E C pas (makeSwoId (gx_Tenant ctx) NoProject (param params ''name'')) params)"

definition acc_ID :: "AccDesc \<Rightarrow> string" where
  "acc_ID ad = acc_Type ad @ '':'' @ Name (acc_SwoId ad)"

text \<open>What is shown. \<open>None\<close> is a panic: of the decryption, or of cutting at a negative length.\<close>

definition shown_secret :: "int \<Rightarrow> string \<Rightarrow> string option" where
  "shown_secret trim v = (if int (length v) > trim then (if trim < 0 then None else Some (take (nat trim) v @ ''...'')) else Some ''...'')"

fun info_secrets :: "int \<Rightarrow> decryption \<Rightarrow> (string \<times> string) list \<Rightarrow> (string \<times> string) list \<Rightarrow> (string \<times> string) list option" where
  "info_secrets trim val [] ai = Some ai"
| "info_secrets trim val ((k, sv) # rest) ai = (case val sv of
     Panic \<Rightarrow> None
   | Err _ \<Rightarrow> info_secrets trim val rest (AList.update k ''<BROKEN>'' ai)
   | Ok v \<Rightarrow> (case shown_secret trim v of None \<Rightarrow> None | Some s \<Rightarrow> info_secrets trim val rest (AList.update k s ai)))"

definition acc_toInfo :: "'x gate_env \<Rightarrow> cfb \<Rightarrow> string \<Rightarrow> AccDesc \<Rightarrow> (string \<times> string) list option" where
  "acc_toInfo E C pas ad =
     info_secrets (secretTrim E) (secret_value C pas) (acc_Secrets ad)
       (fold (\<lambda>(k, v). AList.update k v) (acc_Values ad) [(''id'', acc_ObjID ad), (''type'', acc_Type ad), (''name'', Name (acc_SwoId ad))])"

section \<open>Operations\<close>

definition acc_Add :: "'x gate_env \<Rightarrow> cfb \<Rightarrow> string \<Rightarrow> gateContext \<Rightarrow> AccDesc \<Rightarrow> ('x gst, ReqErr, AccDesc) go" where
  "acc_Add E C pas ctx ad =
     gbind (liftx (gout (gnewid E))) (\<lambda>i.
     let ad = ad\<lparr>acc_ObjID := i, acc_Cookie := Cookie2 (Cookify E) (acc_Type ad) (acc_SwoId ad)\<rparr> in
     gtry (liftx (dbInsert E ctx (GAcc ad))) (\<lambda>r. case r of
       Inl e \<Rightarrow> gerr (GateErrD e)
     | Inr _ \<Rightarrow> gbind (deref (acc_getEnv (Some (secret_value C pas)) ad)) (\<lambda>se.
         gtry (liftx (k8sSecretAdd E se)) (\<lambda>r. case r of
           Inl e \<Rightarrow> gseq (liftx (dbRemove E ctx (GAcc ad))) (gerr (GateErrE GateGenErr e))
         | Inr _ \<Rightarrow> gret ad))))"

definition acc_Update :: "'x gate_env \<Rightarrow> cfb \<Rightarrow> string \<Rightarrow> gateContext \<Rightarrow> (string \<times> string) list \<Rightarrow> AccDesc \<Rightarrow> ('x gst, ReqErr, AccDesc) go" where
  "acc_Update E C pas ctx upd ad =
     gbind (liftx (acc_fill E C pas upd ad)) (\<lambda>ad.
     gbind (deref (acc_getEnv (Some (secret_value C pas)) ad)) (\<lambda>se.
     gtry (liftx (k8sSecretMod E se)) (\<lambda>r. case r of
       Inl e \<Rightarrow> gerr (GateErrE GateGenErr e)
     | Inr _ \<Rightarrow> gtry (liftx (dbUpdateAll E ctx (GAcc ad))) (\<lambda>r. case r of Inl e \<Rightarrow> gerr (GateErrD e) | Inr _ \<Rightarrow> gret ad))))"

definition acc_Del :: "'x gate_env \<Rightarrow> gateContext \<Rightarrow> AccDesc \<Rightarrow> ('x gst, ReqErr, unit) go" where
  "acc_Del E ctx ad =
     gtry (liftx (k8sSecretRemove E (''acc-'' @ acc_Cookie ad))) (\<lambda>r. case r of
       Inl e \<Rightarrow> gerr (GateErrE GateGenErr e)
     | Inr _ \<Rightarrow> gtry (liftx (dbRemove E ctx (GAcc ad))) (\<lambda>r. case r of Inl e \<Rightarrow> gerr (GateErrD e) | Inr _ \<Rightarrow> gret ()))"

section \<open>Secrets stay sealed\<close>

text \<open>What the fields of a request have become in an account. \<open>special\<close> are the fields of the descriptor itself.\<close>

definition special :: "string \<Rightarrow> bool" where
  "special k \<longleftrightarrow> k = ''id'' \<or> k = ''name'' \<or> k = ''type''"

definition sealed :: "'x gate_env \<Rightarrow> cfb \<Rightarrow> string \<Rightarrow> AccDesc \<Rightarrow> string \<Rightarrow> string \<Rightarrow> bool" where
  "sealed E C pas ad k v \<longleftrightarrow> (if k \<in> set (secretFields E)
     then (\<exists>ct. map_of (acc_Secrets ad) k = Some ct \<and> secret_value C pas ct = Ok v \<and> (ct = [] \<longleftrightarrow> v = []) \<and> (v = [] \<or> 10 \<le> length v)) \<and> map_of (acc_Values ad) k = None
     else map_of (acc_Values ad) k = Some v \<and> map_of (acc_Secrets ad) k = None)"

definition acc_wf :: "'x gate_env \<Rightarrow> cfb \<Rightarrow> string \<Rightarrow> AccDesc \<Rightarrow> bool" where
  "acc_wf E C pas ad \<longleftrightarrow> distinct (map fst (acc_Secrets ad)) \<and> distinct (map fst (acc_Values ad))
     \<and> (\<forall>k ct. map_of (acc_Secrets ad) k = Some ct \<longrightarrow> k \<in> set (secretFields E) \<and> (\<exists>v. secret_value C pas ct = Ok v))
     \<and> (\<forall>k v. map_of (acc_Values ad) k = Some v \<longrightarrow> k \<notin> set (secretFields E))"

lemma EncryptString_nonempty: "cfb_ok C \<Longrightarrow> EncryptString C n pas v = Ok ct \<Longrightarrow> ct \<noteq> []"
  using EncryptString_longer [of C n pas v ct] by auto

lemma wp_mkSecret:
  assumes "cfb_ok C" and "nonce_ok E"
    and "\<And>ct x'. secret_value C pas ct = Ok v \<Longrightarrow> (ct = [] \<longleftrightarrow> v = []) \<Longrightarrow> v = [] \<or> 10 \<le> length v \<Longrightarrow> Q (Ok ct) x'"
    and "\<And>e x'. Q (Err e) x'"
  shows "wp (mkSecret E C pas k v) Q x"
proof (cases "EncryptString C (fst (aes_nonce E x)) pas v")
  case (Ok ct)
  then obtain n where n: "fst (aes_nonce E x) = Some n" by (cases "fst (aes_nonce E x)") (auto simp: EncryptString_def)
  then have "length n = BlockSize" using assms(2) unfolding nonce_ok_def by blast
  then have "DecryptString C pas ct = Ok v" by (rule EncryptString_opens [OF assms(1)]) (use Ok n in simp)
  then show ?thesis
    using Ok assms(3) [of ct] assms(3) [of "[]"] assms(4) EncryptString_nonempty [OF assms(1) Ok]
    by (auto simp: mkSecret_def wp_simps secret_value_def)
next
  case Panic
  then show ?thesis by (auto simp: EncryptString_def Let_def split: option.splits if_splits)
qed (use assms(3) [of "[]"] assms(4) in \<open>auto simp: mkSecret_def wp_simps secret_value_def\<close>)

lemma acc_wf_secret:
  assumes "acc_wf E C pas ad" and "k \<in> set (secretFields E)" and "secret_value C pas ct = Ok v"
  shows "acc_wf E C pas (ad\<lparr>acc_Secrets := AList.update k ct (acc_Secrets ad)\<rparr>)"
  using assms by (auto simp: acc_wf_def update_conv' distinct_update)

lemma acc_wf_value:
  assumes "acc_wf E C pas ad" and "k \<notin> set (secretFields E)"
  shows "acc_wf E C pas (ad\<lparr>acc_Values := AList.update k v (acc_Values ad)\<rparr>)"
  using assms by (auto simp: acc_wf_def update_conv' distinct_update)

text \<open>One field: the account stays well-formed, the field is sealed, and fields of other names are as they were.\<close>

definition others_sealed :: "'x gate_env \<Rightarrow> cfb \<Rightarrow> string \<Rightarrow> string \<Rightarrow> AccDesc \<Rightarrow> AccDesc \<Rightarrow> bool" where
  "others_sealed E C pas k ad ad' \<longleftrightarrow> acc_SwoId ad' = acc_SwoId ad \<and> acc_Type ad' = acc_Type ad
     \<and> (\<forall>k' v. k' \<noteq> k \<longrightarrow> sealed E C pas ad k' v \<longrightarrow> sealed E C pas ad' k' v)"

lemma sealed_secret:
  assumes "acc_wf E C pas ad" and "k \<in> set (secretFields E)" and "secret_value C pas ct = Ok v" and "ct = [] \<longleftrightarrow> v = []" and "v = [] \<or> 10 \<le> length v"
  shows "sealed E C pas (ad\<lparr>acc_Secrets := AList.update k ct (acc_Secrets ad)\<rparr>) k v"
proof -
  have "map_of (acc_Values ad) k = None" using assms(1,2) unfolding acc_wf_def by (metis not_None_eq)
  then show ?thesis using assms(2-) by (simp add: sealed_def update_conv')
qed

lemma sealed_value:
  assumes "acc_wf E C pas ad" and "k \<notin> set (secretFields E)"
  shows "sealed E C pas (ad\<lparr>acc_Values := AList.update k v (acc_Values ad)\<rparr>) k v"
proof -
  have "map_of (acc_Secrets ad) k = None" using assms unfolding acc_wf_def by (metis not_None_eq)
  then show ?thesis using assms(2) by (simp add: sealed_def update_conv')
qed

lemma others_sealed_upd:
  "others_sealed E C pas k ad (ad\<lparr>acc_Secrets := AList.update k ct (acc_Secrets ad)\<rparr>)"
  "others_sealed E C pas k ad (ad\<lparr>acc_Values := AList.update k v (acc_Values ad)\<rparr>)"
  by (auto simp: others_sealed_def sealed_def update_conv')

lemma wp_fill_field:
  assumes "cfb_ok C" and "nonce_ok E" and wf: "acc_wf E C pas ad"
    and ok: "\<And>ad' x'. acc_wf E C pas ad' \<Longrightarrow> others_sealed E C pas k ad ad' \<Longrightarrow> \<not> special k \<longrightarrow> sealed E C pas ad' k v \<Longrightarrow> Q (Ok ad') x'"
    and "\<And>e x'. Q (Err e) x'"
  shows "wp (fill_field E C pas (k, v) ad) Q x"
proof (cases "special k")
  case True
  then show ?thesis using ok [OF wf] by (simp add: fill_field_def special_def wp_gret others_sealed_def)
next
  case False
  then have sp: "\<not> (k = ''id'' \<or> k = ''name'' \<or> k = ''type'')" by (simp add: special_def)
  show ?thesis
  proof (cases "k \<in> set (secretFields E)")
    case True
    show ?thesis unfolding fill_field_def prod.case if_not_P [OF sp] if_P [OF True] wp_gtry
      by (rule wp_mkSecret [OF assms(1,2)])
        (use assms(5) acc_wf_secret [OF wf True] sealed_secret [OF wf True] others_sealed_upd(1) in \<open>auto simp: wp_simps intro!: ok\<close>)
  next
    case k: False
    show ?thesis unfolding fill_field_def prod.case if_not_P [OF sp] if_not_P [OF k] wp_gret
      by (rule ok [OF acc_wf_value [OF wf k] others_sealed_upd(2)]) (simp add: sealed_value [OF wf k])
  qed
qed

lemma wp_acc_fill:
  assumes "cfb_ok C" and "nonce_ok E" and "acc_wf E C pas ad" and "distinct (map fst vals)"
    and ok: "\<And>ad' x'. acc_wf E C pas ad' \<Longrightarrow> acc_SwoId ad' = acc_SwoId ad \<Longrightarrow> acc_Type ad' = acc_Type ad \<Longrightarrow>
      (\<And>k v. (k, v) \<in> set vals \<Longrightarrow> \<not> special k \<Longrightarrow> sealed E C pas ad' k v) \<Longrightarrow>
      (\<And>k v. k \<notin> fst ` set vals \<Longrightarrow> sealed E C pas ad k v \<Longrightarrow> sealed E C pas ad' k v) \<Longrightarrow> Q (Ok ad') x'"
    and er: "\<And>e x'. Q (Err e) x'"
  shows "wp (acc_fill E C pas vals ad) Q x"
  using assms(3,4) ok
proof (induction vals arbitrary: ad x)
  case Nil
  then show ?case by (simp add: acc_fill_def wp_gret)
next
  case (Cons kv vals)
  obtain k v where kv: "kv = (k, v)" by fastforce
  have "wp (fill_field E C pas (k, v) ad) (on_ok (\<lambda>ad'. wp (acc_fill E C pas vals ad') Q) Q) x"
  proof (rule wp_fill_field [OF assms(1,2) Cons.prems(1)], goal_cases)
    case (1 ad' x')
    have "wp (acc_fill E C pas vals ad') Q x'"
    proof (rule Cons.IH [OF 1(1)])
      fix ad2 x2
      assume a: "acc_wf E C pas ad2" "acc_SwoId ad2 = acc_SwoId ad'" "acc_Type ad2 = acc_Type ad'"
        "\<And>k v. (k, v) \<in> set vals \<Longrightarrow> \<not> special k \<Longrightarrow> sealed E C pas ad2 k v"
        "\<And>k v. k \<notin> fst ` set vals \<Longrightarrow> sealed E C pas ad' k v \<Longrightarrow> sealed E C pas ad2 k v"
      have new: "k \<notin> fst ` set vals" using Cons.prems(2) kv by simp
      show "Q (Ok ad2) x2"
      proof (rule Cons.prems(3) [OF a(1)])
        fix k' v' assume "(k', v') \<in> set (kv # vals)" "\<not> special k'"
        then show "sealed E C pas ad2 k' v'" using a(4,5) new 1(3) kv by auto
      next
        fix k' v' assume "k' \<notin> fst ` set (kv # vals)" "sealed E C pas ad k' v'"
        then show "sealed E C pas ad2 k' v'" using a(5) 1(2) kv by (auto simp: others_sealed_def)
      qed (use a(2,3) 1(2) in \<open>simp_all add: others_sealed_def\<close>)
    qed (use Cons.prems(2) in simp)
    then show ?case by simp
  qed (use er in simp)
  then show ?case by (simp add: acc_fill_def kv wp_gbind)
qed

text \<open>What is shown of a well-formed account: each secret cut short, every other field as it is.\<close>

definition trimmed :: "int \<Rightarrow> string \<Rightarrow> string" where
  "trimmed trim v = (if trim < int (length v) then take (nat trim) v @ ''...'' else ''...'')"

lemma shown_trimmed: "0 \<le> trim \<Longrightarrow> shown_secret trim v = Some (trimmed trim v)"
  by (simp add: shown_secret_def trimmed_def)

lemma info_secrets_shows:
  assumes "0 \<le> trim" and "\<And>ct. ct \<in> snd ` set ss \<Longrightarrow> \<exists>v. val ct = Ok v" and "distinct (map fst ss)"
  shows "\<exists>info. info_secrets trim val ss ai = Some info
    \<and> (\<forall>k. map_of info k = (case map_of ss k of None \<Rightarrow> map_of ai k | Some ct \<Rightarrow> Some (trimmed trim (THE v. val ct = Ok v))))"
  using assms(2,3)
proof (induction ss arbitrary: ai)
  case (Cons kc ss)
  obtain k ct where kc: "kc = (k, ct)" by fastforce
  obtain v where v: "val ct = Ok v" using Cons.prems(1) [of ct] kc by auto
  obtain info where i: "info_secrets trim val ss (AList.update k (trimmed trim v) ai) = Some info"
    and m: "\<And>k'. map_of info k' = (case map_of ss k' of None \<Rightarrow> map_of (AList.update k (trimmed trim v) ai) k'
      | Some ct \<Rightarrow> Some (trimmed trim (THE v. val ct = Ok v)))"
    using Cons.IH [of "AList.update k (trimmed trim v) ai"] Cons.prems by auto
  have "map_of ss k = None" using Cons.prems(2) kc by (simp add: map_of_eq_None_iff)
  then show ?case
    using i m by (auto simp: kc v shown_trimmed [OF assms(1)] update_conv' split: option.split)
qed simp

lemma map_of_fold_update:
  "distinct (map fst vs) \<Longrightarrow> map_of (fold (\<lambda>(k, v). AList.update k v) vs ai) k = (case map_of vs k of None \<Rightarrow> map_of ai k | Some v \<Rightarrow> Some v)"
proof (induction vs arbitrary: ai)
  case (Cons kv vs)
  obtain a b where kv: "kv = (a, b)" by fastforce
  have "map_of vs a = None" using Cons.prems kv by (simp add: map_of_eq_None_iff)
  then show ?case using Cons.IH [of "AList.update a b ai"] Cons.prems by (auto simp: kv update_conv' split: option.split)
qed simp

lemma acc_toInfo_shows:
  assumes wf: "acc_wf E C pas ad" and "0 \<le> secretTrim E" and s: "sealed E C pas ad k v"
  shows "\<exists>info. acc_toInfo E C pas ad = Some info
    \<and> map_of info k = Some (if k \<in> set (secretFields E) then trimmed (secretTrim E) v else v)"
proof -
  define ai0 where "ai0 = [(''id'', acc_ObjID ad), (''type'', acc_Type ad), (''name'', Name (acc_SwoId ad))]"
  define ai where "ai = fold (\<lambda>(k, v). AList.update k v) (acc_Values ad) ai0"
  have d: "distinct (map fst (acc_Secrets ad))" "distinct (map fst (acc_Values ad))" using wf by (simp_all add: acc_wf_def)
  have ok: "\<exists>v. secret_value C pas ct = Ok v" if ct: "ct \<in> snd ` set (acc_Secrets ad)" for ct
  proof -
    obtain k where "(k, ct) \<in> set (acc_Secrets ad)" using ct by auto
    then show ?thesis using wf map_of_is_SomeI [OF d(1)] unfolding acc_wf_def by blast
  qed
  have "\<exists>info. info_secrets (secretTrim E) (secret_value C pas) (acc_Secrets ad) ai = Some info
    \<and> (\<forall>k. map_of info k = (case map_of (acc_Secrets ad) k of None \<Rightarrow> map_of ai k
      | Some ct \<Rightarrow> Some (trimmed (secretTrim E) (THE v. secret_value C pas ct = Ok v))))"
    by (rule info_secrets_shows [OF assms(2) _ d(1)]) (rule ok)
  then obtain info where i: "info_secrets (secretTrim E) (secret_value C pas) (acc_Secrets ad) ai = Some info"
    and m: "\<forall>k. map_of info k = (case map_of (acc_Secrets ad) k of None \<Rightarrow> map_of ai k
      | Some ct \<Rightarrow> Some (trimmed (secretTrim E) (THE v. secret_value C pas ct = Ok v)))"
    by (elim exE conjE)
  have "map_of info k = Some (if k \<in> set (secretFields E) then trimmed (secretTrim E) v else v)"
  proof (cases "k \<in> set (secretFields E)")
    case True
    then obtain ct where "map_of (acc_Secrets ad) k = Some ct" "secret_value C pas ct = Ok v" using s by (auto simp: sealed_def)
    then show ?thesis using m True by simp
  next
    case False
    then have "map_of (acc_Values ad) k = Some v" "map_of (acc_Secrets ad) k = None" using s by (simp_all add: sealed_def)
    then show ?thesis using m False by (simp add: ai_def map_of_fold_update [OF d(2)])
  qed
  then show ?thesis using i unfolding acc_toInfo_def ai_def ai0_def by blast
qed

lemma acc_named:
  "acc_wf E C pas (ad\<lparr>acc_SwoId := i\<rparr>) = acc_wf E C pas ad" "sealed E C pas (ad\<lparr>acc_SwoId := i\<rparr>) k v = sealed E C pas ad k v"
  by (simp_all add: acc_wf_def sealed_def)

lemma wp_setupGithubAcc:
  assumes "acc_wf E C pas ad" and "\<And>i x'. Q (Ok (ad\<lparr>acc_SwoId := i\<rparr>)) x'" and "\<And>e x'. Q (Err e) x'"
  shows "wp (setupGithubAcc E C pas ad) Q x"
proof -
  have "secret_value C pas tok \<noteq> Panic" if "map_of (acc_Secrets ad) ''token'' = Some tok" for tok
    using assms(1) that unfolding acc_wf_def by fastforce
  moreover have "Q (Ok ad) x" using assms(2) [of "acc_SwoId ad"] by simp
  ultimately show ?thesis using assms(2,3)
    by (auto simp: setupGithubAcc_def githubResolveName_def wp_simps split: option.split res.split sum.split)
qed

text \<open>
  C39. An account that was accepted keeps each field of the request where it belongs: a field with a secret name (of ten
  characters or more, or empty) is stored encrypted and nowhere in the clear, decrypts to what was sent, and is shown to
  users with at most the first characters the configuration allows; any other field is stored and shown as it was sent.
\<close>

theorem account_seals:
  assumes "cfb_ok C" and "nonce_ok E" and "distinct (map fst params)" and "0 \<le> secretTrim E"
    and run: "getAccDesc E C pas i params x = (Ok ad, x')"
    and k: "map_of params k = Some v" "\<not> special k"
  shows "sealed E C pas ad k v \<and> (\<exists>info. acc_toInfo E C pas ad = Some info
    \<and> map_of info k = Some (if k \<in> set (secretFields E) then trimmed (secretTrim E) v else v))"
proof -
  have "wp (getAccDesc E C pas i params) (\<lambda>r x'. \<forall>ad. r = Ok ad \<longrightarrow> acc_wf E C pas ad \<and> sealed E C pas ad k v) x"
    unfolding getAccDesc_def wp_gbind
  proof (rule wp_acc_fill [OF assms(1,2) _ assms(3)], goal_cases)
    case (2 ad' x')
    have s: "sealed E C pas ad' k v" using 2(4) [of k v] k by (simp add: map_of_SomeD)
    show ?case using 2(1) s by (auto simp: wp_gret acc_named intro!: wp_setupGithubAcc [OF 2(1)])
  qed (simp_all add: acc_wf_def)
  then have "acc_wf E C pas ad" "sealed E C pas ad k v" using run by (simp_all add: wp_def)
  then show ?thesis using acc_toInfo_shows [OF _ assms(4)] by blast
qed

definition demo_params :: "(string \<times> string) list" where
  "demo_params = [(''type'', ''site''), (''name'', ''acc''), (''token'', ''0123456789ab''), (''url'', ''http'')]"

lemma demo_acc_runs: "run_ok (getAccDesc gmem_env no_cfb [] (makeSwoId ''t'' NoProject ''acc'') demo_params) (gmem_of [])"
  by code_simp

theorem account_seals_witness:
  "\<exists>ad. sealed gmem_env no_cfb [] ad ''token'' ''0123456789ab'' \<and> (\<exists>info. acc_toInfo gmem_env no_cfb [] ad = Some info
    \<and> map_of info ''token'' = Some ''012345...'')"
proof -
  obtain ad x' where run: "getAccDesc gmem_env no_cfb [] (makeSwoId ''t'' NoProject ''acc'') demo_params (gmem_of []) = (Ok ad, x')"
    using run_okE [OF demo_acc_runs] .
  have d: "distinct (map fst demo_params)" "map_of demo_params ''token'' = Some ''0123456789ab''" "\<not> special ''token''"
    by (code_simp, code_simp, code_simp)
  have t: "0 \<le> secretTrim gmem_env" "''token'' \<in> set (secretFields gmem_env)" "trimmed (secretTrim gmem_env) ''0123456789ab'' = ''012345...''"
    by (code_simp, code_simp, code_simp)
  have "sealed gmem_env no_cfb [] ad ''token'' ''0123456789ab'' \<and> (\<exists>info. acc_toInfo gmem_env no_cfb [] ad = Some info
      \<and> map_of info ''token'' = Some ''012345...'')"
    using account_seals [OF no_cfb_ok gmem_nonce d(1) t(1) run d(2,3)] by (simp only: t(2,3) if_True)
  then show ?thesis by - (rule exI [where x = ad])
qed

end
