(* ===== verification/Gate_Repo.thy ===== *)
theory Gate_Repo
  imports Gate_Accounts
begin

text \<open>
  Repositories with sources: \<open>src/gate/repo.go\<close>, and the lookup of objects by id of \<open>src/gate/db.go\<close>. Git, the
  file system and the GitHub API are parameters in \<open>repo_env\<close>. The single worker that pulls and the single worker that
  measures disk usage take one request at a time; a request to them runs here where it is sent, as the channel has no
  buffer. Listing the files of a clone as a tree is left out.
\<close>

section \<open>Parameters\<close>

datatype stat = Exists | NotExist | StatErr string

text \<open>A run of git: \<open>GitNoStart\<close> when the program could not be started, \<open>GitFailed\<close> when it ended with an error.\<close>

datatype git_end = GitOk | GitNoStart string | GitFailed string

record git_out =
  git_end :: git_end
  git_stdout :: string
  git_stderr :: string

record GitHubRepo =
  gh_Name :: string
  gh_URL :: string
  gh_Private :: bool

record 'x repo_env =
  os_Stat :: "string \<Rightarrow> 'x \<Rightarrow> stat \<times> 'x"
  os_MkdirAll :: "string \<Rightarrow> 'x \<Rightarrow> string option \<times> 'x"
  git :: "string list \<Rightarrow> 'x \<Rightarrow> git_out \<times> 'x"
  ReadFile :: "string \<Rightarrow> 'x \<Rightarrow> (string + string) \<times> 'x"
  Walk_blocks :: "string \<Rightarrow> 'x \<Rightarrow> (string + 64 word list) \<times> 'x"
  github_repos :: "string \<Rightarrow> 'x \<Rightarrow> (string + GitHubRepo list) \<times> 'x"
  yaml_repo :: "string \<Rightarrow> string + string"
  conf_Home :: string
  repoSyncDelay :: int
  demoRep :: oid

text \<open>Nothing of this touches the database.\<close>

definition repo_ok :: "'x repo_env \<Rightarrow> ('x \<Rightarrow> gview) \<Rightarrow> bool" where
  "repo_ok R view \<longleftrightarrow> (\<forall>p x. view (snd (os_Stat R p x)) = view x) \<and> (\<forall>p x. view (snd (os_MkdirAll R p x)) = view x)
     \<and> (\<forall>a x. view (snd (git R a x)) = view x) \<and> (\<forall>p x. view (snd (ReadFile R p x)) = view x)
     \<and> (\<forall>p x. view (snd (Walk_blocks R p x)) = view x) \<and> (\<forall>a x. view (snd (github_repos R a x)) = view x)"

section \<open>Objects by id\<close>

definition IsObjectIdHex :: "string \<Rightarrow> bool" where
  "IsObjectIdHex s \<longleftrightarrow> length s = 24 \<and> hex_DecodeString s \<noteq> None"

text \<open>Ids are kept in the form \<open>Hex\<close> gives them, with small letters.\<close>

definition ObjectIdHex :: "string \<Rightarrow> oid" where
  "ObjectIdHex s = ToLower s"

definition doc_labels :: "gdoc \<Rightarrow> string list" where
  "doc_labels d = (case d of GFn f \<Rightarrow> fn_Labels f | GMw m \<Rightarrow> mw_Labels m | GRt r \<Rightarrow> rd_Labels r | GDep p \<Rightarrow> dd_Labels p | _ \<Rightarrow> [])"

definition listReq :: "gateContext \<Rightarrow> string \<Rightarrow> string list \<Rightarrow> gdoc \<Rightarrow> bool" where
  "listReq ctx project labels d \<longleftrightarrow> where_field ''tennant'' (gx_Tenant ctx) d \<and> where_field ''project'' project d
     \<and> (\<forall>l \<in> set labels. l \<in> set (doc_labels d))"

definition ctxSwoId :: "gateContext \<Rightarrow> string \<Rightarrow> string \<Rightarrow> SwoId" where
  "ctxSwoId ctx project name = makeSwoId (gx_Tenant ctx) project name"

definition cookieReq :: "'x gate_env \<Rightarrow> gateContext \<Rightarrow> string \<Rightarrow> string \<Rightarrow> gdoc \<Rightarrow> bool" where
  "cookieReq E ctx project name = where_field ''cookie'' (Cookie (Cookify E) (ctxSwoId ctx project name))"

definition idReq :: "gateContext \<Rightarrow> string \<Rightarrow> (gdoc \<Rightarrow> bool) \<Rightarrow> gdoc \<Rightarrow> bool" where
  "idReq ctx i q d \<longleftrightarrow> q d \<and> where_field ''tennant'' (gx_Tenant ctx) d \<and> has_id (ObjectIdHex i) d"

definition objFindId :: "'x gate_env \<Rightarrow> gateContext \<Rightarrow> gcoll \<Rightarrow> string \<Rightarrow> (gdoc \<Rightarrow> bool) \<Rightarrow> ('x gst, ReqErr, gdoc) go" where
  "objFindId E ctx c i q = (if \<not> IsObjectIdHex i then gerr (GateErrM GateBadRequest ''Bad ID value'')
     else or_GateErrD (dbFind E c (idReq ctx i q)))"

section \<open>Descriptors\<close>

definition DBRepoStateCln :: int where "DBRepoStateCln = 1"
definition DBRepoStateRem :: int where "DBRepoStateRem = 2"
definition DBRepoStateStl :: int where "DBRepoStateStl = 3"
definition DBRepoStateRdy :: int where "DBRepoStateRdy = 4"
definition RepoDescFile :: string where "RepoDescFile = ''.swifty.yml''"
definition PullEvent :: string where "PullEvent = ''event''"
definition PullPeriodic :: string where "PullPeriodic = ''periodic''"

definition repStates :: "(int \<times> string) list" where
  "repStates = [(DBRepoStateCln, ''cloning''), (DBRepoStateStl, ''stalled''), (DBRepoStateRem, ''removing''), (DBRepoStateRdy, ''ready'')]"

definition cloneDir :: "'x repo_env \<Rightarrow> string" where
  "cloneDir R = conf_Home R @ ''/clone''"

definition rp_path :: "RepoDesc \<Rightarrow> string" where
  "rp_path rd = (if rp_Path rd \<noteq> [] then rp_Path rd else Tennant (rp_SwoId rd) @ ''/'' @ rp_ObjID rd)"

definition clonePath :: "'x repo_env \<Rightarrow> RepoDesc \<Rightarrow> string" where
  "clonePath R rd = cloneDir R @ ''/'' @ rp_path rd"

definition rp_URL :: "RepoDesc \<Rightarrow> string" where
  "rp_URL rd = Name (rp_SwoId rd)"

record RepoAdd =
  ra_Type :: string
  ra_URL :: string
  ra_AccID :: string
  ra_UserData :: string
  ra_Pull :: string

definition getRepoDesc :: "SwoId \<Rightarrow> RepoAdd \<Rightarrow> RepoDesc" where
  "getRepoDesc i params = \<lparr>rp_ObjID = [], rp_SwoId = i, rp_Type = ra_Type params, rp_State = 0, rp_Commit = [], rp_UserData = ra_UserData params,
     rp_Pull = ra_Pull params, rp_DU = 0, rp_Path = [], rp_LastPull = None, rp_AccID = []\<rparr>"

definition Repos_Create :: "gateContext \<Rightarrow> RepoAdd \<Rightarrow> ReqErr + RepoDesc" where
  "Repos_Create ctx params = (if ra_Pull params \<in> {PullPeriodic, PullEvent, []} then Inr (getRepoDesc (ctxSwoId ctx NoProject (ra_URL params)) params)
     else Inl (GateErrM GateBadRequest ''Bad pull mode''))"

section \<open>Cloning and pulling\<close>

fun upd_Repo :: "(RepoDesc \<Rightarrow> RepoDesc) \<Rightarrow> gdoc \<Rightarrow> gdoc" where
  "upd_Repo f (GRepo r) = GRepo (f r)"
| "upd_Repo f d = d"

definition rp_set :: "'x gate_env \<Rightarrow> gateContext \<Rightarrow> RepoDesc \<Rightarrow> (RepoDesc \<Rightarrow> RepoDesc) \<Rightarrow> ('x, gdberr, unit) go" where
  "rp_set E ctx rd f = dbUpdatePart E ctx (GRepo rd) (upd_Repo f)"

definition GetDirDU :: "'x repo_env \<Rightarrow> string \<Rightarrow> ('x, string, 64 word) go" where
  "GetDirDU R dir = gbind (gout (Walk_blocks R dir)) (\<lambda>r. case r of Inl e \<Rightarrow> gerr e
     | Inr bs \<Rightarrow> gret (sum_list (map (push_bit 9) bs)))"

definition scrape :: "'x gate_env \<Rightarrow> 'x repo_env \<Rightarrow> gateContext \<Rightarrow> RepoDesc \<Rightarrow> ('x, string, unit) go" where
  "scrape E R ctx rd = gbind (GetDirDU R (clonePath R rd)) (\<lambda>du. gseq (rp_set E ctx rd (\<lambda>r. r\<lparr>rp_DU := du\<rparr>)) (gret ()))"

definition dirty :: "'x gate_env \<Rightarrow> 'x repo_env \<Rightarrow> RepoDesc \<Rightarrow> ('x, string, unit) go" where
  "dirty E R rd = gseq (scrape E R mkContext rd) (gret ())"

definition gitCommit :: "'x repo_env \<Rightarrow> string \<Rightarrow> ('x, string, string) go" where
  "gitCommit R dir = gbind (gout (git R [''-C'', dir, ''log'', ''-n1'', ''--pretty=format:%H''])) (\<lambda>out. case git_end out of
     GitOk \<Rightarrow> gret (git_stdout out) | GitNoStart e \<Rightarrow> gerr e | GitFailed e \<Rightarrow> gerr e)"

definition clone_url :: "cfb \<Rightarrow> string \<Rightarrow> RepoDesc \<Rightarrow> AccDesc option \<Rightarrow> (string, string) res" where
  "clone_url C pas rd ac = (case ac of
     None \<Rightarrow> Ok (rp_URL rd)
   | Some a \<Rightarrow> if acc_Type a \<noteq> ''github'' then Err ''Corrupted acc type''
       else (case secret_value C pas (param (acc_Secrets a) ''token'') of
         Panic \<Rightarrow> Panic | Err _ \<Rightarrow> Err ''Decrypt error''
       | Ok t \<Rightarrow> Ok (if t \<noteq> [] \<and> HasPrefix (rp_URL rd) ''https://''
           then ''https://'' @ Name (acc_SwoId a) @ '':'' @ t @ ''@'' @ drop 8 (rp_URL rd) else rp_URL rd)))"

definition cloneGit :: "'x gate_env \<Rightarrow> 'x repo_env \<Rightarrow> cfb \<Rightarrow> string \<Rightarrow> RepoDesc \<Rightarrow> AccDesc option \<Rightarrow> ('x, string, string) go" where
  "cloneGit E R C pas rd ac =
     (let clone_to = clonePath R rd in
      gbind (gout (os_Stat R clone_to)) (\<lambda>st. case st of
        Exists \<Rightarrow> gerr (''can'' @ [CHR 0x27] @ ''t clone repo'') | StatErr _ \<Rightarrow> gerr (''can'' @ [CHR 0x27] @ ''t clone repo'')
      | NotExist \<Rightarrow> gbind (gout (os_MkdirAll R clone_to)) (\<lambda>m. case m of Some _ \<Rightarrow> gerr ''no such file or directory'' | None \<Rightarrow>
          (case clone_url C pas rd ac of Panic \<Rightarrow> gpanic | Err e \<Rightarrow> gerr e | Ok curl \<Rightarrow>
             gbind (gout (git R [''-C'', clone_to, ''clone'', ''--depth=1'', curl, ''.''])) (\<lambda>out.
             let failed = (\<lambda>e. gseq (logSaveResult E (PCookie (Cookify E) (rp_SwoId rd)) ''repo_clone'' (git_stdout out) (git_stderr out) :: ('x, string, unit) go) (gerr e)) in
             case git_end out of
               GitNoStart e \<Rightarrow> failed e | GitFailed e \<Rightarrow> failed e
             | GitOk \<Rightarrow> gseq (dirty E R rd) (gitCommit R clone_to))))))"

definition repo_types :: "string list" where
  "repo_types = [''github'', ''gitlab'']"

definition bgClone :: "'x gate_env \<Rightarrow> 'x repo_env \<Rightarrow> cfb \<Rightarrow> string \<Rightarrow> RepoDesc \<Rightarrow> AccDesc option \<Rightarrow> ('x, 'e, unit) go" where
  "bgClone E R C pas rd ac =
     gtry (cloneGit E R C pas rd ac) (\<lambda>r. case r of
       Inl _ \<Rightarrow> gseq (rp_set E mkContext rd (\<lambda>r. r\<lparr>rp_State := DBRepoStateStl\<rparr>)) (gret ())
     | Inr commit \<Rightarrow> gbind (gout (gnow E)) (\<lambda>t.
         gseq (rp_set E mkContext rd (\<lambda>r. r\<lparr>rp_State := DBRepoStateRdy, rp_Commit := commit, rp_LastPull := Some t\<rparr>)) (gret ())))"

definition rp_Attach :: "'x gate_env \<Rightarrow> gateContext \<Rightarrow> RepoDesc \<Rightarrow> AccDesc option \<Rightarrow> ('x gst, ReqErr, RepoDesc) go" where
  "rp_Attach E ctx rd ac =
     gbind (liftx (gout (gnewid E))) (\<lambda>i.
     let rd = rd\<lparr>rp_ObjID := i, rp_State := DBRepoStateCln, rp_AccID := (case ac of None \<Rightarrow> rp_AccID rd | Some a \<Rightarrow> acc_ObjID a)\<rparr> in
     if rp_Type rd \<notin> set repo_types then gerr (GateErrM GateBadRequest ''Unsupported repo type'')
     else gbind (or_GateErrD (dbInsert E ctx (GRepo rd))) (\<lambda>_. gret rd))"

definition dbRepoCountTen :: "'x gate_env \<Rightarrow> gateContext \<Rightarrow> ('x, gdberr, nat) go" where
  "dbRepoCountTen E ctx = dbCount E DBColRepos (where_field ''tenant'' (gx_Tenant ctx))"

definition repo_limit :: "'x gate_env \<Rightarrow> gateContext \<Rightarrow> ('x gst, ReqErr, unit) go" where
  "repo_limit E ctx =
     gtry (tendatGet E ctx) (\<lambda>r. case r of Inl _ \<Rightarrow> gerr (GateErrC GateGenErr) | Inr td \<Rightarrow>
     (case td_repl td of
        None \<Rightarrow> gret ()
      | Some lim \<Rightarrow> if lim = 0 then gret () else gbind (or_GateErrD (dbRepoCountTen E ctx)) (\<lambda>cnr.
          if word_of_nat (cnr + 1) > lim then gerr (GateErrC GateLimitHit) else gret ())))"

text \<open>After an attached repository is stored, \<open>bgClone\<close> runs on its own.\<close>

definition rp_Add :: "'x gate_env \<Rightarrow> gateContext \<Rightarrow> RepoAdd \<Rightarrow> RepoDesc \<Rightarrow> ('x gst, ReqErr, RepoDesc \<times> AccDesc option) go" where
  "rp_Add E ctx params rd =
     gbind (repo_limit E ctx) (\<lambda>_.
     gbind (if ra_AccID params = [] then gret None
            else gbind (objFindId E ctx DBColAccounts (ra_AccID params) (\<lambda>_. True)) (\<lambda>d. gret (Some (as_Acc d)))) (\<lambda>ac.
     if (case ac of None \<Rightarrow> False | Some a \<Rightarrow> acc_Type a \<noteq> ra_Type params) then gerr (GateErrM GateBadRequest ''Bad account type'')
     else gbind (rp_Attach E ctx rd ac) (\<lambda>rd. gret (rd, ac))))"

definition rp_Upd :: "'x gate_env \<Rightarrow> gateContext \<Rightarrow> string option \<Rightarrow> RepoDesc \<Rightarrow> ('x gst, ReqErr, RepoDesc) go" where
  "rp_Upd E ctx pull rd = (case pull of None \<Rightarrow> gret rd
     | Some p \<Rightarrow> gbind (or_GateErrD (rp_set E ctx rd (\<lambda>r. r\<lparr>rp_Pull := p\<rparr>))) (\<lambda>_. gret (rd\<lparr>rp_Pull := p\<rparr>)))"

definition rp_Del :: "'x gate_env \<Rightarrow> 'x repo_env \<Rightarrow> gateContext \<Rightarrow> RepoDesc \<Rightarrow> ('x gst, ReqErr, unit) go" where
  "rp_Del E R ctx rd =
     gbind (or_GateErrD (rp_set E ctx rd (\<lambda>r. r\<lparr>rp_State := DBRepoStateRem\<rparr>))) (\<lambda>_.
     gbind (if rp_Path rd \<noteq> [] then gret ()
            else gbind (liftx (gout (DropDir E (cloneDir R) (rp_path rd)))) (\<lambda>e. case e of
              Some e \<Rightarrow> gerr (GateErrE GateFsError e) | None \<Rightarrow> gret ())) (\<lambda>_.
     or_GateErrD (dbRemove E ctx (GRepo rd))))"

section \<open>Updates of functions\<close>

text \<open>Lines as \<open>bufio.Scanner\<close> reads them: a carriage return before the newline is dropped, a line of 64K or more is an error.\<close>

fun raw_lines :: "string \<Rightarrow> string list" where
  "raw_lines s = (case Index s [CHR 0x0A] of None \<Rightarrow> if s = [] then [] else [s]
     | Some i \<Rightarrow> if s = [] then [] else take i s # raw_lines (drop (Suc i) s))"

declare raw_lines.simps [simp del]

definition scan_lines :: "string \<Rightarrow> string + string list" where
  "scan_lines s = (if \<exists>l \<in> set (raw_lines s). 65536 \<le> length l then Inl ''Err reading lines: bufio.Scanner: token too long''
     else Inr (map (\<lambda>l. TrimSuffix l [CHR 0x0D]) (raw_lines s)))"

definition changedFiles :: "'x repo_env \<Rightarrow> RepoDesc \<Rightarrow> string \<Rightarrow> ('x, string, string list) go" where
  "changedFiles R rd till = (if rp_Commit rd = [] then gret []
     else gbind (gout (git R [''-C'', clonePath R rd, ''diff'', ''--name-only'', rp_Commit rd, till])) (\<lambda>out. case git_end out of
       GitNoStart e \<Rightarrow> gerr (''Err start git: '' @ e)
     | _ \<Rightarrow> (case scan_lines (git_stdout out) of Inl e \<Rightarrow> gerr e | Inr fs \<Rightarrow> gret fs)))"

definition filesMatch :: "string \<Rightarrow> string list \<Rightarrow> bool" where
  "filesMatch file files \<longleftrightarrow> file \<in> set files"

definition from_repo :: "RepoDesc \<Rightarrow> gdoc \<Rightarrow> bool" where
  "from_repo rd d \<longleftrightarrow> (case d of GFn f \<Rightarrow> src_Repo (fn_Src f) = rp_ObjID rd | _ \<Rightarrow> False)"

definition listFunctionsToUpdate :: "'x gate_env \<Rightarrow> 'x repo_env \<Rightarrow> RepoDesc \<Rightarrow> string \<Rightarrow> ('x, 'e, FunctionDesc list) go" where
  "listFunctionsToUpdate E R rd till =
     gtry (changedFiles R rd till) (\<lambda>r. case r of Inl _ \<Rightarrow> gret []
     | Inr files \<Rightarrow> if files = [] then gret []
         else gtry (dbFindAll E DBColFunc (from_repo rd)) (\<lambda>r. case r of
           Inl _ \<Rightarrow> gret [] | Inr ds \<Rightarrow> gret (filter (\<lambda>fn. filesMatch (src_File (fn_Src fn)) files) (map as_Fn ds))))"

definition update_one :: "'x gate_env \<Rightarrow> gateContext \<Rightarrow> FunctionDesc \<Rightarrow> ('x gst, 'e, unit) go" where
  "update_one E ctx fn =
     gtry (fn_updateSources E (ctx\<lparr>gx_Tenant := Tennant (fn_SwoId fn)\<rparr>) fn
       \<lparr>fsrc_Repo = src_Repo (fn_Src fn) @ ''/'' @ src_File (fn_Src fn), fsrc_Code = [], fsrc_URL = [], fsrc_Sync = True\<rparr>) (\<lambda>r. case r of
       Inl _ \<Rightarrow> gseq (liftx (logSaveEvent E ctx (fn_Cookie fn) ''FAIL repo auto-update'')) (gret ())
     | Inr _ \<Rightarrow> gret ())"

definition tryToUpdateFunctions :: "'x gate_env \<Rightarrow> 'x repo_env \<Rightarrow> gateContext \<Rightarrow> RepoDesc \<Rightarrow> string \<Rightarrow> ('x gst, 'e, unit) go" where
  "tryToUpdateFunctions E R ctx rd till = (if rp_Commit rd = till then gret ()
     else gbind (liftx (listFunctionsToUpdate E R rd till)) (\<lambda>fns. geach (update_one E ctx) fns))"

definition pull :: "'x gate_env \<Rightarrow> 'x repo_env \<Rightarrow> gateContext \<Rightarrow> RepoDesc \<Rightarrow> ('x gst, string, unit) go" where
  "pull E R ctx rd =
     (let clone_to = clonePath R rd in
      gbind (liftx (gout (git R [''-C'', clone_to, ''pull'']))) (\<lambda>out.
      let failed = (\<lambda>e. gseq (liftx (logSaveResult E (PCookie (Cookify E) (rp_SwoId rd)) ''repo_pull'' (git_stdout out) (git_stderr out) :: ('x, string, unit) go)) (gerr e)) in
      case git_end out of
        GitNoStart e \<Rightarrow> failed e | GitFailed e \<Rightarrow> failed e
      | GitOk \<Rightarrow> gtry (liftx (gitCommit R clone_to)) (\<lambda>r. case r of Inl _ \<Rightarrow> gret ()
          | Inr cmt \<Rightarrow> gbind (liftx (gout (gnow E))) (\<lambda>t.
              gseq (liftx (rp_set E ctx rd (\<lambda>r. r\<lparr>rp_Commit := cmt, rp_LastPull := Some t\<rparr>)))
              (gseq (liftx (dirty E R rd)) (tryToUpdateFunctions E R ctx rd cmt))))))"

definition pullSync :: "'x gate_env \<Rightarrow> 'x repo_env \<Rightarrow> RepoDesc \<Rightarrow> ('x gst, ReqErr, unit) go" where
  "pullSync E R rd = gtry (pull E R mkContext rd) (\<lambda>r. case r of Inl e \<Rightarrow> gerr (GateErrE GateGenErr e) | Inr _ \<Rightarrow> gret ())"

definition pullAsync :: "'x gate_env \<Rightarrow> 'x repo_env \<Rightarrow> RepoDesc \<Rightarrow> ('x gst, 'e, unit) go" where
  "pullAsync E R rd = gseq (pull E R mkContext rd) (gret ())"

definition pullManual :: "'x gate_env \<Rightarrow> 'x repo_env \<Rightarrow> RepoDesc \<Rightarrow> ('x gst, ReqErr, unit) go" where
  "pullManual E R rd =
     gbind (liftx (gout (gnow E))) (\<lambda>now.
     if (case rp_LastPull rd of None \<Rightarrow> False | Some t \<Rightarrow> now < t + repoSyncDelay R) then gerr (GateErrM GateNotAvail ''To frequent sync'')
     else pullAsync E R rd)"

text \<open>All repositories that a query names, and how many of them were pulled.\<close>

definition pull_all :: "'x gate_env \<Rightarrow> 'x repo_env \<Rightarrow> RepoDesc list \<Rightarrow> ('x gst, gdberr, nat) go" where
  "pull_all E R rds = gfold (\<lambda>rd n. gtry (pullSync E R rd) (\<lambda>r. gret (case r of Inl _ \<Rightarrow> n | Inr _ \<Rightarrow> Suc n))) rds 0"

definition pullRepos :: "'x gate_env \<Rightarrow> 'x repo_env \<Rightarrow> int \<Rightarrow> ('x gst, gdberr, nat) go" where
  "pullRepos E R ts =
     gtry (liftx (dbFindAll E DBColRepos (\<lambda>d. where_field ''pulling'' PullPeriodic d
         \<and> (case rp_LastPull (as_Repo d) of None \<Rightarrow> False | Some t \<Rightarrow> t < ts)))) (\<lambda>r. case r of
       Inl e \<Rightarrow> if e = GNotFound then gret 0 else gerr e
     | Inr ds \<Rightarrow> pull_all E R (map as_Repo ds))"

definition githubRepoUpdated :: "'x gate_env \<Rightarrow> 'x repo_env \<Rightarrow> GitHubRepo option \<Rightarrow> ('x gst, 'e, unit) go" where
  "githubRepoUpdated E R repo = (case repo of None \<Rightarrow> gret ()
     | Some g \<Rightarrow> if gh_URL g = [] then gret ()
         else gtry (liftx (dbFindAll E DBColRepos (\<lambda>d. where_field ''name'' (gh_URL g) d \<and> where_field ''pulling'' PullEvent d))) (\<lambda>r. case r of
           Inl _ \<Rightarrow> gret () | Inr ds \<Rightarrow> gseq (pull_all E R (map as_Repo ds)) (gret ())))"

section \<open>Files and listings\<close>

definition of_tenants :: "string list \<Rightarrow> gdoc \<Rightarrow> bool" where
  "of_tenants ts d \<longleftrightarrow> (\<exists>t \<in> set ts. where_field ''tennant'' t d)"

definition ctxRepoId :: "gateContext \<Rightarrow> string \<Rightarrow> gdoc \<Rightarrow> bool" where
  "ctxRepoId ctx rid d \<longleftrightarrow> of_tenants [gx_Tenant ctx, ''*''] d \<and> has_id (ObjectIdHex rid) d"

definition ctxRepoName :: "gateContext \<Rightarrow> string \<Rightarrow> gdoc \<Rightarrow> bool" where
  "ctxRepoName ctx name d \<longleftrightarrow> of_tenants [gx_Tenant ctx, ''*''] d \<and> where_field ''name'' name d"

definition Admin :: "gateContext \<Rightarrow> bool" where
  "Admin ctx \<longleftrightarrow> gx_Role ctx = AdminRole"

definition repoFindForReq :: "'x gate_env \<Rightarrow> gateContext \<Rightarrow> string \<Rightarrow> bool \<Rightarrow> ('x gst, ReqErr, RepoDesc) go" where
  "repoFindForReq E ctx rid user_action = (if \<not> IsObjectIdHex rid then gerr (GateErrM GateBadRequest ''Bad repo ID value'')
     else gbind (or_GateErrD (dbFind E DBColRepos (ctxRepoId ctx rid))) (\<lambda>d.
       if \<not> user_action \<and> \<not> Admin ctx \<and> Tennant (rp_SwoId (as_Repo d)) \<noteq> gx_Tenant ctx then gerr (GateErrM GateNotAvail ''Shared repo'')
       else gret (as_Repo d)))"

text \<open>\<open>strings.SplitN\<close> with a longer separator.\<close>

fun SplitNs :: "string \<Rightarrow> string \<Rightarrow> nat \<Rightarrow> string list" where
  "SplitNs s sep 0 = []"
| "SplitNs s sep (Suc 0) = [s]"
| "SplitNs s sep (Suc (Suc n)) = (case Index s sep of None \<Rightarrow> [s] | Some i \<Rightarrow> take i s # SplitNs (drop (i + length sep) s) sep (Suc n))"

definition repo_file :: "'x gate_env \<Rightarrow> 'x repo_env \<Rightarrow> (gdoc \<Rightarrow> bool) \<Rightarrow> string \<Rightarrow> ('x, string, string \<times> RepoDesc) go" where
  "repo_file E R q file = gtry (dbFind E DBColRepos q) (\<lambda>r. case r of
     Inl e \<Rightarrow> gerr (db_msg e) | Inr d \<Rightarrow> gret (clonePath R (as_Repo d) @ ''/'' @ file, as_Repo d))"

definition repoFilePath :: "'x gate_env \<Rightarrow> 'x repo_env \<Rightarrow> gateContext \<Rightarrow> string \<Rightarrow> ('x, string, string \<times> RepoDesc) go" where
  "repoFilePath E R ctx rf = (case SplitN rf (CHR ''/'') 2 of
     [i, file] \<Rightarrow> if IsObjectIdHex i then repo_file E R (ctxRepoId ctx i) file else
       (case SplitNs rf ''//'' 3 of [a, b, file] \<Rightarrow> repo_file E R (ctxRepoName ctx (a @ ''//'' @ b)) file | _ \<Rightarrow> gerr ''Bad repo file ID'')
   | _ \<Rightarrow> (case SplitNs rf ''//'' 3 of [a, b, file] \<Rightarrow> repo_file E R (ctxRepoName ctx (a @ ''//'' @ b)) file | _ \<Rightarrow> gerr ''Bad repo file ID''))"

definition repoReadFile :: "'x gate_env \<Rightarrow> 'x repo_env \<Rightarrow> gateContext \<Rightarrow> string \<Rightarrow> ('x, string, string \<times> RepoDesc) go" where
  "repoReadFile E R ctx rf = gbind (repoFilePath E R ctx rf) (\<lambda>(fname, rd).
     gbind (gout (ReadFile R fname)) (\<lambda>r. case r of Inl e \<Rightarrow> gerr e | Inr data \<Rightarrow> gret (data, rd)))"

definition trusted :: "'x repo_env \<Rightarrow> RepoDesc \<Rightarrow> bool" where
  "trusted R rd \<longleftrightarrow> rp_ObjID rd = demoRep R"

definition repo_cat :: "'x repo_env \<Rightarrow> string \<Rightarrow> ReqErr \<Rightarrow> (string \<Rightarrow> ReqErr) \<Rightarrow> ('x, ReqErr, string) go" where
  "repo_cat R dfile missing failed = gbind (gout (os_Stat R dfile)) (\<lambda>st. if st = NotExist then gerr missing
     else gbind (gout (ReadFile R dfile)) (\<lambda>r. case r of Inl e \<Rightarrow> gerr (failed e) | Inr cont \<Rightarrow> gret cont))"

definition rp_description :: "'x repo_env \<Rightarrow> RepoDesc \<Rightarrow> ('x, ReqErr, string) go" where
  "rp_description R rd = gbind (repo_cat R (clonePath R rd @ ''/'' @ RepoDescFile) (GateErrM GateNotAvail ''No description for repo'') (GateErrE GateFsError))
     (\<lambda>desc. case yaml_repo R desc of Inl e \<Rightarrow> gerr (GateErrE GateGenErr e) | Inr d \<Rightarrow> gret d)"

definition rp_readFile :: "'x repo_env \<Rightarrow> RepoDesc \<Rightarrow> string \<Rightarrow> ('x, ReqErr, string) go" where
  "rp_readFile R rd fname = repo_cat R (clonePath R rd @ ''/'' @ fname) (GateErrM GateNotAvail ''No such file in repo'')
     (\<lambda>_. GateErrM GateFsError ''Error reading file'')"

record RepoInfo =
  rpi_Id :: string
  rpi_Type :: string
  rpi_URL :: string
  rpi_State :: string
  rpi_Commit :: string
  rpi_UserData :: string
  rpi_AccID :: string
  rpi_Pull :: string
  rpi_Desc :: bool
  rpi_DU_Kb :: "64 word"

definition state_name :: "(int \<times> string) list \<Rightarrow> int \<Rightarrow> string" where
  "state_name names st = (case map_of names st of None \<Rightarrow> [] | Some n \<Rightarrow> n)"

definition rp_toInfo :: "'x gate_env \<Rightarrow> 'x repo_env \<Rightarrow> bool \<Rightarrow> RepoDesc \<Rightarrow> ('x, ReqErr, RepoInfo) go" where
  "rp_toInfo E R details rd =
     gtry (if rp_DU rd = 0 then scrape E R mkContext rd else gret ()) (\<lambda>r. case r of
       Inl _ \<Rightarrow> gerr (GateErrC GateGenErr)
     | Inr _ \<Rightarrow>
         let ri = \<lparr>rpi_Id = rp_ObjID rd, rpi_Type = rp_Type rd, rpi_URL = rp_URL rd, rpi_State = state_name repStates (rp_State rd), rpi_Commit = rp_Commit rd,
               rpi_UserData = [], rpi_AccID = rp_AccID rd, rpi_Pull = [], rpi_Desc = False, rpi_DU_Kb = drop_bit 10 (rp_DU rd)\<rparr> in
         if details then gbind (gout (os_Stat R (clonePath R rd @ ''/'' @ RepoDescFile))) (\<lambda>st.
           gret (ri\<lparr>rpi_UserData := rp_UserData rd, rpi_Pull := rp_Pull rd, rpi_Desc := st = Exists\<rparr>))
         else gret ri)"

definition listReposGH :: "'x repo_env \<Rightarrow> cfb \<Rightarrow> string \<Rightarrow> AccDesc \<Rightarrow> ('x, string, GitHubRepo list) go" where
  "listReposGH R C pas ac = (case secret_value C pas (param (acc_Secrets ac) ''token'') of
     Panic \<Rightarrow> gpanic | Err _ \<Rightarrow> gerr ''Decrypt error''
   | Ok t \<Rightarrow> gbind (gout (github_repos R (if t = [] then ''https://api.github.com/users/'' @ Name (acc_SwoId ac) @ ''/repos''
         else ''https://api.github.com/user/repos?access_token='' @ t))) (\<lambda>r. case r of Inl e \<Rightarrow> gerr e | Inr grs \<Rightarrow> gret grs))"

text \<open>What a listing shows: repositories of the gate, and those of the accounts at GitHub that are not attached.\<close>

datatype repo_item = Attached RepoDesc | Detached string string string

definition iterAttached :: "'x gate_env \<Rightarrow> gateContext \<Rightarrow> string \<Rightarrow> ('x, gdberr, RepoDesc list) go" where
  "iterAttached E ctx accid =
     gbind (dbFindAll E DBColRepos (\<lambda>d. of_tenants [gx_Tenant ctx, ''*''] d \<and> where_field ''project'' NoProject d)) (\<lambda>ds.
     gret (filter (\<lambda>rp. accid = [] \<or> accid = rp_AccID rp) (map as_Repo ds)))"

fun detached_of :: "AccDesc \<Rightarrow> GitHubRepo list \<Rightarrow> string list \<Rightarrow> repo_item list \<times> string list" where
  "detached_of ac [] known = ([], known)"
| "detached_of ac (gr # grs) known = (if gh_URL gr \<in> set known then detached_of ac grs known
     else case detached_of ac grs (gh_URL gr # known) of (items, known) \<Rightarrow>
       (Detached ''github'' (gh_URL gr) (if gh_Private gr then acc_ObjID ac else []) # items, known))"

definition iterFromAccounts :: "'x gate_env \<Rightarrow> 'x repo_env \<Rightarrow> cfb \<Rightarrow> string \<Rightarrow> gateContext \<Rightarrow> string \<Rightarrow> string list \<Rightarrow> ('x, gdberr, repo_item list) go" where
  "iterFromAccounts E R C pas ctx accid known =
     gbind (maybe (dbFindAll E DBColAccounts (\<lambda>d. where_field ''type'' ''github'' d \<and> where_field ''tennant'' (gx_Tenant ctx) d
         \<and> (accid = [] \<or> has_id (ObjectIdHex accid) d))) []) (\<lambda>ds.
     gbind (gfold (\<lambda>ac (items, known). gtry (listReposGH R C pas ac) (\<lambda>r. case r of
         Inl _ \<Rightarrow> gret (items, known)
       | Inr grs \<Rightarrow> case detached_of ac grs known of (new, known) \<Rightarrow> gret (items @ new, known))) (map as_Acc ds) ([], known)) (\<lambda>(items, _). gret items))"

definition Repos_Iterate :: "'x gate_env \<Rightarrow> 'x repo_env \<Rightarrow> cfb \<Rightarrow> string \<Rightarrow> gateContext \<Rightarrow> string \<Rightarrow> string \<Rightarrow> ('x gst, ReqErr, repo_item list) go" where
  "Repos_Iterate E R C pas ctx accid att =
     (if accid \<noteq> [] \<and> \<not> IsObjectIdHex accid then gerr (GateErrM GateBadRequest ''Bad account ID value'')
      else gbind (if att = [] \<or> att = ''true'' then or_GateErrD (iterAttached E ctx accid) else gret []) (\<lambda>rps.
           gbind (if att = [] \<or> att = ''false'' then or_GateErrD (iterFromAccounts E R C pas ctx accid (map rp_URL rps)) else gret []) (\<lambda>ds.
           gret (map Attached rps @ ds))))"

text \<open>What \<open>ReposInit\<close> takes for the repository of demos, before it pulls it.\<close>

definition find_demoRep :: "'x gate_env \<Rightarrow> string \<Rightarrow> ('x, gdberr, oid) go" where
  "find_demoRep E url = maybe (gbind (dbFind E DBColRepos (\<lambda>d. where_field ''type'' ''github'' d \<and> where_field ''name'' url d
     \<and> where_field ''tennant'' ''*'' d \<and> where_field ''project'' NoProject d \<and> rp_State (as_Repo d) = DBRepoStateRdy)) (\<lambda>d. gret (rp_ObjID (as_Repo d)))) []"

end
