(* ===== verification/Gate_Frame.thy ===== *)
theory Gate_Frame
  imports Gate_Accounts
begin

text \<open>
  What the operations of the gate leave alone in the database. An order on database contents is kept by an operation when
  every run of it moves along the order; that goes through the combinators of the model, and for a request to the server it
  is a question about one document. Used with the equality of one collection and with an order that only lets documents
  disappear.
\<close>

section \<open>Orders on the database\<close>

definition moves :: "('w \<Rightarrow> gview) \<Rightarrow> (gview \<Rightarrow> gview \<Rightarrow> bool) \<Rightarrow> ('w, 'e, 'a) go \<Rightarrow> bool" where
  "moves h R f \<longleftrightarrow> (\<forall>w. R (h w) (h (snd (f w))))"

abbreviation gmoves :: "('x \<Rightarrow> gview) \<Rightarrow> (gview \<Rightarrow> gview \<Rightarrow> bool) \<Rightarrow> ('x gst, 'e, 'a) go \<Rightarrow> bool" where
  "gmoves view \<equiv> moves (\<lambda>w. view (outer w))"

named_theorems moving \<open>operations that move along an order\<close>

lemma movesD: "moves h R f \<Longrightarrow> f w = (r, w') \<Longrightarrow> R (h w) (h w')"
  by (metis moves_def snd_conv)

lemma moves_liftx: "moves view R f \<Longrightarrow> gmoves view R (liftx f)"
  unfolding moves_def liftx_def by (auto split: prod.split) (metis snd_conv)

lemma moves_or_GateErrD: "moves view R f \<Longrightarrow> gmoves view R (or_GateErrD f)"
  unfolding moves_def or_GateErrD_def gtry_def liftx_def gerr_def gret_def by (auto split: prod.split res.split) (metis snd_conv)+

lemma moves_case:
  "(\<And>e. moves h R (f e)) \<Longrightarrow> (\<And>a. moves h R (g a)) \<Longrightarrow> moves h R (case s of Inl e \<Rightarrow> f e | Inr a \<Rightarrow> g a)"
  "moves h R f' \<Longrightarrow> (\<And>a. moves h R (g a)) \<Longrightarrow> moves h R (case t of None \<Rightarrow> f' | Some a \<Rightarrow> g a)"
  "(\<And>a b. moves h R (j a b)) \<Longrightarrow> moves h R (case p of (a, b) \<Rightarrow> j a b)"
  "(b \<Longrightarrow> moves h R f') \<Longrightarrow> (\<not> b \<Longrightarrow> moves h R g') \<Longrightarrow> moves h R (if b then f' else g')"
  "(\<And>a. moves h R (g a)) \<Longrightarrow> (\<And>e. moves h R (f e)) \<Longrightarrow> moves h R f' \<Longrightarrow> moves h R (case q of Ok a \<Rightarrow> g a | Err e \<Rightarrow> f e | Panic \<Rightarrow> f')"
  by (auto split: sum.split option.split prod.split res.split)

locale view_order =
  fixes R :: "gview \<Rightarrow> gview \<Rightarrow> bool"
  assumes refl: "R V V"
    and trans: "R V V1 \<Longrightarrow> R V1 V2 \<Longrightarrow> R V V2"
begin

lemma moves_basic: "moves h R (gret a)" "moves h R (gerr e)" "moves h R gpanic" "moves h R (gget g)" "moves h R (deref q)" "moves h R (some_err t)"
  by (simp_all add: moves_def gret_def gerr_def gpanic_def gget_def deref_def some_err_def refl split: option.split)

lemma moves_gbind: "moves h R f \<Longrightarrow> (\<And>a. moves h R (k a)) \<Longrightarrow> moves h R (gbind f k)"
  unfolding moves_def gbind_def by (auto split: prod.split res.split intro: trans) (metis snd_conv trans)+

lemma moves_gtry: "moves h R f \<Longrightarrow> (\<And>a. moves h R (k a)) \<Longrightarrow> moves h R (gtry f k)"
  unfolding moves_def gtry_def by (auto split: prod.split res.split intro: trans) (metis snd_conv trans)+

lemma moves_gseq: "moves h R f \<Longrightarrow> moves h R k \<Longrightarrow> moves h R (gseq f k)"
  unfolding gseq_def by (rule moves_gtry)

lemma moves_gfold: "(\<And>a s. moves h R (f a s)) \<Longrightarrow> moves h R (gfold f as s)"
  by (induction "as" arbitrary: s) (auto intro: moves_basic moves_gbind)

lemma moves_geach: "(\<And>a. moves h R (f a)) \<Longrightarrow> moves h R (geach f as)"
  unfolding geach_def by (rule moves_gfold)

lemma moves_gout: "(\<And>w. h (snd (f w)) = h w) \<Longrightarrow> moves h R (gout f)"
  by (simp add: moves_def gout_def refl split: prod.split) (metis snd_conv refl)

lemma moves_gmod: "(\<And>w. h (f w) = h w) \<Longrightarrow> moves h R (gmod f)"
  by (simp add: moves_def gmod_def refl)

lemma moves_quiet: "quiet_call view f \<Longrightarrow> gmoves view R f"
  unfolding moves_def using quiet_callD [of view f] by (metis prod.collapse refl)

lemma moves_fail_as: "moves h R f \<Longrightarrow> moves h R (fail_as g f)"
  unfolding fail_as_def by (intro moves_gtry moves_case moves_basic)

lemma moves_maybe: "moves h R f \<Longrightarrow> moves h R (maybe f a)"
  unfolding maybe_def by (intro moves_gtry moves_case moves_basic)

lemma moves_gcall:
  assumes "gmongo_ok E view" and "\<And>rep V V'. gserves r rep V V' \<Longrightarrow> R V V'"
  shows "moves view R (gcall E r)"
  unfolding moves_def
proof
  fix x
  have "gserves r (fst (gsrv E r x)) (view x) (view (snd (gsrv E r x)))" using assms(1) by (simp add: gmongo_ok_def)
  then show "R (view x) (view (snd (gcall E r x)))" using assms(2) by (auto simp: gcall_def split: prod.split greply.split)
qed

lemma moves_gmodify:
  assumes "gmongo_ok E view" and "\<And>rep V V'. gserves r rep V V' \<Longrightarrow> R V V'"
  shows "moves view R (gmodify E ctx r)"
  unfolding gmodify_def by (intro moves_case moves_gbind moves_gcall [OF assms] moves_basic)

lemma moves_find:
  assumes "gmongo_ok E view"
  shows "moves view R (dbFind E c q)" "moves view R (dbFindAll E c q)" "moves view R (dbCount E c q)"
  unfolding dbFind_def dbFindAll_def dbCount_def
  by (auto intro!: moves_gbind moves_gcall [OF assms] moves_basic simp: refl split: greply.split)

lemmas moves_rules = moves_basic moves_gbind moves_gtry moves_gseq moves_gfold moves_geach moves_gmod moves_fail_as moves_maybe moves_case
  moves_liftx moves_or_GateErrD

end

section \<open>One collection as it was\<close>

interpretation same: view_order "\<lambda>V V'. V' c = V c" for c
  by unfold_locales auto

lemma same_db:
  assumes "gmongo_ok E view"
  shows "gcoll_of d \<noteq> c \<Longrightarrow> moves view (\<lambda>V V'. V' c = V c) (dbInsert E ctx d)"
    and "gcoll_of d \<noteq> c \<Longrightarrow> moves view (\<lambda>V V'. V' c = V c) (dbRemove E ctx d)"
    and "gcoll_of d \<noteq> c \<Longrightarrow> moves view (\<lambda>V V'. V' c = V c) (dbUpdatePart E ctx d u)"
    and "gcoll_of d \<noteq> c \<Longrightarrow> moves view (\<lambda>V V'. V' c = V c) (dbUpdatePart2 E ctx d q u)"
    and "gcoll_of d \<noteq> c \<Longrightarrow> moves view (\<lambda>V V'. V' c = V c) (dbUpdateAll E ctx d)"
    and "c' \<noteq> c \<Longrightarrow> moves view (\<lambda>V V'. V' c = V c) (gmodify E ctx (GRemoveAll c' q))"
    and "c' \<noteq> c \<Longrightarrow> moves view (\<lambda>V V'. V' c = V c) (gmodify E ctx (GRemove c' q))"
    and "c' \<noteq> c \<Longrightarrow> moves view (\<lambda>V V'. V' c = V c) (gmodify E ctx (GUpdate c' q u))"
    and "c' \<noteq> c \<Longrightarrow> gcoll_of d = c' \<Longrightarrow> moves view (\<lambda>V V'. V' c = V c) (gmodify E ctx (GUpsert c' q u d))"
  unfolding dbInsert_def dbRemove_def dbUpdatePart_def dbUpdatePart2_def dbUpdateAll_def
  by (rule same.moves_gmodify [OF assms]; auto split: greply.splits)+

section \<open>Operations of functions\<close>

context gate_db
begin

lemma handlers_calm: "calm_call view (\<lambda>a. same_event ed (fst a)) (ev_start E fn ed)" "calm_call view (\<lambda>_. True) (ev_stop E ed)"
  by (rule table.start_calm, rule table.stop_calm)

end

text \<open>Collections only operations of functions write: changes there do not count.\<close>

definition side_colls :: "gcoll set" where
  "side_colls = {DBColEvents, DBColLogs, DBColFnStats, DBColFnStatsA, DBColTenStats, DBColTenStatsA}"

definition same_ident :: "gdoc \<Rightarrow> gdoc \<Rightarrow> bool" where
  "same_ident d d' \<longleftrightarrow> unique_cookie d' = unique_cookie d \<and> given_id d' = given_id d \<and> gcoll_of d' = gcoll_of d"

lemma same_ident_refl [simp]: "same_ident d d"
  by (simp add: same_ident_def)

locale func_order = view_order R for R +
  assumes side: "(\<And>c. c \<notin> side_colls \<Longrightarrow> V' c = V c) \<Longrightarrow> R V V'"
    and func_upd: "V DBColFunc k = Some d \<Longrightarrow> same_ident d d' \<Longrightarrow> R V (gput DBColFunc k (Some d') V)"
    and func_del: "R V (gput DBColFunc k None V)"
begin

lemma side_put: "c \<in> side_colls \<Longrightarrow> R V (gput c k d V)"
  by (rule side) (metis gput_coll)

lemma safe_side:
  assumes "gserves r rep V V'"
    and "case r of GInsert d \<Rightarrow> gcoll_of d \<in> side_colls | GUpdate c q u \<Rightarrow> c \<in> side_colls | GUpsert c q u d \<Rightarrow> c \<in> side_colls
      | GRemove c q \<Rightarrow> c \<in> side_colls | GRemoveAll c q \<Rightarrow> c \<in> side_colls | _ \<Rightarrow> True"
  shows "R V V'"
  using assms by (cases r) (auto simp: refl side_put intro: side split: greply.splits)

lemma safe_func:
  assumes "gserves r rep V V'"
    and "case r of GUpdate c q u \<Rightarrow> c = DBColFunc \<and> (\<forall>d. same_ident d (u d)) | GRemove c q \<Rightarrow> c = DBColFunc | _ \<Rightarrow> False"
  shows "R V V'"
  using assms by (cases r) (auto simp: refl func_del intro: func_upd split: greply.splits)

lemma moves_logs:
  assumes "gmongo_ok E view"
  shows "moves view R (logSaveEvent E ctx c m)" "moves view R (logRemove E ctx fn)" "moves view R (logSaveResult E c e s t)"
  unfolding logSaveEvent_def logRemove_def logSaveResult_def log_doc_def
  by (intro moves_case moves_gbind moves_gseq moves_gout moves_basic moves_gcall [OF assms] moves_gmodify [OF assms] moves_maybe;
      (erule safe_side, simp add: side_colls_def)?; simp add: gambient [OF assms])+

lemma moves_ToState: "gmongo_ok E view \<Longrightarrow> gmoves view R (ToState E ctx fn st from)"
  unfolding ToState_def dbUpdatePart2_def
  by (intro moves_gbind moves_liftx moves_basic moves_gmodify) (assumption, erule safe_func, auto simp: upd_fn_def same_ident_def split: gdoc.split)

lemma moves_tendat:
  assumes "gmongo_ok E view"
  shows "gmoves view R (tendatGetOrInit E t)"
  unfolding tendatGetOrInit_def dbTenStatsGet_def dbTenantGetLimits_def dbTenStatsGetLatestArch_def Let_def
  by (intro moves_rules moves_find [OF assms] moves_gout) (simp_all add: gambient [OF assms])

lemma moves_fndat_init:
  assumes "gmongo_ok E view"
  shows "gmoves view R (fndat_init E C pas fn rem)"
  unfolding fndat_init_def fn_stats_def authCtxGet_def Let_def
  by (intro moves_rules moves_find [OF assms] moves_gout moves_tendat [OF assms]) (simp_all add: gambient [OF assms])

lemma moves_statsDrop:
  assumes "gmongo_ok E view"
  shows "gmoves view R (statsDrop E C pas ctx fn)"
  unfolding statsDrop_def memdGetFnForRemoval_def fndatGetOrInit_def dbFnStatsDrop_def
  by (intro moves_rules moves_find [OF assms] moves_gout moves_fndat_init [OF assms] moves_gcall [OF assms];
      (erule safe_side, simp add: side_colls_def)?; simp add: gambient [OF assms])

lemma moves_calm: "calm_call view P f \<Longrightarrow> gmoves view R f"
  unfolding moves_def using calm_callD [of view P f] by (metis prod.collapse refl untouched_def)

lemma moves_ev_Delete:
  assumes "gmongo_ok E view"
  shows "gmoves view R (ev_Delete E ctx ed)"
  unfolding ev_Delete_def delete_with_def dbUpdatePart_def dbRemove_def
  by (intro moves_rules moves_calm [OF gate_db.handlers_calm(2) [OF gate_db.intro [OF assms]]] moves_gmodify [OF assms];
      erule safe_side, simp add: side_colls_def)

lemma moves_clearAllEvents:
  assumes "gmongo_ok E view"
  shows "gmoves view R (clearAllEvents E ctx fn)"
  unfolding clearAllEvents_def by (intro moves_rules moves_find [OF assms] moves_ev_Delete [OF assms])

lemma moves_ev_Add:
  assumes "gmongo_ok E view"
  shows "gmoves view R (ev_Add E ctx fn ed)"
  unfolding ev_Add_def Let_def dbInsert_def dbUpdateAll_def dbRemove_def
  by (intro moves_rules moves_gout moves_calm [OF gate_db.handlers_calm(2) [OF gate_db.intro [OF assms]]]
      moves_calm [OF gate_db.handlers_calm(1) [OF gate_db.intro [OF assms]]] moves_gmodify [OF assms];
      (erule safe_side, simp add: side_colls_def)?; simp add: gambient [OF assms])

lemma moves_removeSources: "gmongo_ok E view \<Longrightarrow> moves view R (removeSources E fn)"
  unfolding removeSources_def by (intro moves_gbind moves_gout moves_basic) (simp add: gambient)

lemma moves_fn_Del:
  assumes "gmongo_ok E view"
  shows "gmoves view R (fn_Del E C pas ctx fn)"
  unfolding fn_Del_def del_rest_def drop_events_def drop_stats_def drop_logs_def drop_desc_def memdGone_def dbRemove_def
  by (intro moves_rules moves_ToState [OF assms] moves_quiet [OF quiet_k8sRemove [OF assms]] moves_clearAllEvents [OF assms]
      moves_statsDrop [OF assms] moves_logs [OF assms] moves_removeSources [OF assms] moves_gmodify [OF assms];
      (erule safe_func)?; simp)

lemma moves_removeFunctionId:
  assumes "gmongo_ok E view"
  shows "gmoves view R (removeFunctionId E C pas ctx i)"
  unfolding removeFunctionId_def find_fn_def by (intro moves_rules moves_find [OF assms] moves_fn_Del [OF assms])

end

section \<open>Documents only disappear\<close>

definition own_colls :: "gcoll set" where
  "own_colls = {DBColFunc, DBColMware, DBColRouters, DBColDeploy}"

definition shrunk :: "gview \<Rightarrow> gview \<Rightarrow> bool" where
  "shrunk V V' \<longleftrightarrow> (\<forall>c \<in> own_colls. \<forall>k d'. V' c k = Some d' \<longrightarrow> (\<exists>d. V c k = Some d \<and> same_ident d d'))"

lemma shrunk_del: "shrunk V (gput c k None V)"
  by (auto simp: shrunk_def gput_def)

lemma shrunk_upd: "V c k = Some d \<Longrightarrow> same_ident d d' \<Longrightarrow> shrunk V (gput c k (Some d') V)"
  by (auto simp: shrunk_def gput_def)

interpretation shr: func_order shrunk
proof
  show "shrunk V V" for V by (auto simp: shrunk_def)
  show "shrunk V V2" if "shrunk V V1" "shrunk V1 V2" for V V1 V2
    using that unfolding shrunk_def same_ident_def by metis
  show "shrunk V V'" if "\<And>c. c \<notin> side_colls \<Longrightarrow> V' c = V c" for V V'
  proof -
    have "V' c = V c" if "c \<in> own_colls" for c
      by (rule \<open>\<And>c. c \<notin> side_colls \<Longrightarrow> V' c = V c\<close>) (use that in \<open>auto simp: own_colls_def side_colls_def\<close>)
    then show ?thesis by (auto simp: shrunk_def)
  qed
qed (simp_all add: shrunk_upd shrunk_del)

text \<open>Only what belongs to functions changes.\<close>

definition fn_only :: "gview \<Rightarrow> gview \<Rightarrow> bool" where
  "fn_only V V' \<longleftrightarrow> (\<forall>c. c \<notin> side_colls \<longrightarrow> c \<noteq> DBColFunc \<longrightarrow> V' c = V c)"

interpretation fno: func_order fn_only
  by unfold_locales (auto simp: fn_only_def)

text \<open>Middleware and routers.\<close>

lemma shr_db:
  assumes "gmongo_ok E view"
  shows "moves view shrunk (dbRemove E ctx d)"
    and "(\<And>d'. same_ident d' (u d')) \<Longrightarrow> moves view shrunk (dbUpdatePart E ctx d u)"
    and "(\<And>d'. same_ident d' (u d')) \<Longrightarrow> moves view shrunk (dbUpdatePart2 E ctx d q u)"
  unfolding dbRemove_def dbUpdatePart_def dbUpdatePart2_def
  by (rule shr.moves_gmodify [OF assms]; auto simp: shr.refl shrunk_del intro: shrunk_upd split: greply.splits)+

lemma shr_rt_Del: "gmongo_ok E view \<Longrightarrow> gmoves view shrunk (rt_Del E ctx rd)"
  unfolding rt_Del_def urlClean_def by (intro shr.moves_rules shr_db) simp_all

lemma upd_Mw_ident: "same_ident d (upd_Mw (\<lambda>m. m\<lparr>mw_State := st\<rparr>) d)"
  by (cases d) (simp_all add: same_ident_def)

lemma shr_mw_ToState: "gmongo_ok E view \<Longrightarrow> gmoves view shrunk (mw_ToState E ctx m st from)"
  unfolding mw_ToState_def by (intro shr.moves_rules shr_db) (assumption, rule upd_Mw_ident)

lemma shr_k8sSecretRemove: "gmongo_ok E view \<Longrightarrow> moves view shrunk (k8sSecretRemove E i)"
  unfolding k8sSecretRemove_def by (auto intro!: shr.moves_gbind shr.moves_gout shr.moves_basic simp: gambient split: k8s_reply.split)

lemma shr_mw_Fini:
  assumes "gmongo_ok E view"
  shows "gmoves view shrunk (mw_Fini E m)"
  unfolding mw_Fini_def Let_def FiniMariaDB_def FiniPostgres_def FiniRabbitMQ_def FiniMongo_def FiniAuthJWT_def FiniWebSocket_def wsCloseConns_def
    unless_err_def mariaConn_def mariaReq_def mariaDropQuota_def mariaDropUser_def mariaDropDb_def rabbitConn_def mgoDial_def
  by (intro shr.moves_rules shr.moves_gout) (simp_all add: gambient [OF assms])

lemma shr_mw_Del:
  assumes "gmongo_ok E view"
  shows "gmoves view shrunk (mw_Del E ctx m)"
  unfolding mw_Del_def mw_stalled_def unless_err_def
  by (intro shr.moves_rules shr_mw_ToState [OF assms] shr_mw_Fini [OF assms] shr_k8sSecretRemove [OF assms] shr_db [OF assms])

section \<open>Removal by cookie\<close>

definition idents :: "gview \<Rightarrow> bool" where
  "idents V \<longleftrightarrow> (\<forall>c \<in> own_colls. \<forall>k d. V c k = Some d \<longrightarrow> gcoll_of d = c \<and> given_id d = Some k)"

definition cookies_unique :: "gview \<Rightarrow> bool" where
  "cookies_unique V \<longleftrightarrow> (\<forall>c \<in> own_colls. \<forall>k k' d d' ck. V c k = Some d \<and> V c k' = Some d' \<and> unique_cookie d = Some ck \<and> unique_cookie d' = Some ck \<longrightarrow> k = k')"

definition no_cookie :: "gcoll \<Rightarrow> string \<Rightarrow> gview \<Rightarrow> bool" where
  "no_cookie c ck V \<longleftrightarrow> (\<forall>k d. V c k = Some d \<longrightarrow> unique_cookie d \<noteq> Some ck)"

lemma shrunk_idents: "shrunk V V' \<Longrightarrow> idents V \<Longrightarrow> idents V'"
  unfolding shrunk_def idents_def same_ident_def by metis

lemma shrunk_unique: "shrunk V V' \<Longrightarrow> cookies_unique V \<Longrightarrow> cookies_unique V'"
  unfolding shrunk_def cookies_unique_def same_ident_def by metis

lemma shrunk_no_cookie: "shrunk V V' \<Longrightarrow> c \<in> own_colls \<Longrightarrow> no_cookie c ck V \<Longrightarrow> no_cookie c ck V'"
  unfolding shrunk_def no_cookie_def same_ident_def by metis

lemma shrunk_gone: "shrunk V V' \<Longrightarrow> c \<in> own_colls \<Longrightarrow> V c k = None \<Longrightarrow> V' c k = None"
  unfolding shrunk_def by (metis not_None_eq)

lemma gids_idents: "gids_ok V \<Longrightarrow> idents V"
  unfolding idents_def own_colls_def
proof (intro ballI allI impI)
  fix c k d assume "gids_ok V" "c \<in> {DBColFunc, DBColMware, DBColRouters, DBColDeploy}" "V c k = Some d"
  with gids_okD [of V c k d] show "gcoll_of d = c \<and> given_id d = Some k" by (cases d) auto
qed

lemma removed_cookie:
  assumes "shrunk V V'" "c \<in> own_colls" "cookies_unique V" "V c k = Some d" "unique_cookie d = Some ck" "V' c k = None"
  shows "no_cookie c ck V'"
  using assms unfolding shrunk_def no_cookie_def cookies_unique_def same_ident_def by (metis option.distinct(1))

text \<open>Removing a document by its id, in a database that may have shrunk since it was read.\<close>

lemma wp_dbRemove_ident:
  assumes "gmongo_ok E view" and "idents (view x)" and "gcoll_of d = c" and "c \<in> own_colls" and "given_id d = Some k"
    and "\<And>x'. shrunk (view x) (view x') \<Longrightarrow> view x' c k = None \<Longrightarrow> Q (Ok ()) x'"
    and "\<And>e x'. shrunk (view x) (view x') \<Longrightarrow> (e = GNotFound \<longrightarrow> view x' c k = None) \<Longrightarrow> Q (Err e) x'"
  shows "wp (dbRemove E ctx d) Q x"
  unfolding dbRemove_def
proof (rule wp_gmodify [OF assms(1)], goal_cases)
  case (1 x')
  then obtain i d' where "view x c i = Some d'" "has_id (objid d) d'" and V: "view x' = gput c i None (view x)" using assms(3) by auto
  then have "i = k" using assms(2,4,5) by (auto simp: idents_def has_id_def objid_def)
  then show ?case using assms(6) V by (simp add: shrunk_del)
next
  case (2 x')
  then have m: "gmatch (view x) c (has_id (objid d)) = {}" "view x' = view x" using assms(3) by auto
  have "view x' c k = None"
  proof (rule ccontr)
    assume "view x' c k \<noteq> None"
    then obtain d' where "view x c k = Some d'" using m(2) by auto
    moreover have "given_id d' = Some k" using calculation assms(2,4) by (auto simp: idents_def)
    ultimately show False using m(1) assms(5) by (auto simp: gmatch_def has_id_def objid_def)
  qed
  then show ?case using assms(7) m(2) by (simp add: shr.refl)
next
  case (3 e x')
  then show ?case using assms(7) by (simp add: shr.refl)
next
  case (4 rep x')
  then show ?case by (auto split: greply.splits)
qed

lemma wp_moves: "moves h R f \<Longrightarrow> (\<And>r w'. R (h w) (h w') \<Longrightarrow> Q r w') \<Longrightarrow> wp f Q w"
  by (auto simp: wp_def moves_def split: prod.split) (metis snd_conv)

end
