(* ===== verification/Gate_Deploy.thy ===== *)
theory Gate_Deploy
  imports Gate_Repo Gate_Frame Base64
begin

text \<open>
  Deployments: \<open>src/gate/deploy.go\<close>. A description, read from the request, a repository or an URL, is turned into
  descriptors of functions, middleware and routers, which are started in the background and stopped together. The YAML and
  JSON codecs and the HTTP client are parameters in \<open>dep_env\<close>. The theorems say what the removal of a deployment leaves
  behind, and what a failed start leaves running.
\<close>

section \<open>Descriptions\<close>

record DeploySource =
  ds_Descr :: string
  ds_Repo :: string
  ds_URL :: string

record DeployDescription =
  ddn_Include :: "DeploySource list"
  ddn_Functions :: "(FunctionAdd \<times> FunctionEvent list) list"
  ddn_Mwares :: "MwareAdd list"
  ddn_Routers :: "(string \<times> RouterEntry list) list"
  ddn_Labels :: "string list"

record 'x dep_env =
  json_src_out :: "FunctionSources \<Rightarrow> string"
  json_src_in :: "string \<Rightarrow> string + FunctionSources"
  yaml_deploy :: "string \<Rightarrow> string + DeployDescription"
  ReadFromURL :: "string \<Rightarrow> 'x \<Rightarrow> (string + string) \<times> 'x"
  maxIncludeDepth :: int

definition DBDepStateIni :: int where "DBDepStateIni = 1"
definition DBDepStateRdy :: int where "DBDepStateRdy = 2"
definition DBDepStateStl :: int where "DBDepStateStl = 3"
definition DBDepStateTrm :: int where "DBDepStateTrm = 4"

definition depStates :: "(int \<times> string) list" where
  "depStates = [(DBDepStateIni, ''initializing''), (DBDepStateRdy, ''ready''), (DBDepStateStl, ''stalled''), (DBDepStateTrm, ''terminating'')]"

definition getDeployDesc :: "'x gate_env \<Rightarrow> SwoId \<Rightarrow> DeployDesc" where
  "getDeployDesc E i = \<lparr>dd_ObjID = [], dd_SwoId = i, dd_Labels = [], dd_Cookie = Cookie (Cookify E) i, dd_State = DBDepStateIni,
     dd_Functions = [], dd_Mwares = [], dd_Routers = []\<rparr>"

text \<open>\<open>bytes.Replace\<close> of every occurrence of a text that is not empty.\<close>

function replace_all :: "string \<Rightarrow> string \<Rightarrow> string \<Rightarrow> string" where
  "replace_all old new s = (case Index s old of None \<Rightarrow> s
     | Some i \<Rightarrow> if old = [] \<or> s = [] then s else take i s @ new @ replace_all old new (drop (i + length old) s))"
  by auto
termination by (relation "measure (\<lambda>(_, _, s). length s)") auto

declare replace_all.simps [simp del]

definition of_res :: "('e, 'a) res \<Rightarrow> ('w, 'e, 'a) go" where
  "of_res r = (\<lambda>w. (r, w))"

definition of_sum :: "'e + 'a \<Rightarrow> ('w, 'e, 'a) go" where
  "of_sum r = (case r of Inl e \<Rightarrow> gerr e | Inr a \<Rightarrow> gret a)"

definition add_functions :: "'x gate_env \<Rightarrow> 'x dep_env \<Rightarrow> string list \<Rightarrow> (FunctionAdd \<times> FunctionEvent list) list \<Rightarrow> DeployDesc \<Rightarrow> ('w, ReqErr, DeployDesc) go" where
  "add_functions E D labels = gfold (\<lambda>(fa, fevs) dep. case fa_Sources fa of
     None \<Rightarrow> gerr (GateErrM GateBadRequest ''Empty sources'')
   | Some src \<Rightarrow> let i = (dd_SwoId dep)\<lparr>Name := fa_Name fa\<rparr> in
       gbind (of_res (getFunctionDesc E i fa)) (\<lambda>fd.
       gbind (gfold (\<lambda>ev eds. gbind (of_sum (getEventDesc E ev)) (\<lambda>ed. gret (eds @ [ed]))) fevs []) (\<lambda>eds.
       gret (dep\<lparr>dd_Functions := dd_Functions dep @ [\<lparr>df_Id = i, df_Fn = Some (fd\<lparr>fn_Labels := labels\<rparr>), df_FnSrc = json_src_out D src,
         df_src = Some src, df_Evs = eds\<rparr>]\<rparr>))))"

definition add_mwares :: "'x gate_env \<Rightarrow> string list \<Rightarrow> MwareAdd list \<Rightarrow> DeployDesc \<Rightarrow> ('w, ReqErr, DeployDesc) go" where
  "add_mwares E labels = gfold (\<lambda>mw dep. let i = (dd_SwoId dep)\<lparr>Name := ma_Name mw\<rparr> in
     gbind (of_res (getMwareDesc E i mw)) (\<lambda>md.
     gret (dep\<lparr>dd_Mwares := dd_Mwares dep @ [\<lparr>dm_Id = i, dm_Mw = Some (md\<lparr>mw_Labels := labels\<rparr>)\<rparr>]\<rparr>)))"

definition add_routers :: "'x gate_env \<Rightarrow> string list \<Rightarrow> (string \<times> RouterEntry list) list \<Rightarrow> DeployDesc \<Rightarrow> ('w, ReqErr, DeployDesc) go" where
  "add_routers E labels = gfold (\<lambda>(name, table) dep. let i = (dd_SwoId dep)\<lparr>Name := name\<rparr> in
     gbind (of_res (getRouterDesc E i table)) (\<lambda>rt.
     gret (dep\<lparr>dd_Routers := dd_Routers dep @ [\<lparr>dr_Id = i, dr_Rt = Some (rt\<lparr>rd_Labels := labels\<rparr>)\<rparr>]\<rparr>)))"

text \<open>\<open>inc\<close> takes the items of an included description.\<close>

definition getItemsDesc :: "'x gate_env \<Rightarrow> 'x dep_env \<Rightarrow> (DeploySource \<Rightarrow> DeployDesc \<Rightarrow> ('x, ReqErr, DeployDesc) go) \<Rightarrow> DeployDescription \<Rightarrow> string list
    \<Rightarrow> DeployDesc \<Rightarrow> ('x, ReqErr, DeployDesc) go" where
  "getItemsDesc E D inc dd labels dep =
     gbind (gfold inc (ddn_Include dd) dep) (\<lambda>dep.
     gbind (add_functions E D labels (ddn_Functions dd) dep) (\<lambda>dep.
     gbind (add_mwares E labels (ddn_Mwares dd) dep) (\<lambda>dep.
     add_routers E labels (ddn_Routers dd) dep)))"

definition StdDecodeString :: "string \<Rightarrow> string option" where
  "StdDecodeString s = DecodeString (map url_of_std s)"

text \<open>The text of a description, and whether it is from the trusted repository.\<close>

definition dep_text :: "'x gate_env \<Rightarrow> 'x repo_env \<Rightarrow> 'x dep_env \<Rightarrow> gateContext \<Rightarrow> DeploySource \<Rightarrow> ('x, ReqErr, string \<times> bool) go" where
  "dep_text E R D ctx from =
     (if ds_Descr from \<noteq> [] then (case StdDecodeString (ds_Descr from) of
        None \<Rightarrow> gerr (GateErrE GateGenErr ''illegal base64 data'') | Some d \<Rightarrow> gret (d, False))
      else if ds_Repo from \<noteq> [] then gtry (repoReadFile E R ctx (ds_Repo from)) (\<lambda>r. case r of
        Inl e \<Rightarrow> gerr (GateErrE GateGenErr e)
      | Inr (d, rd) \<Rightarrow> gret (replace_all ''%repo%'' (rp_ObjID rd) d, trusted R rd))
      else if ds_URL from \<noteq> [] then gbind (gout (ReadFromURL D (ds_URL from))) (\<lambda>r. case r of
        Inl e \<Rightarrow> gerr (GateErrE GateGenErr e) | Inr d \<Rightarrow> gret (d, False))
      else gerr (GateErrM GateBadRequest ''Unsupported type''))"

text \<open>
  Labels of a trusted description. The map of the labels so far is never made: writing to it panics when there are any,
  and looking into it finds nothing.
\<close>

definition take_labels :: "bool \<Rightarrow> DeployDescription \<Rightarrow> string list \<Rightarrow> DeployDesc \<Rightarrow> (string list \<times> DeployDesc) option" where
  "take_labels tr dd labels dep = (if tr \<and> ddn_Labels dd \<noteq> [] then
     (if labels \<noteq> [] then None else Some (ddn_Labels dd, dep\<lparr>dd_Labels := ddn_Labels dd\<rparr>)) else Some (labels, dep))"

definition items_of :: "'x gate_env \<Rightarrow> 'x repo_env \<Rightarrow> 'x dep_env \<Rightarrow> gateContext \<Rightarrow> (string list \<Rightarrow> DeploySource \<Rightarrow> DeployDesc \<Rightarrow> ('x, ReqErr, DeployDesc) go)
    \<Rightarrow> (string \<times> string) list \<Rightarrow> string list \<Rightarrow> DeploySource \<Rightarrow> DeployDesc \<Rightarrow> ('x, ReqErr, DeployDesc) go" where
  "items_of E R D ctx inc params labels from dep =
     gbind (dep_text E R D ctx from) (\<lambda>(desc, tr).
     let desc = fold (\<lambda>(name, v). replace_all (''%'' @ name @ ''%'') v) params desc in
     case yaml_deploy D desc of
       Inl e \<Rightarrow> gerr (GateErrE GateBadRequest e)
     | Inr dd \<Rightarrow> gbind (deref (take_labels tr dd labels dep)) (\<lambda>(labels, dep). getItemsDesc E D (inc labels) dd labels dep))"

text \<open>The recursion of \<open>getItemsParams\<close>; the number is how much deeper includes may go.\<close>

primrec getItemsParams :: "'x gate_env \<Rightarrow> 'x repo_env \<Rightarrow> 'x dep_env \<Rightarrow> gateContext \<Rightarrow> (string \<times> string) list \<Rightarrow> nat \<Rightarrow> string list \<Rightarrow> DeploySource
    \<Rightarrow> DeployDesc \<Rightarrow> ('x, ReqErr, DeployDesc) go" where
  "getItemsParams E R D ctx params 0 = items_of E R D ctx (\<lambda>_ _ _. gerr (GateErrM GateBadRequest ''Too many includes'')) params"
| "getItemsParams E R D ctx params (Suc n) = items_of E R D ctx (getItemsParams E R D ctx params n) params"

definition getItems :: "'x gate_env \<Rightarrow> 'x repo_env \<Rightarrow> 'x dep_env \<Rightarrow> gateContext \<Rightarrow> DeploySource \<Rightarrow> (string \<times> string) list \<Rightarrow> DeployDesc \<Rightarrow> ('x, ReqErr, DeployDesc) go" where
  "getItems E R D ctx from params dep =
     (let params = (if map_of params ''name'' = None then params @ [(''name'', Name (dd_SwoId dep))] else params)
      in getItemsParams E R D ctx params (nat (maxIncludeDepth D)) [] from dep)"

section \<open>Starting and stopping\<close>

definition df_stop :: "'x gate_env \<Rightarrow> cfb \<Rightarrow> string \<Rightarrow> gateContext \<Rightarrow> DeployFunction \<Rightarrow> ('x gst, ReqErr, unit) go" where
  "df_stop E C pas ctx i = removeFunctionId E C pas ctx (df_Id i)"

definition dm_stop :: "'x gate_env \<Rightarrow> gateContext \<Rightarrow> DeployMware \<Rightarrow> ('x gst, ReqErr, unit) go" where
  "dm_stop E ctx i = mwareRemoveId E ctx (dm_Id i)"

definition dr_stop :: "'x gate_env \<Rightarrow> gateContext \<Rightarrow> DeployRouter \<Rightarrow> ('x gst, ReqErr, unit) go" where
  "dr_stop E ctx i = routerStopId E ctx (dr_Id i)"

definition df_start :: "'x gate_env \<Rightarrow> 'x dep_env \<Rightarrow> cfb \<Rightarrow> string \<Rightarrow> gateContext \<Rightarrow> DeployFunction \<Rightarrow> ('x gst, ReqErr, unit) go" where
  "df_start E D C pas ctx i =
     gbind (case df_src i of Some s \<Rightarrow> gret s | None \<Rightarrow> of_sum (map_sum (GateErrE GateGenErr) id (json_src_in D (df_FnSrc i)))) (\<lambda>src.
     gbind (deref (df_Fn i)) (\<lambda>fn.
     gbind (fn_Add E ctx fn (Some src)) (\<lambda>fn.
     geach (\<lambda>ed. gtry (ev_Add E ctx fn ed) (\<lambda>r. case r of
       Inl cerr \<Rightarrow> gseq (df_stop E C pas ctx i) (gerr cerr) | Inr _ \<Rightarrow> gret ())) (df_Evs i))))"

definition dm_start :: "'x gate_env \<Rightarrow> cfb \<Rightarrow> string \<Rightarrow> gateContext \<Rightarrow> DeployMware \<Rightarrow> ('x gst, ReqErr, MwareDesc) go" where
  "dm_start E C pas ctx i = gbind (deref (dm_Mw i)) (mw_Add E C pas ctx)"

definition dr_start :: "'x gate_env \<Rightarrow> gateContext \<Rightarrow> DeployRouter \<Rightarrow> ('x gst, ReqErr, RouterDesc) go" where
  "dr_start E ctx i = gbind (deref (dr_Rt i)) (rt_Add E ctx)"

text \<open>A loop that starts items: the index of the one that failed, if one did.\<close>

fun start_items :: "('i \<Rightarrow> ('w, ReqErr, 'a) go) \<Rightarrow> nat \<Rightarrow> 'i list \<Rightarrow> ('w, 'e, nat option) go" where
  "start_items start n [] = gret None"
| "start_items start n (i # is) = gtry (start i) (\<lambda>r. case r of Inl _ \<Rightarrow> gret (Some n) | Inr _ \<Rightarrow> start_items start (Suc n) is)"

text \<open>A loop that stops the first items; the last error that is not about a missing object is its result.\<close>

definition stop_items :: "('i \<Rightarrow> ('w, ReqErr, unit) go) \<Rightarrow> nat \<Rightarrow> 'i list \<Rightarrow> ('w, 'e, ReqErr option) go" where
  "stop_items stop till is = gfold (\<lambda>i err. gtry (stop i) (\<lambda>r. gret (case r of
     Inl e \<Rightarrow> if re_Code e \<noteq> GateNotFound then Some e else err | Inr _ \<Rightarrow> err))) (take till is) None"

definition deployStopFunctions :: "'x gate_env \<Rightarrow> cfb \<Rightarrow> string \<Rightarrow> gateContext \<Rightarrow> DeployDesc \<Rightarrow> nat \<Rightarrow> ('x gst, ReqErr, ReqErr option) go" where
  "deployStopFunctions E C pas ctx dep till = stop_items (df_stop E C pas ctx) till (dd_Functions dep)"

definition deployStopMwares :: "'x gate_env \<Rightarrow> gateContext \<Rightarrow> DeployDesc \<Rightarrow> nat \<Rightarrow> ('x gst, ReqErr, ReqErr option) go" where
  "deployStopMwares E ctx dep till = stop_items (dm_stop E ctx) till (dd_Mwares dep)"

definition deployStopRouters :: "'x gate_env \<Rightarrow> gateContext \<Rightarrow> DeployDesc \<Rightarrow> nat \<Rightarrow> ('x gst, ReqErr, ReqErr option) go" where
  "deployStopRouters E ctx dep till = stop_items (dr_stop E ctx) till (dd_Routers dep)"

fun upd_Dep :: "(DeployDesc \<Rightarrow> DeployDesc) \<Rightarrow> gdoc \<Rightarrow> gdoc" where
  "upd_Dep f (GDep d) = GDep (f d)"
| "upd_Dep f d = d"

definition dep_stalled :: "'x gate_env \<Rightarrow> gateContext \<Rightarrow> DeployDesc \<Rightarrow> ('x gst, ReqErr, unit) go" where
  "dep_stalled E ctx dep = gseq (liftx (dbUpdatePart E ctx (GDep dep) (upd_Dep (\<lambda>d. d\<lparr>dd_State := DBDepStateStl\<rparr>)))) (gret ())"

text \<open>The labels \<open>erm\<close>, \<open>erf\<close> and \<open>err\<close>.\<close>

definition dep_erm :: "'x gate_env \<Rightarrow> gateContext \<Rightarrow> DeployDesc \<Rightarrow> nat \<Rightarrow> ('x gst, ReqErr, unit) go" where
  "dep_erm E ctx dep ms = gseq (deployStopMwares E ctx dep ms) (dep_stalled E ctx dep)"

definition dep_erf :: "'x gate_env \<Rightarrow> cfb \<Rightarrow> string \<Rightarrow> gateContext \<Rightarrow> DeployDesc \<Rightarrow> nat \<Rightarrow> nat \<Rightarrow> ('x gst, ReqErr, unit) go" where
  "dep_erf E C pas ctx dep fs ms = gseq (deployStopFunctions E C pas ctx dep fs) (dep_erm E ctx dep ms)"

definition dep_err :: "'x gate_env \<Rightarrow> cfb \<Rightarrow> string \<Rightarrow> gateContext \<Rightarrow> DeployDesc \<Rightarrow> nat \<Rightarrow> nat \<Rightarrow> nat \<Rightarrow> ('x gst, ReqErr, unit) go" where
  "dep_err E C pas ctx dep rs fs ms = gseq (deployStopRouters E ctx dep rs) (dep_erf E C pas ctx dep fs ms)"

definition bare_function :: "DeployFunction \<Rightarrow> DeployFunction" where
  "bare_function f = \<lparr>df_Id = df_Id f, df_Fn = None, df_FnSrc = [], df_src = None, df_Evs = []\<rparr>"

definition dep_ready :: "DeployDesc \<Rightarrow> DeployDesc" where
  "dep_ready dep = dep\<lparr>dd_State := DBDepStateRdy, dd_Functions := map bare_function (dd_Functions dep),
     dd_Mwares := map (\<lambda>m. \<lparr>dm_Id = dm_Id m, dm_Mw = None\<rparr>) (dd_Mwares dep), dd_Routers := map (\<lambda>r. \<lparr>dr_Id = dr_Id r, dr_Rt = None\<rparr>) (dd_Routers dep)\<rparr>"

text \<open>After a loop that reached the end, its variable has the last index.\<close>

definition StartItems :: "'x gate_env \<Rightarrow> 'x dep_env \<Rightarrow> cfb \<Rightarrow> string \<Rightarrow> gateContext \<Rightarrow> DeployDesc \<Rightarrow> ('x gst, ReqErr, unit) go" where
  "StartItems E D C pas ctx dep =
     gbind (start_items (dm_start E C pas ctx) 0 (dd_Mwares dep)) (\<lambda>m. case m of Some ms \<Rightarrow> dep_erm E ctx dep ms | None \<Rightarrow>
     let ms = length (dd_Mwares dep) - 1 in
     gbind (start_items (df_start E D C pas ctx) 0 (dd_Functions dep)) (\<lambda>f. case f of Some fs \<Rightarrow> dep_erf E C pas ctx dep fs ms | None \<Rightarrow>
     let fs = length (dd_Functions dep) - 1 in
     gbind (start_items (dr_start E ctx) 0 (dd_Routers dep)) (\<lambda>r. case r of Some rs \<Rightarrow> dep_err E C pas ctx dep rs fs ms | None \<Rightarrow>
     gseq (liftx (dbUpdateAll E ctx (GDep (dep_ready dep)))) (gret ()))))"

definition or_fail :: "('w, 'e, 'e option) go \<Rightarrow> ('w, 'e, unit) go" where
  "or_fail f = gbind f (\<lambda>r. case r of Some e \<Rightarrow> gerr e | None \<Rightarrow> gret ())"

definition StopItems :: "'x gate_env \<Rightarrow> cfb \<Rightarrow> string \<Rightarrow> gateContext \<Rightarrow> DeployDesc \<Rightarrow> ('x gst, ReqErr, unit) go" where
  "StopItems E C pas ctx dep =
     gbind (or_fail (deployStopRouters E ctx dep (length (dd_Routers dep)))) (\<lambda>_.
     gbind (or_fail (deployStopFunctions E C pas ctx dep (length (dd_Functions dep)))) (\<lambda>_.
     or_fail (deployStopMwares E ctx dep (length (dd_Mwares dep)))))"

text \<open>The goroutines run for the administrator, on behalf of the tenant of the deployment.\<close>

definition dep_ctx :: "DeployDesc \<Rightarrow> gateContext" where
  "dep_ctx dep = mkContext\<lparr>gx_Tenant := Tennant (dd_SwoId dep)\<rparr>"

definition deployStartItems :: "'x gate_env \<Rightarrow> 'x dep_env \<Rightarrow> cfb \<Rightarrow> string \<Rightarrow> DeployDesc \<Rightarrow> ('x gst, ReqErr, unit) go" where
  "deployStartItems E D C pas dep = StartItems E D C pas (dep_ctx dep) dep"

definition deployRestartItems :: "'x gate_env \<Rightarrow> 'x dep_env \<Rightarrow> cfb \<Rightarrow> string \<Rightarrow> DeployDesc \<Rightarrow> ('x gst, ReqErr, unit) go" where
  "deployRestartItems E D C pas dep = gtry (StopItems E C pas (dep_ctx dep) dep) (\<lambda>r. case r of
     Inl _ \<Rightarrow> gret () | Inr _ \<Rightarrow> StartItems E D C pas (dep_ctx dep) dep)"

definition deployStopItems :: "'x gate_env \<Rightarrow> cfb \<Rightarrow> string \<Rightarrow> DeployDesc \<Rightarrow> ('x gst, ReqErr, unit) go" where
  "deployStopItems E C pas dep = gseq (StopItems E C pas (dep_ctx dep) dep) (gret ())"

text \<open>The document as the database has it: sources are not stored.\<close>

definition stored_dep :: "DeployDesc \<Rightarrow> DeployDesc" where
  "stored_dep dep = dep\<lparr>dd_Functions := map (\<lambda>f. f\<lparr>df_src := None\<rparr>) (dd_Functions dep)\<rparr>"

definition dep_Start :: "'x gate_env \<Rightarrow> gateContext \<Rightarrow> DeployDesc \<Rightarrow> ('x gst, ReqErr, DeployDesc) go" where
  "dep_Start E ctx dep = gbind (liftx (gout (gnewid E))) (\<lambda>i. let dep = dep\<lparr>dd_ObjID := i\<rparr> in
     gbind (or_GateErrD (dbInsert E ctx (GDep (stored_dep dep)))) (\<lambda>_. gret dep))"

definition dep_Add :: "'x gate_env \<Rightarrow> 'x repo_env \<Rightarrow> 'x dep_env \<Rightarrow> gateContext \<Rightarrow> DeploySource \<Rightarrow> (string \<times> string) list \<Rightarrow> DeployDesc \<Rightarrow> ('x gst, ReqErr, DeployDesc) go" where
  "dep_Add E R D ctx from params dep = gbind (liftx (getItems E R D ctx from params dep)) (dep_Start E ctx)"

definition dep_Del :: "'x gate_env \<Rightarrow> cfb \<Rightarrow> string \<Rightarrow> gateContext \<Rightarrow> DeployDesc \<Rightarrow> ('x gst, ReqErr, unit) go" where
  "dep_Del E C pas ctx dep =
     gbind (or_GateErrD (dbUpdatePart E ctx (GDep dep) (upd_Dep (\<lambda>d. d\<lparr>dd_State := DBDepStateTrm\<rparr>)))) (\<lambda>_.
     gbind (StopItems E C pas ctx dep) (\<lambda>_.
     or_GateErrD (dbRemove E ctx (GDep dep))))"

section \<open>Stopping is complete\<close>

text \<open>Nothing is left to stop: it was stopped now, or it was not there.\<close>

definition settled :: "(ReqErr, unit) res \<Rightarrow> bool" where
  "settled r \<longleftrightarrow> r = Ok () \<or> (\<exists>e. r = Err e \<and> re_Code e = GateNotFound)"

lemma settled_simps [simp]:
  "settled (Ok ())" "\<not> settled Panic" "settled (Err (GateErrD e)) \<longleftrightarrow> e = GNotFound" "\<not> settled (Err (GateErrM GateGenErr m))"
  "\<not> settled (Err (GateErrE GateGenErr m))" "\<not> settled (Err (GateErrC GateGenErr))"
  by (auto simp: settled_def GateErrD_def GateErrC_def GateErrM_def GateErrE_def gate_codes split: gdberr.splits)

lemma cookie_field: "gcoll_of d \<in> {DBColFunc, DBColMware, DBColRouters} \<Longrightarrow> where_field ''cookie'' ck d \<longleftrightarrow> unique_cookie d = Some ck"
  by (cases d) (auto simp: where_field_def doc_field_def)

lemma none_with_cookie:
  assumes "idents V" "c \<in> {DBColFunc, DBColMware, DBColRouters}" "gmatch V c (where_field ''cookie'' ck) = {}"
  shows "no_cookie c ck V"
  unfolding no_cookie_def
proof (intro allI impI notI)
  fix k d assume d: "V c k = Some d" "unique_cookie d = Some ck"
  then have "gcoll_of d = c" using assms(1,2) by (auto simp: idents_def own_colls_def)
  then have "where_field ''cookie'' ck d" using cookie_field [of d ck] assms(2) d(2) by simp
  then show False using assms(3) d(1) by (auto simp: gmatch_def)
qed

lemma found_cookie:
  assumes "idents V" "c \<in> {DBColFunc, DBColMware, DBColRouters}" "V c k = Some d" "where_field ''cookie'' ck d"
  shows "gcoll_of d = c \<and> given_id d = Some k \<and> unique_cookie d = Some ck"
proof -
  have "gcoll_of d = c \<and> given_id d = Some k" using assms(1-3) by (auto simp: idents_def own_colls_def)
  then show ?thesis using cookie_field [of d ck] assms(2,4) by simp
qed

lemma wp_dr_stop:
  assumes E: "gmongo_ok E view" and ids: "idents (view (outer w))" and un: "cookies_unique (view (outer w))"
  shows "wp (dr_stop E ctx i) (\<lambda>r w'. settled r \<longrightarrow> no_cookie DBColRouters (Cookie (Cookify E) (dr_Id i)) (view (outer w'))) w"
  unfolding dr_stop_def routerStopId_def wp_gtry wp_liftx
proof (rule wp_dbFind [OF E], goal_cases)
  case (1 k d x)
  note f = found_cookie [OF ids _ 1(1,2)]
  then obtain rd where d: "d = GRt rd" by (cases d) auto
  have gone: "no_cookie DBColRouters (Cookie (Cookify E) (dr_Id i)) V'" if "shrunk (view x) V'" "V' DBColRouters k = None" for V'
    using removed_cookie [OF that(1) _ _ _ _ that(2)] 1 f un by (simp add: own_colls_def)
  have "wp (rt_Del E ctx rd) (\<lambda>r w'. settled r \<longrightarrow> no_cookie DBColRouters (Cookie (Cookify E) (dr_Id i)) (view (outer w'))) (w\<lparr>outer := x\<rparr>)"
    unfolding rt_Del_def urlClean_def wp_gtry wp_liftx
    by (rule wp_dbRemove_ident [OF E, where c = DBColRouters and k = k]) (use 1 f d gone ids in \<open>auto simp: own_colls_def wp_simps\<close>)
  then show ?case by (simp add: d)
next
  case (2 x)
  then show ?case using none_with_cookie [OF ids, of DBColRouters] by (simp add: wp_gerr)
next
  case (3 e x)
  then show ?case by (simp add: wp_gerr)
qed

lemma shr_dr_stop: "gmongo_ok E view \<Longrightarrow> gmoves view shrunk (dr_stop E ctx i)"
  unfolding dr_stop_def routerStopId_def by (intro shr.moves_rules shr.moves_find shr_rt_Del)

text \<open>Drivers report failures as a value, never as an error of the API.\<close>

definition noerr :: "('w, 'e, 'a) go \<Rightarrow> bool" where
  "noerr f \<longleftrightarrow> (\<forall>w e. fst (f w) \<noteq> Err e)"

lemma noerr_rules:
  "noerr (gret a)" "noerr gpanic" "noerr (deref q)" "noerr (gget g)" "noerr (gmod m)" "noerr (gout u)" "noerr f \<Longrightarrow> noerr (liftx f)"
  by (simp_all add: noerr_def gret_def gpanic_def deref_def gget_def gmod_def gout_def liftx_def split: option.split prod.split) (metis fst_conv)

lemma noerr_gbind: "noerr f \<Longrightarrow> (\<And>a. noerr (k a)) \<Longrightarrow> noerr (gbind f k)"
  by (auto simp: noerr_def gbind_def split: prod.split res.split) (metis fst_conv)

lemma noerr_geach: "(\<And>a. noerr (f a)) \<Longrightarrow> noerr (geach f as)"
  by (induction "as") (auto intro: noerr_rules noerr_gbind)

lemma noerr_mw_Fini: "noerr (mw_Fini E m)"
  unfolding mw_Fini_def Let_def FiniMariaDB_def FiniPostgres_def FiniRabbitMQ_def FiniMongo_def FiniAuthJWT_def FiniWebSocket_def wsCloseConns_def
    unless_err_def mariaConn_def mariaReq_def mariaDropQuota_def mariaDropUser_def mariaDropDb_def rabbitConn_def mgoDial_def
  by (auto intro!: noerr_rules noerr_gbind noerr_geach split: option.split prod.split)

lemma wp_moves_noerr:
  assumes "moves h R f" "noerr f" "\<And>a w'. R (h w) (h w') \<Longrightarrow> Q (Ok a) w'" "\<And>w'. R (h w) (h w') \<Longrightarrow> Q Panic w'"
  shows "wp f Q w"
proof (rule wpI)
  fix r w' assume f: "f w = (r, w')"
  then show "Q r w'" using movesD [OF assms(1) f] assms(2-4) by (cases r) (auto simp: noerr_def, metis fst_conv)
qed

text \<open>The last steps of the removal of middleware, in a database that may have shrunk since it was found.\<close>

definition mw_del_tail :: "'x gate_env \<Rightarrow> gateContext \<Rightarrow> MwareDesc \<Rightarrow> ('x gst, ReqErr, unit) go" where
  "mw_del_tail E ctx item = gtry (liftx (dbRemove E ctx (GMw item))) (\<lambda>r. case r of Inl e \<Rightarrow> mw_stalled E ctx item (db_msg e) | Inr _ \<Rightarrow> gret ())"

definition mw_del_rest :: "'x gate_env \<Rightarrow> gateContext \<Rightarrow> MwareDesc \<Rightarrow> ('x gst, ReqErr, unit) go" where
  "mw_del_rest E ctx item = unless_err (mw_Fini E item) (mw_stalled E ctx item)
     (gtry (liftx (k8sSecretRemove E (''mw-'' @ mw_Cookie item))) (\<lambda>r. case r of Inl e \<Rightarrow> mw_stalled E ctx item e | Inr _ \<Rightarrow> mw_del_tail E ctx item))"

lemma mw_Del_steps: "mw_Del E ctx item = (if mw_MwareType item \<notin> set mw_types then gerr (GateErrC GateGenErr)
  else gtry (mw_ToState E ctx item DBMwareStateTrm (mw_State item)) (\<lambda>r. case r of
    Inl _ \<Rightarrow> gerr (GateErrM GateGenErr ''Cannot terminate mware'') | Inr item \<Rightarrow> mw_del_rest E ctx item))"
  unfolding mw_Del_def mw_del_rest_def mw_del_tail_def ..

lemma wp_mw_stalled_any:
  assumes "gmongo_ok E view"
  shows "wp (mw_stalled E ctx m e) (\<lambda>r w'. settled r \<longrightarrow> P w') w"
  unfolding mw_stalled_def wp_gseq
proof (rule wp_moves [OF shr_mw_ToState [OF assms]])
  fix r w' show "on_any (\<lambda>_. wp (gerr (GateErrE GateGenErr e)) (\<lambda>r w'. settled r \<longrightarrow> P w')) (\<lambda>r w'. settled r \<longrightarrow> P w') r w'"
    by (cases r) (simp_all add: wp_gerr)
qed

lemma wp_mw_del_rest:
  fixes w :: "'x gst"
  assumes E: "gmongo_ok E view" and ids: "idents (view (outer w))" and id: "mw_ObjID m = k"
    and gone: "\<And>V'. shrunk (view (outer w)) V' \<Longrightarrow> V' DBColMware k = None \<Longrightarrow> P V'"
  shows "wp (mw_del_rest E ctx m) (\<lambda>r w'. settled r \<longrightarrow> P (view (outer w'))) w"
  unfolding mw_del_rest_def unless_err_def wp_gbind
proof (rule wp_moves_noerr [OF shr_mw_Fini [OF E] noerr_mw_Fini], goal_cases)
  case (1 a w1)
  have tail: "wp (mw_del_tail E ctx m) (\<lambda>r w'. settled r \<longrightarrow> P (view (outer w'))) w2" if s: "shrunk (view (outer w)) (view (outer w2))" for w2 :: "'x gst"
    unfolding mw_del_tail_def wp_gtry wp_liftx
  proof (rule wp_dbRemove_ident [OF E shrunk_idents [OF s ids], where c = DBColMware and k = k], goal_cases)
    case (4 x')
    then show ?case using gone [OF shr.trans [OF s]] by (simp add: wp_gret)
  next
    case (5 e x')
    then show ?case by (simp add: wp_mw_stalled_any [OF E])
  qed (simp_all add: own_colls_def id)
  have "wp (gtry (liftx (k8sSecretRemove E s)) (\<lambda>r. case r of Inl e \<Rightarrow> mw_stalled E ctx m e | Inr _ \<Rightarrow> mw_del_tail E ctx m))
      (\<lambda>r w'. settled r \<longrightarrow> P (view (outer w'))) w1" for s
    unfolding wp_gtry
  proof (rule wp_moves [OF moves_liftx [OF shr_k8sSecretRemove [OF E]]])
    fix r and w2 :: "'x gst" assume s: "shrunk (view (outer w1)) (view (outer w2))"
    show "on_any (\<lambda>a. wp (case a of Inl e \<Rightarrow> mw_stalled E ctx m e | Inr _ \<Rightarrow> mw_del_tail E ctx m) (\<lambda>r w'. settled r \<longrightarrow> P (view (outer w'))))
      (\<lambda>r w'. settled r \<longrightarrow> P (view (outer w'))) r w2"
      by (cases r) (simp_all add: wp_mw_stalled_any [OF E] tail [OF shr.trans [OF 1 s]])
  qed
  then show ?case by (cases a) (simp_all add: wp_mw_stalled_any [OF E])
qed simp

lemma wp_dm_stop:
  fixes w :: "'x gst"
  assumes E: "gmongo_ok E view" and ids: "idents (view (outer w))" and un: "cookies_unique (view (outer w))"
  shows "wp (dm_stop E ctx i) (\<lambda>r w'. settled r \<longrightarrow> no_cookie DBColMware (Cookie (Cookify E) (dm_Id i)) (view (outer w'))) w"
  unfolding dm_stop_def mwareRemoveId_def wp_gtry wp_liftx
proof (rule wp_dbFind [OF E], goal_cases)
  case (1 k d x)
  note f = found_cookie [OF ids _ 1(1,2)]
  then obtain m where d: "d = GMw m" by (cases d) auto
  have gone: "no_cookie DBColMware (Cookie (Cookify E) (dm_Id i)) V'" if "shrunk (view x) V'" "V' DBColMware k = None" for V'
    using removed_cookie [OF that(1) _ _ _ _ that(2)] 1 f un by (simp add: own_colls_def)
  have u: "gmoves view shrunk (liftx (dbUpdatePart2 E ctx (GMw m) q (upd_Mw (\<lambda>m. m\<lparr>mw_State := s\<rparr>))))" for q s
    by (rule moves_liftx [OF shr_db(3) [OF E upd_Mw_ident]])
  have "wp (mw_Del E ctx m) (\<lambda>r w'. settled r \<longrightarrow> no_cookie DBColMware (Cookie (Cookify E) (dm_Id i)) (view (outer w'))) (w\<lparr>outer := x\<rparr>)"
    (is "wp _ ?Q _")
  proof (cases "mw_MwareType m \<in> set mw_types")
    case True
    have "wp (mw_ToState E ctx m DBMwareStateTrm (mw_State m)) (on_any (\<lambda>r. wp (case r of
      Inl _ \<Rightarrow> gerr (GateErrM GateGenErr ''Cannot terminate mware'') | Inr item \<Rightarrow> mw_del_rest E ctx item) ?Q) ?Q) (w\<lparr>outer := x\<rparr>)"
      unfolding mw_ToState_def wp_gbind
    proof (rule wp_moves [OF u])
      fix r and w1 :: "'x gst" assume s: "shrunk (view (outer (w\<lparr>outer := x\<rparr>))) (view (outer w1))"
      have "wp (mw_del_rest E ctx (m\<lparr>mw_State := DBMwareStateTrm\<rparr>)) ?Q w1"
        by (rule wp_mw_del_rest [OF E, where k = k])
          (use s f d ids 1(3) gone in \<open>auto intro: shrunk_idents shr.trans\<close>)
      then show "on_ok (\<lambda>_. wp (gret (m\<lparr>mw_State := DBMwareStateTrm\<rparr>)) (on_any (\<lambda>r. wp (case r of
        Inl _ \<Rightarrow> gerr (GateErrM GateGenErr ''Cannot terminate mware'') | Inr item \<Rightarrow> mw_del_rest E ctx item) ?Q) ?Q))
        (on_any (\<lambda>r. wp (case r of Inl _ \<Rightarrow> gerr (GateErrM GateGenErr ''Cannot terminate mware'') | Inr item \<Rightarrow> mw_del_rest E ctx item) ?Q) ?Q) r w1"
        by (cases r) (simp_all add: wp_gret wp_gerr)
    qed
    then show ?thesis using True unfolding mw_Del_steps by (simp add: wp_gtry)
  qed (simp add: mw_Del_def wp_gerr)
  then show ?case by (simp add: d)
next
  case (2 x)
  then show ?case using none_with_cookie [OF ids, of DBColMware] by (simp add: wp_gerr)
next
  case (3 e x)
  then show ?case by (simp add: wp_gerr)
qed

lemma shr_dm_stop: "gmongo_ok E view \<Longrightarrow> gmoves view shrunk (dm_stop E ctx i)"
  unfolding dm_stop_def mwareRemoveId_def by (intro shr.moves_rules shr.moves_find shr_mw_Del)

lemma settled_genErr [simp]: "\<not> settled (Err (genErr m))"
  by (simp add: genErr_def)

lemma wp_fail_step:
  assumes "moves h R f" and "\<And>e. \<not> settled (Err (g e))" and "\<And>a w'. R (h w) (h w') \<Longrightarrow> wp (k a) (\<lambda>r w'. settled r \<longrightarrow> P w') w'"
  shows "wp (gbind (fail_as g f) k) (\<lambda>r w'. settled r \<longrightarrow> P w') w"
  unfolding wp_gbind wp_fail_as
proof (rule wp_moves [OF assms(1)])
  fix r w' assume "R (h w) (h w')"
  then show "on_ok (\<lambda>a. wp (k a) (\<lambda>r w'. settled r \<longrightarrow> P w')) (\<lambda>r w'. settled r \<longrightarrow> P w') (case r of Ok a \<Rightarrow> Ok a | Err e \<Rightarrow> Err (g e) | Panic \<Rightarrow> Panic) w'"
    using assms(2,3) by (cases r) simp_all
qed

lemma wp_drop_desc_settled:
  fixes w :: "'x gst"
  assumes E: "gmongo_ok E view" and ids: "idents (view (outer w))" and id: "fn_ObjID fn = k"
    and gone: "\<And>V'. shrunk (view (outer w)) V' \<Longrightarrow> V' DBColFunc k = None \<Longrightarrow> P V'"
  shows "wp (drop_desc E ctx fn) (\<lambda>r w'. settled r \<longrightarrow> P (view (outer w'))) w"
  unfolding drop_desc_def memdGone_def
proof (rule wp_fail_step [OF moves_liftx [OF shr.moves_removeSources [OF E]]])
  fix a and w1 :: "'x gst" assume s: "shrunk (view (outer w)) (view (outer w1))"
  have "wp (dbRemove E ctx (GFn fn)) (\<lambda>r x'. settled (case r of Ok a \<Rightarrow> Ok a | Err e \<Rightarrow> Err (genErr (db_msg e)) | Panic \<Rightarrow> Panic) \<longrightarrow> P (view x')) (outer w1)"
    by (rule wp_dbRemove_ident [OF E shrunk_idents [OF s ids], where c = DBColFunc and k = k])
      (use gone [OF shr.trans [OF s]] id in \<open>simp_all add: own_colls_def\<close>)
  then show "wp (gbind (gmod (\<lambda>w. w\<lparr>fdmd := (fdmd w)(fn_Cookie fn := None)\<rparr>)) (\<lambda>_. fail_as (\<lambda>e. genErr (db_msg e)) (liftx (dbRemove E ctx (GFn fn)))))
      (\<lambda>r w'. settled r \<longrightarrow> P (view (outer w'))) w1" by (simp add: wp_simps)
qed simp

lemma wp_drop_events_settled:
  fixes w :: "'x gst"
  assumes E: "gmongo_ok E view" and ids: "idents (view (outer w))" and id: "fn_ObjID fn = k"
    and gone: "\<And>V'. shrunk (view (outer w)) V' \<Longrightarrow> V' DBColFunc k = None \<Longrightarrow> P V'"
  shows "wp (drop_events E C pas ctx fn) (\<lambda>r w'. settled r \<longrightarrow> P (view (outer w'))) w"
  unfolding drop_events_def drop_stats_def drop_logs_def
proof (rule wp_fail_step [OF shr.moves_clearAllEvents [OF E]], simp,
    rule wp_fail_step [OF shr.moves_statsDrop [OF E]], simp, rule wp_fail_step [OF moves_liftx [OF shr.moves_logs(2) [OF E]]], simp)
  fix w1 w2 w3 :: "'x gst"
  assume s: "shrunk (view (outer w)) (view (outer w1))" "shrunk (view (outer w1)) (view (outer w2))" "shrunk (view (outer w2)) (view (outer w3))"
  then have "shrunk (view (outer w)) (view (outer w3))" by (blast intro: shr.trans)
  then show "wp (drop_desc E ctx fn) (\<lambda>r w'. settled r \<longrightarrow> P (view (outer w'))) w3"
    using wp_drop_desc_settled [OF E shrunk_idents id] ids gone shr.trans by blast
qed

lemma wp_df_stop:
  fixes w :: "'x gst"
  assumes E: "gmongo_ok E view" and ids: "idents (view (outer w))" and un: "cookies_unique (view (outer w))"
  shows "wp (df_stop E C pas ctx i) (\<lambda>r w'. settled r \<longrightarrow> no_cookie DBColFunc (Cookie (Cookify E) (df_Id i)) (view (outer w'))) w"
    (is "wp _ ?Q _")
  unfolding df_stop_def removeFunctionId_def find_fn_def wp_gbind wp_or_GateErrD
proof (rule wp_dbFind [OF E], goal_cases)
  case (1 k d x)
  note f = found_cookie [OF ids _ 1(1,2)]
  then obtain fn where d: "d = GFn fn" by (cases d) auto
  have gone: "no_cookie DBColFunc (Cookie (Cookify E) (df_Id i)) V'" if "shrunk (view x) V'" "V' DBColFunc k = None" for V'
    using removed_cookie [OF that(1) _ _ _ _ that(2)] 1 f un by (simp add: own_colls_def)
  have ev: "wp (drop_events E C pas ctx fn') ?Q w2" if "fn_ObjID fn' = k" "shrunk (view x) (view (outer w2))" for fn' and w2 :: "'x gst"
    by (rule wp_drop_events_settled [OF E shrunk_idents [OF that(2)] that(1)]) (use ids 1(3) gone shr.trans [OF that(2)] in simp_all)
  have rest: "wp (del_rest E C pas ctx b fn') ?Q w1" if "fn_ObjID fn' = k" "shrunk (view x) (view (outer w1))" for fn' b and w1 :: "'x gst"
  proof (cases b)
    case False
    show ?thesis unfolding del_rest_def if_P [OF False]
      by (rule wp_fail_step [OF shr.moves_quiet [OF quiet_k8sRemove [OF E]]]) (simp_all add: ev [OF that(1) shr.trans [OF that(2)]])
  qed (simp add: del_rest_def ev [OF that])
  have u: "gmoves view shrunk (liftx (dbUpdatePart2 E ctx (GFn fn) q (upd_fn (\<lambda>x. x\<lparr>fn_State := s\<rparr>))))" for q s
    by (rule moves_liftx [OF shr_db(3) [OF E]]) (simp add: upd_fn_def same_ident_def split: gdoc.split)
  have "wp (fn_Del E C pas ctx fn) ?Q (w\<lparr>outer := x\<rparr>)"
  proof (cases "may_terminate (fn_State fn)")
    case True
    have "wp (ToState E ctx fn DBFuncStateTrm (fn_State fn)) (\<lambda>r. on_ok (\<lambda>fn'. wp (del_rest E C pas ctx (fn_State fn = DBFuncStateDea) fn') ?Q) ?Q
      (case r of Ok a \<Rightarrow> Ok a | Err e \<Rightarrow> Err (GateErrM GateGenErr ''Cannot terminate fn'') | Panic \<Rightarrow> Panic)) (w\<lparr>outer := x\<rparr>)"
      unfolding ToState_def wp_gbind
    proof (rule wp_moves [OF u])
      fix r and w1 :: "'x gst" assume "shrunk (view (outer (w\<lparr>outer := x\<rparr>))) (view (outer w1))"
      then have "wp (del_rest E C pas ctx (fn_State fn = DBFuncStateDea) (fn\<lparr>fn_State := DBFuncStateTrm\<rparr>)) ?Q w1" using f d by (intro rest) simp_all
      then show "on_ok (\<lambda>_. wp (gret (fn\<lparr>fn_State := DBFuncStateTrm\<rparr>)) (\<lambda>r. on_ok (\<lambda>fn'. wp (del_rest E C pas ctx (fn_State fn = DBFuncStateDea) fn') ?Q) ?Q
        (case r of Ok a \<Rightarrow> Ok a | Err e \<Rightarrow> Err (GateErrM GateGenErr ''Cannot terminate fn'') | Panic \<Rightarrow> Panic)))
        (\<lambda>r. on_ok (\<lambda>fn'. wp (del_rest E C pas ctx (fn_State fn = DBFuncStateDea) fn') ?Q) ?Q
        (case r of Ok a \<Rightarrow> Ok a | Err e \<Rightarrow> Err (GateErrM GateGenErr ''Cannot terminate fn'') | Panic \<Rightarrow> Panic)) r w1"
        by (cases r) (simp_all add: wp_gret)
    qed
    then show ?thesis using True by (simp add: fn_Del_def wp_gbind wp_fail_as)
  qed (simp add: fn_Del_def wp_gerr)
  then show ?case by (simp add: d wp_gret)
next
  case (2 x)
  then show ?case using none_with_cookie [OF ids, of DBColFunc] by simp
next
  case (3 e x)
  then show ?case by simp
qed

lemma shr_df_stop: "gmongo_ok E view \<Longrightarrow> gmoves view shrunk (df_stop E C pas ctx i)"
  unfolding df_stop_def by (rule shr.moves_removeFunctionId)

lemma wp_conjI: "wp f P w \<Longrightarrow> wp f Q w \<Longrightarrow> wp f (\<lambda>r w'. P r w' \<and> Q r w') w"
  by (auto simp: wp_def split: prod.splits)

lemma wp_of_moves: "moves h R f \<Longrightarrow> wp f (\<lambda>r w'. R (h w) (h w')) w"
  by (rule wp_moves)

text \<open>A loop over all items with one kind of stop.\<close>

lemma wp_stop_loop:
  fixes w :: "'x gst"
  assumes mv: "\<And>i. gmoves view shrunk (stop i)" and c: "c \<in> own_colls"
    and st: "\<And>i w. idents (view (outer w)) \<Longrightarrow> cookies_unique (view (outer w)) \<Longrightarrow> wp (stop i) (\<lambda>r w'. settled r \<longrightarrow> no_cookie c (ck i) (view (outer w'))) w"
    and "idents (view (outer w))" "cookies_unique (view (outer w))"
  shows "wp (gfold (\<lambda>i err. gtry (stop i) (\<lambda>r. gret (case r of Inl e \<Rightarrow> if re_Code e \<noteq> GateNotFound then Some e else err | Inr _ \<Rightarrow> err))) is err)
    (\<lambda>(r :: (ReqErr, ReqErr option) res) w'. shrunk (view (outer w)) (view (outer w')) \<and> (r = Ok None \<longrightarrow> err = None \<and> (\<forall>i \<in> set is. no_cookie c (ck i) (view (outer w'))))) w"
    (is "wp (gfold ?f is err) _ w")
  using assms(4,5)
proof (induction "is" arbitrary: err w)
  case Nil
  then show ?case by (simp add: wp_gret shr.refl)
next
  case (Cons i "is")
  define Q where "Q = (\<lambda>(r :: (ReqErr, ReqErr option) res) (w' :: 'x gst). shrunk (view (outer w)) (view (outer w')) \<and> (r = Ok None \<longrightarrow> err = None \<and> (\<forall>i \<in> set (i # is). no_cookie c (ck i) (view (outer w')))))"
  have "wp (stop i) (on_any (\<lambda>a. wp (gret (case a of Inl e \<Rightarrow> if re_Code e \<noteq> GateNotFound then Some e else err | Inr _ \<Rightarrow> err)) (on_ok (\<lambda>a. wp (gfold ?f is a) Q) Q))
    (on_ok (\<lambda>a. wp (gfold ?f is a) Q) Q)) w"
  proof (rule wp_mono [OF wp_conjI [OF wp_of_moves [OF mv] st [OF Cons.prems]]])
    fix r and w1 :: "'x gst" assume a: "shrunk (view (outer w)) (view (outer w1)) \<and> (settled r \<longrightarrow> no_cookie c (ck i) (view (outer w1)))"
    have IH: "wp (gfold ?f is err') (\<lambda>(r :: (ReqErr, ReqErr option) res) w'. shrunk (view (outer w1)) (view (outer w')) \<and> (r = Ok None \<longrightarrow> err' = None \<and> (\<forall>i \<in> set is. no_cookie c (ck i) (view (outer w'))))) w1" for err'
      by (rule Cons.IH) (use a Cons.prems shrunk_idents shrunk_unique in blast)+
    have step: "wp (gfold ?f is err') Q w1" if "err' = None \<Longrightarrow> err = None \<and> settled r" for err'
    proof (rule wp_mono [OF IH])
      fix r' :: "(ReqErr, ReqErr option) res" and w2 :: "'x gst"
      assume b: "shrunk (view (outer w1)) (view (outer w2)) \<and> (r' = Ok None \<longrightarrow> err' = None \<and> (\<forall>i \<in> set is. no_cookie c (ck i) (view (outer w2))))"
      have "shrunk (view (outer w)) (view (outer w2))" using a b shr.trans by blast
      moreover have "no_cookie c (ck i) (view (outer w2))" if "settled r" using a b that shrunk_no_cookie [OF _ c] by blast
      ultimately show "Q r' w2" using b that by (auto simp: Q_def)
    qed
    show "on_any (\<lambda>a. wp (gret (case a of Inl e \<Rightarrow> if re_Code e \<noteq> GateNotFound then Some e else err | Inr _ \<Rightarrow> err)) (on_ok (\<lambda>a. wp (gfold ?f is a) Q) Q))
      (on_ok (\<lambda>a. wp (gfold ?f is a) Q) Q) r w1"
    proof (cases r)
      case (Ok u)
      then show ?thesis using step [of err] by (simp add: wp_gret)
    next
      case (Err e)
      then show ?thesis using step [of err] step [of "Some e"] by (simp add: wp_gret settled_def)
    next
      case Panic
      then show ?thesis using a by (simp add: Q_def)
    qed
  qed
  then show ?case unfolding gfold.simps wp_gbind wp_gtry Q_def .
qed

definition none_left :: "'x gate_env \<Rightarrow> DeployDesc \<Rightarrow> gview \<Rightarrow> bool" where
  "none_left E dep V \<longleftrightarrow> (\<forall>i \<in> set (dd_Routers dep). no_cookie DBColRouters (Cookie (Cookify E) (dr_Id i)) V)
     \<and> (\<forall>i \<in> set (dd_Functions dep). no_cookie DBColFunc (Cookie (Cookify E) (df_Id i)) V)
     \<and> (\<forall>i \<in> set (dd_Mwares dep). no_cookie DBColMware (Cookie (Cookify E) (dm_Id i)) V)"

lemma wp_or_fail: "wp f (\<lambda>r w'. Q (case r of Ok None \<Rightarrow> Ok () | Ok (Some e) \<Rightarrow> Err e | Err e \<Rightarrow> Err e | Panic \<Rightarrow> Panic) w') w \<Longrightarrow> wp (or_fail f) Q w"
  unfolding or_fail_def wp_gbind by (erule wp_mono) (auto simp: wp_gret wp_gerr on_ok_def split: res.splits option.splits)

lemma shrunk_none: "shrunk V V' \<Longrightarrow> c \<in> own_colls \<Longrightarrow> \<forall>i \<in> S. no_cookie c (f i) V \<Longrightarrow> \<forall>i \<in> S. no_cookie c (f i) V'"
  using shrunk_no_cookie by blast

lemma none_left_shrunk: "shrunk V V' \<Longrightarrow> none_left E dep V \<Longrightarrow> none_left E dep V'"
  unfolding none_left_def by (intro conjI; elim conjE; erule (1) shrunk_none [rotated 2]; simp add: own_colls_def)

lemma wp_stop_all:
  fixes w :: "'x gst"
  assumes "\<And>i. gmoves view shrunk (stop i)" "c \<in> own_colls"
    and "\<And>i w. idents (view (outer w)) \<Longrightarrow> cookies_unique (view (outer w)) \<Longrightarrow> wp (stop i) (\<lambda>r w'. settled r \<longrightarrow> no_cookie c (ck i) (view (outer w'))) w"
    and "idents (view (outer w))" "cookies_unique (view (outer w))"
  shows "wp (or_fail (stop_items stop (length is) is)) (\<lambda>r w'. shrunk (view (outer w)) (view (outer w')) \<and> (r = Ok () \<longrightarrow> (\<forall>i \<in> set is. no_cookie c (ck i) (view (outer w'))))) w"
  unfolding stop_items_def take_all [OF order.refl]
  by (rule wp_or_fail, rule wp_mono [OF wp_stop_loop [OF assms]]) (auto split: res.splits option.splits)

lemma wp_StopItems:
  fixes w :: "'x gst"
  assumes E: "gmongo_ok E view" and ids: "idents (view (outer w))" and un: "cookies_unique (view (outer w))"
  shows "wp (StopItems E C pas ctx dep) (\<lambda>r w'. shrunk (view (outer w)) (view (outer w')) \<and> (r = Ok () \<longrightarrow> none_left E dep (view (outer w')))) w"
    (is "wp _ ?Q _")
  unfolding StopItems_def deployStopRouters_def deployStopFunctions_def deployStopMwares_def wp_gbind
proof (rule wp_mono [OF wp_stop_all [OF shr_dr_stop [OF E] _ wp_dr_stop [OF E] ids un]], simp add: own_colls_def)
  fix r1 :: "(ReqErr, unit) res" and w1 :: "'x gst"
  assume 1: "shrunk (view (outer w)) (view (outer w1)) \<and> (r1 = Ok () \<longrightarrow> (\<forall>i \<in> set (dd_Routers dep). no_cookie DBColRouters (Cookie (Cookify E) (dr_Id i)) (view (outer w1))))"
  have i1: "idents (view (outer w1))" "cookies_unique (view (outer w1))" using 1 ids un shrunk_idents shrunk_unique by blast+
  have "wp (or_fail (stop_items (df_stop E C pas ctx) (length (dd_Functions dep)) (dd_Functions dep)))
    (on_ok (\<lambda>_. wp (or_fail (stop_items (dm_stop E ctx) (length (dd_Mwares dep)) (dd_Mwares dep))) ?Q) ?Q) w1" if "r1 = Ok ()"
  proof (rule wp_mono [OF wp_stop_all [OF shr_df_stop [OF E] _ wp_df_stop [OF E] i1]], simp add: own_colls_def)
    fix r2 :: "(ReqErr, unit) res" and w2 :: "'x gst"
    assume 2: "shrunk (view (outer w1)) (view (outer w2)) \<and> (r2 = Ok () \<longrightarrow> (\<forall>i \<in> set (dd_Functions dep). no_cookie DBColFunc (Cookie (Cookify E) (df_Id i)) (view (outer w2))))"
    have i2: "idents (view (outer w2))" "cookies_unique (view (outer w2))" using 2 i1 shrunk_idents shrunk_unique by blast+
    have s2: "shrunk (view (outer w)) (view (outer w2))" using 1 2 shr.trans by blast
    have "wp (or_fail (stop_items (dm_stop E ctx) (length (dd_Mwares dep)) (dd_Mwares dep))) ?Q w2" if r2: "r2 = Ok ()"
    proof (rule wp_mono [OF wp_stop_all [OF shr_dm_stop [OF E] _ wp_dm_stop [OF E] i2]], simp add: own_colls_def)
      fix r3 :: "(ReqErr, unit) res" and w3 :: "'x gst"
      assume 3: "shrunk (view (outer w2)) (view (outer w3)) \<and> (r3 = Ok () \<longrightarrow> (\<forall>i \<in> set (dd_Mwares dep). no_cookie DBColMware (Cookie (Cookify E) (dm_Id i)) (view (outer w3))))"
      have s3: "shrunk (view (outer w2)) (view (outer w3))" "shrunk (view (outer w1)) (view (outer w3))" using 2 3 shr.trans by blast+
      have "\<forall>i \<in> set (dd_Routers dep). no_cookie DBColRouters (Cookie (Cookify E) (dr_Id i)) (view (outer w3))"
        by (rule shrunk_none [OF s3(2)]) (use 1 \<open>r1 = Ok ()\<close> in \<open>simp_all add: own_colls_def\<close>)
      moreover have "\<forall>i \<in> set (dd_Functions dep). no_cookie DBColFunc (Cookie (Cookify E) (df_Id i)) (view (outer w3))"
        by (rule shrunk_none [OF s3(1)]) (use 2 r2 in \<open>simp_all add: own_colls_def\<close>)
      ultimately show "?Q r3 w3" using 3 shr.trans [OF s2 s3(1)] by (simp add: none_left_def)
    qed
    then show "on_ok (\<lambda>_. wp (or_fail (stop_items (dm_stop E ctx) (length (dd_Mwares dep)) (dd_Mwares dep))) ?Q) ?Q r2 w2" using s2 by (cases r2) auto
  qed
  then show "on_ok (\<lambda>_. wp (or_fail (stop_items (df_stop E C pas ctx) (length (dd_Functions dep)) (dd_Functions dep)))
    (on_ok (\<lambda>_. wp (or_fail (stop_items (dm_stop E ctx) (length (dd_Mwares dep)) (dd_Mwares dep))) ?Q) ?Q)) ?Q r1 w1" using 1 by (cases r1) auto
qed

lemma upd_Dep_ident: "same_ident d (upd_Dep (\<lambda>d. d\<lparr>dd_State := st\<rparr>) d)"
  by (cases d) (simp_all add: same_ident_def)

text \<open>
  C9. Deleting a deployment that succeeds leaves nothing of it: the document is gone, and so is every router, function and
  piece of middleware it lists, found by its name in the tenant's project. Deleting creates no documents of these kinds,
  whether it succeeds or not.
\<close>

theorem dep_Del_complete:
  fixes w :: "'x gst"
  assumes E: "gmongo_ok E view" and "gids_ok (view (outer w))" and un: "cookies_unique (view (outer w))"
    and run: "dep_Del E C pas ctx dep w = (r, w')"
  shows "shrunk (view (outer w)) (view (outer w'))
    \<and> (r = Ok () \<longrightarrow> view (outer w') DBColDeploy (dd_ObjID dep) = None \<and> none_left E dep (view (outer w')))"
proof -
  have ids: "idents (view (outer w))" by (rule gids_idents [OF assms(2)])
  define Q where "Q = (\<lambda>(r :: (ReqErr, unit) res) (w' :: 'x gst). shrunk (view (outer w)) (view (outer w'))
    \<and> (r = Ok () \<longrightarrow> view (outer w') DBColDeploy (dd_ObjID dep) = None \<and> none_left E dep (view (outer w'))))"
  have "wp (dep_Del E C pas ctx dep) Q w" unfolding dep_Del_def wp_gbind
  proof (rule wp_moves [OF moves_or_GateErrD [OF shr_db(2) [OF E upd_Dep_ident]]])
    fix r1 :: "(ReqErr, unit) res" and w1 :: "'x gst" assume 1: "shrunk (view (outer w)) (view (outer w1))"
    have i1: "idents (view (outer w1))" "cookies_unique (view (outer w1))" using 1 ids un shrunk_idents shrunk_unique by blast+
    have "wp (StopItems E C pas ctx dep) (on_ok (\<lambda>_. wp (or_GateErrD (dbRemove E ctx (GDep dep))) Q) Q) w1"
    proof (rule wp_mono [OF wp_StopItems [OF E i1]])
      fix r2 :: "(ReqErr, unit) res" and w2 :: "'x gst" assume 2: "shrunk (view (outer w1)) (view (outer w2)) \<and> (r2 = Ok () \<longrightarrow> none_left E dep (view (outer w2)))"
      have i2: "idents (view (outer w2))" using 2 i1 shrunk_idents by blast
      have s2: "shrunk (view (outer w)) (view (outer w2))" using 1 2 shr.trans by blast
      have "wp (or_GateErrD (dbRemove E ctx (GDep dep))) Q w2" if "r2 = Ok ()"
        unfolding wp_or_GateErrD
      proof (rule wp_dbRemove_ident [OF E i2, where c = DBColDeploy and k = "dd_ObjID dep"], goal_cases)
        case (4 x')
        have "none_left E dep (view (outer w2))" using 2 that by simp
        then show ?case using 4(2) none_left_shrunk [OF 4(1)] shr.trans [OF s2 4(1)] by (simp add: Q_def)
      next
        case (5 e x')
        then show ?case using shr.trans [OF s2 5(1)] by (simp add: Q_def)
      qed (simp_all add: own_colls_def)
      then show "on_ok (\<lambda>_. wp (or_GateErrD (dbRemove E ctx (GDep dep))) Q) Q r2 w2" using s2 by (cases r2) (auto simp: Q_def)
    qed
    then show "on_ok (\<lambda>_. wp (StopItems E C pas ctx dep) (on_ok (\<lambda>_. wp (or_GateErrD (dbRemove E ctx (GDep dep))) Q) Q)) Q r1 w1" using 1 by (cases r1) (auto simp: Q_def)
  qed
  from wpD [OF this run] show ?thesis unfolding Q_def .
qed

section \<open>A failed start\<close>

lemma fno_db:
  assumes "gmongo_ok E view" "gcoll_of d = DBColFunc"
  shows "moves view fn_only (dbInsert E ctx d)" "moves view fn_only (dbRemove E ctx d)" "moves view fn_only (dbUpdatePart E ctx d u)"
  unfolding dbInsert_def dbRemove_def dbUpdatePart_def
  by (rule fno.moves_gmodify [OF assms(1)]; auto simp: fn_only_def assms(2) split: greply.splits)+

lemma fno_clean:
  assumes "gmongo_ok E view"
  shows "gmoves view fn_only (stalled E ctx fn e)" "gmoves view fn_only (clean_func E ctx fn e)" "gmoves view fn_only (clean_repo E ctx fn e)"
  unfolding clean_repo_def clean_func_def stalled_def
  by (intro fno.moves_rules fno.moves_ToState [OF assms] fno_db [OF assms] fno.moves_removeSources [OF assms]; simp)+

lemma fno_putSources:
  assumes "gmongo_ok E view"
  shows "moves view fn_only (putSources E fn src)"
  unfolding putSources_def putStdSources_def putSourceFile_def
  by (auto intro!: fno.moves_gbind fno.moves_basic fno.moves_gout simp: gambient [OF assms] split: option.split list.split)

lemma fno_fn_Add:
  assumes "gmongo_ok E view"
  shows "gmoves view fn_only (fn_Add E ctx fn srcs)"
  unfolding fn_Add_def add_inserted_def checkFnCount_def dbFuncCountTen_def tendatGet_def Let_def
  by (intro fno.moves_rules fno.moves_gout fno_clean [OF assms] fno_db [OF assms] fno.moves_tendat [OF assms] fno.moves_find [OF assms]
      fno_putSources [OF assms] fno.moves_logs [OF assms]; simp add: gambient [OF assms] gambient(3) [OF assms, unfolded GenRandId_snd])

lemma fno_df_start:
  assumes "gmongo_ok E view"
  shows "gmoves view fn_only (df_start E D C pas ctx i)"
  unfolding df_start_def df_stop_def of_sum_def
  by (intro fno.moves_rules fno_fn_Add [OF assms] fno.moves_ev_Add [OF assms] fno.moves_removeFunctionId [OF assms])


section \<open>Witnesses\<close>

definition demo_denv :: "gmem dep_env" where
  "demo_denv = \<lparr>json_src_out = (\<lambda>_. []), json_src_in = (\<lambda>_. Inl ''bad json''), yaml_deploy = (\<lambda>_. Inl ''bad yaml''), ReadFromURL = (\<lambda>_ x. (Inl ''no net'', x)),
     maxIncludeDepth = 4\<rparr>"

definition demo_dep_id :: "string \<Rightarrow> SwoId" where
  "demo_dep_id n = \<lparr>Tennant = ''t'', Project = ''p'', Name = n\<rparr>"

definition demo_router :: RouterDesc where
  "demo_router = \<lparr>rd_ObjID = ''9'', rd_SwoId = demo_dep_id ''r'', rd_Cookie = Cookie (Cookify gmem_env) (demo_dep_id ''r''), rd_Labels = [], rd_Table = []\<rparr>"

definition demo_dep :: DeployDesc where
  "demo_dep = \<lparr>dd_ObjID = ''8'', dd_SwoId = demo_dep_id ''d'', dd_Labels = [], dd_Cookie = [], dd_State = DBDepStateRdy, dd_Functions = [], dd_Mwares = [],
     dd_Routers = [\<lparr>dr_Id = demo_dep_id ''r'', dr_Rt = None\<rparr>]\<rparr>"

definition dep_gst :: "gmem gst" where
  "dep_gst = empty_gst (gmem_of [GDep demo_dep, GRt demo_router])"

lemma demo_dep_runs: "run_ok (dep_Del gmem_env no_cfb [] mkContext demo_dep) dep_gst"
  by code_simp

lemma cookies_unique_insert:
  assumes "cookies_unique (gmview x)"
  shows "cookies_unique (gmview (snd (gm_insert d x)))"
proof (cases "gtaken x d")
  case False
  then have "unique_cookie d' \<noteq> Some ck" if "gmview x (gcoll_of d) k = Some d'" "unique_cookie d = Some ck" for k d' ck
    using that gmatch_ghits [of x "gcoll_of d" "\<lambda>d'. unique_cookie d' = Some ck"] by (auto simp: gtaken_def gmatch_def)
  then show ?thesis using False assms by (auto simp: gm_insert_def gmview_put cookies_unique_def gput_def)
qed (use assms in \<open>simp add: gm_insert_def\<close>)

lemma cookies_unique_gmem_of: "cookies_unique (gmview (gmem_of ds))"
proof -
  have "cookies_unique (gmview x) \<Longrightarrow> cookies_unique (gmview (fold (\<lambda>d x. snd (gm_insert d x)) ds x))" for x
    by (induction ds arbitrary: x) (auto intro: cookies_unique_insert)
  moreover have "cookies_unique (gmview \<lparr>gm_keys = [], gm_docs = (\<lambda>_. None), gm_deps = []\<rparr>)" by (simp add: cookies_unique_def gmview_def)
  ultimately show ?thesis unfolding gmem_of_def by blast
qed

theorem dep_Del_complete_witness:
  "none_left gmem_env demo_dep (gmview (outer (snd (dep_Del gmem_env no_cfb [] mkContext demo_dep dep_gst))))"
proof -
  obtain a w' where run: "dep_Del gmem_env no_cfb [] mkContext demo_dep dep_gst = (Ok a, w')" using run_okE [OF demo_dep_runs] .
  have ids: "gids_ok (gmview (outer dep_gst))" by (simp add: dep_gst_def empty_gst_def gids_ok_gmem_of)
  have un: "cookies_unique (gmview (outer dep_gst))" by (simp add: dep_gst_def empty_gst_def cookies_unique_gmem_of)
  show ?thesis using dep_Del_complete [OF gmem_env_ok ids un run] by (simp add: run)
qed

definition leak_dep :: DeployDesc where
  "leak_dep = demo_dep\<lparr>dd_Routers := [], dd_Mwares := [\<lparr>dm_Id = mw_SwoId demo_mwd, dm_Mw = Some demo_mwd\<rparr>],
     dd_Functions := [\<lparr>df_Id = demo_dep_id ''f'', df_Fn = None, df_FnSrc = ''{'', df_src = None, df_Evs = []\<rparr>]\<rparr>"

lemma leak_runs: "run_ok (dm_start gmem_env no_cfb [] mkContext \<lparr>dm_Id = mw_SwoId demo_mwd, dm_Mw = Some demo_mwd\<rparr>) mw_gst"
  using demo_mw_runs by (simp add: dm_start_def deref_def)


end
