(* ===== verification/Gate_Del.thy ===== *)
theory Gate_Del
  imports Gate_Func
begin

text \<open>
  The deletion of functions (\<open>Del\<close> of \<open>src/gate/function.go\<close>): what each of its steps leaves in the
  database, and what a deletion that succeeds or fails means.
\<close>

section \<open>What a deletion touches\<close>

definition concerns :: "FunctionDesc \<Rightarrow> gdoc \<Rightarrow> bool" where
  "concerns fn d = (case d of GFn x \<Rightarrow> fn_ObjID x = fn_ObjID fn | GEv e \<Rightarrow> ev_FnId e = fn_Cookie fn
     | GLog l \<Rightarrow> log_Cookie l = fn_Cookie fn | GStats s \<Rightarrow> fs_Cookie s = fn_Cookie fn | GStatsA s \<Rightarrow> fs_Cookie s = fn_Cookie fn | _ \<Rightarrow> False)"

text \<open>Documents that do not concern the function are the same before and after.\<close>

definition others_kept :: "FunctionDesc \<Rightarrow> gview \<Rightarrow> gview \<Rightarrow> bool" where
  "others_kept fn V V' \<longleftrightarrow> gids_ok V' \<and> (\<forall>c i d. \<not> concerns fn d \<longrightarrow> (V' c i = Some d \<longleftrightarrow> V c i = Some d))"

lemma others_kept_refl: "gids_ok V \<Longrightarrow> others_kept fn V V"
  by (simp add: others_kept_def)

lemma others_kept_trans: "others_kept fn V V1 \<Longrightarrow> others_kept fn V1 V2 \<Longrightarrow> others_kept fn V V2"
  by (simp add: others_kept_def)

lemma others_kept_put:
  assumes "gids_ok V" and "\<And>d. V c i = Some d \<Longrightarrow> concerns fn d"
    and "\<And>d. new = Some d \<Longrightarrow> concerns fn d \<and> gcoll_of d = c \<and> (given_id d = None \<or> given_id d = Some i)"
  shows "others_kept fn V (gput c i new V)"
proof -
  have "gids_ok (gput c i new V)" using assms(1,3) by (cases new) (auto intro: gids_ok_put gids_ok_del)
  then show ?thesis using assms(2,3) by (auto simp: others_kept_def gput_def split: if_splits)
qed

lemma others_kept_events: "gids_ok V \<Longrightarrow> ev_frame (fn_Cookie fn) V V' \<Longrightarrow> others_kept fn V V'"
  unfolding others_kept_def ev_frame_def
proof (intro conjI allI impI; elim conjE)
  fix c i d
  assume ids: "gids_ok V" "gids_ok V'" and nc: "\<not> concerns fn d"
    and o: "\<forall>c. c \<noteq> DBColEvents \<longrightarrow> V' c = V c"
      "\<forall>i d. \<not> where_field ''fnid'' (fn_Cookie fn) d \<longrightarrow> (V' DBColEvents i = Some d \<longleftrightarrow> V DBColEvents i = Some d)"
  show "V' c i = Some d \<longleftrightarrow> V c i = Some d"
  proof (cases "c = DBColEvents")
    case True
    have "\<not> where_field ''fnid'' (fn_Cookie fn) d"
      using nc by (cases d) (auto simp: where_field_def doc_field_def concerns_def)
    then show ?thesis using o(2) True by simp
  qed (use o(1) in simp)
qed

lemma as_func: "gids_ok V \<Longrightarrow> V DBColFunc i = Some d \<Longrightarrow> \<exists>x. d = GFn x \<and> fn_ObjID x = i"
  using gids_okD [of V DBColFunc i d] by (cases d) auto

context gate_db
begin

lemma wp_ToState:
  assumes "gids_ok (view (outer w))"
    and "\<And>x w'. view (outer w) DBColFunc (fn_ObjID fn) = Some (GFn x) \<Longrightarrow> in_state from (GFn x) \<Longrightarrow>
      view (outer w') = gput DBColFunc (fn_ObjID fn) (Some (GFn (x\<lparr>fn_State := st\<rparr>))) (view (outer w)) \<Longrightarrow>
      w' = w\<lparr>outer := outer w'\<rparr> \<Longrightarrow> Q (Ok (fn\<lparr>fn_State := st\<rparr>)) w'"
    and "\<And>e w'. view (outer w') = view (outer w) \<Longrightarrow> w' = w\<lparr>outer := outer w'\<rparr> \<Longrightarrow> Q (Err e) w'"
  shows "wp (ToState E ctx fn st from) Q w"
  unfolding ToState_def wp_simps
proof (rule wp_dbUpdatePart2 [OF db_ok assms(1), where k = "fn_ObjID fn"], goal_cases)
  case (2 d' x')
  then obtain x where d': "d' = GFn x" using as_func [OF assms(1)] by fastforce
  then show ?case using 2 assms(2) [of x "w\<lparr>outer := x'\<rparr>"] by (simp add: upd_fn_def)
qed (use assms(3) in auto)

lemma wp_removeSources:
  assumes "\<And>r x'. view x' = view x \<Longrightarrow> r \<noteq> Panic \<Longrightarrow> Q r x'"
  shows "wp (removeSources E fn) Q x"
  unfolding removeSources_def wp_simps
  using assms by (auto simp: wp_simps gambient [OF db_ok] split: option.splits)

end

definition archived :: "string \<Rightarrow> FnStatValues \<Rightarrow> gview \<Rightarrow> bool" where
  "archived cookie v V \<longleftrightarrow> Called v = 0 \<or> (\<exists>i s. V DBColFnStatsA i = Some (GStatsA s) \<and> fs_Cookie s = cookie \<and> fs_Values s = v)"

definition one_stats :: "string \<Rightarrow> gview \<Rightarrow> bool" where
  "one_stats cookie V \<longleftrightarrow> (\<forall>i j. i \<in> gmatch V DBColFnStats (where_field ''cookie'' cookie) \<longrightarrow>
     j \<in> gmatch V DBColFnStats (where_field ''cookie'' cookie) \<longrightarrow> i = j)"

lemma concerns_stats:
  assumes "gids_ok V" and "V DBColFnStats i = Some d" and "where_field ''cookie'' (fn_Cookie fn) d"
  shows "concerns fn d"
  using gids_okD [OF assms(1,2)] assms(3) by (cases d) (auto simp: concerns_def where_field_def doc_field_def)

context gate_db
begin

lemma wp_drop_stats_doc:
  assumes "gids_ok (view x)"
    and "\<And>x'. others_kept fn (view x) (view x') \<Longrightarrow> (\<forall>c. c \<noteq> DBColFnStats \<longrightarrow> view x' c = view x c) \<Longrightarrow>
      (one_stats (fn_Cookie fn) (view x) \<Longrightarrow> gmatch (view x') DBColFnStats (where_field ''cookie'' (fn_Cookie fn)) = {}) \<Longrightarrow> Q (Ok ()) x'"
    and "\<And>e x'. view x' = view x \<Longrightarrow> Q (Err e) x'"
  shows "wp (maybe (gbind (gcall E (GRemove DBColFnStats (where_field ''cookie'' (fn_Cookie fn)))) (\<lambda>_. gret ())) ()) Q x"
  unfolding maybe_def wp_simps
proof (rule wp_gcall [OF db_ok], goal_cases)
  case (1 rep x')
  let ?q = "where_field ''cookie'' (fn_Cookie fn)"
  show ?case
  proof (cases rep)
    case GDone
    then obtain i d where i: "view x DBColFnStats i = Some d" "?q d" "view x' = gput DBColFnStats i None (view x)" using 1 by auto
    have "others_kept fn (view x) (view x')"
      unfolding i(3) using i(1,2) concerns_stats [OF assms(1) i(1,2)] by (intro others_kept_put [OF assms(1)]) auto
    moreover have "gmatch (view x') DBColFnStats ?q = {}" if "one_stats (fn_Cookie fn) (view x)"
    proof -
      have "j = i" if "j \<in> gmatch (view x) DBColFnStats ?q" for j
        using \<open>one_stats (fn_Cookie fn) (view x)\<close> that i(1,2) by (auto simp: one_stats_def gmatch_def)
      then show ?thesis unfolding i(3) by (auto simp: gmatch_def gput_def split: if_splits)
    qed
    ultimately show ?thesis using assms(2) i(3) GDone by (simp add: wp_simps)
  next
    case GMissing
    then show ?thesis using 1 assms(2) others_kept_refl [OF assms(1)] by (simp add: wp_simps)
  next
    case (GFailed e)
    then show ?thesis using 1 assms(3) by (simp add: wp_simps)
  qed (use 1 in auto)
qed

lemma wp_dbFnStatsDrop:
  assumes "gids_ok (view x)"
    and "\<And>x'. others_kept fn (view x) (view x') \<Longrightarrow> (\<forall>c. c \<noteq> DBColFnStats \<longrightarrow> c \<noteq> DBColFnStatsA \<longrightarrow> view x' c = view x c) \<Longrightarrow>
      (one_stats (fn_Cookie fn) (view x) \<Longrightarrow> gmatch (view x') DBColFnStats (where_field ''cookie'' (fn_Cookie fn)) = {}) \<Longrightarrow>
      archived (fn_Cookie fn) st (view x') \<Longrightarrow> Q (Ok ()) x'"
    and "\<And>e x'. others_kept fn (view x) (view x') \<Longrightarrow> (\<forall>c. c \<noteq> DBColFnStats \<longrightarrow> c \<noteq> DBColFnStatsA \<longrightarrow> view x' c = view x c) \<Longrightarrow> Q (Err e) x'"
  shows "wp (dbFnStatsDrop E ctx (fn_Cookie fn) st) Q x"
proof -
  let ?drop = "maybe (gbind (gcall E (GRemove DBColFnStats (where_field ''cookie'' (fn_Cookie fn)))) (\<lambda>_. gret ())) ()"
  have drop: "wp ?drop Q x1" if "gids_ok (view x1)" "others_kept fn (view x) (view x1)" "\<forall>c. c \<noteq> DBColFnStatsA \<longrightarrow> view x1 c = view x c"
    "archived (fn_Cookie fn) st (view x1)" for x1
  proof (rule wp_drop_stats_doc [OF that(1)], goal_cases)
    case (1 x')
    have "archived (fn_Cookie fn) st (view x')" using that(4) 1(2) by (simp add: archived_def)
    moreover have "one_stats (fn_Cookie fn) (view x1) = one_stats (fn_Cookie fn) (view x)"
      using that(3) by (simp add: one_stats_def gmatch_def)
    ultimately show ?case using 1 that others_kept_trans by (intro assms(2)) auto
  next
    case (2 e x')
    then show ?case using that by (intro assms(3)) auto
  qed
  show ?thesis
  proof (cases "dbMayModify E ctx")
    case False
    then show ?thesis using assms(3) others_kept_refl [OF assms(1)] by (simp add: dbFnStatsDrop_def wp_simps)
  next
    case may: True
    show ?thesis
    proof (cases "Called st = 0")
      case True
      then show ?thesis using may drop [of x] others_kept_refl [OF assms(1)] assms(1)
        by (simp add: dbFnStatsDrop_def wp_simps archived_def)
    next
      case False
      obtain n x1 where n: "gnow E x = (n, x1)" by fastforce
      have v1: "view x1 = view x" using gambient(2) [OF db_ok, of x] n by simp
      let ?d = "GStatsA \<lparr>fs_Cookie = fn_Cookie fn, fs_Values = st, fs_Dropped = Some n, fs_Till = Some n\<rparr>"
      have "wp (gcall E (GInsert ?d)) (on_ok (\<lambda>_. wp ?drop Q) Q) x1"
      proof (rule wp_gcall [OF db_ok], goal_cases)
        case (1 rep x')
        show ?case
        proof (cases "rep = GDone")
          case True
          then obtain i where i: "gfresh (view x) ?d i" "view x' = gput DBColFnStatsA i (Some ?d) (view x)" using 1 v1 by auto
          have o: "others_kept fn (view x) (view x')"
            unfolding i(2) using i(1) by (intro others_kept_put [OF assms(1)]) (auto simp: gfresh_def concerns_def)
          moreover have "archived (fn_Cookie fn) st (view x')" unfolding i(2) by (auto simp: archived_def gput_def)
          ultimately show ?thesis using drop [of x'] i(2) True by (simp add: others_kept_def)
        next
          case no: False
          then have "view x' = view x" using 1 v1 by (auto split: greply.splits)
          then show ?thesis using assms(3) others_kept_refl [OF assms(1)] 1 no by (cases rep) auto
        qed
      qed
      then have "wp (gcall E (GInsert ?d)) (on_ok (\<lambda>_. wp (gret ()) (on_ok (\<lambda>_. wp ?drop Q) Q)) (on_ok (\<lambda>_. wp ?drop Q) Q)) x1"
        by (rule wp_mono) (auto simp: on_ok_def wp_gret split: res.splits)
      then show ?thesis using may False n by (simp add: dbFnStatsDrop_def wp_simps)
    qed
  qed
qed

end

context gate_db
begin

lemma wp_statsDrop:
  assumes "gids_ok (view (outer w))"
    and "\<And>w'. others_kept fn (view (outer w)) (view (outer w')) \<Longrightarrow>
      (\<forall>c. c \<noteq> DBColFnStats \<longrightarrow> c \<noteq> DBColFnStatsA \<longrightarrow> view (outer w') c = view (outer w) c) \<Longrightarrow>
      (one_stats (fn_Cookie fn) (view (outer w)) \<Longrightarrow> gmatch (view (outer w')) DBColFnStats (where_field ''cookie'' (fn_Cookie fn)) = {}) \<Longrightarrow>
      (\<And>md. fdmd w (fn_Cookie fn) = Some md \<Longrightarrow> archived (fn_Cookie fn) (fst_Values (md_stats md)) (view (outer w'))) \<Longrightarrow> Q (Ok ()) w'"
    and "\<And>e w'. others_kept fn (view (outer w)) (view (outer w')) \<Longrightarrow>
      (\<forall>c. c \<noteq> DBColFnStats \<longrightarrow> c \<noteq> DBColFnStatsA \<longrightarrow> view (outer w') c = view (outer w) c) \<Longrightarrow> Q (Err e) w'"
  shows "wp (statsDrop E C pas ctx fn) Q w"
  unfolding statsDrop_def wp_simps
proof (rule wp_memdGetFnForRemoval [OF db_ok], goal_cases)
  case (1 md w1)
  note md = 1
  show ?case
    unfolding on_ok_simps option.case wp_simps
  proof (rule wp_dbFnStatsDrop, goal_cases)
    case 1
    show ?case using assms(1) md(1) by simp
  next
    case (2 x')
    then show ?case using md by (intro assms(2)) auto
  next
    case (3 e x')
    then show ?case using md by (intro assms(3)) auto
  qed
next
  case (2 e w')
  then show ?case using assms(3) others_kept_refl [OF assms(1)] by simp
qed

end

section \<open>Deletion\<close>

text \<open>Nothing of the function is left in the database.\<close>

definition fn_gone :: "FunctionDesc \<Rightarrow> gview \<Rightarrow> bool" where
  "fn_gone fn V \<longleftrightarrow> V DBColFunc (fn_ObjID fn) = None \<and> ev_left (fn_Cookie fn) V = {}
     \<and> gmatch V DBColFnStats (where_field ''cookie'' (fn_Cookie fn)) = {} \<and> gmatch V DBColLogs (where_field ''cookie'' (fn_Cookie fn)) = {}"

lemma others_kept_logs:
  assumes "gids_ok V" and "V' = V(DBColLogs := (\<lambda>i. if i \<in> gmatch V DBColLogs (where_field ''cookie'' (fn_Cookie fn)) then None else V DBColLogs i))"
  shows "others_kept fn V V'" "gmatch V' DBColLogs (where_field ''cookie'' (fn_Cookie fn)) = {}"
proof -
  have "concerns fn d" if "V DBColLogs i = Some d" "where_field ''cookie'' (fn_Cookie fn) d" for i d
    using gids_okD [OF assms(1) that(1)] that(2) by (cases d) (auto simp: concerns_def where_field_def doc_field_def)
  then show "others_kept fn V V'"
    using assms by (auto simp: others_kept_def gids_ok_def gmatch_def)
  show "gmatch V' DBColLogs (where_field ''cookie'' (fn_Cookie fn)) = {}" using assms(2) by (auto simp: gmatch_def)
qed

lemma same_maps_stats: "same_maps w w' \<Longrightarrow> fdmd w c = Some md \<Longrightarrow> \<exists>md'. fdmd w' c = Some md' \<and> md_stats md' = md_stats md"
proof -
  assume "same_maps w w'" "fdmd w c = Some md"
  then have "map_option (\<lambda>md. md\<lparr>md_bd := fresh_bd\<rparr>) (fdmd w' c) = Some (md\<lparr>md_bd := fresh_bd\<rparr>)" by (simp add: same_maps_def)
  then obtain md' where "fdmd w' c = Some md'" "md'\<lparr>md_bd := fresh_bd\<rparr> = md\<lparr>md_bd := fresh_bd\<rparr>" by auto
  then show ?thesis by (cases md; cases md') auto
qed

text \<open>The counters the gate had in memory are in the archive.\<close>

definition accounted :: "string \<Rightarrow> FnMemData option \<Rightarrow> gview \<Rightarrow> bool" where
  "accounted cookie m V \<longleftrightarrow> (\<forall>md. m = Some md \<longrightarrow> archived cookie (fst_Values (md_stats md)) V)"

text \<open>Still there to be deleted, and how a deletion ends.\<close>

definition doomed :: "FunctionDesc \<Rightarrow> FunctionDesc \<Rightarrow> gview \<Rightarrow> gview \<Rightarrow> bool" where
  "doomed fn x V V' \<longleftrightarrow> others_kept fn V V' \<and> V' DBColFunc (fn_ObjID fn) = Some (GFn x)"

definition del_post :: "('x \<Rightarrow> gview) \<Rightarrow> FunctionDesc \<Rightarrow> FunctionDesc \<Rightarrow> gview \<Rightarrow> FnMemData option \<Rightarrow> (ReqErr, unit) res \<Rightarrow> 'x gst \<Rightarrow> bool" where
  "del_post view fn x V m r w' \<longleftrightarrow> (if r = Ok ()
     then others_kept fn V (view (outer w')) \<and> fn_gone fn (view (outer w')) \<and> fdmd w' (fn_Cookie fn) = None \<and> accounted (fn_Cookie fn) m (view (outer w'))
     else doomed fn x V (view (outer w')))"

lemma del_post_err: "doomed fn x V (view (outer w')) \<Longrightarrow> r \<noteq> Ok () \<Longrightarrow> del_post view fn x V m r w'"
  by (simp add: del_post_def)

lemma doomed_ids: "doomed fn x V V' \<Longrightarrow> gids_ok V'"
  by (simp add: doomed_def others_kept_def)

lemma doomed_step: "doomed fn x V V1 \<Longrightarrow> others_kept fn V1 V2 \<Longrightarrow> V2 DBColFunc = V1 DBColFunc \<Longrightarrow> doomed fn x V V2"
  using others_kept_trans by (auto simp: doomed_def)

lemma accounted_cong: "V' DBColFnStatsA = V DBColFnStatsA \<Longrightarrow> accounted c m V' = accounted c m V"
  by (simp add: accounted_def archived_def)

lemma ev_left_cong: "V' DBColEvents = V DBColEvents \<Longrightarrow> ev_left c V' = ev_left c V"
  by (simp add: ev_left_def)

lemma gmatch_cong: "V' c = V c \<Longrightarrow> gmatch V' c q = gmatch V c q"
  by (simp add: gmatch_def)

text \<open>Everything but the descriptor is gone.\<close>

definition emptied :: "FunctionDesc \<Rightarrow> FnMemData option \<Rightarrow> gview \<Rightarrow> bool" where
  "emptied fn m V \<longleftrightarrow> ev_left (fn_Cookie fn) V = {} \<and> gmatch V DBColFnStats (where_field ''cookie'' (fn_Cookie fn)) = {}
     \<and> accounted (fn_Cookie fn) m V"

context gate_db
begin

lemma wp_drop_gdoc:
  assumes d: "doomed fn x V (view (outer w))" and e: "emptied fn m (view (outer w))"
    and l: "gmatch (view (outer w)) DBColLogs (where_field ''cookie'' (fn_Cookie fn)) = {}" and gone: "fdmd w (fn_Cookie fn) = None"
  shows "wp (fail_as (\<lambda>e. genErr (db_msg e)) (liftx (dbRemove E ctx (GFn fn)))) (del_post view fn x V m) w"
  unfolding wp_fail_as wp_liftx
proof (rule wp_dbRemove [OF db_ok doomed_ids [OF d], where k = "fn_ObjID fn"], goal_cases)
  case (2 x')
  have "others_kept fn (view (outer w)) (view x')" unfolding 2(2) gcoll_of.simps
    using d by (intro others_kept_put [OF doomed_ids [OF d]]) (auto simp: concerns_def doomed_def dest: as_func [OF doomed_ids [OF d]])
  then have "others_kept fn V (view x')" using d others_kept_trans by (auto simp: doomed_def)
  moreover have "fn_gone fn (view x')" using e l 2(2) by (simp add: emptied_def fn_gone_def ev_left_def gmatch_def)
  moreover have "accounted (fn_Cookie fn) m (view x')" using e 2(2) by (simp add: emptied_def accounted_def archived_def)
  ultimately show ?case using gone by (simp add: del_post_def)
next
  case (3 x')
  then show ?case using d by (simp add: doomed_def)
next
  case (4 e x')
  then show ?case using d by (simp add: del_post_def)
qed simp

lemma wp_drop_desc:
  assumes d: "doomed fn x V (view (outer w))" and e: "emptied fn m (view (outer w))"
    and l: "gmatch (view (outer w)) DBColLogs (where_field ''cookie'' (fn_Cookie fn)) = {}"
  shows "wp (drop_desc E ctx fn) (del_post view fn x V m) w"
  unfolding drop_desc_def wp_gbind wp_fail_as [of genErr] wp_liftx [of "removeSources E fn"]
proof (rule wp_removeSources [where fn = fn], goal_cases)
  case (1 r x')
  have "wp (fail_as (\<lambda>e. genErr (db_msg e)) (liftx (dbRemove E ctx (GFn fn)))) (del_post view fn x V m)
    (w\<lparr>outer := x', fdmd := (fdmd w)(fn_Cookie fn := None)\<rparr>)"
    by (rule wp_drop_gdoc) (use assms 1 in simp_all)
  moreover have "del_post view fn x V m r' (w\<lparr>outer := x'\<rparr>)" if "r' \<noteq> Ok ()" for r' using d 1 that by (simp add: del_post_def)
  ultimately show ?case by (cases r) (simp_all add: memdGone_def wp_gmod)
qed

lemma wp_drop_logs:
  assumes d: "doomed fn x V (view (outer w))" and e: "emptied fn m (view (outer w))"
  shows "wp (drop_logs E ctx fn) (del_post view fn x V m) w"
  unfolding drop_logs_def wp_gbind wp_fail_as wp_liftx
proof (rule wp_logRemove [OF db_ok, where fn = fn], goal_cases)
  case (1 x')
  note l = others_kept_logs [OF doomed_ids [OF d] 1]
  have "wp (drop_desc E ctx fn) (del_post view fn x V m) (w\<lparr>outer := x'\<rparr>)"
  proof (rule wp_drop_desc)
    show "doomed fn x V (view (outer (w\<lparr>outer := x'\<rparr>)))" using doomed_step [OF d l(1)] 1 by simp
    show "emptied fn m (view (outer (w\<lparr>outer := x'\<rparr>)))"
      using e 1 by (simp add: emptied_def ev_left_def gmatch_def accounted_def archived_def)
  qed (use l(2) in simp)
  then show ?case by simp
next
  case (2 e x')
  then show ?case using d by (simp add: del_post_def)
qed

lemma wp_drop_stats:
  assumes d: "doomed fn x V (view (outer w))" and e: "ev_left (fn_Cookie fn) (view (outer w)) = {}"
    and one: "one_stats (fn_Cookie fn) (view (outer w))"
    and m: "\<And>md. m = Some md \<Longrightarrow> \<exists>md'. fdmd w (fn_Cookie fn) = Some md' \<and> md_stats md' = md_stats md"
  shows "wp (drop_stats E C pas ctx fn) (del_post view fn x V m) w"
  unfolding drop_stats_def wp_gbind wp_fail_as
proof (rule wp_statsDrop [OF doomed_ids [OF d]], goal_cases)
  case (1 w')
  have "wp (drop_logs E ctx fn) (del_post view fn x V m) w'"
  proof (rule wp_drop_logs)
    show "doomed fn x V (view (outer w'))" using doomed_step [OF d 1(1)] 1(2) by simp
    show "emptied fn m (view (outer w'))"
      unfolding emptied_def accounted_def using e 1(2) 1(3) [OF one] m 1(4) by (auto simp: ev_left_def)
  qed
  then show ?case by simp
next
  case (2 e w')
  then show ?case using doomed_step [OF d 2(1)] by (simp add: del_post_def)
qed

lemma wp_drop_events:
  assumes d: "doomed fn x V (view (outer w))" and one: "one_stats (fn_Cookie fn) (view (outer w))"
    and m: "\<And>md. m = Some md \<Longrightarrow> \<exists>md'. fdmd w (fn_Cookie fn) = Some md' \<and> md_stats md' = md_stats md"
  shows "wp (drop_events E C pas ctx fn) (del_post view fn x V m) w"
  unfolding drop_events_def wp_gbind wp_fail_as
proof (rule wp_clearAllEvents [OF doomed_ids [OF d]], goal_cases)
  case (1 w')
  then have k: "doomed fn x V (view (outer w'))"
    using doomed_step [OF d others_kept_events [OF doomed_ids [OF d] 1(1)]] by (simp add: ev_frame_def)
  have "wp (drop_stats E C pas ctx fn) (del_post view fn x V m) w'"
    by (rule wp_drop_stats [OF k]) (use 1 one m in \<open>simp_all add: one_stats_def gmatch_def ev_frame_def\<close>)
  then show ?case by simp
next
  case (2 r w')
  then have "doomed fn x V (view (outer w'))"
    using doomed_step [OF d others_kept_events [OF doomed_ids [OF d] 2(2)]] by (simp add: ev_frame_def)
  then show ?case using 2(1) by (cases r) (auto simp: del_post_def)
qed

lemma wp_del_rest:
  assumes d: "doomed fn x V (view (outer w))" and one: "one_stats (fn_Cookie fn) (view (outer w))"
  shows "wp (del_rest E C pas ctx dea fn) (del_post view fn x V (fdmd w (fn_Cookie fn))) w"
proof (cases dea)
  case True
  then show ?thesis using wp_drop_events [OF d one] by (simp add: del_rest_def)
next
  case False
  have "wp (fail_as genErr (k8sRemove E fn)) (on_ok (\<lambda>_. wp (drop_events E C pas ctx fn) (del_post view fn x V (fdmd w (fn_Cookie fn))))
      (del_post view fn x V (fdmd w (fn_Cookie fn)))) w"
    unfolding wp_fail_as
  proof (rule wp_quiet [OF quiet_k8sRemove [OF db_ok]], goal_cases)
    case (1 r w')
    have "wp (drop_events E C pas ctx fn) (del_post view fn x V (fdmd w (fn_Cookie fn))) w'"
      by (rule wp_drop_events) (use d one 1 same_maps_stats [OF 1(2)] in auto)
    then show ?case using d 1(1) by (cases r) (auto simp: del_post_def)
  qed
  then show ?thesis using False by (simp add: del_rest_def wp_gbind)
qed

end

lemma state_irrelevant:
  "others_kept (fn\<lparr>fn_State := s\<rparr>) = others_kept fn" "fn_gone (fn\<lparr>fn_State := s\<rparr>) = fn_gone fn"
  by (simp_all add: fun_eq_iff others_kept_def concerns_def fn_gone_def cong: gdoc.case_cong)

context gate_db
begin

lemma wp_fn_Del:
  assumes ids: "gids_ok (view (outer w))" and one: "one_stats (fn_Cookie fn) (view (outer w))"
  shows "wp (fn_Del E C pas ctx fn) (\<lambda>r w'. others_kept fn (view (outer w)) (view (outer w')) \<and>
    (if r = Ok () then fn_gone fn (view (outer w')) \<and> fdmd w' (fn_Cookie fn) = None \<and> accounted (fn_Cookie fn) (fdmd w (fn_Cookie fn)) (view (outer w'))
     else view (outer w') DBColFunc (fn_ObjID fn) = view (outer w) DBColFunc (fn_ObjID fn)
       \<or> (\<exists>x. view (outer w) DBColFunc (fn_ObjID fn) = Some (GFn x)
           \<and> view (outer w') DBColFunc (fn_ObjID fn) = Some (GFn (x\<lparr>fn_State := DBFuncStateTrm\<rparr>))))) w"
    (is "wp _ ?Q w")
proof (cases "may_terminate (fn_State fn)")
  case False
  then show ?thesis using others_kept_refl [OF ids] by (simp add: fn_Del_def wp_simps)
next
  case True
  have "wp (ToState E ctx fn DBFuncStateTrm (fn_State fn)) (\<lambda>r. on_ok (\<lambda>fn'. wp (del_rest E C pas ctx (fn_State fn = DBFuncStateDea) fn') ?Q) ?Q
    (case r of Ok a \<Rightarrow> Ok a | Err e \<Rightarrow> Err (GateErrM GateGenErr ''Cannot terminate fn'') | Panic \<Rightarrow> Panic)) w"
  proof (rule wp_ToState [OF ids], goal_cases)
    case (1 x w1)
    let ?x = "x\<lparr>fn_State := DBFuncStateTrm\<rparr>" and ?fn = "fn\<lparr>fn_State := DBFuncStateTrm\<rparr>"
    have ob: "fn_ObjID x = fn_ObjID fn" using as_func [OF ids 1(1)] by simp
    have "others_kept fn (view (outer w)) (view (outer w1))"
      unfolding 1(3) by (rule others_kept_put [OF ids]) (use 1(1) ob in \<open>auto simp: concerns_def\<close>)
    then have d: "doomed ?fn ?x (view (outer w)) (view (outer w1))" using 1(3) by (simp add: doomed_def state_irrelevant)
    have o: "one_stats (fn_Cookie ?fn) (view (outer w1))" using one 1(3) by (simp add: one_stats_def gmatch_def)
    have m: "fdmd w1 = fdmd w" using 1(4) by (metis gst.select_convs(1) gst.surjective gst.update_convs(8))
    have "wp (del_rest E C pas ctx (fn_State fn = DBFuncStateDea) ?fn) ?Q w1"
      by (rule wp_mono [OF wp_del_rest [OF d o]]) (use 1(1) m in \<open>auto simp: del_post_def doomed_def state_irrelevant\<close>)
    then show ?case by simp
  next
    case (2 e w1)
    then show ?case using others_kept_refl [OF ids] by simp
  qed
  then show ?thesis using True by (simp add: fn_Del_def wp_gbind wp_fail_as)
qed

end


end
