(* ===== verification/Gate_Demo.thy ===== *)
theory Gate_Demo
  imports Gate_Del Gate_Call Gate_Store
begin

text \<open>
  The properties of the gate at work: concrete functions, triggers and tenants in the in-memory database of
  \<open>Gate_Store\<close>, at which the theorems of the gate's components are applied.
\<close>

section \<open>Witnesses\<close>

definition demo_fn :: FunctionDesc where
  "demo_fn = \<lparr>fn_ObjID = ''1'', fn_SwoId = \<lparr>Tennant = ''t'', Project = ''p'', Name = ''f''\<rparr>, fn_Labels = [], fn_Cookie = ''f'', fn_PToken = ''tok'',
     fn_State = 3, fn_Mware = [], fn_S3Buckets = [], fn_Accounts = [], fn_Code = \<lparr>Lang = ''python'', Env = []\<rparr>,
     fn_Src = \<lparr>src_Version = ''0'', src_Repo = [], src_File = []\<rparr>,
     fn_Size = \<lparr>Replicas = 1, Mem = 64, Tmo = 1000, Burst = 0, Rate = 0\<rparr>, fn_AuthCtx = [], fn_UserData = []\<rparr>"

definition demo_md :: FnMemData where
  "demo_md = (new_memdata demo_fn zero_FnStatValues None 0)\<lparr>md_stats :=
     \<lparr>fst_Values = zero_FnStatValues\<lparr>Called := 3, Errors := 1\<rparr>, fst_onDisk = zero_FnStatValues, fst_dirty = True, fst_closed = False\<rparr>\<rparr>"

definition demo_gst :: "gmem gst" where
  "demo_gst = \<lparr>fdmd = [''f'' \<mapsto> demo_md], tdat = (\<lambda>_. None), podst = empty_store, urls = (\<lambda>_. None), consumers = (\<lambda>_. None), wsConns = (\<lambda>_. None),
     gate_rl = None, outer = gmem_of []\<rparr>"

lemma demo_flush: "fst (FnStats_Write gmem_env mkContext ''f'' demo_gst) = Ok ()"
  by (simp add: FnStats_Write_def dbFnStatsUpdate_def gmodify_def dbMayModify_def gcall_def demo_gst_def gmem_defs gmem_env_def
      go_simps liftx_def gmod_def gmview_def mkContext_def AdminRole_def NobodyRole_def Let_def)

theorem flush_exact_witness:
  "\<exists>md'. fdmd (snd (FnStats_Write gmem_env mkContext ''f'' demo_gst)) ''f'' = Some md' \<and> Called (fst_onDisk (md_stats md')) = 3
     \<and> stored_vals (gmview (outer (snd (FnStats_Write gmem_env mkContext ''f'' demo_gst)))) ''f'' (fst_onDisk (md_stats md'))"
proof -
  obtain r w' where w: "FnStats_Write gmem_env mkContext ''f'' demo_gst = (r, w')" by fastforce
  have ok: "gids_ok (gmview (outer demo_gst))" by (simp add: demo_gst_def gids_ok_gmem_of)
  have md: "fdmd demo_gst ''f'' = Some demo_md" by (simp add: demo_gst_def)
  have st: "stored_vals (gmview (outer demo_gst)) ''f'' (fst_onDisk (md_stats demo_md))"
    by (simp add: demo_gst_def demo_md_def stored_vals_def gmatch_def gmem_of_def gmview_def zero_FnStatValues_def)
  show ?thesis
    using flush_exact [OF gmem_env_ok ok md st w] demo_flush w by (auto simp: demo_md_def)
qed

interpretation gm: gate_db gmem_env gmview
  by unfold_locales (rule gmem_env_ok)

lemma gmem_answers: "answers gmem_env"
proof -
  have "fst (gmsrv r x) \<noteq> GFailed e" if "\<forall>c q u n. r \<noteq> GUpsert c q u n" for r x e
    using that by (cases r) (auto simp: gm_insert_def gm_on_first_def split: list.splits)
  then show ?thesis by (simp add: answers_def gmem_env_def)
qed

definition gst_of :: "gdoc list \<Rightarrow> gmem gst" where
  "gst_of ds = \<lparr>fdmd = [''f'' \<mapsto> demo_md], tdat = (\<lambda>_. None), podst = empty_store, urls = (\<lambda>_. None), consumers = (\<lambda>_. None), wsConns = (\<lambda>_. None),
     gate_rl = None, outer = gmem_of ds\<rparr>"

text \<open>A stored function with a trigger, two log records, and calls that were not flushed yet.\<close>

definition demo_ev :: FnEventDesc where
  "demo_ev = \<lparr>ev_ObjID = ''e'', ev_Key = ''url:f'', ev_FnId = ''f'', ev_Name = ''call'', ev_Source = ''url'', ev_Cron = None, ev_S3 = None, ev_WS = None\<rparr>"

definition demo_gst_full :: "gmem gst" where
  "demo_gst_full = gst_of [GFn demo_fn, GEv demo_ev, log_doc ''f'' ''event'' 1 ''registered'', log_doc ''g'' ''event'' 1 ''registered'']"

definition null_cfb :: cfb where
  "null_cfb = \<lparr>cfb_new = (\<lambda>_. True), cfb_enc = (\<lambda>_ _ m. m), cfb_dec = (\<lambda>_ _ m. m)\<rparr>"

lemma demo_ids: "gids_ok (gmview (outer demo_gst_full))"
  by (simp add: demo_gst_full_def gst_of_def gids_ok_gmem_of)

lemma demo_del_ok: "run_ok (fn_Del gmem_env null_cfb [] mkContext demo_fn) demo_gst_full"
  by code_simp

lemma demo_keys: "map fst (gm_keys (outer demo_gst_full)) = [DBColLogs, DBColLogs, DBColEvents, DBColFunc]"
  by code_simp

lemma demo_sane: "mware_sane gmem_env (gmview (outer demo_gst_full))"
proof -
  have "DBColMware \<notin> set (map fst (gm_keys (outer demo_gst_full)))" unfolding demo_keys by simp
  then have "(DBColMware, i) \<notin> set (gm_keys (outer demo_gst_full))" for i by force
  then show ?thesis by (simp add: mware_sane_def gmview_def)
qed

lemma demo_no_stats: "gmview (outer demo_gst_full) DBColFnStats i = None"
proof -
  have "DBColFnStats \<notin> set (map fst (gm_keys (outer demo_gst_full)))" unfolding demo_keys by simp
  then have "(DBColFnStats, i) \<notin> set (gm_keys (outer demo_gst_full))" by force
  then show ?thesis by (simp add: gmview_def)
qed


definition demo_add :: FunctionAdd where
  "demo_add = \<lparr>fa_Name = ''f'', fa_Project = ''p'', fa_Sources = None, fa_Lang = ''python'', fa_Env = [''A=1''],
     fa_Size = \<lparr>sz_Memory = 0, sz_Timeout = 2000, sz_Rate = 0, sz_Burst = 0\<rparr>, fa_Mware = [], fa_S3Buckets = [], fa_Accounts = [],
     fa_UserData = [], fa_AuthCtx = []\<rparr>"

definition demo_id :: SwoId where
  "demo_id = \<lparr>Tennant = ''t'', Project = ''p'', Name = ''f''\<rparr>"

lemma demo_desc: "getFunctionDesc gmem_env demo_id demo_add =
    Ok (new_desc gmem_env demo_id demo_add ''python'' \<lparr>sz_Memory = 128, sz_Timeout = 2000, sz_Rate = 0, sz_Burst = 0\<rparr>)"
  by code_simp

theorem getFunctionDesc_wf_witness:
  "wf_desc gmem_env (new_desc gmem_env demo_id demo_add ''python'' \<lparr>sz_Memory = 128, sz_Timeout = 2000, sz_Rate = 0, sz_Burst = 0\<rparr>)"
proof -
  have "sizes_ok gmem_env" by code_simp
  from getFunctionDesc_wf [where view = gmview and w = demo_gst_full, OF this demo_desc gmem_env_ok demo_ids demo_sane] show ?thesis by simp
qed

definition idle_fn :: FunctionDesc where
  "idle_fn = demo_fn\<lparr>fn_State := DBFuncStateStl\<rparr>"

lemma demo_run_add: "is_ok (fst (att_add gmem_env mkContext AMware idle_fn ''db'' demo_gst_full))"
  by code_simp

lemma demo_func: "gmview (outer demo_gst_full) DBColFunc i = Some d \<longleftrightarrow> i = ''1'' \<and> d = GFn demo_fn"
proof -
  obtain a b c where "gm_keys (outer demo_gst_full) = [(DBColLogs, a), (DBColLogs, b), (DBColEvents, c), (DBColFunc, ''1'')]"
  proof -
    have "drop 3 (gm_keys (outer demo_gst_full)) = [(DBColFunc, ''1'')]" by code_simp
    then show thesis using demo_keys that by (cases "gm_keys (outer demo_gst_full)" rule: list.exhaust) (auto simp: Cons_eq_map_conv)
  qed
  then have k: "(DBColFunc, i) \<in> set (gm_keys (outer demo_gst_full)) \<longleftrightarrow> i = ''1''" by simp
  have "gm_docs (outer demo_gst_full) (DBColFunc, ''1'') = Some (GFn demo_fn)" by code_simp
  then show ?thesis using k by (auto simp: gmview_def)
qed

theorem attachments_are_sets_witness:
  "att_sets (gmview (outer (snd (att_add gmem_env mkContext AMware idle_fn ''db'' demo_gst_full)))) ''1''
     = Some ((\<lambda>k. {})(AMware := {''db''}))"
proof -
  obtain r w' where run: "att_add gmem_env mkContext AMware idle_fn ''db'' demo_gst_full = (r, w')" by fastforce
  have r: "is_ok r" using demo_run_add run by simp
  have emp: "att_list k demo_fn = []" for k by (cases k) (simp_all add: demo_fn_def)
  have inv: "att_inv (gmview (outer demo_gst_full))" by (auto simp: att_inv_def demo_func emp)
  have "att_sets (gmview (outer demo_gst_full)) ''1'' = Some (\<lambda>k. {})"
    using demo_func [of "''1''" "GFn demo_fn"] by (simp add: att_sets_def emp)
  moreover have "fn_ObjID idle_fn = ''1''" by (simp add: idle_fn_def demo_fn_def)
  ultimately show ?thesis
    using attachments_are_sets [OF gmem_env_ok demo_ids inv demo_sane, of mkContext AMware idle_fn "''db''" r w'] run r by (simp add: att_spec_def)
qed

text \<open>A tenant whose limit is one function and who has two.\<close>

definition limited_gst :: "gmem gst" where
  "limited_gst = gst_of [GLimits \<lparr>ul_UId = ''t'', ul_Fn = Some \<lparr>fl_Rate = 0, fl_Burst = 0, fl_Max = 1, fl_GBS = 0, fl_BytesOut = 0\<rparr>, ul_Mware = [], ul_Repo = None\<rparr>,
     GFn demo_fn, GFn (demo_fn\<lparr>fn_ObjID := ''2'', fn_Cookie := ''g''\<rparr>)]"

theorem limit_never_hit_witness: "fst (checkFnCount gmem_env \<lparr>gx_Tenant = ''t'', gx_Role = UserRole\<rparr> limited_gst) = Ok ()"
  by (rule limit_never_hit [OF gmem_env_ok gmem_answers]) (simp add: limited_gst_def gst_of_def gids_ok_gmem_of)

text \<open>A function that is being deleted.\<close>

definition dying_fn :: FunctionDesc where
  "dying_fn = demo_fn\<lparr>fn_State := DBFuncStateTrm, fn_Cookie := ''t/p/f''\<rparr>"

lemma dying_func: "gmview (outer (gst_of [GFn dying_fn])) DBColFunc i = Some d \<longleftrightarrow> i = ''1'' \<and> d = GFn dying_fn"
proof -
  have k: "gm_keys (outer (gst_of [GFn dying_fn])) = [(DBColFunc, ''1'')]" by code_simp
  have "gm_docs (outer (gst_of [GFn dying_fn])) (DBColFunc, ''1'') = Some (GFn dying_fn)" by code_simp
  then show ?thesis using k by (auto simp: gmview_def)
qed

theorem pod_up_revives_witness:
  "gmview (outer (snd (notifyPodUp gmem_env mkContext demo_id (gst_of [GFn dying_fn])))) DBColFunc ''1''
     = Some (GFn (dying_fn\<lparr>fn_State := DBFuncStateRdy\<rparr>))"
proof -
  have may: "dbMayModify gmem_env mkContext" by code_simp
  have ids: "gids_ok (gmview (outer (gst_of [GFn dying_fn])))" by (simp add: gst_of_def gids_ok_gmem_of)
  have ck: "fn_Cookie dying_fn = Cookie (Cookify gmem_env) demo_id" "fn_ObjID dying_fn = ''1''"
    by (simp_all add: dying_fn_def demo_fn_def demo_id_def gmem_env_def Cookie_def cookie_path_def)
  have st: "stored_fn gmem_env (gmview (outer (gst_of [GFn dying_fn]))) demo_id dying_fn"
    by (simp add: stored_fn_def ck dying_func)
  show ?thesis using pod_up_revives [OF gmem_env_ok gmem_answers may ids st] by (simp add: ck)
qed

text \<open>A function with two pods that serves a call.\<close>

definition served_gst :: "gmem gst" where
  "served_gst = (gst_of [])\<lparr>fdmd := [''f'' \<mapsto> demo_md\<lparr>md_bd := two_pods\<rparr>], tdat := [''t'' \<mapsto> zero_TenantMemData zero_TenStatValues]\<rparr>"

definition demo_req :: http_req where
  "demo_req = \<lparr>hr_Method = ''GET'', hr_Path = ''/call/f/a'', hr_Query = [(''k'', [''v''])], hr_Auth = [], hr_CType = [], hr_Body = None\<rparr>"

definition demo_op :: statsOpaque where
  "demo_op = \<lparr>op_ts = 1, op_argsSz = 0, op_bodySz = 0\<rparr>"

lemma served_runs: "(case fst (fmd_Handle gmem_env demo_jwt ''f'' demo_req demo_op (run_args []) served_gst) of
    Ok a \<Rightarrow> snd a = Some demo_result | _ \<Rightarrow> False)"
  by code_simp


end
