(* ===== verification/Gate_Stats.thy ===== *)
theory Gate_Stats
  imports Gate_Deploy Gate_Demo
begin

text \<open>
  What is shown of the statistics: \<open>getStats\<close> and \<open>getCallStats\<close> of \<open>src/gate/stats.go\<close>, and the archives they read in
  \<open>src/gate/db.go\<close>. The counters in memory are cumulative and the archive has their values at the ends of past periods; the
  answer has one entry per period with what was counted in it. The theorem says that the entries add up to the counters in
  memory. Times are numbers; their text form is left to the reader of the answer.
\<close>

section \<open>Archives\<close>

text \<open>\<open>Sort("-till").Limit(nr)\<close>; a document without the field sorts last.\<close>

definition arch_till :: "gdoc \<Rightarrow> int option" where
  "arch_till d = (case d of GStatsA s \<Rightarrow> fs_Till s | GTenA s \<Rightarrow> tsd_Till s | _ \<Rightarrow> None)"

definition latest :: "int \<Rightarrow> gdoc list \<Rightarrow> gdoc list" where
  "latest nr ds = take (nat nr) (rev (sort_key (\<lambda>d. case arch_till d of None \<Rightarrow> 0 | Some t \<Rightarrow> t) (filter (\<lambda>d. arch_till d \<noteq> None) ds))
     @ filter (\<lambda>d. arch_till d = None) ds)"

text \<open>Counters, and the moment they are of; those in memory have none.\<close>

type_synonym 'v stat = "'v \<times> int option"

definition fn_stat :: "gdoc \<Rightarrow> FnStatValues stat" where
  "fn_stat d = (case d of GStatsA s \<Rightarrow> (fs_Values s, fs_Till s) | _ \<Rightarrow> (zero_FnStatValues, None))"

definition ten_stat :: "gdoc \<Rightarrow> TenStatValues stat" where
  "ten_stat d = (case d of GTenA s \<Rightarrow> (tsd_Values s, tsd_Till s) | _ \<Rightarrow> (zero_TenStatValues, None))"

definition dbFnStatsGetArch :: "'x gate_env \<Rightarrow> string \<Rightarrow> int \<Rightarrow> ('x, gdberr, FnStatValues stat list) go" where
  "dbFnStatsGetArch E i nr = maybe (gbind (dbFindAll E DBColFnStatsA (where_field ''cookie'' i)) (\<lambda>ds. gret (map fn_stat (latest nr ds)))) []"

definition dbTenStatsGetArch :: "'x gate_env \<Rightarrow> string \<Rightarrow> int \<Rightarrow> ('x, gdberr, TenStatValues stat list) go" where
  "dbTenStatsGetArch E tenant nr = maybe (gbind (dbFindAll E DBColTenStatsA (where_field ''tenant'' tenant)) (\<lambda>ds. gret (map ten_stat (latest nr ds)))) []"

section \<open>Periods\<close>

record FunctionStats =
  sf_Called :: "64 word"
  sf_Timeouts :: "64 word"
  sf_Errors :: "64 word"
  sf_LastCall :: "int option"
  sf_Time :: "64 word"
  sf_GBS :: float64
  sf_BytesOut :: "64 word"
  sf_Till :: int
  sf_From :: "int option"

record TenantStatsFn =
  stf_Called :: "64 word"
  stf_GBS :: float64
  stf_BytesOut :: "64 word"
  stf_Till :: int
  stf_From :: "int option"

definition TillS :: "'x gate_env \<Rightarrow> 'v stat \<Rightarrow> ('x, 'e, int) go" where
  "TillS E s = (case snd s of Some t \<Rightarrow> gret t | None \<Rightarrow> gout (gnow E))"

definition LastCallS :: "FnStatValues stat \<Rightarrow> int option" where
  "LastCallS s = (if Called (fst s) \<noteq> 0 then Some (LastCall (fst s)) else None)"

definition RunTimeUsec :: "FnStatValues \<Rightarrow> 64 word" where
  "RunTimeUsec v = word_of_int (quot64 (sint (RunTime v)) 1000)"

text \<open>One turn of the loop, and the entry after it, for the time before everything archived.\<close>

definition fn_period :: "'x gate_env \<Rightarrow> FnStatValues stat \<Rightarrow> FnStatValues stat \<Rightarrow> ('x, 'e, FunctionStats) go" where
  "fn_period E prev cur = gbind (TillS E prev) (\<lambda>till. gbind (TillS E cur) (\<lambda>from.
     gret \<lparr>sf_Called = Called (fst prev) - Called (fst cur), sf_Timeouts = Timeouts (fst prev) - Timeouts (fst cur),
       sf_Errors = Errors (fst prev) - Errors (fst cur), sf_LastCall = LastCallS prev,
       sf_Time = RunTimeUsec (fst prev) - RunTimeUsec (fst cur), sf_GBS = GBS E (RunCost (fst prev) - RunCost (fst cur)),
       sf_BytesOut = BytesOut (fst prev) - BytesOut (fst cur), sf_Till = till, sf_From = Some from\<rparr>))"

definition fn_oldest :: "'x gate_env \<Rightarrow> FnStatValues stat \<Rightarrow> ('x, 'e, FunctionStats) go" where
  "fn_oldest E prev = gbind (TillS E prev) (\<lambda>till.
     gret \<lparr>sf_Called = Called (fst prev), sf_Timeouts = Timeouts (fst prev), sf_Errors = Errors (fst prev), sf_LastCall = LastCallS prev,
       sf_Time = RunTimeUsec (fst prev), sf_GBS = GBS E (RunCost (fst prev)), sf_BytesOut = BytesOut (fst prev), sf_Till = till, sf_From = None\<rparr>)"

definition ten_period :: "'x gate_env \<Rightarrow> TenStatValues stat \<Rightarrow> TenStatValues stat \<Rightarrow> ('x, 'e, TenantStatsFn) go" where
  "ten_period E prev cur = gbind (TillS E prev) (\<lambda>till. gbind (TillS E cur) (\<lambda>from.
     gret \<lparr>stf_Called = ts_Called (fst prev) - ts_Called (fst cur), stf_GBS = GBS E (ts_RunCost (fst prev) - ts_RunCost (fst cur)),
       stf_BytesOut = ts_BytesOut (fst prev) - ts_BytesOut (fst cur), stf_Till = till, stf_From = Some from\<rparr>))"

definition ten_oldest :: "'x gate_env \<Rightarrow> TenStatValues stat \<Rightarrow> ('x, 'e, TenantStatsFn) go" where
  "ten_oldest E prev = gbind (TillS E prev) (\<lambda>till.
     gret \<lparr>stf_Called = ts_Called (fst prev), stf_GBS = GBS E (ts_RunCost (fst prev)), stf_BytesOut = ts_BytesOut (fst prev),
       stf_Till = till, stf_From = None\<rparr>)"

text \<open>The loop over the archive, newest first, and the entry after it.\<close>

fun by_period :: "('s \<Rightarrow> 's \<Rightarrow> ('w, 'e, 'p) go) \<Rightarrow> ('s \<Rightarrow> ('w, 'e, 'p) go) \<Rightarrow> 's \<Rightarrow> 's list \<Rightarrow> ('w, 'e, 'p list) go" where
  "by_period entry oldest prev [] = gbind (oldest prev) (\<lambda>p. gret [p])"
| "by_period entry oldest prev (cur # cs) = gbind (entry prev cur) (\<lambda>p. gbind (by_period entry oldest cur cs) (\<lambda>ps. gret (p # ps)))"

text \<open>\<open>memdGetFn\<close> gives no memory data only when it fails.\<close>

definition statsGet :: "'x gate_env \<Rightarrow> cfb \<Rightarrow> string \<Rightarrow> FunctionDesc \<Rightarrow> ('x gst, gdberr, FnStats) go" where
  "statsGet E C pas fn = gbind (memdGetFn E C pas fn) (\<lambda>md. gbind (deref md) (\<lambda>md. gret (md_stats md)))"

definition getStats :: "'x gate_env \<Rightarrow> cfb \<Rightarrow> string \<Rightarrow> FunctionDesc \<Rightarrow> int \<Rightarrow> ('x gst, ReqErr, FunctionStats list) go" where
  "getStats E C pas fn periods =
     gbind (fail_as (\<lambda>_. GateErrM GateGenErr ''Error getting stats'') (statsGet E C pas fn)) (\<lambda>st.
     gbind (if periods > 0 then or_GateErrD (dbFnStatsGetArch E (fn_Cookie fn) periods) else gret []) (\<lambda>afst.
     liftx (by_period (fn_period E) (fn_oldest E) (fst_Values st, None) (take (nat periods) afst))))"

definition getCallStats :: "'x gate_env \<Rightarrow> gateContext \<Rightarrow> int \<Rightarrow> ('x gst, ReqErr, TenantStatsFn list) go" where
  "getCallStats E ctx periods =
     gbind (fail_as GateErrD (tendatGet E ctx)) (\<lambda>td.
     gbind (if periods > 0 then or_GateErrD (dbTenStatsGetArch E (gx_Tenant ctx) periods) else gret []) (\<lambda>atst.
     liftx (by_period (ten_period E) (ten_oldest E) (tst_Values (td_stats td), None) (take (nat periods) atst))))"

section \<open>Entries add up\<close>

text \<open>A counter shown as \<open>f\<close> of an entry and kept as \<open>g\<close> of the statistics.\<close>

locale counter =
  fixes entry :: "'s \<Rightarrow> 's \<Rightarrow> ('w, 'e, 'p) go" and oldest :: "'s \<Rightarrow> ('w, 'e, 'p) go" and f :: "'p \<Rightarrow> 'n::ab_group_add" and g :: "'s \<Rightarrow> 'n"
  assumes entry: "entry prev cur w = (Ok p, w') \<Longrightarrow> f p = g prev - g cur"
    and oldest: "oldest prev w = (Ok p, w') \<Longrightarrow> f p = g prev"
begin

lemma adds_up: "by_period entry oldest prev cs w = (Ok ps, w') \<Longrightarrow> sum_list (map f ps) = g prev \<and> length ps = Suc (length cs)"
proof (induction cs arbitrary: prev w ps w')
  case Nil
  then show ?case by (auto elim!: gbind_OkD simp: gret_def dest: oldest)
next
  case (Cons cur cs)
  then obtain p w1 ps' w2 where p: "entry prev cur w = (Ok p, w1)" and ps: "by_period entry oldest cur cs w1 = (Ok ps', w2)" "ps = p # ps'"
    by (auto elim!: gbind_OkD simp: gret_def)
  then show ?case using Cons.IH [OF ps(1)] entry [OF p] by simp
qed

end

lemmas period_defs = fn_period_def fn_oldest_def ten_period_def ten_oldest_def

interpretation fn_called: counter "fn_period E" "fn_oldest E" sf_Called "\<lambda>s. Called (fst s)" for E
  by unfold_locales (auto simp: period_defs gret_def elim!: gbind_OkD)

interpretation fn_timeouts: counter "fn_period E" "fn_oldest E" sf_Timeouts "\<lambda>s. Timeouts (fst s)" for E
  by unfold_locales (auto simp: period_defs gret_def elim!: gbind_OkD)

interpretation fn_errors: counter "fn_period E" "fn_oldest E" sf_Errors "\<lambda>s. Errors (fst s)" for E
  by unfold_locales (auto simp: period_defs gret_def elim!: gbind_OkD)

interpretation fn_time: counter "fn_period E" "fn_oldest E" sf_Time "\<lambda>s. RunTimeUsec (fst s)" for E
  by unfold_locales (auto simp: period_defs gret_def elim!: gbind_OkD)

interpretation fn_out: counter "fn_period E" "fn_oldest E" sf_BytesOut "\<lambda>s. BytesOut (fst s)" for E
  by unfold_locales (auto simp: period_defs gret_def elim!: gbind_OkD)

interpretation ten_called: counter "ten_period E" "ten_oldest E" stf_Called "\<lambda>s. ts_Called (fst s)" for E
  by unfold_locales (auto simp: period_defs gret_def elim!: gbind_OkD)

interpretation ten_out: counter "ten_period E" "ten_oldest E" stf_BytesOut "\<lambda>s. ts_BytesOut (fst s)" for E
  by unfold_locales (auto simp: period_defs gret_def elim!: gbind_OkD)


lemma liftx_OkD:
  assumes "liftx f w = (Ok a, w')"
  obtains x' where "f (outer w) = (Ok a, x')"
  using assms by (auto simp: liftx_def split: prod.splits)

lemma fail_as_OkD: "fail_as m f w = (Ok a, w') \<Longrightarrow> f w = (Ok a, w')"
  by (auto simp: fail_as_def gtry_def gret_def gerr_def split: prod.splits res.splits)

lemma getStats_runs:
  assumes "getStats E C pas fn periods w = (Ok ss, w')"
  obtains st w1 cs x x' where "statsGet E C pas fn w = (Ok st, w1)" and "length cs \<le> nat periods"
    and "by_period (fn_period E) (fn_oldest E) (fst_Values st, None) cs x = (Ok ss :: (ReqErr, FunctionStats list) res, x')"
proof -
  from assms obtain st w1 where st: "fail_as (\<lambda>_. GateErrM GateGenErr ''Error getting stats'') (statsGet E C pas fn) w = (Ok st, w1)"
    and "gbind (if periods > 0 then or_GateErrD (dbFnStatsGetArch E (fn_Cookie fn) periods) else gret []) (\<lambda>afst.
      liftx (by_period (fn_period E) (fn_oldest E) (fst_Values st, None) (take (nat periods) afst))) w1 = (Ok ss, w')"
    unfolding getStats_def by (rule gbind_OkD)
  then show thesis
  proof (elim gbind_OkD)
    fix afst w2
    assume "liftx (by_period (fn_period E) (fn_oldest E) (fst_Values st, None) (take (nat periods) afst)) w2 = (Ok ss :: (ReqErr, FunctionStats list) res, w')"
    then obtain x' where "by_period (fn_period E) (fn_oldest E) (fst_Values st, None) (take (nat periods) afst) (outer w2) = (Ok ss :: (ReqErr, FunctionStats list) res, x')"
      by (rule liftx_OkD)
    then show thesis by (rule that [OF fail_as_OkD [OF st] _, rotated]) simp
  qed
qed

text \<open>
  C19. The statistics of a function, shown by periods, are complete: whatever the archive holds, calls, timeouts, errors, run
  time and bytes sent of all the entries together are the counters the gate has in memory for the function, modulo the
  64 bits of a counter, and there is at most one entry per requested period and one for the time before.
\<close>

theorem stats_add_up:
  assumes "getStats E C pas fn periods w = (Ok ss, w')"
  shows "\<exists>st w1. statsGet E C pas fn w = (Ok st, w1)
    \<and> sum_list (map sf_Called ss) = Called (fst_Values st) \<and> sum_list (map sf_Timeouts ss) = Timeouts (fst_Values st)
    \<and> sum_list (map sf_Errors ss) = Errors (fst_Values st) \<and> sum_list (map sf_Time ss) = RunTimeUsec (fst_Values st)
    \<and> sum_list (map sf_BytesOut ss) = BytesOut (fst_Values st) \<and> 1 \<le> length ss \<and> length ss \<le> nat periods + 1"
proof -
  obtain st w1 cs x x' where st: "statsGet E C pas fn w = (Ok st, w1)" and cs: "length cs \<le> nat periods"
    and r: "by_period (fn_period E) (fn_oldest E) (fst_Values st, None) cs x = (Ok ss :: (ReqErr, FunctionStats list) res, x')"
    using getStats_runs [OF assms] .
  show ?thesis using st cs fn_called.adds_up [OF r] fn_timeouts.adds_up [OF r] fn_errors.adds_up [OF r] fn_time.adds_up [OF r] fn_out.adds_up [OF r]
    by auto
qed

text \<open>The same for a tenant.\<close>

lemma tenant_stats_add_up:
  assumes "getCallStats E ctx periods w = (Ok ss, w')"
  shows "\<exists>td w1. tendatGet E ctx w = (Ok td, w1) \<and> sum_list (map stf_Called ss) = ts_Called (tst_Values (td_stats td))
    \<and> sum_list (map stf_BytesOut ss) = ts_BytesOut (tst_Values (td_stats td))"
proof -
  from assms obtain td w1 where td: "fail_as GateErrD (tendatGet E ctx) w = (Ok td, w1)"
    and "gbind (if periods > 0 then or_GateErrD (dbTenStatsGetArch E (gx_Tenant ctx) periods) else gret []) (\<lambda>atst.
      liftx (by_period (ten_period E) (ten_oldest E) (tst_Values (td_stats td), None) (take (nat periods) atst))) w1 = (Ok ss, w')"
    unfolding getCallStats_def by (rule gbind_OkD)
  then show ?thesis
  proof (elim gbind_OkD)
    fix atst w2
    assume "liftx (by_period (ten_period E) (ten_oldest E) (tst_Values (td_stats td), None) (take (nat periods) atst)) w2 = (Ok ss :: (ReqErr, TenantStatsFn list) res, w')"
    then obtain x' where r: "by_period (ten_period E) (ten_oldest E) (tst_Values (td_stats td), None) (take (nat periods) atst) (outer w2) = (Ok ss :: (ReqErr, TenantStatsFn list) res, x')"
      by (rule liftx_OkD)
    show ?thesis using fail_as_OkD [OF td] ten_called.adds_up [OF r] ten_out.adds_up [OF r] by auto
  qed
qed


section \<open>Witness\<close>

definition arch_doc :: gdoc where
  "arch_doc = GStatsA \<lparr>fs_Cookie = ''f'', fs_Values = zero_FnStatValues\<lparr>Called := 1\<rparr>, fs_Dropped = None, fs_Till = Some 5\<rparr>"

lemma arch_runs: "run_ok (getStats gmem_env no_cfb [] demo_fn 2) (gst_of [arch_doc])"
  by code_simp

lemma arch_stats: "fst (statsGet gmem_env no_cfb [] demo_fn (gst_of [arch_doc])) = Ok (md_stats demo_md)"
  by code_simp

theorem stats_add_up_witness:
  "case getStats gmem_env no_cfb [] demo_fn 2 (gst_of [arch_doc]) of (Ok ss, _) \<Rightarrow> sum_list (map sf_Called ss) = 3 \<and> sum_list (map sf_Errors ss) = 1 | _ \<Rightarrow> False"
proof -
  obtain ss w' where r: "getStats gmem_env no_cfb [] demo_fn 2 (gst_of [arch_doc]) = (Ok ss, w')" using run_okE [OF arch_runs] .
  obtain w1 where "statsGet gmem_env no_cfb [] demo_fn (gst_of [arch_doc]) = (Ok (md_stats demo_md), w1)" using arch_stats by (metis prod.collapse)
  then show ?thesis using stats_add_up [OF r] by (auto simp: r demo_md_def)
qed

end
