(* ===== verification/Spec2Isabelle.thy ===== *)
theory Spec2Isabelle
  imports Ratelimit Xqueue Xhttp S3_Error S3_Policy Crypt S3_Serve S3_Repair Gate_Stats
begin

text \<open>
  Verification development of the Swifty serverless platform.

  \<^bold>\<open>The program.\<close> Swifty runs functions of its users in Kubernetes pods. Two daemons carry the platform's own logic. The gate
  (\<open>src/gate\<close>) keeps functions, their triggers, middleware, accounts, repositories, routers and deployments in MongoDB, keeps
  memory data, running pods, limits and statistics in its process, and forwards calls to pods. The S3 service (\<open>src/s3\<close>) stores
  objects, as documents in MongoDB and chunks in RADOS, behind the S3 protocol. Both rest on \<open>src/common\<close>.

  \<^bold>\<open>How code becomes definitions.\<close> A Go function that touches the outside is a function from a state to an outcome and a state
  (\<open>go\<close> in \<open>Prelude\<close>); the outcome is a result, an error value or a run-time panic. The combinators \<open>gbind\<close>, \<open>gtry\<close>, \<open>gseq\<close>,
  \<open>gfold\<close> and \<open>geach\<close> are the code's patterns of checking, looking at and dropping errors and of loops. Structures are records,
  unions are datatypes, machine integers are words or integers with the wrap-around written out, times are integers.
  An object that a method changes through its pointer is returned changed. Names are those of the source;
  a prefix is added where two methods share one (\<open>fn_Del\<close>, \<open>mw_Del\<close>, \<open>rt_Del\<close>, \<open>dep_Del\<close> are the methods \<open>Del\<close> of a function, of
  middleware, of a router and of a deployment). Metrics, log messages and traces are left out everywhere. A goroutine that
  works on the outside is a definition of its own, started where the text before its caller says.

  \<^bold>\<open>Parameters and their laws.\<close> Databases, Kubernetes, RADOS, clocks, random numbers, ciphers, hashes, codecs, git and the
  HTTP client are fields of environment records: \<open>gate_env\<close> (\<open>Gate_DB\<close>), \<open>repo_env\<close> (\<open>Gate_Repo\<close>), \<open>dep_env\<close> (\<open>Gate_Deploy\<close>), the
  environment of the S3 service (\<open>S3_DB\<close>, \<open>S3_Data\<close>), \<open>cfb\<close> (\<open>Crypt\<close>) and the token library of \<open>Jwt\<close>. What a theorem needs of
  them is a named hypothesis: \<open>gmongo_ok\<close> and its counterpart of \<open>S3_DB\<close> say what each database request does to the documents
  for each answer, that a failed request changes nothing, and that the other calls leave the database alone; \<open>cfb_ok\<close> says
  that the stream cipher undoes itself. \<open>Gate_Store\<close> and \<open>S3_Mem\<close> are executable in-memory databases that satisfy the laws;
  the witnesses run the model in them.

  \<^bold>\<open>Common parts.\<close>
  \<^item> \<open>Prelude\<close>, \<open>Go_Strings\<close>, \<open>Base64\<close>: outcomes, combinators and weakest preconditions; the parts of Go's \<open>strings\<close>, \<open>strconv\<close>,
    \<open>net/url\<close> and \<open>encoding/base64\<close> that the code uses.
  \<^item> \<open>Ratelimit\<close> (\<open>common/ratelimit\<close>): the token bucket at 64 bits and the bound on what it admits.
  \<^item> \<open>Xqueue\<close> (\<open>common/xqueue\<close>): messages split into packets and put together again.
  \<^item> \<open>Xhttp\<close> (\<open>common/http\<close>): headers, ranges, listening modes.
  \<^item> \<open>Crypt\<close> (\<open>common/crypt.go\<close>): encryption of strings and its
    round trip.

  \<^bold>\<open>S3 service.\<close>
  \<^item> \<open>S3_Error\<close>, \<open>S3_Policy\<close>: error table; action bits, canned policies and exactly what they grant.
  \<^item> \<open>S3_Types\<close>, \<open>S3_DB\<close>, \<open>S3_Mem\<close>: documents, database wrappers, life cycle of documents, the in-memory database.
  \<^item> \<open>S3_Keys\<close>, \<open>S3_Sign\<close>: accounts, identities and keys; canonical requests, signatures and authorization, sound and complete.
  \<^item> \<open>S3_Acct\<close>: counters of buckets and namespaces, limits; accounting is all or nothing.
  \<^item> \<open>S3_Data\<close>, \<open>S3_Object\<close>: body reader, chunks, parts, objects, collector of old versions; what is put is read back.
  \<^item> \<open>S3_Bucket\<close>, \<open>S3_Upload\<close>: buckets, websites, notifications; multipart uploads with their reference and lock counters under
    every interleaving (locale \<open>counted_lock\<close>, interpreted for the counters of an upload).
  \<^item> \<open>S3_List\<close>: validation, query and paging of listings; pages are complete.
  \<^item> \<open>S3_Http\<close>, \<open>S3_Serve\<close>: the handlers with their checks and the wrapper around them; who reaches an object, and that a ranged
    download is the slice of the object.
  \<^item> \<open>S3_Repair\<close>: the repair run at start-up and what holds after it.

  \<^bold>\<open>Gate.\<close>
  \<^item> \<open>Gate_Ids\<close>: ids, cookies, names, errors of the API.
  \<^item> \<open>Gate_Pods\<close>, \<open>Gate_Scaler\<close>, \<open>Gate_Balancer\<close>: pods store with its locks as
    a step relation that refines a map, the scaling goroutine, choice of a pod and nested rate limits.
  \<^item> \<open>Gate_DB\<close>, \<open>Gate_Store\<close>, \<open>Gate_Mem\<close>: documents and database access, memory data of functions and tenants, flush of
    statistics. \<open>gst\<close> is the gate's state: memory data, pods, cached URLs, consumers, websocket connections and the outside.
  \<^item> \<open>Gate_Attach\<close>, \<open>Gate_Runtime\<close>: environment of a pod, languages, sources, builds, deployments in Kubernetes.
  \<^item> \<open>Gate_Event\<close>: triggers. Locale \<open>event_handler\<close> is the contract of a kind of trigger; \<open>gate_db\<close> fixes an environment with
    the database laws and is a sublocale source for the four kinds and for the table that dispatches to them.
  \<^item> \<open>Gate_Func\<close>, \<open>Gate_Del\<close>: functions; their attachments are sets (locales \<open>attachment\<close>, \<open>attachment_kind\<close>, interpreted for
    middleware, accounts and buckets); deletion is complete.
  \<^item> \<open>Jwt\<close>, \<open>Gate_Call\<close>: tokens made in pods and checked by the gate; the path of a call with its accounting.
  \<^item> \<open>Gate_Router\<close>: routers and the routing of requests.
  \<^item> \<open>Gate_Mware\<close>: middleware with all drivers (locale \<open>mw_driver\<close>,
    interpreted for the six of them), websockets.
  \<^item> \<open>Gate_Accounts\<close>, \<open>Gate_Repo\<close>: accounts of other services; repositories, their clones and pulls and the update of functions.
  \<^item> \<open>Gate_Frame\<close>: what operations leave alone, as orders on database contents (locales \<open>view_order\<close>, \<open>func_order\<close>, interpreted
    for equality of a collection, for disappearing documents and for changes of functions only).
  \<^item> \<open>Gate_Deploy\<close>: deployments: reading of descriptions, start, stop; removal is complete, a failed start leaves middleware.
  \<^item> \<open>Gate_Stats\<close>: statistics by period, which add up to the counters (locale \<open>counter\<close>, interpreted for each counter).
  \<^item> \<open>Gate_Demo\<close>: concrete functions and tenants for the witnesses of the gate.

  \<^bold>\<open>Bounds.\<close> Loops over data are structural recursions or have a measure. Includes of deployment descriptions are bounded by
  \<open>maxIncludeDepth\<close>, as in the code. Where the code itself retries without a bound (adding a pod, the scaler), the model is a
  step relation or a partial function, and that it ends is a theorem under the hypotheses it states.

  \<^bold>\<open>Not modelled.\<close> The generic REST handlers and the factories behind them (\<open>common/xrest\<close>, most of \<open>gate/handlers.go\<close>), packages,
  traces, configuration and metrics; the listing of a clone as a tree; the resumption of deployments at start-up; the
  administration daemon \<open>admd\<close>, the watchdog's process management, the database proxies, scrapers, the quota daemon, \<open>pgrest\<close>
  and the command-line tools, which are separate programs around third-party services. JSON, YAML and XML texts are values
  already read or still to be written.
\<close>

end
